(* ===== verification/Media_Prelude.thy ===== *)
theory Media_Prelude
  imports Main "HOL-Library.Word" "HOL-Library.Multiset"
begin

text \<open>
  Shared vocabulary of the development: panics and error results, the integer casts of the
  code (\<open>as u8\<close>, \<open>as u16\<close>, \<open>as i64\<close>, \<dots>), the insertion-ordered maps and sets the room
  components keep (\<open>IndexMap\<close> and \<open>IndexSet\<close>, with the order that \<open>insert\<close> and
  \<open>swap_remove\<close> give them), the \<open>index_map\<close> interface that client proofs rest on, and generic
  lemmas on modular arithmetic and lists.
\<close>

section \<open>Panics and results\<close>

datatype panic = AssertFailed | ExpectNone | DivByZero | OutOfRange | Overflow | Unreachable

type_synonym 'a res = "panic + 'a"

fun res_bind :: "'a res \<Rightarrow> ('a \<Rightarrow> 'b res) \<Rightarrow> 'b res" where
  "res_bind (Inl e) f = Inl e"
| "res_bind (Inr x) f = f x"

definition rassert :: "bool \<Rightarrow> 'a res \<Rightarrow> 'a res" where
  "rassert b r = (if b then r else Inl AssertFailed)"

definition rexpect :: "'a option \<Rightarrow> 'a res" where
  "rexpect x = (case x of None \<Rightarrow> Inl ExpectNone | Some y \<Rightarrow> Inr y)"

named_theorems panic_simps \<open>evaluation of panicking code\<close>
named_theorems media_inv \<open>invariant preservation facts of the components\<close>

lemma rassert_True [simp]: "b \<Longrightarrow> rassert b r = r"
  by (simp add: rassert_def)

lemma rassert_Inr [panic_simps]: "rassert b r = Inr x \<longleftrightarrow> b \<and> r = Inr x"
  by (simp add: rassert_def)

lemma rexpect_simps [simp]: "rexpect None = Inl ExpectNone" "rexpect (Some y) = Inr y"
  by (simp_all add: rexpect_def)

lemma rexpect_Inr [panic_simps]: "rexpect x = Inr y \<longleftrightarrow> x = Some y"
  by (cases x) simp_all

lemma res_bind_Inr [panic_simps]: "res_bind r f = Inr y \<longleftrightarrow> (\<exists>x. r = Inr x \<and> f x = Inr y)"
  by (cases r) simp_all

section \<open>Integer casts\<close>

text \<open>Unsigned values are naturals; a narrowing cast keeps the low bits. A signed 64-bit value is an
  integer; \<open>as_i64\<close> and \<open>as_u64\<close> are the two's complement reinterpretations.\<close>

definition as_u8 :: "nat \<Rightarrow> nat" where
  "as_u8 n = n mod 2 ^ 8"

definition as_u16 :: "nat \<Rightarrow> nat" where
  "as_u16 n = n mod 2 ^ 16"

definition as_u32 :: "nat \<Rightarrow> nat" where
  "as_u32 n = n mod 2 ^ 32"

definition as_i64 :: "nat \<Rightarrow> int" where
  "as_i64 n = (if n < 2 ^ 63 then int n else int n - 2 ^ 64)"

definition as_u64 :: "int \<Rightarrow> nat" where
  "as_u64 i = nat (i mod 2 ^ 64)"

text \<open>The remainder of Rust's signed \<open>%\<close>: it takes the sign of the dividend.\<close>

definition trem :: "int \<Rightarrow> int \<Rightarrow> int" where
  "trem a b = (if 0 \<le> a then a mod \<bar>b\<bar> else - ((- a) mod \<bar>b\<bar>))"

lemma as_u8_id [simp]: "n < 2 ^ 8 \<Longrightarrow> as_u8 n = n"
  by (simp add: as_u8_def)

lemma as_u16_id [simp]: "n < 2 ^ 16 \<Longrightarrow> as_u16 n = n"
  by (simp add: as_u16_def)

lemma as_u16_less [simp]: "as_u16 n < 65536"
  by (simp add: as_u16_def)

lemma as_u32_less [simp]: "as_u32 n < 4294967296"
  by (simp add: as_u32_def)

lemma as_i64_small: "n < 2 ^ 63 \<Longrightarrow> as_i64 n = int n"
  by (simp add: as_i64_def)

lemma as_u64_nonneg: "0 \<le> i \<Longrightarrow> i < 2 ^ 64 \<Longrightarrow> as_u64 i = nat i"
  by (simp add: as_u64_def)

lemma trem_bound: "0 < b \<Longrightarrow> \<bar>trem a b\<bar> < b"
  by (simp add: trem_def)

lemma trem_mod: "0 < b \<Longrightarrow> trem a b mod b = a mod b"
  by (cases "0 \<le> a") (simp_all add: trem_def mod_minus_eq)

lemma as_u32_as_u64: "int (as_u32 (as_u64 i)) = i mod 2 ^ 32"
proof -
  have "int (as_u32 (as_u64 i)) = (i mod 2 ^ 64) mod 2 ^ 32"
    by (simp add: as_u32_def as_u64_def zmod_int)
  also have "\<dots> = i mod 2 ^ 32"
    by (rule mod_mod_cancel) (simp add: le_imp_power_dvd)
  finally show ?thesis .
qed

text \<open>The narrowing cast cancels the sign of Rust's remainder: the low 32 bits are the true residue.\<close>

lemma as_u32_trem: "int (as_u32 (as_u64 (trem i (2 ^ 32)))) = i mod 2 ^ 32"
  by (simp add: as_u32_as_u64 trem_mod)

section \<open>Insertion-ordered maps\<close>

text \<open>The contents of an \<open>IndexMap\<close> in iteration order. \<open>im_insert\<close> overwrites in place or appends,
  \<open>im_swap_remove\<close> puts the last entry in the place of the removed one.\<close>

type_synonym ('k, 'v) imap = "('k \<times> 'v) list"

abbreviation im_get :: "('k, 'v) imap \<Rightarrow> 'k \<Rightarrow> 'v option" where
  "im_get \<equiv> map_of"

abbreviation im_keys :: "('k, 'v) imap \<Rightarrow> 'k list" where
  "im_keys m \<equiv> map fst m"

abbreviation im_values :: "('k, 'v) imap \<Rightarrow> 'v list" where
  "im_values m \<equiv> map snd m"

definition im_contains :: "('k, 'v) imap \<Rightarrow> 'k \<Rightarrow> bool" where
  "im_contains m k \<longleftrightarrow> im_get m k \<noteq> None"

fun im_insert :: "('k, 'v) imap \<Rightarrow> 'k \<Rightarrow> 'v \<Rightarrow> ('k, 'v) imap" where
  "im_insert [] k v = [(k, v)]"
| "im_insert ((k', v') # m) k v =
     (if k' = k then (k', v) # m else (k', v') # im_insert m k v)"

text \<open>Vec's and IndexMap's \<open>swap_remove\<close> at an index: the last element takes the hole.\<close>

definition swap_remove_at :: "nat \<Rightarrow> 'a list \<Rightarrow> 'a list" where
  "swap_remove_at i xs = butlast (xs[i := last xs])"

fun index_of :: "('a \<Rightarrow> bool) \<Rightarrow> 'a list \<Rightarrow> nat option" where
  "index_of P [] = None"
| "index_of P (x # xs) = (if P x then Some 0 else map_option Suc (index_of P xs))"

definition im_swap_remove :: "('k, 'v) imap \<Rightarrow> 'k \<Rightarrow> ('k, 'v) imap" where
  "im_swap_remove m k =
     (case index_of (\<lambda>e. fst e = k) m of None \<Rightarrow> m | Some i \<Rightarrow> swap_remove_at i m)"

text \<open>Sets keep their members in the same order.\<close>

type_synonym 'a iset = "'a list"

definition is_insert :: "'a iset \<Rightarrow> 'a \<Rightarrow> 'a iset" where
  "is_insert s x = (if x \<in> set s then s else s @ [x])"

definition is_swap_remove :: "'a iset \<Rightarrow> 'a \<Rightarrow> 'a iset" where
  "is_swap_remove s x =
     (case index_of (\<lambda>e. e = x) s of None \<Rightarrow> s | Some i \<Rightarrow> swap_remove_at i s)"

definition im_wf :: "('k, 'v) imap \<Rightarrow> bool" where
  "im_wf m \<longleftrightarrow> distinct (im_keys m)"

section \<open>Lemmas on positions and swap\_remove\<close>

lemma index_of_None: "index_of P xs = None \<longleftrightarrow> (\<forall>x\<in>set xs. \<not> P x)"
  by (induction xs) auto

lemma index_of_Some: "index_of P xs = Some i \<Longrightarrow> i < length xs \<and> P (xs ! i)"
  by (induction xs arbitrary: i) (auto split: if_splits)

lemma swap_remove_at_mset:
  assumes "i < length xs"
  shows "mset (swap_remove_at i xs) = mset xs - {#xs ! i#}"
proof -
  have ne: "xs \<noteq> []" using assms by auto
  let ?ys = "xs[i := last xs]"
  have lne: "?ys \<noteq> []" using ne by simp
  have last: "last ?ys = last xs"
    using assms ne by (simp add: last_conv_nth nth_list_update)
  have "mset (butlast ?ys) + {#last ?ys#} = mset ?ys"
    using append_butlast_last_id[OF lne] by (metis mset_append mset.simps)
  then have "mset (butlast ?ys) = mset ?ys - {#last xs#}"
    by (metis add_diff_cancel_right' last)
  also have "\<dots> = mset xs - {#xs ! i#}"
    using assms by (simp add: mset_update)
  finally show ?thesis by (simp add: swap_remove_at_def)
qed

lemma swap_remove_at_set:
  assumes "i < length xs" and "distinct xs"
  shows "set (swap_remove_at i xs) = set xs - {xs ! i}" and "distinct (swap_remove_at i xs)"
proof -
  from assms(2) have "count (mset xs) = (\<lambda>x. if x \<in> set xs then 1 else 0)"
    by (auto simp: fun_eq_iff distinct_count_atmost_1)
  then have c: "count (mset (swap_remove_at i xs)) x =
      (if x \<in> set xs then 1 else 0) - (if x = xs ! i then 1 else 0)" for x
    using assms(1) by (simp add: swap_remove_at_mset)
  show "set (swap_remove_at i xs) = set xs - {xs ! i}"
  proof (rule set_eqI)
    fix x
    have "x \<in> set (swap_remove_at i xs) \<longleftrightarrow> 0 < count (mset (swap_remove_at i xs)) x"
      by (simp add: count_greater_zero_iff)
    also have "\<dots> \<longleftrightarrow> x \<in> set xs - {xs ! i}"
      unfolding c by auto
    finally show "x \<in> set (swap_remove_at i xs) \<longleftrightarrow> x \<in> set xs - {xs ! i}" .
  qed
  show "distinct (swap_remove_at i xs)"
  proof (rule ccontr)
    assume "\<not> distinct (swap_remove_at i xs)"
    then obtain x where "1 < count (mset (swap_remove_at i xs)) x"
      by (metis count_eq_zero_iff distinct_count_atmost_1 less_one linorder_neqE_nat set_mset_mset)
    then show False by (simp add: c split: if_splits)
  qed
qed

lemma map_swap_remove_at: "map f (swap_remove_at i xs) = swap_remove_at i (map f xs)"
proof (cases "xs = []")
  case True
  then show ?thesis by (simp add: swap_remove_at_def)
next
  case False
  then show ?thesis
    by (simp add: swap_remove_at_def map_butlast map_update last_map)
qed

section \<open>Laws of ordered maps and sets\<close>

lemma im_insert_get [simp]: "im_get (im_insert m k v) = (im_get m)(k \<mapsto> v)"
  by (induction m k v rule: im_insert.induct) (auto simp: fun_eq_iff)

lemma im_insert_keys [simp]: "set (im_keys (im_insert m k v)) = insert k (set (im_keys m))"
  by (induction m k v rule: im_insert.induct) auto

lemma im_insert_fst_image [simp]: "fst ` set (im_insert m k v) = insert k (fst ` set m)"
  using im_insert_keys[of m k v] by simp

lemma im_insert_wf [simp]: "im_wf m \<Longrightarrow> im_wf (im_insert m k v)"
proof (induction m k v rule: im_insert.induct)
  case (1 k v)
  then show ?case by (simp add: im_wf_def)
next
  case (2 k' v' m k v)
  then show ?case by (auto simp: im_wf_def)
qed

lemma im_insert_not_Nil [simp]: "im_insert m k v \<noteq> []"
  by (cases m) (auto split: if_splits)

lemma im_wf_Nil [simp]: "im_wf []"
  by (simp add: im_wf_def)

lemma im_swap_remove_absent: "im_get m k = None \<Longrightarrow> im_swap_remove m k = m"
proof -
  assume "im_get m k = None"
  then have "k \<notin> fst ` set m" by (simp add: map_of_eq_None_iff)
  then have "index_of (\<lambda>e. fst e = k) m = None" by (auto simp: index_of_None image_iff)
  then show ?thesis by (simp add: im_swap_remove_def)
qed

lemma im_swap_remove_wf_set:
  assumes "im_wf m"
  shows "im_wf (im_swap_remove m k)" and "set (im_swap_remove m k) = {e \<in> set m. fst e \<noteq> k}"
proof -
  have dk: "distinct (im_keys m)" using assms by (simp add: im_wf_def)
  then have dm: "distinct m" by (simp add: distinct_map)
  show "im_wf (im_swap_remove m k)"
  proof (cases "index_of (\<lambda>e. fst e = k) m")
    case None
    then show ?thesis using assms by (simp add: im_swap_remove_def)
  next
    case (Some i)
    then have "i < length m" using index_of_Some by blast
    then show ?thesis
      using Some dk swap_remove_at_set(2)[of i "im_keys m"]
      by (simp add: im_swap_remove_def im_wf_def map_swap_remove_at)
  qed
  show "set (im_swap_remove m k) = {e \<in> set m. fst e \<noteq> k}"
  proof (cases "index_of (\<lambda>e. fst e = k) m")
    case None
    moreover from this have "\<forall>e\<in>set m. fst e \<noteq> k" by (simp only: index_of_None)
    ultimately show ?thesis by (auto simp: im_swap_remove_def)
  next
    case (Some i)
    then have i: "i < length m" "fst (m ! i) = k" using index_of_Some by blast+
    have "e = m ! i" if "e \<in> set m" "fst e = k" for e
      using that i dk by (metis (full_types) eq_key_imp_eq_value nth_mem prod.collapse)
    then show ?thesis
      using Some i swap_remove_at_set(1)[OF i(1) dm] by (auto simp: im_swap_remove_def)
  qed
qed

lemmas im_swap_remove_wf [simp] = im_swap_remove_wf_set(1)
lemmas im_swap_remove_set = im_swap_remove_wf_set(2)

lemma im_swap_remove_get [simp]:
  assumes "im_wf m"
  shows "im_get (im_swap_remove m k) = (im_get m)(k := None)"
proof
  fix j
  have d: "distinct (im_keys m)" "distinct (im_keys (im_swap_remove m k))"
    using assms im_swap_remove_wf[OF assms, of k] by (simp_all add: im_wf_def)
  have "im_get (im_swap_remove m k) j = Some v \<longleftrightarrow> ((im_get m)(k := None)) j = Some v" for v
    using d im_swap_remove_set[OF assms, of k] by (auto simp: map_of_eq_Some_iff)
  then show "im_get (im_swap_remove m k) j = ((im_get m)(k := None)) j"
    by (metis option.exhaust)
qed

lemma im_get_Nil_iff: "m = [] \<longleftrightarrow> im_get m = Map.empty"
  by (cases m) (auto simp: fun_eq_iff)

lemma is_insert_set [simp]: "set (is_insert s x) = insert x (set s)"
  by (auto simp: is_insert_def)

lemma is_insert_distinct [simp]: "distinct s \<Longrightarrow> distinct (is_insert s x)"
  by (simp add: is_insert_def)

lemma is_insert_not_Nil [simp]: "is_insert s x \<noteq> []"
  by (auto simp: is_insert_def)

lemma is_swap_remove_set_distinct:
  assumes "distinct s"
  shows "set (is_swap_remove s x) = set s - {x}" and "distinct (is_swap_remove s x)"
proof -
  show "set (is_swap_remove s x) = set s - {x}"
  proof (cases "index_of (\<lambda>e. e = x) s")
    case None
    moreover from this have "x \<notin> set s" by (auto simp: index_of_None)
    ultimately show ?thesis by (simp add: is_swap_remove_def)
  next
    case (Some i)
    then have "i < length s" "s ! i = x" using index_of_Some by blast+
    then show ?thesis
      using Some assms swap_remove_at_set(1)[of i s] by (simp add: is_swap_remove_def)
  qed
  show "distinct (is_swap_remove s x)"
  proof (cases "index_of (\<lambda>e. e = x) s")
    case None
    then show ?thesis using assms by (simp add: is_swap_remove_def)
  next
    case (Some i)
    then have "i < length s" using index_of_Some by blast
    then show ?thesis
      using Some assms swap_remove_at_set(2)[of i s] by (simp add: is_swap_remove_def)
  qed
qed

lemmas is_swap_remove_set [simp] = is_swap_remove_set_distinct(1)
lemmas is_swap_remove_distinct [simp] = is_swap_remove_set_distinct(2)

section \<open>The map interface of the room components\<close>

text \<open>What the components rely on of their maps: lookups after an update, and that the entries
  enumerate exactly the bound keys.\<close>

locale index_map =
  fixes empty :: "'m"
    and insert :: "'m \<Rightarrow> 'k \<Rightarrow> 'v \<Rightarrow> 'm"
    and remove :: "'m \<Rightarrow> 'k \<Rightarrow> 'm"
    and get :: "'m \<Rightarrow> 'k \<Rightarrow> 'v option"
    and keys :: "'m \<Rightarrow> 'k list"
    and wf :: "'m \<Rightarrow> bool"
  assumes wf_empty: "wf empty"
    and wf_insert: "wf m \<Longrightarrow> wf (insert m k v)"
    and wf_remove: "wf m \<Longrightarrow> wf (remove m k)"
    and get_empty: "get empty k = None"
    and get_insert: "get (insert m k v) = (get m)(k \<mapsto> v)"
    and get_remove: "wf m \<Longrightarrow> get (remove m k) = (get m)(k := None)"
    and keys_get: "set (keys m) = dom (get m)"
    and keys_distinct: "wf m \<Longrightarrow> distinct (keys m)"
begin

lemma remove_insert_fresh:
  assumes "wf m" "get m k = None"
  shows "get (remove (insert m k v) k) = get m"
  using assms by (simp add: get_remove get_insert wf_insert fun_upd_idem)

lemma insert_insert: "get (insert (insert m k v) k v') = get (insert m k v')"
  by (simp add: get_insert)

lemma length_keys: "wf m \<Longrightarrow> length (keys m) = card (dom (get m))"
  by (metis distinct_card keys_distinct keys_get)

lemma length_keys_insert:
  assumes "wf m"
  shows "length (keys (insert m k v)) = length (keys m) + (if get m k = None then 1 else 0)"
proof -
  have "finite (dom (get m))" by (metis List.finite_set keys_get)
  then show ?thesis
    using assms by (auto simp: length_keys wf_insert get_insert card_insert_if domIff)
qed

lemma length_keys_remove:
  assumes "wf m"
  shows "length (keys (remove m k)) = length (keys m) - (if get m k = None then 0 else 1)"
proof -
  have "finite (dom (get m))" by (metis List.finite_set keys_get)
  then show ?thesis
    using assms by (auto simp: length_keys wf_remove get_remove card_Diff_singleton_if domIff)
qed

lemma empty_iff: "keys m = [] \<longleftrightarrow> get m = Map.empty"
  by (metis dom_eq_empty_conv keys_get set_empty)

end

interpretation im: index_map "[]" im_insert im_swap_remove im_get im_keys im_wf
proof unfold_locales
  show "set (im_keys m) = dom (im_get m)" for m :: "('a, 'b) imap"
    by (simp add: dom_map_of_conv_image_fst)
  show "distinct (im_keys m)" if "im_wf m" for m :: "('a, 'b) imap"
    using that by (simp add: im_wf_def)
qed simp_all

end
