(* ===== verification/Seq_Rewrite.thy ===== *)
theory Seq_Rewrite
  imports Media_Prelude
begin

text \<open>
  The sequence-number rewriter \<open>SeqRewrite\<close> of \<open>packages/media_utils/src/seq_rewrite.rs\<close>: an SFU
  forwards a subset of the packets of a stream (or of several simulcast streams, one after the
  other) and must hand its viewer a gapless sequence. \<open>M\<close> (the const generic \<open>MAX\<close> of the code) is the first
  argument of every operation; an \<open>assert!\<close> that fails is \<open>Inl AssertFailed\<close>.
  The theory shows that the rewriter never panics under its invariant, that every output is below
  \<open>M\<close>, that a value dropped is not handed out, and that in-order streams with drops come out as
  consecutive numbers across wrap-arounds and stream changes (refinement of a plain counter).
\<close>

section \<open>State and operations\<close>

record seq_rewrite =
  sr_base :: nat
  sr_max_output :: nat
  sr_max_input :: nat
  sr_seq_delta :: nat
  sr_dropped :: "nat list"
  sr_reinit :: bool
  sr_reinit_offset :: "nat option"

definition seq_default :: seq_rewrite where
  "seq_default = \<lparr>sr_base = 0, sr_max_output = 0, sr_max_input = 0, sr_seq_delta = 0,
     sr_dropped = [], sr_reinit = False, sr_reinit_offset = None\<rparr>"

definition seq_reinit :: "seq_rewrite \<Rightarrow> seq_rewrite" where
  "seq_reinit s = s\<lparr>sr_reinit := True\<rparr>"

definition wrapping_sub :: "nat \<Rightarrow> nat \<Rightarrow> nat \<Rightarrow> nat res" where
  "wrapping_sub M v1 v2 =
     rassert (v1 < M) (rassert (v2 < M) (Inr (if v1 \<ge> v2 then v1 - v2 else v1 + M - v2)))"

definition wrapping_add :: "nat \<Rightarrow> nat \<Rightarrow> nat \<Rightarrow> nat" where
  "wrapping_add M v1 v2 = (v1 + v2) mod M"

definition seq_offset :: "nat \<Rightarrow> seq_rewrite \<Rightarrow> nat \<Rightarrow> seq_rewrite" where
  "seq_offset M s off =
     (if sr_reinit s
      then s\<lparr>sr_reinit_offset :=
              Some ((case sr_reinit_offset s of None \<Rightarrow> 0 | Some o1 \<Rightarrow> o1) + off)\<rparr>
      else s\<lparr>sr_base := wrapping_add M (sr_base s) off\<rparr>)"

definition is_seq_lower_than :: "nat \<Rightarrow> nat \<Rightarrow> nat \<Rightarrow> bool" where
  "is_seq_lower_than M lhs rhs \<longleftrightarrow>
     (rhs > lhs \<and> rhs - lhs \<le> M div 2) \<or> (lhs > rhs \<and> lhs - rhs > M div 2)"

definition is_seq_higher_than :: "nat \<Rightarrow> nat \<Rightarrow> nat \<Rightarrow> bool" where
  "is_seq_higher_than M lhs rhs \<longleftrightarrow>
     (lhs > rhs \<and> lhs - rhs \<le> M div 2) \<or> (rhs > lhs \<and> rhs - lhs > M div 2)"

definition extended_seq :: "nat \<Rightarrow> seq_rewrite \<Rightarrow> nat \<Rightarrow> (seq_rewrite \<times> nat) res" where
  "extended_seq M s value = rassert (value < M)
     (let s1 = (if value < sr_max_input s \<and> sr_max_input s - value > M div 2
                then s\<lparr>sr_seq_delta := sr_seq_delta s + M\<rparr> else s)
      in Inr (s1, sr_seq_delta s1 + value))"

definition seq_sync :: "nat \<Rightarrow> seq_rewrite \<Rightarrow> nat \<Rightarrow> seq_rewrite res" where
  "seq_sync M s value = rassert (value < M)
     (res_bind (wrapping_sub M (sr_max_output s) value) (\<lambda>b.
      Inr (s\<lparr>sr_base := b, sr_max_input := value, sr_seq_delta := 0, sr_dropped := []\<rparr>)))"

text \<open>The prologue shared by \<open>drop_value\<close> and \<open>generate\<close>: a pending reinit is carried out at the first
  value of the new stream.\<close>

definition apply_reinit :: "nat \<Rightarrow> seq_rewrite \<Rightarrow> nat \<Rightarrow> seq_rewrite res" where
  "apply_reinit M s input =
     (if sr_reinit s
      then res_bind (wrapping_sub M input 1) (\<lambda>v.
           res_bind (seq_sync M (s\<lparr>sr_reinit := False\<rparr>) v) (\<lambda>s1.
           case sr_reinit_offset s1 of
             None \<Rightarrow> Inr s1
           | Some off \<Rightarrow> Inr (seq_offset M (s1\<lparr>sr_reinit_offset := None\<rparr>) off)))
      else Inr s)"

definition drop_value :: "nat \<Rightarrow> seq_rewrite \<Rightarrow> nat \<Rightarrow> seq_rewrite res" where
  "drop_value M s input = rassert (input < M)
     (res_bind (apply_reinit M s input) (\<lambda>s1.
      res_bind (extended_seq M s1 input) (\<lambda>(s2, ext).
      let s3 = (if is_seq_higher_than M input (sr_max_input s2)
                then s2\<lparr>sr_dropped := insort_insert ext (sr_dropped s2)\<rparr> else s2)
      in if length (sr_dropped s3) > 1000
         then let delete_size = length (sr_dropped s3) - 1000 in
              res_bind (wrapping_sub M (sr_base s3) delete_size) (\<lambda>b.
              Inr (s3\<lparr>sr_dropped := drop delete_size (sr_dropped s3), sr_base := b\<rparr>))
         else Inr s3)))"

text \<open>\<open>binary_search\<close> of a sorted slice: found, or the position where the value would be inserted.\<close>

definition binary_search :: "nat list \<Rightarrow> nat \<Rightarrow> nat option" where
  "binary_search xs x =
     (if x \<in> set xs then None else Some (length (takeWhile (\<lambda>y. y < x) xs)))"

text \<open>The tail of \<open>generate\<close>, once the base of the input is known.\<close>

definition seq_emit :: "nat \<Rightarrow> seq_rewrite \<Rightarrow> nat \<Rightarrow> nat \<Rightarrow> (seq_rewrite \<times> nat option) res" where
  "seq_emit M s input base =
     (let output = wrapping_add M input base in
      res_bind (wrapping_sub M input (sr_max_input s)) (\<lambda>idelta.
      res_bind (wrapping_sub M output (sr_max_output s)) (\<lambda>odelta.
      let s1 = (if idelta < M div 2 then s\<lparr>sr_max_input := input\<rparr> else s);
          s2 = (if odelta < M div 2 then s1\<lparr>sr_max_output := output\<rparr> else s1)
      in Inr (s2, Some output))))"

definition seq_generate :: "nat \<Rightarrow> seq_rewrite \<Rightarrow> nat \<Rightarrow> (seq_rewrite \<times> nat option) res" where
  "seq_generate M s input = rassert (input < M)
     (res_bind (apply_reinit M s input) (\<lambda>s1.
      res_bind (extended_seq M s1 input) (\<lambda>(s2, ext).
      if sr_dropped s2 \<noteq> []
      then (case binary_search (sr_dropped s2) ext of
              None \<Rightarrow> Inr (s2, None)
            | Some index \<Rightarrow>
                let dropped_count = length (sr_dropped s2) - (length (sr_dropped s2) - index) in
                res_bind (wrapping_sub M (sr_base s2) dropped_count) (seq_emit M s2 input))
      else seq_emit M s2 input (sr_base s2))))"

section \<open>Invariant\<close>

definition sr_inv :: "nat \<Rightarrow> seq_rewrite \<Rightarrow> bool" where
  "sr_inv M s \<longleftrightarrow> sr_base s < M \<and> sr_max_output s < M \<and> sr_max_input s < M \<and>
     sorted (sr_dropped s) \<and> distinct (sr_dropped s) \<and> length (sr_dropped s) \<le> 1000"

lemma wrapping_sub_ok [simp]:
  "v1 < M \<Longrightarrow> v2 < M \<Longrightarrow> wrapping_sub M v1 v2 = Inr ((v1 + M - v2) mod M)"
proof -
  assume a: "v1 < M" "v2 < M"
  have "(if v1 \<ge> v2 then v1 - v2 else v1 + M - v2) = (v1 + M - v2) mod M"
  proof (cases "v1 \<ge> v2")
    case True
    then have "v1 + M - v2 = (v1 - v2) + M" using a by simp
    then have "(v1 + M - v2) mod M = (v1 - v2) mod M" by (metis mod_add_self2)
    also have "\<dots> = v1 - v2" using a by simp
    finally show ?thesis using True by simp
  qed (use a in simp)
  then show ?thesis using a by (simp add: wrapping_sub_def)
qed

lemma wrapping_add_less [simp]: "0 < M \<Longrightarrow> wrapping_add M a b < M"
  by (simp add: wrapping_add_def)

lemma sr_inv_default [media_inv]: "0 < M \<Longrightarrow> sr_inv M seq_default"
  by (simp add: sr_inv_def seq_default_def)

lemma sr_inv_reinit [media_inv, simp]: "sr_inv M s \<Longrightarrow> sr_inv M (seq_reinit s)"
  by (simp add: sr_inv_def seq_reinit_def)

lemma sr_inv_offset [media_inv, simp]: "sr_inv M s \<Longrightarrow> sr_inv M (seq_offset M s off)"
  by (auto simp: sr_inv_def seq_offset_def)

lemma apply_reinit_ok:
  assumes "sr_inv M s" "input < M" "1 < M"
  shows "\<exists>s1. apply_reinit M s input = Inr s1 \<and> sr_inv M s1 \<and> \<not> sr_reinit s1"
proof (cases "sr_reinit s")
  case False
  then show ?thesis using assms by (simp add: apply_reinit_def)
next
  case True
  then show ?thesis
    using assms by (auto simp: apply_reinit_def seq_sync_def sr_inv_def seq_offset_def split: option.split)
qed

lemma extended_seq_ok:
  assumes "sr_inv M s" "input < M"
  shows "\<exists>s2 ext. extended_seq M s input = Inr (s2, ext) \<and> sr_inv M s2 \<and>
    sr_reinit s2 = sr_reinit s \<and> sr_dropped s2 = sr_dropped s \<and> sr_base s2 = sr_base s \<and>
    sr_max_input s2 = sr_max_input s \<and> sr_max_output s2 = sr_max_output s \<and>
    ext = sr_seq_delta s2 + input"
  using assms by (auto simp: extended_seq_def sr_inv_def Let_def)

lemma drop_value_ok [media_inv]:
  assumes "sr_inv M s" "input < M" "1 < M"
  shows "\<exists>s'. drop_value M s input = Inr s' \<and> sr_inv M s' \<and> \<not> sr_reinit s'"
proof -
  obtain s1 where s1: "apply_reinit M s input = Inr s1" "sr_inv M s1" "\<not> sr_reinit s1"
    using apply_reinit_ok[OF assms] by blast
  obtain s2 ext where s2: "extended_seq M s1 input = Inr (s2, ext)" "sr_inv M s2"
      "\<not> sr_reinit s2"
    using extended_seq_ok[OF s1(2) assms(2)] s1(3) by auto
  have len: "length (insort_insert ext (sr_dropped s2)) \<le> 1001"
    using s2(2) by (simp add: sr_inv_def insort_insert_key_def)
  have "length (sr_dropped s2) \<le> 1000" using s2(2) by (simp add: sr_inv_def)
  then show ?thesis
    using s1 s2 assms len
    by (auto simp: drop_value_def Let_def sr_inv_def sorted_insort_insert distinct_insort_insert)
qed

lemma seq_emit_ok:
  assumes "sr_inv M s" "input < M" "\<not> sr_reinit s"
  shows "\<exists>s'. seq_emit M s input base = Inr (s', Some (wrapping_add M input base)) \<and>
    sr_inv M s' \<and> \<not> sr_reinit s'"
proof -
  have "wrapping_add M input base < M" using assms(2) by simp
  then show ?thesis using assms by (simp add: seq_emit_def sr_inv_def Let_def)
qed

lemma apply_reinit_dropped:
  "apply_reinit M s input = Inr s1 \<Longrightarrow> sr_dropped s1 = (if sr_reinit s then [] else sr_dropped s)"
  by (auto simp: apply_reinit_def seq_sync_def seq_offset_def panic_simps split: if_splits option.splits)

lemma seq_generate_ok:
  assumes "sr_inv M s" "input < M" "1000 < M \<or> sr_dropped s = []" "1 < M"
  shows "\<exists>s' out. seq_generate M s input = Inr (s', out) \<and> sr_inv M s' \<and> \<not> sr_reinit s' \<and>
    (\<forall>v. out = Some v \<longrightarrow> v < M)"
proof -
  obtain s1 where s1: "apply_reinit M s input = Inr s1" "sr_inv M s1" "\<not> sr_reinit s1"
    using apply_reinit_ok[OF assms(1,2,4)] by blast
  have d1: "1000 < M \<or> sr_dropped s1 = []"
    using apply_reinit_dropped[OF s1(1)] assms(3) by auto
  obtain s2 ext where s2: "extended_seq M s1 input = Inr (s2, ext)" "sr_inv M s2"
      "\<not> sr_reinit s2" "sr_dropped s2 = sr_dropped s1"
    using extended_seq_ok[OF s1(2) assms(2)] s1(3) by auto
  have w: "wrapping_add M input b < M" for b using assms(2) by simp
  note emit = seq_emit_ok[OF s2(2) assms(2) s2(3)]
  have g: "seq_generate M s input =
     (if sr_dropped s2 \<noteq> []
      then (case binary_search (sr_dropped s2) ext of
              None \<Rightarrow> Inr (s2, None)
            | Some index \<Rightarrow>
                let dropped_count = length (sr_dropped s2) - (length (sr_dropped s2) - index) in
                res_bind (wrapping_sub M (sr_base s2) dropped_count) (seq_emit M s2 input))
      else seq_emit M s2 input (sr_base s2))"
    using s1 s2 assms(2) by (simp add: seq_generate_def)
  show ?thesis
  proof (cases "sr_dropped s2 = [] \<or> ext \<in> set (sr_dropped s2)")
    case True
    then consider "sr_dropped s2 = []" | "sr_dropped s2 \<noteq> []" "ext \<in> set (sr_dropped s2)" by blast
    then show ?thesis
    proof cases
      case 1
      then have "seq_generate M s input = seq_emit M s2 input (sr_base s2)" using g by simp
      then show ?thesis using emit[of "sr_base s2"] w by force
    next
      case 2
      then have "seq_generate M s input = Inr (s2, None)" using g by (simp add: binary_search_def)
      then show ?thesis using s2 by simp
    qed
  next
    case False
    let ?n = "length (takeWhile (\<lambda>y. y < ext) (sr_dropped s2))"
    have "?n \<le> length (sr_dropped s2)" "length (sr_dropped s2) \<le> 1000"
      using s2(2) by (simp_all add: length_takeWhile_le sr_inv_def)
    then have "length (sr_dropped s2) - (length (sr_dropped s2) - ?n) < M"
      using False d1 s2(4) by auto
    moreover have "sr_base s2 < M" using s2(2) by (simp add: sr_inv_def)
    ultimately have "\<exists>b. seq_generate M s input = seq_emit M s2 input b"
      using g False by (auto simp: binary_search_def Let_def)
    then obtain b where "seq_generate M s input = seq_emit M s2 input b" by blast
    then show ?thesis using emit[of b] w[of b] by force
  qed
qed

section \<open>In-order streams: the rewriter as a counter\<close>

text \<open>A stream of consecutive inputs, each forwarded (\<open>True\<close>) or dropped (\<open>False\<close>); the result
  collects what \<open>generate\<close> handed out.\<close>

fun seq_stream :: "nat \<Rightarrow> seq_rewrite \<Rightarrow> nat \<Rightarrow> bool list \<Rightarrow> nat option list res" where
  "seq_stream M s n [] = Inr []"
| "seq_stream M s n (fwd # fs) =
     (if fwd
      then res_bind (seq_generate M s n) (\<lambda>(s1, out).
           res_bind (seq_stream M s1 ((n + 1) mod M) fs) (\<lambda>outs. Inr (out # outs)))
      else res_bind (drop_value M s n) (\<lambda>s1. seq_stream M s1 ((n + 1) mod M) fs))"

text \<open>Fewer than \<open>L\<close> values in a row are dropped.\<close>

fun gaps_ok :: "nat \<Rightarrow> nat \<Rightarrow> bool list \<Rightarrow> bool" where
  "gaps_ok L k [] = True"
| "gaps_ok L k (fwd # fs) = (k + 1 < L \<and> gaps_ok L (if fwd then 0 else k + 1) fs)"

text \<open>The state after the input \<open>last_in\<close>, when the last number handed out was \<open>last_out\<close> and \<open>k\<close>
  inputs have been dropped since.\<close>

definition seq_tracks :: "nat \<Rightarrow> seq_rewrite \<Rightarrow> nat \<Rightarrow> nat \<Rightarrow> nat \<Rightarrow> bool" where
  "seq_tracks M s last_in last_out k \<longleftrightarrow> sr_inv M s \<and> \<not> sr_reinit s \<and> last_in < M \<and>
     last_in = (sr_max_input s + k) mod M \<and> sr_max_output s = last_out \<and>
     (\<forall>d\<in>set (sr_dropped s). d \<le> sr_seq_delta s + last_in) \<and>
     (int last_in + int (sr_base s) - int (length (sr_dropped s))) mod int M = int last_out"

lemma wsub_int: "v2 < M \<Longrightarrow> int ((v1 + M - v2) mod M) = (int v1 - int v2) mod int M"
proof -
  assume "v2 < M"
  then have "int (v1 + M - v2) = (int v1 - int v2) + int M" by simp
  then show ?thesis by (simp add: zmod_int)
qed

lemma wadd_int: "int (wrapping_add M a b) = (int a + int b) mod int M"
  by (simp add: wrapping_add_def zmod_int)

lemma next_mod_cases:
  fixes x k M :: nat
  assumes "x < M" "k + 1 < M div 2"
  obtains (plain) "x + k + 1 < M" "(x + k) mod M = x + k" "((x + k) mod M + 1) mod M = x + k + 1"
  | (turn) "x + k + 1 = M" "(x + k) mod M = M - 1" "((x + k) mod M + 1) mod M = 0"
  | (wrapped) "M \<le> x + k" "(x + k) mod M = x + k - M" "((x + k) mod M + 1) mod M = x + k + 1 - M"
proof -
  consider "x + k + 1 < M" | "x + k + 1 = M" | "M \<le> x + k"
    by atomize_elim arith
  then show thesis
  proof cases
    case 1
    then show thesis by (intro plain) simp_all
  next
    case 2
    then show thesis by (intro turn) auto
  next
    case 3
    have "x + k < 2 * M" "x + k + 1 - M < M" using assms 3 by auto
    moreover from this have "(x + k) mod M = x + k - M" using 3 by (simp add: mod_if)
    moreover have "x + k - M + 1 = x + k + 1 - M" using 3 by simp
    ultimately show thesis using 3 by (intro wrapped) simp_all
  qed
qed

text \<open>The next in-order value is higher than the maximum seen, and its extension is beyond every dropped
  value.\<close>

lemma tracks_extended:
  assumes t: "seq_tracks M s last_in last_out k" and k: "k + 1 < M div 2"
    and n: "n = (last_in + 1) mod M"
  obtains s2 ext where "extended_seq M s n = Inr (s2, ext)"
    "ext = sr_seq_delta s2 + n" "\<forall>d\<in>set (sr_dropped s). d < ext"
    "sr_inv M s2" "\<not> sr_reinit s2" "sr_dropped s2 = sr_dropped s" "sr_base s2 = sr_base s"
    "sr_max_input s2 = sr_max_input s" "sr_max_output s2 = sr_max_output s"
    "is_seq_higher_than M n (sr_max_input s)" "n < M" "n = (sr_max_input s + (k + 1)) mod M"
proof -
  let ?x = "sr_max_input s"
  have x: "?x < M" and li: "last_in = (?x + k) mod M"
    and dr: "\<forall>d\<in>set (sr_dropped s). d \<le> sr_seq_delta s + last_in"
    using t by (auto simp: seq_tracks_def sr_inv_def)
  have nM: "n < M" using n x by simp
  obtain s2 ext where e: "extended_seq M s n = Inr (s2, ext)" "ext = sr_seq_delta s2 + n"
      "sr_inv M s2" "\<not> sr_reinit s2" "sr_dropped s2 = sr_dropped s" "sr_base s2 = sr_base s"
      "sr_max_input s2 = ?x" "sr_max_output s2 = sr_max_output s"
    using extended_seq_ok[OF _ nM] t by (force simp: seq_tracks_def)
  have delta: "sr_seq_delta s2 = sr_seq_delta s + (if n < ?x \<and> ?x - n > M div 2 then M else 0)"
    using e(1) nM by (auto simp: extended_seq_def Let_def split: if_splits)
  have hi: "is_seq_higher_than M n ?x \<and> (\<forall>d\<in>set (sr_dropped s). d < ext)"
    using x k
  proof (cases rule: next_mod_cases)
    case plain
    then show ?thesis using n li dr e(2) delta k by (auto simp: is_seq_higher_than_def le_less_trans)
  next
    case turn
    then have "n = 0" "last_in = M - 1" "?x = M - (k + 1)" using n li by auto
    then show ?thesis using dr e(2) delta k x
      by (auto simp: is_seq_higher_than_def intro: le_less_trans)
  next
    case wrapped
    then have "n = last_in + 1" "n < ?x" "?x - n = M - (k + 1)" using n li k x by auto
    then show ?thesis using dr e(2) delta k x
      by (auto simp: is_seq_higher_than_def intro: le_less_trans)
  qed
  have "n = (?x + (k + 1)) mod M" using n li by (simp add: mod_Suc_eq)
  then show thesis using that e hi nM by blast
qed

lemma insort_insert_snoc:
  assumes "sorted xs" "\<forall>d\<in>set xs. d < (e :: nat)"
  shows "insort_insert e xs = xs @ [e]"
proof -
  have "e \<notin> set xs" using assms(2) by blast
  moreover have "insort e xs = xs @ [e]"
    using assms by (intro sorted_insort_is_snoc) auto
  ultimately show ?thesis by (simp add: insort_insert_key_def)
qed

lemma tracks_congruence:
  assumes "seq_tracks M s last_in last_out k" "n = (last_in + 1) mod M"
  shows "(int n + int (sr_base s) - int (length (sr_dropped s))) mod int M = (int last_out + 1) mod int M"
proof -
  let ?c = "int (sr_base s) - int (length (sr_dropped s))"
  have "(int n + ?c) mod int M = (int last_in + 1 + ?c) mod int M"
    using assms(2) by (simp add: zmod_int mod_add_left_eq add.commute)
  also have "int last_in + 1 + ?c = (int last_in + ?c) + 1" by simp
  also have "((int last_in + ?c) + 1) mod int M = ((int last_in + ?c) mod int M + 1) mod int M"
    by (simp only: mod_add_left_eq)
  also have "(int last_in + ?c) mod int M = int last_out"
    using assms(1) unfolding seq_tracks_def by (metis add_diff_eq)
  finally show ?thesis by (simp add: algebra_simps)
qed

lemma tracks_drop:
  assumes t: "seq_tracks M s last_in last_out k" and k: "k + 1 < M div 2" and M: "1000 < M"
    and n: "n = (last_in + 1) mod M"
  shows "\<exists>s'. drop_value M s n = Inr s' \<and> seq_tracks M s' n last_out (k + 1)"
proof -
  obtain s2 ext where e: "extended_seq M s n = Inr (s2, ext)" "ext = sr_seq_delta s2 + n"
      "\<forall>d\<in>set (sr_dropped s). d < ext" "sr_inv M s2" "\<not> sr_reinit s2"
      "sr_dropped s2 = sr_dropped s" "sr_base s2 = sr_base s"
      "sr_max_input s2 = sr_max_input s" "sr_max_output s2 = sr_max_output s"
      "is_seq_higher_than M n (sr_max_input s)" "n < M" "n = (sr_max_input s + (k + 1)) mod M"
    using tracks_extended[OF t k n] by metis
  have inv: "sr_inv M s" "\<not> sr_reinit s" "sr_max_output s = last_out"
    using t by (simp_all add: seq_tracks_def)
  let ?D = "sr_dropped s @ [ext]"
  have D: "insort_insert ext (sr_dropped s) = ?D"
    using inv(1) e(3) by (intro insort_insert_snoc) (simp_all add: sr_inv_def)
  have len: "length (sr_dropped s) \<le> 1000" "sr_base s < M" using inv(1) by (simp_all add: sr_inv_def)
  let ?b = "if length ?D > 1000 then (sr_base s + M - 1) mod M else sr_base s"
  let ?s' = "s2\<lparr>sr_dropped := drop (length ?D - 1000) ?D, sr_base := ?b\<rparr>"
  have dv: "drop_value M s n = Inr ?s'"
  proof (cases "length ?D > 1000")
    case True
    then have "length ?D - 1000 = 1" using len by simp
    then show ?thesis
      using True inv e D len M by (simp add: drop_value_def apply_reinit_def Let_def)
  next
    case False
    then show ?thesis using inv e D by (simp add: drop_value_def apply_reinit_def Let_def)
  qed
  have sr': "sr_inv M ?s'"
  proof -
    have "sorted ?D" "distinct ?D"
      using inv(1) e(3) by (auto simp: sr_inv_def sorted_append intro: less_imp_le)
    then have "sorted (drop j ?D)" "distinct (drop j ?D)" for j
      by (blast intro: sorted_wrt_drop distinct_drop)+
    note D' = this[of "length ?D - 1000"]
    have "?b < M" using M len by simp
    moreover have "sr_max_output s2 < M" "sr_max_input s2 < M" using e(4) by (simp_all add: sr_inv_def)
    moreover have "length (drop (length ?D - 1000) ?D) \<le> 1000" by (simp add: length_drop)
    ultimately show ?thesis using D' unfolding sr_inv_def by simp
  qed
  have bl: "(int n + int ?b - int (length (drop (length ?D - 1000) ?D))) mod int M = int last_out"
  proof -
    have c1: "(int n + int (sr_base s) - int (length (sr_dropped s)) - 1) mod int M = int last_out mod int M"
      using tracks_congruence[OF t n] by (metis add_diff_cancel_right' mod_diff_left_eq)
    have lo: "int last_out mod int M = int last_out" using inv by (simp add: sr_inv_def)
    show ?thesis
    proof (cases "length ?D > 1000")
      case True
      then have L: "length (sr_dropped s) = 1000" using len by simp
      have "int ?b = (int (sr_base s) - 1) mod int M" using True M by (simp add: wsub_int)
      then have "(int n + int ?b - 1000) mod int M = (int n - 1000 + (int (sr_base s) - 1)) mod int M"
        by (metis add_diff_eq diff_add_eq mod_add_right_eq)
      then show ?thesis using c1 lo True L by (simp add: algebra_simps)
    next
      case False
      then show ?thesis using c1 lo by (simp add: algebra_simps)
    qed
  qed
  have "\<forall>d\<in>set (drop (length ?D - 1000) ?D). d \<le> sr_seq_delta s2 + n"
    using e(2,3) set_drop_subset[of "length ?D - 1000" ?D] by fastforce
  then have "seq_tracks M ?s' n last_out (k + 1)"
    using sr' bl e inv(3) unfolding seq_tracks_def by simp
  then show ?thesis using dv by blast
qed

lemma tracks_generate:
  assumes t: "seq_tracks M s last_in last_out k" and k: "k + 1 < M div 2" and M: "1000 < M"
    and n: "n = (last_in + 1) mod M"
  shows "\<exists>s'. seq_generate M s n = Inr (s', Some ((last_out + 1) mod M)) \<and>
    seq_tracks M s' n ((last_out + 1) mod M) 0"
proof -
  obtain s2 ext where e: "extended_seq M s n = Inr (s2, ext)" "ext = sr_seq_delta s2 + n"
      "\<forall>d\<in>set (sr_dropped s). d < ext" "sr_inv M s2" "\<not> sr_reinit s2"
      "sr_dropped s2 = sr_dropped s" "sr_base s2 = sr_base s"
      "sr_max_input s2 = sr_max_input s" "sr_max_output s2 = sr_max_output s"
      "n < M" "n = (sr_max_input s + (k + 1)) mod M"
    using tracks_extended[OF t k n] by metis
  have inv: "sr_inv M s" "\<not> sr_reinit s" "sr_max_output s = last_out"
    using t by (simp_all add: seq_tracks_def)
  then have b: "sr_base s < M" "sr_max_input s < M" "last_out < M" "length (sr_dropped s) \<le> 1000"
    by (auto simp: sr_inv_def)
  let ?b = "(sr_base s + M - length (sr_dropped s)) mod M"
  let ?o = "(last_out + 1) mod M"
  have "takeWhile (\<lambda>y. y < ext) (sr_dropped s) = sr_dropped s" "ext \<notin> set (sr_dropped s)"
    using e(3) by auto
  then have tw: "binary_search (sr_dropped s) ext = Some (length (sr_dropped s))"
    by (simp only: binary_search_def if_False)
  have "seq_generate M s n = seq_emit M s2 n ?b"
    using inv(2) e(1,5-10) tw b M
    by (simp add: seq_generate_def apply_reinit_def Let_def)
  moreover have out: "wrapping_add M n ?b = ?o"
  proof -
    have "int (wrapping_add M n ?b) = (int n + (int (sr_base s) - int (length (sr_dropped s)))) mod int M"
    proof -
      have "int ?b = (int (sr_base s) - int (length (sr_dropped s))) mod int M"
        using b M by (intro wsub_int) simp
      then show ?thesis by (simp only: wadd_int mod_add_right_eq)
    qed
    also have "\<dots> = int ?o"
      using tracks_congruence[OF t n] by (simp add: zmod_int algebra_simps)
    finally show ?thesis by simp
  qed
  moreover have "(n + M - sr_max_input s) mod M = k + 1"
  proof -
    have "int ((n + M - sr_max_input s) mod M) = (int n - int (sr_max_input s)) mod int M"
      using b by (simp add: wsub_int)
    also have "\<dots> = (int (k + 1)) mod int M"
      using e(11) by (simp add: zmod_int mod_diff_left_eq)
    also have "\<dots> = int (k + 1)" using k by simp
    finally show ?thesis by simp
  qed
  moreover have "(?o + M - last_out) mod M = 1"
  proof -
    have "int ((?o + M - last_out) mod M) = (int ?o - int last_out) mod int M"
      using b by (simp add: wsub_int)
    also have "\<dots> = 1 mod int M" by (simp add: zmod_int mod_diff_left_eq)
    finally show ?thesis using M by simp
  qed
  ultimately have g: "seq_generate M s n = Inr (s2\<lparr>sr_max_input := n, sr_max_output := ?o\<rparr>, Some ?o)"
    using e b M k inv by (simp add: seq_emit_def Let_def)
  have "(int n + int (sr_base s) - int (length (sr_dropped s))) mod int M = int ?o"
    using tracks_congruence[OF t n] by (simp add: zmod_int algebra_simps)
  moreover have "\<forall>d\<in>set (sr_dropped s2). d \<le> sr_seq_delta s2 + n"
    using e(2,3,6) by (auto intro: less_imp_le)
  ultimately have "seq_tracks M (s2\<lparr>sr_max_input := n, sr_max_output := ?o\<rparr>) n ?o 0"
    using e M unfolding seq_tracks_def sr_inv_def by simp
  then show ?thesis using g by blast
qed

lemma stream_counts:
  assumes "seq_tracks M s last_in last_out k" "1000 < M" "gaps_ok (M div 2) k fs"
  shows "seq_stream M s ((last_in + 1) mod M) fs =
    Inr (map (\<lambda>i. Some ((last_out + 1 + i) mod M)) [0..<length (filter (\<lambda>f. f) fs)])"
  using assms
proof (induction fs arbitrary: s last_in last_out k)
  case Nil
  then show ?case by simp
next
  case (Cons fwd fs)
  let ?n = "(last_in + 1) mod M"
  have k: "k + 1 < M div 2" using Cons.prems(3) by simp
  show ?case
  proof (cases fwd)
    case True
    obtain s' where g: "seq_generate M s ?n = Inr (s', Some ((last_out + 1) mod M))"
        "seq_tracks M s' ?n ((last_out + 1) mod M) 0"
      using tracks_generate[OF Cons.prems(1) k Cons.prems(2) refl] by blast
    have "seq_stream M s' ((?n + 1) mod M) fs =
        Inr (map (\<lambda>i. Some (((last_out + 1) mod M + 1 + i) mod M)) [0..<length (filter (\<lambda>f. f) fs)])"
      using Cons.IH[OF g(2) Cons.prems(2)] Cons.prems(3) True by simp
    moreover have "((last_out + 1) mod M + 1 + i) mod M = (last_out + 1 + Suc i) mod M" for i
      by (metis (no_types, lifting) add.assoc mod_add_left_eq plus_1_eq_Suc)
    ultimately have "seq_stream M s' ((?n + 1) mod M) fs =
        Inr (map (\<lambda>i. Some ((last_out + 1 + Suc i) mod M)) [0..<length (filter (\<lambda>f. f) fs)])"
      by (simp only:)
    then have "seq_stream M s ?n (fwd # fs) = Inr (Some ((last_out + 1) mod M) #
        map (\<lambda>i. Some ((last_out + 1 + Suc i) mod M)) [0..<length (filter (\<lambda>f. f) fs)])"
      using g(1) True by simp
    moreover have "map (\<lambda>i. Some ((last_out + 1 + i) mod M)) [0..<Suc (length (filter (\<lambda>f. f) fs))] =
        Some ((last_out + 1) mod M) #
        map (\<lambda>i. Some ((last_out + 1 + Suc i) mod M)) [0..<length (filter (\<lambda>f. f) fs)]"
      by (simp add: upt_conv_Cons map_Suc_upt[symmetric] del: upt_Suc)
    ultimately show ?thesis using True by simp
  next
    case False
    obtain s' where d: "drop_value M s ?n = Inr s'" "seq_tracks M s' ?n last_out (k + 1)"
      using tracks_drop[OF Cons.prems(1) k Cons.prems(2) refl] by blast
    then show ?thesis using Cons.IH[OF d(2) Cons.prems(2)] Cons.prems(3) False by simp
  qed
qed

text \<open>Carrying out a pending reinit brings the rewriter to the start of the new stream.\<close>

lemma reinit_tracks:
  assumes "sr_inv M s" "sr_reinit_offset s = None" "1000 < M" "n < M"
  shows "\<exists>s1. apply_reinit M (seq_reinit s) n = Inr s1 \<and>
    seq_tracks M s1 ((n + M - 1) mod M) (sr_max_output s) 0"
proof -
  let ?v = "(n + M - 1) mod M" and ?b = "(sr_max_output s + M - (n + M - 1) mod M) mod M"
  let ?s1 = "s\<lparr>sr_reinit := False, sr_base := ?b, sr_max_input := ?v, sr_seq_delta := 0, sr_dropped := []\<rparr>"
  have v: "?v < M" "sr_max_output s < M" using assms by (simp_all add: sr_inv_def)
  have "apply_reinit M (seq_reinit s) n = Inr ?s1"
    using assms v by (simp add: apply_reinit_def seq_reinit_def seq_sync_def)
  moreover have "(int ?v + int ?b) mod int M = int (sr_max_output s)"
  proof -
    have "int ?b = (int (sr_max_output s) - int ?v) mod int M" using v by (intro wsub_int)
    then have "(int ?v + int ?b) mod int M = int (sr_max_output s) mod int M"
      by (simp only: mod_add_right_eq) simp
    then show ?thesis using v by simp
  qed
  then have "seq_tracks M ?s1 ?v (sr_max_output s) 0"
    using v assms(3) unfolding seq_tracks_def sr_inv_def by simp
  ultimately show ?thesis by blast
qed

lemma reinit_applied:
  assumes "apply_reinit M s n = Inr s1" "\<not> sr_reinit s1"
  shows "drop_value M s n = drop_value M s1 n" and "seq_generate M s n = seq_generate M s1 n"
  using assms by (simp_all add: drop_value_def seq_generate_def apply_reinit_def)

lemma reinit_stream:
  assumes "sr_inv M s" "sr_reinit_offset s = None" "1000 < M" "n < M" "gaps_ok (M div 2) 0 fs"
  shows "seq_stream M (seq_reinit s) n fs =
    Inr (map (\<lambda>i. Some ((sr_max_output s + 1 + i) mod M)) [0..<length (filter (\<lambda>f. f) fs)])"
proof -
  obtain s1 where s1: "apply_reinit M (seq_reinit s) n = Inr s1"
      "seq_tracks M s1 ((n + M - 1) mod M) (sr_max_output s) 0"
    using reinit_tracks[OF assms(1-4)] by blast
  have "((n + M - 1) mod M + 1) mod M = (n + M - 1 + 1) mod M" by (rule mod_add_left_eq)
  then have n: "((n + M - 1) mod M + 1) mod M = n" using assms(3,4) by simp
  have "seq_stream M (seq_reinit s) n fs = seq_stream M s1 n fs"
    using reinit_applied[OF s1(1)] s1(2) by (cases fs) (simp_all add: seq_tracks_def)
  then show ?thesis using stream_counts[OF s1(2) assms(3,5)] n by simp
qed

section \<open>Arbitrary use\<close>

datatype seq_op = OpReinit | OpOffset nat | OpDrop nat | OpGenerate nat

fun seq_step :: "nat \<Rightarrow> seq_rewrite \<Rightarrow> seq_op \<Rightarrow> (seq_rewrite \<times> nat option) res" where
  "seq_step M s OpReinit = Inr (seq_reinit s, None)"
| "seq_step M s (OpOffset off) = Inr (seq_offset M s off, None)"
| "seq_step M s (OpDrop n) = res_bind (drop_value M s n) (\<lambda>s1. Inr (s1, None))"
| "seq_step M s (OpGenerate n) = seq_generate M s n"

fun seq_op_ok :: "nat \<Rightarrow> seq_op \<Rightarrow> bool" where
  "seq_op_ok M (OpDrop n) = (n < M)"
| "seq_op_ok M (OpGenerate n) = (n < M)"
| "seq_op_ok M _ = True"

fun seq_run :: "nat \<Rightarrow> seq_rewrite \<Rightarrow> seq_op list \<Rightarrow> (seq_rewrite \<times> nat option list) res" where
  "seq_run M s [] = Inr (s, [])"
| "seq_run M s (op1 # ops) =
     res_bind (seq_step M s op1) (\<lambda>(s1, out).
     res_bind (seq_run M s1 ops) (\<lambda>(s2, outs). Inr (s2, out # outs)))"

lemma seq_step_ok:
  assumes "sr_inv M s" "1000 < M" "seq_op_ok M op1"
  shows "\<exists>s1 out. seq_step M s op1 = Inr (s1, out) \<and> sr_inv M s1 \<and> (\<forall>v. out = Some v \<longrightarrow> v < M)"
proof (cases op1)
  case (OpDrop n)
  then show ?thesis using drop_value_ok[of M s n] assms by auto
next
  case (OpGenerate n)
  then show ?thesis using seq_generate_ok[of M s n] assms by auto
qed (use assms in auto)

lemma seq_run_ok:
  assumes "sr_inv M s" "1000 < M" "\<forall>op1\<in>set ops. seq_op_ok M op1"
  shows "\<exists>s1 outs. seq_run M s ops = Inr (s1, outs) \<and> sr_inv M s1 \<and> (\<forall>v. Some v \<in> set outs \<longrightarrow> v < M)"
  using assms
proof (induction ops arbitrary: s)
  case (Cons op1 ops)
  obtain s1 out where st: "seq_step M s op1 = Inr (s1, out)" "sr_inv M s1" "\<forall>v. out = Some v \<longrightarrow> v < M"
    using seq_step_ok[of M s op1] Cons.prems by auto
  then show ?case using Cons.IH[of s1] Cons.prems by fastforce
qed simp

section \<open>Properties\<close>





text \<open>A value ahead of the newest input that was marked as dropped is not handed out later
  (\<open>generate\<close> answers \<open>None\<close>), as long as no wrap-around lies between it and the newest input.\<close>

theorem seq_dropped_stays_dropped:
  assumes "sr_inv M s" "\<not> sr_reinit s" "sr_max_input s < n" "n - sr_max_input s \<le> M div 2" "n < M"
    and "length (sr_dropped s) < 1000"
  shows "\<exists>s1 s2. drop_value M s n = Inr s1 \<and> seq_generate M s1 n = Inr (s2, None)"
proof -
  let ?e = "sr_seq_delta s + n"
  let ?s1 = "s\<lparr>sr_dropped := insort_insert ?e (sr_dropped s)\<rparr>"
  have "is_seq_higher_than M n (sr_max_input s)" using assms by (simp add: is_seq_higher_than_def)
  moreover have "length (insort_insert ?e (sr_dropped s)) \<le> 1000"
    using assms(6) by (simp add: insort_insert_key_def)
  ultimately have "drop_value M s n = Inr ?s1"
    using assms by (simp add: drop_value_def apply_reinit_def extended_seq_def Let_def)
  moreover have "?e \<in> set (insort_insert ?e (sr_dropped s))"
    by (simp add: set_insort_insert)
  then have "seq_generate M ?s1 n = Inr (?s1, None)"
    using assms by (auto simp: seq_generate_def apply_reinit_def extended_seq_def Let_def binary_search_def)
  ultimately show ?thesis by blast
qed

theorem seq_dropped_stays_dropped_witness:
  "\<exists>s1 s2. drop_value 65536 seq_default 5 = Inr s1 \<and> seq_generate 65536 s1 5 = Inr (s2, None)"
  by (rule seq_dropped_stays_dropped) (simp_all add: sr_inv_def seq_default_def)

text \<open>Across a wrap-around the previous guarantee fails: \<open>extended_seq\<close> adds another cycle on every
  call until a forwarded packet moves \<open>max_input\<close>, so a value dropped right after the wrap is
  remembered under one extension and looked up under the next. A duplicate of the dropped packet is
  then forwarded, under the sequence number handed out before.\<close>

theorem seq_dropped_after_wrap_is_emitted:
  "res_bind (seq_run 65536 seq_default
     [OpReinit, OpGenerate 65535, OpDrop 0, OpGenerate 0]) (\<lambda>(s, outs). Inr outs) =
   Inr [None, Some 1, None, Some 1]"
  by (simp add: seq_default_def seq_reinit_def seq_generate_def drop_value_def apply_reinit_def seq_sync_def
      extended_seq_def seq_emit_def wrapping_add_def is_seq_higher_than_def binary_search_def
      insort_insert_key_def Let_def)

end
