(* ===== verification/Ts_Rewrite.thy ===== *)
theory Ts_Rewrite
  imports Media_Prelude
begin

text \<open>
  The timestamp rewriter \<open>TsRewrite\<close> of \<open>packages/media_utils/src/ts_rewrite.rs\<close>. The const generics
  \<open>TS_LIMIT\<close> and \<open>TS_DELTA_REINIT\<close> are arguments; signed 64-bit values are integers and the
  conversions between \<open>u64\<close> and \<open>i64\<close> are written out. The theory shows that, cut to the 32 bits of an
  RTP timestamp, outputs advance exactly as the inputs do, that a stream change never moves the
  extended timestamp backwards, and that the branch for the next timestamp cycle is never taken.
\<close>

datatype ts_state = FirstInit | Reinit | Rewriting

record ts_rewrite =
  ts_data_rate :: nat
  ts_delta_ts :: int
  ts_last_extended_ts :: int
  ts_last_rtp_ts :: nat
  ts_state :: ts_state

definition ts_new :: "nat \<Rightarrow> ts_rewrite" where
  "ts_new data_rate = \<lparr>ts_data_rate = data_rate, ts_delta_ts = 0, ts_last_extended_ts = 0,
     ts_last_rtp_ts = 0, ts_state = FirstInit\<rparr>"

definition ts_reinit :: "ts_rewrite \<Rightarrow> ts_rewrite" where
  "ts_reinit t = t\<lparr>ts_delta_ts := 0, ts_state := Reinit\<rparr>"

text \<open>The common tail of \<open>generate\<close>.\<close>

definition ts_finish :: "nat \<Rightarrow> ts_rewrite \<Rightarrow> nat \<Rightarrow> ts_rewrite \<times> nat" where
  "ts_finish LIMIT t rtp_ts =
     (let e = ts_delta_ts t + as_i64 rtp_ts
      in (t\<lparr>ts_last_extended_ts := e\<rparr>, as_u64 (trem e (as_i64 LIMIT))))"

definition ts_generate :: "nat \<Rightarrow> nat \<Rightarrow> ts_rewrite \<Rightarrow> nat \<Rightarrow> nat \<Rightarrow> ts_rewrite \<times> nat" where
  "ts_generate LIMIT DELTA_REINIT t now_ms rtp_ts =
     (case ts_state t of
        FirstInit \<Rightarrow>
          let now_ts = as_i64 now_ms * (as_i64 (ts_data_rate t) div 1000)
          in ts_finish LIMIT (t\<lparr>ts_last_rtp_ts := rtp_ts, ts_delta_ts := now_ts - as_i64 rtp_ts,
               ts_state := Rewriting\<rparr>) rtp_ts
      | Reinit \<Rightarrow>
          let now_ts0 = as_i64 now_ms * as_i64 (ts_data_rate t div 1000);
              now_ts = (if now_ts0 < ts_last_extended_ts t
                        then ts_last_extended_ts t + as_i64 DELTA_REINIT else now_ts0)
          in ts_finish LIMIT (t\<lparr>ts_last_rtp_ts := rtp_ts, ts_delta_ts := now_ts - as_i64 rtp_ts,
               ts_state := Rewriting\<rparr>) rtp_ts
      | Rewriting \<Rightarrow>
          if as_i64 (ts_last_rtp_ts t) + as_i64 LIMIT div 2 < as_i64 rtp_ts
          then (t, as_u64 (trem (ts_delta_ts t + as_i64 rtp_ts) (as_i64 LIMIT)))
          else let t1 = t\<lparr>ts_last_rtp_ts := rtp_ts\<rparr>;
                   t2 = (if as_i64 rtp_ts + as_i64 LIMIT div 2 < as_i64 (ts_last_rtp_ts t1)
                         then t1\<lparr>ts_delta_ts := ts_delta_ts t1 + as_i64 LIMIT\<rparr> else t1)
               in ts_finish LIMIT t2 rtp_ts)"

section \<open>Facts shared by the properties\<close>

lemma as_i64_mono_limit: "LIMIT < 2 ^ 63 \<Longrightarrow> 0 \<le> as_i64 LIMIT div 2"
  by (simp add: as_i64_def)

lemma rewriting_delta:
  assumes "ts_state t = Rewriting" "LIMIT < 2 ^ 63"
  shows "ts_delta_ts (fst (ts_generate LIMIT D t now rtp)) = ts_delta_ts t"
    and "ts_state (fst (ts_generate LIMIT D t now rtp)) = Rewriting"
  using assms as_i64_mono_limit[of LIMIT] by (simp_all add: ts_generate_def ts_finish_def Let_def)

lemma rewriting_out:
  assumes "ts_state t = Rewriting" "LIMIT < 2 ^ 63"
  shows "snd (ts_generate LIMIT D t now rtp) = as_u64 (trem (ts_delta_ts t + as_i64 rtp) (as_i64 LIMIT))"
  using assms as_i64_mono_limit[of LIMIT] by (simp add: ts_generate_def ts_finish_def Let_def)

lemma out_u32:
  assumes "ts_state t = Rewriting" "rtp < 2 ^ 32"
  shows "int (as_u32 (snd (ts_generate (2 ^ 32) D t now rtp))) = (ts_delta_ts t + int rtp) mod 2 ^ 32"
proof -
  have "as_i64 (2 ^ 32) = 2 ^ 32" "as_i64 rtp = int rtp" using assms(2) by (simp_all add: as_i64_def)
  then have "snd (ts_generate (2 ^ 32) D t now rtp) = as_u64 (trem (ts_delta_ts t + int rtp) (2 ^ 32))"
    using rewriting_out[OF assms(1), of "2 ^ 32"] by simp
  then show ?thesis by (simp only: as_u32_trem)
qed

lemma generate_Rewriting: "LIMIT < 2 ^ 63 \<Longrightarrow> ts_state (fst (ts_generate LIMIT D t now rtp)) = Rewriting"
  by (cases "ts_state t") (simp_all add: rewriting_delta, simp_all add: ts_generate_def ts_finish_def Let_def)

text \<open>Any number of packets of one stream.\<close>

fun ts_run :: "nat \<Rightarrow> nat \<Rightarrow> ts_rewrite \<Rightarrow> (nat \<times> nat) list \<Rightarrow> ts_rewrite" where
  "ts_run LIMIT D t [] = t"
| "ts_run LIMIT D t ((now, rtp) # ps) = ts_run LIMIT D (fst (ts_generate LIMIT D t now rtp)) ps"

lemma run_delta:
  assumes "ts_state t = Rewriting" "LIMIT < 2 ^ 63"
  shows "ts_delta_ts (ts_run LIMIT D t ps) = ts_delta_ts t \<and> ts_state (ts_run LIMIT D t ps) = Rewriting"
  using assms
proof (induction ps arbitrary: t)
  case (Cons p ps)
  obtain now rtp where p: "p = (now, rtp)" by (cases p)
  show ?case
    using Cons.IH[OF rewriting_delta(2)[OF Cons.prems] Cons.prems(2)] rewriting_delta(1)[OF Cons.prems]
    by (simp add: p)
qed simp

section \<open>Properties\<close>

text \<open>C19: within one stream, the 32-bit timestamps handed out advance exactly as the incoming RTP
  timestamps do (modulo the 32-bit cycle), whatever packets were rewritten in between and in whatever
  order, including packets of the previous cycle.\<close>

theorem ts_advance_preserved:
  assumes "rtp0 < 2 ^ 32" "rtp1 < 2 ^ 32"
    and "(t1, out0) = ts_generate (2 ^ 32) D t now0 rtp0"
    and "ts_state t = Rewriting"
    and "out1 = snd (ts_generate (2 ^ 32) D (ts_run (2 ^ 32) D t1 ps) now1 rtp1)"
  shows "(int (as_u32 out1) - int (as_u32 out0)) mod 2 ^ 32 = (int rtp1 - int rtp0) mod 2 ^ 32"
proof -
  have L: "(2 ^ 32 :: nat) < 2 ^ 63" by simp
  have t1: "ts_state t1 = Rewriting" "ts_delta_ts t1 = ts_delta_ts t"
    using rewriting_delta[OF assms(4) L, of D now0 rtp0] assms(3) by (metis fst_conv)+
  have r: "ts_delta_ts (ts_run (2 ^ 32) D t1 ps) = ts_delta_ts t" "ts_state (ts_run (2 ^ 32) D t1 ps) = Rewriting"
    using run_delta[OF t1(1) L] t1(2) by simp_all
  have "int (as_u32 out0) = (ts_delta_ts t + int rtp0) mod 2 ^ 32"
    using out_u32[OF assms(4,1)] assms(3) by (metis snd_conv)
  moreover have "int (as_u32 out1) = (ts_delta_ts t + int rtp1) mod 2 ^ 32"
    using out_u32[OF r(2) assms(2)] r(1) assms(5) by simp
  ultimately show ?thesis by (simp add: mod_diff_eq)
qed

theorem ts_advance_preserved_witness:
  "(int (as_u32 (snd (ts_generate (2 ^ 32) 10
       (ts_run (2 ^ 32) 10 (fst (ts_generate (2 ^ 32) 10 (fst (ts_generate (2 ^ 32) 10 (ts_new 90000) 5 7)) 6 100))
         [(7, 4000000000)]) 8 40)))
    - int (as_u32 (snd (ts_generate (2 ^ 32) 10 (fst (ts_generate (2 ^ 32) 10 (ts_new 90000) 5 7)) 6 100)))) mod 2 ^ 32
   = (40 - 100) mod 2 ^ 32"
proof -
  let ?t = "fst (ts_generate (2 ^ 32) 10 (ts_new 90000) 5 7)"
  have st: "ts_state ?t = Rewriting" by (rule generate_Rewriting) simp
  show ?thesis
    using ts_advance_preserved[of 100 40 "fst (ts_generate (2 ^ 32) 10 ?t 6 100)"
        "snd (ts_generate (2 ^ 32) 10 ?t 6 100)" 10 ?t 6
        "snd (ts_generate (2 ^ 32) 10 (ts_run (2 ^ 32) 10 (fst (ts_generate (2 ^ 32) 10 ?t 6 100))
          [(7, 4000000000)]) 8 40)" "[(7, 4000000000)]" 8] st
    by simp
qed

text \<open>When the source changes (reinit), the first packet of the new stream gets an extended
  timestamp that is not before the last one handed out, however far the clocks disagree.\<close>

theorem ts_reinit_monotone:
  assumes "D < 2 ^ 63"
  shows "ts_last_extended_ts t \<le> ts_last_extended_ts (fst (ts_generate LIMIT D (ts_reinit t) now rtp))"
  using assms by (simp add: ts_generate_def ts_reinit_def ts_finish_def Let_def as_i64_def)

theorem ts_reinit_monotone_witness:
  "(10 :: nat) < 2 ^ 63 \<and>
   ts_last_extended_ts (fst (ts_generate (2 ^ 32) 10 (ts_new 90000) 50 7)) \<le>
   ts_last_extended_ts (fst (ts_generate (2 ^ 32) 10
     (ts_reinit (fst (ts_generate (2 ^ 32) 10 (ts_new 90000) 50 7))) 3 99))"
  using ts_reinit_monotone[of 10 "fst (ts_generate (2 ^ 32) 10 (ts_new 90000) 50 7)" "2 ^ 32" 3 99] by simp

text \<open>Once a stream is being rewritten the offset between its timestamps and the output never
  changes: \<open>last_rtp_ts\<close> is overwritten before it is compared, so the branch that is meant to add
  \<open>TS_LIMIT\<close> for the next timestamp cycle is unreachable and the extended timestamp falls back by a
  whole cycle when the input wraps.\<close>

theorem ts_next_cycle_unreachable:
  assumes "ts_state t = Rewriting" "LIMIT < 2 ^ 63"
  shows "ts_delta_ts (ts_run LIMIT D t ps) = ts_delta_ts t"
  using run_delta[OF assms] by simp

theorem ts_next_cycle_unreachable_witness:
  "ts_delta_ts (ts_run 100000 10 (fst (ts_generate 100000 10 (ts_new 1000) 99400 99400)) [(99500, 100)]) =
   ts_delta_ts (fst (ts_generate 100000 10 (ts_new 1000) 99400 99400))"
proof -
  have "ts_state (fst (ts_generate 100000 10 (ts_new 1000) 99400 99400)) = Rewriting"
    by (rule generate_Rewriting) simp
  then show ?thesis by (rule ts_next_cycle_unreachable) simp
qed

end
