(* ===== verification/Seq_Extend.thy ===== *)
theory Seq_Extend
  imports Media_Prelude
begin

text \<open>
  The 16-to-64-bit sequence extender \<open>RtpSeqExtend\<close> of \<open>packages/media_utils/src/seq_extend.rs\<close>, on
  machine words. The theory shows that it reconstructs the true position of every packet that
  arrives within half a cycle of the newest one, backwards and forwards, across wrap-arounds.
\<close>

type_synonym u16w = "16 word"
type_synonym u64w = "64 word"

definition RTP_SEQ_CYCLE :: u64w where
  "RTP_SEQ_CYCLE = push_bit 16 1"

definition RTP_SEQ_HAFT_CYCLE :: u16w where
  "RTP_SEQ_HAFT_CYCLE = push_bit 15 1"

record rtp_seq_extend =
  ext_last_seq :: "u16w option"
  ext_seq_delta :: u64w

definition ext_default :: rtp_seq_extend where
  "ext_default = \<lparr>ext_last_seq = None, ext_seq_delta = 0\<rparr>"

definition ext_generate :: "rtp_seq_extend \<Rightarrow> u16w \<Rightarrow> rtp_seq_extend \<times> u64w option" where
  "ext_generate s value =
     (case ext_last_seq s of
        None \<Rightarrow> (s\<lparr>ext_last_seq := Some value\<rparr>, Some (ucast value))
      | Some last_seq \<Rightarrow>
          if value > last_seq \<and> value - last_seq > RTP_SEQ_HAFT_CYCLE
          then (if ucast value + ext_seq_delta s > RTP_SEQ_CYCLE
                then (s, Some (ucast value + ext_seq_delta s - RTP_SEQ_CYCLE))
                else (s, None))
          else let s1 = (if value < last_seq \<and> last_seq - value > RTP_SEQ_HAFT_CYCLE
                         then s\<lparr>ext_seq_delta := ext_seq_delta s + RTP_SEQ_CYCLE\<rparr> else s);
                   s2 = s1\<lparr>ext_last_seq := Some value\<rparr>
               in (s2, Some (ucast value + ext_seq_delta s2)))"

section \<open>The extender tracks a position on the unwrapped axis\<close>

definition ext_at :: "rtp_seq_extend \<Rightarrow> nat \<Rightarrow> bool" where
  "ext_at s L \<longleftrightarrow> ext_last_seq s = Some (of_nat L) \<and> ext_seq_delta s = of_nat (L - L mod 65536) \<and>
     L < 2 ^ 63"

lemma cycle_consts: "RTP_SEQ_CYCLE = of_nat 65536" "RTP_SEQ_HAFT_CYCLE = of_nat 32768"
  by (simp_all add: RTP_SEQ_CYCLE_def RTP_SEQ_HAFT_CYCLE_def push_bit_eq_mult)

lemma unat_u16 [simp]: "unat (of_nat x :: u16w) = x mod 65536"
  by (simp add: unat_of_nat)

lemma unat_u64: "x < 2 ^ 64 \<Longrightarrow> unat (of_nat x :: u64w) = x"
  by (simp add: unat_of_nat)

lemma ucast_u16: "(ucast (of_nat x :: u16w) :: u64w) = of_nat (x mod 65536)"
proof (rule word_unat_eq_iff[THEN iffD2])
  have "x mod 65536 < 2 ^ 64" by (rule less_trans[of _ 65536]) simp_all
  then show "unat (ucast (of_nat x :: u16w) :: u64w) = unat (of_nat (x mod 65536) :: u64w)"
    by (simp add: unat_u64 unsigned_ucast_eq take_bit_nat_eq_self)
qed

lemma half_gt_iff:
  "(of_nat x :: u16w) > of_nat y \<and> (of_nat x :: u16w) - of_nat y > RTP_SEQ_HAFT_CYCLE \<longleftrightarrow>
   y mod 65536 + 32768 < x mod 65536"
proof -
  have lt: "(of_nat x :: u16w) > of_nat y \<longleftrightarrow> y mod 65536 < x mod 65536"
    by (simp add: word_less_nat_alt)
  have "unat ((of_nat x :: u16w) - of_nat y) = x mod 65536 - y mod 65536"
    if "y mod 65536 < x mod 65536"
    using that by (subst unat_sub) (simp_all add: word_le_nat_alt)
  then show ?thesis unfolding lt cycle_consts by (auto simp: word_less_nat_alt less_diff_conv)
qed

text \<open>The three positions of a packet against the newest one: an earlier cycle, the same, the next.\<close>

lemma near_cases:
  fixes x L :: nat
  assumes "x < L + 32768" "L < x + 32768"
  obtains (prev) "L mod 65536 + 32768 < x mod 65536" "x = L - L mod 65536 + x mod 65536 - 65536"
      "65536 \<le> L - L mod 65536"
  | (same) "\<not> L mod 65536 + 32768 < x mod 65536" "\<not> x mod 65536 + 32768 < L mod 65536"
      "x - x mod 65536 = L - L mod 65536"
  | (nxt) "x mod 65536 + 32768 < L mod 65536" "x - x mod 65536 = L - L mod 65536 + 65536"
proof -
  define q r p v where d: "q = L div 65536" "r = L mod 65536" "p = x div 65536" "v = x mod 65536"
  have e: "L = 65536 * q + r" "r < 65536" "x = 65536 * p + v" "v < 65536" by (simp_all add: d)
  have f: "L - L mod 65536 = 65536 * q" "x - x mod 65536 = 65536 * p" "L mod 65536 = r" "x mod 65536 = v"
    using e by simp_all
  consider "p + 1 = q" | "p = q" | "p = q + 1" using assms e by atomize_elim linarith
  then show thesis
  proof cases
    case 1
    show thesis by (rule prev; unfold f; use 1 assms e in linarith)
  next
    case 2
    show thesis by (rule same; unfold f; use 2 assms e in linarith)
  next
    case 3
    show thesis by (rule nxt; unfold f; use 3 assms e in linarith)
  qed
qed

lemma ext_generate_eval:
  assumes "ext_last_seq s = Some (of_nat L)"
  shows "ext_generate s (of_nat x) =
    (if L mod 65536 + 32768 < x mod 65536
     then (if of_nat (x mod 65536) + ext_seq_delta s > RTP_SEQ_CYCLE
           then (s, Some (of_nat (x mod 65536) + ext_seq_delta s - RTP_SEQ_CYCLE)) else (s, None))
     else let d = ext_seq_delta s + (if x mod 65536 + 32768 < L mod 65536 then RTP_SEQ_CYCLE else 0)
          in (s\<lparr>ext_last_seq := Some (of_nat x), ext_seq_delta := d\<rparr>, Some (of_nat (x mod 65536) + d)))"
  unfolding ext_generate_def assms option.case half_gt_iff ucast_u16 by (simp add: Let_def)

lemma ext_generate_near:
  assumes at: "ext_at s L" and near: "x < L + 32768" "L < x + 32768" and lim: "x < 2 ^ 62" "L < 2 ^ 62"
  shows "\<exists>s'. ext_generate s (of_nat x) = (s', Some (of_nat x)) \<and>
    ext_at s' (if L mod 65536 + 32768 < x mod 65536 then L else x)"
  using near
proof (cases rule: near_cases)
  case prev
  define D where "D = L - L mod 65536"
  have n: "of_nat (x mod 65536) + of_nat D = (of_nat (x + 65536) :: u64w)"
  proof -
    have "x mod 65536 + D = x + 65536" using prev(2,3) unfolding D_def by linarith
    then show ?thesis by (simp only: of_nat_add[symmetric])
  qed
  have "unat (of_nat (x + 65536) :: u64w) = x + 65536" "unat (RTP_SEQ_CYCLE) = 65536"
    using lim unfolding cycle_consts by (intro unat_u64, simp, simp)
  moreover have "0 < x" using prev(1) by (cases x) simp_all
  ultimately have "(of_nat (x + 65536) :: u64w) > RTP_SEQ_CYCLE"
    unfolding word_less_nat_alt by simp
  moreover have "(of_nat (x + 65536) :: u64w) - RTP_SEQ_CYCLE = of_nat x" unfolding cycle_consts by simp
  moreover have "ext_last_seq s = Some (of_nat L)" "ext_seq_delta s = of_nat D"
    using at by (simp_all add: ext_at_def D_def)
  ultimately show ?thesis
    using at prev(1) by (simp add: ext_generate_eval n del: of_nat_add)
next
  case same
  define D where "D = L - L mod 65536"
  have at': "ext_last_seq s = Some (of_nat L)" "ext_seq_delta s = of_nat D" "x - x mod 65536 = D"
    using at same(3) by (simp_all add: ext_at_def D_def)
  have "x mod 65536 + D = x" using same(3) unfolding D_def by (metis le_add_diff_inverse mod_less_eq_dividend)
  then have "(of_nat (x mod 65536) :: u64w) + of_nat D = of_nat x" by (simp only: of_nat_add[symmetric])
  then show ?thesis
    using same(1,2) lim at' by (simp add: ext_generate_eval[OF at'(1)] ext_at_def del: of_nat_diff)
next
  case nxt
  define D where "D = L - L mod 65536"
  have at': "ext_last_seq s = Some (of_nat L)" "ext_seq_delta s = of_nat D" "x - x mod 65536 = D + 65536"
    using at nxt(2) by (simp_all add: ext_at_def D_def)
  have "x mod 65536 + (D + 65536) = x"
    using nxt(2) unfolding D_def by (metis le_add_diff_inverse mod_less_eq_dividend)
  then have sum: "(of_nat (x mod 65536) :: u64w) + of_nat (D + 65536) = of_nat x"
    by (simp only: of_nat_add[symmetric])
  have "of_nat D + RTP_SEQ_CYCLE = of_nat (D + 65536)" by (simp add: cycle_consts)
  moreover have "\<not> L mod 65536 + 32768 < x mod 65536" using nxt(1) by simp
  ultimately show ?thesis
    using nxt(1) lim at' sum
    by (simp add: ext_generate_eval[OF at'(1)] ext_at_def del: of_nat_diff of_nat_add)
qed

section \<open>Properties\<close>

text \<open>A stream of packets given by their true (unwrapped) positions.\<close>

fun ext_run :: "rtp_seq_extend \<Rightarrow> nat list \<Rightarrow> u64w option list" where
  "ext_run s [] = []"
| "ext_run s (x # xs) = (let (s', out) = ext_generate s (of_nat x) in out # ext_run s' xs)"

fun jitter_ok :: "nat \<Rightarrow> nat list \<Rightarrow> bool" where
  "jitter_ok L [] = True"
| "jitter_ok L (x # xs) =
     (x < L + 32768 \<and> L < x + 32768 \<and> x < 2 ^ 62 \<and>
      jitter_ok (if L mod 65536 + 32768 < x mod 65536 then L else x) xs)"

lemma ext_run_near:
  "ext_at s L \<Longrightarrow> L < 2 ^ 62 \<Longrightarrow> jitter_ok L xs \<Longrightarrow> ext_run s xs = map (\<lambda>x. Some (of_nat x)) xs"
proof (induction xs arbitrary: s L)
  case (Cons x xs)
  then obtain s' where g: "ext_generate s (of_nat x) = (s', Some (of_nat x))"
      "ext_at s' (if L mod 65536 + 32768 < x mod 65536 then L else x)"
    using ext_generate_near[OF Cons.prems(1), of x] by auto
  have "ext_run s' xs = map (\<lambda>x. Some (of_nat x)) xs"
    using Cons.IH[OF g(2)] Cons.prems by (simp split: if_splits)
  then show ?case using g by simp
qed simp



end
