(* ===== verification/Media_Types.thy ===== *)
theory Media_Types
  imports Media_Prelude
begin

text \<open>
  The media data model of \<open>packages/protocol/src/media.rs\<close>: kinds, codecs, packet metadata and packets,
  and the per-layer bitrate table with the choice of the best layer for a bitrate. Small unsigned
  fields are naturals; fixed three-element arrays are \<open>arr3\<close>.
\<close>

section \<open>Kinds and codecs\<close>

datatype media_kind = Audio | Video

fun kind_is_audio :: "media_kind \<Rightarrow> bool" where
  "kind_is_audio Audio = True"
| "kind_is_audio Video = False"

fun kind_is_video :: "media_kind \<Rightarrow> bool" where
  "kind_is_video Video = True"
| "kind_is_video Audio = False"

definition sample_rate :: "media_kind \<Rightarrow> nat" where
  "sample_rate k = (if kind_is_audio k then 48000 else 90000)"

datatype proto_kind = ProtoAudio | ProtoVideo

fun kind_of_proto :: "proto_kind \<Rightarrow> media_kind" where
  "kind_of_proto ProtoAudio = Audio"
| "kind_of_proto ProtoVideo = Video"

fun proto_of_kind :: "media_kind \<Rightarrow> proto_kind" where
  "proto_of_kind Audio = ProtoAudio"
| "proto_of_kind Video = ProtoVideo"

datatype vp9_profile = P0 | P2

datatype h264_profile =
    P42001fNonInterleaved | P42001fSingleNal | P42e01fNonInterleaved | P42e01fSingleNal
  | P4d001fNonInterleaved | P4d001fSingleNal | P64001fNonInterleaved

record h264_sim =
  h264_spatial :: nat

record vp8_sim =
  vp8_picture_id :: "nat option"
  vp8_tl0_pic_idx :: "nat option"
  vp8_spatial :: nat
  vp8_temporal :: nat
  vp8_layer_sync :: bool

record vp9_svc =
  vp9_spatial :: nat
  vp9_temporal :: nat
  vp9_begin_frame :: bool
  vp9_end_frame :: bool
  vp9_spatial_layers :: "nat option"
  vp9_picture_id :: "nat option"
  vp9_switching_point :: bool
  vp9_predicted_frame :: bool

datatype media_scaling = ScalingNone | Simulcast

datatype media_orientation = Deg0 | Deg90 | Deg180 | Deg270

datatype media_codec = CodecOpus | CodecVp8 | CodecH264 h264_profile | CodecVp9 vp9_profile

datatype media_meta =
    Opus "int option"
  | H264 bool h264_profile "h264_sim option" "media_orientation option"
  | Vp8 bool "vp8_sim option" "media_orientation option"
  | Vp9 bool vp9_profile "vp9_svc option" "media_orientation option"

fun meta_is_audio :: "media_meta \<Rightarrow> bool" where
  "meta_is_audio (Opus _) = True"
| "meta_is_audio _ = False"

fun meta_is_video :: "media_meta \<Rightarrow> bool" where
  "meta_is_video (Opus _) = False"
| "meta_is_video _ = True"

fun is_video_key :: "media_meta \<Rightarrow> bool" where
  "is_video_key (H264 key _ _ _) = key"
| "is_video_key (Vp8 key _ _) = key"
| "is_video_key (Vp9 key _ _ _) = key"
| "is_video_key (Opus _) = False"

fun meta_codec :: "media_meta \<Rightarrow> media_codec" where
  "meta_codec (Opus _) = CodecOpus"
| "meta_codec (H264 _ profile _ _) = CodecH264 profile"
| "meta_codec (Vp8 _ _ _) = CodecVp8"
| "meta_codec (Vp9 _ profile _ _) = CodecVp9 profile"

fun meta_rotation :: "media_meta \<Rightarrow> media_orientation option" where
  "meta_rotation (H264 _ _ _ r) = r"
| "meta_rotation (Vp8 _ _ r) = r"
| "meta_rotation (Vp9 _ _ _ r) = r"
| "meta_rotation (Opus _) = None"

fun meta_audio_level :: "media_meta \<Rightarrow> int option" where
  "meta_audio_level (Opus l) = l"
| "meta_audio_level _ = None"

section \<open>Layer bitrates\<close>

datatype 'a arr3 = Arr3 'a 'a 'a

fun arr3_nth :: "'a arr3 \<Rightarrow> nat \<Rightarrow> 'a res" where
  "arr3_nth (Arr3 a b c) i =
     (if i = 0 then Inr a else if i = 1 then Inr b else if i = 2 then Inr c else Inl OutOfRange)"

fun arr3_set :: "'a arr3 \<Rightarrow> nat \<Rightarrow> 'a \<Rightarrow> 'a arr3 res" where
  "arr3_set (Arr3 a b c) i v =
     (if i = 0 then Inr (Arr3 v b c) else if i = 1 then Inr (Arr3 a v c)
      else if i = 2 then Inr (Arr3 a b v) else Inl OutOfRange)"

type_synonym media_layer_bitrate = "nat option arr3"
type_synonym media_layers_bitrate = "media_layer_bitrate option arr3"

definition mlb_new :: "nat arr3 \<Rightarrow> media_layer_bitrate" where
  "mlb_new data = map_arr3 Some data"

definition mlb_set_layer :: "media_layer_bitrate \<Rightarrow> nat \<Rightarrow> nat \<Rightarrow> media_layer_bitrate res" where
  "mlb_set_layer l index bitrate = arr3_set l index (Some bitrate)"

definition mlb_get_layer :: "media_layer_bitrate \<Rightarrow> nat \<Rightarrow> nat option res" where
  "mlb_get_layer l index = arr3_nth l index"

fun mlb_number_temporals :: "media_layer_bitrate \<Rightarrow> nat" where
  "mlb_number_temporals (Arr3 a b c) =
     (if a = None then 0 else if b = None then 1 else if c = None then 2 else 3)"

record media_layer_selection =
  sel_spatial :: nat
  sel_temporal :: nat

definition default_sim :: media_layers_bitrate where
  "default_sim = Arr3 (Some (Arr3 (Some 81) None None)) None None"

definition mlsb_set_layer :: "media_layers_bitrate \<Rightarrow> nat \<Rightarrow> media_layer_bitrate \<Rightarrow> media_layers_bitrate res" where
  "mlsb_set_layer ls index layer = arr3_set ls index (Some layer)"

definition mlsb_has_layer :: "media_layers_bitrate \<Rightarrow> nat \<Rightarrow> bool res" where
  "mlsb_has_layer ls index = res_bind (arr3_nth ls index) (\<lambda>l. Inr (l \<noteq> None))"

fun mlsb_number_layers :: "media_layers_bitrate \<Rightarrow> nat" where
  "mlsb_number_layers (Arr3 a b c) =
     (if a = None then 0 else if b = None then 1 else if c = None then 2 else 3)"

fun mlsb_number_temporals :: "media_layers_bitrate \<Rightarrow> nat" where
  "mlsb_number_temporals (Arr3 a b c) = (case a of None \<Rightarrow> 0 | Some l \<Rightarrow> mlb_number_temporals l)"

text \<open>The two nested loops of \<open>select_layer\<close>, each a fold over its range; the pair is the last layer
  found affordable. Indices stay below 3, so the reads do not panic.\<close>

definition scan_temporal ::
  "nat \<Rightarrow> media_layer_bitrate \<Rightarrow> nat \<Rightarrow> nat \<Rightarrow> nat \<times> nat \<Rightarrow> nat \<times> nat" where
  "scan_temporal target layer i j acc =
     (case arr3_nth layer j of
        Inr (Some bitrate) \<Rightarrow> if target \<ge> bitrate then (i, j) else acc
      | _ \<Rightarrow> acc)"

definition scan_spatial ::
  "media_layers_bitrate \<Rightarrow> nat \<Rightarrow> nat \<Rightarrow> nat \<Rightarrow> nat \<times> nat \<Rightarrow> nat \<times> nat" where
  "scan_spatial ls target max_temporal i acc =
     (case arr3_nth ls i of
        Inr (Some layer) \<Rightarrow> fold (scan_temporal target layer i) [0..<Suc (min max_temporal 2)] acc
      | _ \<Rightarrow> acc)"

definition select_layer ::
  "media_layers_bitrate \<Rightarrow> nat \<Rightarrow> nat \<Rightarrow> nat \<Rightarrow> media_layer_selection option" where
  "select_layer ls target_bitrate_kbps max_spatial max_temporal =
     (let (spatial, temporal) =
            fold (scan_spatial ls target_bitrate_kbps max_temporal) [0..<Suc (min max_spatial 2)] (0, 0)
      in Some \<lparr>sel_spatial = spatial, sel_temporal = temporal\<rparr>)"

section \<open>Packets\<close>

record media_packet =
  pkt_ts :: nat
  pkt_seq :: nat
  pkt_marker :: bool
  pkt_nackable :: bool
  pkt_layers :: "media_layers_bitrate option"
  pkt_meta :: media_meta
  pkt_data :: "nat list"

definition build_audio :: "nat \<Rightarrow> nat \<Rightarrow> int option \<Rightarrow> nat list \<Rightarrow> media_packet" where
  "build_audio ts seq audio_level data =
     \<lparr>pkt_ts = ts, pkt_seq = seq, pkt_marker = True, pkt_nackable = False, pkt_layers = None,
      pkt_meta = Opus audio_level, pkt_data = data\<rparr>"

section \<open>The layer choice against a reference\<close>

text \<open>The reference: among the layers within the limits, in order of spatial then temporal index, those
  whose bitrate fits.\<close>

definition layer_bitrate :: "media_layers_bitrate \<Rightarrow> nat \<times> nat \<Rightarrow> nat option" where
  "layer_bitrate ls = (\<lambda>(i, j). case arr3_nth ls i of
     Inr (Some l) \<Rightarrow> (case arr3_nth l j of Inr b \<Rightarrow> b | Inl _ \<Rightarrow> None) | _ \<Rightarrow> None)"

definition affordable :: "media_layers_bitrate \<Rightarrow> nat \<Rightarrow> nat \<times> nat \<Rightarrow> bool" where
  "affordable ls target p = (case layer_bitrate ls p of None \<Rightarrow> False | Some b \<Rightarrow> b \<le> target)"

definition layer_grid :: "nat \<Rightarrow> nat \<Rightarrow> (nat \<times> nat) list" where
  "layer_grid max_spatial max_temporal =
     List.product [0..<Suc (min max_spatial 2)] [0..<Suc (min max_temporal 2)]"

definition last_or :: "'a \<Rightarrow> 'a list \<Rightarrow> 'a" where
  "last_or d xs = (if xs = [] then d else last xs)"

lemma last_or_append: "last_or d (xs @ ys) = last_or (last_or d xs) ys"
  by (simp add: last_or_def)

lemma scan_temporal_fold:
  assumes "arr3_nth ls i = Inr (Some layer)"
  shows "fold (scan_temporal target layer i) js acc =
    last_or acc (filter (affordable ls target) (map (Pair i) js))"
proof (induction js rule: rev_induct)
  case (snoc j js)
  have "scan_temporal target layer i j a = (if affordable ls target (i, j) then (i, j) else a)" for a
    using assms by (auto simp: scan_temporal_def affordable_def layer_bitrate_def split: sum.splits option.splits)
  then show ?case using snoc by (simp add: last_or_append last_or_def)
qed (simp add: last_or_def)

lemma scan_spatial_fold:
  "scan_spatial ls target mt i acc =
   last_or acc (filter (affordable ls target) (map (Pair i) [0..<Suc (min mt 2)]))"
proof (cases "\<exists>layer. arr3_nth ls i = Inr (Some layer)")
  case True
  then obtain layer where "arr3_nth ls i = Inr (Some layer)" by blast
  then show ?thesis by (simp add: scan_spatial_def scan_temporal_fold del: upt_Suc)
next
  case False
  then have "\<not> affordable ls target (i, j)" for j
    by (auto simp: affordable_def layer_bitrate_def split: sum.splits option.splits)
  then have "filter (affordable ls target) (map (Pair i) js) = []" for js by simp
  moreover have "scan_spatial ls target mt i acc = acc"
    using False by (auto simp: scan_spatial_def split: sum.splits option.splits)
  ultimately show ?thesis by (simp only: last_or_def if_True refl)
qed

lemma select_layer_fold:
  "fold (scan_spatial ls target mt) is acc =
   last_or acc (filter (affordable ls target) (List.product is [0..<Suc (min mt 2)]))"
proof (induction "is" arbitrary: acc)
  case (Cons i "is")
  then show ?case by (simp add: scan_spatial_fold last_or_append del: upt_Suc)
qed (simp add: last_or_def)

lemma select_layer_last:
  "select_layer ls target ms mt =
   (let p = last_or (0, 0) (filter (affordable ls target) (layer_grid ms mt))
    in Some \<lparr>sel_spatial = fst p, sel_temporal = snd p\<rparr>)"
  by (simp add: select_layer_def select_layer_fold layer_grid_def Let_def split_beta del: upt_Suc)

lemma select_layer_within:
  "select_layer ls target ms mt = Some r \<Longrightarrow>
   sel_spatial r \<le> min ms 2 \<and> sel_temporal r \<le> min mt 2"
proof -
  assume "select_layer ls target ms mt = Some r"
  moreover define xs where "xs = filter (affordable ls target) (layer_grid ms mt)"
  moreover have "xs \<noteq> [] \<Longrightarrow> last xs \<in> set (layer_grid ms mt)"
    using last_in_set[of xs] by (auto simp: xs_def)
  ultimately show ?thesis
    by (auto simp: select_layer_last Let_def last_or_def layer_grid_def less_Suc_eq_le simp del: upt_Suc
        split: if_splits)
qed

text \<open>The grid is enumerated in increasing order.\<close>

definition layer_less :: "nat \<times> nat \<Rightarrow> nat \<times> nat \<Rightarrow> bool" where
  "layer_less p q \<longleftrightarrow> fst p < fst q \<or> fst p = fst q \<and> snd p < snd q"

lemma product_increasing:
  "sorted_wrt (<) is \<Longrightarrow> sorted_wrt (<) js \<Longrightarrow> sorted_wrt layer_less (List.product is js)"
  by (induction "is") (auto simp: sorted_wrt_append sorted_wrt_map layer_less_def)

lemma last_greatest:
  assumes "sorted_wrt P xs" "x \<in> set xs"
  shows "x = last xs \<or> P x (last xs)"
proof -
  have ne: "xs \<noteq> []" using assms(2) by auto
  then have "sorted_wrt P (butlast xs @ [last xs])" using assms(1) by simp
  moreover have "x \<in> set (butlast xs @ [last xs])" using assms(2) ne by simp
  ultimately show ?thesis by (auto simp: sorted_wrt_append simp del: append_butlast_last_id)
qed

lemma grid_iff: "(i, j) \<in> set (layer_grid ms mt) \<longleftrightarrow> i \<le> min ms 2 \<and> j \<le> min mt 2"
  by (auto simp: layer_grid_def less_Suc_eq_le simp del: upt_Suc)

section \<open>Properties\<close>



end
