(* ===== verification/Video_Selectors.thy ===== *)
theory Video_Selectors
  imports Seq_Rewrite Ts_Rewrite Media_Types
begin

text \<open>
  The layer selectors of \<open>packages/media_core/src/endpoint/internal/local_track/packet_selector/\<close>:
  \<open>video_single.rs\<close>, \<open>video_h264_sim.rs\<close>, \<open>video_vp8_sim.rs\<close> and \<open>video_vp9_svc.rs\<close>, with the shared
  rewriting context \<open>VideoSelectorCtx\<close>. A handler takes the selector, the context and the packet and
  returns them updated; \<open>select\<close> also returns whether the packet is forwarded (\<open>Some(())\<close>). The trait
  object \<open>Box<dyn VideoSelector>\<close> is the datatype \<open>video_selector\<close> with one dispatching function per
  method.
\<close>

section \<open>Shared context\<close>

abbreviation (input) SEQ_MAX :: nat where "SEQ_MAX \<equiv> 65536"
abbreviation (input) TS_MAX :: nat where "TS_MAX \<equiv> 4294967296"
abbreviation (input) PIC_ID_MAX :: nat where "PIC_ID_MAX \<equiv> 32768"
abbreviation (input) TL0IDX_MAX :: nat where "TL0IDX_MAX \<equiv> 256"

datatype action = RequestKeyFrame

record vp8_ctx =
  v8c_pic_id_rewrite :: seq_rewrite
  v8c_tl0idx_rewrite :: seq_rewrite

record vp9_ctx =
  v9c_pic_id_rewrite :: seq_rewrite

record selector_ctx =
  ctx_ts_rewrite :: ts_rewrite
  ctx_seq_rewrite :: seq_rewrite
  ctx_vp8 :: vp8_ctx
  ctx_vp9 :: vp9_ctx

definition ctx_new :: "media_kind \<Rightarrow> selector_ctx" where
  "ctx_new kind = \<lparr>ctx_ts_rewrite = ts_new (sample_rate kind), ctx_seq_rewrite = seq_default,
     ctx_vp8 = \<lparr>v8c_pic_id_rewrite = seq_default, v8c_tl0idx_rewrite = seq_default\<rparr>,
     ctx_vp9 = \<lparr>v9c_pic_id_rewrite = seq_default\<rparr>\<rparr>"

definition ctx_reinit_seq_ts :: "selector_ctx \<Rightarrow> selector_ctx" where
  "ctx_reinit_seq_ts c = c\<lparr>ctx_seq_rewrite := seq_reinit (ctx_seq_rewrite c),
     ctx_ts_rewrite := ts_reinit (ctx_ts_rewrite c)\<rparr>"

definition ctx_reinit_vp8 :: "selector_ctx \<Rightarrow> selector_ctx" where
  "ctx_reinit_vp8 c = c\<lparr>ctx_vp8 :=
     \<lparr>v8c_pic_id_rewrite = seq_reinit (v8c_pic_id_rewrite (ctx_vp8 c)),
      v8c_tl0idx_rewrite = seq_reinit (v8c_tl0idx_rewrite (ctx_vp8 c))\<rparr>\<rparr>"

definition ctx_reinit_vp9 :: "selector_ctx \<Rightarrow> selector_ctx" where
  "ctx_reinit_vp9 c = c\<lparr>ctx_vp9 := \<lparr>v9c_pic_id_rewrite = seq_reinit (v9c_pic_id_rewrite (ctx_vp9 c))\<rparr>\<rparr>"

definition ctx_drop_seq :: "selector_ctx \<Rightarrow> nat \<Rightarrow> selector_ctx res" where
  "ctx_drop_seq c seq = res_bind (drop_value SEQ_MAX (ctx_seq_rewrite c) seq) (\<lambda>r.
     Inr (c\<lparr>ctx_seq_rewrite := r\<rparr>))"

definition to_kbps :: "nat \<Rightarrow> nat" where
  "to_kbps bitrate = as_u16 (bitrate div 1000)"

section \<open>H264 simulcast\<close>

record h264_selector =
  h4_bitrate_kbps :: nat
  h4_layers :: media_layers_bitrate
  h4_current :: "nat option"
  h4_target :: "nat option"
  h4_queue :: "action list"
  h4_limit :: "nat \<times> nat"

definition h264_new :: "nat \<Rightarrow> media_layers_bitrate \<Rightarrow> nat \<times> nat \<Rightarrow> h264_selector" where
  "h264_new bitrate layers limit =
     \<lparr>h4_bitrate_kbps = to_kbps bitrate, h4_layers = layers, h4_current = None,
      h4_target = map_option sel_spatial (select_layer layers (to_kbps bitrate) (fst limit) (snd limit)),
      h4_queue = [], h4_limit = limit\<rparr>"

definition h264_select_layer :: "h264_selector \<Rightarrow> h264_selector" where
  "h264_select_layer s =
     (let target = map_option sel_spatial
            (select_layer (h4_layers s) (h4_bitrate_kbps s) (fst (h4_limit s)) (snd (h4_limit s)))
      in if target \<noteq> h4_target s
         then let s1 = s\<lparr>h4_target := target\<rparr> in
              (case target of
                 None \<Rightarrow> s1
               | Some t \<Rightarrow>
                   if h4_current s1 = None \<or> Some t \<noteq> h4_current s1
                   then s1\<lparr>h4_queue := h4_queue s1 @ [RequestKeyFrame]\<rparr> else s1)
         else s)"

definition h264_try_switch ::
  "h264_selector \<Rightarrow> selector_ctx \<Rightarrow> media_packet \<Rightarrow> h264_selector \<times> selector_ctx" where
  "h264_try_switch s c pkt =
     (if h4_target s = h4_current s then (s, c)
      else case pkt_meta pkt of
        H264 key _ (Some _) _ \<Rightarrow>
          (case (h4_current s, h4_target s) of
             (Some current, Some target) \<Rightarrow>
               if target < current
               then (if key then (s\<lparr>h4_current := h4_target s\<rparr>, ctx_reinit_seq_ts c)
                     else (s\<lparr>h4_queue := h4_queue s @ [RequestKeyFrame]\<rparr>, c))
               else if target > current
               then (if key then (s\<lparr>h4_current := Some target\<rparr>, ctx_reinit_seq_ts c)
                     else (s\<lparr>h4_queue := h4_queue s @ [RequestKeyFrame]\<rparr>, c))
               else (s, c)
           | (Some current, None) \<Rightarrow> (s\<lparr>h4_current := None\<rparr>, c)
           | (None, Some target) \<Rightarrow> if key then (s\<lparr>h4_current := Some target\<rparr>, c) else (s, c)
           | (None, None) \<Rightarrow> (s, c))
      | _ \<Rightarrow> (s, c))"

definition h264_is_allow :: "h264_selector \<Rightarrow> media_packet \<Rightarrow> bool" where
  "h264_is_allow s pkt =
     (case h4_current s of
        None \<Rightarrow> False
      | Some current \<Rightarrow>
          (case pkt_meta pkt of H264 _ _ (Some sim) _ \<Rightarrow> current = h264_spatial sim | _ \<Rightarrow> False))"

definition h264_set_target_bitrate :: "h264_selector \<Rightarrow> nat \<Rightarrow> h264_selector" where
  "h264_set_target_bitrate s bitrate = h264_select_layer (s\<lparr>h4_bitrate_kbps := to_kbps bitrate\<rparr>)"

definition h264_set_limit_layer :: "h264_selector \<Rightarrow> nat \<Rightarrow> nat \<Rightarrow> h264_selector" where
  "h264_set_limit_layer s ms mt = h264_select_layer (s\<lparr>h4_limit := (ms, mt)\<rparr>)"

definition h264_select ::
  "h264_selector \<Rightarrow> selector_ctx \<Rightarrow> media_packet \<Rightarrow> h264_selector \<times> selector_ctx \<times> bool" where
  "h264_select s c pkt =
     (let s1 = (case pkt_layers pkt of None \<Rightarrow> s | Some ls \<Rightarrow> h264_select_layer (s\<lparr>h4_layers := ls\<rparr>));
          (s2, c2) = h264_try_switch s1 c pkt
      in (s2, c2, h264_is_allow s2 pkt))"

section \<open>VP8 simulcast\<close>

record vp8_selector =
  v8_bitrate_kbps :: nat
  v8_layers :: media_layers_bitrate
  v8_current :: "media_layer_selection option"
  v8_target :: "media_layer_selection option"
  v8_queue :: "action list"
  v8_limit :: "nat \<times> nat"

definition vp8_new :: "nat \<Rightarrow> media_layers_bitrate \<Rightarrow> nat \<times> nat \<Rightarrow> vp8_selector" where
  "vp8_new bitrate layers limit =
     \<lparr>v8_bitrate_kbps = to_kbps bitrate, v8_layers = layers, v8_current = None,
      v8_target = select_layer layers (to_kbps bitrate) (fst limit) (snd limit),
      v8_queue = [], v8_limit = limit\<rparr>"

definition vp8_select_layer :: "vp8_selector \<Rightarrow> vp8_selector" where
  "vp8_select_layer s =
     (let target = select_layer (v8_layers s) (v8_bitrate_kbps s) (fst (v8_limit s)) (snd (v8_limit s))
      in if target \<noteq> v8_target s
         then let s1 = s\<lparr>v8_target := target\<rparr> in
              (case target of
                 None \<Rightarrow> s1
               | Some t \<Rightarrow>
                   (case v8_current s1 of
                      None \<Rightarrow> s1\<lparr>v8_queue := v8_queue s1 @ [RequestKeyFrame]\<rparr>
                    | Some cur \<Rightarrow>
                        if sel_spatial t \<noteq> sel_spatial cur
                        then s1\<lparr>v8_queue := v8_queue s1 @ [RequestKeyFrame]\<rparr> else s1))
         else s)"

definition vp8_try_switch ::
  "vp8_selector \<Rightarrow> selector_ctx \<Rightarrow> media_packet \<Rightarrow> vp8_selector \<times> selector_ctx" where
  "vp8_try_switch s c pkt =
     (if v8_target s = v8_current s then (s, c)
      else case pkt_meta pkt of
        Vp8 key (Some sim) _ \<Rightarrow>
          (case (v8_current s, v8_target s) of
             (Some current, Some target) \<Rightarrow>
               if sel_spatial target = sel_spatial current
               then (if sel_temporal target > sel_temporal current
                     then (if vp8_spatial sim = sel_spatial current \<and> vp8_temporal sim \<le> sel_temporal target \<and>
                              vp8_layer_sync sim
                           then (s\<lparr>v8_current := Some (current\<lparr>sel_temporal := sel_temporal target\<rparr>)\<rparr>, c)
                           else (s, c))
                     else if sel_temporal target < sel_temporal current
                     then (s\<lparr>v8_current := Some (current\<lparr>sel_temporal := sel_temporal target\<rparr>)\<rparr>, c)
                     else (s, c))
               else if sel_spatial target < sel_spatial current
               then (let current1 = (if sel_temporal current \<noteq> 0 then current\<lparr>sel_temporal := 0\<rparr> else current)
                     in if key
                        then (s\<lparr>v8_current := Some (current1\<lparr>sel_spatial := sel_spatial target,
                                sel_temporal := sel_temporal target\<rparr>)\<rparr>,
                              ctx_reinit_seq_ts (ctx_reinit_vp8 c))
                        else (s\<lparr>v8_current := Some current1, v8_queue := v8_queue s @ [RequestKeyFrame]\<rparr>, c))
               else (let current1 = (if vp8_spatial sim = sel_spatial current \<and> sel_temporal current \<noteq> 2 \<and>
                                        vp8_layer_sync sim
                                     then current\<lparr>sel_temporal := 2\<rparr> else current)
                     in if key
                        then (s\<lparr>v8_current := Some (current1\<lparr>sel_spatial := sel_spatial target,
                                sel_temporal := sel_temporal target\<rparr>)\<rparr>,
                              ctx_reinit_seq_ts (ctx_reinit_vp8 c))
                        else (s\<lparr>v8_current := Some current1, v8_queue := v8_queue s @ [RequestKeyFrame]\<rparr>, c))
           | (Some current, None) \<Rightarrow> (s\<lparr>v8_current := None\<rparr>, c)
           | (None, Some target) \<Rightarrow>
               if key then (s\<lparr>v8_current := Some target\<rparr>, ctx_reinit_vp8 c) else (s, c)
           | (None, None) \<Rightarrow> (s, c))
      | _ \<Rightarrow> (s, c))"

text \<open>Rewriting an optional header field; \<open>None\<close> of the rewriter is the early return of \<open>?\<close>.\<close>

definition rewrite_field ::
  "nat \<Rightarrow> seq_rewrite \<Rightarrow> nat option \<Rightarrow> (nat \<Rightarrow> nat) \<Rightarrow> (seq_rewrite \<times> nat option option) res" where
  "rewrite_field M r field cast =
     (case field of
        None \<Rightarrow> Inr (r, Some None)
      | Some v \<Rightarrow> res_bind (seq_generate M r v) (\<lambda>(r1, out).
          Inr (r1, map_option (\<lambda>o1. Some (cast o1)) out)))"

definition vp8_is_allow ::
  "vp8_selector \<Rightarrow> selector_ctx \<Rightarrow> media_packet \<Rightarrow> (selector_ctx \<times> media_packet \<times> bool) res" where
  "vp8_is_allow s c pkt =
     (case v8_current s of
        None \<Rightarrow> Inr (c, pkt, False)
      | Some current \<Rightarrow>
          (case pkt_meta pkt of
             Vp8 key (Some sim) rot \<Rightarrow>
               if vp8_spatial sim = sel_spatial current \<and> vp8_temporal sim \<le> sel_temporal current
               then res_bind (rewrite_field TL0IDX_MAX (v8c_tl0idx_rewrite (ctx_vp8 c)) (vp8_tl0_pic_idx sim) as_u8)
                    (\<lambda>(tl0, f1).
                    let c1 = c\<lparr>ctx_vp8 := (ctx_vp8 c)\<lparr>v8c_tl0idx_rewrite := tl0\<rparr>\<rparr> in
                    (case f1 of
                       None \<Rightarrow> Inr (c1, pkt, False)
                     | Some tl0v \<Rightarrow>
                        let sim1 = sim\<lparr>vp8_tl0_pic_idx := tl0v\<rparr> in
                        res_bind (rewrite_field PIC_ID_MAX (v8c_pic_id_rewrite (ctx_vp8 c1)) (vp8_picture_id sim1) as_u16)
                        (\<lambda>(pic, f2).
                        let c2 = c1\<lparr>ctx_vp8 := (ctx_vp8 c1)\<lparr>v8c_pic_id_rewrite := pic\<rparr>\<rparr> in
                        (case f2 of
                           None \<Rightarrow> Inr (c2, pkt\<lparr>pkt_meta := Vp8 key (Some sim1) rot\<rparr>, False)
                         | Some picv \<Rightarrow>
                             Inr (c2, pkt\<lparr>pkt_meta := Vp8 key (Some (sim1\<lparr>vp8_picture_id := picv\<rparr>)) rot\<rparr>, True)))))
               else if vp8_spatial sim = sel_spatial current
               then res_bind (case vp8_picture_id sim of
                       None \<Rightarrow> Inr (v8c_pic_id_rewrite (ctx_vp8 c))
                     | Some pic_id \<Rightarrow> drop_value PIC_ID_MAX (v8c_pic_id_rewrite (ctx_vp8 c)) pic_id) (\<lambda>pic.
                    res_bind (ctx_drop_seq (c\<lparr>ctx_vp8 := (ctx_vp8 c)\<lparr>v8c_pic_id_rewrite := pic\<rparr>\<rparr>) (pkt_seq pkt))
                    (\<lambda>c1. Inr (c1, pkt, False)))
               else Inr (c, pkt, False)
           | _ \<Rightarrow> Inr (c, pkt, False)))"

definition vp8_on_init :: "selector_ctx \<Rightarrow> selector_ctx" where
  "vp8_on_init c = ctx_reinit_vp8 c"

definition vp8_set_target_bitrate :: "vp8_selector \<Rightarrow> nat \<Rightarrow> vp8_selector" where
  "vp8_set_target_bitrate s bitrate = vp8_select_layer (s\<lparr>v8_bitrate_kbps := to_kbps bitrate\<rparr>)"

definition vp8_set_limit_layer :: "vp8_selector \<Rightarrow> nat \<Rightarrow> nat \<Rightarrow> vp8_selector" where
  "vp8_set_limit_layer s ms mt = vp8_select_layer (s\<lparr>v8_limit := (ms, mt)\<rparr>)"

definition vp8_select ::
  "vp8_selector \<Rightarrow> selector_ctx \<Rightarrow> media_packet \<Rightarrow> (vp8_selector \<times> selector_ctx \<times> media_packet \<times> bool) res" where
  "vp8_select s c pkt =
     (let s1 = (case pkt_layers pkt of None \<Rightarrow> s | Some ls \<Rightarrow> vp8_select_layer (s\<lparr>v8_layers := ls\<rparr>));
          (s2, c2) = vp8_try_switch s1 c pkt
      in res_bind (vp8_is_allow s2 c2 pkt) (\<lambda>(c3, pkt3, ok). Inr (s2, c3, pkt3, ok)))"

section \<open>VP9 SVC\<close>

record vp9_selector =
  v9_k_svc :: bool
  v9_bitrate_kbps :: nat
  v9_layers :: media_layers_bitrate
  v9_current :: "media_layer_selection option"
  v9_target :: "media_layer_selection option"
  v9_queue :: "action list"
  v9_pre_end_frame :: bool
  v9_limit :: "nat \<times> nat"

definition vp9_new :: "bool \<Rightarrow> nat \<Rightarrow> media_layers_bitrate \<Rightarrow> nat \<times> nat \<Rightarrow> vp9_selector" where
  "vp9_new k_svc bitrate layers limit =
     \<lparr>v9_k_svc = k_svc, v9_bitrate_kbps = to_kbps bitrate, v9_layers = layers, v9_current = None,
      v9_target = select_layer layers (to_kbps bitrate) (fst limit) (snd limit),
      v9_queue = [], v9_pre_end_frame = False, v9_limit = limit\<rparr>"

definition vp9_select_layer :: "vp9_selector \<Rightarrow> vp9_selector" where
  "vp9_select_layer s =
     (let target = select_layer (v9_layers s) (v9_bitrate_kbps s) (fst (v9_limit s)) (snd (v9_limit s))
      in if target \<noteq> v9_target s
         then let s1 = s\<lparr>v9_target := target\<rparr> in
              (case target of
                 None \<Rightarrow> s1
               | Some t \<Rightarrow>
                   (case v9_current s1 of
                      Some cur \<Rightarrow>
                        if v9_k_svc s1 \<or> sel_spatial t > sel_spatial cur
                        then s1\<lparr>v9_queue := v9_queue s1 @ [RequestKeyFrame]\<rparr> else s1
                    | None \<Rightarrow> s1\<lparr>v9_queue := v9_queue s1 @ [RequestKeyFrame]\<rparr>))
         else s)"

definition vp9_try_switch ::
  "vp9_selector \<Rightarrow> selector_ctx \<Rightarrow> media_packet \<Rightarrow> vp9_selector \<times> selector_ctx" where
  "vp9_try_switch s c pkt =
     (if v9_target s = v9_current s then (s, c)
      else case pkt_meta pkt of
        Vp9 key _ (Some svc) _ \<Rightarrow>
          (let (s1, c1) =
            (case (v9_current s, v9_target s) of
               (Some current, Some target) \<Rightarrow>
                 if sel_spatial target = sel_spatial current
                 then (if sel_temporal target > sel_temporal current
                       then (if vp9_spatial svc = sel_spatial current \<and> vp9_temporal svc > sel_temporal current \<and>
                                vp9_switching_point svc \<and> v9_pre_end_frame s
                             then (s\<lparr>v9_current := Some (current\<lparr>sel_temporal := sel_temporal target\<rparr>)\<rparr>, c)
                             else (s, c))
                       else if sel_temporal target < sel_temporal current
                       then (if v9_pre_end_frame s
                             then (s\<lparr>v9_current := Some (current\<lparr>sel_temporal := sel_temporal target\<rparr>)\<rparr>, c)
                             else (s, c))
                       else (s, c))
                 else if sel_spatial target < sel_spatial current
                 then (let current1 = (if sel_temporal current \<noteq> 0 \<and> v9_pre_end_frame s
                                       then current\<lparr>sel_temporal := 0\<rparr> else current)
                       in if (v9_k_svc s \<and> key) \<or> (\<not> v9_k_svc s \<and> v9_pre_end_frame s)
                          then (s\<lparr>v9_current := Some (current1\<lparr>sel_spatial := sel_spatial target,
                                  sel_temporal := sel_temporal target\<rparr>)\<rparr>,
                                ctx_reinit_seq_ts (ctx_reinit_vp9 c))
                          else if v9_k_svc s
                          then (s\<lparr>v9_current := Some current1, v9_queue := v9_queue s @ [RequestKeyFrame]\<rparr>, c)
                          else (s\<lparr>v9_current := Some current1\<rparr>, c))
                 else (let current1 = (if vp9_spatial svc = sel_spatial current \<and>
                                          vp9_temporal svc > sel_temporal current \<and> sel_temporal current \<noteq> 2 \<and>
                                          vp9_switching_point svc \<and> v9_pre_end_frame s
                                       then current\<lparr>sel_temporal := 2\<rparr> else current)
                       in if key
                          then (s\<lparr>v9_current := Some (current1\<lparr>sel_spatial := sel_spatial target,
                                  sel_temporal := sel_temporal target\<rparr>)\<rparr>,
                                ctx_reinit_seq_ts (ctx_reinit_vp9 c))
                          else (s\<lparr>v9_current := Some current1, v9_queue := v9_queue s @ [RequestKeyFrame]\<rparr>, c))
             | (Some current, None) \<Rightarrow>
                 if v9_pre_end_frame s then (s\<lparr>v9_current := None\<rparr>, c) else (s, c)
             | (None, Some target) \<Rightarrow>
                 if key then (s\<lparr>v9_current := Some target\<rparr>, ctx_reinit_vp9 c) else (s, c)
             | (None, None) \<Rightarrow> (s, c))
           in (s1\<lparr>v9_pre_end_frame := vp9_end_frame svc\<rparr>, c1))
      | _ \<Rightarrow> (s, c))"

definition vp9_is_allow ::
  "vp9_selector \<Rightarrow> selector_ctx \<Rightarrow> media_packet \<Rightarrow> (selector_ctx \<times> media_packet \<times> bool) res" where
  "vp9_is_allow s c pkt =
     (case v9_current s of
        None \<Rightarrow> Inr (c, pkt, False)
      | Some current \<Rightarrow>
          (case pkt_meta pkt of
             Vp9 key prof (Some svc) rot \<Rightarrow>
               if vp9_spatial svc \<le> sel_spatial current \<and> vp9_temporal svc \<le> sel_temporal current
               then res_bind (rewrite_field PIC_ID_MAX (v9c_pic_id_rewrite (ctx_vp9 c)) (vp9_picture_id svc) as_u16)
                    (\<lambda>(pic, f1).
                    let c1 = c\<lparr>ctx_vp9 := \<lparr>v9c_pic_id_rewrite = pic\<rparr>\<rparr> in
                    (case f1 of
                       None \<Rightarrow> Inr (c1, pkt, False)
                     | Some picv \<Rightarrow>
                        let pkt1 = pkt\<lparr>pkt_meta := Vp9 key prof (Some (svc\<lparr>vp9_picture_id := picv\<rparr>)) rot\<rparr>;
                            pkt2 = (if vp9_spatial svc = sel_spatial current \<and> vp9_end_frame svc
                                    then pkt1\<lparr>pkt_marker := True\<rparr> else pkt1)
                        in Inr (c1, pkt2, True)))
               else res_bind (case vp9_picture_id svc of
                       None \<Rightarrow> Inr (v9c_pic_id_rewrite (ctx_vp9 c))
                     | Some pic_id \<Rightarrow> drop_value PIC_ID_MAX (v9c_pic_id_rewrite (ctx_vp9 c)) pic_id) (\<lambda>pic.
                    res_bind (ctx_drop_seq (c\<lparr>ctx_vp9 := \<lparr>v9c_pic_id_rewrite = pic\<rparr>\<rparr>) (pkt_seq pkt))
                    (\<lambda>c1. Inr (c1, pkt, False)))
           | _ \<Rightarrow> Inr (c, pkt, False)))"

definition vp9_on_init :: "selector_ctx \<Rightarrow> selector_ctx" where
  "vp9_on_init c = ctx_reinit_vp9 c"

definition vp9_set_target_bitrate :: "vp9_selector \<Rightarrow> nat \<Rightarrow> vp9_selector" where
  "vp9_set_target_bitrate s bitrate = vp9_select_layer (s\<lparr>v9_bitrate_kbps := to_kbps bitrate\<rparr>)"

definition vp9_set_limit_layer :: "vp9_selector \<Rightarrow> nat \<Rightarrow> nat \<Rightarrow> vp9_selector" where
  "vp9_set_limit_layer s ms mt = vp9_select_layer (s\<lparr>v9_limit := (ms, mt)\<rparr>)"

definition vp9_select ::
  "vp9_selector \<Rightarrow> selector_ctx \<Rightarrow> media_packet \<Rightarrow> (vp9_selector \<times> selector_ctx \<times> media_packet \<times> bool) res" where
  "vp9_select s c pkt =
     (let s1 = (case pkt_layers pkt of None \<Rightarrow> s | Some ls \<Rightarrow> vp9_select_layer (s\<lparr>v9_layers := ls\<rparr>));
          (s2, c2) = vp9_try_switch s1 c pkt
      in res_bind (vp9_is_allow s2 c2 pkt) (\<lambda>(c3, pkt3, ok). Inr (s2, c3, pkt3, ok)))"

section \<open>The trait object\<close>

datatype video_selector =
    SelSingle
  | SelH264 h264_selector
  | SelVp8 vp8_selector
  | SelVp9 vp9_selector

fun vs_on_init :: "video_selector \<Rightarrow> selector_ctx \<Rightarrow> selector_ctx" where
  "vs_on_init SelSingle c = c"
| "vs_on_init (SelH264 s) c = c"
| "vs_on_init (SelVp8 s) c = vp8_on_init c"
| "vs_on_init (SelVp9 s) c = vp9_on_init c"

fun vs_set_target_bitrate :: "video_selector \<Rightarrow> nat \<Rightarrow> video_selector" where
  "vs_set_target_bitrate SelSingle b = SelSingle"
| "vs_set_target_bitrate (SelH264 s) b = SelH264 (h264_set_target_bitrate s b)"
| "vs_set_target_bitrate (SelVp8 s) b = SelVp8 (vp8_set_target_bitrate s b)"
| "vs_set_target_bitrate (SelVp9 s) b = SelVp9 (vp9_set_target_bitrate s b)"

fun vs_set_limit_layer :: "video_selector \<Rightarrow> nat \<Rightarrow> nat \<Rightarrow> video_selector" where
  "vs_set_limit_layer SelSingle ms mt = SelSingle"
| "vs_set_limit_layer (SelH264 s) ms mt = SelH264 (h264_set_limit_layer s ms mt)"
| "vs_set_limit_layer (SelVp8 s) ms mt = SelVp8 (vp8_set_limit_layer s ms mt)"
| "vs_set_limit_layer (SelVp9 s) ms mt = SelVp9 (vp9_set_limit_layer s ms mt)"

definition single_select :: "selector_ctx \<Rightarrow> media_packet \<Rightarrow> selector_ctx \<times> bool" where
  "single_select c pkt = (c, True)"

fun vs_select ::
  "video_selector \<Rightarrow> selector_ctx \<Rightarrow> media_packet \<Rightarrow> (video_selector \<times> selector_ctx \<times> media_packet \<times> bool) res" where
  "vs_select SelSingle c pkt = (let (c1, ok) = single_select c pkt in Inr (SelSingle, c1, pkt, ok))"
| "vs_select (SelH264 s) c pkt = (let (s1, c1, ok) = h264_select s c pkt in Inr (SelH264 s1, c1, pkt, ok))"
| "vs_select (SelVp8 s) c pkt = res_bind (vp8_select s c pkt) (\<lambda>(s1, r). Inr (SelVp8 s1, r))"
| "vs_select (SelVp9 s) c pkt = res_bind (vp9_select s c pkt) (\<lambda>(s1, r). Inr (SelVp9 s1, r))"

definition queue_pop :: "'a list \<Rightarrow> ('a \<times> 'a list) option" where
  "queue_pop q = (case q of [] \<Rightarrow> None | a # q1 \<Rightarrow> Some (a, q1))"

fun vs_queue :: "video_selector \<Rightarrow> action list" where
  "vs_queue SelSingle = []"
| "vs_queue (SelH264 s) = h4_queue s"
| "vs_queue (SelVp8 s) = v8_queue s"
| "vs_queue (SelVp9 s) = v9_queue s"

fun vs_pop_action :: "video_selector \<Rightarrow> (action \<times> video_selector) option" where
  "vs_pop_action SelSingle = None"
| "vs_pop_action (SelH264 s) = map_option (\<lambda>(a, q). (a, SelH264 (s\<lparr>h4_queue := q\<rparr>))) (queue_pop (h4_queue s))"
| "vs_pop_action (SelVp8 s) = map_option (\<lambda>(a, q). (a, SelVp8 (s\<lparr>v8_queue := q\<rparr>))) (queue_pop (v8_queue s))"
| "vs_pop_action (SelVp9 s) = map_option (\<lambda>(a, q). (a, SelVp9 (s\<lparr>v9_queue := q\<rparr>))) (queue_pop (v9_queue s))"

lemma vs_pop_action_queue: "vs_pop_action v = Some (a, v1) \<Longrightarrow> vs_queue v = a # vs_queue v1"
  by (cases v) (auto simp: queue_pop_def split: list.splits)

section \<open>Well-formed contexts and packets\<close>

text \<open>The temporal-base index is never dropped (its rewriter has a cycle of only 256, below the 1000
  remembered drops), which is what keeps its assertions true.\<close>

definition ctx_inv :: "selector_ctx \<Rightarrow> bool" where
  "ctx_inv c \<longleftrightarrow> sr_inv SEQ_MAX (ctx_seq_rewrite c) \<and>
     sr_inv PIC_ID_MAX (v8c_pic_id_rewrite (ctx_vp8 c)) \<and>
     sr_inv TL0IDX_MAX (v8c_tl0idx_rewrite (ctx_vp8 c)) \<and> sr_dropped (v8c_tl0idx_rewrite (ctx_vp8 c)) = [] \<and>
     sr_inv PIC_ID_MAX (v9c_pic_id_rewrite (ctx_vp9 c))"

fun meta_ok :: "media_meta \<Rightarrow> bool" where
  "meta_ok (Vp8 _ (Some sim) _) =
     ((\<forall>v. vp8_tl0_pic_idx sim = Some v \<longrightarrow> v < TL0IDX_MAX) \<and>
      (\<forall>v. vp8_picture_id sim = Some v \<longrightarrow> v < PIC_ID_MAX))"
| "meta_ok (Vp9 _ _ (Some svc) _) = (\<forall>v. vp9_picture_id svc = Some v \<longrightarrow> v < PIC_ID_MAX)"
| "meta_ok _ = True"

definition pkt_ok :: "media_packet \<Rightarrow> bool" where
  "pkt_ok pkt \<longleftrightarrow> pkt_seq pkt < SEQ_MAX \<and> pkt_ts pkt < TS_MAX \<and> meta_ok (pkt_meta pkt)"

end
