(* ===== verification/Selector_Contract.thy ===== *)
theory Selector_Contract
  imports Video_Selectors
begin

text \<open>
  The contract of the \<open>VideoSelector\<close> trait and its implementations. The locale \<open>selector\<close> states what
  \<open>PacketSelector\<close> relies on (no panic, the rewriting context stays well-formed, sequence number and
  timestamp of the packet untouched, actions only appended); \<open>keyed_selector\<close> extends it for
  simulcast, where the spatial layer may only change at a key frame. Both are interpreted on the
  H264, VP8, VP9 and dispatching selectors of the model.
\<close>

section \<open>Context operations keep the invariant\<close>

lemma ctx_inv_new [media_inv]: "ctx_inv (ctx_new kind)"
  by (simp add: ctx_inv_def ctx_new_def sr_inv_def seq_default_def)

lemma ctx_inv_reinit_seq_ts [media_inv, simp]: "ctx_inv c \<Longrightarrow> ctx_inv (ctx_reinit_seq_ts c)"
  by (simp add: ctx_inv_def ctx_reinit_seq_ts_def)

lemma ctx_inv_reinit_vp8 [media_inv, simp]: "ctx_inv c \<Longrightarrow> ctx_inv (ctx_reinit_vp8 c)"
  by (simp add: ctx_inv_def ctx_reinit_vp8_def) (simp add: seq_reinit_def)

lemma ctx_inv_reinit_vp9 [media_inv, simp]: "ctx_inv c \<Longrightarrow> ctx_inv (ctx_reinit_vp9 c)"
  by (simp add: ctx_inv_def ctx_reinit_vp9_def)

lemma seq_emit_dropped: "seq_emit M s n b = Inr (s', out) \<Longrightarrow> sr_dropped s' = sr_dropped s"
  by (auto simp: seq_emit_def Let_def panic_simps split: if_splits)

lemma seq_generate_dropped:
  assumes "seq_generate M s n = Inr (s', out)"
  shows "sr_dropped s' = (if sr_reinit s then [] else sr_dropped s)"
proof -
  obtain s1 where s1: "apply_reinit M s n = Inr s1"
    using assms by (auto simp: seq_generate_def panic_simps)
  obtain s2 ext where s2: "extended_seq M s1 n = Inr (s2, ext)" "sr_dropped s2 = sr_dropped s1"
    using assms s1 by (auto simp: seq_generate_def panic_simps extended_seq_def Let_def)
  have "sr_dropped s' = sr_dropped s2"
    using assms s1 s2(1)
    by (auto simp: seq_generate_def panic_simps Let_def dest: seq_emit_dropped split: if_splits option.splits)
  then show ?thesis using apply_reinit_dropped[OF s1] s2(2) by simp
qed

lemma rewrite_field_ok:
  assumes "sr_inv M r" "\<forall>v. field = Some v \<longrightarrow> v < M" "1000 < M \<or> sr_dropped r = []" "1 < M"
  shows "\<exists>r1 f. rewrite_field M r field cast = Inr (r1, f) \<and> sr_inv M r1 \<and>
    (sr_dropped r = [] \<longrightarrow> sr_dropped r1 = [])"
proof (cases field)
  case None
  then show ?thesis using assms by (simp add: rewrite_field_def)
next
  case (Some v)
  then obtain r1 out where g: "seq_generate M r v = Inr (r1, out)" "sr_inv M r1"
    using seq_generate_ok[OF assms(1) _ assms(3,4), of v] assms(2) by auto
  then show ?thesis using Some seq_generate_dropped[OF g(1)] by (simp add: rewrite_field_def)
qed

lemma ctx_drop_seq_ok:
  assumes "ctx_inv c" "seq < SEQ_MAX"
  shows "\<exists>c1. ctx_drop_seq c seq = Inr c1 \<and> ctx_inv c1"
  using drop_value_ok[of SEQ_MAX "ctx_seq_rewrite c" seq] assms
  by (auto simp: ctx_drop_seq_def ctx_inv_def)

lemma opt_drop_ok:
  assumes "sr_inv M r" "\<forall>v. field = Some v \<longrightarrow> v < M" "1 < M"
  shows "\<exists>r1. (case field of None \<Rightarrow> Inr r | Some v \<Rightarrow> drop_value M r v) = Inr r1 \<and> sr_inv M r1"
  using drop_value_ok[of M r] assms by (cases field) auto

lemma h264_try_switch_inv: "ctx_inv c \<Longrightarrow> h264_try_switch s c pkt = (s1, c1) \<Longrightarrow> ctx_inv c1"
  by (auto simp: h264_try_switch_def split: if_splits media_meta.splits option.splits)

lemma vp8_try_switch_inv: "ctx_inv c \<Longrightarrow> vp8_try_switch s c pkt = (s1, c1) \<Longrightarrow> ctx_inv c1"
  by (auto simp: vp8_try_switch_def Let_def split: if_splits media_meta.splits option.splits)

lemma vp9_try_switch_inv: "ctx_inv c \<Longrightarrow> vp9_try_switch s c pkt = (s1, c1) \<Longrightarrow> ctx_inv c1"
  by (auto simp: vp9_try_switch_def Let_def split: if_splits media_meta.splits option.splits prod.splits)

text \<open>Packets after selection: same sequence number and timestamp, same kind of metadata.\<close>

definition same_stamp :: "media_packet \<Rightarrow> media_packet \<Rightarrow> bool" where
  "same_stamp p q \<longleftrightarrow> pkt_seq p = pkt_seq q \<and> pkt_ts p = pkt_ts q \<and>
     is_video_key (pkt_meta p) = is_video_key (pkt_meta q)"

lemma vp8_is_allow_ok:
  assumes c: "ctx_inv c" and p: "pkt_ok pkt"
  shows "\<exists>c1 pkt1 ok. vp8_is_allow s c pkt = Inr (c1, pkt1, ok) \<and> ctx_inv c1 \<and> same_stamp pkt1 pkt"
proof (cases "\<exists>current key sim rot. v8_current s = Some current \<and> pkt_meta pkt = Vp8 key (Some sim) rot")
  case False
  then show ?thesis
    using c by (auto simp: vp8_is_allow_def same_stamp_def split: option.splits media_meta.splits)
next
  case True
  then obtain current key sim rot where m: "v8_current s = Some current" "pkt_meta pkt = Vp8 key (Some sim) rot"
    by blast
  have ok: "\<forall>v. vp8_tl0_pic_idx sim = Some v \<longrightarrow> v < 256" "\<forall>v. vp8_picture_id sim = Some v \<longrightarrow> v < 32768"
      "pkt_seq pkt < 65536"
    using p m by (simp_all add: pkt_ok_def)
  let ?pic = "v8c_pic_id_rewrite (ctx_vp8 c)" and ?tl0 = "v8c_tl0idx_rewrite (ctx_vp8 c)"
  have inv: "sr_inv 32768 ?pic" "sr_inv 256 ?tl0" "sr_dropped ?tl0 = []"
    using c by (simp_all add: ctx_inv_def)
  obtain t1 f1 where f1: "rewrite_field 256 ?tl0 (vp8_tl0_pic_idx sim) as_u8 = Inr (t1, f1)"
      "sr_inv 256 t1" "sr_dropped t1 = []"
    using rewrite_field_ok[OF inv(2) ok(1), of as_u8] inv(3) by auto
  obtain t2 f2 where f2: "rewrite_field 32768 ?pic (vp8_picture_id sim) as_u16 = Inr (t2, f2)" "sr_inv 32768 t2"
    using rewrite_field_ok[OF inv(1) ok(2), of as_u16] by auto
  obtain d where d: "(case vp8_picture_id sim of None \<Rightarrow> Inr ?pic | Some v \<Rightarrow> drop_value 32768 ?pic v) = Inr d"
      "sr_inv 32768 d"
    using opt_drop_ok[OF inv(1) ok(2)] by auto
  let ?c1 = "c\<lparr>ctx_vp8 := (ctx_vp8 c)\<lparr>v8c_pic_id_rewrite := d\<rparr>\<rparr>"
  have "ctx_inv ?c1" using c d(2) by (simp add: ctx_inv_def)
  then obtain c2 where c2: "ctx_drop_seq ?c1 (pkt_seq pkt) = Inr c2" "ctx_inv c2"
    using ctx_drop_seq_ok ok(3) by blast
  consider "vp8_spatial sim = sel_spatial current" "vp8_temporal sim \<le> sel_temporal current"
    | "vp8_spatial sim = sel_spatial current" "\<not> vp8_temporal sim \<le> sel_temporal current"
    | "vp8_spatial sim \<noteq> sel_spatial current" by blast
  then show ?thesis
  proof cases
    case 1
    then show ?thesis
      using m f1 f2 c
      by (auto simp: vp8_is_allow_def Let_def ctx_inv_def same_stamp_def split: option.split)
  next
    case 2
    then show ?thesis using m d c2 by (simp add: vp8_is_allow_def same_stamp_def ex_bool_eq)
  next
    case 3
    then show ?thesis using m c by (simp add: vp8_is_allow_def same_stamp_def ex_bool_eq)
  qed
qed

lemma vp9_is_allow_ok:
  assumes c: "ctx_inv c" and p: "pkt_ok pkt"
  shows "\<exists>c1 pkt1 ok. vp9_is_allow s c pkt = Inr (c1, pkt1, ok) \<and> ctx_inv c1 \<and> same_stamp pkt1 pkt"
proof (cases "\<exists>current key prof svc rot. v9_current s = Some current \<and> pkt_meta pkt = Vp9 key prof (Some svc) rot")
  case False
  then show ?thesis
    using c by (auto simp: vp9_is_allow_def same_stamp_def split: option.splits media_meta.splits)
next
  case True
  then obtain current key prof svc rot where
    m: "v9_current s = Some current" "pkt_meta pkt = Vp9 key prof (Some svc) rot" by blast
  have ok: "\<forall>v. vp9_picture_id svc = Some v \<longrightarrow> v < 32768" "pkt_seq pkt < 65536"
    using p m by (simp_all add: pkt_ok_def)
  let ?pic = "v9c_pic_id_rewrite (ctx_vp9 c)"
  have inv: "sr_inv 32768 ?pic" using c by (simp add: ctx_inv_def)
  obtain t1 f1 where f1: "rewrite_field 32768 ?pic (vp9_picture_id svc) as_u16 = Inr (t1, f1)" "sr_inv 32768 t1"
    using rewrite_field_ok[OF inv ok(1), of as_u16] by auto
  obtain d where d: "(case vp9_picture_id svc of None \<Rightarrow> Inr ?pic | Some v \<Rightarrow> drop_value 32768 ?pic v) = Inr d"
      "sr_inv 32768 d"
    using opt_drop_ok[OF inv ok(1)] by auto
  let ?c1 = "c\<lparr>ctx_vp9 := \<lparr>v9c_pic_id_rewrite = d\<rparr>\<rparr>"
  have "ctx_inv ?c1" using c d(2) by (simp add: ctx_inv_def)
  then obtain c2 where c2: "ctx_drop_seq ?c1 (pkt_seq pkt) = Inr c2" "ctx_inv c2"
    using ctx_drop_seq_ok ok(2) by blast
  show ?thesis
  proof (cases "vp9_spatial svc \<le> sel_spatial current \<and> vp9_temporal svc \<le> sel_temporal current")
    case True
    then show ?thesis
      using m f1 c by (auto simp: vp9_is_allow_def Let_def ctx_inv_def same_stamp_def split: option.split)
  next
    case False
    then show ?thesis using m d c2 by (auto simp: vp9_is_allow_def same_stamp_def)
  qed
qed

section \<open>The interface\<close>

locale selector =
  fixes select :: "'s \<Rightarrow> selector_ctx \<Rightarrow> media_packet \<Rightarrow> ('s \<times> selector_ctx \<times> media_packet \<times> bool) res"
    and queue :: "'s \<Rightarrow> action list"
  assumes select_total: "ctx_inv c \<Longrightarrow> pkt_ok p \<Longrightarrow>
      \<exists>s1 c1 p1 ok. select s c p = Inr (s1, c1, p1, ok) \<and> ctx_inv c1 \<and> same_stamp p1 p"
    and select_queue: "select s c p = Inr (s1, c1, p1, ok) \<Longrightarrow> \<exists>as. queue s1 = queue s @ as"
begin

fun run :: "'s \<Rightarrow> selector_ctx \<Rightarrow> media_packet list \<Rightarrow> ('s \<times> selector_ctx \<times> bool list) res" where
  "run s c [] = Inr (s, c, [])"
| "run s c (p # ps) = res_bind (select s c p) (\<lambda>(s1, c1, p1, ok).
     res_bind (run s1 c1 ps) (\<lambda>(s2, c2, oks). Inr (s2, c2, ok # oks)))"

lemma run_total:
  "ctx_inv c \<Longrightarrow> \<forall>p\<in>set ps. pkt_ok p \<Longrightarrow>
   \<exists>s1 c1 oks. run s c ps = Inr (s1, c1, oks) \<and> ctx_inv c1 \<and> length oks = length ps"
proof (induction ps arbitrary: s c)
  case (Cons p ps)
  then obtain s1 c1 p1 ok where st: "select s c p = Inr (s1, c1, p1, ok)" "ctx_inv c1"
    using select_total[of c p s] by auto
  then show ?case using Cons.IH[OF st(2), of s1] Cons.prems by auto
qed simp

lemma run_queue: "run s c ps = Inr (s1, c1, oks) \<Longrightarrow> \<exists>as. queue s1 = queue s @ as"
proof (induction ps arbitrary: s c oks)
  case (Cons p ps)
  then obtain s2 c2 p2 ok oks2 where
    st: "select s c p = Inr (s2, c2, p2, ok)" "run s2 c2 ps = Inr (s1, c1, oks2)"
    by (auto simp: panic_simps)
  then show ?case using select_queue[OF st(1)] Cons.IH[OF st(2)] by auto
qed simp

end

locale keyed_selector = selector select queue
  for select :: "'s \<Rightarrow> selector_ctx \<Rightarrow> media_packet \<Rightarrow> ('s \<times> selector_ctx \<times> media_packet \<times> bool) res"
    and queue :: "'s \<Rightarrow> action list" +
  fixes spatial :: "'s \<Rightarrow> nat option"
  assumes switch_needs_key: "select s c p = Inr (s1, c1, p1, ok) \<Longrightarrow>
      spatial s1 \<noteq> spatial s \<Longrightarrow> spatial s1 = None \<or> is_video_key (pkt_meta p)"
begin

lemma run_without_key:
  "run s c ps = Inr (s1, c1, oks) \<Longrightarrow> \<forall>p\<in>set ps. \<not> is_video_key (pkt_meta p) \<Longrightarrow>
   spatial s1 = spatial s \<or> spatial s1 = None"
proof (induction ps arbitrary: s c oks)
  case (Cons p ps)
  then obtain s2 c2 p2 ok oks2 where
    st: "select s c p = Inr (s2, c2, p2, ok)" "run s2 c2 ps = Inr (s1, c1, oks2)"
    by (auto simp: panic_simps)
  have "spatial s2 = spatial s \<or> spatial s2 = None"
    using switch_needs_key[OF st(1)] Cons.prems(2) by (metis list.set_intros(1))
  moreover have "spatial s1 = spatial s2 \<or> spatial s1 = None"
    using Cons.IH[OF st(2)] Cons.prems(2) by simp
  ultimately show ?case by auto
qed simp

end

section \<open>The implementations\<close>

lemma h264_select_layer_facts:
  "\<exists>as. h4_queue (h264_select_layer s) = h4_queue s @ as" "h4_current (h264_select_layer s) = h4_current s"
  by (auto simp: h264_select_layer_def Let_def split: option.split)

lemma vp8_select_layer_facts:
  "\<exists>as. v8_queue (vp8_select_layer s) = v8_queue s @ as" "v8_current (vp8_select_layer s) = v8_current s"
  by (auto simp: vp8_select_layer_def Let_def split: option.split)

lemma vp9_select_layer_facts:
  "\<exists>as. v9_queue (vp9_select_layer s) = v9_queue s @ as" "v9_current (vp9_select_layer s) = v9_current s"
  by (auto simp: vp9_select_layer_def Let_def split: option.split)

lemma h264_try_switch_facts:
  assumes "h264_try_switch s c pkt = (s1, c1)"
  shows "\<exists>as. h4_queue s1 = h4_queue s @ as"
    and "h4_current s1 = h4_current s \<or> h4_current s1 = None \<or> is_video_key (pkt_meta pkt)"
  using assms by (auto simp: h264_try_switch_def split: if_splits media_meta.splits option.splits)

lemma vp8_try_switch_facts:
  assumes "vp8_try_switch s c pkt = (s1, c1)"
  shows "\<exists>as. v8_queue s1 = v8_queue s @ as"
    and "map_option sel_spatial (v8_current s1) = map_option sel_spatial (v8_current s) \<or>
      v8_current s1 = None \<or> is_video_key (pkt_meta pkt)"
  using assms by (auto simp: vp8_try_switch_def Let_def split: if_splits media_meta.splits option.splits)

lemma vp9_try_switch_queue:
  "vp9_try_switch s c pkt = (s1, c1) \<Longrightarrow> \<exists>as. v9_queue s1 = v9_queue s @ as"
  by (auto simp: vp9_try_switch_def Let_def split: if_splits media_meta.splits option.splits prod.splits)

definition h264_select_pkt ::
  "h264_selector \<Rightarrow> selector_ctx \<Rightarrow> media_packet \<Rightarrow> (h264_selector \<times> selector_ctx \<times> media_packet \<times> bool) res" where
  "h264_select_pkt s c pkt = (let (s1, c1, ok) = h264_select s c pkt in Inr (s1, c1, pkt, ok))"

interpretation h264: keyed_selector h264_select_pkt h4_queue h4_current
proof unfold_locales
  fix c p s
  assume "ctx_inv c"
  then show "\<exists>s1 c1 p1 ok. h264_select_pkt s c p = Inr (s1, c1, p1, ok) \<and> ctx_inv c1 \<and> same_stamp p1 p"
    by (auto simp: h264_select_pkt_def h264_select_def same_stamp_def Let_def split: prod.splits
        dest: h264_try_switch_inv)
next
  fix s c p s1 c1 p1 ok
  assume a: "h264_select_pkt s c p = Inr (s1, c1, p1, ok)"
  define s0 where "s0 = (case pkt_layers p of None \<Rightarrow> s | Some ls \<Rightarrow> h264_select_layer (s\<lparr>h4_layers := ls\<rparr>))"
  have t: "h264_try_switch s0 c p = (s1, c1)"
    using a by (auto simp: h264_select_pkt_def h264_select_def s0_def Let_def split: prod.splits)
  have q: "\<exists>as. h4_queue s0 = h4_queue s @ as" and cur: "h4_current s0 = h4_current s"
    using h264_select_layer_facts[of "s\<lparr>h4_layers := _\<rparr>"] by (auto simp: s0_def split: option.split)
  show "\<exists>as. h4_queue s1 = h4_queue s @ as" using q h264_try_switch_facts(1)[OF t] by auto
  show "h4_current s1 \<noteq> h4_current s \<Longrightarrow> h4_current s1 = None \<or> is_video_key (pkt_meta p)"
    using h264_try_switch_facts(2)[OF t] cur by auto
qed

interpretation vp8: keyed_selector vp8_select v8_queue "\<lambda>s. map_option sel_spatial (v8_current s)"
proof unfold_locales
  fix c p s
  assume i: "ctx_inv c" "pkt_ok p"
  define s0 where "s0 = (case pkt_layers p of None \<Rightarrow> s | Some ls \<Rightarrow> vp8_select_layer (s\<lparr>v8_layers := ls\<rparr>))"
  obtain s2 c2 where t: "vp8_try_switch s0 c p = (s2, c2)" by fastforce
  then have "ctx_inv c2" using i(1) by (rule vp8_try_switch_inv[rotated])
  then show "\<exists>s1 c1 p1 ok. vp8_select s c p = Inr (s1, c1, p1, ok) \<and> ctx_inv c1 \<and> same_stamp p1 p"
    using vp8_is_allow_ok[OF _ i(2), of c2 s2] t by (auto simp: vp8_select_def s0_def)
next
  fix s c p s1 c1 p1 ok
  assume a: "vp8_select s c p = Inr (s1, c1, p1, ok)"
  define s0 where "s0 = (case pkt_layers p of None \<Rightarrow> s | Some ls \<Rightarrow> vp8_select_layer (s\<lparr>v8_layers := ls\<rparr>))"
  obtain c2 where t: "vp8_try_switch s0 c p = (s1, c2)"
    using a by (auto simp: vp8_select_def s0_def Let_def panic_simps split: prod.splits)
  have q: "\<exists>as. v8_queue s0 = v8_queue s @ as" and cur: "v8_current s0 = v8_current s"
    using vp8_select_layer_facts[of "s\<lparr>v8_layers := _\<rparr>"] by (auto simp: s0_def split: option.split)
  show "\<exists>as. v8_queue s1 = v8_queue s @ as" using q vp8_try_switch_facts(1)[OF t] by auto
  show "map_option sel_spatial (v8_current s1) \<noteq> map_option sel_spatial (v8_current s) \<Longrightarrow>
      map_option sel_spatial (v8_current s1) = None \<or> is_video_key (pkt_meta p)"
    using vp8_try_switch_facts(2)[OF t] cur by auto
qed

interpretation vp9: selector vp9_select v9_queue
proof unfold_locales
  fix c p s
  assume i: "ctx_inv c" "pkt_ok p"
  define s0 where "s0 = (case pkt_layers p of None \<Rightarrow> s | Some ls \<Rightarrow> vp9_select_layer (s\<lparr>v9_layers := ls\<rparr>))"
  obtain s2 c2 where t: "vp9_try_switch s0 c p = (s2, c2)" by fastforce
  then have "ctx_inv c2" using i(1) by (rule vp9_try_switch_inv[rotated])
  then show "\<exists>s1 c1 p1 ok. vp9_select s c p = Inr (s1, c1, p1, ok) \<and> ctx_inv c1 \<and> same_stamp p1 p"
    using vp9_is_allow_ok[OF _ i(2), of c2 s2] t by (auto simp: vp9_select_def s0_def)
next
  fix s c p s1 c1 p1 ok
  assume a: "vp9_select s c p = Inr (s1, c1, p1, ok)"
  define s0 where "s0 = (case pkt_layers p of None \<Rightarrow> s | Some ls \<Rightarrow> vp9_select_layer (s\<lparr>v9_layers := ls\<rparr>))"
  obtain c2 where t: "vp9_try_switch s0 c p = (s1, c2)"
    using a by (auto simp: vp9_select_def s0_def Let_def panic_simps split: prod.splits)
  have "\<exists>as. v9_queue s0 = v9_queue s @ as"
    using vp9_select_layer_facts(1)[of "s\<lparr>v9_layers := _\<rparr>"] by (auto simp: s0_def split: option.split)
  then show "\<exists>as. v9_queue s1 = v9_queue s @ as" using vp9_try_switch_queue[OF t] by auto
qed

interpretation vs: selector vs_select vs_queue
proof unfold_locales
  fix c p s
  assume i: "ctx_inv c" "pkt_ok p"
  show "\<exists>s1 c1 p1 ok. vs_select s c p = Inr (s1, c1, p1, ok) \<and> ctx_inv c1 \<and> same_stamp p1 p"
  proof (cases s)
    case SelSingle
    then show ?thesis using i by (simp add: single_select_def same_stamp_def ex_bool_eq)
  next
    case (SelH264 s')
    then show ?thesis using h264.select_total[OF i, of s'] by (auto simp: h264_select_pkt_def split: prod.splits)
  next
    case (SelVp8 s')
    then show ?thesis using vp8.select_total[OF i, of s'] by auto
  next
    case (SelVp9 s')
    then show ?thesis using vp9.select_total[OF i, of s'] by auto
  qed
next
  fix s c p s1 c1 p1 ok
  assume a: "vs_select s c p = Inr (s1, c1, p1, ok)"
  show "\<exists>as. vs_queue s1 = vs_queue s @ as"
  proof (cases s)
    case (SelH264 s')
    then show ?thesis using a h264.select_queue[of s' c p] by (auto simp: h264_select_pkt_def split: prod.splits)
  next
    case (SelVp8 s')
    then show ?thesis using a vp8.select_queue[of s' c p] by (auto simp: panic_simps)
  next
    case (SelVp9 s')
    then show ?thesis using a vp9.select_queue[of s' c p] by (auto simp: panic_simps)
  qed (use a in \<open>auto simp: single_select_def\<close>)
qed

section \<open>Properties\<close>

lemma vp8_is_allow_forwards:
  assumes "vp8_is_allow s c pkt = Inr (c1, pkt1, True)"
  shows "\<exists>cur key sim rot. v8_current s = Some cur \<and> pkt_meta pkt = Vp8 key (Some sim) rot \<and>
    vp8_spatial sim = sel_spatial cur \<and> vp8_temporal sim \<le> sel_temporal cur"
  using assms by (auto simp: vp8_is_allow_def panic_simps split: option.splits media_meta.splits if_splits)


text \<open>A concrete VP8 key frame and a selector waiting for it.\<close>

definition demo_vp8_pkt :: "bool \<Rightarrow> nat \<Rightarrow> nat \<Rightarrow> media_packet" where
  "demo_vp8_pkt key spatial temporal = \<lparr>pkt_ts = 100, pkt_seq = 7, pkt_marker = True, pkt_nackable = False,
     pkt_layers = None,
     pkt_meta = Vp8 key (Some \<lparr>vp8_picture_id = Some 3, vp8_tl0_pic_idx = Some 4, vp8_spatial = spatial,
       vp8_temporal = temporal, vp8_layer_sync = True\<rparr>) None, pkt_data = []\<rparr>"

definition demo_vp8 :: vp8_selector where
  "demo_vp8 = \<lparr>v8_bitrate_kbps = 100, v8_layers = default_sim, v8_current = None,
     v8_target = Some \<lparr>sel_spatial = 0, sel_temporal = 0\<rparr>, v8_queue = [], v8_limit = (2, 2)\<rparr>"

lemmas seq_eval = seq_default_def seq_reinit_def seq_generate_def drop_value_def apply_reinit_def
  seq_sync_def extended_seq_def seq_emit_def wrapping_add_def is_seq_higher_than_def binary_search_def
  insort_insert_key_def Let_def

lemma demo_vp8_forwarded:
  "\<exists>s1 c1 pkt1. vp8_select demo_vp8 (ctx_new Video) (demo_vp8_pkt True 0 0) = Inr (s1, c1, pkt1, True) \<and>
     v8_current s1 = Some \<lparr>sel_spatial = 0, sel_temporal = 0\<rparr>"
  by (simp add: vp8_select_def demo_vp8_def demo_vp8_pkt_def ctx_new_def vp8_try_switch_def vp8_is_allow_def
      ctx_reinit_vp8_def rewrite_field_def seq_eval)


text \<open>Over any run of packets without a key frame, a VP8 simulcast selector keeps its spatial layer
  or pauses; it never starts or switches to another spatial layer, so the decoder never receives a
  layer it cannot decode.\<close>

theorem vp8_layer_stable_without_key:
  assumes "vp8.run s c ps = Inr (s1, c1, oks)" "\<forall>p\<in>set ps. \<not> is_video_key (pkt_meta p)"
  shows "map_option sel_spatial (v8_current s1) = map_option sel_spatial (v8_current s) \<or> v8_current s1 = None"
  using vp8.run_without_key[OF assms] by simp

theorem vp8_layer_stable_without_key_witness:
  "\<exists>s1 c1 oks. vp8.run demo_vp8 (ctx_new Video) [demo_vp8_pkt False 0 0, demo_vp8_pkt False 1 0] = Inr (s1, c1, oks) \<and>
     v8_current s1 = None"
proof -
  let ?ps = "[demo_vp8_pkt False 0 0, demo_vp8_pkt False 1 0]"
  have "\<forall>p\<in>set ?ps. pkt_ok p" by (simp add: pkt_ok_def demo_vp8_pkt_def)
  then obtain s1 c1 oks where r: "vp8.run demo_vp8 (ctx_new Video) ?ps = Inr (s1, c1, oks)"
    using vp8.run_total[OF ctx_inv_new, of ?ps demo_vp8 Video] by blast
  have "map_option sel_spatial (v8_current s1) = map_option sel_spatial (v8_current demo_vp8) \<or> v8_current s1 = None"
    by (rule vp8_layer_stable_without_key[OF r]) (simp add: demo_vp8_pkt_def)
  then show ?thesis using r by (simp add: demo_vp8_def)
qed

text \<open>The VP9 SVC selector forwards a packet only when both its spatial and temporal index are within
  the layer in use, and it sets the marker bit on the last packet of a frame of the top spatial layer
  in use, so that the receiver sees the end of each frame although higher layers are cut.\<close>

theorem vp9_forwards_within_layer:
  assumes "vp9_select s c pkt = Inr (s1, c1, pkt1, True)"
  shows "\<exists>cur key prof svc rot. v9_current s1 = Some cur \<and> pkt_meta pkt = Vp9 key prof (Some svc) rot \<and>
    vp9_spatial svc \<le> sel_spatial cur \<and> vp9_temporal svc \<le> sel_temporal cur \<and>
    pkt_marker pkt1 = (pkt_marker pkt \<or> vp9_spatial svc = sel_spatial cur \<and> vp9_end_frame svc)"
proof -
  obtain c2 where "vp9_is_allow s1 c2 pkt = Inr (c1, pkt1, True)"
    using assms by (auto simp: vp9_select_def Let_def panic_simps split: prod.splits)
  then show ?thesis
    by (auto simp: vp9_is_allow_def panic_simps Let_def split: option.splits media_meta.splits if_splits)
qed

definition demo_vp9_pkt :: "bool \<Rightarrow> nat \<Rightarrow> bool \<Rightarrow> media_packet" where
  "demo_vp9_pkt key spatial end_frame = \<lparr>pkt_ts = 100, pkt_seq = 7, pkt_marker = False, pkt_nackable = False,
     pkt_layers = None,
     pkt_meta = Vp9 key P0 (Some \<lparr>vp9_spatial = spatial, vp9_temporal = 0, vp9_begin_frame = True,
       vp9_end_frame = end_frame, vp9_spatial_layers = None, vp9_picture_id = None,
       vp9_switching_point = False, vp9_predicted_frame = False\<rparr>) None, pkt_data = []\<rparr>"

definition demo_vp9 :: "media_layer_selection option \<Rightarrow> nat \<Rightarrow> bool \<Rightarrow> vp9_selector" where
  "demo_vp9 current target pre_end = \<lparr>v9_k_svc = False, v9_bitrate_kbps = 100, v9_layers = default_sim,
     v9_current = current, v9_target = Some \<lparr>sel_spatial = target, sel_temporal = 0\<rparr>, v9_queue = [],
     v9_pre_end_frame = pre_end, v9_limit = (2, 2)\<rparr>"

theorem vp9_forwards_within_layer_witness:
  "\<exists>s1 c1 pkt1. vp9_select (demo_vp9 None 0 False) (ctx_new Video) (demo_vp9_pkt True 0 True) = Inr (s1, c1, pkt1, True) \<and>
    pkt_marker pkt1"
proof -
  obtain s1 c1 pkt1 where s: "vp9_select (demo_vp9 None 0 False) (ctx_new Video) (demo_vp9_pkt True 0 True) = Inr (s1, c1, pkt1, True)"
      "v9_current s1 = Some \<lparr>sel_spatial = 0, sel_temporal = 0\<rparr>"
    by (simp add: vp9_select_def demo_vp9_def demo_vp9_pkt_def ctx_new_def vp9_try_switch_def vp9_is_allow_def
      ctx_reinit_vp9_def rewrite_field_def Let_def)
  show ?thesis using vp9_forwards_within_layer[OF s(1)] s by (auto simp: demo_vp9_pkt_def)
qed

text \<open>In full-SVC mode the step down is meant to wait for the end of a frame, but \<open>pre_end_frame\<close> is
  only recorded while a switch is pending. A selector that settled on an end-of-frame packet keeps
  the flag through packets in the middle of later frames, and the next lowering of the target cuts
  the spatial layer in the middle of a frame: here the packet before the switch is not an
  end-of-frame packet.\<close>

theorem vp9_stale_end_frame_switch:
  "let s1 = fst (vp9_try_switch (demo_vp9 (Some \<lparr>sel_spatial = 1, sel_temporal = 0\<rparr>) 1 True) c
              (demo_vp9_pkt False 0 False));
       s2 = fst (vp9_try_switch (vp9_set_limit_layer s1 0 0) c (demo_vp9_pkt False 1 True))
   in v9_pre_end_frame s1 \<and> v9_current s2 = Some \<lparr>sel_spatial = 0, sel_temporal = 0\<rparr>"
  by (simp add: demo_vp9_def demo_vp9_pkt_def vp9_try_switch_def vp9_set_limit_layer_def vp9_select_layer_def
      select_layer_def scan_spatial_def scan_temporal_def default_sim_def Let_def upt_rec)

end
