(* ===== verification/Packet_Selector.thy ===== *)
theory Packet_Selector
  imports Selector_Contract
begin

text \<open>
  \<open>PacketSelector\<close> of \<open>packages/media_core/src/endpoint/internal/local_track/packet_selector.rs\<close>: it
  decides for every packet of a source whether a viewer gets it, rewrites its sequence number and
  timestamp, and asks for key frames. Also the voice activity detector of the same track. The
  properties: selection never panics, a viewer of a new video source gets nothing before a key frame
  (which is requested), audio comes out gapless, key-frame requests are rate limited.
\<close>

section \<open>State and operations\<close>

definition REQUEST_KEY_FRAME_INTERVAL_MS :: nat where
  "REQUEST_KEY_FRAME_INTERVAL_MS = 100"

record packet_selector =
  ps_kind :: media_kind
  ps_ctx :: selector_ctx
  ps_selected_channel :: "nat option"
  ps_need_key_frame :: bool
  ps_last_key_frame_ts :: "nat option"
  ps_selector :: "video_selector option"
  ps_queue :: "action list"
  ps_bitrate :: "nat option"
  ps_limit :: "nat \<times> nat"

definition ps_new :: "media_kind \<Rightarrow> nat \<Rightarrow> nat \<Rightarrow> packet_selector" where
  "ps_new kind max_spatial max_temporal =
     \<lparr>ps_kind = kind, ps_ctx = ctx_new kind, ps_selected_channel = None, ps_need_key_frame = False,
      ps_last_key_frame_ts = None, ps_selector = None, ps_queue = [], ps_bitrate = None,
      ps_limit = (max_spatial, max_temporal)\<rparr>"

definition key_frame_due :: "nat option \<Rightarrow> nat \<Rightarrow> bool" where
  "key_frame_due last_ts now_ms =
     (case last_ts of None \<Rightarrow> True | Some ts \<Rightarrow> ts + REQUEST_KEY_FRAME_INTERVAL_MS \<le> now_ms)"

text \<open>No selector does anything in its own \<open>on_tick\<close>.\<close>

definition ps_on_tick :: "packet_selector \<Rightarrow> nat \<Rightarrow> packet_selector" where
  "ps_on_tick p now_ms =
     (if ps_need_key_frame p \<and> key_frame_due (ps_last_key_frame_ts p) now_ms
      then p\<lparr>ps_last_key_frame_ts := Some now_ms, ps_queue := ps_queue p @ [RequestKeyFrame]\<rparr>
      else p)"

definition ps_reset :: "packet_selector \<Rightarrow> packet_selector" where
  "ps_reset p = p\<lparr>ps_selected_channel := None, ps_need_key_frame := False,
     ps_last_key_frame_ts := None, ps_bitrate := None\<rparr>"

definition ps_set_target_bitrate :: "packet_selector \<Rightarrow> nat \<Rightarrow> nat \<Rightarrow> packet_selector" where
  "ps_set_target_bitrate p now_ms bitrate =
     p\<lparr>ps_bitrate := Some bitrate,
       ps_selector := map_option (\<lambda>s. vs_set_target_bitrate s bitrate) (ps_selector p)\<rparr>"

definition ps_set_limit_layer :: "packet_selector \<Rightarrow> nat \<Rightarrow> nat \<Rightarrow> nat \<Rightarrow> packet_selector" where
  "ps_set_limit_layer p now_ms max_spatial min_spatial =
     p\<lparr>ps_limit := (max_spatial, min_spatial),
       ps_selector := map_option (\<lambda>s. vs_set_limit_layer s max_spatial min_spatial) (ps_selector p)\<rparr>"

definition create_selector :: "media_packet \<Rightarrow> nat \<Rightarrow> nat \<times> nat \<Rightarrow> video_selector option" where
  "create_selector pkt bitrate limit =
     (let layers = (case pkt_layers pkt of None \<Rightarrow> default_sim | Some ls \<Rightarrow> ls) in
      case pkt_meta pkt of
        Opus _ \<Rightarrow> None
      | H264 _ _ (Some _) _ \<Rightarrow> Some (SelH264 (h264_new bitrate layers limit))
      | Vp8 _ (Some _) _ \<Rightarrow> Some (SelVp8 (vp8_new bitrate layers limit))
      | Vp9 _ _ (Some _) _ \<Rightarrow> Some (SelVp9 (vp9_new False bitrate layers limit))
      | _ \<Rightarrow> Some SelSingle)"

text \<open>Rewriting a forwarded packet: the timestamp first, then the sequence number; \<open>None\<close> of the
  sequence rewriter rejects the packet.\<close>

definition ps_rewrite ::
  "packet_selector \<Rightarrow> nat \<Rightarrow> media_packet \<Rightarrow> (packet_selector \<times> media_packet \<times> bool) res" where
  "ps_rewrite p now_ms pkt =
     (let (ts1, out) = ts_generate TS_MAX 10 (ctx_ts_rewrite (ps_ctx p)) now_ms (pkt_ts pkt);
          p1 = p\<lparr>ps_ctx := (ps_ctx p)\<lparr>ctx_ts_rewrite := ts1\<rparr>\<rparr>;
          pkt1 = pkt\<lparr>pkt_ts := as_u32 out\<rparr>
      in res_bind (seq_generate SEQ_MAX (ctx_seq_rewrite (ps_ctx p1)) (pkt_seq pkt1)) (\<lambda>(sq, seq_out).
         let p2 = p1\<lparr>ps_ctx := (ps_ctx p1)\<lparr>ctx_seq_rewrite := sq\<rparr>\<rparr> in
         Inr (case seq_out of
                None \<Rightarrow> (p2, pkt1, False)
              | Some v \<Rightarrow> (p2, pkt1\<lparr>pkt_seq := as_u16 v\<rparr>, True))))"

definition select_audio ::
  "packet_selector \<Rightarrow> nat \<Rightarrow> nat \<Rightarrow> media_packet \<Rightarrow> (packet_selector \<times> media_packet \<times> bool) res" where
  "select_audio p now_ms channel pkt =
     (let p1 = (if ps_selected_channel p \<noteq> Some channel
                then p\<lparr>ps_ctx := ctx_reinit_seq_ts (ps_ctx p), ps_selected_channel := Some channel\<rparr>
                else p)
      in ps_rewrite p1 now_ms pkt)"

definition select_video_inner ::
  "packet_selector \<Rightarrow> nat \<Rightarrow> nat \<Rightarrow> media_packet \<Rightarrow> (packet_selector \<times> media_packet \<times> bool) res" where
  "select_video_inner p now_ms channel pkt =
     (let p1 = (if ps_selected_channel p \<noteq> Some channel
                then let p0 = p\<lparr>ps_ctx := ctx_reinit_seq_ts (ps_ctx p),
                                ps_selected_channel := Some channel, ps_selector := None\<rparr> in
                     if \<not> is_video_key (pkt_meta pkt)
                     then p0\<lparr>ps_queue := ps_queue p0 @ [RequestKeyFrame], ps_need_key_frame := True,
                             ps_last_key_frame_ts := Some now_ms\<rparr>
                     else p0
                else p)
      in case ps_bitrate p1 of
           None \<Rightarrow> Inr (p1, pkt, False)
         | Some bitrate \<Rightarrow>
             (let p2 = (if ps_need_key_frame p1 \<and> is_video_key (pkt_meta pkt)
                        then p1\<lparr>ps_need_key_frame := False\<rparr> else p1)
              in res_bind
                (if ps_selector p2 = None \<and> is_video_key (pkt_meta pkt)
                 then res_bind (rexpect (create_selector pkt bitrate (ps_limit p2))) (\<lambda>s.
                      Inr (p2\<lparr>ps_selector := Some s, ps_ctx := vs_on_init s (ps_ctx p2)\<rparr>))
                 else Inr p2) (\<lambda>p3.
                case ps_selector p3 of
                  None \<Rightarrow> Inr (p3, pkt, False)
                | Some s \<Rightarrow> res_bind (vs_select s (ps_ctx p3) pkt) (\<lambda>(s1, c1, pkt1, ok).
                    Inr (p3\<lparr>ps_selector := Some s1, ps_ctx := c1\<rparr>, pkt1, ok)))))"

definition select_video ::
  "packet_selector \<Rightarrow> nat \<Rightarrow> nat \<Rightarrow> media_packet \<Rightarrow> (packet_selector \<times> media_packet \<times> bool) res" where
  "select_video p now_ms channel pkt =
     res_bind (select_video_inner p now_ms channel pkt) (\<lambda>(p1, pkt1, ok).
     if ok then ps_rewrite p1 now_ms pkt1 else Inr (p1, pkt1, False))"

definition ps_select ::
  "packet_selector \<Rightarrow> nat \<Rightarrow> nat \<Rightarrow> media_packet \<Rightarrow> (packet_selector \<times> media_packet \<times> bool) res" where
  "ps_select p now_ms channel pkt =
     (if kind_is_audio (ps_kind p) then select_audio p now_ms channel pkt
      else select_video p now_ms channel pkt)"

text \<open>The \<open>while let\<close> loop of \<open>pop_output\<close> over the actions of the selector; each turn takes one off its
  queue.\<close>

function pop_actions :: "packet_selector \<Rightarrow> nat \<Rightarrow> packet_selector \<times> action option" where
  "pop_actions p now_ms =
     (case ps_selector p of
        None \<Rightarrow> (p, None)
      | Some s \<Rightarrow>
          (case vs_pop_action s of
             None \<Rightarrow> (p, None)
           | Some (RequestKeyFrame, s1) \<Rightarrow>
               let p1 = p\<lparr>ps_selector := Some s1\<rparr> in
               if key_frame_due (ps_last_key_frame_ts p1) now_ms
               then (p1\<lparr>ps_need_key_frame := True, ps_last_key_frame_ts := Some now_ms\<rparr>, Some RequestKeyFrame)
               else pop_actions p1 now_ms))"
  by pat_completeness auto
termination
  by (relation "measure (\<lambda>(p, now_ms). case ps_selector p of None \<Rightarrow> 0 | Some s \<Rightarrow> length (vs_queue s))")
     (auto dest: vs_pop_action_queue)

declare pop_actions.simps [simp del]

definition ps_pop_output :: "packet_selector \<Rightarrow> nat \<Rightarrow> packet_selector \<times> action option" where
  "ps_pop_output p now_ms =
     (case ps_queue p of
        out # q \<Rightarrow> (p\<lparr>ps_queue := q\<rparr>, Some out)
      | [] \<Rightarrow> pop_actions p now_ms)"

section \<open>Voice activity\<close>

definition AUDIO_LEVEL_THRESHOLD :: int where "AUDIO_LEVEL_THRESHOLD = -40"
definition VOICE_ACTIVITY_INTERVAL :: nat where "VOICE_ACTIVITY_INTERVAL = 500"

record voice_activity_detector =
  va_last_activity :: nat

definition va_on_audio ::
  "voice_activity_detector \<Rightarrow> nat \<Rightarrow> int option \<Rightarrow> voice_activity_detector \<times> int option" where
  "va_on_audio v now audio_level =
     (case audio_level of
        None \<Rightarrow> (v, None)
      | Some l \<Rightarrow>
          if l \<ge> AUDIO_LEVEL_THRESHOLD \<and> va_last_activity v + VOICE_ACTIVITY_INTERVAL \<le> now
          then (v\<lparr>va_last_activity := now\<rparr>, Some l) else (v, None))"

section \<open>Invariant and totality\<close>

lemma ctx_inv_ts [simp]: "ctx_inv (c\<lparr>ctx_ts_rewrite := t\<rparr>) = ctx_inv c"
  by (simp add: ctx_inv_def)

lemma ps_rewrite_ok:
  assumes "ctx_inv (ps_ctx p)" "pkt_seq pkt < SEQ_MAX"
  shows "\<exists>p1 pkt1 ok. ps_rewrite p now pkt = Inr (p1, pkt1, ok) \<and> ctx_inv (ps_ctx p1) \<and> ps_kind p1 = ps_kind p"
proof -
  obtain t out where t: "ts_generate TS_MAX 10 (ctx_ts_rewrite (ps_ctx p)) now (pkt_ts pkt) = (t, out)"
    by fastforce
  obtain sq so where "seq_generate SEQ_MAX (ctx_seq_rewrite (ps_ctx p)) (pkt_seq pkt) = Inr (sq, so)"
      "sr_inv SEQ_MAX sq"
    using seq_generate_ok[of SEQ_MAX "ctx_seq_rewrite (ps_ctx p)" "pkt_seq pkt"] assms
    by (auto simp: ctx_inv_def)
  then show ?thesis
    using assms(1) t by (auto simp: ps_rewrite_def ctx_inv_def Let_def split: option.split)
qed

lemma create_selector_key:
  "is_video_key (pkt_meta pkt) \<Longrightarrow> \<exists>s. create_selector pkt bitrate limit = Some s"
  by (cases "pkt_meta pkt") (auto simp: create_selector_def Let_def split: option.split)

lemma vs_on_init_inv [simp]: "ctx_inv c \<Longrightarrow> ctx_inv (vs_on_init s c)"
  by (cases s) (simp_all add: vp8_on_init_def vp9_on_init_def)

lemma select_video_inner_ok:
  assumes "ctx_inv (ps_ctx p)" "pkt_ok pkt"
  shows "\<exists>p1 pkt1 ok. select_video_inner p now ch pkt = Inr (p1, pkt1, ok) \<and> ctx_inv (ps_ctx p1) \<and>
    same_stamp pkt1 pkt \<and> ps_kind p1 = ps_kind p"
proof -
  have sel: "\<exists>s1 c1 p1 ok. vs_select s c pkt = Inr (s1, c1, p1, ok) \<and> ctx_inv c1 \<and> same_stamp p1 pkt"
    if "ctx_inv c" for s c
    using vs.select_total[OF that assms(2)] .
  obtain s0 where s0: "is_video_key (pkt_meta pkt) \<Longrightarrow> create_selector pkt b l = Some (s0 b l)" for b l
    using create_selector_key[of pkt] by metis
  have ss: "same_stamp pkt pkt" by (simp add: same_stamp_def)
  show ?thesis
  proof (cases "ps_bitrate p")
    case None
    then show ?thesis using assms(1) ss by (auto simp: select_video_inner_def Let_def)
  next
    case (Some b)
    define c0 where "c0 = (if ps_selected_channel p \<noteq> Some ch then ctx_reinit_seq_ts (ps_ctx p) else ps_ctx p)"
    define sl where "sl = (if ps_selected_channel p \<noteq> Some ch then None else ps_selector p)"
    have c0: "ctx_inv c0" using assms(1) by (simp add: c0_def)
    consider (new) "sl = None" "is_video_key (pkt_meta pkt)" | (wait) "sl = None" "\<not> is_video_key (pkt_meta pkt)"
      | (old) s where "sl = Some s" by blast
    then show ?thesis
    proof cases
      case new
      obtain s1 c1 p1 ok where v: "vs_select (s0 b (ps_limit p)) (vs_on_init (s0 b (ps_limit p)) c0) pkt = Inr (s1, c1, p1, ok)"
          "ctx_inv c1" "same_stamp p1 pkt"
        using sel[of "vs_on_init (s0 b (ps_limit p)) c0" "s0 b (ps_limit p)"] c0 by auto
      show ?thesis
        using new v Some s0 by (auto simp: select_video_inner_def Let_def sl_def c0_def split: if_splits)
    next
      case wait
      then show ?thesis
        using Some c0 ss by (auto simp: select_video_inner_def Let_def sl_def c0_def split: if_splits)
    next
      case (old s)
      obtain s1 c1 p1 ok where "vs_select s c0 pkt = Inr (s1, c1, p1, ok)" "ctx_inv c1" "same_stamp p1 pkt"
        using sel[OF c0, of s] by auto
      then show ?thesis
        using old Some by (auto simp: select_video_inner_def Let_def sl_def c0_def split: if_splits)
    qed
  qed
qed

lemma ps_select_ok:
  assumes "ctx_inv (ps_ctx p)" "pkt_ok pkt"
  shows "\<exists>p1 pkt1 ok. ps_select p now ch pkt = Inr (p1, pkt1, ok) \<and> ctx_inv (ps_ctx p1) \<and> ps_kind p1 = ps_kind p"
proof (cases "kind_is_audio (ps_kind p)")
  case True
  let ?p = "if ps_selected_channel p \<noteq> Some ch
    then p\<lparr>ps_ctx := ctx_reinit_seq_ts (ps_ctx p), ps_selected_channel := Some ch\<rparr> else p"
  have "ctx_inv (ps_ctx ?p)" "ps_kind ?p = ps_kind p" using assms(1) by simp_all
  then show ?thesis
    using ps_rewrite_ok[of ?p pkt now] assms(2) True by (simp add: ps_select_def select_audio_def pkt_ok_def)
next
  case False
  obtain p1 pkt1 ok where i: "select_video_inner p now ch pkt = Inr (p1, pkt1, ok)" "ctx_inv (ps_ctx p1)"
      "same_stamp pkt1 pkt" "ps_kind p1 = ps_kind p"
    using select_video_inner_ok[OF assms] by blast
  then have "pkt_seq pkt1 < SEQ_MAX" using assms(2) by (simp add: same_stamp_def pkt_ok_def)
  then show ?thesis
    using ps_rewrite_ok[of p1 pkt1 now] i False by (cases ok) (auto simp: ps_select_def select_video_def)
qed


section \<open>Runs\<close>

text \<open>A run is any interleaving of the calls the local track makes. Each call has an answer: what a
  selection forwards, what \<open>pop_output\<close> returns.\<close>

datatype ps_op = PsTick nat | PsReset | PsBitrate nat nat | PsLimit nat nat nat
  | PsSelect nat nat media_packet | PsPop nat

datatype ps_out = NoAnswer | Forward media_packet | Reject | Popped "action option"

definition ps_step :: "packet_selector \<Rightarrow> ps_op \<Rightarrow> (packet_selector \<times> ps_out) res" where
  "ps_step p op1 =
     (case op1 of
        PsTick now \<Rightarrow> Inr (ps_on_tick p now, NoAnswer)
      | PsReset \<Rightarrow> Inr (ps_reset p, NoAnswer)
      | PsBitrate now b \<Rightarrow> Inr (ps_set_target_bitrate p now b, NoAnswer)
      | PsLimit now sp tp \<Rightarrow> Inr (ps_set_limit_layer p now sp tp, NoAnswer)
      | PsSelect now ch pkt \<Rightarrow> res_bind (ps_select p now ch pkt) (\<lambda>(p1, pkt1, ok).
          Inr (p1, if ok then Forward pkt1 else Reject))
      | PsPop now \<Rightarrow> (let (p1, out) = ps_pop_output p now in Inr (p1, Popped out)))"

fun ps_run :: "packet_selector \<Rightarrow> ps_op list \<Rightarrow> (packet_selector \<times> ps_out list) res" where
  "ps_run p [] = Inr (p, [])"
| "ps_run p (op1 # ops) = res_bind (ps_step p op1) (\<lambda>(p1, out).
     res_bind (ps_run p1 ops) (\<lambda>(p2, outs). Inr (p2, out # outs)))"

definition ps_op_ok :: "ps_op \<Rightarrow> bool" where
  "ps_op_ok op1 = (case op1 of PsSelect now ch pkt \<Rightarrow> pkt_ok pkt | _ \<Rightarrow> True)"

fun op_time :: "ps_op \<Rightarrow> nat" where
  "op_time (PsTick now) = now"
| "op_time PsReset = 0"
| "op_time (PsBitrate now b) = now"
| "op_time (PsLimit now sp tp) = now"
| "op_time (PsSelect now ch pkt) = now"
| "op_time (PsPop now) = now"

text \<open>Calls that stay on the channel \<open>ch\<close>: no reset, no packet of another channel.\<close>

definition on_channel :: "nat \<Rightarrow> ps_op \<Rightarrow> bool" where
  "on_channel ch op1 = (case op1 of PsReset \<Rightarrow> False | PsSelect now ch1 pkt \<Rightarrow> ch1 = ch | _ \<Rightarrow> True)"

definition no_key :: "ps_op \<Rightarrow> bool" where
  "no_key op1 = (case op1 of PsSelect now ch pkt \<Rightarrow> \<not> is_video_key (pkt_meta pkt) | _ \<Rightarrow> True)"

lemma pop_actions_keeps:
  "pop_actions p now = (p1, out) \<Longrightarrow> ps_ctx p1 = ps_ctx p \<and> ps_kind p1 = ps_kind p \<and>
     ps_selected_channel p1 = ps_selected_channel p \<and> ps_queue p1 = ps_queue p \<and>
     (ps_selector p1 = None \<longleftrightarrow> ps_selector p = None) \<and>
     (ps_need_key_frame p \<longrightarrow> ps_need_key_frame p1) \<and>
     (case out of
        None \<Rightarrow> ps_last_key_frame_ts p1 = ps_last_key_frame_ts p
      | Some a \<Rightarrow> ps_last_key_frame_ts p1 = Some now \<and> key_frame_due (ps_last_key_frame_ts p) now)"
proof (induction p now rule: pop_actions.induct)
  case (1 p now)
  note unf = 1(2)[unfolded pop_actions.simps[of p]]
  show ?case
  proof (cases "\<exists>s s1. ps_selector p = Some s \<and> vs_pop_action s = Some (RequestKeyFrame, s1) \<and>
      \<not> key_frame_due (ps_last_key_frame_ts p) now")
    case True
    then obtain s s1 where s: "ps_selector p = Some s" "vs_pop_action s = Some (RequestKeyFrame, s1)"
      "\<not> key_frame_due (ps_last_key_frame_ts p) now" by blast
    have "pop_actions (p\<lparr>ps_selector := Some s1\<rparr>) now = (p1, out)" using unf s by (simp add: Let_def)
    then show ?thesis
      using 1(1)[OF s(1,2) refl refl refl, of] s by (auto split: option.splits)
  next
    case False
    then show ?thesis using unf by (auto simp: Let_def split: option.splits action.splits if_splits)
  qed
qed

lemma ps_step_ok:
  assumes "ctx_inv (ps_ctx p)" "ps_op_ok op1"
  shows "\<exists>p1 out. ps_step p op1 = Inr (p1, out) \<and> ctx_inv (ps_ctx p1)"
proof (cases op1)
  case (PsSelect now ch pkt)
  then show ?thesis
    using ps_select_ok[OF assms(1), of pkt now ch] assms(2) by (auto simp: ps_step_def ps_op_ok_def)
next
  case (PsPop now)
  then show ?thesis
    using assms(1) pop_actions_keeps
    by (auto simp: ps_step_def ps_pop_output_def split: prod.split list.split)
qed (use assms(1) in \<open>simp_all add: ps_step_def ps_on_tick_def ps_reset_def ps_set_target_bitrate_def
  ps_set_limit_layer_def\<close>)

lemma ps_run_ok:
  "ctx_inv (ps_ctx p) \<Longrightarrow> \<forall>op1\<in>set ops. ps_op_ok op1 \<Longrightarrow>
   \<exists>p1 outs. ps_run p ops = Inr (p1, outs) \<and> ctx_inv (ps_ctx p1) \<and> length outs = length ops"
proof (induction ops arbitrary: p)
  case (Cons op1 ops)
  then obtain p1 out where st: "ps_step p op1 = Inr (p1, out)" "ctx_inv (ps_ctx p1)"
    using ps_step_ok[of p op1] by auto
  then show ?case using Cons.IH[OF st(2)] Cons.prems(2) by auto
qed simp

section \<open>Waiting for a key frame\<close>

definition waiting :: "nat \<Rightarrow> packet_selector \<Rightarrow> bool" where
  "waiting ch p \<longleftrightarrow> \<not> kind_is_audio (ps_kind p) \<and> ps_selected_channel p = Some ch \<and>
     ps_need_key_frame p \<and> ps_selector p = None"

lemma waiting_step:
  assumes "waiting ch p" "on_channel ch op1" "no_key op1"
  shows "\<exists>p1 out. ps_step p op1 = Inr (p1, out) \<and> waiting ch p1 \<and> (\<forall>pkt. out \<noteq> Forward pkt)"
proof (cases op1)
  case (PsPop now)
  then show ?thesis
    using assms(1)
    by (auto simp: ps_step_def ps_pop_output_def waiting_def pop_actions.simps[of p] split: list.split)
qed (use assms in \<open>auto simp: waiting_def ps_step_def ps_on_tick_def ps_set_target_bitrate_def
  ps_set_limit_layer_def on_channel_def no_key_def ps_select_def select_video_def select_video_inner_def
  split: option.split\<close>)

lemma waiting_run:
  "waiting ch p \<Longrightarrow> \<forall>op1\<in>set ops. on_channel ch op1 \<and> no_key op1 \<Longrightarrow>
   \<exists>p1 outs. ps_run p ops = Inr (p1, outs) \<and> waiting ch p1 \<and> (\<forall>pkt. Forward pkt \<notin> set outs)"
proof (induction ops arbitrary: p)
  case (Cons op1 ops)
  then obtain p1 out where st: "ps_step p op1 = Inr (p1, out)" "waiting ch p1" "\<forall>pkt. out \<noteq> Forward pkt"
    using waiting_step[of ch p op1] by auto
  then show ?case using Cons.IH[OF st(2)] Cons.prems(2) by fastforce
qed simp

lemma new_channel_waits:
  assumes "\<not> kind_is_audio (ps_kind p)" "ps_selected_channel p \<noteq> Some ch" "\<not> is_video_key (pkt_meta pkt)"
  shows "\<exists>p1. ps_step p (PsSelect now ch pkt) = Inr (p1, Reject) \<and> waiting ch p1 \<and>
    ps_queue p1 = ps_queue p @ [RequestKeyFrame] \<and> ps_last_key_frame_ts p1 = Some now"
  using assms
  by (cases "ps_bitrate p")
     (simp_all add: ps_step_def ps_select_def select_video_def select_video_inner_def waiting_def)

lemma waiting_tick:
  assumes "waiting ch p" "key_frame_due (ps_last_key_frame_ts p) now"
  shows "ps_queue (ps_on_tick p now) = ps_queue p @ [RequestKeyFrame]"
  using assms by (simp add: waiting_def ps_on_tick_def)

section \<open>Rate of key-frame requests\<close>

definition requests :: "ps_out list \<Rightarrow> nat" where
  "requests outs = length (filter (\<lambda>out. out = Popped (Some RequestKeyFrame)) outs)"

lemma requests_simps [simp]:
  "requests [] = 0"
  "requests (out # outs) = (if out = Popped (Some RequestKeyFrame) then 1 else 0) + requests outs"
  by (simp_all add: requests_def)

lemma select_inner_same_channel:
  assumes "select_video_inner p now ch pkt = Inr (p1, pkt1, ok)" "ps_selected_channel p = Some ch"
  shows "ps_queue p1 = ps_queue p \<and> ps_last_key_frame_ts p1 = ps_last_key_frame_ts p \<and>
    ps_selected_channel p1 = Some ch"
  using assms
  by (auto simp: select_video_inner_def Let_def panic_simps split: option.splits if_splits)

lemma ps_rewrite_keeps:
  assumes "ps_rewrite p now pkt = Inr (p1, pkt1, ok)"
  shows "ps_queue p1 = ps_queue p \<and> ps_last_key_frame_ts p1 = ps_last_key_frame_ts p \<and>
    ps_selected_channel p1 = ps_selected_channel p"
  using assms by (auto simp: ps_rewrite_def Let_def panic_simps split: option.splits prod.splits)

lemma ps_select_same_channel:
  assumes "ps_select p now ch pkt = Inr (p1, pkt1, ok)" "ps_selected_channel p = Some ch"
  shows "ps_queue p1 = ps_queue p \<and> ps_last_key_frame_ts p1 = ps_last_key_frame_ts p \<and>
    ps_selected_channel p1 = Some ch"
  using assms ps_rewrite_keeps select_inner_same_channel
  by (fastforce simp: ps_select_def select_audio_def select_video_def panic_simps split: if_splits prod.splits)

lemma rate_step:
  assumes "ps_step p op1 = Inr (p1, out)" "ps_selected_channel p = Some ch" "on_channel ch op1"
    "ps_last_key_frame_ts p = Some t0"
  shows "ps_selected_channel p1 = Some ch \<and> (\<exists>t1. ps_last_key_frame_ts p1 = Some t1 \<and> t1 \<in> {t0, op_time op1} \<and>
    t0 + 100 * (length (ps_queue p1) + requests [out]) \<le> t1 + 100 * length (ps_queue p))"
proof (cases op1)
  case (PsSelect now ch1 pkt)
  then obtain pkt1 ok where sel: "ps_select p now ch pkt = Inr (p1, pkt1, ok)" and "out = (if ok then Forward pkt1 else Reject)"
    using assms(1,3) by (auto simp: ps_step_def on_channel_def panic_simps)
  then show ?thesis using ps_select_same_channel[OF sel assms(2)] assms(4) by auto
next
  case (PsPop now)
  show ?thesis
  proof (cases "ps_queue p")
    case Nil
    then have pop: "pop_actions p now = (p1, case out of Popped a \<Rightarrow> a)" "\<exists>a. out = Popped a"
      using assms(1) PsPop by (auto simp: ps_step_def ps_pop_output_def split: prod.splits)
    then show ?thesis
      using pop_actions_keeps[OF pop(1)] assms(2,4) Nil PsPop
      by (auto simp: key_frame_due_def REQUEST_KEY_FRAME_INTERVAL_MS_def split: option.splits)
  qed (use assms PsPop in \<open>auto simp: ps_step_def ps_pop_output_def\<close>)
qed (use assms in \<open>auto simp: ps_step_def ps_on_tick_def ps_set_target_bitrate_def ps_set_limit_layer_def
  on_channel_def key_frame_due_def REQUEST_KEY_FRAME_INTERVAL_MS_def\<close>)

lemma rate_run:
  "ps_run p ops = Inr (p1, outs) \<Longrightarrow> ps_selected_channel p = Some ch \<Longrightarrow> \<forall>op1\<in>set ops. on_channel ch op1 \<Longrightarrow>
   ps_last_key_frame_ts p = Some t0 \<Longrightarrow>
   \<exists>t1. t1 \<in> insert t0 (op_time ` set ops) \<and>
     t0 + 100 * (length (ps_queue p1) + requests outs) \<le> t1 + 100 * length (ps_queue p)"
proof (induction ops arbitrary: p t0 outs)
  case (Cons op1 ops)
  then obtain p2 out outs2 where st: "ps_step p op1 = Inr (p2, out)" "ps_run p2 ops = Inr (p1, outs2)"
      "outs = out # outs2"
    by (auto simp: panic_simps)
  obtain t2 where t2: "ps_selected_channel p2 = Some ch" "ps_last_key_frame_ts p2 = Some t2" "t2 \<in> {t0, op_time op1}"
      "t0 + 100 * (length (ps_queue p2) + requests [out]) \<le> t2 + 100 * length (ps_queue p)"
    using rate_step[OF st(1) Cons.prems(2) _ Cons.prems(4)] Cons.prems(3) by auto
  then obtain t1 where "t1 \<in> insert t2 (op_time ` set ops)"
      "t2 + 100 * (length (ps_queue p1) + requests outs2) \<le> t1 + 100 * length (ps_queue p2)"
    using Cons.IH[OF st(2) t2(1) _ t2(2)] Cons.prems(3) by auto
  then show ?case using t2 st(3) by (intro exI[of _ t1]) auto
qed simp

section \<open>A key frame that comes before the bitrate\<close>

definition stalled :: "nat \<Rightarrow> packet_selector \<Rightarrow> bool" where
  "stalled ch p \<longleftrightarrow> \<not> kind_is_audio (ps_kind p) \<and> ps_selected_channel p = Some ch \<and>
     \<not> ps_need_key_frame p \<and> ps_selector p = None \<and> ps_queue p = []"

lemma stalled_step:
  assumes "stalled ch p" "on_channel ch op1" "no_key op1"
  shows "\<exists>p1 out. ps_step p op1 = Inr (p1, out) \<and> stalled ch p1 \<and> (\<forall>pkt. out \<noteq> Forward pkt) \<and> requests [out] = 0"
proof (cases op1)
  case (PsSelect now ch1 pkt)
  then show ?thesis
    using assms by (cases "ps_bitrate p") (auto simp: stalled_def ps_step_def on_channel_def no_key_def ps_select_def
      select_video_def select_video_inner_def)
qed (use assms in \<open>auto simp: stalled_def ps_step_def ps_on_tick_def ps_set_target_bitrate_def
  ps_set_limit_layer_def on_channel_def no_key_def ps_pop_output_def pop_actions.simps[of p]\<close>)

lemma stalled_run:
  "stalled ch p \<Longrightarrow> \<forall>op1\<in>set ops. on_channel ch op1 \<and> no_key op1 \<Longrightarrow>
   \<exists>p1 outs. ps_run p ops = Inr (p1, outs) \<and> (\<forall>pkt. Forward pkt \<notin> set outs) \<and> requests outs = 0"
proof (induction ops arbitrary: p)
  case (Cons op1 ops)
  then obtain p1 out where st: "ps_step p op1 = Inr (p1, out)" "stalled ch p1" "\<forall>pkt. out \<noteq> Forward pkt" "requests [out] = 0"
    using stalled_step[of ch p op1] by auto
  then show ?case using Cons.IH[OF st(2)] Cons.prems(2) by fastforce
qed simp

section \<open>Audio\<close>

definition audio_ops :: "nat \<Rightarrow> (nat \<times> media_packet) list \<Rightarrow> ps_op list" where
  "audio_ops ch pkts = map (\<lambda>(now, pkt). PsSelect now ch pkt) pkts"

text \<open>The sequence number of what a call forwards.\<close>

fun out_seq :: "ps_out \<Rightarrow> nat option" where
  "out_seq (Forward pkt) = Some (pkt_seq pkt)"
| "out_seq NoAnswer = None"
| "out_seq Reject = None"
| "out_seq (Popped a) = None"

fun consecutive :: "nat \<Rightarrow> (nat \<times> media_packet) list \<Rightarrow> bool" where
  "consecutive n [] = True"
| "consecutive n ((now, pkt) # pkts) = (pkt_seq pkt = n \<and> consecutive ((n + 1) mod 65536) pkts)"

lemma audio_run_stream:
  assumes "kind_is_audio (ps_kind p)" "ps_selected_channel p = Some ch" "consecutive n pkts"
    "seq_stream SEQ_MAX (ctx_seq_rewrite (ps_ctx p)) n (replicate (length pkts) True) = Inr ns"
    "\<forall>v. Some v \<in> set ns \<longrightarrow> v < 65536"
  shows "\<exists>p1 outs. ps_run p (audio_ops ch pkts) = Inr (p1, outs) \<and> map out_seq outs = ns"
  using assms
proof (induction pkts arbitrary: p n ns)
  case Nil
  then show ?case by (simp add: audio_ops_def)
next
  case (Cons a pkts)
  obtain now pkt where a: "a = (now, pkt)" by (cases a)
  obtain sq o1 ns1 where g: "seq_generate SEQ_MAX (ctx_seq_rewrite (ps_ctx p)) n = Inr (sq, o1)"
      "seq_stream SEQ_MAX sq ((n + 1) mod SEQ_MAX) (replicate (length pkts) True) = Inr ns1" "ns = o1 # ns1"
    using Cons.prems(4) by (auto simp: panic_simps)
  obtain t out where t: "ts_generate TS_MAX 10 (ctx_ts_rewrite (ps_ctx p)) now (pkt_ts pkt) = (t, out)"
    by fastforce
  define p1 where "p1 = p\<lparr>ps_ctx := (ps_ctx p)\<lparr>ctx_ts_rewrite := t, ctx_seq_rewrite := sq\<rparr>\<rparr>"
  have st: "ps_step p (PsSelect now ch pkt) = Inr (p1, case o1 of None \<Rightarrow> Reject
      | Some v \<Rightarrow> Forward (pkt\<lparr>pkt_ts := as_u32 out, pkt_seq := as_u16 v\<rparr>))"
    using Cons.prems(1-3) g(1) t a
    by (simp add: ps_step_def ps_select_def select_audio_def ps_rewrite_def p1_def Let_def split: option.split)
  have "o1 = Some v \<Longrightarrow> as_u16 v = v" for v using Cons.prems(5) g(3) by (simp add: as_u16_def)
  moreover obtain p2 outs where "ps_run p1 (audio_ops ch pkts) = Inr (p2, outs)" "map out_seq outs = ns1"
    using Cons.IH[of p1 "(n + 1) mod 65536" ns1] Cons.prems g a by (auto simp: p1_def)
  ultimately show ?case using st a g(3) by (auto simp: audio_ops_def split: option.split)
qed

lemma gaps_ok_forward: "1 < L \<Longrightarrow> gaps_ok L 0 (replicate k True)"
  by (induction k) simp_all

lemma audio_reinit_step:
  assumes "kind_is_audio (ps_kind p)" "ps_selected_channel p \<noteq> Some ch"
  shows "ps_run p (audio_ops ch pkts) =
    (if pkts = [] then Inr (p, [])
     else ps_run (p\<lparr>ps_ctx := ctx_reinit_seq_ts (ps_ctx p), ps_selected_channel := Some ch\<rparr>) (audio_ops ch pkts))"
  using assms by (cases pkts) (auto simp: audio_ops_def ps_step_def ps_select_def select_audio_def)

section \<open>Properties\<close>

definition demo_ps_ops :: "ps_op list" where
  "demo_ps_ops = [PsSelect 0 1 (demo_vp8_pkt False 0 0), PsBitrate 0 100000, PsPop 3,
     PsSelect 5 1 (demo_vp8_pkt True 0 0), PsReset, PsTick 200]"

text \<open>C6: whatever the order of ticks, resets, bitrate and layer updates, pops and packets (of any channel
  and codec, with header fields in their wire range), the packet selector never panics: the assertions
  of its rewriters and its \<open>expect\<close> calls hold.\<close>

theorem ps_never_panics:
  assumes "\<forall>op1\<in>set ops. ps_op_ok op1"
  shows "\<exists>p1 outs. ps_run (ps_new kind sp tp) ops = Inr (p1, outs) \<and> length outs = length ops"
  using ps_run_ok[OF _ assms, of "ps_new kind sp tp"] ctx_inv_new by (fastforce simp: ps_new_def)

theorem ps_never_panics_witness:
  "\<exists>p1 outs. ps_run (ps_new Video 2 2) demo_ps_ops = Inr (p1, outs) \<and> length outs = length demo_ps_ops"
  by (rule ps_never_panics) (simp add: demo_ps_ops_def ps_op_ok_def pkt_ok_def demo_vp8_pkt_def)

text \<open>C21: when a video viewer switches to a source whose first packet is no key frame, the packet is
  rejected and a key frame is requested; until a key frame of that source arrives nothing is forwarded,
  whatever ticks, bitrate and layer updates and delta packets come, and a tick 100 ms after the last
  request repeats it.\<close>

theorem video_waits_for_key:
  assumes "\<not> kind_is_audio (ps_kind p)" "ps_selected_channel p \<noteq> Some ch" "\<not> is_video_key (pkt_meta pkt)"
    "\<forall>op1\<in>set ops. on_channel ch op1 \<and> no_key op1"
  shows "\<exists>p1 p2 outs. ps_step p (PsSelect now ch pkt) = Inr (p1, Reject) \<and>
    ps_queue p1 = ps_queue p @ [RequestKeyFrame] \<and>
    ps_run p1 ops = Inr (p2, outs) \<and> (\<forall>pkt. Forward pkt \<notin> set outs) \<and>
    (\<forall>t. key_frame_due (ps_last_key_frame_ts p2) t \<longrightarrow>
       ps_queue (ps_on_tick p2 t) = ps_queue p2 @ [RequestKeyFrame])"
proof -
  obtain p1 where p1: "ps_step p (PsSelect now ch pkt) = Inr (p1, Reject)" "waiting ch p1"
      "ps_queue p1 = ps_queue p @ [RequestKeyFrame]"
    using new_channel_waits[OF assms(1-3)] by blast
  then obtain p2 outs where "ps_run p1 ops = Inr (p2, outs)" "waiting ch p2" "\<forall>pkt. Forward pkt \<notin> set outs"
    using waiting_run[OF p1(2) assms(4)] by blast
  then show ?thesis using p1 waiting_tick by blast
qed

theorem video_waits_for_key_witness:
  "\<exists>p1 p2 outs. ps_step (ps_new Video 2 2) (PsSelect 7 1 (demo_vp8_pkt False 0 0)) = Inr (p1, Reject) \<and>
    ps_queue p1 = ps_queue (ps_new Video 2 2) @ [RequestKeyFrame] \<and>
    ps_run p1 [PsBitrate 8 500000, PsPop 9, PsSelect 10 1 (demo_vp8_pkt False 0 0)] = Inr (p2, outs) \<and>
    (\<forall>pkt. Forward pkt \<notin> set outs) \<and>
    (\<forall>t. key_frame_due (ps_last_key_frame_ts p2) t \<longrightarrow>
       ps_queue (ps_on_tick p2 t) = ps_queue p2 @ [RequestKeyFrame])"
  by (rule video_waits_for_key) (simp_all add: ps_new_def demo_vp8_pkt_def on_channel_def no_key_def)

text \<open>C22: an audio viewer that switches to another source gets its packets with sequence numbers that
  continue the last one sent: consecutive input packets, from any start value and across wrap-arounds,
  are all forwarded, without gap or repetition.\<close>

theorem audio_gapless:
  assumes "kind_is_audio (ps_kind p)" "ctx_inv (ps_ctx p)" "sr_reinit_offset (ctx_seq_rewrite (ps_ctx p)) = None"
    "ps_selected_channel p \<noteq> Some ch" "n < 65536" "consecutive n pkts"
  shows "\<exists>p1 outs. ps_run p (audio_ops ch pkts) = Inr (p1, outs) \<and>
    map out_seq outs =
      map (\<lambda>i. Some ((sr_max_output (ctx_seq_rewrite (ps_ctx p)) + 1 + i) mod 65536)) [0..<length pkts]"
proof -
  let ?p = "p\<lparr>ps_ctx := ctx_reinit_seq_ts (ps_ctx p), ps_selected_channel := Some ch\<rparr>"
  let ?ns = "map (\<lambda>i. Some ((sr_max_output (ctx_seq_rewrite (ps_ctx p)) + 1 + i) mod 65536)) [0..<length pkts]"
  have "seq_stream SEQ_MAX (ctx_seq_rewrite (ps_ctx ?p)) n (replicate (length pkts) True) = Inr ?ns"
    using reinit_stream[of SEQ_MAX "ctx_seq_rewrite (ps_ctx p)" n "replicate (length pkts) True"] assms(2,3,5)
      gaps_ok_forward[of "SEQ_MAX div 2"]
    by (simp add: ctx_inv_def ctx_reinit_seq_ts_def)
  then have "\<exists>p1 outs. ps_run ?p (audio_ops ch pkts) = Inr (p1, outs) \<and> map out_seq outs = ?ns"
    using assms(1,6) by (intro audio_run_stream) auto
  then show ?thesis
    using audio_reinit_step[OF assms(1,4), of pkts] by (cases "pkts = []") auto
qed

definition demo_audio_pkt :: "nat \<Rightarrow> media_packet" where
  "demo_audio_pkt n = \<lparr>pkt_ts = 0, pkt_seq = n, pkt_marker = False, pkt_nackable = False, pkt_layers = None,
     pkt_meta = Opus None, pkt_data = []\<rparr>"

theorem audio_gapless_witness:
  "\<exists>p1 outs. ps_run (ps_new Audio 2 2) (audio_ops 4 [(0, demo_audio_pkt 65535), (20, demo_audio_pkt 0)]) = Inr (p1, outs) \<and>
    map out_seq outs =
      map (\<lambda>i. Some ((sr_max_output (ctx_seq_rewrite (ps_ctx (ps_new Audio 2 2))) + 1 + i) mod 65536))
        [0..<length [(0::nat, demo_audio_pkt 65535), (20, demo_audio_pkt 0)]]"
  by (rule audio_gapless[of _ _ 65535])
     (simp_all add: ps_new_def demo_audio_pkt_def ctx_inv_new, simp_all add: ctx_new_def seq_default_def)


definition demo_waiting :: packet_selector where
  "demo_waiting = (ps_new Video 2 2)\<lparr>ps_selected_channel := Some 1, ps_need_key_frame := True,
     ps_last_key_frame_ts := Some 7\<rparr>"


text \<open>When the first packet after a change of source is a key frame but no target bitrate is set yet,
  the key frame is lost: from then on nothing is forwarded and no key frame is requested, even after the
  bitrate is set, until the publisher happens to send another key frame.\<close>

theorem key_before_bitrate_stalls:
  assumes "\<not> kind_is_audio (ps_kind p)" "ps_queue p = []" "is_video_key (pkt_meta pkt)"
    "\<forall>op1\<in>set ops. on_channel ch op1 \<and> no_key op1"
  shows "\<exists>p1 outs. ps_run p (PsReset # PsSelect now ch pkt # ops) = Inr (p1, NoAnswer # Reject # outs) \<and>
    (\<forall>pkt. Forward pkt \<notin> set outs) \<and> requests outs = 0"
proof -
  obtain p1 where "ps_step (ps_reset p) (PsSelect now ch pkt) = Inr (p1, Reject)" "stalled ch p1"
    using assms(1-3)
    by (auto simp: ps_step_def ps_select_def select_video_def select_video_inner_def stalled_def ps_reset_def)
  then show ?thesis using stalled_run[OF _ assms(4)] by (fastforce simp: ps_step_def[of p])
qed

theorem key_before_bitrate_stalls_witness:
  "\<exists>p1 outs. ps_run (ps_new Video 2 2) (PsReset # PsSelect 7 1 (demo_vp8_pkt True 0 0) #
      [PsBitrate 8 500000, PsTick 200, PsSelect 210 1 (demo_vp8_pkt False 0 0), PsPop 220]) =
      Inr (p1, NoAnswer # Reject # outs) \<and> (\<forall>pkt. Forward pkt \<notin> set outs) \<and> requests outs = 0"
  by (rule key_before_bitrate_stalls) (simp_all add: ps_new_def demo_vp8_pkt_def on_channel_def no_key_def)

end
