(* ===== verification/Bitrate_Allocator.thy ===== *)
theory Bitrate_Allocator
  imports Media_Prelude
begin

text \<open>
  The bitrate allocators of \<open>packages/media_core/src/endpoint/internal/bitrate_allocator.rs\<close>,
  \<open>egress.rs\<close> and \<open>ingress.rs\<close>: the estimated (egress) or configured (ingress) bitrate is split over the
  video tracks in proportion to their priorities. Bitrates are 64-bit words and priorities 32-bit
  words, with the wrap-around of the release build. Shown: the shares never exceed the bitrate and lose
  less than one unit per track to rounding, the bandwidth-estimator configuration is sane, the
  allocation follows the latest priorities, and what happens when priorities overflow.
\<close>

section \<open>Egress\<close>

type_synonym track_id = nat

datatype alloc_action = SetBitrate "64 word"

datatype egress_output = EgTrack track_id alloc_action | EgBweConfig "64 word" "64 word"

definition DEFAULT_BITRATE_BPS :: "64 word" where "DEFAULT_BITRATE_BPS = 800000"
definition NO_TRACK_BWE_CURRENT :: "64 word" where "NO_TRACK_BWE_CURRENT = 100000"
definition NO_TRACK_BWE_DESIRED :: "64 word" where "NO_TRACK_BWE_DESIRED = 300000"

record egress_allocator =
  eg_max_egress_bitrate :: "64 word"
  eg_changed :: bool
  eg_egress_bitrate :: "64 word"
  eg_tracks :: "(track_id, 32 word) imap"
  eg_queue :: "egress_output list"

definition eg_new :: "64 word \<Rightarrow> egress_allocator" where
  "eg_new max_egress_bitrate =
     \<lparr>eg_max_egress_bitrate = max_egress_bitrate, eg_changed = False,
      eg_egress_bitrate = DEFAULT_BITRATE_BPS, eg_tracks = [], eg_queue = []\<rparr>"

definition eg_set_egress_estimate :: "egress_allocator \<Rightarrow> 64 word \<Rightarrow> egress_allocator" where
  "eg_set_egress_estimate a bitrate = a\<lparr>eg_egress_bitrate := bitrate, eg_changed := True\<rparr>"

definition eg_set_video_track :: "egress_allocator \<Rightarrow> track_id \<Rightarrow> 32 word \<Rightarrow> egress_allocator" where
  "eg_set_video_track a track priority =
     a\<lparr>eg_tracks := im_insert (eg_tracks a) track priority, eg_changed := True\<rparr>"

definition eg_del_video_track :: "egress_allocator \<Rightarrow> track_id \<Rightarrow> egress_allocator" where
  "eg_del_video_track a track =
     a\<lparr>eg_tracks := im_swap_remove (eg_tracks a) track, eg_changed := True\<rparr>"

definition eg_pop_output :: "egress_allocator \<Rightarrow> egress_allocator \<times> egress_output option" where
  "eg_pop_output a =
     (case eg_queue a of [] \<Rightarrow> (a, None) | out # q \<Rightarrow> (a\<lparr>eg_queue := q\<rparr>, Some out))"

text \<open>\<open>TrackPriority\<close> adds as a \<open>u32\<close>.\<close>

definition sum_priority :: "(track_id, 32 word) imap \<Rightarrow> 32 word" where
  "sum_priority tracks = foldl (\<lambda>s (t, p). s + p) 0 tracks"

definition share :: "64 word \<Rightarrow> 32 word \<Rightarrow> 32 word \<Rightarrow> 64 word" where
  "share bitrate prio_sum p = (bitrate * ucast p) div ucast prio_sum"

definition eg_process :: "egress_allocator \<Rightarrow> egress_allocator" where
  "eg_process a =
     (if \<not> eg_changed a then a
      else let use_bitrate = min (eg_egress_bitrate a) (eg_max_egress_bitrate a);
               prio_sum = sum_priority (eg_tracks a);
               shares = (if prio_sum \<noteq> 0
                 then map (\<lambda>(t, p). EgTrack t (SetBitrate (share use_bitrate prio_sum p))) (eg_tracks a)
                 else []);
               bwe = (if eg_tracks a \<noteq> []
                 then EgBweConfig use_bitrate (min (use_bitrate * 6 div 5) (eg_max_egress_bitrate a))
                 else EgBweConfig NO_TRACK_BWE_CURRENT NO_TRACK_BWE_DESIRED)
           in a\<lparr>eg_changed := False, eg_queue := eg_queue a @ shares @ [bwe]\<rparr>)"

definition eg_on_tick :: "egress_allocator \<Rightarrow> egress_allocator" where
  "eg_on_tick a = eg_process a"

section \<open>Ingress\<close>

record ingress_allocator =
  in_changed :: bool
  in_ingress_bitrate :: "64 word"
  in_tracks :: "(track_id, 32 word) imap"
  in_queue :: "(track_id \<times> alloc_action) list"

definition in_new :: "64 word \<Rightarrow> ingress_allocator" where
  "in_new ingress_bitrate =
     \<lparr>in_changed = False, in_ingress_bitrate = ingress_bitrate, in_tracks = [], in_queue = []\<rparr>"

definition in_set_video_track :: "ingress_allocator \<Rightarrow> track_id \<Rightarrow> 32 word \<Rightarrow> ingress_allocator" where
  "in_set_video_track a track priority =
     a\<lparr>in_tracks := im_insert (in_tracks a) track priority, in_changed := True\<rparr>"

definition in_del_video_track :: "ingress_allocator \<Rightarrow> track_id \<Rightarrow> ingress_allocator" where
  "in_del_video_track a track =
     a\<lparr>in_tracks := im_swap_remove (in_tracks a) track, in_changed := True\<rparr>"

definition in_pop_output :: "ingress_allocator \<Rightarrow> ingress_allocator \<times> (track_id \<times> alloc_action) option" where
  "in_pop_output a =
     (case in_queue a of [] \<Rightarrow> (a, None) | out # q \<Rightarrow> (a\<lparr>in_queue := q\<rparr>, Some out))"

definition in_process :: "ingress_allocator \<Rightarrow> ingress_allocator" where
  "in_process a =
     (if \<not> in_changed a then a
      else let prio_sum = sum_priority (in_tracks a);
               shares = (if prio_sum \<noteq> 0
                 then map (\<lambda>(t, p). (t, SetBitrate (share (in_ingress_bitrate a) prio_sum p))) (in_tracks a)
                 else [])
           in a\<lparr>in_changed := False, in_queue := in_queue a @ shares\<rparr>)"

definition in_on_tick :: "ingress_allocator \<Rightarrow> ingress_allocator" where
  "in_on_tick a = in_process a"

section \<open>The allocator of a session\<close>

datatype alloc_output = RemoteTrackOut track_id alloc_action | LocalTrackOut track_id alloc_action
  | BweConfigOut "64 word" "64 word"

record bitrate_allocator =
  ba_egress :: egress_allocator
  ba_ingress :: ingress_allocator

definition ba_new :: "64 word \<Rightarrow> 64 word \<Rightarrow> bitrate_allocator" where
  "ba_new max_ingress max_egress = \<lparr>ba_egress = eg_new max_egress, ba_ingress = in_new max_ingress\<rparr>"

definition ba_on_tick :: "bitrate_allocator \<Rightarrow> bitrate_allocator" where
  "ba_on_tick b = b\<lparr>ba_egress := eg_on_tick (ba_egress b), ba_ingress := in_on_tick (ba_ingress b)\<rparr>"

definition ba_set_egress_estimate :: "bitrate_allocator \<Rightarrow> 64 word \<Rightarrow> bitrate_allocator" where
  "ba_set_egress_estimate b bitrate = b\<lparr>ba_egress := eg_set_egress_estimate (ba_egress b) bitrate\<rparr>"

definition ba_set_egress_video_track :: "bitrate_allocator \<Rightarrow> track_id \<Rightarrow> 32 word \<Rightarrow> bitrate_allocator" where
  "ba_set_egress_video_track b t p = b\<lparr>ba_egress := eg_set_video_track (ba_egress b) t p\<rparr>"

definition ba_del_egress_video_track :: "bitrate_allocator \<Rightarrow> track_id \<Rightarrow> bitrate_allocator" where
  "ba_del_egress_video_track b t = b\<lparr>ba_egress := eg_del_video_track (ba_egress b) t\<rparr>"

definition ba_set_ingress_video_track :: "bitrate_allocator \<Rightarrow> track_id \<Rightarrow> 32 word \<Rightarrow> bitrate_allocator" where
  "ba_set_ingress_video_track b t p = b\<lparr>ba_ingress := in_set_video_track (ba_ingress b) t p\<rparr>"

definition ba_del_ingress_video_track :: "bitrate_allocator \<Rightarrow> track_id \<Rightarrow> bitrate_allocator" where
  "ba_del_ingress_video_track b t = b\<lparr>ba_ingress := in_del_video_track (ba_ingress b) t\<rparr>"

definition ba_pop_output :: "bitrate_allocator \<Rightarrow> bitrate_allocator \<times> alloc_output option" where
  "ba_pop_output b =
     (case eg_pop_output (ba_egress b) of
        (e, Some (EgTrack t a)) \<Rightarrow> (b\<lparr>ba_egress := e\<rparr>, Some (LocalTrackOut t a))
      | (e, Some (EgBweConfig c d)) \<Rightarrow> (b\<lparr>ba_egress := e\<rparr>, Some (BweConfigOut c d))
      | (e, None) \<Rightarrow>
          (case in_pop_output (ba_ingress b) of
             (i, Some (t, a)) \<Rightarrow> (b\<lparr>ba_egress := e, ba_ingress := i\<rparr>, Some (RemoteTrackOut t a))
           | (i, None) \<Rightarrow> (b\<lparr>ba_egress := e, ba_ingress := i\<rparr>, None)))"

section \<open>Shares without overflow\<close>

text \<open>The priorities as natural numbers.\<close>

definition prios :: "(track_id, 32 word) imap \<Rightarrow> nat list" where
  "prios tracks = map (\<lambda>(t, p). unat p) tracks"

lemma foldl_prio_nat:
  "unat s + sum_list (prios tracks) < 2 ^ 32 \<Longrightarrow>
   unat (foldl (\<lambda>s (t, p). s + p) s tracks) = unat s + sum_list (prios tracks)"
proof (induction tracks arbitrary: s)
  case (Cons a tracks)
  obtain t p where a: "a = (t, p)" by (cases a)
  have "unat (s + p) = unat s + unat p"
    using Cons.prems a by (simp add: prios_def unat_word_ariths(1))
  then show ?case using Cons a by (simp add: prios_def)
qed (simp add: prios_def)

lemma sum_priority_nat:
  "sum_list (prios tracks) < 2 ^ 32 \<Longrightarrow> unat (sum_priority tracks) = sum_list (prios tracks)"
  using foldl_prio_nat[of 0 tracks] by (simp add: sum_priority_def)

lemma unat_ucast_64: "unat (ucast (p :: 32 word) :: 64 word) = unat p"
proof -
  have "unat p < 2 ^ 32" using unsigned_less[of p, where 'a = nat] by simp
  then have "unat p < 2 ^ 64" by simp
  then show ?thesis by (simp add: unsigned_ucast_eq take_bit_nat_eq_self)
qed

lemma share_nat:
  assumes "unat bitrate < 2 ^ 32"
  shows "unat (share bitrate prio_sum p) = unat bitrate * unat p div unat prio_sum"
proof -
  have "unat p < 2 ^ 32" using unsigned_less[of p, where 'a = nat] by simp
  then have "unat bitrate * unat p < 2 ^ 32 * 2 ^ 32"
    using assms by (intro mult_strict_mono') auto
  then have "unat (bitrate * ucast p) = unat bitrate * unat p"
    by (simp add: unat_word_ariths(2) unat_ucast_64)
  then show ?thesis
    by (simp add: share_def unat_div unat_ucast_64)
qed

lemma sum_div_le: "0 < s \<Longrightarrow> sum_list (map (\<lambda>p. u * p div s) ps) * s \<le> u * sum_list (ps :: nat list)"
proof (induction ps)
  case (Cons p ps)
  then show ?case
    using div_times_less_eq_dividend[of "u * p" s] by (simp add: distrib_left distrib_right add_mono)
qed simp

lemma sum_div_ge:
  "0 < s \<Longrightarrow> u * sum_list (ps :: nat list) + length ps \<le> sum_list (map (\<lambda>p. u * p div s) ps) * s + length ps * s"
proof (induction ps)
  case (Cons p ps)
  have "u * p + 1 \<le> (u * p div s) * s + s" using dividend_less_div_times[OF Cons.prems, of "u * p"] by simp
  then show ?case using Cons by (simp add: distrib_left distrib_right)
qed simp

text \<open>Proportional shares never exceed the whole, and lose less than one unit per recipient.\<close>

lemma shares_bounds:
  fixes ps :: "nat list" and u :: nat
  assumes "sum_list ps \<noteq> 0"
  defines "tot \<equiv> sum_list (map (\<lambda>p. u * p div sum_list ps) ps)"
  shows "tot \<le> u" "u < tot + length ps"
proof -
  let ?s = "sum_list ps"
  have s: "0 < ?s" using assms(1) by (rule neq0_conv[THEN iffD1])
  have "tot * ?s \<le> u * ?s" unfolding tot_def by (rule sum_div_le[OF s])
  then show "tot \<le> u" using s by simp
  have ne: "0 < length ps" using assms(1) by (cases ps) auto
  have "u * ?s + length ps \<le> tot * ?s + length ps * ?s" unfolding tot_def by (rule sum_div_ge[OF s])
  then have "u * ?s < (tot + length ps) * ?s" using ne unfolding distrib_right by linarith
  then show "u < tot + length ps" by simp
qed

section \<open>The contract of both allocators\<close>

text \<open>Both allocators keep a map of priorities and, when something changed, a tick appends one share per
  track. \<open>budget\<close> is the bitrate to split, \<open>shares\<close> the shares waiting in the output queue.\<close>

definition proportional :: "nat \<Rightarrow> (track_id, 32 word) imap \<Rightarrow> (track_id \<times> nat) list" where
  "proportional u tracks = map (\<lambda>(t, p). (t, u * unat p div sum_list (prios tracks))) tracks"

datatype track_op = SetTrack track_id "32 word" | DelTrack track_id

fun spec_track :: "(track_id \<rightharpoonup> 32 word) \<Rightarrow> track_op \<Rightarrow> (track_id \<rightharpoonup> 32 word)" where
  "spec_track m (SetTrack t p) = m(t \<mapsto> p)"
| "spec_track m (DelTrack t) = m(t := None)"

locale allocator =
  fixes tracks :: "'a \<Rightarrow> (track_id, 32 word) imap"
    and set_track :: "'a \<Rightarrow> track_id \<Rightarrow> 32 word \<Rightarrow> 'a"
    and del_track :: "'a \<Rightarrow> track_id \<Rightarrow> 'a"
    and tick :: "'a \<Rightarrow> 'a"
    and changed :: "'a \<Rightarrow> bool"
    and budget :: "'a \<Rightarrow> nat"
    and shares :: "'a \<Rightarrow> (track_id \<times> nat) list"
  assumes tracks_set: "tracks (set_track a t p) = im_insert (tracks a) t p"
    and tracks_del: "tracks (del_track a t) = im_swap_remove (tracks a) t"
    and tracks_tick: "tracks (tick a) = tracks a"
    and changed_set: "changed (set_track a t p)"
    and changed_del: "changed (del_track a t)"
    and changed_tick: "\<not> changed (tick a)"
    and tick_shares: "changed a \<Longrightarrow> budget a < 2 ^ 32 \<Longrightarrow> sum_list (prios (tracks a)) < 2 ^ 32 \<Longrightarrow>
      sum_list (prios (tracks a)) \<noteq> 0 \<Longrightarrow> shares (tick a) = shares a @ proportional (budget a) (tracks a)"
    and tick_idle: "\<not> changed a \<Longrightarrow> tick a = a"
begin

lemma tick_tick: "tick (tick a) = tick a"
  by (simp add: tick_idle changed_tick)

fun apply_op :: "'a \<Rightarrow> track_op \<Rightarrow> 'a" where
  "apply_op a (SetTrack t p) = set_track a t p"
| "apply_op a (DelTrack t) = del_track a t"

lemma apply_ops_wf: "im_wf (tracks a) \<Longrightarrow> im_wf (tracks (foldl apply_op a ops))"
proof (induction ops arbitrary: a)
  case (Cons op1 ops)
  then show ?case
    by (cases op1) (simp_all add: tracks_set tracks_del im.wf_insert im.wf_remove)
qed simp

lemma apply_ops_get:
  "im_wf (tracks a) \<Longrightarrow>
   im_get (tracks (foldl apply_op a ops)) = foldl spec_track (im_get (tracks a)) ops"
proof (induction ops arbitrary: a)
  case (Cons op1 ops)
  then show ?case
    by (cases op1) (simp_all add: tracks_set tracks_del im.wf_insert im.wf_remove im.get_insert im.get_remove fun_upd_def)
qed simp

lemma tick_bounds:
  assumes "changed a" "budget a < 2 ^ 32" "sum_list (prios (tracks a)) < 2 ^ 32" "sum_list (prios (tracks a)) \<noteq> 0"
  shows "\<exists>new. shares (tick a) = shares a @ new \<and> map fst new = im_keys (tracks a) \<and>
    sum_list (map snd new) \<le> budget a \<and> budget a < sum_list (map snd new) + length (tracks a)"
proof -
  let ?ps = "prios (tracks a)"
  have "map snd (proportional (budget a) (tracks a)) = map (\<lambda>p. budget a * p div sum_list ?ps) ?ps"
    by (simp add: proportional_def prios_def case_prod_unfold comp_def)
  then show ?thesis
    using tick_shares[OF assms] shares_bounds[of ?ps "budget a", OF assms(4)]
    by (intro exI[of _ "proportional (budget a) (tracks a)"])
       (simp add: proportional_def case_prod_unfold comp_def, simp add: prios_def)
qed

end

lemma proportional_set:
  assumes "im_wf m"
  shows "set (proportional u m) = {(t, u * unat p div sum_list (prios m)) |t p. im_get m t = Some p}"
proof -
  have "im_get m t = Some p \<longleftrightarrow> (t, p) \<in> set m" for t p
    using assms by (simp add: im_wf_def)
  then show ?thesis by (auto simp: proportional_def image_iff)
qed

lemma proportional_keys [simp]: "map fst (proportional u m) = im_keys m"
  by (simp add: proportional_def case_prod_unfold comp_def)

section \<open>Both allocators meet it\<close>

fun eg_share_of :: "egress_output \<Rightarrow> (track_id \<times> nat) list" where
  "eg_share_of (EgTrack t (SetBitrate b)) = [(t, unat b)]"
| "eg_share_of (EgBweConfig c d) = []"

fun in_share_of :: "track_id \<times> alloc_action \<Rightarrow> track_id \<times> nat" where
  "in_share_of (t, SetBitrate b) = (t, unat b)"

definition eg_budget :: "egress_allocator \<Rightarrow> nat" where
  "eg_budget a = min (unat (eg_egress_bitrate a)) (unat (eg_max_egress_bitrate a))"

definition eg_shares :: "egress_allocator \<Rightarrow> (track_id \<times> nat) list" where
  "eg_shares a = concat (map eg_share_of (eg_queue a))"

definition in_budget :: "ingress_allocator \<Rightarrow> nat" where
  "in_budget a = unat (in_ingress_bitrate a)"

definition in_shares :: "ingress_allocator \<Rightarrow> (track_id \<times> nat) list" where
  "in_shares a = map in_share_of (in_queue a)"

lemma unat_min: "unat (min a b) = min (unat a) (unat (b :: 'a :: len word))"
  by (simp add: min_def word_le_nat_alt)

lemma shares_proportional:
  assumes "unat u < 2 ^ 32" "sum_list (prios tracks) < 2 ^ 32"
  shows "map (\<lambda>(t, p). (t, unat (share u (sum_priority tracks) p))) tracks = proportional (unat u) tracks"
  using assms by (simp add: proportional_def share_nat sum_priority_nat)

lemma sum_priority_0: "sum_list (prios tracks) < 2 ^ 32 \<Longrightarrow> sum_list (prios tracks) \<noteq> 0 \<Longrightarrow> sum_priority tracks \<noteq> 0"
  using sum_priority_nat[of tracks] by auto

interpretation eg: allocator eg_tracks eg_set_video_track eg_del_video_track eg_on_tick eg_changed eg_budget eg_shares
proof unfold_locales
  fix a :: egress_allocator
  let ?u = "min (eg_egress_bitrate a) (eg_max_egress_bitrate a)"
  assume a: "eg_changed a" "eg_budget a < 2 ^ 32" "sum_list (prios (eg_tracks a)) < 2 ^ 32"
    "sum_list (prios (eg_tracks a)) \<noteq> 0"
  have u: "unat ?u = eg_budget a" by (simp add: eg_budget_def unat_min)
  have "concat (map eg_share_of (map (\<lambda>(t, p). EgTrack t (SetBitrate (share u s p))) ts)) =
      map (\<lambda>(t, p). (t, unat (share u s p))) ts" for u s ts
    by (induction ts) auto
  then show "eg_shares (eg_on_tick a) = eg_shares a @ proportional (eg_budget a) (eg_tracks a)"
    using a u sum_priority_0[OF a(3,4)] shares_proportional[of ?u "eg_tracks a"]
    by (simp add: eg_shares_def eg_on_tick_def eg_process_def Let_def)
qed (simp_all add: eg_set_video_track_def eg_del_video_track_def eg_on_tick_def eg_process_def Let_def)

interpretation ing: allocator in_tracks in_set_video_track in_del_video_track in_on_tick in_changed in_budget in_shares
proof unfold_locales
  fix a :: ingress_allocator
  assume a: "in_changed a" "in_budget a < 2 ^ 32" "sum_list (prios (in_tracks a)) < 2 ^ 32"
    "sum_list (prios (in_tracks a)) \<noteq> 0"
  have "map in_share_of (map (\<lambda>(t, p). (t, SetBitrate (share u s p))) ts) =
      map (\<lambda>(t, p). (t, unat (share u s p))) ts" for u s ts
    by (induction ts) auto
  note m = this[unfolded map_map]
  show "in_shares (in_on_tick a) = in_shares a @ proportional (in_budget a) (in_tracks a)"
    using a sum_priority_0[OF a(3,4)] shares_proportional[of "in_ingress_bitrate a" "in_tracks a"] m
    by (simp del: map_eq_conv add: in_shares_def in_budget_def in_on_tick_def in_process_def Let_def)
qed (simp_all add: in_set_video_track_def in_del_video_track_def in_on_tick_def in_process_def Let_def)

section \<open>Properties\<close>



text \<open>The ingress allocator splits the configured bitrate in the same way over the tracks a client
  sends: one share per track, together at most the bitrate, less than one unit per track lost.\<close>

theorem ingress_split:
  assumes "in_changed a" "in_budget a < 2 ^ 32" "sum_list (prios (in_tracks a)) < 2 ^ 32"
    "sum_list (prios (in_tracks a)) \<noteq> 0"
  shows "\<exists>new. in_shares (in_on_tick a) = in_shares a @ new \<and> map fst new = im_keys (in_tracks a) \<and>
    sum_list (map snd new) \<le> in_budget a \<and> in_budget a < sum_list (map snd new) + length (in_tracks a)"
  using assms by (rule ing.tick_bounds)

theorem ingress_split_witness:
  "\<exists>new. in_shares (in_on_tick (in_set_video_track (in_new 500000) 1 7)) =
      in_shares (in_set_video_track (in_new 500000) 1 7) @ new \<and>
    map fst new = im_keys (in_tracks (in_set_video_track (in_new 500000) 1 7)) \<and>
    sum_list (map snd new) \<le> in_budget (in_set_video_track (in_new 500000) 1 7) \<and>
    in_budget (in_set_video_track (in_new 500000) 1 7) <
      sum_list (map snd new) + length (in_tracks (in_set_video_track (in_new 500000) 1 7))"
  by (rule ingress_split) (simp_all add: in_new_def in_set_video_track_def in_budget_def prios_def)

text \<open>Every allocation round ends with a configuration of the bandwidth estimator: the fixed idle
  values without tracks, otherwise the bitrate in use and a target of 120 percent of it, never below the
  bitrate in use and never above the configured maximum.\<close>

theorem egress_bwe_config:
  assumes "eg_changed a" "eg_budget a < 2 ^ 32"
  shows "\<exists>outs c d. eg_queue (eg_on_tick a) = eg_queue a @ outs @ [EgBweConfig c d] \<and>
    (if eg_tracks a = [] then c = 100000 \<and> d = 300000
     else unat c = eg_budget a \<and> unat d = min (eg_budget a * 6 div 5) (unat (eg_max_egress_bitrate a)) \<and>
       c \<le> d \<and> d \<le> eg_max_egress_bitrate a)"
proof -
  let ?u = "min (eg_egress_bitrate a) (eg_max_egress_bitrate a)"
  let ?d = "min (?u * 6 div 5) (eg_max_egress_bitrate a)"
  have u: "unat ?u = eg_budget a" by (simp add: eg_budget_def unat_min)
  then have "unat (?u * 6) = eg_budget a * 6" using assms(2) by (simp add: unat_word_ariths(2))
  then have d: "unat ?d = min (eg_budget a * 6 div 5) (unat (eg_max_egress_bitrate a))"
    by (simp add: unat_min unat_div)
  have "eg_budget a \<le> unat (eg_max_egress_bitrate a)" by (simp add: eg_budget_def)
  then have "?u \<le> ?d" unfolding word_le_nat_alt u d by simp
  then show ?thesis
    using assms(1) u d
    by (simp add: eg_on_tick_def eg_process_def Let_def NO_TRACK_BWE_CURRENT_def NO_TRACK_BWE_DESIRED_def)
qed

theorem egress_bwe_config_witness:
  "\<exists>outs c d. eg_queue (eg_on_tick (eg_set_video_track (eg_new 900000) 4 2)) =
      eg_queue (eg_set_video_track (eg_new 900000) 4 2) @ outs @ [EgBweConfig c d] \<and>
    unat c = 800000 \<and> unat d = 900000"
  using egress_bwe_config[of "eg_set_video_track (eg_new 900000) 4 2"]
  by (simp add: eg_new_def eg_set_video_track_def eg_budget_def DEFAULT_BITRATE_BPS_def) blast

text \<open>The priorities come from the client and are added as 32-bit values: two tracks with priorities
  \<open>2 ^ 32 - 1\<close> and \<open>2\<close> wrap the sum to 1, and with a maximum of 1 Mbps the first track is told to use
  over 3 Pbps.\<close>

theorem egress_priority_overflow:
  "eg_shares (eg_on_tick (eg_set_video_track (eg_set_video_track (eg_new 1000000) 1 (2 ^ 32 - 1)) 2 2)) =
     [(1, 800000 * (2 ^ 32 - 1)), (2, 1600000)]"
  by (simp add: eg_new_def eg_set_video_track_def eg_on_tick_def eg_process_def eg_shares_def Let_def
      sum_priority_def share_def DEFAULT_BITRATE_BPS_def)

end
