(* ===== verification/Audio_Mixer.thy ===== *)
theory Audio_Mixer
  imports Media_Prelude
begin

text \<open>
  The lightweight audio mixer of \<open>packages/audio_mixer/src/lib.rs\<close>: a fixed number of output slots is
  given to the loudest audio sources. Time is in milliseconds, audio levels (\<open>i8\<close>) are integers. The
  interface \<open>slot_mixer\<close> states what the publisher, the subscriber and the manual mixer of a room rely
  on; the model of the mixer is shown to provide it.
\<close>

section \<open>State and operations\<close>

definition SILENT_LEVEL :: int where "SILENT_LEVEL = -127"
definition SWITCH_AUDIO_THRESHOLD :: int where "SWITCH_AUDIO_THRESHOLD = 30"
definition AUDIO_SLOT_TIMEOUT :: nat where "AUDIO_SLOT_TIMEOUT = 1000"

record source_state =
  ss_last_changed_at :: nat
  ss_slot :: "nat option"

record 's output_slot =
  os_audio_level :: int
  os_source :: 's

record 's audio_mixer =
  am_len :: nat
  am_sources :: "('s, source_state) imap"
  am_outputs :: "'s output_slot option list"

definition am_new :: "nat \<Rightarrow> 's audio_mixer" where
  "am_new output = \<lparr>am_len = 0, am_sources = [], am_outputs = replicate output None\<rparr>"

text \<open>The closure given to \<open>retain\<close>, applied to the sources in order: \<open>outs\<close>, \<open>len\<close> and \<open>clear\<close> are the
  variables it captures.\<close>

fun retain_sources ::
  "nat \<Rightarrow> ('s, source_state) imap \<Rightarrow> nat \<Rightarrow> 's output_slot option list \<Rightarrow> nat list \<Rightarrow>
   (('s, source_state) imap \<times> nat \<times> 's output_slot option list \<times> nat list) res" where
  "retain_sources now [] len outs clear = Inr ([], len, outs, clear)"
| "retain_sources now ((k, v) # rest) len outs clear =
     (if ss_last_changed_at v + AUDIO_SLOT_TIMEOUT \<le> now
      then (case ss_slot v of
              Some slot \<Rightarrow>
                if \<not> slot < length outs then Inl OutOfRange
                else if len = 0 then Inl Overflow
                else retain_sources now rest (len - 1) (outs[slot := None]) (clear @ [slot])
            | None \<Rightarrow> retain_sources now rest len outs clear)
      else res_bind (retain_sources now rest len outs clear) (\<lambda>(kept, r). Inr ((k, v) # kept, r)))"

definition am_on_tick :: "'s audio_mixer \<Rightarrow> nat \<Rightarrow> ('s audio_mixer \<times> nat list option) res" where
  "am_on_tick m now =
     res_bind (retain_sources now (am_sources m) (am_len m) (am_outputs m) []) (\<lambda>(srcs, len, outs, clear).
     Inr (m\<lparr>am_sources := srcs, am_len := len, am_outputs := outs\<rparr>, if clear = [] then None else Some clear))"

definition find_empty_slot :: "'s audio_mixer \<Rightarrow> nat option" where
  "find_empty_slot m = index_of (\<lambda>slot. slot = None) (am_outputs m)"

definition has_empty_slot :: "'s audio_mixer \<Rightarrow> bool" where
  "has_empty_slot m \<longleftrightarrow> am_len m < length (am_outputs m)"

fun lowest_from :: "nat \<Rightarrow> 's output_slot option list \<Rightarrow> (nat \<times> 's \<times> int) option \<Rightarrow> (nat \<times> 's \<times> int) option" where
  "lowest_from i [] lowest = lowest"
| "lowest_from i (None # outs) lowest = lowest_from (i + 1) outs lowest"
| "lowest_from i (Some slot # outs) lowest =
     lowest_from (i + 1) outs
       (case lowest of
          Some (_, _, level) \<Rightarrow>
            if os_audio_level slot \<le> level then Some (i, os_source slot, os_audio_level slot) else lowest
        | None \<Rightarrow> Some (i, os_source slot, os_audio_level slot))"

definition lowest_slot :: "'s audio_mixer \<Rightarrow> (nat \<times> 's \<times> int) option" where
  "lowest_slot m = lowest_from 0 (am_outputs m) None"

text \<open>\<open>get_mut(source).slot = v\<close> on a source that must exist.\<close>

definition set_source_slot :: "('s, source_state) imap \<Rightarrow> 's \<Rightarrow> nat option \<Rightarrow> ('s, source_state) imap res" where
  "set_source_slot srcs source v =
     res_bind (rexpect (im_get srcs source)) (\<lambda>s. Inr (im_insert srcs source (s\<lparr>ss_slot := v\<rparr>)))"

definition am_on_pkt ::
  "'s audio_mixer \<Rightarrow> nat \<Rightarrow> 's \<Rightarrow> int option \<Rightarrow> ('s audio_mixer \<times> (nat \<times> bool) option) res" where
  "am_on_pkt m now source level =
     (let audio_level = (case level of None \<Rightarrow> SILENT_LEVEL | Some l \<Rightarrow> l) in
      case im_get (am_sources m) source of
        Some s \<Rightarrow>
          (let m1 = m\<lparr>am_sources := im_insert (am_sources m) source (s\<lparr>ss_last_changed_at := now\<rparr>)\<rparr> in
           case ss_slot s of
             Some slot \<Rightarrow> Inr (m1, Some (slot, False))
           | None \<Rightarrow>
               if has_empty_slot m1
               then res_bind (rexpect (find_empty_slot m1)) (\<lambda>slot.
                    res_bind (set_source_slot (am_sources m1) source (Some slot)) (\<lambda>srcs.
                    Inr (m1\<lparr>am_sources := srcs,
                            am_outputs := (am_outputs m1)[slot := Some \<lparr>os_audio_level = audio_level, os_source = source\<rparr>],
                            am_len := am_len m1 + 1\<rparr>, Some (slot, True))))
               else res_bind (rexpect (lowest_slot m1)) (\<lambda>(lowest_index, lowest_source, lowest_audio_level).
                    if lowest_source \<noteq> source \<and> audio_level \<ge> lowest_audio_level + SWITCH_AUDIO_THRESHOLD
                    then res_bind (set_source_slot (am_sources m1) source (Some lowest_index)) (\<lambda>srcs1.
                         res_bind (set_source_slot srcs1 lowest_source None) (\<lambda>srcs2.
                         Inr (m1\<lparr>am_sources := srcs2,
                                 am_outputs := (am_outputs m1)
                                   [lowest_index := Some \<lparr>os_audio_level = audio_level, os_source = source\<rparr>]\<rparr>,
                              Some (lowest_index, True))))
                    else Inr (m1, None)))
      | None \<Rightarrow>
          (case find_empty_slot m of
             Some slot \<Rightarrow>
               Inr (m\<lparr>am_sources := im_insert (am_sources m) source \<lparr>ss_last_changed_at = now, ss_slot = Some slot\<rparr>,
                      am_outputs := (am_outputs m)[slot := Some \<lparr>os_audio_level = audio_level, os_source = source\<rparr>],
                      am_len := am_len m + 1\<rparr>, Some (slot, True))
           | None \<Rightarrow>
               Inr (m\<lparr>am_sources := im_insert (am_sources m) source \<lparr>ss_last_changed_at = now, ss_slot = None\<rparr>\<rparr>, None)))"

section \<open>Invariant\<close>

text \<open>The slot a source believes it has, and the source a slot belongs to.\<close>

definition slot_of :: "('s, source_state) imap \<Rightarrow> 's \<Rightarrow> nat option" where
  "slot_of srcs k = (case im_get srcs k of None \<Rightarrow> None | Some s \<Rightarrow> ss_slot s)"

definition holder_of :: "'s output_slot option list \<Rightarrow> nat \<Rightarrow> 's option" where
  "holder_of outs i = (if i < length outs then map_option os_source (outs ! i) else None)"

definition occupied :: "'s output_slot option list \<Rightarrow> nat" where
  "occupied outs = length (filter (\<lambda>slot. slot \<noteq> None) outs)"

text \<open>The two are partial inverses of each other.\<close>

definition linked :: "('s \<Rightarrow> nat option) \<Rightarrow> (nat \<Rightarrow> 's option) \<Rightarrow> bool" where
  "linked s h \<longleftrightarrow> (\<forall>k i. s k = Some i \<longleftrightarrow> h i = Some k)"

definition slots_inv :: "('s, source_state) imap \<Rightarrow> nat \<Rightarrow> 's output_slot option list \<Rightarrow> bool" where
  "slots_inv srcs len outs \<longleftrightarrow> im_wf srcs \<and> len = occupied outs \<and>
     linked (slot_of srcs) (holder_of outs)"

definition am_inv :: "'s audio_mixer \<Rightarrow> bool" where
  "am_inv m \<longleftrightarrow> slots_inv (am_sources m) (am_len m) (am_outputs m)"

abbreviation am_holder :: "'s audio_mixer \<Rightarrow> nat \<Rightarrow> 's option" where
  "am_holder m \<equiv> holder_of (am_outputs m)"

lemma linkedD: "linked s h \<Longrightarrow> s k = Some i \<longleftrightarrow> h i = Some k"
  by (simp add: linked_def)

lemma linked_take:
  assumes "linked s h" "s k = None" "h i = None"
  shows "linked (s(k \<mapsto> i)) (h(i \<mapsto> k))"
proof -
  have "h j \<noteq> Some k" "s j' \<noteq> Some i" for j j' using assms by (metis linkedD option.distinct(1))+
  then show ?thesis using linkedD[OF assms(1)] by (auto simp: linked_def)
qed

lemma linked_drop:
  assumes "linked s h" "s k = Some i"
  shows "linked (s(k := None)) (h(i := None))"
proof -
  have "h j = Some k \<longleftrightarrow> j = i" "s j' = Some i \<longleftrightarrow> j' = k" for j j'
    using assms by (metis linkedD option.inject)+
  then show ?thesis using linkedD[OF assms(1)] by (auto simp: linked_def)
qed

lemma occupied_simps [simp]:
  "occupied [] = 0" "occupied (slot # outs) = (if slot = None then 0 else 1) + occupied outs"
  by (simp_all add: occupied_def)

lemma occupied_update:
  "i < length outs \<Longrightarrow> occupied (outs[i := x]) + (if outs ! i = None then 0 else 1) =
     occupied outs + (if x = None then 0 else 1)"
proof (induction outs arbitrary: i)
  case (Cons slot outs)
  show ?case
  proof (cases i)
    case (Suc n)
    then show ?thesis using Cons.IH[of n] Cons.prems by simp
  qed simp
qed simp

lemma occupied_pos: "i < length outs \<Longrightarrow> outs ! i \<noteq> None \<Longrightarrow> 0 < occupied outs"
proof -
  assume "i < length outs" "outs ! i \<noteq> None"
  then have "occupied (outs[i := None]) + 1 = occupied outs" using occupied_update[of i outs None] by auto
  then show ?thesis by simp
qed

lemma occupied_le: "occupied outs \<le> length outs"
  by (simp add: occupied_def)

lemma occupied_full: "occupied outs < length outs \<longleftrightarrow> (\<exists>slot\<in>set outs. slot = None)"
proof (induction outs)
  case (Cons slot outs)
  then show ?case using occupied_le[of outs] by auto
qed simp

lemma holder_update: "i < length outs \<Longrightarrow> holder_of (outs[i := x]) = (holder_of outs)(i := map_option os_source x)"
  by (auto simp: holder_of_def fun_eq_iff nth_list_update)

lemma holder_range: "holder_of outs i = Some k \<Longrightarrow> i < length outs \<and> outs ! i \<noteq> None"
  by (auto simp: holder_of_def split: if_splits)

lemma slot_of_insert: "slot_of (im_insert srcs k s) = (slot_of srcs)(k := ss_slot s)"
  by (auto simp: slot_of_def fun_eq_iff)

lemma am_inv_new: "am_inv (am_new n)"
  by (auto simp: am_inv_def am_new_def slots_inv_def linked_def slot_of_def holder_of_def occupied_def)

lemma find_empty_slot_Some:
  assumes "find_empty_slot m = Some i"
  shows "i < length (am_outputs m)" "am_outputs m ! i = None"
  using index_of_Some assms by (fastforce simp: find_empty_slot_def)+

lemma find_empty_slot_None: "find_empty_slot m = None \<longleftrightarrow> (\<forall>slot\<in>set (am_outputs m). slot \<noteq> None)"
  by (simp add: find_empty_slot_def index_of_None)

lemma has_empty_slot_iff: "am_inv m \<Longrightarrow> has_empty_slot m \<longleftrightarrow> find_empty_slot m \<noteq> None"
  using occupied_full[of "am_outputs m"]
  by (auto simp: has_empty_slot_def am_inv_def slots_inv_def find_empty_slot_None)

section \<open>The slot with the lowest level\<close>

lemma lowest_from_lower:
  assumes "lowest_from i outs low = Some (j, s, l)"
  shows "(\<forall>x. Some x \<in> set outs \<longrightarrow> l \<le> os_audio_level x) \<and>
    (\<forall>j' s' l'. low = Some (j', s', l') \<longrightarrow> l \<le> l')"
  using assms
proof (induction i outs low rule: lowest_from.induct)
  case (3 i slot outs lowest)
  show ?case using 3(1) 3(2) by (cases lowest) (fastforce split: if_splits)+
qed auto

lemma lowest_from_is:
  assumes "lowest_from i outs low = Some (j, s, l)"
  shows "low = Some (j, s, l) \<or>
    (\<exists>n < length outs. j = i + n \<and> outs ! n = Some \<lparr>os_audio_level = l, os_source = s\<rparr>)"
  using assms
proof (induction i outs low rule: lowest_from.induct)
  case (2 i outs lowest)
  then have "lowest = Some (j, s, l) \<or>
      (\<exists>n < length outs. j = i + 1 + n \<and> outs ! n = Some \<lparr>os_audio_level = l, os_source = s\<rparr>)" by simp
  then show ?case by (elim disjE exE conjE; force)
next
  case (3 i slot outs lowest)
  let ?low = "case lowest of Some (_, _, level) \<Rightarrow>
      if os_audio_level slot \<le> level then Some (i, os_source slot, os_audio_level slot) else lowest
    | None \<Rightarrow> Some (i, os_source slot, os_audio_level slot)"
  have "?low = Some (j, s, l) \<or>
      (\<exists>n < length outs. j = i + 1 + n \<and> outs ! n = Some \<lparr>os_audio_level = l, os_source = s\<rparr>)"
    using 3 by simp
  then show ?case
  proof (elim disjE exE conjE)
    assume "?low = Some (j, s, l)"
    then show ?thesis by (auto split: option.splits if_splits intro!: exI[of _ 0])
  next
    fix n assume "n < length outs" "j = i + 1 + n" "outs ! n = Some \<lparr>os_audio_level = l, os_source = s\<rparr>"
    then show ?thesis by (intro disjI2 exI[of _ "Suc n"]) simp
  qed
qed simp

lemma lowest_from_exists: "low \<noteq> None \<or> (\<exists>x. Some x \<in> set outs) \<Longrightarrow> \<exists>r. lowest_from i outs low = Some r"
proof (induction i outs low rule: lowest_from.induct)
  case (3 i slot outs lowest)
  then show ?case by (auto split: option.splits)
qed auto

lemma lowest_slot_minimal:
  assumes "lowest_slot m = Some (j, s, l)"
  shows "j < length (am_outputs m)" "am_outputs m ! j = Some \<lparr>os_audio_level = l, os_source = s\<rparr>"
    "Some x \<in> set (am_outputs m) \<Longrightarrow> l \<le> os_audio_level x"
  using lowest_from_is[OF assms[unfolded lowest_slot_def]] lowest_from_lower[OF assms[unfolded lowest_slot_def]]
  by auto

section \<open>Ticks\<close>

definition expired :: "nat \<Rightarrow> source_state \<Rightarrow> bool" where
  "expired now s \<longleftrightarrow> ss_last_changed_at s + AUDIO_SLOT_TIMEOUT \<le> now"

lemma map_of_remove_mid:
  "distinct (im_keys (xs @ (k, v) # ys)) \<Longrightarrow> im_get (xs @ ys) = (im_get (xs @ (k, v) # ys))(k := None)"
proof -
  assume "distinct (im_keys (xs @ (k, v) # ys))"
  then have "im_get xs k = None" "im_get ys k = None" by (auto simp: map_of_eq_None_iff)
  then show ?thesis by (auto simp: fun_eq_iff map_add_def split: option.splits)
qed

lemma slots_inv_drop_source:
  assumes "slots_inv (xs @ (k, v) # ys) len outs" "ss_slot v = None"
  shows "slots_inv (xs @ ys) len outs"
proof -
  have d: "distinct (im_keys (xs @ (k, v) # ys))" using assms(1) by (simp add: slots_inv_def im_wf_def)
  then have "im_get (xs @ (k, v) # ys) k = Some v" by (rule map_of_is_SomeI) simp
  then have "slot_of (xs @ ys) = slot_of (xs @ (k, v) # ys)"
    using assms(2) map_of_remove_mid[OF d] by (auto simp: slot_of_def fun_eq_iff)
  then show ?thesis using assms(1) d by (simp add: slots_inv_def im_wf_def)
qed

lemma slots_inv_drop_holder:
  assumes "slots_inv (xs @ (k, v) # ys) len outs" "ss_slot v = Some i"
  shows "holder_of outs i = Some k" "0 < len" "slots_inv (xs @ ys) (len - 1) (outs[i := None])"
proof -
  have d: "distinct (im_keys (xs @ (k, v) # ys))" using assms(1) by (simp add: slots_inv_def im_wf_def)
  then have g: "im_get (xs @ (k, v) # ys) k = Some v" by (rule map_of_is_SomeI) simp
  then have sl: "slot_of (xs @ (k, v) # ys) k = Some i" using assms(2) by (simp add: slot_of_def)
  then show h: "holder_of outs i = Some k" using assms(1) by (simp add: slots_inv_def linked_def)
  note r = holder_range[OF h]
  then show "0 < len" using occupied_pos[of i outs] assms(1) by (simp add: slots_inv_def)
  have "slot_of (xs @ ys) = (slot_of (xs @ (k, v) # ys))(k := None)"
    using map_of_remove_mid[OF d] by (auto simp: slot_of_def fun_eq_iff)
  moreover have "holder_of (outs[i := None]) = (holder_of outs)(i := None)" using r by (simp add: holder_update)
  moreover have "occupied (outs[i := None]) = len - 1"
    using occupied_update[of i outs None] r assms(1) by (auto simp: slots_inv_def)
  ultimately show "slots_inv (xs @ ys) (len - 1) (outs[i := None])"
    using assms(1) d linked_drop[of "slot_of (xs @ (k, v) # ys)" "holder_of outs" k i] sl by (auto simp: slots_inv_def im_wf_def)
qed

lemma retain_sources_ok:
  assumes "slots_inv (kept @ srcs) len outs"
  shows "\<exists>len' outs' new. retain_sources now srcs len outs clear =
      Inr (filter (\<lambda>(k, v). \<not> expired now v) srcs, len', outs', clear @ new) \<and>
    slots_inv (kept @ filter (\<lambda>(k, v). \<not> expired now v) srcs) len' outs' \<and> length outs' = length outs \<and>
    holder_of outs' = (\<lambda>i. if i \<in> set new then None else holder_of outs i) \<and>
    (\<forall>i\<in>set new. holder_of outs i \<noteq> None)"
  using assms
proof (induction srcs arbitrary: kept len outs clear)
  case (Cons e srcs)
  obtain k v where e: "e = (k, v)" by (cases e)
  consider (keep) "\<not> expired now v" | (idle) "expired now v" "ss_slot v = None"
    | (slot) i where "expired now v" "ss_slot v = Some i" by (cases "ss_slot v") auto
  then show ?case
  proof cases
    case keep
    have "slots_inv ((kept @ [(k, v)]) @ srcs) len outs" using Cons.prems e by simp
    from Cons.IH[OF this, of clear] show ?thesis using keep e by (auto simp: expired_def)
  next
    case idle
    have "slots_inv (kept @ srcs) len outs" using Cons.prems e slots_inv_drop_source[of kept k v srcs, OF _ idle(2)] by simp
    from Cons.IH[OF this, of clear] show ?thesis using idle e by (auto simp: expired_def)
  next
    case slot
    have inv: "slots_inv (kept @ (k, v) # srcs) len outs" using Cons.prems e by simp
    note d = slots_inv_drop_holder[OF inv slot(2)]
    have i: "i < length outs" using holder_range[OF d(1)] by simp
    obtain len' outs' new where r:
      "retain_sources now srcs (len - 1) (outs[i := None]) (clear @ [i]) =
        Inr (filter (\<lambda>(k, v). \<not> expired now v) srcs, len', outs', (clear @ [i]) @ new)"
      "slots_inv (kept @ filter (\<lambda>(k, v). \<not> expired now v) srcs) len' outs'" "length outs' = length outs"
      "holder_of outs' = (\<lambda>j. if j \<in> set new then None else holder_of (outs[i := None]) j)"
      "\<forall>j\<in>set new. holder_of (outs[i := None]) j \<noteq> None"
      using Cons.IH[OF d(3), of "clear @ [i]"] by auto
    have "retain_sources now (e # srcs) len outs clear =
        Inr (filter (\<lambda>(k, v). \<not> expired now v) (e # srcs), len', outs', clear @ i # new)"
      using r(1) slot e d(2) i by (simp add: expired_def)
    moreover have "holder_of outs' = (\<lambda>j. if j \<in> set (i # new) then None else holder_of outs j)"
      using r(4) i by (auto simp: holder_update fun_eq_iff)
    moreover have "\<forall>j\<in>set (i # new). holder_of outs j \<noteq> None"
      using r(5) i d(1) by (auto simp: holder_update split: if_splits)
    ultimately show ?thesis using r(2,3) slot e by fastforce
  qed
qed auto

lemma am_on_tick_ok:
  assumes "am_inv m"
  shows "\<exists>m' out. am_on_tick m now = Inr (m', out) \<and> am_inv m' \<and> length (am_outputs m') = length (am_outputs m) \<and>
    am_sources m' = filter (\<lambda>(k, v). \<not> expired now v) (am_sources m) \<and>
    (let cleared = (case out of None \<Rightarrow> [] | Some l \<Rightarrow> l) in
     am_holder m' = (\<lambda>i. if i \<in> set cleared then None else am_holder m i) \<and>
     (\<forall>i\<in>set cleared. am_holder m i \<noteq> None))"
proof -
  have "slots_inv ([] @ am_sources m) (am_len m) (am_outputs m)" using assms by (simp add: am_inv_def)
  from retain_sources_ok[OF this, of now "[]"] show ?thesis
    by (auto simp: am_on_tick_def am_inv_def Let_def)
qed

section \<open>Packets\<close>

lemma slots_inv_touch:
  assumes "slots_inv srcs len outs" "im_get srcs k = Some s"
  shows "slots_inv (im_insert srcs k (s\<lparr>ss_last_changed_at := now\<rparr>)) len outs"
proof -
  have "slot_of srcs k = ss_slot s" using assms(2) by (simp add: slot_of_def)
  then have "slot_of (im_insert srcs k (s\<lparr>ss_last_changed_at := now\<rparr>)) = slot_of srcs"
    by (simp add: slot_of_insert fun_upd_idem)
  then show ?thesis using assms(1) by (simp add: slots_inv_def)
qed

lemma slots_inv_take_empty:
  assumes "slots_inv srcs len outs" "slot_of srcs k = None" "i < length outs" "outs ! i = None" "ss_slot s = Some i"
  shows "slots_inv (im_insert srcs k s) (len + 1) (outs[i := Some \<lparr>os_audio_level = l, os_source = k\<rparr>])"
proof -
  have "holder_of outs i = None" using assms(3,4) by (simp add: holder_of_def)
  then have "linked (slot_of (im_insert srcs k s)) (holder_of (outs[i := Some \<lparr>os_audio_level = l, os_source = k\<rparr>]))"
    using assms linked_take[of "slot_of srcs" "holder_of outs" k i]
    by (simp add: slots_inv_def slot_of_insert holder_update)
  then show ?thesis
    using assms(1,4) occupied_update[OF assms(3), of "Some \<lparr>os_audio_level = l, os_source = k\<rparr>"]
    by (simp add: slots_inv_def)
qed

lemma slots_inv_replace:
  assumes "slots_inv srcs len outs" "slot_of srcs k = None" "holder_of outs i = Some k'" "k' \<noteq> k"
    "ss_slot s = Some i" "ss_slot s' = None"
  shows "slots_inv (im_insert (im_insert srcs k s) k' s') len (outs[i := Some \<lparr>os_audio_level = l, os_source = k\<rparr>])"
proof -
  note r = holder_range[OF assms(3)]
  have "slot_of srcs k' = Some i" using assms(1,3) by (simp add: slots_inv_def linked_def)
  then have "linked ((slot_of srcs)(k' := None, k \<mapsto> i)) ((holder_of outs)(i := None, i \<mapsto> k))"
    using assms(1,2) by (intro linked_take linked_drop) (simp_all add: slots_inv_def)
  then have "linked (slot_of (im_insert (im_insert srcs k s) k' s'))
      (holder_of (outs[i := Some \<lparr>os_audio_level = l, os_source = k\<rparr>]))"
    using assms(4-6) r by (simp add: slot_of_insert holder_update fun_upd_twist)
  moreover have "occupied (outs[i := Some \<lparr>os_audio_level = l, os_source = k\<rparr>]) = len"
    using occupied_update[of i outs "Some \<lparr>os_audio_level = l, os_source = k\<rparr>"] r assms(1) by (auto simp: slots_inv_def)
  ultimately show ?thesis using assms(1) by (simp add: slots_inv_def)
qed

text \<open>What the caller learns from a packet: its slot, and whether the slot changed hands.\<close>

definition pkt_answer ::
  "(nat \<Rightarrow> 's option) \<Rightarrow> (nat \<Rightarrow> 's option) \<Rightarrow> 's \<Rightarrow> (nat \<times> bool) option \<Rightarrow> bool" where
  "pkt_answer h h' src out \<longleftrightarrow>
     (case out of
        None \<Rightarrow> h' = h \<and> (\<forall>i. h i \<noteq> Some src)
      | Some (slot, sw) \<Rightarrow> h' = h(slot \<mapsto> src) \<and> (sw \<longleftrightarrow> h slot \<noteq> Some src) \<and> (sw \<longrightarrow> (\<forall>i. h i \<noteq> Some src)))"

lemma am_on_pkt_ok:
  assumes inv: "am_inv m" and ne: "am_outputs m \<noteq> []"
  shows "\<exists>m' out s. am_on_pkt m now src level = Inr (m', out) \<and> am_inv m' \<and>
    length (am_outputs m') = length (am_outputs m) \<and> pkt_answer (am_holder m) (am_holder m') src out \<and>
    im_get (am_sources m') src = Some s \<and> ss_last_changed_at s = now"
proof (cases "im_get (am_sources m) src")
  case None
  then have sl: "slot_of (am_sources m) src = None" by (simp add: slot_of_def)
  then have nh: "am_holder m i \<noteq> Some src" for i
    using inv by (metis am_inv_def linkedD option.distinct(1) slots_inv_def)
  show ?thesis
  proof (cases "find_empty_slot m")
    case None
    have "slots_inv (im_insert (am_sources m) src \<lparr>ss_last_changed_at = now, ss_slot = None\<rparr>) (am_len m) (am_outputs m)"
      using inv sl by (simp add: am_inv_def slots_inv_def slot_of_insert fun_upd_idem)
    then show ?thesis
      using None \<open>im_get (am_sources m) src = None\<close> nh by (simp add: am_on_pkt_def am_inv_def pkt_answer_def)
  next
    case (Some i)
    note i = find_empty_slot_Some[OF Some]
    then show ?thesis
      using Some \<open>im_get (am_sources m) src = None\<close> nh inv
        slots_inv_take_empty[OF inv[unfolded am_inv_def] sl i, of "\<lparr>ss_last_changed_at = now, ss_slot = Some i\<rparr>"]
      by (simp add: am_on_pkt_def am_inv_def pkt_answer_def holder_update)
  qed
next
  case (Some s)
  define srcs where "srcs = im_insert (am_sources m) src (s\<lparr>ss_last_changed_at := now\<rparr>)"
  define m1 where "m1 = m\<lparr>am_sources := srcs\<rparr>"
  have inv1: "slots_inv srcs (am_len m) (am_outputs m)" "am_inv m1"
    using slots_inv_touch[OF inv[unfolded am_inv_def] Some] by (simp_all add: srcs_def m1_def am_inv_def)
  have get1: "im_get srcs src = Some (s\<lparr>ss_last_changed_at := now\<rparr>)" by (simp add: srcs_def)
  then have sl1: "slot_of srcs src = ss_slot s" by (simp add: slot_of_def)
  have link: "linked (slot_of srcs) (am_holder m)" using inv1 by (simp add: slots_inv_def)
  show ?thesis
  proof (cases "ss_slot s")
    case None
    have nh: "am_holder m i \<noteq> Some src" for i using None sl1 linkedD[OF link, of src i] by auto
    show ?thesis
    proof (cases "has_empty_slot m1")
      case True
      then obtain i where i: "find_empty_slot m1 = Some i" using has_empty_slot_iff[OF inv1(2)] by auto
      note i2 = find_empty_slot_Some[OF i]
      then show ?thesis
        using True i Some None nh get1 slots_inv_take_empty[OF inv1(1), of src i "s\<lparr>ss_last_changed_at := now, ss_slot := Some i\<rparr>"] sl1
        by (simp add: am_on_pkt_def am_inv_def pkt_answer_def holder_update set_source_slot_def m1_def srcs_def Let_def)
    next
      case False
      then have full: "\<forall>slot\<in>set (am_outputs m). slot \<noteq> None"
        using has_empty_slot_iff[OF inv1(2)] find_empty_slot_None[of m1] by (simp add: m1_def)
      then have "\<exists>x. Some x \<in> set (am_outputs m)" using ne by (metis list.set_intros(1) neq_Nil_conv option.exhaust)
      then obtain j s' l where low: "lowest_slot m1 = Some (j, s', l)"
        using lowest_from_exists[of None "am_outputs m" 0] by (fastforce simp: lowest_slot_def m1_def)
      note lm = lowest_slot_minimal[OF low]
      have h: "am_holder m j = Some s'" using lm(1,2) by (simp add: holder_of_def m1_def)
      have s': "s' \<noteq> src" using h nh by auto
      have "slot_of srcs s' = Some j" using linkedD[OF link] h by simp
      then obtain t where t: "im_get srcs s' = Some t" by (auto simp: slot_of_def split: option.splits)
      show ?thesis
        using False low lm(1) Some None nh get1 h s' t inv1 sl1
          slots_inv_replace[OF inv1(1) _ h s', of "s\<lparr>ss_last_changed_at := now, ss_slot := Some j\<rparr>" "t\<lparr>ss_slot := None\<rparr>"]
        by (simp add: am_on_pkt_def am_inv_def pkt_answer_def holder_update set_source_slot_def m1_def srcs_def Let_def
            split: if_splits)
    qed
  next
    case (Some i)
    then have "am_holder m i = Some src" using linkedD[OF link] sl1 by simp
    then show ?thesis
      using Some \<open>im_get (am_sources m) src = Some s\<close> inv1 get1
      by (simp add: am_on_pkt_def pkt_answer_def m1_def srcs_def Let_def fun_upd_idem)
  qed
qed

section \<open>The interface the room's mixers use\<close>

locale slot_mixer =
  fixes inv :: "'m \<Rightarrow> bool"
    and width :: "'m \<Rightarrow> nat"
    and holder :: "'m \<Rightarrow> nat \<Rightarrow> 's option"
    and tick :: "'m \<Rightarrow> nat \<Rightarrow> ('m \<times> nat list option) res"
    and pkt :: "'m \<Rightarrow> nat \<Rightarrow> 's \<Rightarrow> int option \<Rightarrow> ('m \<times> (nat \<times> bool) option) res"
  assumes holder_width: "holder m i = Some k \<Longrightarrow> i < width m"
    and tick_ok: "inv m \<Longrightarrow> \<exists>m' out. tick m now = Inr (m', out) \<and> inv m' \<and> width m' = width m \<and>
      (let cleared = (case out of None \<Rightarrow> [] | Some l \<Rightarrow> l) in
       holder m' = (\<lambda>i. if i \<in> set cleared then None else holder m i) \<and> (\<forall>i\<in>set cleared. holder m i \<noteq> None))"
    and pkt_ok: "inv m \<Longrightarrow> 0 < width m \<Longrightarrow> \<exists>m' out. pkt m now k level = Inr (m', out) \<and> inv m' \<and>
      width m' = width m \<and> pkt_answer (holder m) (holder m') k out"
begin

text \<open>A client that keeps one entry per slot stays in step with the mixer if it clears the entries a tick
  reports and sets the entry of a slot that changed hands.\<close>

definition synced :: "'m \<Rightarrow> 'a option list \<Rightarrow> bool" where
  "synced m slots \<longleftrightarrow> length slots = width m \<and> (\<forall>i < width m. slots ! i \<noteq> None \<longleftrightarrow> holder m i \<noteq> None)"

lemma foldl_clear:
  "length (foldl (\<lambda>s i. s[i := None]) slots cleared) = length slots"
  "j < length slots \<Longrightarrow> foldl (\<lambda>s i. s[i := None]) slots cleared ! j = (if j \<in> set cleared then None else slots ! j)"
  by (induction cleared arbitrary: slots) (auto simp: nth_list_update)

lemma synced_tick:
  assumes "inv m" "synced m slots"
  shows "\<exists>m' out. tick m now = Inr (m', out) \<and> inv m' \<and> width m' = width m \<and>
    synced m' (foldl (\<lambda>s i. s[i := None]) slots (case out of None \<Rightarrow> [] | Some l \<Rightarrow> l)) \<and>
    (\<forall>l. out = Some l \<longrightarrow> (\<forall>i\<in>set l. i < width m))"
proof -
  obtain m' out where t: "tick m now = Inr (m', out)" "inv m'" "width m' = width m"
      "holder m' = (\<lambda>i. if i \<in> set (case out of None \<Rightarrow> [] | Some l \<Rightarrow> l) then None else holder m i)"
      "\<forall>i\<in>set (case out of None \<Rightarrow> [] | Some l \<Rightarrow> l). holder m i \<noteq> None"
    using tick_ok[OF assms(1), of now] by (auto simp: Let_def)
  have "\<forall>i\<in>set (case out of None \<Rightarrow> [] | Some l \<Rightarrow> l). i < width m" using t(5) holder_width by fastforce
  then show ?thesis using t assms(2) by (auto simp: synced_def foldl_clear)
qed

lemma synced_pkt:
  assumes "inv m" "0 < width m" "synced m slots"
  shows "\<exists>m' out. pkt m now k level = Inr (m', out) \<and> inv m' \<and> width m' = width m \<and>
    (case out of
       None \<Rightarrow> synced m' slots
     | Some (i, sw) \<Rightarrow> i < width m \<and> holder m' i = Some k \<and>
         (if sw then \<forall>x. synced m' (slots[i := Some x]) else synced m' slots \<and> slots ! i \<noteq> None))"
proof -
  obtain m' out where t: "pkt m now k level = Inr (m', out)" "inv m'" "width m' = width m"
      "pkt_answer (holder m) (holder m') k out"
    using pkt_ok[OF assms(1,2)] by blast
  show ?thesis
  proof (cases out)
    case None
    then show ?thesis using t assms(3) by (auto simp: pkt_answer_def synced_def)
  next
    case (Some p)
    obtain i sw where p: "p = (i, sw)" by (cases p)
    have h: "holder m' = (holder m)(i \<mapsto> k)" "sw \<longleftrightarrow> holder m i \<noteq> Some k" using t(4) Some p by (auto simp: pkt_answer_def)
    have i: "i < width m" using holder_width[of m' i k] h(1) t(3) by simp
    show ?thesis using t h i Some p assms(3) by (auto simp: synced_def nth_list_update)
  qed
qed

end

interpretation am: slot_mixer am_inv "\<lambda>m. length (am_outputs m)" am_holder am_on_tick am_on_pkt
proof unfold_locales
  show "\<exists>m' out. am_on_tick m now = Inr (m', out) \<and> am_inv m' \<and> length (am_outputs m') = length (am_outputs m) \<and>
      (let cleared = (case out of None \<Rightarrow> [] | Some l \<Rightarrow> l) in
       am_holder m' = (\<lambda>i. if i \<in> set cleared then None else am_holder m i) \<and> (\<forall>i\<in>set cleared. am_holder m i \<noteq> None))"
    if "am_inv m" for m :: "'s audio_mixer" and now
    using am_on_tick_ok[OF that, of now] by blast
  show "\<exists>m' out. am_on_pkt m now k level = Inr (m', out) \<and> am_inv m' \<and>
      length (am_outputs m') = length (am_outputs m) \<and> pkt_answer (am_holder m) (am_holder m') k out"
    if "am_inv m" "0 < length (am_outputs m)" for m :: "'s audio_mixer" and now k level
    using am_on_pkt_ok[OF that(1), of now k level] that(2) by fastforce
qed (use holder_range in fast)

section \<open>Runs\<close>

datatype 's mixer_op = MixTick nat | MixPkt nat 's "int option"

datatype mixer_out = Cleared "nat list option" | Slot "(nat \<times> bool) option"

fun mixer_run :: "'s audio_mixer \<Rightarrow> 's mixer_op list \<Rightarrow> ('s audio_mixer \<times> mixer_out list) res" where
  "mixer_run m [] = Inr (m, [])"
| "mixer_run m (MixTick now # ops) = res_bind (am_on_tick m now) (\<lambda>(m1, out).
     res_bind (mixer_run m1 ops) (\<lambda>(m2, outs). Inr (m2, Cleared out # outs)))"
| "mixer_run m (MixPkt now k level # ops) = res_bind (am_on_pkt m now k level) (\<lambda>(m1, out).
     res_bind (mixer_run m1 ops) (\<lambda>(m2, outs). Inr (m2, Slot out # outs)))"

lemma mixer_run_ok:
  "am_inv m \<Longrightarrow> am_outputs m \<noteq> [] \<Longrightarrow>
   \<exists>m' outs. mixer_run m ops = Inr (m', outs) \<and> am_inv m' \<and> length (am_outputs m') = length (am_outputs m)"
proof (induction ops arbitrary: m)
  case (Cons op1 ops)
  show ?case
  proof (cases op1)
    case (MixTick now)
    obtain m1 out where "am_on_tick m now = Inr (m1, out)" "am_inv m1" "length (am_outputs m1) = length (am_outputs m)"
      using am_on_tick_ok[OF Cons.prems(1), of now] by blast
    then show ?thesis using Cons.IH[of m1] Cons.prems(2) MixTick by fastforce
  next
    case (MixPkt now k level)
    obtain m1 out where "am_on_pkt m now k level = Inr (m1, out)" "am_inv m1" "length (am_outputs m1) = length (am_outputs m)"
      using am_on_pkt_ok[OF Cons.prems, of now k level] by blast
    then show ?thesis using Cons.IH[of m1] Cons.prems(2) MixPkt by fastforce
  qed
qed simp

lemma am_on_pkt_rules:
  assumes "am_inv m" "am_on_pkt m now src level = Inr (m', out)"
  shows "has_empty_slot m \<Longrightarrow> out \<noteq> None"
    and "out = Some (i, True) \<Longrightarrow> am_outputs m ! i = Some slot \<Longrightarrow>
      os_audio_level slot + SWITCH_AUDIO_THRESHOLD \<le> (case level of None \<Rightarrow> SILENT_LEVEL | Some l \<Rightarrow> l) \<and>
      (\<forall>x. Some x \<in> set (am_outputs m) \<longrightarrow> os_audio_level slot \<le> os_audio_level x)"
proof -
  show "out \<noteq> None" if "has_empty_slot m"
    using assms(2) that has_empty_slot_iff[OF assms(1)]
    by (auto simp: am_on_pkt_def Let_def has_empty_slot_def panic_simps split: option.splits)
next
  assume out: "out = Some (i, True)" and i: "am_outputs m ! i = Some slot"
  have no_empty: "find_empty_slot m1 \<noteq> Some i" if "am_outputs m1 = am_outputs m" for m1
    using find_empty_slot_Some(2)[of m1 i] that i by auto
  have low: "os_audio_level slot = l \<and> (\<forall>x. Some x \<in> set (am_outputs m) \<longrightarrow> l \<le> os_audio_level x)"
    if "lowest_slot m1 = Some (i, s, l)" "am_outputs m1 = am_outputs m" for m1 :: "'a audio_mixer" and s l
    using lowest_slot_minimal[OF that(1)] that(2) i by auto
  show "os_audio_level slot + SWITCH_AUDIO_THRESHOLD \<le> (case level of None \<Rightarrow> SILENT_LEVEL | Some l \<Rightarrow> l) \<and>
      (\<forall>x. Some x \<in> set (am_outputs m) \<longrightarrow> os_audio_level slot \<le> os_audio_level x)"
    using assms(2) out no_empty low
    by (auto simp: am_on_pkt_def Let_def panic_simps split: option.splits if_splits prod.splits)
qed

text \<open>While one source holds the only slot, its packets change nothing but its time stamp.\<close>

lemma stale_holder_run:
  assumes "m = \<lparr>am_len = 1, am_sources = [(a, \<lparr>ss_last_changed_at = t, ss_slot = Some 0\<rparr>)],
     am_outputs = [Some \<lparr>os_audio_level = l0, os_source = a\<rparr>]\<rparr>"
  shows "\<exists>t'. mixer_run m (map (\<lambda>(now, l). MixPkt now a l) pkts @ ops) =
     res_bind (mixer_run (m\<lparr>am_sources := [(a, \<lparr>ss_last_changed_at = t', ss_slot = Some 0\<rparr>)]\<rparr>) ops)
       (\<lambda>(m', outs). Inr (m', replicate (length pkts) (Slot (Some (0, False))) @ outs))"
  using assms
proof (induction pkts arbitrary: m t)
  case Nil
  then have "mixer_run m ops = res_bind (mixer_run m ops) (\<lambda>(m', outs). Inr (m', outs))"
    by (cases "mixer_run m ops") auto
  then show ?case using Nil by (auto intro!: exI[of _ t])
next
  case (Cons p pkts)
  obtain now l where p: "p = (now, l)" by (cases p)
  let ?m1 = "m\<lparr>am_sources := [(a, \<lparr>ss_last_changed_at = now, ss_slot = Some 0\<rparr>)]\<rparr>"
  obtain t' where t': "mixer_run ?m1 (map (\<lambda>(now, l). MixPkt now a l) pkts @ ops) =
     res_bind (mixer_run (?m1\<lparr>am_sources := [(a, \<lparr>ss_last_changed_at = t', ss_slot = Some 0\<rparr>)]\<rparr>) ops)
       (\<lambda>(m', outs). Inr (m', replicate (length pkts) (Slot (Some (0, False))) @ outs))"
    using Cons.IH[of ?m1 now] Cons.prems by auto
  have "am_on_pkt m now a l = Inr (?m1, Some (0, False))"
    using Cons.prems by (simp add: am_on_pkt_def)
  then have "mixer_run m (map (\<lambda>(now, l). MixPkt now a l) (p # pkts) @ ops) =
     res_bind (mixer_run (m\<lparr>am_sources := [(a, \<lparr>ss_last_changed_at = t', ss_slot = Some 0\<rparr>)]\<rparr>) ops)
       (\<lambda>(m', outs). Inr (m', replicate (length (p # pkts)) (Slot (Some (0, False))) @ outs))"
    using p t' by (cases "mixer_run (m\<lparr>am_sources := [(a, \<lparr>ss_last_changed_at = t', ss_slot = Some 0\<rparr>)]\<rparr>) ops") auto
  then show ?case by blast
qed

section \<open>Properties\<close>

text \<open>For a mixer with at least one output, no sequence of packets and ticks makes it panic, and at
  every moment a source has at most one slot and a slot at most one source: the slot a source records is
  the slot that records the source.\<close>

theorem mixer_never_panics:
  assumes "0 < n"
  shows "\<exists>m outs. mixer_run (am_new n) ops = Inr (m, outs) \<and> length (am_outputs m) = n \<and>
    (\<forall>k i. slot_of (am_sources m) k = Some i \<longleftrightarrow> am_holder m i = Some k)"
proof -
  have "am_inv (am_new n :: 'a audio_mixer)" "am_outputs (am_new n :: 'a audio_mixer) \<noteq> []"
    using assms by (simp_all add: am_inv_new) (simp add: am_new_def)
  from mixer_run_ok[OF this, of ops] show ?thesis
    by (auto simp: am_inv_def slots_inv_def linked_def am_new_def)
qed

theorem mixer_never_panics_witness:
  "\<exists>m outs. mixer_run (am_new 2) [MixPkt 0 ''a'' (Some (-20)), MixPkt 1 ''b'' None, MixPkt 2 ''c'' (Some (-30)),
      MixPkt 3 ''c'' (Some (-30)), MixTick 1002] = Inr (m, outs) \<and> length (am_outputs m) = 2 \<and>
    (\<forall>k i. slot_of (am_sources m) k = Some i \<longleftrightarrow> am_holder m i = Some k)"
  by (rule mixer_never_panics) simp


definition demo_mixer :: "string audio_mixer" where
  "demo_mixer = \<lparr>am_len = 1, am_sources = [(''a'', \<lparr>ss_last_changed_at = 0, ss_slot = Some 0\<rparr>)],
     am_outputs = [Some \<lparr>os_audio_level = -60, os_source = ''a''\<rparr>]\<rparr>"


text \<open>A tick forgets exactly the sources without a packet for a second, and reports exactly the slots
  they held, which are free afterwards; the other slots keep their sources.\<close>

theorem mixer_tick_spec:
  assumes "am_inv m"
  shows "\<exists>m' out. am_on_tick m now = Inr (m', out) \<and> am_inv m' \<and>
    am_sources m' = filter (\<lambda>(k, v). now < ss_last_changed_at v + 1000) (am_sources m) \<and>
    {i. am_holder m i \<noteq> am_holder m' i} = set (case out of None \<Rightarrow> [] | Some l \<Rightarrow> l) \<and>
    (\<forall>i. am_holder m' i = None \<or> am_holder m' i = am_holder m i)"
proof -
  obtain m' out where r: "am_on_tick m now = Inr (m', out)" "am_inv m'"
      "am_sources m' = filter (\<lambda>(k, v). \<not> expired now v) (am_sources m)"
      "am_holder m' = (\<lambda>i. if i \<in> set (case out of None \<Rightarrow> [] | Some l \<Rightarrow> l) then None else am_holder m i)"
      "\<forall>i\<in>set (case out of None \<Rightarrow> [] | Some l \<Rightarrow> l). am_holder m i \<noteq> None"
    using am_on_tick_ok[OF assms, of now] by (auto simp: Let_def)
  have "{i. am_holder m i \<noteq> am_holder m' i} = set (case out of None \<Rightarrow> [] | Some l \<Rightarrow> l)"
    using r(4,5) by (auto split: if_splits)
  then show ?thesis
    using r by (auto simp: expired_def AUDIO_SLOT_TIMEOUT_def not_le)
qed

theorem mixer_tick_spec_witness:
  "\<exists>m' out. am_on_tick demo_mixer 1000 = Inr (m', out) \<and> am_inv m' \<and>
    am_sources m' = filter (\<lambda>(k, v). 1000 < ss_last_changed_at v + 1000) (am_sources demo_mixer) \<and>
    {i. am_holder demo_mixer i \<noteq> am_holder m' i} = set (case out of None \<Rightarrow> [] | Some l \<Rightarrow> l) \<and>
    (\<forall>i. am_holder m' i = None \<or> am_holder m' i = am_holder demo_mixer i)"
  by (rule mixer_tick_spec)
     (auto simp: demo_mixer_def am_inv_def slots_inv_def linked_def slot_of_def holder_of_def im_wf_def)

text \<open>The level of a slot is recorded when its source gets it and never again: however silent the
  source becomes, a louder source is refused as long as it is not 30 dB above the level of that first
  packet.\<close>

theorem mixer_level_is_stale:
  assumes "a \<noteq> b" "\<forall>l\<in>set ls. l < l0 + 30"
  shows "\<exists>m. mixer_run (am_new 1) (MixPkt 0 a (Some l0) # map (\<lambda>(now, l). MixPkt now a l) pkts @
      map (\<lambda>l. MixPkt 900 b (Some l)) ls) =
    Inr (m, Slot (Some (0, True)) # replicate (length pkts) (Slot (Some (0, False))) @
      replicate (length ls) (Slot None))"
proof -
  let ?m = "\<lambda>t. \<lparr>am_len = 1, am_sources = [(a, \<lparr>ss_last_changed_at = t, ss_slot = Some 0\<rparr>)],
     am_outputs = [Some \<lparr>os_audio_level = l0, os_source = a\<rparr>]\<rparr>"
  have first: "am_on_pkt (am_new 1) 0 a (Some l0) = Inr (?m 0, Some (0, True))"
    by (simp add: am_on_pkt_def am_new_def find_empty_slot_def)
  have known: "\<exists>m'. mixer_run (?m t\<lparr>am_sources := am_sources (?m t) @ [(b, \<lparr>ss_last_changed_at = 900, ss_slot = None\<rparr>)]\<rparr>)
      (map (\<lambda>l. MixPkt 900 b (Some l)) ls) = Inr (m', replicate (length ls) (Slot None))" for t
    using assms
    by (induction ls) (auto simp: am_on_pkt_def has_empty_slot_def lowest_slot_def SWITCH_AUDIO_THRESHOLD_def Let_def)
  have new: "\<exists>m'. mixer_run (?m t) (map (\<lambda>l. MixPkt 900 b (Some l)) ls) = Inr (m', replicate (length ls) (Slot None))" for t
    using assms known[of t]
    by (cases ls) (auto simp: am_on_pkt_def find_empty_slot_def has_empty_slot_def lowest_slot_def
        SWITCH_AUDIO_THRESHOLD_def Let_def panic_simps split: if_splits)
  obtain t' where "mixer_run (?m 0) (map (\<lambda>(now, l). MixPkt now a l) pkts @ map (\<lambda>l. MixPkt 900 b (Some l)) ls) =
     res_bind (mixer_run (?m t') (map (\<lambda>l. MixPkt 900 b (Some l)) ls))
       (\<lambda>(m', outs). Inr (m', replicate (length pkts) (Slot (Some (0, False))) @ outs))"
    using stale_holder_run[of "?m 0" a 0 l0 pkts] by auto
  then show ?thesis using new[of t'] first by auto
qed

theorem mixer_level_is_stale_witness:
  "\<exists>m. mixer_run (am_new 1) (MixPkt 0 ''a'' (Some (-10)) # map (\<lambda>(now, l). MixPkt now ''a'' l) [(20, Some (-127)), (880, None)] @
      map (\<lambda>l. MixPkt 900 ''b'' (Some l)) [-20, -1]) =
    Inr (m, Slot (Some (0, True)) # replicate (length [(20::nat, Some (-127::int)), (880, None)]) (Slot (Some (0, False))) @
      replicate (length [-20::int, -1]) (Slot None))"
  by (rule mixer_level_is_stale) simp_all

text \<open>A mixer without outputs panics on the second packet of any source.\<close>

theorem mixer_without_outputs_panics:
  "mixer_run (am_new 0) [MixPkt t1 k l1, MixPkt t2 k l2] = Inl ExpectNone"
  by (simp add: am_on_pkt_def am_new_def find_empty_slot_def has_empty_slot_def lowest_slot_def Let_def)

end
