(* ===== verification/Channel_Users.thy ===== *)
theory Channel_Users
  imports Media_Prelude
begin

text \<open>
  The discipline all components of a room share: each keeps a table of its users per network channel,
  opens a channel (publish, subscribe) for the first user and closes it after the last. Calls change
  the state and append commands to an output queue, \<open>pop_output\<close> takes them off. The locale
  \<open>channel_users\<close> states what one call must do; the runs, for any interleaving of calls and pops, follow
  once and for all.
\<close>

datatype 'op call = Call 'op | Pop

fun calls_run :: "('s \<Rightarrow> 'op \<Rightarrow> 's res) \<Rightarrow> ('s \<Rightarrow> 's \<times> 'o option) \<Rightarrow> 's \<Rightarrow> 'op call list \<Rightarrow> ('s \<times> 'o list) res" where
  "calls_run step pop s [] = Inr (s, [])"
| "calls_run step pop s (Call op1 # cs) = res_bind (step s op1) (\<lambda>s1. calls_run step pop s1 cs)"
| "calls_run step pop s (Pop # cs) =
     (case pop s of
        (s1, None) \<Rightarrow> calls_run step pop s1 cs
      | (s1, Some out) \<Rightarrow> res_bind (calls_run step pop s1 cs) (\<lambda>(s2, sent). Inr (s2, out # sent)))"

text \<open>Calls made only when their precondition holds.\<close>

fun calls_legal :: "('s \<Rightarrow> 'op \<Rightarrow> bool) \<Rightarrow> ('s \<Rightarrow> 'op \<Rightarrow> 's res) \<Rightarrow> ('s \<Rightarrow> 's \<times> 'o option) \<Rightarrow> 's \<Rightarrow> 'op call list \<Rightarrow> bool" where
  "calls_legal pre step pop s [] = True"
| "calls_legal pre step pop s (Call op1 # cs) =
     (pre s op1 \<and> (case step s op1 of Inl e \<Rightarrow> True | Inr s1 \<Rightarrow> calls_legal pre step pop s1 cs))"
| "calls_legal pre step pop s (Pop # cs) = calls_legal pre step pop (fst (pop s)) cs"

text \<open>The channels open after a sequence of commands; \<open>None\<close> if one is opened twice or closed while
  not open. \<open>cmd\<close> reads the channel of an opening (\<open>True\<close>) or closing (\<open>False\<close>) command.\<close>

fun toggles :: "('o \<Rightarrow> ('c \<times> bool) option) \<Rightarrow> 'c set \<Rightarrow> 'o list \<Rightarrow> 'c set option" where
  "toggles cmd S [] = Some S"
| "toggles cmd S (out # outs) =
     (case cmd out of
        None \<Rightarrow> toggles cmd S outs
      | Some (c, True) \<Rightarrow> if c \<in> S then None else toggles cmd (insert c S) outs
      | Some (c, False) \<Rightarrow> if c \<in> S then toggles cmd (S - {c}) outs else None)"

lemma toggles_append: "toggles cmd S (as @ bs) = Option.bind (toggles cmd S as) (\<lambda>S1. toggles cmd S1 bs)"
  by (induction cmd S as rule: toggles.induct) (auto split: option.split prod.split bool.split)

lemma toggles_silent: "(\<And>out. out \<in> set outs \<Longrightarrow> cmd out = None) \<Longrightarrow> toggles cmd S outs = Some S"
  by (induction outs) auto

text \<open>A queue with a pop.\<close>

definition queue_ok :: "('s \<Rightarrow> 'o list) \<Rightarrow> ('s \<Rightarrow> 's \<times> 'o option) \<Rightarrow> 's \<Rightarrow> bool" where
  "queue_ok queue pop s \<longleftrightarrow>
     (case queue s of
        [] \<Rightarrow> pop s = (s, None)
      | out # q \<Rightarrow> snd (pop s) = Some out \<and> queue (fst (pop s)) = q)"

locale channel_users =
  fixes step :: "'s \<Rightarrow> 'op \<Rightarrow> 's res"
    and pop :: "'s \<Rightarrow> 's \<times> 'o option"
    and queue :: "'s \<Rightarrow> 'o list"
    and pre :: "'s \<Rightarrow> 'op \<Rightarrow> bool"
    and inv :: "'s \<Rightarrow> bool"
    and active :: "'s \<Rightarrow> 'c set"
    and cmd :: "'o \<Rightarrow> ('c \<times> bool) option"
  assumes step_ok: "inv s \<Longrightarrow> pre s op1 \<Longrightarrow>
      \<exists>s1 new. step s op1 = Inr s1 \<and> inv s1 \<and> queue s1 = queue s @ new \<and> toggles cmd (active s) new = Some (active s1)"
    and pop_queue: "queue_ok queue pop s"
    and pop_inv: "inv (fst (pop s)) \<longleftrightarrow> inv s"
    and pop_active: "active (fst (pop s)) = active s"
begin

text \<open>Everything sent or still queued is a correct sequence of openings and closings, and the channels
  it leaves open are those in use.\<close>

lemma run_ok:
  assumes "inv s" "calls_legal pre step pop s cs"
  shows "\<exists>s1 sent new. calls_run step pop s cs = Inr (s1, sent) \<and> inv s1 \<and> sent @ queue s1 = queue s @ new \<and>
    toggles cmd (active s) new = Some (active s1)"
  using assms
proof (induction cs arbitrary: s)
  case (Cons c cs)
  show ?case
  proof (cases c)
    case (Call op1)
    obtain s1 new where st: "step s op1 = Inr s1" "inv s1" "queue s1 = queue s @ new"
        "toggles cmd (active s) new = Some (active s1)"
      using step_ok[OF Cons.prems(1), of op1] Cons.prems(2) Call by auto
    obtain s2 sent new2 where "calls_run step pop s1 cs = Inr (s2, sent)" "inv s2" "sent @ queue s2 = queue s1 @ new2"
        "toggles cmd (active s1) new2 = Some (active s2)"
      using Cons.IH[OF st(2)] Cons.prems(2) Call st(1) by auto
    then show ?thesis using st Call by (auto simp: toggles_append intro!: exI[of _ "new @ new2"])
  next
    case Pop
    obtain s1 out where p: "pop s = (s1, out)" by (cases "pop s")
    then have inv1: "inv s1" "active s1 = active s" using pop_inv[of s] pop_active[of s] Cons.prems(1) by simp_all
    obtain s2 sent new where r: "calls_run step pop s1 cs = Inr (s2, sent)" "inv s2" "sent @ queue s2 = queue s1 @ new"
        "toggles cmd (active s1) new = Some (active s2)"
      using Cons.IH[OF inv1(1)] Cons.prems(2) Pop p by auto
    show ?thesis
      using r p Pop pop_queue[of s] inv1(2) by (cases "queue s") (auto simp: queue_ok_def)
  qed
qed auto

lemma run_from_empty:
  assumes "inv s" "calls_legal pre step pop s cs" "queue s = []" "active s = {}"
  shows "\<exists>s1 sent. calls_run step pop s cs = Inr (s1, sent) \<and> inv s1 \<and>
    toggles cmd {} (sent @ queue s1) = Some (active s1)"
  using run_ok[OF assms(1,2)] assms(3,4) by fastforce

end

section \<open>A table of users, read both ways\<close>

text \<open>\<open>chan\<close> gives the channel of a user, \<open>members\<close> the users of a channel: never an empty list, never a
  user twice.\<close>

definition table_inv :: "('k \<Rightarrow> 'c option) \<Rightarrow> ('c \<Rightarrow> 'k list option) \<Rightarrow> bool" where
  "table_inv chan members \<longleftrightarrow> (\<forall>c ks. members c = Some ks \<longrightarrow> ks \<noteq> [] \<and> distinct ks) \<and>
     (\<forall>k c. chan k = Some c \<longleftrightarrow> (\<exists>ks. members c = Some ks \<and> k \<in> set ks))"

lemma table_invD:
  assumes "table_inv chan members"
  shows "members c = Some ks \<Longrightarrow> ks \<noteq> [] \<and> distinct ks"
    and "chan k = Some c \<longleftrightarrow> (\<exists>ks. members c = Some ks \<and> k \<in> set ks)"
  using assms by (auto simp: table_inv_def)

lemma table_empty: "table_inv (\<lambda>k. None) (\<lambda>c. None)"
  by (simp add: table_inv_def)

lemma table_add:
  assumes inv: "table_inv chan members" and k: "chan k = None"
    and ks: "set ks = insert k (case members c of None \<Rightarrow> {} | Some l \<Rightarrow> set l)" "distinct ks"
  shows "table_inv (chan(k \<mapsto> c)) (members(c \<mapsto> ks))"
  unfolding table_inv_def
proof (intro conjI allI impI)
  show "ks' \<noteq> []" "distinct ks'" if "(members(c \<mapsto> ks)) c' = Some ks'" for c' ks'
    using that ks table_invD(1)[OF inv, of c'] by (auto split: if_splits)
  have no: "k \<notin> set l" if "members c' = Some l" for c' l
    using that k table_invD(2)[OF inv, of k c'] by auto
  show "(chan(k \<mapsto> c)) k' = Some c' \<longleftrightarrow> (\<exists>l. (members(c \<mapsto> ks)) c' = Some l \<and> k' \<in> set l)" for k' c'
    using table_invD(2)[OF inv, of k' c'] ks(1) no by (auto split: option.splits)
qed

lemma table_remove:
  assumes inv: "table_inv chan members" and k: "chan k = Some c" and l: "members c = Some l"
    and ks: "set ks = set l - {k}" "distinct ks"
  shows "table_inv (chan(k := None)) (members(c := if ks = [] then None else Some ks))"
  unfolding table_inv_def
proof (intro conjI allI impI)
  show "ks' \<noteq> []" "distinct ks'" if "(members(c := if ks = [] then None else Some ks)) c' = Some ks'" for c' ks'
    using that ks table_invD(1)[OF inv, of c'] by (auto split: if_splits)
  have only: "c' = c" if "members c' = Some l'" "k \<in> set l'" for c' l'
    using that k table_invD(2)[OF inv, of k c'] by auto
  show "(chan(k := None)) k' = Some c' \<longleftrightarrow>
      (\<exists>l'. (members(c := if ks = [] then None else Some ks)) c' = Some l' \<and> k' \<in> set l')" for k' c'
  proof (cases "ks = []")
    case True
    then have "set l \<subseteq> {k}" using ks(1) by auto
    then show ?thesis using True table_invD(2)[OF inv, of k' c'] l only by auto
  next
    case False
    then show ?thesis using table_invD(2)[OF inv, of k' c'] ks(1) l only by auto
  qed
qed

lemma table_members:
  assumes "table_inv chan members" "chan k = Some c"
  shows "\<exists>l. members c = Some l \<and> k \<in> set l \<and> distinct l"
  using table_invD[OF assms(1)] assms(2) by blast

lemma table_dom:
  assumes inv: "table_inv chan members"
  shows "dom members = ran chan"
proof (rule set_eqI)
  fix c
  have "(\<exists>ks. members c = Some ks) \<longleftrightarrow> (\<exists>k ks. members c = Some ks \<and> k \<in> set ks)"
    using table_invD(1)[OF inv, of c] by (metis hd_in_set)
  then show "c \<in> dom members \<longleftrightarrow> c \<in> ran chan"
    using table_invD(2)[OF inv] by (auto simp: ran_def dom_def)
qed

section \<open>A table where a user may use many channels\<close>

text \<open>\<open>A\<close> gives the users of a channel, \<open>B\<close> the channels of a user. While the user \<open>e\<close> leaves, \<open>P\<close> are the
  channels it has still to be taken off.\<close>

definition tab_mem :: "('a \<Rightarrow> 'b list option) \<Rightarrow> 'a \<Rightarrow> 'b \<Rightarrow> bool" where
  "tab_mem A a b \<longleftrightarrow> (\<exists>l. A a = Some l \<and> b \<in> set l)"

definition tab_wf :: "('a \<Rightarrow> 'b list option) \<Rightarrow> bool" where
  "tab_wf A \<longleftrightarrow> (\<forall>a l. A a = Some l \<longrightarrow> l \<noteq> [] \<and> distinct l)"

definition rel_inv :: "('c \<Rightarrow> 'k list option) \<Rightarrow> ('k \<Rightarrow> 'c list option) \<Rightarrow> 'k \<Rightarrow> 'c set \<Rightarrow> bool" where
  "rel_inv A B e P \<longleftrightarrow> tab_wf A \<and> tab_wf B \<and> (\<forall>c k. tab_mem A c k \<longleftrightarrow> tab_mem B k c \<or> k = e \<and> c \<in> P)"

definition tab_put :: "('a \<Rightarrow> 'b list option) \<Rightarrow> 'a \<Rightarrow> 'b list \<Rightarrow> 'a \<Rightarrow> 'b list option" where
  "tab_put A a l = A(a := if l = [] then None else Some l)"

abbreviation tab_get :: "('a \<Rightarrow> 'b list option) \<Rightarrow> 'a \<Rightarrow> 'b list" where
  "tab_get A a \<equiv> (case A a of None \<Rightarrow> [] | Some l \<Rightarrow> l)"

lemma tab_mem_get: "tab_mem A a b \<longleftrightarrow> b \<in> set (tab_get A a)"
  by (cases "A a") (auto simp: tab_mem_def)

lemma tab_get_put [simp]: "tab_get (tab_put A a l) a' = (if a' = a then l else tab_get A a')"
  by (simp add: tab_put_def)

lemma tab_wf_put: "tab_wf A \<Longrightarrow> distinct l \<Longrightarrow> tab_wf (tab_put A a l)"
  by (auto simp: tab_wf_def tab_put_def)

lemma tab_wf_get: "tab_wf A \<Longrightarrow> distinct (tab_get A a)"
  by (auto simp: tab_wf_def split: option.split)

lemma tab_dom: "tab_wf A \<Longrightarrow> a \<in> dom A \<longleftrightarrow> tab_get A a \<noteq> []"
  by (auto simp: tab_wf_def split: option.split)

lemma tab_put_dom: "dom (tab_put A a l) = (if l = [] then dom A - {a} else insert a (dom A))"
  by (auto simp: tab_put_def)

lemma rel_empty: "rel_inv (\<lambda>c. None) (\<lambda>k. None) e {}"
  by (simp add: rel_inv_def tab_wf_def tab_mem_def)

lemma rel_user: "rel_inv A B e {} \<Longrightarrow> rel_inv A B e' {}"
  by (simp add: rel_inv_def)

lemma rel_add:
  assumes "rel_inv A B e {}" "set l = insert k (set (tab_get A c))" "distinct l"
    "set m = insert c (set (tab_get B k))" "distinct m"
  shows "rel_inv (tab_put A c l) (tab_put B k m) e {}"
  using assms by (auto simp: rel_inv_def tab_mem_get tab_wf_put)

lemma rel_del:
  assumes "rel_inv A B e {}" "set l = set (tab_get A c) - {k}" "distinct l"
    "set m = set (tab_get B k) - {c}" "distinct m"
  shows "rel_inv (tab_put A c l) (tab_put B k m) e {}"
  using assms by (auto simp: rel_inv_def tab_mem_get tab_wf_put)

lemma rel_leave_start:
  assumes "rel_inv A B e {}"
  shows "rel_inv A (B(e := None)) e (set (tab_get B e))"
  using assms by (auto simp: rel_inv_def tab_mem_get tab_wf_def)

lemma rel_leave_step:
  assumes "rel_inv A B e P" "B e = None" "set l = set (tab_get A c) - {e}" "distinct l"
  shows "rel_inv (tab_put A c l) B e (P - {c})"
  using assms by (auto simp: rel_inv_def tab_mem_get tab_wf_put split: if_splits)

lemma rel_unused:
  assumes "rel_inv A B e {}" "\<forall>k. B k = None"
  shows "A c = None"
proof (rule ccontr)
  assume "A c \<noteq> None"
  then obtain l where "A c = Some l" by blast
  moreover from this obtain k where "k \<in> set l" using assms(1) by (metis hd_in_set rel_inv_def tab_wf_def)
  ultimately have "tab_mem B k c" using assms(1) by (auto simp: rel_inv_def tab_mem_def)
  then show False using assms(2) by (simp add: tab_mem_def)
qed

lemma rel_channels:
  assumes "rel_inv A B e {}"
  shows "dom A = {c. \<exists>k l. B k = Some l \<and> c \<in> set l}" "A = Map.empty \<longleftrightarrow> B = Map.empty"
proof -
  have "c \<in> dom A \<longleftrightarrow> (\<exists>k. tab_mem A c k)" for c
    using assms unfolding rel_inv_def tab_wf_def tab_mem_def dom_def by (metis (mono_tags, lifting) hd_in_set mem_Collect_eq option.exhaust option.distinct(1))
  then show d: "dom A = {c. \<exists>k l. B k = Some l \<and> c \<in> set l}"
    using assms unfolding rel_inv_def tab_mem_def by (intro set_eqI) simp
  have "l \<noteq> []" if "B k = Some l" for k l using assms that by (auto simp: rel_inv_def tab_wf_def)
  then have "B = Map.empty" if "dom A = {}"
    using d that by (auto simp: fun_eq_iff) (metis hd_in_set option.exhaust)
  then show "A = Map.empty \<longleftrightarrow> B = Map.empty" using d by auto
qed

end
