(* ===== verification/Room_Types.thy ===== *)
theory Room_Types
  imports Media_Types
begin

text \<open>
  The vocabulary of a room of the cluster (\<open>packages/media_core/src/cluster.rs\<close>,
  \<open>cluster/id_generator.rs\<close>, \<open>packages/protocol/src/endpoint.rs\<close>, \<open>endpoint/track.rs\<close>,
  \<open>endpoint/audio_mixer.rs\<close>, \<open>message_channel.rs\<close>): identifiers, the events sent to endpoints and the
  commands sent to the network. The network itself (atm0s-sdn), the encoding of messages (bincode) and
  the hash function (whose algorithm the standard library leaves open) are the fields of an
  \<open>externals\<close> record, the argument \<open>x\<close> of every definition that uses them. Type parameters: \<open>'e\<close>
  endpoints, \<open>'w\<close> encoded messages, \<open>'fb\<close> feedback values of the network.
\<close>

section \<open>Data of the protocol\<close>

type_synonym peer_id = string
type_synonym track_name = string
type_synonym channel_label = string
type_synonym local_track_id = nat
type_synonym remote_track_id = nat

datatype bitrate_control_mode = MaxBitrate | DynamicConsumers

record peer_meta =
  pm_metadata :: "string option"
  pm_extra_data :: "string option"

record peer_info =
  pi_peer :: peer_id
  pi_meta :: peer_meta

record track_meta =
  tm_kind :: media_kind
  tm_scaling :: media_scaling
  tm_control :: bitrate_control_mode
  tm_metadata :: "string option"

record track_info =
  ti_peer :: peer_id
  ti_track :: track_name
  ti_meta :: track_meta

record track_source =
  src_peer :: peer_id
  src_track :: track_name

record room_info_publish =
  rp_peer :: bool
  rp_tracks :: bool

record room_info_subscribe =
  rs_peers :: bool
  rs_tracks :: bool

datatype audio_mixer_mode = MixerAuto | MixerManual

record audio_mixer_config =
  mc_mode :: audio_mixer_mode
  mc_outputs :: "local_track_id list"
  mc_sources :: "track_source list"

record audio_mixer_pkt =
  mx_slot :: nat
  mx_peer :: nat
  mx_track :: remote_track_id
  mx_audio_level :: "int option"
  mx_source :: "(peer_id \<times> track_name) option"
  mx_ts :: nat
  mx_seq :: nat
  mx_opus_payload :: "nat list"

record message_channel_packet =
  mp_from :: peer_id
  mp_data :: "nat list"

section \<open>Events and commands\<close>

datatype remote_track_event = RtRequestKeyFrame | RtLimitBitrate nat nat

datatype local_track_event = LtRelayChanged | LtSourceChanged | LtMedia nat media_packet

datatype audio_mixer_event = SlotSet nat peer_id track_name | SlotUnset nat

datatype endpoint_event = PeerJoined peer_id peer_meta | PeerLeaved peer_id peer_meta
  | TrackStarted peer_id track_name track_meta | TrackStopped peer_id track_name track_meta
  | AudioMixerEv audio_mixer_event | RemoteTrackEv remote_track_id remote_track_event
  | LocalTrackEv local_track_id local_track_event
  | MessageChannelData channel_label peer_id "nat list"

datatype ('w, 'fb) channel_control = PubStart | PubStop | PubData 'w | SubAuto | UnsubAuto | FeedbackAuto 'fb

datatype 'w map_control = KvSet nat 'w | KvDel nat | KvSub | KvUnsub

datatype ('e, 'w, 'fb) room_output = ToEndpoint "'e list" endpoint_event
  | Pubsub nat "('w, 'fb) channel_control" | Kv nat "'w map_control"

text \<open>The commands that open and close a channel, for publishing and for subscribing.\<close>

fun pub_cmd :: "('e, 'w, 'fb) room_output \<Rightarrow> (nat \<times> bool) option" where
  "pub_cmd (Pubsub c PubStart) = Some (c, True)"
| "pub_cmd (Pubsub c PubStop) = Some (c, False)"
| "pub_cmd out = None"

fun sub_cmd :: "('e, 'w, 'fb) room_output \<Rightarrow> (nat \<times> bool) option" where
  "sub_cmd (Pubsub c SubAuto) = Some (c, True)"
| "sub_cmd (Pubsub c UnsubAuto) = Some (c, False)"
| "sub_cmd out = None"

section \<open>What lies outside\<close>

text \<open>The values fed to a hasher, in order.\<close>

datatype hash_item = HashU64 nat | HashStr string

record ('w, 'fb) externals =
  x_hash :: "hash_item list \<Rightarrow> nat"
  x_media_ser :: "media_packet \<Rightarrow> 'w"
  x_media_deser :: "'w \<Rightarrow> media_packet option"
  x_msg_ser :: "message_channel_packet \<Rightarrow> 'w"
  x_msg_deser :: "'w \<Rightarrow> message_channel_packet option"
  x_mix_ser :: "audio_mixer_pkt \<Rightarrow> 'w"
  x_mix_deser :: "'w \<Rightarrow> audio_mixer_pkt option"
  x_peer_ser :: "peer_info \<Rightarrow> 'w"
  x_peer_deser :: "'w \<Rightarrow> peer_info option"
  x_track_ser :: "track_info \<Rightarrow> 'w"
  x_track_deser :: "'w \<Rightarrow> track_info option"
  x_fb_simple :: "nat \<Rightarrow> nat \<Rightarrow> nat \<Rightarrow> nat \<Rightarrow> 'fb"
  x_fb_add :: "'fb \<Rightarrow> 'fb \<Rightarrow> 'fb"
  x_fb_kind :: "'fb \<Rightarrow> nat"
  x_fb_min :: "'fb \<Rightarrow> nat"
  x_fb_max :: "'fb \<Rightarrow> nat"

text \<open>The encoding decodes what it encoded.\<close>

definition codec_ok :: "('w, 'fb) externals \<Rightarrow> bool" where
  "codec_ok x \<longleftrightarrow> (\<forall>p. x_media_deser x (x_media_ser x p) = Some p) \<and>
     (\<forall>p. x_msg_deser x (x_msg_ser x p) = Some p) \<and> (\<forall>p. x_mix_deser x (x_mix_ser x p) = Some p) \<and>
     (\<forall>p. x_peer_deser x (x_peer_ser x p) = Some p) \<and> (\<forall>p. x_track_deser x (x_track_ser x p) = Some p)"

section \<open>Identifiers\<close>

text \<open>\<open>finish().into()\<close> of a hasher fed with the listed values; \<open>tracks_map\<close> adds on \<open>u64\<close>.\<close>

definition peer_map :: "('w, 'fb) externals \<Rightarrow> nat \<Rightarrow> peer_id \<Rightarrow> nat" where
  "peer_map x room peer = x_hash x [HashU64 room, HashStr peer]"

definition peers_map :: "nat \<Rightarrow> nat" where
  "peers_map room = room"

definition peers_key :: "('w, 'fb) externals \<Rightarrow> peer_id \<Rightarrow> nat" where
  "peers_key x peer = x_hash x [HashStr peer]"

definition tracks_map :: "nat \<Rightarrow> nat" where
  "tracks_map room = (room + 1) mod 2 ^ 64"

definition tracks_key :: "('w, 'fb) externals \<Rightarrow> peer_id \<Rightarrow> track_name \<Rightarrow> nat" where
  "tracks_key x peer track = x_hash x [HashStr peer, HashStr track]"

definition gen_track_channel_id :: "('w, 'fb) externals \<Rightarrow> nat \<Rightarrow> peer_id \<Rightarrow> track_name \<Rightarrow> nat" where
  "gen_track_channel_id x room peer track = x_hash x [HashU64 room, HashStr peer, HashStr track]"

definition gen_msg_channel_id :: "('w, 'fb) externals \<Rightarrow> nat \<Rightarrow> channel_label \<Rightarrow> nat" where
  "gen_msg_channel_id x room label = x_hash x [HashU64 room, HashStr label, HashStr ''message_channel'']"

definition gen_mixer_auto_channel_id :: "('w, 'fb) externals \<Rightarrow> nat \<Rightarrow> nat" where
  "gen_mixer_auto_channel_id x room = x_hash x [HashU64 room, HashStr ''mixer_auto'']"

definition peer_hash_code :: "('w, 'fb) externals \<Rightarrow> peer_id \<Rightarrow> nat" where
  "peer_hash_code x peer = x_hash x [HashStr peer]"

section \<open>An instance of the external parts\<close>

datatype demo_wire = WMedia media_packet | WMsg message_channel_packet | WMix audio_mixer_pkt
  | WPeer peer_info | WTrack track_info

fun demo_hash :: "hash_item list \<Rightarrow> nat" where
  "demo_hash [] = 7"
| "demo_hash (HashU64 n # is) = (n + 31 * demo_hash is) mod 2 ^ 64"
| "demo_hash (HashStr s # is) = (length s + 1000 + 31 * demo_hash is) mod 2 ^ 64"

definition demo_ext :: "(demo_wire, nat \<times> nat) externals" where
  "demo_ext = \<lparr>x_hash = demo_hash, x_media_ser = WMedia,
     x_media_deser = (\<lambda>w. case w of WMedia p \<Rightarrow> Some p | _ \<Rightarrow> None), x_msg_ser = WMsg,
     x_msg_deser = (\<lambda>w. case w of WMsg p \<Rightarrow> Some p | _ \<Rightarrow> None), x_mix_ser = WMix,
     x_mix_deser = (\<lambda>w. case w of WMix p \<Rightarrow> Some p | _ \<Rightarrow> None), x_peer_ser = WPeer,
     x_peer_deser = (\<lambda>w. case w of WPeer p \<Rightarrow> Some p | _ \<Rightarrow> None), x_track_ser = WTrack,
     x_track_deser = (\<lambda>w. case w of WTrack p \<Rightarrow> Some p | _ \<Rightarrow> None),
     x_fb_simple = (\<lambda>k v i t. (k, v)), x_fb_add = (\<lambda>a b. (fst a, snd a + snd b)),
     x_fb_kind = fst, x_fb_min = snd, x_fb_max = snd\<rparr>"

lemma demo_ext_codec: "codec_ok demo_ext"
  by (simp add: codec_ok_def demo_ext_def)

section \<open>Colliding identifiers\<close>

text \<open>The identifiers of media tracks, message channels and key-value maps are not kept apart: a track
  named \<open>message_channel\<close> of the peer \<open>p\<close> has the channel of the message channel labelled \<open>p\<close>, and the
  tracks map of a room is the peers map of the room with the next hash.\<close>

theorem identifiers_collide:
  "gen_track_channel_id x room p ''message_channel'' = gen_msg_channel_id x room p \<and>
   tracks_map room = peers_map ((room + 1) mod 2 ^ 64)"
  by (simp add: gen_track_channel_id_def gen_msg_channel_id_def tracks_map_def peers_map_def)

end
