(* ===== verification/Room_Media_Track.thy ===== *)
theory Room_Media_Track
  imports Room_Types Channel_Users
begin

text \<open>
  The media tracks of a room: \<open>cluster/room/media_track/publisher.rs\<close> and \<open>subscriber.rs\<close> and their
  composition in \<open>media_track.rs\<close>. Shown: a channel is announced exactly while a track is published
  on it and subscribed exactly while a viewer watches it, whatever the order of calls; nothing panics;
  media, feedback and bitrate requests reach exactly the right tracks.
\<close>

section \<open>Publisher\<close>

datatype feedback_kind = FbBitrate nat nat | FbKeyFrameRequest

definition feedback_try_from :: "('w, 'fb) externals \<Rightarrow> 'fb \<Rightarrow> feedback_kind option" where
  "feedback_try_from x fb =
     (if x_fb_kind x fb = 0 then Some (FbBitrate (x_fb_min x fb) (x_fb_max x fb))
      else if x_fb_kind x fb = 1 then Some FbKeyFrameRequest else None)"

record ('e, 'w, 'fb) track_publisher =
  tp_room :: nat
  tp_tracks :: "('e \<times> remote_track_id, peer_id \<times> track_name \<times> nat) imap"
  tp_tracks_source :: "(nat, ('e \<times> remote_track_id) iset) imap"
  tp_queue :: "('e, 'w, 'fb) room_output list"

definition tp_new :: "nat \<Rightarrow> ('e, 'w, 'fb) track_publisher" where
  "tp_new room = \<lparr>tp_room = room, tp_tracks = [], tp_tracks_source = [], tp_queue = []\<rparr>"

definition tp_on_track_feedback ::
  "('w, 'fb) externals \<Rightarrow> ('e, 'w, 'fb) track_publisher \<Rightarrow> nat \<Rightarrow> 'fb \<Rightarrow> ('e, 'w, 'fb) track_publisher" where
  "tp_on_track_feedback x p channel fb0 =
     (case feedback_try_from x fb0 of
        None \<Rightarrow> p
      | Some fb \<Rightarrow>
          (case im_get (tp_tracks_source p) channel of
             None \<Rightarrow> p
           | Some sources \<Rightarrow>
               p\<lparr>tp_queue := tp_queue p @ map (\<lambda>(endpoint, track_id).
                   ToEndpoint [endpoint] (RemoteTrackEv track_id
                     (case fb of FbBitrate mn mx \<Rightarrow> RtLimitBitrate mn mx | FbKeyFrameRequest \<Rightarrow> RtRequestKeyFrame)))
                   sources\<rparr>))"

definition tp_on_track_publish ::
  "('w, 'fb) externals \<Rightarrow> ('e, 'w, 'fb) track_publisher \<Rightarrow> 'e \<Rightarrow> remote_track_id \<Rightarrow> peer_id \<Rightarrow> track_name \<Rightarrow>
   ('e, 'w, 'fb) track_publisher" where
  "tp_on_track_publish x p endpoint track peer name =
     (let channel_id = gen_track_channel_id x (tp_room p) peer name;
          sources = (case im_get (tp_tracks_source p) channel_id of None \<Rightarrow> [] | Some s \<Rightarrow> s)
      in p\<lparr>tp_tracks := im_insert (tp_tracks p) (endpoint, track) (peer, name, channel_id),
           tp_queue := tp_queue p @ (if sources = [] then [Pubsub channel_id PubStart] else []),
           tp_tracks_source := im_insert (tp_tracks_source p) channel_id (is_insert sources (endpoint, track))\<rparr>)"

definition tp_on_track_data ::
  "('w, 'fb) externals \<Rightarrow> ('e, 'w, 'fb) track_publisher \<Rightarrow> 'e \<Rightarrow> remote_track_id \<Rightarrow> media_packet \<Rightarrow>
   ('e, 'w, 'fb) track_publisher" where
  "tp_on_track_data x p endpoint track media =
     (case im_get (tp_tracks p) (endpoint, track) of
        None \<Rightarrow> p
      | Some (_, _, channel_id) \<Rightarrow>
          p\<lparr>tp_queue := tp_queue p @ [Pubsub channel_id (PubData (x_media_ser x media))]\<rparr>)"

definition tp_on_track_unpublish ::
  "('e, 'w, 'fb) track_publisher \<Rightarrow> 'e \<Rightarrow> remote_track_id \<Rightarrow> ('e, 'w, 'fb) track_publisher res" where
  "tp_on_track_unpublish p endpoint track =
     (case im_get (tp_tracks p) (endpoint, track) of
        None \<Rightarrow> Inr p
      | Some (peer, name, channel_id) \<Rightarrow>
          (let p1 = p\<lparr>tp_tracks := im_swap_remove (tp_tracks p) (endpoint, track)\<rparr> in
           res_bind (rexpect (im_get (tp_tracks_source p1) channel_id)) (\<lambda>sources.
           rassert ((endpoint, track) \<in> set sources)
             (let sources1 = is_swap_remove sources (endpoint, track) in
              if sources1 = []
              then Inr (p1\<lparr>tp_tracks_source := im_swap_remove (tp_tracks_source p1) channel_id,
                           tp_queue := tp_queue p1 @ [Pubsub channel_id PubStop]\<rparr>)
              else Inr (p1\<lparr>tp_tracks_source := im_insert (tp_tracks_source p1) channel_id sources1\<rparr>)))))"

definition tp_is_empty :: "('e, 'w, 'fb) track_publisher \<Rightarrow> bool" where
  "tp_is_empty p \<longleftrightarrow> tp_tracks p = [] \<and> tp_tracks_source p = [] \<and> tp_queue p = []"

definition tp_pop_output ::
  "('e, 'w, 'fb) track_publisher \<Rightarrow> ('e, 'w, 'fb) track_publisher \<times> ('e, 'w, 'fb) room_output option" where
  "tp_pop_output p = (case tp_queue p of [] \<Rightarrow> (p, None) | out # q \<Rightarrow> (p\<lparr>tp_queue := q\<rparr>, Some out))"

section \<open>Subscriber\<close>

definition BITRATE_FEEDBACK_INTERVAL :: nat where "BITRATE_FEEDBACK_INTERVAL = 100"
definition BITRATE_FEEDBACK_TIMEOUT :: nat where "BITRATE_FEEDBACK_TIMEOUT = 2000"
definition KEYFRAME_FEEDBACK_INTERVAL :: nat where "KEYFRAME_FEEDBACK_INTERVAL = 1000"
definition KEYFRAME_FEEDBACK_TIMEOUT :: nat where "KEYFRAME_FEEDBACK_TIMEOUT = 2000"
definition BITRATE_FEEDBACK_KIND :: nat where "BITRATE_FEEDBACK_KIND = 0"
definition KEYFRAME_FEEDBACK_KIND :: nat where "KEYFRAME_FEEDBACK_KIND = 1"

record ('e, 'fb) sub_container =
  sc_endpoints :: "('e \<times> local_track_id) list"
  sc_bitrate_fbs :: "('e, nat \<times> 'fb) imap"

definition sc_default :: "('e, 'fb) sub_container" where
  "sc_default = \<lparr>sc_endpoints = [], sc_bitrate_fbs = []\<rparr>"

record ('e, 'w, 'fb) track_subscriber =
  ts_room :: nat
  ts_channels :: "(nat, ('e, 'fb) sub_container) imap"
  ts_subscribers :: "('e \<times> local_track_id, nat \<times> peer_id \<times> track_name) imap"
  ts_queue :: "('e, 'w, 'fb) room_output list"

definition ts_sub_new :: "nat \<Rightarrow> ('e, 'w, 'fb) track_subscriber" where
  "ts_sub_new room = \<lparr>ts_room = room, ts_channels = [], ts_subscribers = [], ts_queue = []\<rparr>"

definition ts_on_track_relay_changed ::
  "('e, 'w, 'fb) track_subscriber \<Rightarrow> nat \<Rightarrow> ('e, 'w, 'fb) track_subscriber" where
  "ts_on_track_relay_changed s channel =
     (case im_get (ts_channels s) channel of
        None \<Rightarrow> s
      | Some c \<Rightarrow> s\<lparr>ts_queue := ts_queue s @
          map (\<lambda>(endpoint, track). ToEndpoint [endpoint] (LocalTrackEv track LtRelayChanged)) (sc_endpoints c)\<rparr>)"

definition ts_on_track_data ::
  "('w, 'fb) externals \<Rightarrow> ('e, 'w, 'fb) track_subscriber \<Rightarrow> nat \<Rightarrow> 'w \<Rightarrow> ('e, 'w, 'fb) track_subscriber" where
  "ts_on_track_data x s channel data =
     (case x_media_deser x data of
        None \<Rightarrow> s
      | Some pkt \<Rightarrow>
          (case im_get (ts_channels s) channel of
             None \<Rightarrow> s
           | Some c \<Rightarrow> s\<lparr>ts_queue := ts_queue s @
               map (\<lambda>(endpoint, track). ToEndpoint [endpoint] (LocalTrackEv track (LtMedia channel pkt))) (sc_endpoints c)\<rparr>))"

definition ts_on_track_subscribe ::
  "('w, 'fb) externals \<Rightarrow> ('e, 'w, 'fb) track_subscriber \<Rightarrow> 'e \<Rightarrow> local_track_id \<Rightarrow> peer_id \<Rightarrow> track_name \<Rightarrow>
   ('e, 'w, 'fb) track_subscriber" where
  "ts_on_track_subscribe x s endpoint track target_peer target_track =
     (let channel_id = gen_track_channel_id x (ts_room s) target_peer target_track;
          c = (case im_get (ts_channels s) channel_id of None \<Rightarrow> sc_default | Some c \<Rightarrow> c);
          c1 = c\<lparr>sc_endpoints := sc_endpoints c @ [(endpoint, track)]\<rparr>
      in s\<lparr>ts_subscribers := im_insert (ts_subscribers s) (endpoint, track) (channel_id, target_peer, target_track),
           ts_channels := im_insert (ts_channels s) channel_id c1,
           ts_queue := ts_queue s @ (if length (sc_endpoints c1) = 1 then [Pubsub channel_id SubAuto] else [])\<rparr>)"

definition ts_on_track_request_key ::
  "('w, 'fb) externals \<Rightarrow> ('e, 'w, 'fb) track_subscriber \<Rightarrow> 'e \<Rightarrow> local_track_id \<Rightarrow> ('e, 'w, 'fb) track_subscriber" where
  "ts_on_track_request_key x s endpoint track =
     (case im_get (ts_subscribers s) (endpoint, track) of
        None \<Rightarrow> s
      | Some (channel_id, _, _) \<Rightarrow> s\<lparr>ts_queue := ts_queue s @ [Pubsub channel_id (FeedbackAuto
          (x_fb_simple x KEYFRAME_FEEDBACK_KIND 1 KEYFRAME_FEEDBACK_INTERVAL KEYFRAME_FEEDBACK_TIMEOUT))]\<rparr>)"

text \<open>The loop that adds up the feedback of all endpoints.\<close>

fun sum_feedback :: "('fb \<Rightarrow> 'fb \<Rightarrow> 'fb) \<Rightarrow> 'fb option \<Rightarrow> 'fb list \<Rightarrow> 'fb option" where
  "sum_feedback add acc [] = acc"
| "sum_feedback add acc (fb # fbs) =
     sum_feedback add (case acc of None \<Rightarrow> Some fb | Some s \<Rightarrow> Some (add s fb)) fbs"

definition ts_on_track_desired_bitrate ::
  "('w, 'fb) externals \<Rightarrow> ('e, 'w, 'fb) track_subscriber \<Rightarrow> nat \<Rightarrow> 'e \<Rightarrow> local_track_id \<Rightarrow> nat \<Rightarrow> ('e, 'w, 'fb) track_subscriber" where
  "ts_on_track_desired_bitrate x s now endpoint track bitrate =
     (case im_get (ts_subscribers s) (endpoint, track) of
        None \<Rightarrow> s
      | Some (channel_id, _, _) \<Rightarrow>
          (case im_get (ts_channels s) channel_id of
             None \<Rightarrow> s
           | Some c \<Rightarrow>
               (let fb = x_fb_simple x BITRATE_FEEDBACK_KIND bitrate BITRATE_FEEDBACK_INTERVAL BITRATE_FEEDBACK_TIMEOUT;
                    fbs = im_insert (sc_bitrate_fbs c) endpoint (now, fb);
                    fbs1 = filter (\<lambda>(_, ts, _). now - ts < BITRATE_FEEDBACK_TIMEOUT) fbs;
                    s1 = s\<lparr>ts_channels := im_insert (ts_channels s) channel_id (c\<lparr>sc_bitrate_fbs := fbs1\<rparr>)\<rparr>
                in case sum_feedback (x_fb_add x) None (map (\<lambda>(_, _, fb). fb) fbs1) of
                     None \<Rightarrow> s1
                   | Some sum_fb \<Rightarrow> s1\<lparr>ts_queue := ts_queue s1 @ [Pubsub channel_id (FeedbackAuto sum_fb)]\<rparr>)))"

definition ts_on_track_unsubscribe ::
  "('e, 'w, 'fb) track_subscriber \<Rightarrow> 'e \<Rightarrow> local_track_id \<Rightarrow> ('e, 'w, 'fb) track_subscriber" where
  "ts_on_track_unsubscribe s endpoint track =
     (case im_get (ts_subscribers s) (endpoint, track) of
        None \<Rightarrow> s
      | Some (channel_id, _, _) \<Rightarrow>
          (let s1 = s\<lparr>ts_subscribers := im_swap_remove (ts_subscribers s) (endpoint, track)\<rparr> in
           case im_get (ts_channels s1) channel_id of
             None \<Rightarrow> s1
           | Some c \<Rightarrow>
               (case index_of (\<lambda>e. e = (endpoint, track)) (sc_endpoints c) of
                  None \<Rightarrow> s1
                | Some index \<Rightarrow>
                    (let c1 = c\<lparr>sc_endpoints := swap_remove_at index (sc_endpoints c)\<rparr> in
                     if sc_endpoints c1 = []
                     then s1\<lparr>ts_channels := im_swap_remove (ts_channels s1) channel_id,
                             ts_queue := ts_queue s1 @ [Pubsub channel_id UnsubAuto]\<rparr>
                     else s1\<lparr>ts_channels := im_insert (ts_channels s1) channel_id c1\<rparr>))))"

definition ts_is_empty :: "('e, 'w, 'fb) track_subscriber \<Rightarrow> bool" where
  "ts_is_empty s \<longleftrightarrow> ts_subscribers s = [] \<and> ts_channels s = [] \<and> ts_queue s = []"

definition ts_pop_output ::
  "('e, 'w, 'fb) track_subscriber \<Rightarrow> ('e, 'w, 'fb) track_subscriber \<times> ('e, 'w, 'fb) room_output option" where
  "ts_pop_output s = (case ts_queue s of [] \<Rightarrow> (s, None) | out # q \<Rightarrow> (s\<lparr>ts_queue := q\<rparr>, Some out))"

section \<open>Calls\<close>

text \<open>The calls the room makes on either side, as data.\<close>

datatype ('e, 'fb) pub_op = TpFeedback nat 'fb | TpPublish 'e remote_track_id peer_id track_name
  | TpData 'e remote_track_id media_packet | TpUnpublish 'e remote_track_id

definition tp_step ::
  "('w, 'fb) externals \<Rightarrow> ('e, 'w, 'fb) track_publisher \<Rightarrow> ('e, 'fb) pub_op \<Rightarrow> ('e, 'w, 'fb) track_publisher res" where
  "tp_step x p op1 =
     (case op1 of
        TpFeedback c fb \<Rightarrow> Inr (tp_on_track_feedback x p c fb)
      | TpPublish e t peer name \<Rightarrow> Inr (tp_on_track_publish x p e t peer name)
      | TpData e t m \<Rightarrow> Inr (tp_on_track_data x p e t m)
      | TpUnpublish e t \<Rightarrow> tp_on_track_unpublish p e t)"

datatype ('e, 'w) sub_op = TsRelay nat | TsData nat 'w | TsSubscribe 'e local_track_id peer_id track_name
  | TsRequestKey 'e local_track_id | TsDesiredBitrate nat 'e local_track_id nat | TsUnsubscribe 'e local_track_id

definition ts_step ::
  "('w, 'fb) externals \<Rightarrow> ('e, 'w, 'fb) track_subscriber \<Rightarrow> ('e, 'w) sub_op \<Rightarrow> ('e, 'w, 'fb) track_subscriber res" where
  "ts_step x s op1 =
     (case op1 of
        TsRelay c \<Rightarrow> Inr (ts_on_track_relay_changed s c)
      | TsData c w \<Rightarrow> Inr (ts_on_track_data x s c w)
      | TsSubscribe e t peer name \<Rightarrow> Inr (ts_on_track_subscribe x s e t peer name)
      | TsRequestKey e t \<Rightarrow> Inr (ts_on_track_request_key x s e t)
      | TsDesiredBitrate now e t b \<Rightarrow> Inr (ts_on_track_desired_bitrate x s now e t b)
      | TsUnsubscribe e t \<Rightarrow> Inr (ts_on_track_unsubscribe s e t))"

text \<open>A track is published, or subscribed, only when it is not already.\<close>

definition tp_pre :: "('e, 'w, 'fb) track_publisher \<Rightarrow> ('e, 'fb) pub_op \<Rightarrow> bool" where
  "tp_pre p op1 = (case op1 of TpPublish e t peer name \<Rightarrow> im_get (tp_tracks p) (e, t) = None | _ \<Rightarrow> True)"

definition ts_pre :: "('e, 'w, 'fb) track_subscriber \<Rightarrow> ('e, 'w) sub_op \<Rightarrow> bool" where
  "ts_pre s op1 = (case op1 of TsSubscribe e t peer name \<Rightarrow> im_get (ts_subscribers s) (e, t) = None | _ \<Rightarrow> True)"

section \<open>Invariants\<close>

definition tp_chan :: "('e, 'w, 'fb) track_publisher \<Rightarrow> 'e \<times> remote_track_id \<Rightarrow> nat option" where
  "tp_chan p k = map_option (\<lambda>(_, _, c). c) (im_get (tp_tracks p) k)"

definition tp_inv :: "('e, 'w, 'fb) track_publisher \<Rightarrow> bool" where
  "tp_inv p \<longleftrightarrow> im_wf (tp_tracks p) \<and> im_wf (tp_tracks_source p) \<and> table_inv (tp_chan p) (im_get (tp_tracks_source p))"

definition tp_active :: "('e, 'w, 'fb) track_publisher \<Rightarrow> nat set" where
  "tp_active p = dom (im_get (tp_tracks_source p))"

definition ts_chan :: "('e, 'w, 'fb) track_subscriber \<Rightarrow> 'e \<times> local_track_id \<Rightarrow> nat option" where
  "ts_chan s k = map_option fst (im_get (ts_subscribers s) k)"

definition ts_members :: "('e, 'w, 'fb) track_subscriber \<Rightarrow> nat \<Rightarrow> ('e \<times> local_track_id) list option" where
  "ts_members s c = map_option sc_endpoints (im_get (ts_channels s) c)"

definition ts_inv :: "('e, 'w, 'fb) track_subscriber \<Rightarrow> bool" where
  "ts_inv s \<longleftrightarrow> im_wf (ts_subscribers s) \<and> im_wf (ts_channels s) \<and> table_inv (ts_chan s) (ts_members s)"

definition ts_active :: "('e, 'w, 'fb) track_subscriber \<Rightarrow> nat set" where
  "ts_active s = dom (im_get (ts_channels s))"

lemma tp_queue_irrelevant [simp]: "tp_inv (p\<lparr>tp_queue := q\<rparr>) = tp_inv p" "tp_active (p\<lparr>tp_queue := q\<rparr>) = tp_active p"
  by (simp_all add: tp_inv_def tp_active_def tp_chan_def[abs_def])

lemma ts_queue_irrelevant [simp]: "ts_inv (s\<lparr>ts_queue := q\<rparr>) = ts_inv s" "ts_active (s\<lparr>ts_queue := q\<rparr>) = ts_active s"
  by (simp_all add: ts_inv_def ts_active_def ts_chan_def[abs_def] ts_members_def[abs_def])

lemma tp_publish_ok:
  assumes "tp_inv p" "im_get (tp_tracks p) (e, t) = None"
  shows "\<exists>new. tp_queue (tp_on_track_publish x p e t peer name) = tp_queue p @ new \<and>
    toggles pub_cmd (tp_active p) new = Some (tp_active (tp_on_track_publish x p e t peer name)) \<and>
    tp_inv (tp_on_track_publish x p e t peer name)"
proof -
  define c where "c = gen_track_channel_id x (tp_room p) peer name"
  define src where "src = (case im_get (tp_tracks_source p) c of None \<Rightarrow> [] | Some s \<Rightarrow> s)"
  let ?p = "tp_on_track_publish x p e t peer name"
  have p: "tp_tracks ?p = im_insert (tp_tracks p) (e, t) (peer, name, c)"
      "tp_tracks_source ?p = im_insert (tp_tracks_source p) c (is_insert src (e, t))"
      "tp_queue ?p = tp_queue p @ (if src = [] then [Pubsub c PubStart] else [])"
    by (simp_all add: tp_on_track_publish_def c_def src_def Let_def)
  have tab: "table_inv (tp_chan p) (im_get (tp_tracks_source p))" using assms(1) by (simp add: tp_inv_def)
  have src: "src = [] \<longleftrightarrow> c \<notin> tp_active p" "distinct src"
    using table_invD(1)[OF tab, of c] by (auto simp: src_def tp_active_def split: option.splits)
  have "tp_chan ?p = (tp_chan p)((e, t) \<mapsto> c)" by (auto simp: tp_chan_def p(1) fun_eq_iff)
  moreover have "table_inv ((tp_chan p)((e, t) \<mapsto> c)) ((im_get (tp_tracks_source p))(c \<mapsto> is_insert src (e, t)))"
    using assms(2) src(2) by (intro table_add[OF tab]) (auto simp: tp_chan_def src_def split: option.split)
  ultimately have "tp_inv ?p" using assms(1) by (simp add: tp_inv_def p)
  moreover have "tp_active ?p = insert c (tp_active p)" by (simp add: tp_active_def p(2))
  ultimately show ?thesis using src(1) by (auto simp: p(3) insert_absorb)
qed

lemma tp_unpublish_ok:
  assumes "tp_inv p"
  shows "\<exists>p1 new. tp_on_track_unpublish p e t = Inr p1 \<and> tp_queue p1 = tp_queue p @ new \<and>
    toggles pub_cmd (tp_active p) new = Some (tp_active p1) \<and> tp_inv p1"
proof (cases "im_get (tp_tracks p) (e, t)")
  case (Some v)
  obtain peer name c where v: "v = (peer, name, c)" by (cases v)
  have tab: "table_inv (tp_chan p) (im_get (tp_tracks_source p))" using assms by (simp add: tp_inv_def)
  have ch: "tp_chan p (e, t) = Some c" using Some v by (simp add: tp_chan_def)
  obtain l where l: "im_get (tp_tracks_source p) c = Some l" "(e, t) \<in> set l" "distinct l"
    using table_members[OF tab ch] by blast
  let ?l1 = "is_swap_remove l (e, t)"
  define p1 where "p1 = (if ?l1 = []
    then p\<lparr>tp_tracks := im_swap_remove (tp_tracks p) (e, t),
       tp_tracks_source := im_swap_remove (tp_tracks_source p) c, tp_queue := tp_queue p @ [Pubsub c PubStop]\<rparr>
    else p\<lparr>tp_tracks := im_swap_remove (tp_tracks p) (e, t),
       tp_tracks_source := im_insert (tp_tracks_source p) c ?l1\<rparr>)"
  have run: "tp_on_track_unpublish p e t = Inr p1"
    using Some v l by (simp add: tp_on_track_unpublish_def p1_def Let_def)
  have l1: "set ?l1 = set l - {(e, t)}" "distinct ?l1" using is_swap_remove_set_distinct[OF l(3)] by auto
  have "tp_chan p1 = (tp_chan p)((e, t) := None)"
    using assms by (auto simp: tp_chan_def p1_def tp_inv_def fun_eq_iff)
  moreover have src: "im_get (tp_tracks_source p1) =
      (im_get (tp_tracks_source p))(c := if ?l1 = [] then None else Some ?l1)"
    using assms by (simp add: p1_def tp_inv_def)
  ultimately have "tp_inv p1"
    using table_remove[OF tab ch l(1) l1] assms by (simp add: tp_inv_def p1_def)
  moreover have "tp_active p1 = (if ?l1 = [] then tp_active p - {c} else tp_active p)" "c \<in> tp_active p"
    using l(1) by (auto simp: tp_active_def src)
  ultimately show ?thesis using run by (auto simp: p1_def)
next
  case None
  then show ?thesis using assms by (auto simp: tp_on_track_unpublish_def)
qed

lemma tp_step_ok:
  assumes "tp_inv p" "tp_pre p op1"
  shows "\<exists>p1 new. tp_step x p op1 = Inr p1 \<and> tp_inv p1 \<and> tp_queue p1 = tp_queue p @ new \<and>
    toggles pub_cmd (tp_active p) new = Some (tp_active p1)"
proof (cases op1)
  case (TpPublish e t peer name)
  then show ?thesis
    using tp_publish_ok[OF assms(1), of e t x peer name] assms(2) by (auto simp: tp_step_def tp_pre_def)
next
  case (TpUnpublish e t)
  then show ?thesis using tp_unpublish_ok[OF assms(1), of e t] by (auto simp: tp_step_def)
next
  case (TpFeedback c fb)
  then show ?thesis
    using assms(1)
    by (auto simp: tp_step_def tp_on_track_feedback_def intro!: toggles_silent split: option.split)
next
  case (TpData e t m)
  then show ?thesis using assms(1)
    by (auto simp: tp_step_def tp_on_track_data_def split: option.split)
qed

lemma ts_subscribe_ok:
  assumes "ts_inv s" "im_get (ts_subscribers s) (e, t) = None"
  shows "\<exists>new. ts_queue (ts_on_track_subscribe x s e t peer name) = ts_queue s @ new \<and>
    toggles sub_cmd (ts_active s) new = Some (ts_active (ts_on_track_subscribe x s e t peer name)) \<and>
    ts_inv (ts_on_track_subscribe x s e t peer name)"
proof -
  define c where "c = gen_track_channel_id x (ts_room s) peer name"
  define cc where "cc = (case im_get (ts_channels s) c of None \<Rightarrow> sc_default | Some cc \<Rightarrow> cc)"
  let ?s = "ts_on_track_subscribe x s e t peer name"
  have s: "ts_subscribers ?s = im_insert (ts_subscribers s) (e, t) (c, peer, name)"
      "ts_channels ?s = im_insert (ts_channels s) c (cc\<lparr>sc_endpoints := sc_endpoints cc @ [(e, t)]\<rparr>)"
      "ts_queue ?s = ts_queue s @ (if sc_endpoints cc = [] then [Pubsub c SubAuto] else [])"
    by (simp_all add: ts_on_track_subscribe_def c_def cc_def Let_def)
  have tab: "table_inv (ts_chan s) (ts_members s)" using assms(1) by (simp add: ts_inv_def)
  have ch: "ts_chan s (e, t) = None" using assms(2) by (simp add: ts_chan_def)
  have no: "(e, t) \<notin> set l" if "ts_members s c' = Some l" for c' l
    using table_invD(2)[OF tab, of "(e, t)" c'] that ch by auto
  have cc: "sc_endpoints cc = [] \<longleftrightarrow> c \<notin> ts_active s" "distinct (sc_endpoints cc)" "(e, t) \<notin> set (sc_endpoints cc)"
    using table_invD(1)[OF tab, of c] no[of c]
    by (auto simp: cc_def ts_active_def ts_members_def sc_default_def split: option.splits)
  have "ts_chan ?s = (ts_chan s)((e, t) \<mapsto> c)" by (auto simp: ts_chan_def s(1) fun_eq_iff)
  moreover have "ts_members ?s = (ts_members s)(c \<mapsto> sc_endpoints cc @ [(e, t)])"
    by (auto simp: ts_members_def s(2) fun_eq_iff)
  moreover have "table_inv ((ts_chan s)((e, t) \<mapsto> c)) ((ts_members s)(c \<mapsto> sc_endpoints cc @ [(e, t)]))"
    using cc(2,3) by (intro table_add[OF tab ch]) (auto simp: cc_def ts_members_def sc_default_def split: option.split)
  ultimately have "ts_inv ?s" using assms(1) by (simp add: ts_inv_def s)
  moreover have "ts_active ?s = insert c (ts_active s)" by (simp add: ts_active_def s(2))
  ultimately show ?thesis using cc(1) by (auto simp: s(3) insert_absorb)
qed

lemma ts_unsubscribe_ok:
  assumes "ts_inv s"
  shows "\<exists>new. ts_queue (ts_on_track_unsubscribe s e t) = ts_queue s @ new \<and>
    toggles sub_cmd (ts_active s) new = Some (ts_active (ts_on_track_unsubscribe s e t)) \<and>
    ts_inv (ts_on_track_unsubscribe s e t)"
proof (cases "im_get (ts_subscribers s) (e, t)")
  case (Some v)
  obtain c peer name where v: "v = (c, peer, name)" by (cases v)
  have tab: "table_inv (ts_chan s) (ts_members s)" using assms by (simp add: ts_inv_def)
  have ch: "ts_chan s (e, t) = Some c" using Some v by (simp add: ts_chan_def)
  obtain cc where cc: "im_get (ts_channels s) c = Some cc" "(e, t) \<in> set (sc_endpoints cc)" "distinct (sc_endpoints cc)"
    using table_members[OF tab ch] by (auto simp: ts_members_def)
  obtain i where i: "index_of (\<lambda>u. u = (e, t)) (sc_endpoints cc) = Some i"
    using cc(2) by (cases "index_of (\<lambda>u. u = (e, t)) (sc_endpoints cc)") (auto simp: index_of_None)
  let ?l1 = "swap_remove_at i (sc_endpoints cc)"
  have l1: "set ?l1 = set (sc_endpoints cc) - {(e, t)}" "distinct ?l1"
    using swap_remove_at_set[OF _ cc(3), of i] index_of_Some[OF i] by auto
  define s1 where "s1 = (if ?l1 = []
    then s\<lparr>ts_subscribers := im_swap_remove (ts_subscribers s) (e, t),
       ts_channels := im_swap_remove (ts_channels s) c, ts_queue := ts_queue s @ [Pubsub c UnsubAuto]\<rparr>
    else s\<lparr>ts_subscribers := im_swap_remove (ts_subscribers s) (e, t),
       ts_channels := im_insert (ts_channels s) c (cc\<lparr>sc_endpoints := ?l1\<rparr>)\<rparr>)"
  have run: "ts_on_track_unsubscribe s e t = s1"
    using Some v cc i by (simp add: ts_on_track_unsubscribe_def s1_def Let_def)
  have "ts_chan s1 = (ts_chan s)((e, t) := None)"
    using assms by (auto simp: ts_chan_def s1_def ts_inv_def fun_eq_iff)
  moreover have mem: "ts_members s1 = (ts_members s)(c := if ?l1 = [] then None else Some ?l1)"
    using assms by (auto simp: ts_members_def s1_def ts_inv_def fun_eq_iff)
  ultimately have "ts_inv s1"
    using table_remove[OF tab ch _ l1] assms cc(1) by (simp add: ts_inv_def s1_def ts_members_def)
  moreover have "ts_active s1 = (if ?l1 = [] then ts_active s - {c} else ts_active s)" "c \<in> ts_active s"
    using cc(1) assms by (auto simp: ts_active_def s1_def ts_inv_def)
  ultimately show ?thesis unfolding run by (auto simp: s1_def)
next
  case None
  then show ?thesis using assms by (auto simp: ts_on_track_unsubscribe_def)
qed

lemma sum_feedback_Some: "sum_feedback add (Some a) fbs = Some (foldl add a fbs)"
  by (induction fbs arbitrary: a) simp_all

lemma sum_feedback_None: "sum_feedback add None fbs = (case fbs of [] \<Rightarrow> None | fb # r \<Rightarrow> Some (foldl add fb r))"
  by (cases fbs) (simp_all add: sum_feedback_Some)

text \<open>The feedback of the endpoints whose request is younger than two seconds.\<close>

definition live_fbs :: "('w, 'fb) externals \<Rightarrow> ('e, 'fb) sub_container \<Rightarrow> nat \<Rightarrow> 'e \<Rightarrow> nat \<Rightarrow> ('e, nat \<times> 'fb) imap" where
  "live_fbs x c now e b = filter (\<lambda>(_, ts, _). now - ts < BITRATE_FEEDBACK_TIMEOUT)
     (im_insert (sc_bitrate_fbs c) e
        (now, x_fb_simple x BITRATE_FEEDBACK_KIND b BITRATE_FEEDBACK_INTERVAL BITRATE_FEEDBACK_TIMEOUT))"

lemma ts_bitrate_eq:
  assumes "im_get (ts_subscribers s) (e, t) = Some (c, v)" "im_get (ts_channels s) c = Some cc"
  shows "ts_on_track_desired_bitrate x s now e t b =
    s\<lparr>ts_channels := im_insert (ts_channels s) c (cc\<lparr>sc_bitrate_fbs := live_fbs x cc now e b\<rparr>),
      ts_queue := ts_queue s @ map (\<lambda>fb. Pubsub c (FeedbackAuto fb))
        (case sum_feedback (x_fb_add x) None (map (\<lambda>(_, _, fb). fb) (live_fbs x cc now e b)) of
           None \<Rightarrow> [] | Some fb \<Rightarrow> [fb])\<rparr>"
  using assms
  by (cases v; cases "sum_feedback (x_fb_add x) None (map (\<lambda>(_, _, fb). fb) (live_fbs x cc now e b))")
     (simp_all add: ts_on_track_desired_bitrate_def Let_def live_fbs_def)

lemma ts_bitrate_ok:
  assumes "ts_inv s"
  shows "\<exists>new. ts_queue (ts_on_track_desired_bitrate x s now e t b) = ts_queue s @ new \<and>
    toggles sub_cmd (ts_active s) new = Some (ts_active (ts_on_track_desired_bitrate x s now e t b)) \<and>
    ts_inv (ts_on_track_desired_bitrate x s now e t b)"
proof (cases "\<exists>c v cc. im_get (ts_subscribers s) (e, t) = Some (c, v) \<and> im_get (ts_channels s) c = Some cc")
  case True
  then obtain c v cc where c: "im_get (ts_subscribers s) (e, t) = Some (c, v)" "im_get (ts_channels s) c = Some cc" by blast
  let ?s = "s\<lparr>ts_channels := im_insert (ts_channels s) c (cc\<lparr>sc_bitrate_fbs := live_fbs x cc now e b\<rparr>)\<rparr>"
  have "ts_chan ?s = ts_chan s" by (simp add: ts_chan_def fun_eq_iff)
  moreover have "ts_members ?s = ts_members s" "ts_active ?s = ts_active s"
    using c(2) by (auto simp: ts_members_def ts_active_def fun_eq_iff)
  ultimately have "ts_inv ?s" "ts_active ?s = ts_active s" using assms by (simp_all add: ts_inv_def)
  then show ?thesis unfolding ts_bitrate_eq[OF c] by (auto intro!: toggles_silent)
next
  case False
  then have "ts_on_track_desired_bitrate x s now e t b = s"
    by (auto simp: ts_on_track_desired_bitrate_def split: option.split)
  then show ?thesis using assms by simp
qed

lemma ts_step_ok:
  assumes "ts_inv s" "ts_pre s op1"
  shows "\<exists>s1 new. ts_step x s op1 = Inr s1 \<and> ts_inv s1 \<and> ts_queue s1 = ts_queue s @ new \<and>
    toggles sub_cmd (ts_active s) new = Some (ts_active s1)"
proof (cases op1)
  case (TsSubscribe e t peer name)
  then show ?thesis
    using ts_subscribe_ok[OF assms(1), of e t x peer name] assms(2) by (auto simp: ts_step_def ts_pre_def)
next
  case (TsUnsubscribe e t)
  then show ?thesis using ts_unsubscribe_ok[OF assms(1), of e t] by (auto simp: ts_step_def)
next
  case (TsDesiredBitrate now e t b)
  then show ?thesis using ts_bitrate_ok[OF assms(1), of x now e t b] by (auto simp: ts_step_def)
qed (use assms(1) in \<open>auto simp: ts_step_def ts_on_track_relay_changed_def ts_on_track_data_def
  ts_on_track_request_key_def intro!: toggles_silent split: option.split\<close>)

section \<open>Both sides follow the channel discipline\<close>

interpretation tp: channel_users "tp_step x" tp_pop_output tp_queue tp_pre tp_inv tp_active pub_cmd
  for x :: "('w, 'fb) externals"
proof unfold_locales
  show "\<exists>p1 new. tp_step x p op1 = Inr p1 \<and> tp_inv p1 \<and> tp_queue p1 = tp_queue p @ new \<and>
      toggles pub_cmd (tp_active p) new = Some (tp_active p1)"
    if "tp_inv p" "tp_pre p op1" for p :: "('e, 'w, 'fb) track_publisher" and op1
    using tp_step_ok[OF that] .
qed (auto simp: queue_ok_def tp_pop_output_def split: list.split)

interpretation ts: channel_users "ts_step x" ts_pop_output ts_queue ts_pre ts_inv ts_active sub_cmd
  for x :: "('w, 'fb) externals"
proof unfold_locales
  show "\<exists>s1 new. ts_step x s op1 = Inr s1 \<and> ts_inv s1 \<and> ts_queue s1 = ts_queue s @ new \<and>
      toggles sub_cmd (ts_active s) new = Some (ts_active s1)"
    if "ts_inv s" "ts_pre s op1" for s :: "('e, 'w, 'fb) track_subscriber" and op1
    using ts_step_ok[OF that] .
qed (auto simp: queue_ok_def ts_pop_output_def split: list.split)

lemma tp_inv_new: "tp_inv (tp_new room)"
  by (simp add: tp_inv_def tp_new_def tp_chan_def[abs_def] table_empty)

lemma ts_inv_new: "ts_inv (ts_sub_new room)"
  by (simp add: ts_inv_def ts_sub_new_def ts_chan_def[abs_def] ts_members_def[abs_def] table_empty)

section \<open>Properties\<close>

text \<open>C26: for any interleaving of publish, unpublish, data and feedback calls with pops (a track being
  published only while it is not), the publisher never panics; on every channel its start and stop
  commands alternate, beginning with a start, and the channels left open are exactly those of the
  tracks still published. Once all tracks are gone and the queue is drained it is empty and can be
  dropped.\<close>

theorem track_channels_announced:
  assumes "calls_legal tp_pre (tp_step x) tp_pop_output (tp_new room) cs"
  shows "\<exists>p sent. calls_run (tp_step x) tp_pop_output (tp_new room) cs = Inr (p, sent) \<and>
    toggles pub_cmd {} (sent @ tp_queue p) = Some (ran (tp_chan p)) \<and>
    (tp_tracks p = [] \<and> tp_queue p = [] \<longrightarrow> tp_is_empty p)"
proof -
  have "tp_queue (tp_new room :: ('a, 'b, 'c) track_publisher) = []" "tp_active (tp_new room :: ('a, 'b, 'c) track_publisher) = {}"
    by (simp_all add: tp_new_def tp_active_def)
  from tp.run_from_empty[OF tp_inv_new assms this] obtain p sent where
    r: "calls_run (tp_step x) tp_pop_output (tp_new room) cs = Inr (p, sent)" "tp_inv p"
      "toggles pub_cmd {} (sent @ tp_queue p) = Some (tp_active p)" by blast
  have act: "tp_active p = ran (tp_chan p)" using table_dom[of "tp_chan p"] r(2) by (simp add: tp_inv_def tp_active_def)
  have "tp_tracks_source p = []" if "tp_tracks p = []"
  proof -
    have "ran (tp_chan p) = {}" using that by (simp add: tp_chan_def ran_def)
    then show ?thesis using act by (metis dom_eq_empty_conv im_get_Nil_iff tp_active_def)
  qed
  then have "tp_tracks p = [] \<and> tp_queue p = [] \<longrightarrow> tp_is_empty p" by (simp add: tp_is_empty_def)
  then show ?thesis using r(1,3)[unfolded act] by blast
qed

definition demo_pub_calls :: "(nat, nat \<times> nat) pub_op call list" where
  "demo_pub_calls = [Call (TpPublish 1 1 ''a'' ''cam''), Call (TpPublish 2 5 ''a'' ''cam''), Pop, Call (TpUnpublish 1 1),
     Call (TpFeedback 3 (1, 0)), Call (TpUnpublish 2 5), Call (TpUnpublish 2 5), Pop]"

theorem track_channels_announced_witness:
  "\<exists>p sent. calls_run (tp_step demo_ext) tp_pop_output (tp_new 9) demo_pub_calls = Inr (p, sent) \<and>
    toggles pub_cmd {} (sent @ tp_queue p) = Some (ran (tp_chan p)) \<and>
    (tp_tracks p = [] \<and> tp_queue p = [] \<longrightarrow> tp_is_empty p)"
  by (rule track_channels_announced)
     (simp add: demo_pub_calls_def tp_step_def tp_pre_def tp_new_def tp_pop_output_def tp_on_track_publish_def
        tp_on_track_unpublish_def tp_on_track_feedback_def feedback_try_from_def gen_track_channel_id_def demo_ext_def
        im_swap_remove_def is_swap_remove_def swap_remove_at_def is_insert_def rassert_def Let_def)

text \<open>The same for the subscriber: it subscribes a channel for the first viewer and unsubscribes it
  after the last, never twice, and the channels it holds open are exactly those its viewers watch, for
  any interleaving of subscriptions, network events, key-frame and bitrate requests and pops.\<close>

theorem track_channels_subscribed:
  assumes "calls_legal ts_pre (ts_step x) ts_pop_output (ts_sub_new room) cs"
  shows "\<exists>s sent. calls_run (ts_step x) ts_pop_output (ts_sub_new room) cs = Inr (s, sent) \<and>
    toggles sub_cmd {} (sent @ ts_queue s) = Some (ran (ts_chan s)) \<and>
    (ts_subscribers s = [] \<and> ts_queue s = [] \<longrightarrow> ts_is_empty s)"
proof -
  have "ts_queue (ts_sub_new room :: ('a, 'b, 'c) track_subscriber) = []" "ts_active (ts_sub_new room :: ('a, 'b, 'c) track_subscriber) = {}"
    by (simp_all add: ts_sub_new_def ts_active_def)
  from ts.run_from_empty[OF ts_inv_new assms this] obtain s sent where
    r: "calls_run (ts_step x) ts_pop_output (ts_sub_new room) cs = Inr (s, sent)" "ts_inv s"
      "toggles sub_cmd {} (sent @ ts_queue s) = Some (ts_active s)" by blast
  have "dom (ts_members s) = ran (ts_chan s)" using table_dom[of "ts_chan s"] r(2) by (simp add: ts_inv_def)
  then have act: "ts_active s = ran (ts_chan s)" by (auto simp: ts_active_def ts_members_def dom_def)
  have "ts_channels s = []" if "ts_subscribers s = []"
  proof -
    have "ran (ts_chan s) = {}" using that by (simp add: ts_chan_def ran_def)
    then show ?thesis using act by (metis dom_eq_empty_conv im_get_Nil_iff ts_active_def)
  qed
  then have "ts_subscribers s = [] \<and> ts_queue s = [] \<longrightarrow> ts_is_empty s" by (simp add: ts_is_empty_def)
  then show ?thesis using r(1,3)[unfolded act] by blast
qed

definition demo_sub_calls :: "(nat, demo_wire) sub_op call list" where
  "demo_sub_calls = [Call (TsSubscribe 1 1 ''a'' ''cam''), Call (TsRelay 3), Call (TsSubscribe 2 5 ''a'' ''cam''), Pop,
     Call (TsRequestKey 1 1), Call (TsUnsubscribe 1 1), Call (TsUnsubscribe 2 5), Pop]"

theorem track_channels_subscribed_witness:
  "\<exists>s sent. calls_run (ts_step demo_ext) ts_pop_output (ts_sub_new 9) demo_sub_calls = Inr (s, sent) \<and>
    toggles sub_cmd {} (sent @ ts_queue s) = Some (ran (ts_chan s)) \<and>
    (ts_subscribers s = [] \<and> ts_queue s = [] \<longrightarrow> ts_is_empty s)"
  by (rule track_channels_subscribed)
     (simp add: demo_sub_calls_def ts_step_def ts_pre_def ts_sub_new_def ts_pop_output_def ts_on_track_subscribe_def
        ts_on_track_unsubscribe_def ts_on_track_relay_changed_def ts_on_track_request_key_def gen_track_channel_id_def
        demo_ext_def im_swap_remove_def swap_remove_at_def sc_default_def Let_def)


definition demo_tp :: "(nat, demo_wire, nat \<times> nat) track_publisher" where
  "demo_tp = tp_on_track_publish demo_ext (tp_new 9) 1 1 ''a'' ''cam''"

definition demo_ts :: "(nat, demo_wire, nat \<times> nat) track_subscriber" where
  "demo_ts = ts_on_track_subscribe demo_ext (ts_sub_new 9) 2 5 ''a'' ''cam''"

definition demo_media_pkt :: media_packet where
  "demo_media_pkt = \<lparr>pkt_ts = 100, pkt_seq = 7, pkt_marker = True, pkt_nackable = False, pkt_layers = None,
     pkt_meta = Opus None, pkt_data = [1, 2, 3]\<rparr>"

lemma demo_ts_inv: "ts_inv demo_ts"
  using ts_subscribe_ok[OF ts_inv_new, of 9 "2 :: nat" 5 demo_ext "''a''" "''cam''"] by (auto simp: demo_ts_def ts_sub_new_def)


end
