(* ===== verification/Room_Message_Channel.thy ===== *)
theory Room_Message_Channel
  imports Room_Types Channel_Users
begin

text \<open>
  The message channels of a room: \<open>cluster/room/message_channel/publisher.rs\<close> and \<open>subscriber.rs\<close>.
  Endpoints publish to and subscribe labelled channels, an endpoint any number of them. Shown: the
  network channel is open exactly while a channel has users, also when an endpoint leaves the room
  without saying goodbye to each channel; messages reach exactly the subscribers.
\<close>

section \<open>Publisher\<close>

record 'e msg_pub_container =
  pc_publishers :: "'e iset"

record ('e, 'w, 'fb) msg_publisher =
  mp_room :: nat
  mp_channels :: "(nat, 'e msg_pub_container) imap"
  mp_publishers :: "('e, nat iset) imap"
  mp_queue :: "('e, 'w, 'fb) room_output list"

definition mp_new :: "nat \<Rightarrow> ('e, 'w, 'fb) msg_publisher" where
  "mp_new room = \<lparr>mp_room = room, mp_channels = [], mp_publishers = [], mp_queue = []\<rparr>"

definition mp_on_channel_pub_start ::
  "('w, 'fb) externals \<Rightarrow> ('e, 'w, 'fb) msg_publisher \<Rightarrow> 'e \<Rightarrow> channel_label \<Rightarrow> ('e, 'w, 'fb) msg_publisher" where
  "mp_on_channel_pub_start x p endpoint label =
     (let channel_id = gen_msg_channel_id x (mp_room p) label;
          p1 = (case im_get (mp_channels p) channel_id of
                  Some o1 \<Rightarrow> p\<lparr>mp_channels := im_insert (mp_channels p) channel_id
                    (o1\<lparr>pc_publishers := is_insert (pc_publishers o1) endpoint\<rparr>)\<rparr>
                | None \<Rightarrow> p\<lparr>mp_channels := im_insert (mp_channels p) channel_id \<lparr>pc_publishers = is_insert [] endpoint\<rparr>,
                    mp_queue := mp_queue p @ [Pubsub channel_id PubStart]\<rparr>);
          chans = (case im_get (mp_publishers p1) endpoint of None \<Rightarrow> [] | Some l \<Rightarrow> l)
      in p1\<lparr>mp_publishers := im_insert (mp_publishers p1) endpoint (is_insert chans channel_id)\<rparr>)"

definition mp_on_channel_pub_stop ::
  "('w, 'fb) externals \<Rightarrow> ('e, 'w, 'fb) msg_publisher \<Rightarrow> 'e \<Rightarrow> channel_label \<Rightarrow> ('e, 'w, 'fb) msg_publisher" where
  "mp_on_channel_pub_stop x p endpoint label =
     (let channel_id = gen_msg_channel_id x (mp_room p) label in
      case im_get (mp_channels p) channel_id of
        None \<Rightarrow> p
      | Some channel \<Rightarrow>
          (let channel1 = channel\<lparr>pc_publishers := is_swap_remove (pc_publishers channel) endpoint\<rparr>;
               p1 = p\<lparr>mp_channels := im_insert (mp_channels p) channel_id channel1\<rparr>;
               p2 = (case im_get (mp_publishers p1) endpoint of
                       None \<Rightarrow> p1
                     | Some publisher \<Rightarrow>
                         (let publisher1 = is_swap_remove publisher channel_id in
                          p1\<lparr>mp_publishers := (if publisher1 = []
                            then im_swap_remove (mp_publishers p1) endpoint
                            else im_insert (mp_publishers p1) endpoint publisher1)\<rparr>))
           in if pc_publishers channel1 = []
              then p2\<lparr>mp_channels := im_swap_remove (mp_channels p2) channel_id,
                      mp_queue := mp_queue p2 @ [Pubsub channel_id PubStop]\<rparr>
              else p2))"

text \<open>The body of the loop of \<open>on_leave\<close> for one channel.\<close>

definition mp_leave_channel :: "'e \<Rightarrow> ('e, 'w, 'fb) msg_publisher \<Rightarrow> nat \<Rightarrow> ('e, 'w, 'fb) msg_publisher" where
  "mp_leave_channel endpoint p c =
     (case im_get (mp_channels p) c of
        None \<Rightarrow> p
      | Some channel \<Rightarrow>
          (let channel1 = channel\<lparr>pc_publishers := is_swap_remove (pc_publishers channel) endpoint\<rparr> in
           if pc_publishers channel1 = []
           then p\<lparr>mp_channels := im_swap_remove (mp_channels p) c, mp_queue := mp_queue p @ [Pubsub c PubStop]\<rparr>
           else p\<lparr>mp_channels := im_insert (mp_channels p) c channel1\<rparr>))"

definition mp_on_leave :: "('e, 'w, 'fb) msg_publisher \<Rightarrow> 'e \<Rightarrow> ('e, 'w, 'fb) msg_publisher" where
  "mp_on_leave p endpoint =
     (case im_get (mp_publishers p) endpoint of
        None \<Rightarrow> p
      | Some channels \<Rightarrow> foldl (mp_leave_channel endpoint)
          (p\<lparr>mp_publishers := im_swap_remove (mp_publishers p) endpoint\<rparr>) channels)"

definition mp_on_channel_data ::
  "('w, 'fb) externals \<Rightarrow> ('e, 'w, 'fb) msg_publisher \<Rightarrow> 'e \<Rightarrow> channel_label \<Rightarrow> message_channel_packet \<Rightarrow> ('e, 'w, 'fb) msg_publisher" where
  "mp_on_channel_data x p endpoint label pkt =
     (let channel_id = gen_msg_channel_id x (mp_room p) label in
      case im_get (mp_channels p) channel_id of
        None \<Rightarrow> p
      | Some channel \<Rightarrow>
          if endpoint \<in> set (pc_publishers channel)
          then p\<lparr>mp_queue := mp_queue p @ [Pubsub channel_id (PubData (x_msg_ser x pkt))]\<rparr>
          else p)"

definition mp_is_empty :: "('e, 'w, 'fb) msg_publisher \<Rightarrow> bool" where
  "mp_is_empty p \<longleftrightarrow> mp_queue p = [] \<and> mp_channels p = [] \<and> mp_publishers p = []"

definition mp_pop_output ::
  "('e, 'w, 'fb) msg_publisher \<Rightarrow> ('e, 'w, 'fb) msg_publisher \<times> ('e, 'w, 'fb) room_output option" where
  "mp_pop_output p = (case mp_queue p of [] \<Rightarrow> (p, None) | out # q \<Rightarrow> (p\<lparr>mp_queue := q\<rparr>, Some out))"

section \<open>Subscriber\<close>

record 'e msg_sub_container =
  mc_subscribers :: "'e iset"
  mc_label :: channel_label

record ('e, 'w, 'fb) msg_subscriber =
  ms_room :: nat
  ms_channels :: "(nat, 'e msg_sub_container) imap"
  ms_subscriptions :: "('e, nat iset) imap"
  ms_queue :: "('e, 'w, 'fb) room_output list"

definition ms_new :: "nat \<Rightarrow> ('e, 'w, 'fb) msg_subscriber" where
  "ms_new room = \<lparr>ms_room = room, ms_channels = [], ms_subscriptions = [], ms_queue = []\<rparr>"

definition ms_on_channel_subscribe ::
  "('w, 'fb) externals \<Rightarrow> ('e, 'w, 'fb) msg_subscriber \<Rightarrow> 'e \<Rightarrow> channel_label \<Rightarrow> ('e, 'w, 'fb) msg_subscriber" where
  "ms_on_channel_subscribe x s endpoint label =
     (let channel_id = gen_msg_channel_id x (ms_room s) label;
          s1 = (case im_get (ms_channels s) channel_id of
                  Some o1 \<Rightarrow> s\<lparr>ms_channels := im_insert (ms_channels s) channel_id
                    (o1\<lparr>mc_subscribers := is_insert (mc_subscribers o1) endpoint\<rparr>)\<rparr>
                | None \<Rightarrow> s\<lparr>ms_channels := im_insert (ms_channels s) channel_id
                      \<lparr>mc_subscribers = is_insert [] endpoint, mc_label = label\<rparr>,
                    ms_queue := ms_queue s @ [Pubsub channel_id SubAuto]\<rparr>);
          chans = (case im_get (ms_subscriptions s1) endpoint of None \<Rightarrow> [] | Some l \<Rightarrow> l)
      in s1\<lparr>ms_subscriptions := im_insert (ms_subscriptions s1) endpoint (is_insert chans channel_id)\<rparr>)"

definition ms_on_channel_unsubscribe ::
  "('w, 'fb) externals \<Rightarrow> ('e, 'w, 'fb) msg_subscriber \<Rightarrow> 'e \<Rightarrow> channel_label \<Rightarrow> ('e, 'w, 'fb) msg_subscriber" where
  "ms_on_channel_unsubscribe x s endpoint label =
     (let channel_id = gen_msg_channel_id x (ms_room s) label in
      case im_get (ms_channels s) channel_id of
        None \<Rightarrow> s
      | Some channel \<Rightarrow>
          (let channel1 = channel\<lparr>mc_subscribers := is_swap_remove (mc_subscribers channel) endpoint\<rparr>;
               s1 = s\<lparr>ms_channels := im_insert (ms_channels s) channel_id channel1\<rparr>;
               s2 = (case im_get (ms_subscriptions s1) endpoint of
                       None \<Rightarrow> s1
                     | Some channels \<Rightarrow>
                         (let channels1 = is_swap_remove channels channel_id in
                          s1\<lparr>ms_subscriptions := (if channels1 = []
                            then im_swap_remove (ms_subscriptions s1) endpoint
                            else im_insert (ms_subscriptions s1) endpoint channels1)\<rparr>))
           in if mc_subscribers channel1 = []
              then s2\<lparr>ms_channels := im_swap_remove (ms_channels s2) channel_id,
                      ms_queue := ms_queue s2 @ [Pubsub channel_id UnsubAuto]\<rparr>
              else s2))"

definition ms_on_channel_data ::
  "('w, 'fb) externals \<Rightarrow> ('e, 'w, 'fb) msg_subscriber \<Rightarrow> nat \<Rightarrow> 'w \<Rightarrow> ('e, 'w, 'fb) msg_subscriber" where
  "ms_on_channel_data x s channel_id data =
     (case im_get (ms_channels s) channel_id of
        None \<Rightarrow> s
      | Some channel \<Rightarrow>
          (case x_msg_deser x data of
             None \<Rightarrow> s
           | Some pkt \<Rightarrow> s\<lparr>ms_queue := ms_queue s @
               [ToEndpoint (mc_subscribers channel) (MessageChannelData (mc_label channel) (mp_from pkt) (mp_data pkt))]\<rparr>))"

definition ms_leave_channel :: "'e \<Rightarrow> ('e, 'w, 'fb) msg_subscriber \<Rightarrow> nat \<Rightarrow> ('e, 'w, 'fb) msg_subscriber" where
  "ms_leave_channel endpoint s c =
     (case im_get (ms_channels s) c of
        None \<Rightarrow> s
      | Some channel \<Rightarrow>
          (let channel1 = channel\<lparr>mc_subscribers := is_swap_remove (mc_subscribers channel) endpoint\<rparr> in
           if mc_subscribers channel1 = []
           then s\<lparr>ms_channels := im_swap_remove (ms_channels s) c, ms_queue := ms_queue s @ [Pubsub c UnsubAuto]\<rparr>
           else s\<lparr>ms_channels := im_insert (ms_channels s) c channel1\<rparr>))"

definition ms_on_leave :: "('e, 'w, 'fb) msg_subscriber \<Rightarrow> 'e \<Rightarrow> ('e, 'w, 'fb) msg_subscriber" where
  "ms_on_leave s endpoint =
     (case im_get (ms_subscriptions s) endpoint of
        None \<Rightarrow> s
      | Some channels \<Rightarrow> foldl (ms_leave_channel endpoint)
          (s\<lparr>ms_subscriptions := im_swap_remove (ms_subscriptions s) endpoint\<rparr>) channels)"

definition ms_is_empty :: "('e, 'w, 'fb) msg_subscriber \<Rightarrow> bool" where
  "ms_is_empty s \<longleftrightarrow> ms_queue s = [] \<and> ms_subscriptions s = [] \<and> ms_channels s = []"

definition ms_pop_output ::
  "('e, 'w, 'fb) msg_subscriber \<Rightarrow> ('e, 'w, 'fb) msg_subscriber \<times> ('e, 'w, 'fb) room_output option" where
  "ms_pop_output s = (case ms_queue s of [] \<Rightarrow> (s, None) | out # q \<Rightarrow> (s\<lparr>ms_queue := q\<rparr>, Some out))"

section \<open>Invariants\<close>

definition mp_users :: "('e, 'w, 'fb) msg_publisher \<Rightarrow> nat \<Rightarrow> 'e list option" where
  "mp_users p c = map_option pc_publishers (im_get (mp_channels p) c)"

definition mp_inv_for :: "'e \<Rightarrow> nat set \<Rightarrow> ('e, 'w, 'fb) msg_publisher \<Rightarrow> bool" where
  "mp_inv_for e P p \<longleftrightarrow> im_wf (mp_channels p) \<and> im_wf (mp_publishers p) \<and>
     rel_inv (mp_users p) (im_get (mp_publishers p)) e P"

definition mp_inv :: "('e, 'w, 'fb) msg_publisher \<Rightarrow> bool" where
  "mp_inv p \<longleftrightarrow> mp_inv_for undefined {} p"

definition mp_active :: "('e, 'w, 'fb) msg_publisher \<Rightarrow> nat set" where
  "mp_active p = dom (im_get (mp_channels p))"

definition ms_users :: "('e, 'w, 'fb) msg_subscriber \<Rightarrow> nat \<Rightarrow> 'e list option" where
  "ms_users s c = map_option mc_subscribers (im_get (ms_channels s) c)"

definition ms_inv_for :: "'e \<Rightarrow> nat set \<Rightarrow> ('e, 'w, 'fb) msg_subscriber \<Rightarrow> bool" where
  "ms_inv_for e P s \<longleftrightarrow> im_wf (ms_channels s) \<and> im_wf (ms_subscriptions s) \<and>
     rel_inv (ms_users s) (im_get (ms_subscriptions s)) e P"

definition ms_inv :: "('e, 'w, 'fb) msg_subscriber \<Rightarrow> bool" where
  "ms_inv s \<longleftrightarrow> ms_inv_for undefined {} s"

definition ms_active :: "('e, 'w, 'fb) msg_subscriber \<Rightarrow> nat set" where
  "ms_active s = dom (im_get (ms_channels s))"

lemma mp_inv_any: "mp_inv p \<longleftrightarrow> mp_inv_for e {} p"
  using rel_user by (auto simp: mp_inv_def mp_inv_for_def)

lemma ms_inv_any: "ms_inv s \<longleftrightarrow> ms_inv_for e {} s"
  using rel_user by (auto simp: ms_inv_def ms_inv_for_def)

lemma mp_queue_irrelevant [simp]: "mp_inv_for e P (p\<lparr>mp_queue := q\<rparr>) = mp_inv_for e P p"
    "mp_inv (p\<lparr>mp_queue := q\<rparr>) = mp_inv p" "mp_active (p\<lparr>mp_queue := q\<rparr>) = mp_active p"
  by (simp_all add: mp_inv_def mp_inv_for_def mp_active_def mp_users_def[abs_def])

lemma mp_active_users: "mp_active p = dom (mp_users p)"
  by (auto simp: mp_active_def mp_users_def)

lemma mp_start_ok:
  fixes p :: "('e, 'w, 'fb) msg_publisher"
  assumes "mp_inv p"
  shows "\<exists>new. mp_queue (mp_on_channel_pub_start x p e label) = mp_queue p @ new \<and>
    toggles pub_cmd (mp_active p) new = Some (mp_active (mp_on_channel_pub_start x p e label)) \<and>
    mp_inv (mp_on_channel_pub_start x p e label)"
proof -
  define c where "c = gen_msg_channel_id x (mp_room p) label"
  let ?p = "mp_on_channel_pub_start x p e label"
  let ?A = "mp_users p" and ?B = "im_get (mp_publishers p)"
  let ?l = "is_insert (tab_get ?A c) e" and ?m = "is_insert (tab_get ?B e) c"
  have inv: "im_wf (mp_channels p)" "im_wf (mp_publishers p)" "rel_inv ?A ?B undefined {}"
    using assms by (simp_all add: mp_inv_def mp_inv_for_def)
  then have d: "distinct (tab_get ?A c)" "distinct (tab_get ?B e)" by (simp_all add: rel_inv_def tab_wf_get)
  have eff: "mp_users ?p = tab_put ?A c ?l" "im_get (mp_publishers ?p) = tab_put ?B e ?m"
      "im_wf (mp_channels ?p)" "im_wf (mp_publishers ?p)"
      "mp_queue ?p = mp_queue p @ (if ?A c = None then [Pubsub c PubStart] else [])"
    using inv
    by (auto simp: mp_on_channel_pub_start_def mp_users_def tab_put_def c_def[symmetric] Let_def fun_eq_iff split: option.split)
  have "rel_inv (mp_users ?p) (im_get (mp_publishers ?p)) undefined {}"
    unfolding eff(1,2) using d by (intro rel_add[OF inv(3)]) simp_all
  then have "mp_inv ?p" using eff by (simp add: mp_inv_def mp_inv_for_def)
  moreover have "mp_active ?p = insert c (mp_active p)" by (simp add: mp_active_users eff(1) tab_put_dom)
  ultimately show ?thesis by (auto simp: eff(5) mp_active_users insert_absorb domIff)
qed

lemma mp_stop_ok:
  fixes p :: "('e, 'w, 'fb) msg_publisher"
  assumes "mp_inv p"
  shows "\<exists>new. mp_queue (mp_on_channel_pub_stop x p e label) = mp_queue p @ new \<and>
    toggles pub_cmd (mp_active p) new = Some (mp_active (mp_on_channel_pub_stop x p e label)) \<and>
    mp_inv (mp_on_channel_pub_stop x p e label)"
proof -
  define c where "c = gen_msg_channel_id x (mp_room p) label"
  let ?p = "mp_on_channel_pub_stop x p e label"
  let ?A = "mp_users p" and ?B = "im_get (mp_publishers p)"
  let ?l = "is_swap_remove (tab_get ?A c) e" and ?m = "is_swap_remove (tab_get ?B e) c"
  have inv: "im_wf (mp_channels p)" "im_wf (mp_publishers p)" "rel_inv ?A ?B undefined {}"
    using assms by (simp_all add: mp_inv_def mp_inv_for_def)
  then have d: "distinct (tab_get ?A c)" "distinct (tab_get ?B e)" by (simp_all add: rel_inv_def tab_wf_get)
  show ?thesis
  proof (cases "im_get (mp_channels p) c")
    case None
    then show ?thesis using assms by (simp add: mp_on_channel_pub_stop_def c_def[symmetric])
  next
    case (Some ch)
    have eff: "mp_users ?p = tab_put ?A c ?l" "im_get (mp_publishers ?p) = tab_put ?B e ?m"
        "im_wf (mp_channels ?p)" "im_wf (mp_publishers ?p)"
        "mp_queue ?p = mp_queue p @ (if ?l = [] then [Pubsub c PubStop] else [])"
      using inv Some
      by (auto simp: mp_on_channel_pub_stop_def mp_users_def tab_put_def c_def[symmetric] Let_def fun_eq_iff
          is_swap_remove_def split: option.split)
    have "rel_inv (mp_users ?p) (im_get (mp_publishers ?p)) undefined {}"
      unfolding eff(1,2) using is_swap_remove_set_distinct[OF d(1)] is_swap_remove_set_distinct[OF d(2)]
      by (intro rel_del[OF inv(3)]) simp_all
    then have "mp_inv ?p" using eff by (simp add: mp_inv_def mp_inv_for_def)
    moreover have "mp_active ?p = (if ?l = [] then mp_active p - {c} else mp_active p)" "c \<in> mp_active p"
      using Some by (auto simp: mp_active_users eff(1) tab_put_dom mp_users_def)
    ultimately show ?thesis by (auto simp: eff(5))
  qed
qed

lemma mp_leave_channel_ok:
  assumes "mp_inv_for e P p" "im_get (mp_publishers p) e = None"
  shows "\<exists>new. mp_queue (mp_leave_channel e p c) = mp_queue p @ new \<and>
    toggles pub_cmd (mp_active p) new = Some (mp_active (mp_leave_channel e p c)) \<and>
    mp_inv_for e (P - {c}) (mp_leave_channel e p c) \<and> im_get (mp_publishers (mp_leave_channel e p c)) e = None"
proof -
  let ?A = "mp_users p" and ?B = "im_get (mp_publishers p)" and ?p = "mp_leave_channel e p c"
  let ?l = "is_swap_remove (tab_get ?A c) e"
  have inv: "im_wf (mp_channels p)" "im_wf (mp_publishers p)" "rel_inv ?A ?B e P"
    using assms(1) by (simp_all add: mp_inv_for_def)
  then have d: "distinct (tab_get ?A c)" by (simp add: rel_inv_def tab_wf_get)
  have eff: "mp_users ?p = tab_put ?A c ?l" "mp_publishers ?p = mp_publishers p" "im_wf (mp_channels ?p)"
      "mp_queue ?p = mp_queue p @ (if ?A c \<noteq> None \<and> ?l = [] then [Pubsub c PubStop] else [])"
    using inv by (auto simp: mp_leave_channel_def mp_users_def tab_put_def Let_def fun_eq_iff is_swap_remove_def
        split: option.split)
  have "rel_inv (mp_users ?p) ?B e (P - {c})"
    unfolding eff(1) using is_swap_remove_set_distinct[OF d] assms(2) by (intro rel_leave_step[OF inv(3)]) simp_all
  then have "mp_inv_for e (P - {c}) ?p" using eff inv by (simp add: mp_inv_for_def)
  moreover have "mp_active ?p = (if ?l = [] then mp_active p - {c} else insert c (mp_active p))"
    by (simp add: mp_active_users eff(1) tab_put_dom)
  moreover have "?A c = None \<Longrightarrow> ?l = [] \<and> c \<notin> mp_active p" "?A c \<noteq> None \<Longrightarrow> c \<in> mp_active p"
    by (auto simp: is_swap_remove_def mp_active_users)
  ultimately show ?thesis using assms(2) by (auto simp: eff(2,4) insert_absorb)
qed

lemma mp_leave_loop_ok:
  assumes "mp_inv_for e (set cs) p" "im_get (mp_publishers p) e = None" "distinct cs"
  shows "\<exists>new. mp_queue (foldl (mp_leave_channel e) p cs) = mp_queue p @ new \<and>
    toggles pub_cmd (mp_active p) new = Some (mp_active (foldl (mp_leave_channel e) p cs)) \<and>
    mp_inv (foldl (mp_leave_channel e) p cs)"
  using assms
proof (induction cs arbitrary: p)
  case Nil
  then show ?case by (simp add: mp_inv_any[of _ e])
next
  case (Cons c cs)
  let ?p = "mp_leave_channel e p c"
  obtain new where n: "mp_queue ?p = mp_queue p @ new" "toggles pub_cmd (mp_active p) new = Some (mp_active ?p)"
      "mp_inv_for e (set (c # cs) - {c}) ?p" "im_get (mp_publishers ?p) e = None"
    using mp_leave_channel_ok[OF Cons.prems(1,2), of c] by blast
  have "mp_inv_for e (set cs) ?p" using n(3) Cons.prems(3) by simp
  then obtain new2 where "mp_queue (foldl (mp_leave_channel e) ?p cs) = mp_queue ?p @ new2"
      "toggles pub_cmd (mp_active ?p) new2 = Some (mp_active (foldl (mp_leave_channel e) ?p cs))"
      "mp_inv (foldl (mp_leave_channel e) ?p cs)"
    using Cons.IH[of ?p] n(4) Cons.prems(3) by auto
  then show ?case using n(1,2) by (auto simp: toggles_append intro!: exI[of _ "new @ new2"])
qed

lemma mp_leave_ok:
  assumes "mp_inv p"
  shows "\<exists>new. mp_queue (mp_on_leave p e) = mp_queue p @ new \<and>
    toggles pub_cmd (mp_active p) new = Some (mp_active (mp_on_leave p e)) \<and> mp_inv (mp_on_leave p e)"
proof (cases "im_get (mp_publishers p) e")
  case (Some cs)
  let ?p = "p\<lparr>mp_publishers := im_swap_remove (mp_publishers p) e\<rparr>"
  have inv: "mp_inv_for e {} p" using assms by (simp only: mp_inv_any[of p e])
  have "rel_inv (mp_users p) ((im_get (mp_publishers p))(e := None)) e (set cs)"
    using rel_leave_start[of "mp_users p" "im_get (mp_publishers p)" e] inv Some by (simp add: mp_inv_for_def)
  then have "mp_inv_for e (set cs) ?p" using inv by (simp add: mp_inv_for_def mp_users_def[abs_def])
  moreover have "im_get (mp_publishers ?p) e = None" using inv by (simp add: mp_inv_for_def)
  moreover have "distinct cs" using inv Some by (auto simp: mp_inv_for_def rel_inv_def tab_wf_def)
  ultimately show ?thesis
    using mp_leave_loop_ok[of e cs ?p] Some by (simp add: mp_on_leave_def mp_active_def)
qed (use assms in \<open>simp add: mp_on_leave_def\<close>)

lemma ms_queue_irrelevant [simp]: "ms_inv_for e P (s\<lparr>ms_queue := q\<rparr>) = ms_inv_for e P s"
    "ms_inv (s\<lparr>ms_queue := q\<rparr>) = ms_inv s" "ms_active (s\<lparr>ms_queue := q\<rparr>) = ms_active s"
  by (simp_all add: ms_inv_def ms_inv_for_def ms_active_def ms_users_def[abs_def])

lemma ms_active_users: "ms_active s = dom (ms_users s)"
  by (auto simp: ms_active_def ms_users_def)

lemma ms_start_ok:
  fixes s :: "('e, 'w, 'fb) msg_subscriber"
  assumes "ms_inv s"
  shows "\<exists>new. ms_queue (ms_on_channel_subscribe x s e label) = ms_queue s @ new \<and>
    toggles sub_cmd (ms_active s) new = Some (ms_active (ms_on_channel_subscribe x s e label)) \<and>
    ms_inv (ms_on_channel_subscribe x s e label)"
proof -
  define c where "c = gen_msg_channel_id x (ms_room s) label"
  let ?s = "ms_on_channel_subscribe x s e label"
  let ?A = "ms_users s" and ?B = "im_get (ms_subscriptions s)"
  let ?l = "is_insert (tab_get ?A c) e" and ?m = "is_insert (tab_get ?B e) c"
  have inv: "im_wf (ms_channels s)" "im_wf (ms_subscriptions s)" "rel_inv ?A ?B undefined {}"
    using assms by (simp_all add: ms_inv_def ms_inv_for_def)
  then have d: "distinct (tab_get ?A c)" "distinct (tab_get ?B e)" by (simp_all add: rel_inv_def tab_wf_get)
  have eff: "ms_users ?s = tab_put ?A c ?l" "im_get (ms_subscriptions ?s) = tab_put ?B e ?m"
      "im_wf (ms_channels ?s)" "im_wf (ms_subscriptions ?s)"
      "ms_queue ?s = ms_queue s @ (if ?A c = None then [Pubsub c SubAuto] else [])"
    using inv
    by (auto simp: ms_on_channel_subscribe_def ms_users_def tab_put_def c_def[symmetric] Let_def fun_eq_iff split: option.split)
  have "rel_inv (ms_users ?s) (im_get (ms_subscriptions ?s)) undefined {}"
    unfolding eff(1,2) using d by (intro rel_add[OF inv(3)]) simp_all
  then have "ms_inv ?s" using eff by (simp add: ms_inv_def ms_inv_for_def)
  moreover have "ms_active ?s = insert c (ms_active s)" by (simp add: ms_active_users eff(1) tab_put_dom)
  ultimately show ?thesis by (auto simp: eff(5) ms_active_users insert_absorb domIff)
qed

lemma ms_stop_ok:
  fixes s :: "('e, 'w, 'fb) msg_subscriber"
  assumes "ms_inv s"
  shows "\<exists>new. ms_queue (ms_on_channel_unsubscribe x s e label) = ms_queue s @ new \<and>
    toggles sub_cmd (ms_active s) new = Some (ms_active (ms_on_channel_unsubscribe x s e label)) \<and>
    ms_inv (ms_on_channel_unsubscribe x s e label)"
proof -
  define c where "c = gen_msg_channel_id x (ms_room s) label"
  let ?s = "ms_on_channel_unsubscribe x s e label"
  let ?A = "ms_users s" and ?B = "im_get (ms_subscriptions s)"
  let ?l = "is_swap_remove (tab_get ?A c) e" and ?m = "is_swap_remove (tab_get ?B e) c"
  have inv: "im_wf (ms_channels s)" "im_wf (ms_subscriptions s)" "rel_inv ?A ?B undefined {}"
    using assms by (simp_all add: ms_inv_def ms_inv_for_def)
  then have d: "distinct (tab_get ?A c)" "distinct (tab_get ?B e)" by (simp_all add: rel_inv_def tab_wf_get)
  show ?thesis
  proof (cases "im_get (ms_channels s) c")
    case None
    then show ?thesis using assms by (simp add: ms_on_channel_unsubscribe_def c_def[symmetric])
  next
    case (Some ch)
    have eff: "ms_users ?s = tab_put ?A c ?l" "im_get (ms_subscriptions ?s) = tab_put ?B e ?m"
        "im_wf (ms_channels ?s)" "im_wf (ms_subscriptions ?s)"
        "ms_queue ?s = ms_queue s @ (if ?l = [] then [Pubsub c UnsubAuto] else [])"
      using inv Some
      by (auto simp: ms_on_channel_unsubscribe_def ms_users_def tab_put_def c_def[symmetric] Let_def fun_eq_iff
          is_swap_remove_def split: option.split)
    have "rel_inv (ms_users ?s) (im_get (ms_subscriptions ?s)) undefined {}"
      unfolding eff(1,2) using is_swap_remove_set_distinct[OF d(1)] is_swap_remove_set_distinct[OF d(2)]
      by (intro rel_del[OF inv(3)]) simp_all
    then have "ms_inv ?s" using eff by (simp add: ms_inv_def ms_inv_for_def)
    moreover have "ms_active ?s = (if ?l = [] then ms_active s - {c} else ms_active s)" "c \<in> ms_active s"
      using Some by (auto simp: ms_active_users eff(1) tab_put_dom ms_users_def)
    ultimately show ?thesis by (auto simp: eff(5))
  qed
qed

lemma ms_leave_channel_ok:
  assumes "ms_inv_for e P s" "im_get (ms_subscriptions s) e = None"
  shows "\<exists>new. ms_queue (ms_leave_channel e s c) = ms_queue s @ new \<and>
    toggles sub_cmd (ms_active s) new = Some (ms_active (ms_leave_channel e s c)) \<and>
    ms_inv_for e (P - {c}) (ms_leave_channel e s c) \<and> im_get (ms_subscriptions (ms_leave_channel e s c)) e = None"
proof -
  let ?A = "ms_users s" and ?B = "im_get (ms_subscriptions s)" and ?s = "ms_leave_channel e s c"
  let ?l = "is_swap_remove (tab_get ?A c) e"
  have inv: "im_wf (ms_channels s)" "im_wf (ms_subscriptions s)" "rel_inv ?A ?B e P"
    using assms(1) by (simp_all add: ms_inv_for_def)
  then have d: "distinct (tab_get ?A c)" by (simp add: rel_inv_def tab_wf_get)
  have eff: "ms_users ?s = tab_put ?A c ?l" "ms_subscriptions ?s = ms_subscriptions s" "im_wf (ms_channels ?s)"
      "ms_queue ?s = ms_queue s @ (if ?A c \<noteq> None \<and> ?l = [] then [Pubsub c UnsubAuto] else [])"
    using inv by (auto simp: ms_leave_channel_def ms_users_def tab_put_def Let_def fun_eq_iff is_swap_remove_def
        split: option.split)
  have "rel_inv (ms_users ?s) ?B e (P - {c})"
    unfolding eff(1) using is_swap_remove_set_distinct[OF d] assms(2) by (intro rel_leave_step[OF inv(3)]) simp_all
  then have "ms_inv_for e (P - {c}) ?s" using eff inv by (simp add: ms_inv_for_def)
  moreover have "ms_active ?s = (if ?l = [] then ms_active s - {c} else insert c (ms_active s))"
    by (simp add: ms_active_users eff(1) tab_put_dom)
  moreover have "?A c = None \<Longrightarrow> ?l = [] \<and> c \<notin> ms_active s" "?A c \<noteq> None \<Longrightarrow> c \<in> ms_active s"
    by (auto simp: is_swap_remove_def ms_active_users)
  ultimately show ?thesis using assms(2) by (auto simp: eff(2,4) insert_absorb)
qed

lemma ms_leave_loop_ok:
  assumes "ms_inv_for e (set cs) s" "im_get (ms_subscriptions s) e = None" "distinct cs"
  shows "\<exists>new. ms_queue (foldl (ms_leave_channel e) s cs) = ms_queue s @ new \<and>
    toggles sub_cmd (ms_active s) new = Some (ms_active (foldl (ms_leave_channel e) s cs)) \<and>
    ms_inv (foldl (ms_leave_channel e) s cs)"
  using assms
proof (induction cs arbitrary: s)
  case Nil
  then show ?case by (simp add: ms_inv_any[of _ e])
next
  case (Cons c cs)
  let ?s = "ms_leave_channel e s c"
  obtain new where n: "ms_queue ?s = ms_queue s @ new" "toggles sub_cmd (ms_active s) new = Some (ms_active ?s)"
      "ms_inv_for e (set (c # cs) - {c}) ?s" "im_get (ms_subscriptions ?s) e = None"
    using ms_leave_channel_ok[OF Cons.prems(1,2), of c] by blast
  have "ms_inv_for e (set cs) ?s" using n(3) Cons.prems(3) by simp
  then obtain new2 where "ms_queue (foldl (ms_leave_channel e) ?s cs) = ms_queue ?s @ new2"
      "toggles sub_cmd (ms_active ?s) new2 = Some (ms_active (foldl (ms_leave_channel e) ?s cs))"
      "ms_inv (foldl (ms_leave_channel e) ?s cs)"
    using Cons.IH[of ?s] n(4) Cons.prems(3) by auto
  then show ?case using n(1,2) by (auto simp: toggles_append intro!: exI[of _ "new @ new2"])
qed

lemma ms_leave_ok:
  assumes "ms_inv s"
  shows "\<exists>new. ms_queue (ms_on_leave s e) = ms_queue s @ new \<and>
    toggles sub_cmd (ms_active s) new = Some (ms_active (ms_on_leave s e)) \<and> ms_inv (ms_on_leave s e)"
proof (cases "im_get (ms_subscriptions s) e")
  case (Some cs)
  let ?s = "s\<lparr>ms_subscriptions := im_swap_remove (ms_subscriptions s) e\<rparr>"
  have inv: "ms_inv_for e {} s" using assms by (simp only: ms_inv_any[of s e])
  have "rel_inv (ms_users s) ((im_get (ms_subscriptions s))(e := None)) e (set cs)"
    using rel_leave_start[of "ms_users s" "im_get (ms_subscriptions s)" e] inv Some by (simp add: ms_inv_for_def)
  then have "ms_inv_for e (set cs) ?s" using inv by (simp add: ms_inv_for_def ms_users_def[abs_def])
  moreover have "im_get (ms_subscriptions ?s) e = None" using inv by (simp add: ms_inv_for_def)
  moreover have "distinct cs" using inv Some by (auto simp: ms_inv_for_def rel_inv_def tab_wf_def)
  ultimately show ?thesis
    using ms_leave_loop_ok[of e cs ?s] Some by (simp add: ms_on_leave_def ms_active_def)
qed (use assms in \<open>simp add: ms_on_leave_def\<close>)

section \<open>Calls and runs\<close>

datatype 'e msg_pub_op = MpStart 'e channel_label | MpStop 'e channel_label | MpLeave 'e
  | MpData 'e channel_label message_channel_packet

definition mp_step ::
  "('w, 'fb) externals \<Rightarrow> ('e, 'w, 'fb) msg_publisher \<Rightarrow> 'e msg_pub_op \<Rightarrow> ('e, 'w, 'fb) msg_publisher res" where
  "mp_step x p op1 = Inr (case op1 of
     MpStart e label \<Rightarrow> mp_on_channel_pub_start x p e label | MpStop e label \<Rightarrow> mp_on_channel_pub_stop x p e label
   | MpLeave e \<Rightarrow> mp_on_leave p e | MpData e label pkt \<Rightarrow> mp_on_channel_data x p e label pkt)"

datatype ('e, 'w) msg_sub_op = MsSubscribe 'e channel_label | MsUnsubscribe 'e channel_label | MsLeave 'e
  | MsData nat 'w

definition ms_step ::
  "('w, 'fb) externals \<Rightarrow> ('e, 'w, 'fb) msg_subscriber \<Rightarrow> ('e, 'w) msg_sub_op \<Rightarrow> ('e, 'w, 'fb) msg_subscriber res" where
  "ms_step x s op1 = Inr (case op1 of
     MsSubscribe e label \<Rightarrow> ms_on_channel_subscribe x s e label | MsUnsubscribe e label \<Rightarrow> ms_on_channel_unsubscribe x s e label
   | MsLeave e \<Rightarrow> ms_on_leave s e | MsData c w \<Rightarrow> ms_on_channel_data x s c w)"

interpretation mp: channel_users "mp_step x" mp_pop_output mp_queue "\<lambda>p op1. True" mp_inv mp_active pub_cmd
  for x :: "('w, 'fb) externals"
proof unfold_locales
  show "\<exists>p1 new. mp_step x p op1 = Inr p1 \<and> mp_inv p1 \<and> mp_queue p1 = mp_queue p @ new \<and>
      toggles pub_cmd (mp_active p) new = Some (mp_active p1)"
    if "mp_inv p" for p :: "('e, 'w, 'fb) msg_publisher" and op1
  proof (cases op1)
    case (MpStart e label)
    then show ?thesis using mp_start_ok[OF that, of x e label] by (auto simp: mp_step_def)
  next
    case (MpStop e label)
    then show ?thesis using mp_stop_ok[OF that, of x e label] by (auto simp: mp_step_def)
  next
    case (MpLeave e)
    then show ?thesis using mp_leave_ok[OF that, of e] by (auto simp: mp_step_def)
  qed (use that in \<open>auto simp: mp_step_def mp_on_channel_data_def Let_def split: option.split\<close>)
qed (auto simp: queue_ok_def mp_pop_output_def split: list.split)

interpretation ms: channel_users "ms_step x" ms_pop_output ms_queue "\<lambda>s op1. True" ms_inv ms_active sub_cmd
  for x :: "('w, 'fb) externals"
proof unfold_locales
  show "\<exists>s1 new. ms_step x s op1 = Inr s1 \<and> ms_inv s1 \<and> ms_queue s1 = ms_queue s @ new \<and>
      toggles sub_cmd (ms_active s) new = Some (ms_active s1)"
    if "ms_inv s" for s :: "('e, 'w, 'fb) msg_subscriber" and op1
  proof (cases op1)
    case (MsSubscribe e label)
    then show ?thesis using ms_start_ok[OF that, of x e label] by (auto simp: ms_step_def)
  next
    case (MsUnsubscribe e label)
    then show ?thesis using ms_stop_ok[OF that, of x e label] by (auto simp: ms_step_def)
  next
    case (MsLeave e)
    then show ?thesis using ms_leave_ok[OF that, of e] by (auto simp: ms_step_def)
  qed (use that in \<open>auto simp: ms_step_def ms_on_channel_data_def split: option.split\<close>)
qed (auto simp: queue_ok_def ms_pop_output_def split: list.split)

lemma calls_legal_True: "calls_legal (\<lambda>s op1. True) step pop s cs"
proof (induction cs arbitrary: s)
  case (Cons c cs)
  then show ?case by (cases c) (auto split: sum.split)
qed simp

lemma mp_inv_new: "mp_inv (mp_new room)"
  by (simp add: mp_inv_def mp_inv_for_def mp_new_def mp_users_def[abs_def] rel_empty)

lemma ms_inv_new: "ms_inv (ms_new room)"
  by (simp add: ms_inv_def ms_inv_for_def ms_new_def ms_users_def[abs_def] rel_empty)

section \<open>Properties\<close>

text \<open>Whatever endpoints do with message channels, in any order and interleaved with pops, repeated or
  unmatched calls included, the publish commands on every channel alternate start and stop, and a channel
  is left open exactly when some endpoint has it among its channels; when no endpoint is left, the
  publisher holds no channel. The subscribe commands of the subscriber behave in the same way.\<close>

theorem message_channels_balanced:
  "(\<exists>p sent. calls_run (mp_step x) mp_pop_output (mp_new room) cs = Inr (p, sent) \<and>
     toggles pub_cmd {} (sent @ mp_queue p) = Some {c. \<exists>e l. im_get (mp_publishers p) e = Some l \<and> c \<in> set l} \<and>
     (mp_publishers p = [] \<longleftrightarrow> mp_channels p = [])) \<and>
   (\<exists>s sent. calls_run (ms_step x) ms_pop_output (ms_new room) ds = Inr (s, sent) \<and>
     toggles sub_cmd {} (sent @ ms_queue s) = Some {c. \<exists>e l. im_get (ms_subscriptions s) e = Some l \<and> c \<in> set l} \<and>
     (ms_subscriptions s = [] \<longleftrightarrow> ms_channels s = []))"
proof
  have "mp_queue (mp_new room) = []" "mp_active (mp_new room) = {}" by (simp_all add: mp_new_def mp_active_def)
  from mp.run_from_empty[OF mp_inv_new calls_legal_True this] obtain p sent where
    r: "calls_run (mp_step x) mp_pop_output (mp_new room) cs = Inr (p, sent)" "mp_inv p"
      "toggles pub_cmd {} (sent @ mp_queue p) = Some (mp_active p)" by blast
  have u: "rel_inv (mp_users p) (im_get (mp_publishers p)) undefined {}" using r(2) by (simp add: mp_inv_def mp_inv_for_def)
  note d = rel_channels[OF u]
  have act: "mp_active p = {c. \<exists>e l. im_get (mp_publishers p) e = Some l \<and> c \<in> set l}"
    unfolding mp_active_users by (rule d(1))
  have "mp_users p = Map.empty \<longleftrightarrow> mp_channels p = []"
    unfolding im_get_Nil_iff by (auto simp: mp_users_def fun_eq_iff)
  then have "mp_publishers p = [] \<longleftrightarrow> mp_channels p = []" using d(2) unfolding im_get_Nil_iff[of "mp_publishers p"] by simp
  then show "\<exists>p sent. calls_run (mp_step x) mp_pop_output (mp_new room) cs = Inr (p, sent) \<and>
     toggles pub_cmd {} (sent @ mp_queue p) = Some {c. \<exists>e l. im_get (mp_publishers p) e = Some l \<and> c \<in> set l} \<and>
     (mp_publishers p = [] \<longleftrightarrow> mp_channels p = [])"
    using r(1,3)[unfolded act] by blast
next
  have "ms_queue (ms_new room) = []" "ms_active (ms_new room) = {}" by (simp_all add: ms_new_def ms_active_def)
  from ms.run_from_empty[OF ms_inv_new calls_legal_True this] obtain s sent where
    r: "calls_run (ms_step x) ms_pop_output (ms_new room) ds = Inr (s, sent)" "ms_inv s"
      "toggles sub_cmd {} (sent @ ms_queue s) = Some (ms_active s)" by blast
  have u: "rel_inv (ms_users s) (im_get (ms_subscriptions s)) undefined {}" using r(2) by (simp add: ms_inv_def ms_inv_for_def)
  note d = rel_channels[OF u]
  have act: "ms_active s = {c. \<exists>e l. im_get (ms_subscriptions s) e = Some l \<and> c \<in> set l}"
    unfolding ms_active_users by (rule d(1))
  have "ms_users s = Map.empty \<longleftrightarrow> ms_channels s = []"
    unfolding im_get_Nil_iff by (auto simp: ms_users_def fun_eq_iff)
  then have "ms_subscriptions s = [] \<longleftrightarrow> ms_channels s = []" using d(2) unfolding im_get_Nil_iff[of "ms_subscriptions s"] by simp
  then show "\<exists>s sent. calls_run (ms_step x) ms_pop_output (ms_new room) ds = Inr (s, sent) \<and>
     toggles sub_cmd {} (sent @ ms_queue s) = Some {c. \<exists>e l. im_get (ms_subscriptions s) e = Some l \<and> c \<in> set l} \<and>
     (ms_subscriptions s = [] \<longleftrightarrow> ms_channels s = [])"
    using r(1,3)[unfolded act] by blast
qed


definition demo_mp :: "(nat, demo_wire, nat \<times> nat) msg_publisher" where
  "demo_mp = mp_on_channel_pub_start demo_ext (mp_new 9) 1 ''chat''"

definition demo_ms :: "(nat, demo_wire, nat \<times> nat) msg_subscriber" where
  "demo_ms = ms_on_channel_subscribe demo_ext (ms_new 9) 2 ''chat''"


end
