(* ===== verification/Room_Metadata.thy ===== *)
theory Room_Metadata
  imports Room_Types Channel_Users
begin

text \<open>
  \<open>cluster/room/metadata.rs\<close>: who is in a room and which tracks exist, shared over the key-value maps of
  the network. Endpoints publish themselves and their tracks, subscribe to all peers, all tracks, or to
  the tracks of single peers. Shown: maps are subscribed exactly while somebody needs them and nothing
  panics; joiners are told everything known; and the cases where an endpoint is told too little or too
  much.
\<close>

section \<open>State and operations\<close>

record peer_container =
  pe_peer :: peer_id
  pe_publish :: room_info_publish
  pe_sub_peers :: "peer_id iset"
  pe_pub_tracks :: "(remote_track_id, track_name) imap"

record ('e, 'w, 'fb) room_metadata =
  md_room :: nat
  md_peers_map :: nat
  md_tracks_map :: nat
  md_peers :: "('e, peer_container) imap"
  md_peers_map_subscribers :: "'e iset"
  md_tracks_map_subscribers :: "'e iset"
  md_peers_tracks_subs :: "(nat, 'e iset) imap"
  md_cluster_peers :: "(nat, peer_info) imap"
  md_cluster_tracks :: "(nat, track_info) imap"
  md_queue :: "('e, 'w, 'fb) room_output list"

definition md_new :: "nat \<Rightarrow> ('e, 'w, 'fb) room_metadata" where
  "md_new room = \<lparr>md_room = room, md_peers_map = peers_map room, md_tracks_map = tracks_map room, md_peers = [],
     md_peers_map_subscribers = [], md_tracks_map_subscribers = [], md_peers_tracks_subs = [],
     md_cluster_peers = [], md_cluster_tracks = [], md_queue = []\<rparr>"

definition get_peer_from_endpoint :: "('e, 'w, 'fb) room_metadata \<Rightarrow> 'e \<Rightarrow> peer_id option" where
  "get_peer_from_endpoint m endpoint = map_option pe_peer (im_get (md_peers m) endpoint)"

definition md_emit :: "('e, 'w, 'fb) room_metadata \<Rightarrow> ('e, 'w, 'fb) room_output list \<Rightarrow> ('e, 'w, 'fb) room_metadata" where
  "md_emit m outs = m\<lparr>md_queue := md_queue m @ outs\<rparr>"

definition md_on_join ::
  "('w, 'fb) externals \<Rightarrow> ('e, 'w, 'fb) room_metadata \<Rightarrow> 'e \<Rightarrow> peer_id \<Rightarrow> peer_meta \<Rightarrow> room_info_publish \<Rightarrow>
   room_info_subscribe \<Rightarrow> ('e, 'w, 'fb) room_metadata" where
  "md_on_join x m endpoint peer meta publish subscribe =
     (let m1 = m\<lparr>md_peers := im_insert (md_peers m) endpoint
            \<lparr>pe_peer = peer, pe_publish = publish, pe_sub_peers = [], pe_pub_tracks = []\<rparr>\<rparr>;
          peer_key = peers_key x peer;
          m2 = (if rp_peer publish
                then md_emit m1 [Kv (md_peers_map m1) (KvSet peer_key (x_peer_ser x \<lparr>pi_peer = peer, pi_meta = meta\<rparr>))]
                else m1);
          m3 = (if rs_peers subscribe
                then let m' = m2\<lparr>md_peers_map_subscribers := is_insert (md_peers_map_subscribers m2) endpoint\<rparr>;
                         m'' = md_emit m' (map (\<lambda>(_, info). ToEndpoint [endpoint] (PeerJoined (pi_peer info) (pi_meta info)))
                                 (md_cluster_peers m'))
                     in if length (md_peers_map_subscribers m'') = 1
                        then md_emit m'' [Kv (md_peers_map m'') KvSub] else m''
                else m2)
      in if rs_tracks subscribe
         then let m' = m3\<lparr>md_tracks_map_subscribers := is_insert (md_tracks_map_subscribers m3) endpoint\<rparr>;
                  m'' = md_emit m' (map (\<lambda>(_, info). ToEndpoint [endpoint]
                          (TrackStarted (ti_peer info) (ti_track info) (ti_meta info))) (md_cluster_tracks m'))
              in if length (md_tracks_map_subscribers m'') = 1
                 then md_emit m'' [Kv (md_tracks_map m'') KvSub] else m''
         else m3)"

text \<open>The loop of \<open>on_leave\<close> over the peers the endpoint subscribed to by hand.\<close>

fun md_leave_targets ::
  "('w, 'fb) externals \<Rightarrow> 'e \<Rightarrow> peer_id list \<Rightarrow> ('e, 'w, 'fb) room_metadata \<Rightarrow> ('e, 'w, 'fb) room_metadata res" where
  "md_leave_targets x endpoint [] m = Inr m"
| "md_leave_targets x endpoint (target # targets) m =
     (let target_peer_map = peer_map x (md_room m) target in
      res_bind (rexpect (im_get (md_peers_tracks_subs m) target_peer_map)) (\<lambda>subs.
      let subs1 = is_swap_remove subs endpoint in
      md_leave_targets x endpoint targets
        (if subs1 = []
         then md_emit (m\<lparr>md_peers_tracks_subs := im_swap_remove (md_peers_tracks_subs m) target_peer_map\<rparr>)
                [Kv target_peer_map KvUnsub]
         else m\<lparr>md_peers_tracks_subs := im_insert (md_peers_tracks_subs m) target_peer_map subs1\<rparr>)))"

definition md_on_leave ::
  "('w, 'fb) externals \<Rightarrow> ('e, 'w, 'fb) room_metadata \<Rightarrow> 'e \<Rightarrow> ('e, 'w, 'fb) room_metadata res" where
  "md_on_leave x m endpoint =
     (case im_get (md_peers m) endpoint of
        None \<Rightarrow> Inr m
      | Some peer \<Rightarrow>
          (let m1 = m\<lparr>md_peers := im_swap_remove (md_peers m) endpoint\<rparr>;
               peer_key = peers_key x (pe_peer peer);
               m2 = (if rp_peer (pe_publish peer) then md_emit m1 [Kv (md_peers_map m1) (KvDel peer_key)] else m1);
               pmap = peer_map x (md_room m2) (pe_peer peer);
               m3 = md_emit m2 (concat (map (\<lambda>(_, track).
                      [Kv (md_tracks_map m2) (KvDel (tracks_key x (pe_peer peer) track)),
                       Kv pmap (KvDel (tracks_key x (pe_peer peer) track))]) (pe_pub_tracks peer)));
               m4 = (let subs = is_swap_remove (md_peers_map_subscribers m3) endpoint;
                         m' = m3\<lparr>md_peers_map_subscribers := subs\<rparr>
                     in if endpoint \<in> set (md_peers_map_subscribers m3) \<and> subs = []
                        then md_emit m' [Kv (md_peers_map m') KvUnsub] else m');
               m5 = (let subs = is_swap_remove (md_tracks_map_subscribers m4) endpoint;
                         m' = m4\<lparr>md_tracks_map_subscribers := subs\<rparr>
                     in if endpoint \<in> set (md_tracks_map_subscribers m4) \<and> subs = []
                        then md_emit m' [Kv (md_tracks_map m') KvUnsub] else m')
           in md_leave_targets x endpoint (pe_sub_peers peer) m5))"

definition md_on_subscribe_peer ::
  "('w, 'fb) externals \<Rightarrow> ('e, 'w, 'fb) room_metadata \<Rightarrow> 'e \<Rightarrow> peer_id \<Rightarrow> ('e, 'w, 'fb) room_metadata res" where
  "md_on_subscribe_peer x m endpoint target =
     res_bind (rexpect (im_get (md_peers m) endpoint)) (\<lambda>peer.
     let target_peer_map = peer_map x (md_room m) target;
         subs = (case im_get (md_peers_tracks_subs m) target_peer_map of None \<Rightarrow> [] | Some s \<Rightarrow> s);
         need_sub = (subs = []);
         m1 = m\<lparr>md_peers_tracks_subs := im_insert (md_peers_tracks_subs m) target_peer_map (is_insert subs endpoint),
                md_peers := im_insert (md_peers m) endpoint (peer\<lparr>pe_sub_peers := is_insert (pe_sub_peers peer) target\<rparr>)\<rparr>
     in Inr (if need_sub then md_emit m1 [Kv target_peer_map KvSub] else m1))"

definition md_on_unsubscribe_peer ::
  "('w, 'fb) externals \<Rightarrow> ('e, 'w, 'fb) room_metadata \<Rightarrow> 'e \<Rightarrow> peer_id \<Rightarrow> ('e, 'w, 'fb) room_metadata res" where
  "md_on_unsubscribe_peer x m endpoint target =
     res_bind (rexpect (im_get (md_peers m) endpoint)) (\<lambda>peer.
     let target_peer_map = peer_map x (md_room m) target;
         subs = (case im_get (md_peers_tracks_subs m) target_peer_map of None \<Rightarrow> [] | Some s \<Rightarrow> s);
         subs1 = is_swap_remove subs endpoint;
         m1 = m\<lparr>md_peers_tracks_subs := im_insert (md_peers_tracks_subs m) target_peer_map subs1,
                md_peers := im_insert (md_peers m) endpoint (peer\<lparr>pe_sub_peers := is_swap_remove (pe_sub_peers peer) target\<rparr>)\<rparr>
     in Inr (if subs1 = []
             then md_emit (m1\<lparr>md_peers_tracks_subs := im_swap_remove (md_peers_tracks_subs m1) target_peer_map\<rparr>)
                    [Kv target_peer_map KvUnsub]
             else m1))"

definition md_on_track_publish ::
  "('w, 'fb) externals \<Rightarrow> ('e, 'w, 'fb) room_metadata \<Rightarrow> 'e \<Rightarrow> remote_track_id \<Rightarrow> track_name \<Rightarrow> track_meta \<Rightarrow>
   ('e, 'w, 'fb) room_metadata" where
  "md_on_track_publish x m endpoint track_id track meta =
     (case im_get (md_peers m) endpoint of
        None \<Rightarrow> m
      | Some peer \<Rightarrow>
          if rp_tracks (pe_publish peer)
          then let info = \<lparr>ti_peer = pe_peer peer, ti_track = track, ti_meta = meta\<rparr>;
                   track_key = tracks_key x (pe_peer peer) track;
                   m1 = m\<lparr>md_peers := im_insert (md_peers m) endpoint
                     (peer\<lparr>pe_pub_tracks := im_insert (pe_pub_tracks peer) track_id track\<rparr>)\<rparr>
               in md_emit m1 [Kv (md_tracks_map m1) (KvSet track_key (x_track_ser x info)),
                              Kv (peer_map x (md_room m1) (pe_peer peer)) (KvSet track_key (x_track_ser x info))]
          else m)"

definition md_on_track_unpublish ::
  "('w, 'fb) externals \<Rightarrow> ('e, 'w, 'fb) room_metadata \<Rightarrow> 'e \<Rightarrow> remote_track_id \<Rightarrow> ('e, 'w, 'fb) room_metadata" where
  "md_on_track_unpublish x m endpoint track_id =
     (case im_get (md_peers m) endpoint of
        None \<Rightarrow> m
      | Some peer \<Rightarrow>
          (case im_get (pe_pub_tracks peer) track_id of
             None \<Rightarrow> m
           | Some track \<Rightarrow>
               let track_key = tracks_key x (pe_peer peer) track;
                   m1 = m\<lparr>md_peers := im_insert (md_peers m) endpoint
                     (peer\<lparr>pe_pub_tracks := im_swap_remove (pe_pub_tracks peer) track_id\<rparr>)\<rparr>
               in md_emit m1 [Kv (md_tracks_map m1) (KvDel track_key),
                              Kv (peer_map x (md_room m1) (pe_peer peer)) (KvDel track_key)]))"

datatype 'w map_event = OnSet nat 'w | OnDel nat | OnRelaySelected

definition md_on_peers_kv_event ::
  "('w, 'fb) externals \<Rightarrow> ('e, 'w, 'fb) room_metadata \<Rightarrow> nat \<Rightarrow> 'w option \<Rightarrow> ('e, 'w, 'fb) room_metadata" where
  "md_on_peers_kv_event x m peer_key data =
     (let subscribers = md_peers_map_subscribers m in
      case data of
        Some d \<Rightarrow>
          (case x_peer_deser x d of
             None \<Rightarrow> m
           | Some info \<Rightarrow>
               let m1 = m\<lparr>md_cluster_peers := im_insert (md_cluster_peers m) peer_key info\<rparr> in
               if subscribers \<noteq> [] then md_emit m1 [ToEndpoint subscribers (PeerJoined (pi_peer info) (pi_meta info))] else m1)
      | None \<Rightarrow>
          (case im_get (md_cluster_peers m) peer_key of
             None \<Rightarrow> m
           | Some info \<Rightarrow>
               let m1 = m\<lparr>md_cluster_peers := im_swap_remove (md_cluster_peers m) peer_key\<rparr> in
               if subscribers \<noteq> [] then md_emit m1 [ToEndpoint subscribers (PeerLeaved (pi_peer info) (pi_meta info))] else m1))"

definition md_on_tracks_kv_event ::
  "('w, 'fb) externals \<Rightarrow> ('e, 'w, 'fb) room_metadata \<Rightarrow> nat \<Rightarrow> 'w option \<Rightarrow> ('e, 'w, 'fb) room_metadata" where
  "md_on_tracks_kv_event x m track data =
     (let subscribers = md_tracks_map_subscribers m in
      case data of
        Some d \<Rightarrow>
          (case x_track_deser x d of
             None \<Rightarrow> m
           | Some info \<Rightarrow>
               let m1 = m\<lparr>md_cluster_tracks := im_insert (md_cluster_tracks m) track info\<rparr> in
               if subscribers \<noteq> []
               then md_emit m1 [ToEndpoint subscribers (TrackStarted (ti_peer info) (ti_track info) (ti_meta info))] else m1)
      | None \<Rightarrow>
          (case im_get (md_cluster_tracks m) track of
             None \<Rightarrow> m
           | Some info \<Rightarrow>
               let m1 = m\<lparr>md_cluster_tracks := im_swap_remove (md_cluster_tracks m) track\<rparr> in
               if subscribers \<noteq> []
               then md_emit m1 [ToEndpoint subscribers (TrackStopped (ti_peer info) (ti_track info) (ti_meta info))] else m1))"

definition md_on_peers_tracks_kv_event ::
  "('w, 'fb) externals \<Rightarrow> ('e, 'w, 'fb) room_metadata \<Rightarrow> nat \<Rightarrow> nat \<Rightarrow> 'w option \<Rightarrow> ('e, 'w, 'fb) room_metadata" where
  "md_on_peers_tracks_kv_event x m pmap track data =
     (case (case data of None \<Rightarrow> Some None | Some d \<Rightarrow> map_option Some (x_track_deser x d)) of
        None \<Rightarrow> m
      | Some parsed \<Rightarrow>
          (case im_get (md_peers_tracks_subs m) pmap of
             None \<Rightarrow> m
           | Some subscribers \<Rightarrow>
               (case parsed of
                  Some info \<Rightarrow> md_emit (m\<lparr>md_cluster_tracks := im_insert (md_cluster_tracks m) track info\<rparr>)
                    [ToEndpoint subscribers (TrackStarted (ti_peer info) (ti_track info) (ti_meta info))]
                | None \<Rightarrow>
                    (case im_get (md_cluster_tracks m) track of
                       None \<Rightarrow> m
                     | Some info \<Rightarrow> md_emit (m\<lparr>md_cluster_tracks := im_swap_remove (md_cluster_tracks m) track\<rparr>)
                         [ToEndpoint subscribers (TrackStopped (ti_peer info) (ti_track info) (ti_meta info))]))))"

definition md_on_kv_event ::
  "('w, 'fb) externals \<Rightarrow> ('e, 'w, 'fb) room_metadata \<Rightarrow> nat \<Rightarrow> 'w map_event \<Rightarrow> ('e, 'w, 'fb) room_metadata" where
  "md_on_kv_event x m kv_map event =
     (if md_peers_map m = kv_map
      then (case event of OnSet k d \<Rightarrow> md_on_peers_kv_event x m k (Some d) | OnDel k \<Rightarrow> md_on_peers_kv_event x m k None
              | OnRelaySelected \<Rightarrow> m)
      else if md_tracks_map m = kv_map
      then (case event of OnSet k d \<Rightarrow> md_on_tracks_kv_event x m k (Some d) | OnDel k \<Rightarrow> md_on_tracks_kv_event x m k None
              | OnRelaySelected \<Rightarrow> m)
      else if im_contains (md_peers_tracks_subs m) kv_map
      then (case event of OnSet k d \<Rightarrow> md_on_peers_tracks_kv_event x m kv_map k (Some d)
              | OnDel k \<Rightarrow> md_on_peers_tracks_kv_event x m kv_map k None | OnRelaySelected \<Rightarrow> m)
      else m)"

definition md_is_empty :: "('e, 'w, 'fb) room_metadata \<Rightarrow> bool" where
  "md_is_empty m \<longleftrightarrow> md_queue m = [] \<and> md_peers m = [] \<and> md_peers_map_subscribers m = [] \<and>
     md_tracks_map_subscribers m = [] \<and> md_peers_tracks_subs m = []"

definition md_pop_output ::
  "('e, 'w, 'fb) room_metadata \<Rightarrow> ('e, 'w, 'fb) room_metadata \<times> ('e, 'w, 'fb) room_output option" where
  "md_pop_output m = (case md_queue m of [] \<Rightarrow> (m, None) | out # q \<Rightarrow> (m\<lparr>md_queue := q\<rparr>, Some out))"

section \<open>Invariant\<close>

fun kv_cmd :: "('e, 'w, 'fb) room_output \<Rightarrow> (nat \<times> bool) option" where
  "kv_cmd (Kv c KvSub) = Some (c, True)"
| "kv_cmd (Kv c KvUnsub) = Some (c, False)"
| "kv_cmd out = None"

text \<open>The maps an endpoint subscribed by hand.\<close>

definition md_private :: "('w, 'fb) externals \<Rightarrow> ('e, 'w, 'fb) room_metadata \<Rightarrow> 'e \<Rightarrow> nat list option" where
  "md_private x m e =
     (case im_get (md_peers m) e of
        None \<Rightarrow> None
      | Some pc \<Rightarrow> if pe_sub_peers pc = [] then None else Some (map (peer_map x (md_room m)) (pe_sub_peers pc)))"

text \<open>The maps of the peers \<open>T\<close> that are watched by hand differ from each other and from the shared maps.\<close>

definition ids_ok :: "('w, 'fb) externals \<Rightarrow> nat \<Rightarrow> peer_id set \<Rightarrow> bool" where
  "ids_ok x room T \<longleftrightarrow> inj_on (peer_map x room) T \<and> peers_map room \<notin> peer_map x room ` T \<and>
     tracks_map room \<notin> peer_map x room ` T \<and> tracks_map room \<noteq> peers_map room"

definition md_base :: "('w, 'fb) externals \<Rightarrow> nat \<Rightarrow> peer_id set \<Rightarrow> ('e, 'w, 'fb) room_metadata \<Rightarrow> bool" where
  "md_base x room T m \<longleftrightarrow> md_room m = room \<and> md_peers_map m = peers_map room \<and> md_tracks_map m = tracks_map room \<and>
     im_wf (md_peers m) \<and> im_wf (md_peers_tracks_subs m) \<and> distinct (md_peers_map_subscribers m) \<and>
     distinct (md_tracks_map_subscribers m) \<and> set (md_peers_map_subscribers m) \<subseteq> dom (im_get (md_peers m)) \<and>
     set (md_tracks_map_subscribers m) \<subseteq> dom (im_get (md_peers m)) \<and>
     (\<forall>e pc. im_get (md_peers m) e = Some pc \<longrightarrow> set (pe_sub_peers pc) \<subseteq> T \<and> distinct (pe_sub_peers pc))"

definition md_inv :: "('w, 'fb) externals \<Rightarrow> nat \<Rightarrow> peer_id set \<Rightarrow> ('e, 'w, 'fb) room_metadata \<Rightarrow> bool" where
  "md_inv x room T m \<longleftrightarrow> md_base x room T m \<and>
     rel_inv (im_get (md_peers_tracks_subs m)) (md_private x m) undefined {} \<and>
     dom (im_get (md_peers_tracks_subs m)) \<subseteq> peer_map x room ` T"

definition md_active :: "('e, 'w, 'fb) room_metadata \<Rightarrow> nat set" where
  "md_active m = (if md_peers_map_subscribers m = [] then {} else {md_peers_map m}) \<union>
     (if md_tracks_map_subscribers m = [] then {} else {md_tracks_map m}) \<union> dom (im_get (md_peers_tracks_subs m))"

lemma md_emit_simps [simp]:
  "md_room (md_emit m outs) = md_room m" "md_peers_map (md_emit m outs) = md_peers_map m"
  "md_tracks_map (md_emit m outs) = md_tracks_map m" "md_peers (md_emit m outs) = md_peers m"
  "md_peers_map_subscribers (md_emit m outs) = md_peers_map_subscribers m"
  "md_tracks_map_subscribers (md_emit m outs) = md_tracks_map_subscribers m"
  "md_peers_tracks_subs (md_emit m outs) = md_peers_tracks_subs m"
  "md_cluster_peers (md_emit m outs) = md_cluster_peers m" "md_cluster_tracks (md_emit m outs) = md_cluster_tracks m"
  "md_queue (md_emit m outs) = md_queue m @ outs"
  by (simp_all add: md_emit_def)

lemma md_cong:
  assumes "md_room m' = md_room m" "md_peers_map m' = md_peers_map m" "md_tracks_map m' = md_tracks_map m"
    "md_peers m' = md_peers m" "md_peers_map_subscribers m' = md_peers_map_subscribers m"
    "md_tracks_map_subscribers m' = md_tracks_map_subscribers m" "md_peers_tracks_subs m' = md_peers_tracks_subs m"
  shows "md_inv x room T m' = md_inv x room T m" "md_active m' = md_active m"
proof -
  have "md_private x m' = md_private x m" using assms by (simp add: md_private_def fun_eq_iff split: option.split)
  then show "md_inv x room T m' = md_inv x room T m" "md_active m' = md_active m"
    using assms by (simp_all add: md_inv_def md_base_def md_active_def)
qed

lemma toggles_map_silent: "(\<And>y. cmd (f y) = None) \<Longrightarrow> toggles cmd S (map f ys @ rest) = toggles cmd S rest"
  by (induction ys) simp_all

lemma md_inv_new: "tracks_map room \<noteq> peers_map room \<Longrightarrow> md_inv x room T (md_new room)"
  by (simp add: md_inv_def md_base_def md_new_def md_private_def[abs_def] rel_empty)

lemma is_insert_length: "x \<notin> set s \<Longrightarrow> length (is_insert s x) = Suc 0 \<longleftrightarrow> s = []"
  by (simp add: is_insert_def)

lemma toggles_segment:
  assumes "\<And>y. kv_cmd (f y) = None" "k \<in> S \<longleftrightarrow> subs \<noteq> []"
  shows "toggles kv_cmd S (if b then map f ys @ (if subs = [] then [Kv k KvSub] else []) else []) =
    Some (S \<union> (if b then {k} else {}))"
proof -
  have "toggles kv_cmd S (map f ys) = Some S" by (rule toggles_silent) (auto simp: assms(1))
  then show ?thesis using assms(2) by (auto simp: toggles_append insert_absorb)
qed

lemma md_join_ok:
  assumes inv: "md_inv x room T m" and ids: "ids_ok x room T" and new: "im_get (md_peers m) e = None"
  shows "\<exists>outs. md_queue (md_on_join x m e peer meta pb sb) = md_queue m @ outs \<and>
    toggles kv_cmd (md_active m) outs = Some (md_active (md_on_join x m e peer meta pb sb)) \<and>
    md_inv x room T (md_on_join x m e peer meta pb sb)"
proof -
  let ?m = "md_on_join x m e peer meta pb sb"
  let ?ps = "md_peers_map_subscribers m" and ?ts = "md_tracks_map_subscribers m"
  have base: "md_base x room T m" using inv by (simp add: md_inv_def)
  have nin: "e \<notin> set ?ps" "e \<notin> set ?ts" using base new by (auto simp: md_base_def domIff)
  note il = is_insert_length[OF nin(1)] is_insert_length[OF nin(2)]
  have eff: "md_room ?m = md_room m" "md_peers_map ?m = md_peers_map m" "md_tracks_map ?m = md_tracks_map m"
      "md_peers ?m = im_insert (md_peers m) e \<lparr>pe_peer = peer, pe_publish = pb, pe_sub_peers = [], pe_pub_tracks = []\<rparr>"
      "md_peers_map_subscribers ?m = (if rs_peers sb then is_insert ?ps e else ?ps)"
      "md_tracks_map_subscribers ?m = (if rs_tracks sb then is_insert ?ts e else ?ts)"
      "md_peers_tracks_subs ?m = md_peers_tracks_subs m"
    by (simp_all add: md_on_join_def Let_def)
  have "md_private x ?m = md_private x m" using new by (auto simp: md_private_def eff fun_eq_iff split: option.split)
  then have inv': "md_inv x room T ?m"
    using inv base by (auto simp: md_inv_def md_base_def eff)
  have q: "md_queue ?m = md_queue m @
      (if rp_peer pb then [Kv (md_peers_map m) (KvSet (peers_key x peer) (x_peer_ser x \<lparr>pi_peer = peer, pi_meta = meta\<rparr>))] else []) @
      (if rs_peers sb then map (\<lambda>(_, info). ToEndpoint [e] (PeerJoined (pi_peer info) (pi_meta info))) (md_cluster_peers m) @
         (if ?ps = [] then [Kv (md_peers_map m) KvSub] else []) else []) @
      (if rs_tracks sb then map (\<lambda>(_, info). ToEndpoint [e] (TrackStarted (ti_peer info) (ti_track info) (ti_meta info))) (md_cluster_tracks m) @
         (if ?ts = [] then [Kv (md_tracks_map m) KvSub] else []) else [])"
    by (simp add: md_on_join_def Let_def il) (simp add: is_insert_def)
  have dis: "md_peers_map m \<notin> dom (im_get (md_peers_tracks_subs m))" "md_tracks_map m \<notin> dom (im_get (md_peers_tracks_subs m))"
      "md_tracks_map m \<noteq> md_peers_map m"
    using inv ids by (auto simp: md_inv_def md_base_def ids_ok_def)
  have act: "md_active ?m = md_active m \<union> (if rs_peers sb then {md_peers_map m} else {}) \<union> (if rs_tracks sb then {md_tracks_map m} else {})"
    by (auto simp: md_active_def eff)
  have seg1: "toggles kv_cmd (md_active m) (if rp_peer pb then [Kv (md_peers_map m) (KvSet k w)] else []) = Some (md_active m)" for k w
    by simp
  have seg2: "toggles kv_cmd (md_active m) (if rs_peers sb
      then map (\<lambda>(_, info). ToEndpoint [e] (PeerJoined (pi_peer info) (pi_meta info))) (md_cluster_peers m) @
         (if ?ps = [] then [Kv (md_peers_map m) KvSub] else []) else []) =
      Some (md_active m \<union> (if rs_peers sb then {md_peers_map m} else {}))"
    using dis by (intro toggles_segment) (auto simp: md_active_def)
  have seg3: "toggles kv_cmd (md_active m \<union> (if rs_peers sb then {md_peers_map m} else {})) (if rs_tracks sb
      then map (\<lambda>(_, info). ToEndpoint [e] (TrackStarted (ti_peer info) (ti_track info) (ti_meta info))) (md_cluster_tracks m) @
         (if ?ts = [] then [Kv (md_tracks_map m) KvSub] else []) else []) = Some (md_active ?m)"
    unfolding act using dis by (intro toggles_segment) (auto simp: md_active_def)
  have "toggles kv_cmd (md_active m) (outs1 @ outs2 @ outs3) = Some (md_active ?m)"
    if "toggles kv_cmd (md_active m) outs1 = Some (md_active m)"
      "toggles kv_cmd (md_active m) outs2 = Some (md_active m \<union> (if rs_peers sb then {md_peers_map m} else {}))"
      "toggles kv_cmd (md_active m \<union> (if rs_peers sb then {md_peers_map m} else {})) outs3 = Some (md_active ?m)"
    for outs1 outs2 outs3 using that by (simp add: toggles_append)
  note t = this[OF seg1 seg2 seg3]
  show ?thesis by (intro exI conjI) (rule q, rule t, rule inv')
qed

lemma md_private_get:
  assumes "md_base x room T m" "ids_ok x room T" "im_get (md_peers m) e = Some pc"
  shows "tab_get (md_private x m) e = map (peer_map x room) (pe_sub_peers pc)"
    and "distinct (map (peer_map x room) (pe_sub_peers pc))"
    and "set (pe_sub_peers pc) \<subseteq> T"
proof -
  show T: "set (pe_sub_peers pc) \<subseteq> T" using assms by (auto simp: md_base_def)
  show "tab_get (md_private x m) e = map (peer_map x room) (pe_sub_peers pc)"
    using assms by (auto simp: md_private_def md_base_def)
  have "inj_on (peer_map x room) (set (pe_sub_peers pc))" using assms(2) T by (auto simp: ids_ok_def intro: inj_on_subset)
  moreover have "distinct (pe_sub_peers pc)" using assms(1,3) by (auto simp: md_base_def)
  ultimately show "distinct (map (peer_map x room) (pe_sub_peers pc))" by (simp add: distinct_map)
qed

lemma ids_ok_private:
  "ids_ok x room T \<Longrightarrow> t \<in> T \<Longrightarrow> peer_map x room t \<noteq> peers_map room \<and> peer_map x room t \<noteq> tracks_map room"
  by (metis ids_ok_def imageI)

text \<open>Changing the hand-made subscriptions of one endpoint.\<close>

lemma md_base_update:
  assumes "md_base x room T m" "im_get (md_peers m) e = Some pc" "md_room m1 = room" "md_peers_map m1 = md_peers_map m"
    "md_tracks_map m1 = md_tracks_map m" "md_peers_map_subscribers m1 = md_peers_map_subscribers m"
    "md_tracks_map_subscribers m1 = md_tracks_map_subscribers m" "md_peers m1 = im_insert (md_peers m) e pc1"
    "im_wf (md_peers_tracks_subs m1)" "set (pe_sub_peers pc1) \<subseteq> T" "distinct (pe_sub_peers pc1)"
  shows "md_base x room T m1"
  using assms by (auto simp: md_base_def)

lemma md_private_update:
  assumes "md_room m' = md_room m" "md_peers m' = im_insert (md_peers m) e pc"
  shows "md_private x m' = tab_put (md_private x m) e (map (peer_map x (md_room m)) (pe_sub_peers pc))"
  using assms by (auto simp: md_private_def tab_put_def fun_eq_iff split: option.split)

lemma md_subscribe_ok:
  assumes inv: "md_inv x room T m" and ids: "ids_ok x room T" and peer: "im_get (md_peers m) e = Some pc" and t: "t \<in> T"
  shows "\<exists>m1 outs. md_on_subscribe_peer x m e t = Inr m1 \<and> md_queue m1 = md_queue m @ outs \<and>
    toggles kv_cmd (md_active m) outs = Some (md_active m1) \<and> md_inv x room T m1"
proof -
  have base: "md_base x room T m" and room: "md_room m = room" using inv by (auto simp: md_inv_def md_base_def)
  define c where "c = peer_map x room t"
  let ?A = "im_get (md_peers_tracks_subs m)"
  let ?subs = "tab_get ?A c"
  let ?pc = "pe_sub_peers_update (\<lambda>_. is_insert (pe_sub_peers pc) t) pc"
  obtain m1 where m1: "md_on_subscribe_peer x m e t = Inr m1" "md_room m1 = room" "md_peers_map m1 = md_peers_map m"
      "md_tracks_map m1 = md_tracks_map m" "md_peers_map_subscribers m1 = md_peers_map_subscribers m"
      "md_tracks_map_subscribers m1 = md_tracks_map_subscribers m"
      "md_peers m1 = im_insert (md_peers m) e ?pc"
      "md_peers_tracks_subs m1 = im_insert (md_peers_tracks_subs m) c (is_insert ?subs e)"
      "md_queue m1 = md_queue m @ (if ?subs = [] then [Kv c KvSub] else [])"
    using peer room by (simp add: md_on_subscribe_peer_def Let_def c_def)
  note pg = md_private_get[OF base ids peer]
  have wf: "im_wf (md_peers_tracks_subs m)" "distinct (pe_sub_peers pc)" using base peer by (auto simp: md_base_def)
  have rel: "rel_inv ?A (md_private x m) undefined {}" using inv by (simp add: md_inv_def)
  have A1: "im_get (md_peers_tracks_subs m1) = tab_put ?A c (is_insert ?subs e)"
    by (simp add: m1 tab_put_def)
  have B1: "md_private x m1 = tab_put (md_private x m) e (map (peer_map x room) (is_insert (pe_sub_peers pc) t))"
    using md_private_update[of m1 m e ?pc x] m1 room by simp
  have "distinct (map (peer_map x room) (is_insert (pe_sub_peers pc) t))"
    using pg(2,3) t ids by (auto simp: is_insert_def ids_ok_def inj_on_def)
  then have "rel_inv (im_get (md_peers_tracks_subs m1)) (md_private x m1) undefined {}"
    unfolding A1 B1 using pg(1) rel tab_wf_get[of ?A c] by (intro rel_add) (auto simp: rel_inv_def c_def)
  moreover have "md_base x room T m1"
    using pg(3) t wf by (intro md_base_update[OF base peer m1(2-7)]) (auto simp: m1(8))
  moreover have "dom (im_get (md_peers_tracks_subs m1)) \<subseteq> peer_map x room ` T"
    using inv t by (auto simp: A1 tab_put_dom md_inv_def c_def)
  ultimately have inv1: "md_inv x room T m1" by (simp add: md_inv_def)
  have "?subs = [] \<longleftrightarrow> c \<notin> dom ?A" using rel by (auto simp: rel_inv_def tab_dom)
  moreover have "c \<notin> {md_peers_map m, md_tracks_map m}" using ids_ok_private[OF ids t] base by (auto simp: md_base_def c_def)
  moreover have "md_active m1 = insert c (md_active m)"
    by (auto simp: md_active_def m1(3-6) A1 tab_put_dom)
  ultimately have "toggles kv_cmd (md_active m) (if ?subs = [] then [Kv c KvSub] else []) = Some (md_active m1)"
    by (auto simp: md_active_def)
  then show ?thesis using m1(1,9) inv1 by blast
qed

lemma md_unsubscribe_ok:
  assumes inv: "md_inv x room T m" and ids: "ids_ok x room T" and peer: "im_get (md_peers m) e = Some pc"
    and t: "t \<in> set (pe_sub_peers pc)"
  shows "\<exists>m1 outs. md_on_unsubscribe_peer x m e t = Inr m1 \<and> md_queue m1 = md_queue m @ outs \<and>
    toggles kv_cmd (md_active m) outs = Some (md_active m1) \<and> md_inv x room T m1"
proof -
  have base: "md_base x room T m" and room: "md_room m = room" using inv by (auto simp: md_inv_def md_base_def)
  define c where "c = peer_map x room t"
  let ?A = "im_get (md_peers_tracks_subs m)"
  let ?subs = "is_swap_remove (tab_get ?A c) e"
  let ?pc = "pe_sub_peers_update (\<lambda>_. is_swap_remove (pe_sub_peers pc) t) pc"
  obtain m1 where m1: "md_on_unsubscribe_peer x m e t = Inr m1" "md_room m1 = room" "md_peers_map m1 = md_peers_map m"
      "md_tracks_map m1 = md_tracks_map m" "md_peers_map_subscribers m1 = md_peers_map_subscribers m"
      "md_tracks_map_subscribers m1 = md_tracks_map_subscribers m"
      "md_peers m1 = im_insert (md_peers m) e ?pc"
      "md_peers_tracks_subs m1 = (let s1 = im_insert (md_peers_tracks_subs m) c ?subs in if ?subs = [] then im_swap_remove s1 c else s1)"
      "md_queue m1 = md_queue m @ (if ?subs = [] then [Kv c KvUnsub] else [])"
    using peer room by (simp add: md_on_unsubscribe_peer_def Let_def c_def)
  note pg = md_private_get[OF base ids peer]
  have wf: "im_wf (md_peers_tracks_subs m)" "distinct (pe_sub_peers pc)" using base peer by (auto simp: md_base_def)
  have rel: "rel_inv ?A (md_private x m) undefined {}" using inv by (simp add: md_inv_def)
  have dA: "distinct (tab_get ?A c)" using rel by (simp add: rel_inv_def tab_wf_get)
  note rmA = is_swap_remove_set_distinct[OF dA, of e] and rmB = is_swap_remove_set_distinct[OF wf(2), of t]
  have A1: "im_get (md_peers_tracks_subs m1) = tab_put ?A c ?subs"
    using wf by (simp add: m1(8) tab_put_def Let_def)
  have B1: "md_private x m1 = tab_put (md_private x m) e (map (peer_map x room) (is_swap_remove (pe_sub_peers pc) t))"
    using md_private_update[of m1 m e ?pc x] m1 room by simp
  have inj: "inj_on (peer_map x room) (set (pe_sub_peers pc))" using pg(2) by (simp add: distinct_map)
  then have "distinct (map (peer_map x room) (is_swap_remove (pe_sub_peers pc) t))"
      "set (map (peer_map x room) (is_swap_remove (pe_sub_peers pc) t)) = set (map (peer_map x room) (pe_sub_peers pc)) - {c}"
    using rmB t by (auto simp: distinct_map c_def inj_on_def)
  then have "rel_inv (im_get (md_peers_tracks_subs m1)) (md_private x m1) undefined {}"
    unfolding A1 B1 using pg(1) rel rmA by (intro rel_del) auto
  moreover have "md_base x room T m1"
    using pg(3) rmB wf by (intro md_base_update[OF base peer m1(2-7)]) (auto simp: m1(8) Let_def)
  moreover have "dom (im_get (md_peers_tracks_subs m1)) \<subseteq> peer_map x room ` T"
    using inv t pg(3) by (auto simp: A1 tab_put_dom md_inv_def c_def)
  ultimately have inv1: "md_inv x room T m1" by (simp add: md_inv_def)
  have "tab_mem (md_private x m) e c" using pg(1) t by (auto simp: tab_mem_get c_def)
  then have "tab_mem ?A c e" using rel by (simp add: rel_inv_def)
  then have "c \<in> dom ?A" by (auto simp: tab_mem_def)
  moreover have "c \<notin> {md_peers_map m, md_tracks_map m}" using ids_ok_private[OF ids, of t] base t pg(3) by (auto simp: md_base_def c_def)
  moreover have "md_active m1 = (if ?subs = [] then md_active m - {c} else md_active m)"
    using calculation by (auto simp: md_active_def m1(3-6) A1 tab_put_dom)
  ultimately have "toggles kv_cmd (md_active m) (if ?subs = [] then [Kv c KvUnsub] else []) = Some (md_active m1)"
    by (auto simp: md_active_def)
  then show ?thesis using m1(1,9) inv1 by blast
qed

text \<open>While an endpoint leaves, \<open>P\<close> are the maps it has still to be taken off.\<close>

definition md_leaving :: "('w, 'fb) externals \<Rightarrow> nat \<Rightarrow> peer_id set \<Rightarrow> 'e \<Rightarrow> nat set \<Rightarrow> ('e, 'w, 'fb) room_metadata \<Rightarrow> bool" where
  "md_leaving x room T e P m \<longleftrightarrow> md_base x room T m \<and> im_get (md_peers m) e = None \<and>
     rel_inv (im_get (md_peers_tracks_subs m)) (md_private x m) e P \<and>
     dom (im_get (md_peers_tracks_subs m)) \<subseteq> peer_map x room ` T"

lemma md_leaving_done: "md_leaving x room T e {} m \<Longrightarrow> md_inv x room T m"
  by (auto simp: md_leaving_def md_inv_def rel_inv_def)

lemma md_leave_target_ok:
  assumes lv: "md_leaving x room T e (peer_map x room ` set (t # ts)) m" and ids: "ids_ok x room T"
    and ts: "set (t # ts) \<subseteq> T" "distinct (t # ts)"
  shows "\<exists>m1 outs. md_leave_targets x e (t # ts) m = md_leave_targets x e ts m1 \<and> md_queue m1 = md_queue m @ outs \<and>
    toggles kv_cmd (md_active m) outs = Some (md_active m1) \<and> md_leaving x room T e (peer_map x room ` set ts) m1"
proof -
  define c where "c = peer_map x room t"
  let ?A = "im_get (md_peers_tracks_subs m)" and ?B = "md_private x m"
  let ?subs = "is_swap_remove (tab_get ?A c) e"
  have base: "md_base x room T m" and rel: "rel_inv ?A ?B e (peer_map x room ` set (t # ts))" and room: "md_room m = room"
    and new: "im_get (md_peers m) e = None"
    using lv by (auto simp: md_leaving_def md_base_def)
  have "tab_mem ?A c e" using rel by (auto simp: rel_inv_def c_def)
  then obtain l where l: "?A c = Some l" by (auto simp: tab_mem_def)
  have wf: "im_wf (md_peers_tracks_subs m)" using base by (simp add: md_base_def)
  define m1 where "m1 = (if ?subs = []
     then md_emit (m\<lparr>md_peers_tracks_subs := im_swap_remove (md_peers_tracks_subs m) c\<rparr>) [Kv c KvUnsub]
     else m\<lparr>md_peers_tracks_subs := im_insert (md_peers_tracks_subs m) c ?subs\<rparr>)"
  have run: "md_leave_targets x e (t # ts) m = md_leave_targets x e ts m1"
    using l room by (simp add: m1_def c_def Let_def)
  have same: "md_room m1 = md_room m" "md_peers m1 = md_peers m" "md_peers_map m1 = md_peers_map m"
      "md_tracks_map m1 = md_tracks_map m" "md_peers_map_subscribers m1 = md_peers_map_subscribers m"
      "md_tracks_map_subscribers m1 = md_tracks_map_subscribers m"
    by (simp_all add: m1_def)
  have A1: "im_get (md_peers_tracks_subs m1) = tab_put ?A c ?subs" using wf by (simp add: m1_def tab_put_def)
  have B1: "md_private x m1 = ?B" using same by (simp add: md_private_def fun_eq_iff split: option.split)
  have dA: "distinct (tab_get ?A c)" using rel by (simp add: rel_inv_def tab_wf_get)
  have "rel_inv (tab_put ?A c ?subs) ?B e (peer_map x room ` set (t # ts) - {c})"
    using is_swap_remove_set_distinct[OF dA] new by (intro rel_leave_step[OF rel]) (simp_all add: md_private_def)
  moreover have "peer_map x room ` set (t # ts) - {c} = peer_map x room ` set ts"
    using ids ts by (auto simp: c_def ids_ok_def inj_on_def)
  moreover have "md_base x room T m1" using base wf by (auto simp: md_base_def same) (auto simp: m1_def)
  moreover have "dom (im_get (md_peers_tracks_subs m1)) \<subseteq> peer_map x room ` T"
    using lv l by (auto simp: A1 tab_put_dom md_leaving_def split: if_splits)
  ultimately have lv1: "md_leaving x room T e (peer_map x room ` set ts) m1"
    using new by (simp add: md_leaving_def A1 B1 same)
  have cin: "c \<in> dom ?A" using l by auto
  moreover have "c \<noteq> md_peers_map m \<and> c \<noteq> md_tracks_map m"
    using ids_ok_private[OF ids, of t] base ts by (auto simp: md_base_def c_def)
  ultimately have "md_active m1 = (if ?subs = [] then md_active m - {c} else md_active m)" "c \<in> md_active m"
    by (auto simp: md_active_def same A1 tab_put_dom)
  then have "toggles kv_cmd (md_active m) (if ?subs = [] then [Kv c KvUnsub] else []) = Some (md_active m1)" by simp
  moreover have "md_queue m1 = md_queue m @ (if ?subs = [] then [Kv c KvUnsub] else [])" by (simp add: m1_def)
  ultimately show ?thesis using run lv1 by blast
qed

lemma md_leave_targets_ok:
  assumes "md_leaving x room T e (peer_map x room ` set ts) m" "ids_ok x room T" "set ts \<subseteq> T" "distinct ts"
  shows "\<exists>m1 outs. md_leave_targets x e ts m = Inr m1 \<and> md_queue m1 = md_queue m @ outs \<and>
    toggles kv_cmd (md_active m) outs = Some (md_active m1) \<and> md_inv x room T m1 \<and> md_leaving x room T e {} m1"
  using assms
proof (induction ts arbitrary: m)
  case Nil
  then show ?case using md_leaving_done by fastforce
next
  case (Cons t ts)
  obtain m1 outs where m1: "md_leave_targets x e (t # ts) m = md_leave_targets x e ts m1" "md_queue m1 = md_queue m @ outs"
      "toggles kv_cmd (md_active m) outs = Some (md_active m1)" "md_leaving x room T e (peer_map x room ` set ts) m1"
    using md_leave_target_ok[OF Cons.prems] by blast
  obtain m2 outs2 where "md_leave_targets x e ts m1 = Inr m2" "md_queue m2 = md_queue m1 @ outs2"
      "toggles kv_cmd (md_active m1) outs2 = Some (md_active m2)" "md_inv x room T m2" "md_leaving x room T e {} m2"
    using Cons.IH[OF m1(4) Cons.prems(2)] Cons.prems(3,4) by auto
  then show ?case using m1 by (auto simp: toggles_append intro!: exI[of _ "outs @ outs2"])
qed

lemma toggles_unsub:
  assumes "k \<in> S \<longleftrightarrow> subs \<noteq> []" "distinct subs"
  shows "toggles kv_cmd S (if e \<in> set subs \<and> is_swap_remove subs e = [] then [Kv k KvUnsub] else []) =
    Some (if is_swap_remove subs e = [] then S - {k} else S)"
proof -
  have s: "set (is_swap_remove subs e) = set subs - {e}" by (rule is_swap_remove_set_distinct(1)[OF assms(2)])
  have "e \<in> set subs \<or> subs = []" if "is_swap_remove subs e = []"
    using s that by (cases subs) auto
  then show ?thesis using assms(1) by (auto simp: is_swap_remove_def split: option.splits)
qed

lemma md_leave_ok:
  assumes inv: "md_inv x room T m" and ids: "ids_ok x room T"
  shows "\<exists>m1 outs. md_on_leave x m e = Inr m1 \<and> md_queue m1 = md_queue m @ outs \<and>
    toggles kv_cmd (md_active m) outs = Some (md_active m1) \<and> md_inv x room T m1 \<and> im_get (md_peers m1) e = None"
proof (cases "im_get (md_peers m) e")
  case None
  then show ?thesis using inv by (auto simp: md_on_leave_def)
next
  case (Some pc)
  have base: "md_base x room T m" and room: "md_room m = room" using inv by (auto simp: md_inv_def md_base_def)
  let ?ps = "md_peers_map_subscribers m" and ?ts = "md_tracks_map_subscribers m"
  let ?ps1 = "is_swap_remove ?ps e" and ?ts1 = "is_swap_remove ?ts e"
  define dels :: "('c, 'a, 'b) room_output list" where
    "dels = (if rp_peer (pe_publish pc) then [Kv (md_peers_map m) (KvDel (peers_key x (pe_peer pc)))] else []) @
      concat (map (\<lambda>(_, track). [Kv (md_tracks_map m) (KvDel (tracks_key x (pe_peer pc) track)),
         Kv (peer_map x (md_room m) (pe_peer pc)) (KvDel (tracks_key x (pe_peer pc) track))]) (pe_pub_tracks pc))"
  define u1 :: "('c, 'a, 'b) room_output list" where "u1 = (if e \<in> set ?ps \<and> ?ps1 = [] then [Kv (md_peers_map m) KvUnsub] else [])"
  define u2 :: "('c, 'a, 'b) room_output list" where "u2 = (if e \<in> set ?ts \<and> ?ts1 = [] then [Kv (md_tracks_map m) KvUnsub] else [])"
  define m5 where "m5 = m\<lparr>md_peers := im_swap_remove (md_peers m) e, md_peers_map_subscribers := ?ps1,
     md_tracks_map_subscribers := ?ts1, md_queue := md_queue m @ dels @ u1 @ u2\<rparr>"
  have run: "md_on_leave x m e = md_leave_targets x e (pe_sub_peers pc) m5"
    unfolding md_on_leave_def Some option.case Let_def
    by (rule arg_cong[where f = "md_leave_targets x e (pe_sub_peers pc)"], rule room_metadata.equality)
       (simp_all add: m5_def dels_def u1_def u2_def)
  have dps: "distinct ?ps" "distinct ?ts" and wf: "im_wf (md_peers m)" using base by (auto simp: md_base_def)
  note rp = is_swap_remove_set_distinct[OF dps(1), of e] and rt = is_swap_remove_set_distinct[OF dps(2), of e]
  have base5: "md_base x room T m5"
    using base rp rt wf by (auto simp: md_base_def m5_def split: if_splits)
  have "md_private x m5 = (md_private x m)(e := None)"
    using wf by (auto simp: md_private_def m5_def fun_eq_iff split: option.split)
  moreover have "rel_inv (im_get (md_peers_tracks_subs m)) (md_private x m) e {}" using inv rel_user by (auto simp: md_inv_def)
  from rel_leave_start[OF this] have "rel_inv (im_get (md_peers_tracks_subs m)) ((md_private x m)(e := None)) e
      (set (tab_get (md_private x m) e))" .
  ultimately have lv: "md_leaving x room T e (peer_map x room ` set (pe_sub_peers pc)) m5"
    using base5 md_private_get(1)[OF base ids Some] inv wf by (simp add: md_leaving_def m5_def md_inv_def)
  have act: "md_peers_map m \<in> md_active m \<longleftrightarrow> ?ps \<noteq> []"
      "md_tracks_map m \<in> md_active m - {md_peers_map m} \<longleftrightarrow> ?ts \<noteq> []" "md_tracks_map m \<in> md_active m \<longleftrightarrow> ?ts \<noteq> []"
      "md_tracks_map m \<noteq> md_peers_map m" "md_peers_map m \<notin> dom (im_get (md_peers_tracks_subs m))"
      "md_tracks_map m \<notin> dom (im_get (md_peers_tracks_subs m))"
    using inv ids by (auto simp: md_active_def md_inv_def md_base_def ids_ok_def)
  have "toggles kv_cmd (md_active m) dels = Some (md_active m)" by (rule toggles_silent) (auto simp: dels_def split: if_splits)
  moreover have "toggles kv_cmd (md_active m) u1 = Some (if ?ps1 = [] then md_active m - {md_peers_map m} else md_active m)"
    unfolding u1_def by (rule toggles_unsub[OF act(1) dps(1)])
  moreover have "toggles kv_cmd S u2 = Some (if ?ts1 = [] then S - {md_tracks_map m} else S)"
    if "S = (if ?ps1 = [] then md_active m - {md_peers_map m} else md_active m)" for S
    unfolding u2_def using act that by (intro toggles_unsub[OF _ dps(2)]) auto
  moreover have "md_active m5 = (let S = (if ?ps1 = [] then md_active m - {md_peers_map m} else md_active m) in
      if ?ts1 = [] then S - {md_tracks_map m} else S)"
    using act rp(1) rt(1) by (auto simp: md_active_def m5_def Let_def is_swap_remove_def split: option.splits)
  ultimately have t5: "toggles kv_cmd (md_active m) (dels @ u1 @ u2) = Some (md_active m5)"
    by (simp add: toggles_append Let_def)
  have T: "set (pe_sub_peers pc) \<subseteq> T" "distinct (pe_sub_peers pc)" using base Some by (auto simp: md_base_def)
  obtain m6 outs where m6: "md_leave_targets x e (pe_sub_peers pc) m5 = Inr m6" "md_queue m6 = md_queue m5 @ outs"
      "toggles kv_cmd (md_active m5) outs = Some (md_active m6)" "md_inv x room T m6" "md_leaving x room T e {} m6"
    using md_leave_targets_ok[OF lv ids T] by blast
  have "md_queue m6 = md_queue m @ (dels @ u1 @ u2) @ outs" using m6(2) by (simp add: m5_def)
  moreover have "toggles kv_cmd (md_active m) ((dels @ u1 @ u2) @ outs) = Some (md_active m6)"
    using t5 m6(3) by (subst toggles_append) simp
  ultimately show ?thesis using run m6(1,4,5) by (auto simp only: md_leaving_def)
qed

section \<open>Calls and runs\<close>

datatype ('e, 'w) md_op = MdJoin 'e peer_id peer_meta room_info_publish room_info_subscribe | MdLeave 'e
  | MdSubscribe 'e peer_id | MdUnsubscribe 'e peer_id | MdPublish 'e remote_track_id track_name track_meta
  | MdUnpublish 'e remote_track_id | MdKv nat "'w map_event"

definition md_step ::
  "('w, 'fb) externals \<Rightarrow> ('e, 'w, 'fb) room_metadata \<Rightarrow> ('e, 'w) md_op \<Rightarrow> ('e, 'w, 'fb) room_metadata res" where
  "md_step x m op1 =
     (case op1 of
        MdJoin e peer meta pb sb \<Rightarrow> Inr (md_on_join x m e peer meta pb sb)
      | MdLeave e \<Rightarrow> md_on_leave x m e
      | MdSubscribe e t \<Rightarrow> md_on_subscribe_peer x m e t
      | MdUnsubscribe e t \<Rightarrow> md_on_unsubscribe_peer x m e t
      | MdPublish e tid track meta \<Rightarrow> Inr (md_on_track_publish x m e tid track meta)
      | MdUnpublish e tid \<Rightarrow> Inr (md_on_track_unpublish x m e tid)
      | MdKv k ev \<Rightarrow> Inr (md_on_kv_event x m k ev))"

text \<open>An endpoint joins once, watches peers of \<open>T\<close> after joining, and stops watching only what it watches.\<close>

definition md_pre :: "peer_id set \<Rightarrow> ('e, 'w, 'fb) room_metadata \<Rightarrow> ('e, 'w) md_op \<Rightarrow> bool" where
  "md_pre T m op1 =
     (case op1 of
        MdJoin e peer meta pb sb \<Rightarrow> im_get (md_peers m) e = None
      | MdSubscribe e t \<Rightarrow> im_get (md_peers m) e \<noteq> None \<and> t \<in> T
      | MdUnsubscribe e t \<Rightarrow> (case im_get (md_peers m) e of None \<Rightarrow> False | Some pc \<Rightarrow> t \<in> set (pe_sub_peers pc))
      | _ \<Rightarrow> True)"

lemma md_track_update_ok:
  assumes inv: "md_inv x room T m" and pc: "im_get (md_peers m) e = Some pc"
    and outs: "\<And>out. out \<in> set outs \<Longrightarrow> kv_cmd out = None"
    and m1: "m1 = md_emit (m\<lparr>md_peers := im_insert (md_peers m) e (pc\<lparr>pe_pub_tracks := tr\<rparr>)\<rparr>) outs"
  shows "md_queue m1 = md_queue m @ outs \<and> toggles kv_cmd (md_active m) outs = Some (md_active m1) \<and> md_inv x room T m1"
proof -
  have base: "md_base x room T m" using inv by (simp add: md_inv_def)
  have sub: "set (pe_sub_peers pc) \<subseteq> T" "distinct (pe_sub_peers pc)" using base pc by (auto simp: md_base_def)
  have b1: "md_base x room T m1"
    using base sub by (intro md_base_update[OF base pc, where ?pc1.0 = "pc\<lparr>pe_pub_tracks := tr\<rparr>"]) (simp_all add: m1 md_base_def)
  have "md_private x m1 = md_private x m" using pc by (auto simp: md_private_def m1 fun_eq_iff split: option.split)
  then have "md_inv x room T m1" using inv b1 by (simp add: md_inv_def m1)
  moreover have "md_active m1 = md_active m" by (simp add: md_active_def m1)
  ultimately show ?thesis using toggles_silent[OF outs] by (simp add: m1)
qed

lemma md_track_ops_ok:
  assumes inv: "md_inv x room T m" and op: "m1 = md_on_track_publish x m e tid track meta \<or> m1 = md_on_track_unpublish x m e tid"
  shows "\<exists>outs. md_queue m1 = md_queue m @ outs \<and> toggles kv_cmd (md_active m) outs = Some (md_active m1) \<and> md_inv x room T m1"
proof (cases "m1 = m")
  case True
  then show ?thesis using inv by auto
next
  case False
  then obtain pc where pc: "im_get (md_peers m) e = Some pc"
    using op by (auto simp: md_on_track_publish_def md_on_track_unpublish_def split: option.splits)
  obtain k v t tr where "m1 = md_emit (m\<lparr>md_peers := im_insert (md_peers m) e (pc\<lparr>pe_pub_tracks := tr\<rparr>)\<rparr>)
      [Kv (md_tracks_map m) (KvSet k v), Kv t (KvSet k v)] \<or>
    m1 = md_emit (m\<lparr>md_peers := im_insert (md_peers m) e (pc\<lparr>pe_pub_tracks := tr\<rparr>)\<rparr>)
      [Kv (md_tracks_map m) (KvDel k), Kv t (KvDel k)]"
    using op False pc unfolding md_on_track_publish_def md_on_track_unpublish_def Let_def
    by (simp split: option.splits if_splits) blast+
  then show ?thesis
    using md_track_update_ok[OF inv pc, of "[Kv (md_tracks_map m) (KvSet k v), Kv t (KvSet k v)]" m1 tr]
      md_track_update_ok[OF inv pc, of "[Kv (md_tracks_map m) (KvDel k), Kv t (KvDel k)]" m1 tr] by fastforce
qed

lemma md_kv_ok:
  assumes "md_inv x room T m"
  shows "\<exists>outs. md_queue (md_on_kv_event x m k ev) = md_queue m @ outs \<and>
    toggles kv_cmd (md_active m) outs = Some (md_active (md_on_kv_event x m k ev)) \<and> md_inv x room T (md_on_kv_event x m k ev)"
proof -
  let ?m1 = "md_on_kv_event x m k ev"
  have eff: "md_room ?m1 = md_room m \<and> md_peers_map ?m1 = md_peers_map m \<and> md_tracks_map ?m1 = md_tracks_map m \<and>
      md_peers ?m1 = md_peers m \<and> md_peers_map_subscribers ?m1 = md_peers_map_subscribers m \<and>
      md_tracks_map_subscribers ?m1 = md_tracks_map_subscribers m \<and> md_peers_tracks_subs ?m1 = md_peers_tracks_subs m \<and>
      (\<exists>outs. md_queue ?m1 = md_queue m @ outs \<and> (\<forall>out\<in>set outs. kv_cmd out = None))"
    by (auto simp: md_on_kv_event_def md_on_peers_kv_event_def md_on_tracks_kv_event_def md_on_peers_tracks_kv_event_def Let_def
        split: map_event.split option.split)
  then obtain outs where "md_queue ?m1 = md_queue m @ outs" "\<forall>out\<in>set outs. kv_cmd out = None" by blast
  then show ?thesis using md_cong[of ?m1 m] eff assms toggles_silent[of outs kv_cmd] by auto
qed

interpretation md: channel_users "md_step x" md_pop_output md_queue "md_pre T" "\<lambda>m. ids_ok x room T \<and> md_inv x room T m"
  md_active kv_cmd
  for x :: "('w, 'fb) externals" and room T
proof unfold_locales
  show "\<exists>m1 outs. md_step x m op1 = Inr m1 \<and> (ids_ok x room T \<and> md_inv x room T m1) \<and> md_queue m1 = md_queue m @ outs \<and>
      toggles kv_cmd (md_active m) outs = Some (md_active m1)"
    if inv: "ids_ok x room T \<and> md_inv x room T m" and pre: "md_pre T m op1" for m :: "('e, 'w, 'fb) room_metadata" and op1
  proof (cases op1)
    case (MdJoin e peer meta pb sb)
    then show ?thesis using md_join_ok[of x room T m e peer meta pb sb] inv pre by (auto simp: md_step_def md_pre_def)
  next
    case (MdLeave e)
    then show ?thesis using md_leave_ok[of x room T m e] inv by (auto simp: md_step_def)
  next
    case (MdSubscribe e t)
    then show ?thesis using md_subscribe_ok[of x room T m e _ t] inv pre by (auto simp: md_step_def md_pre_def)
  next
    case (MdUnsubscribe e t)
    then show ?thesis using md_unsubscribe_ok[of x room T m e _ t] inv pre
      by (auto simp: md_step_def md_pre_def split: option.splits)
  next
    case (MdPublish e tid track meta)
    then show ?thesis using md_track_ops_ok[of x room T m] inv by (fastforce simp: md_step_def)
  next
    case (MdUnpublish e tid)
    then show ?thesis using md_track_ops_ok[of x room T m] inv by (fastforce simp: md_step_def)
  next
    case (MdKv k ev)
    then show ?thesis using md_kv_ok[of x room T m k ev] inv by (auto simp: md_step_def)
  qed
  show "queue_ok md_queue md_pop_output m" for m :: "('e, 'w, 'fb) room_metadata"
    by (auto simp: queue_ok_def md_pop_output_def split: list.split)
  show "(ids_ok x room T \<and> md_inv x room T (fst (md_pop_output m))) \<longleftrightarrow> ids_ok x room T \<and> md_inv x room T m"
    for m :: "('e, 'w, 'fb) room_metadata"
    by (cases "md_queue m") (simp_all add: md_pop_output_def md_cong[of "m\<lparr>md_queue := q\<rparr>" m for q])
  show "md_active (fst (md_pop_output m)) = md_active m" for m :: "('e, 'w, 'fb) room_metadata"
    by (cases "md_queue m") (simp_all add: md_pop_output_def md_cong[of "m\<lparr>md_queue := q\<rparr>" m for q])
qed

lemma md_inv_empty:
  assumes "md_inv x room T m" "md_peers m = []" "md_queue m = []"
  shows "md_is_empty m"
proof -
  have "md_private x m = Map.empty" using assms(2) by (simp add: md_private_def fun_eq_iff)
  then have "im_get (md_peers_tracks_subs m) = Map.empty"
    using assms(1) rel_channels(2)[of "im_get (md_peers_tracks_subs m)" "md_private x m" undefined] by (simp add: md_inv_def)
  then have "md_peers_tracks_subs m = []" by (simp only: im_get_Nil_iff)
  moreover have "md_peers_map_subscribers m = []" "md_tracks_map_subscribers m = []"
    using assms(1,2) by (auto simp: md_inv_def md_base_def)
  ultimately show ?thesis using assms by (simp add: md_is_empty_def)
qed

section \<open>Properties\<close>

text \<open>C28: for any interleaving of joins, leaves, peer subscriptions, track changes, network events and pops
  (an endpoint joining once, unsubscribing only what it subscribed, and the private maps of the watched
  peers not colliding), the metadata of a room never panics, sends subscriptions and unsubscriptions of
  every map alternately, and holds a map exactly while an endpoint needs it; when the last endpoint has
  left and the queue is drained, it is empty.\<close>

theorem metadata_subscriptions_balanced:
  assumes "ids_ok x room T" "calls_legal (md_pre T) (md_step x) md_pop_output (md_new room) cs"
  shows "\<exists>m sent. calls_run (md_step x) md_pop_output (md_new room) cs = Inr (m, sent) \<and>
    toggles kv_cmd {} (sent @ md_queue m) = Some (md_active m) \<and>
    (md_peers m = [] \<and> md_queue m = [] \<longrightarrow> md_is_empty m \<and> md_active m = {})"
proof -
  have "md_queue (md_new room :: ('c, 'a, 'b) room_metadata) = []" "md_active (md_new room :: ('c, 'a, 'b) room_metadata) = {}"
    by (simp_all add: md_new_def md_active_def)
  moreover have "ids_ok x room T \<and> md_inv x room T (md_new room :: ('c, 'a, 'b) room_metadata)"
    using assms(1) md_inv_new by (auto simp: ids_ok_def)
  ultimately obtain m sent where r: "calls_run (md_step x) md_pop_output (md_new room) cs = Inr (m, sent)" "md_inv x room T m"
      "toggles kv_cmd {} (sent @ md_queue m) = Some (md_active m)"
    using md.run_from_empty[OF _ assms(2)] by blast
  have "md_is_empty m \<and> md_active m = {}" if "md_peers m = []" "md_queue m = []"
    using md_inv_empty[OF r(2) that] by (simp add: md_is_empty_def md_active_def)
  then show ?thesis using r(1,3) by blast
qed

definition demo_meta :: peer_meta where "demo_meta = \<lparr>pm_metadata = None, pm_extra_data = None\<rparr>"

definition demo_track_info :: track_info where
  "demo_track_info = \<lparr>ti_peer = ''alice'', ti_track = ''cam'',
     ti_meta = \<lparr>tm_kind = Video, tm_scaling = ScalingNone, tm_control = MaxBitrate, tm_metadata = None\<rparr>\<rparr>"

definition demo_md_calls :: "(nat, demo_wire) md_op call list" where
  "demo_md_calls = [Call (MdJoin 1 ''a'' demo_meta \<lparr>rp_peer = True, rp_tracks = True\<rparr> \<lparr>rs_peers = True, rs_tracks = False\<rparr>), Pop,
     Call (MdSubscribe 1 ''b''), Call (MdLeave 1), Pop]"

theorem metadata_subscriptions_balanced_witness:
  "\<exists>m sent. calls_run (md_step demo_ext) md_pop_output (md_new 9) demo_md_calls = Inr (m, sent) \<and>
    toggles kv_cmd {} (sent @ md_queue m) = Some (md_active m) \<and>
    (md_peers m = [] \<and> md_queue m = [] \<longrightarrow> md_is_empty m \<and> md_active m = {})"
proof (rule metadata_subscriptions_balanced)
  show "ids_ok demo_ext 9 {''b''}"
    by (simp add: ids_ok_def peer_map_def peers_map_def tracks_map_def demo_ext_def)
  show "calls_legal (md_pre {''b''}) (md_step demo_ext) md_pop_output (md_new 9) demo_md_calls"
    by (simp add: demo_md_calls_def md_pre_def md_step_def md_new_def md_on_join_def md_on_subscribe_peer_def md_on_leave_def
        md_pop_output_def md_emit_def peer_map_def peers_map_def tracks_map_def peers_key_def demo_ext_def is_insert_def
        is_swap_remove_def im_swap_remove_def swap_remove_at_def Let_def)
qed


text \<open>The remaining facts show where an endpoint is told too little or too much. Each holds for every
  state with the stated fields, not only for an example.\<close>

text \<open>The tracks of the room and the tracks of single peers share one table. When a track ends, the
  network deletes it from both maps; the first deletion empties the table, so the endpoints subscribed
  through the other map are never told that the track stopped.\<close>

theorem track_stop_lost:
  assumes "im_wf (md_cluster_tracks m)" "md_tracks_map m \<noteq> md_peers_map m" "im_get (md_peers_tracks_subs m) pm = Some subs"
    "pm \<noteq> md_tracks_map m" "pm \<noteq> md_peers_map m"
  shows "md_on_kv_event x (md_on_kv_event x m (md_tracks_map m) (OnDel k)) pm (OnDel k) =
    md_on_kv_event x m (md_tracks_map m) (OnDel k)"
  using assms
  by (auto simp: md_on_kv_event_def md_on_tracks_kv_event_def md_on_peers_tracks_kv_event_def Let_def im_contains_def
      split: option.split)

definition demo_two_maps :: "(nat, demo_wire, nat \<times> nat) room_metadata" where
  "demo_two_maps = (md_new 9)\<lparr>md_tracks_map_subscribers := [1], md_peers_tracks_subs := [(5, [2])],
     md_cluster_tracks := [(77, demo_track_info)]\<rparr>"

theorem track_stop_lost_witness:
  "md_on_kv_event demo_ext (md_on_kv_event demo_ext demo_two_maps (md_tracks_map demo_two_maps) (OnDel 77)) 5 (OnDel 77) =
    md_on_kv_event demo_ext demo_two_maps (md_tracks_map demo_two_maps) (OnDel 77)"
  by (rule track_stop_lost[where subs = "[2]"])
     (simp_all add: demo_two_maps_def md_new_def tracks_map_def peers_map_def im_wf_def)

text \<open>An endpoint that starts watching a peer somebody else already watches is told nothing: the
  network is not asked again and the known tracks of that peer are not replayed.\<close>

theorem second_watcher_is_told_nothing:
  assumes "im_get (md_peers m) e = Some pc" "im_get (md_peers_tracks_subs m) (peer_map x (md_room m) t) = Some (s # ss)"
  shows "\<exists>m1. md_on_subscribe_peer x m e t = Inr m1 \<and> md_queue m1 = md_queue m"
  using assms by (simp add: md_on_subscribe_peer_def Let_def)

theorem second_watcher_is_told_nothing_witness:
  "\<exists>m1. md_on_subscribe_peer demo_ext (demo_two_maps\<lparr>md_peers := [(3, \<lparr>pe_peer = ''c'',
       pe_publish = \<lparr>rp_peer = False, rp_tracks = False\<rparr>, pe_sub_peers = [], pe_pub_tracks = []\<rparr>)],
       md_peers_tracks_subs := [(peer_map demo_ext 9 ''alice'', [2])]\<rparr>) 3 ''alice'' = Inr m1 \<and>
    md_queue m1 = md_queue (demo_two_maps\<lparr>md_peers := [(3, \<lparr>pe_peer = ''c'',
       pe_publish = \<lparr>rp_peer = False, rp_tracks = False\<rparr>, pe_sub_peers = [], pe_pub_tracks = []\<rparr>)],
       md_peers_tracks_subs := [(peer_map demo_ext 9 ''alice'', [2])]\<rparr>)"
  by (rule second_watcher_is_told_nothing) (simp_all add: demo_two_maps_def md_new_def)

text \<open>The table of known peers survives the last unsubscription, while no more events arrive: an
  endpoint that subscribes later is told about every peer known then, those that have left since
  included.\<close>

theorem departed_peers_are_replayed:
  assumes "im_get (md_peers m) e = Some pc" "md_peers_map_subscribers m = [e]" "md_on_leave x m e = Inr m1"
    "im_get (md_cluster_peers m) k = Some info"
  shows "Kv (md_peers_map m) KvUnsub \<in> set (md_queue m1) \<and>
    ToEndpoint [e'] (PeerJoined (pi_peer info) (pi_meta info)) \<in>
      set (md_queue (md_on_join x m1 e' peer meta pb \<lparr>rs_peers = True, rs_tracks = tr\<rparr>))"
proof -
  have keep: "md_cluster_peers m' = md_cluster_peers m0 \<and> (\<exists>new. md_queue m' = md_queue m0 @ new)"
    if "md_leave_targets x e ts m0 = Inr m'" for ts m0 m'
    using that
  proof (induction ts arbitrary: m0)
    case (Cons t ts)
    obtain subs where s: "im_get (md_peers_tracks_subs m0) (peer_map x (md_room m0) t) = Some subs"
      using Cons.prems by (auto simp: panic_simps Let_def)
    let ?m = "if is_swap_remove subs e = []
       then md_emit (m0\<lparr>md_peers_tracks_subs := im_swap_remove (md_peers_tracks_subs m0) (peer_map x (md_room m0) t)\<rparr>)
              [Kv (peer_map x (md_room m0) t) KvUnsub]
       else m0\<lparr>md_peers_tracks_subs := im_insert (md_peers_tracks_subs m0) (peer_map x (md_room m0) t) (is_swap_remove subs e)\<rparr>"
    have "md_leave_targets x e ts ?m = Inr m'" using Cons.prems s by (simp add: Let_def)
    from Cons.IH[OF this] show ?case by (auto split: if_splits)
  qed simp
  have e: "is_swap_remove [e] e = []" by (simp add: is_swap_remove_def swap_remove_at_def)
  obtain ts m5 where "md_leave_targets x e ts m5 = Inr m1" "md_cluster_peers m5 = md_cluster_peers m"
      "Kv (md_peers_map m) KvUnsub \<in> set (md_queue m5)"
    using assms(1-3) e by (simp add: md_on_leave_def Let_def)
  then have m1: "Kv (md_peers_map m) KvUnsub \<in> set (md_queue m1)" "md_cluster_peers m1 = md_cluster_peers m"
    using keep by (auto dest!: keep)
  have "(k, info) \<in> set (md_cluster_peers m1)" using assms(4) m1(2) by (simp add: map_of_SomeD)
  then have "ToEndpoint [e'] (PeerJoined (pi_peer info) (pi_meta info)) \<in>
      set (map (\<lambda>(_, info). ToEndpoint [e'] (PeerJoined (pi_peer info) (pi_meta info))) (md_cluster_peers m1))"
    by (force simp: image_iff)
  then show ?thesis using m1(1) by (auto simp: md_on_join_def Let_def)
qed

definition demo_last_sub :: "(nat, demo_wire, nat \<times> nat) room_metadata" where
  "demo_last_sub = (md_new 9)\<lparr>md_peers := [(1, \<lparr>pe_peer = ''a'', pe_publish = \<lparr>rp_peer = False, rp_tracks = False\<rparr>,
       pe_sub_peers = [], pe_pub_tracks = []\<rparr>)], md_peers_map_subscribers := [1],
     md_cluster_peers := [(44, \<lparr>pi_peer = ''bob'', pi_meta = demo_meta\<rparr>)]\<rparr>"

definition demo_after_leave :: "(nat, demo_wire, nat \<times> nat) room_metadata" where
  "demo_after_leave = demo_last_sub\<lparr>md_peers := [], md_peers_map_subscribers := [], md_queue := [Kv 9 KvUnsub]\<rparr>"

theorem departed_peers_are_replayed_witness:
  "Kv (md_peers_map demo_last_sub) KvUnsub \<in> set (md_queue demo_after_leave) \<and>
    ToEndpoint [2] (PeerJoined (pi_peer \<lparr>pi_peer = ''bob'', pi_meta = demo_meta\<rparr>) (pi_meta \<lparr>pi_peer = ''bob'', pi_meta = demo_meta\<rparr>)) \<in>
      set (md_queue (md_on_join demo_ext demo_after_leave 2 ''c'' demo_meta \<lparr>rp_peer = True, rp_tracks = True\<rparr>
        \<lparr>rs_peers = True, rs_tracks = False\<rparr>))"
  by (rule departed_peers_are_replayed[where e = 1 and k = 44])
     (simp_all add: demo_last_sub_def demo_after_leave_def md_new_def md_on_leave_def md_emit_def peers_map_def
        is_swap_remove_def im_swap_remove_def swap_remove_at_def Let_def)

end
