(* ===== verification/Room_Audio_Mixer.thy ===== *)
theory Room_Audio_Mixer
  imports Audio_Mixer Channel_Users Room_Types
begin

text \<open>
  The mixers of a room (\<open>room/audio_mixer/{publisher,subscriber,manual}.rs\<close>): the publisher sends the
  loudest local tracks to the mixer channel of the room, the subscribers choose among what all nodes
  send there for the endpoints in automatic mode, a manual mixer serves one endpoint with the sources
  it attached. All three rest on the slot mixer of \<open>Audio_Mixer\<close> through its interface, and keep an array of
  their own in step with its slots.
\<close>

unbundle bit_operations_syntax

section \<open>Publisher\<close>

definition FIRE_SOURCE_INTERVAL :: nat where "FIRE_SOURCE_INTERVAL = 500"

record track_slot =
  sl_peer :: peer_id
  sl_name :: track_name
  sl_peer_hash :: nat

record ('e, 'w, 'fb) mixer_publisher =
  xp_channel_id :: nat
  xp_tracks :: "('e \<times> remote_track_id, track_slot) imap"
  xp_mixer :: "('e \<times> remote_track_id) audio_mixer"
  xp_slots :: "nat option list"
  xp_queue :: "('e, 'w, 'fb) room_output list"

text \<open>\<open>OutputSlot\<close> of the publisher is its one field, the time the source was last announced.\<close>

definition xp_new :: "nat \<Rightarrow> ('e, 'w, 'fb) mixer_publisher" where
  "xp_new channel_id = \<lparr>xp_channel_id = channel_id, xp_tracks = [], xp_mixer = am_new 3, xp_slots = [None, None, None], xp_queue = []\<rparr>"

text \<open>An assignment to an array element.\<close>

definition arr_set :: "'a list \<Rightarrow> nat \<Rightarrow> 'a \<Rightarrow> 'a list res" where
  "arr_set xs i v = (if i < length xs then Inr (xs[i := v]) else Inl OutOfRange)"

definition arr_get :: "'a list \<Rightarrow> nat \<Rightarrow> 'a res" where
  "arr_get xs i = (if i < length xs then Inr (xs ! i) else Inl OutOfRange)"

fun clear_slots :: "'a option list \<Rightarrow> nat list \<Rightarrow> 'a option list res" where
  "clear_slots slots [] = Inr slots"
| "clear_slots slots (i # is) = res_bind (arr_set slots i None) (\<lambda>slots1. clear_slots slots1 is)"

definition xp_on_tick :: "('e, 'w, 'fb) mixer_publisher \<Rightarrow> nat \<Rightarrow> ('e, 'w, 'fb) mixer_publisher res" where
  "xp_on_tick p now =
     res_bind (am_on_tick (xp_mixer p) now) (\<lambda>(m, out).
     let p1 = p\<lparr>xp_mixer := m\<rparr> in
     case out of
       None \<Rightarrow> Inr p1
     | Some removed_slots \<Rightarrow> res_bind (clear_slots (xp_slots p1) removed_slots) (\<lambda>slots. Inr (p1\<lparr>xp_slots := slots\<rparr>)))"

definition xp_on_track_publish ::
  "('w, 'fb) externals \<Rightarrow> ('e, 'w, 'fb) mixer_publisher \<Rightarrow> 'e \<Rightarrow> remote_track_id \<Rightarrow> peer_id \<Rightarrow> track_name \<Rightarrow>
   ('e, 'w, 'fb) mixer_publisher res" where
  "xp_on_track_publish x p endpoint track peer name =
     rassert (\<not> im_contains (xp_tracks p) (endpoint, track))
       (Inr (p\<lparr>xp_queue := xp_queue p @ (if xp_tracks p = [] then [Pubsub (xp_channel_id p) PubStart] else []),
               xp_tracks := im_insert (xp_tracks p) (endpoint, track)
                 \<lparr>sl_peer = peer, sl_name = name, sl_peer_hash = peer_hash_code x peer\<rparr>\<rparr>))"

definition xp_on_track_data ::
  "('w, 'fb) externals \<Rightarrow> ('e, 'w, 'fb) mixer_publisher \<Rightarrow> nat \<Rightarrow> 'e \<Rightarrow> remote_track_id \<Rightarrow> media_packet \<Rightarrow>
   ('e, 'w, 'fb) mixer_publisher res" where
  "xp_on_track_data x p now endpoint track media =
     res_bind (rexpect (im_get (xp_tracks p) (endpoint, track))) (\<lambda>info.
     case pkt_meta media of
       Opus audio_level \<Rightarrow>
         res_bind (am_on_pkt (xp_mixer p) now (endpoint, track) audio_level) (\<lambda>(m, out).
         let p1 = p\<lparr>xp_mixer := m\<rparr> in
         case out of
           None \<Rightarrow> Inr p1
         | Some (slot, just_set) \<Rightarrow>
             res_bind
               (if just_set
                then res_bind (arr_set (xp_slots p1) slot (Some now)) (\<lambda>slots. Inr (slots, Some (sl_peer info, sl_name info)))
                else res_bind (arr_get (xp_slots p1) slot) (\<lambda>s.
                     res_bind (rexpect s) (\<lambda>last_fired.
                     if last_fired + FIRE_SOURCE_INTERVAL \<le> now
                     then Inr ((xp_slots p1)[slot := Some now], Some (sl_peer info, sl_name info))
                     else Inr (xp_slots p1, None))))
               (\<lambda>(slots, source).
               let pkt = \<lparr>mx_slot = as_u8 slot, mx_peer = sl_peer_hash info, mx_track = track,
                          mx_audio_level = audio_level, mx_source = source, mx_ts = pkt_ts media,
                          mx_seq = pkt_seq media, mx_opus_payload = pkt_data media\<rparr>
               in Inr (p1\<lparr>xp_slots := slots,
                          xp_queue := xp_queue p1 @ [Pubsub (xp_channel_id p1) (PubData (x_mix_ser x pkt))]\<rparr>)))
     | _ \<Rightarrow> Inr p)"

definition xp_on_track_unpublish ::
  "('e, 'w, 'fb) mixer_publisher \<Rightarrow> 'e \<Rightarrow> remote_track_id \<Rightarrow> ('e, 'w, 'fb) mixer_publisher res" where
  "xp_on_track_unpublish p endpoint track =
     rassert (im_contains (xp_tracks p) (endpoint, track))
       (let p1 = p\<lparr>xp_tracks := im_swap_remove (xp_tracks p) (endpoint, track)\<rparr> in
        Inr (p1\<lparr>xp_queue := xp_queue p1 @ (if xp_tracks p1 = [] then [Pubsub (xp_channel_id p1) PubStop] else [])\<rparr>))"

definition xp_is_empty :: "('e, 'w, 'fb) mixer_publisher \<Rightarrow> bool" where
  "xp_is_empty p \<longleftrightarrow> xp_queue p = [] \<and> xp_tracks p = []"

definition xp_pop_output ::
  "('e, 'w, 'fb) mixer_publisher \<Rightarrow> ('e, 'w, 'fb) mixer_publisher \<times> ('e, 'w, 'fb) room_output option" where
  "xp_pop_output p = (case xp_queue p of [] \<Rightarrow> (p, None) | out # q \<Rightarrow> (p\<lparr>xp_queue := q\<rparr>, Some out))"

section \<open>Subscriber\<close>

record endpoint_slot =
  es_peer :: nat
  es_tracks :: "local_track_id list"

text \<open>\<open>OutputSlot\<close> of the subscriber is its one field, the announced source; the constant \<open>OUTPUTS\<close> is the
  length of \<open>xs_outputs\<close>.\<close>

record ('e, 'w, 'fb) mixer_subscriber =
  xs_channel_id :: nat
  xs_queue :: "('e, 'w, 'fb) room_output list"
  xs_endpoints :: "('e, endpoint_slot) imap"
  xs_outputs :: "(peer_id \<times> track_name) option option list"
  xs_mixer :: "(nat \<times> nat) audio_mixer"

definition xs_new :: "nat \<Rightarrow> nat \<Rightarrow> ('e, 'w, 'fb) mixer_subscriber" where
  "xs_new OUTPUTS channel_id =
     \<lparr>xs_channel_id = channel_id, xs_queue = [], xs_endpoints = [], xs_outputs = replicate OUTPUTS None,
      xs_mixer = am_new OUTPUTS\<rparr>"

definition xs_on_tick :: "('e, 'w, 'fb) mixer_subscriber \<Rightarrow> nat \<Rightarrow> ('e, 'w, 'fb) mixer_subscriber res" where
  "xs_on_tick s now =
     res_bind (am_on_tick (xs_mixer s) now) (\<lambda>(m, out).
     let s1 = s\<lparr>xs_mixer := m\<rparr> in
     case out of
       None \<Rightarrow> Inr s1
     | Some removed_slots \<Rightarrow>
         res_bind (clear_slots (xs_outputs s1) removed_slots) (\<lambda>outs.
         Inr (s1\<lparr>xs_outputs := outs,
                 xs_queue := xs_queue s1 @ concat (map (\<lambda>slot. map (\<lambda>endpoint.
                   ToEndpoint [endpoint] (AudioMixerEv (SlotUnset (as_u8 slot)))) (im_keys (xs_endpoints s1))) removed_slots)\<rparr>)))"

text \<open>The slots announced to an endpoint that joins; \<open>i\<close> is the index of the loop.\<close>

fun announce_slots :: "'e \<Rightarrow> nat \<Rightarrow> (peer_id \<times> track_name) option option list \<Rightarrow> ('e, 'w, 'fb) room_output list" where
  "announce_slots endpoint i [] = []"
| "announce_slots endpoint i (slot # outs) =
     (case slot of
        Some (Some (peer, track)) \<Rightarrow> [ToEndpoint [endpoint] (AudioMixerEv (SlotSet (as_u8 i) peer track))]
      | _ \<Rightarrow> []) @ announce_slots endpoint (i + 1) outs"

definition xs_on_endpoint_join ::
  "('w, 'fb) externals \<Rightarrow> ('e, 'w, 'fb) mixer_subscriber \<Rightarrow> 'e \<Rightarrow> peer_id \<Rightarrow> local_track_id list \<Rightarrow>
   ('e, 'w, 'fb) mixer_subscriber res" where
  "xs_on_endpoint_join x s endpoint peer tracks =
     rassert (\<not> im_contains (xs_endpoints s) endpoint)
       (Inr (s\<lparr>xs_queue := xs_queue s @ (if xs_endpoints s = [] then [Pubsub (xs_channel_id s) SubAuto] else []) @
                 announce_slots endpoint 0 (xs_outputs s),
               xs_endpoints := im_insert (xs_endpoints s) endpoint \<lparr>es_peer = peer_hash_code x peer, es_tracks = tracks\<rparr>\<rparr>))"

text \<open>The channel number under which mixed audio reaches a local track, on \<open>u64\<close>.\<close>

definition mixed_channel :: "audio_mixer_pkt \<Rightarrow> nat" where
  "mixed_channel audio = (mx_peer audio * 2 ^ 16) mod 2 ^ 64 OR mx_track audio"

definition mixed_packet :: "audio_mixer_pkt \<Rightarrow> media_packet" where
  "mixed_packet audio =
     \<lparr>pkt_ts = mx_ts audio, pkt_seq = mx_seq audio, pkt_marker = False, pkt_nackable = False, pkt_layers = None,
      pkt_meta = Opus (mx_audio_level audio), pkt_data = mx_opus_payload audio\<rparr>"

text \<open>The loop that forwards a selected packet to the endpoints of other peers.\<close>

fun forward_mixed ::
  "audio_mixer_pkt \<Rightarrow> nat \<Rightarrow> bool \<Rightarrow> ('e, endpoint_slot) imap \<Rightarrow> ('e, 'w, 'fb) room_output list res" where
  "forward_mixed audio slot just_set [] = Inr []"
| "forward_mixed audio slot just_set ((endpoint, es) # rest) =
     (if es_peer es \<noteq> mx_peer audio
      then res_bind (arr_get (es_tracks es) slot) (\<lambda>track_id.
           res_bind (forward_mixed audio slot just_set rest) (\<lambda>outs.
           Inr ((if just_set then [ToEndpoint [endpoint] (LocalTrackEv track_id LtSourceChanged)] else []) @
                ToEndpoint [endpoint] (LocalTrackEv track_id (LtMedia (mixed_channel audio) (mixed_packet audio))) # outs)))
      else forward_mixed audio slot just_set rest)"

definition xs_on_channel_data ::
  "('w, 'fb) externals \<Rightarrow> ('e, 'w, 'fb) mixer_subscriber \<Rightarrow> nat \<Rightarrow> nat \<Rightarrow> 'w \<Rightarrow> ('e, 'w, 'fb) mixer_subscriber res" where
  "xs_on_channel_data x s now from pkt =
     (if xs_endpoints s = [] then Inr s
      else case x_mix_deser x pkt of
        None \<Rightarrow> Inr s
      | Some audio \<Rightarrow>
          res_bind (am_on_pkt (xs_mixer s) now (from, mx_slot audio) (mx_audio_level audio)) (\<lambda>(m, out).
          let s1 = s\<lparr>xs_mixer := m\<rparr> in
          case out of
            None \<Rightarrow> Inr s1
          | Some (slot, just_set) \<Rightarrow>
              res_bind (if just_set then arr_set (xs_outputs s1) slot (Some None) else Inr (xs_outputs s1)) (\<lambda>outs1.
              res_bind
                (case mx_source audio of
                   None \<Rightarrow> Inr (outs1, [])
                 | Some (peer, track) \<Rightarrow>
                     res_bind (arr_get outs1 slot) (\<lambda>o1.
                     res_bind (rexpect o1) (\<lambda>src.
                     if src = None
                     then Inr (outs1[slot := Some (Some (peer, track))],
                               map (\<lambda>endpoint. ToEndpoint [endpoint] (AudioMixerEv (SlotSet (as_u8 slot) peer track)))
                                 (im_keys (xs_endpoints s1)))
                     else Inr (outs1, []))))
                (\<lambda>(outs2, announced).
              res_bind (forward_mixed audio slot just_set (xs_endpoints s1)) (\<lambda>fwd.
              Inr (s1\<lparr>xs_outputs := outs2, xs_queue := xs_queue s1 @ announced @ fwd\<rparr>))))))"

definition xs_on_endpoint_leave ::
  "('e, 'w, 'fb) mixer_subscriber \<Rightarrow> 'e \<Rightarrow> ('e, 'w, 'fb) mixer_subscriber res" where
  "xs_on_endpoint_leave s endpoint =
     rassert (im_contains (xs_endpoints s) endpoint)
       (let s1 = s\<lparr>xs_endpoints := im_swap_remove (xs_endpoints s) endpoint\<rparr> in
        Inr (s1\<lparr>xs_queue := xs_queue s1 @ (if xs_endpoints s1 = [] then [Pubsub (xs_channel_id s1) UnsubAuto] else [])\<rparr>))"

definition xs_is_empty :: "('e, 'w, 'fb) mixer_subscriber \<Rightarrow> bool" where
  "xs_is_empty s \<longleftrightarrow> xs_queue s = [] \<and> xs_endpoints s = []"

definition xs_pop_output ::
  "('e, 'w, 'fb) mixer_subscriber \<Rightarrow> ('e, 'w, 'fb) mixer_subscriber \<times> ('e, 'w, 'fb) room_output option" where
  "xs_pop_output s = (case xs_queue s of [] \<Rightarrow> (s, None) | out # q \<Rightarrow> (s\<lparr>xs_queue := q\<rparr>, Some out))"

section \<open>Manual mixer\<close>

datatype 'w manual_input = MiAttach "track_source list" | MiDetach "track_source list" | MiPubsub nat nat 'w | MiLeaveRoom

record ('e, 'w, 'fb) manual_mixer =
  xm_endpoint :: 'e
  xm_room :: nat
  xm_outputs :: "local_track_id list"
  xm_sources :: "(nat, track_source) imap"
  xm_queue :: "('e, 'w, 'fb) room_output list"
  xm_mixer :: "nat audio_mixer"

definition xm_new :: "nat \<Rightarrow> 'e \<Rightarrow> local_track_id list \<Rightarrow> ('e, 'w, 'fb) manual_mixer" where
  "xm_new room endpoint outputs =
     \<lparr>xm_endpoint = endpoint, xm_room = room, xm_outputs = outputs, xm_sources = [], xm_queue = [],
      xm_mixer = am_new (length outputs)\<rparr>"

definition xm_attach ::
  "('w, 'fb) externals \<Rightarrow> ('e, 'w, 'fb) manual_mixer \<Rightarrow> track_source \<Rightarrow> ('e, 'w, 'fb) manual_mixer" where
  "xm_attach x m source =
     (let channel_id = gen_track_channel_id x (xm_room m) (src_peer source) (src_track source) in
      if im_get (xm_sources m) channel_id = None
      then m\<lparr>xm_sources := im_insert (xm_sources m) channel_id source, xm_queue := xm_queue m @ [Pubsub channel_id SubAuto]\<rparr>
      else m)"

definition xm_detach ::
  "('w, 'fb) externals \<Rightarrow> ('e, 'w, 'fb) manual_mixer \<Rightarrow> track_source \<Rightarrow> ('e, 'w, 'fb) manual_mixer" where
  "xm_detach x m source =
     (let channel_id = gen_track_channel_id x (xm_room m) (src_peer source) (src_track source) in
      if im_get (xm_sources m) channel_id \<noteq> None
      then m\<lparr>xm_sources := im_swap_remove (xm_sources m) channel_id, xm_queue := xm_queue m @ [Pubsub channel_id UnsubAuto]\<rparr>
      else m)"

definition xm_on_source_pkt ::
  "('e, 'w, 'fb) manual_mixer \<Rightarrow> nat \<Rightarrow> nat \<Rightarrow> media_packet \<Rightarrow> ('e, 'w, 'fb) manual_mixer res" where
  "xm_on_source_pkt m now channel pkt =
     (case pkt_meta pkt of
        Opus audio_level \<Rightarrow>
          res_bind (am_on_pkt (xm_mixer m) now channel audio_level) (\<lambda>(mx, out).
          let m1 = m\<lparr>xm_mixer := mx\<rparr> in
          case out of
            None \<Rightarrow> Inr m1
          | Some (slot, just_set) \<Rightarrow>
              res_bind (arr_get (xm_outputs m1) slot) (\<lambda>track_id.
              res_bind
                (if just_set
                 then res_bind (rexpect (im_get (xm_sources m1) channel)) (\<lambda>source_info.
                      Inr [ToEndpoint [xm_endpoint m1] (LocalTrackEv track_id LtSourceChanged),
                           ToEndpoint [xm_endpoint m1]
                             (AudioMixerEv (SlotSet (as_u8 slot) (src_peer source_info) (src_track source_info)))])
                 else Inr []) (\<lambda>outs.
              Inr (m1\<lparr>xm_queue := xm_queue m1 @ outs @
                      [ToEndpoint [xm_endpoint m1] (LocalTrackEv track_id (LtMedia channel pkt))]\<rparr>))))
      | _ \<Rightarrow> Inr m)"

definition xm_on_tick :: "('e, 'w, 'fb) manual_mixer \<Rightarrow> nat \<Rightarrow> ('e, 'w, 'fb) manual_mixer res" where
  "xm_on_tick m now =
     res_bind (am_on_tick (xm_mixer m) now) (\<lambda>(mx, out).
     let m1 = m\<lparr>xm_mixer := mx\<rparr> in
     Inr (case out of
            None \<Rightarrow> m1
          | Some removed \<Rightarrow> m1\<lparr>xm_queue := xm_queue m1 @
              map (\<lambda>slot. ToEndpoint [xm_endpoint m1] (AudioMixerEv (SlotUnset (as_u8 slot)))) removed\<rparr>))"

definition xm_on_event ::
  "('w, 'fb) externals \<Rightarrow> ('e, 'w, 'fb) manual_mixer \<Rightarrow> nat \<Rightarrow> 'w manual_input \<Rightarrow> ('e, 'w, 'fb) manual_mixer res" where
  "xm_on_event x m now input =
     (case input of
        MiAttach sources \<Rightarrow> Inr (foldl (xm_attach x) m sources)
      | MiDetach sources \<Rightarrow> Inr (foldl (xm_detach x) m sources)
      | MiPubsub channel from data \<Rightarrow>
          (case x_media_deser x data of None \<Rightarrow> Inr m | Some pkt \<Rightarrow> xm_on_source_pkt m now channel pkt)
      | MiLeaveRoom \<Rightarrow> Inr (m\<lparr>xm_sources := [], xm_queue := xm_queue m @
          map (\<lambda>channel_id. Pubsub channel_id UnsubAuto) (im_keys (xm_sources m))\<rparr>))"

definition xm_is_empty :: "('e, 'w, 'fb) manual_mixer \<Rightarrow> bool" where
  "xm_is_empty m \<longleftrightarrow> xm_queue m = [] \<and> xm_sources m = []"

definition xm_pop_output ::
  "('e, 'w, 'fb) manual_mixer \<Rightarrow> ('e, 'w, 'fb) manual_mixer \<times> ('e, 'w, 'fb) room_output option" where
  "xm_pop_output m = (case xm_queue m of [] \<Rightarrow> (m, None) | out # q \<Rightarrow> (m\<lparr>xm_queue := q\<rparr>, Some out))"

section \<open>Invariants\<close>

lemma clear_slots_ok:
  "\<forall>i\<in>set is. i < length slots \<Longrightarrow> clear_slots slots is = Inr (foldl (\<lambda>s i. s[i := None]) slots is)"
  by (induction "is" arbitrary: slots) (simp_all add: arr_set_def)

lemma am_new_inv: "am_inv (am_new n)"
  by (simp add: am_inv_def am_new_def slots_inv_def occupied_def linked_def slot_of_def holder_of_def)

lemma am_new_synced: "am.synced (am_new n) (replicate n None)"
  by (simp add: am.synced_def am_new_def holder_of_def)

lemma tick_both:
  assumes "am_inv m" "am.synced m slots"
  obtains m' out where "am_on_tick m now = Inr (m', out)" "am_inv m'" "length (am_outputs m') = length (am_outputs m)"
    "case out of None \<Rightarrow> am.synced m' slots
     | Some l \<Rightarrow> \<exists>slots'. clear_slots slots l = Inr slots' \<and> am.synced m' slots'"
proof -
  obtain m' out where t: "am_on_tick m now = Inr (m', out)" "am_inv m'" "length (am_outputs m') = length (am_outputs m)"
      "am.synced m' (foldl (\<lambda>s i. s[i := None]) slots (case out of None \<Rightarrow> [] | Some l \<Rightarrow> l))"
      "\<forall>l. out = Some l \<longrightarrow> (\<forall>i\<in>set l. i < length (am_outputs m))"
    using am.synced_tick[OF assms, of now] by blast
  have "length slots = length (am_outputs m)" using assms(2) by (simp add: am.synced_def)
  then have "case out of None \<Rightarrow> am.synced m' slots
     | Some l \<Rightarrow> \<exists>slots'. clear_slots slots l = Inr slots' \<and> am.synced m' slots'"
    using t(4,5) by (cases out) (simp_all add: clear_slots_ok)
  then show ?thesis using that t(1-3) by blast
qed

lemma synced_refresh:
  assumes "am.synced m slots" "slots ! i \<noteq> None"
  shows "am.synced m (slots[i := Some y])"
proof -
  have "slots[i := Some y] ! j \<noteq> None \<longleftrightarrow> slots ! j \<noteq> None" if "j < length slots" for j
    using assms(2) that by (cases "j = i") simp_all
  then show ?thesis using assms(1) unfolding am.synced_def by simp
qed

subsection \<open>Publisher\<close>

definition xp_inv :: "('e, 'w, 'fb) mixer_publisher \<Rightarrow> bool" where
  "xp_inv p \<longleftrightarrow> im_wf (xp_tracks p) \<and> am_inv (xp_mixer p) \<and> length (am_outputs (xp_mixer p)) = 3 \<and>
     am.synced (xp_mixer p) (xp_slots p)"

definition xp_active :: "('e, 'w, 'fb) mixer_publisher \<Rightarrow> nat set" where
  "xp_active p = (if xp_tracks p = [] then {} else {xp_channel_id p})"

lemma xp_inv_new: "xp_inv (xp_new c)"
  using am_new_synced[of 3] by (simp add: xp_inv_def xp_new_def am_new_inv numeral_3_eq_3) (simp add: am_new_def)

lemma xp_queue_irrelevant [simp]:
  "xp_inv (p\<lparr>xp_queue := q\<rparr>) = xp_inv p" "xp_active (p\<lparr>xp_queue := q\<rparr>) = xp_active p"
  by (simp_all add: xp_inv_def xp_active_def)

definition mixer_step_ok ::
  "('o \<Rightarrow> (nat \<times> bool) option) \<Rightarrow> ('s \<Rightarrow> bool) \<Rightarrow> ('s \<Rightarrow> 'o list) \<Rightarrow> ('s \<Rightarrow> nat set) \<Rightarrow> 's \<Rightarrow> 's res \<Rightarrow> bool" where
  "mixer_step_ok cmd I queue active s r \<longleftrightarrow>
     (\<exists>s1 new. r = Inr s1 \<and> I s1 \<and> queue s1 = queue s @ new \<and> toggles cmd (active s) new = Some (active s1))"

lemma mixer_step_okI:
  assumes "r = Inr s1" "I s1" "queue s1 = queue s @ new" "toggles cmd (active s) new = Some (active s1)"
  shows "mixer_step_ok cmd I queue active s r"
  using assms by (auto simp: mixer_step_ok_def)

abbreviation "xp_ok \<equiv> mixer_step_ok pub_cmd xp_inv xp_queue xp_active"

lemma xp_tick_ok:
  assumes "xp_inv p"
  shows "xp_ok p (xp_on_tick p now)"
proof -
  have i: "am_inv (xp_mixer p)" "am.synced (xp_mixer p) (xp_slots p)" using assms by (simp_all add: xp_inv_def)
  obtain m out where t: "am_on_tick (xp_mixer p) now = Inr (m, out)" "am_inv m"
      "length (am_outputs m) = length (am_outputs (xp_mixer p))"
      "case out of None \<Rightarrow> am.synced m (xp_slots p)
       | Some l \<Rightarrow> \<exists>slots'. clear_slots (xp_slots p) l = Inr slots' \<and> am.synced m slots'"
    by (rule tick_both[OF i])
  show ?thesis
  proof (cases out)
    case None
    then show ?thesis using assms t by (simp add: mixer_step_ok_def xp_on_tick_def xp_inv_def xp_active_def)
  next
    case (Some l)
    then obtain slots' where "clear_slots (xp_slots p) l = Inr slots'" "am.synced m slots'" using t(4) by auto
    then show ?thesis using Some assms t(1-3) by (simp add: mixer_step_ok_def xp_on_tick_def xp_inv_def xp_active_def)
  qed
qed

lemma xp_publish_ok:
  assumes "xp_inv p" "im_get (xp_tracks p) (e, t) = None"
  shows "xp_ok p (xp_on_track_publish x p e t peer name)"
  using assms by (auto simp: mixer_step_ok_def xp_on_track_publish_def im_contains_def xp_inv_def xp_active_def)

lemma xp_unpublish_ok:
  assumes "xp_inv p" "im_get (xp_tracks p) (e, t) \<noteq> None"
  shows "xp_ok p (xp_on_track_unpublish p e t)"
  using assms by (auto simp: mixer_step_ok_def xp_on_track_unpublish_def im_contains_def xp_inv_def xp_active_def Let_def)

definition mixer_pkt_of ::
  "track_slot \<Rightarrow> remote_track_id \<Rightarrow> int option \<Rightarrow> media_packet \<Rightarrow> nat \<Rightarrow> (peer_id \<times> track_name) option \<Rightarrow> audio_mixer_pkt" where
  "mixer_pkt_of info track level media slot source =
     \<lparr>mx_slot = as_u8 slot, mx_peer = sl_peer_hash info, mx_track = track, mx_audio_level = level, mx_source = source,
      mx_ts = pkt_ts media, mx_seq = pkt_seq media, mx_opus_payload = pkt_data media\<rparr>"

text \<open>What an audio packet does: it is not selected, or it is sent in the slot of its source.\<close>

lemma xp_data_eval:
  assumes inv: "xp_inv p" and tr: "im_get (xp_tracks p) (e, t) = Some info" and Opus: "pkt_meta media = Opus level"
  shows "\<exists>m slots new. am_inv m \<and> length (am_outputs m) = 3 \<and> am.synced m slots \<and>
    xp_on_track_data x p now e t media = Inr (p\<lparr>xp_mixer := m, xp_slots := slots, xp_queue := xp_queue p @ new\<rparr>) \<and>
    (new = [] \<or> (\<exists>i source.
       new = [Pubsub (xp_channel_id p) (PubData (x_mix_ser x (mixer_pkt_of info t level media i source)))]))"
proof -
  have i: "am_inv (xp_mixer p)" "0 < length (am_outputs (xp_mixer p))" "am.synced (xp_mixer p) (xp_slots p)"
      "length (am_outputs (xp_mixer p)) = 3"
    using inv by (simp_all add: xp_inv_def)
  obtain m out where m: "am_on_pkt (xp_mixer p) now (e, t) level = Inr (m, out)" "am_inv m"
      "length (am_outputs m) = length (am_outputs (xp_mixer p))"
      "case out of None \<Rightarrow> am.synced m (xp_slots p)
       | Some (i, sw) \<Rightarrow> i < length (am_outputs (xp_mixer p)) \<and> am_holder m i = Some (e, t) \<and>
         (if sw then \<forall>y. am.synced m ((xp_slots p)[i := Some y]) else am.synced m (xp_slots p) \<and> xp_slots p ! i \<noteq> None)"
    using am.synced_pkt[OF i(1-3), of now "(e, t)" level] by blast
  have len: "length (xp_slots p) = 3" using i(3,4) by (simp add: am.synced_def)
  have m3: "length (am_outputs m) = 3" using m(3) i(4) by simp
  note def = xp_on_track_data_def mixer_pkt_of_def
  show ?thesis
  proof (cases out)
    case None
    then have "xp_on_track_data x p now e t media = Inr (p\<lparr>xp_mixer := m, xp_slots := xp_slots p, xp_queue := xp_queue p @ []\<rparr>)"
      using tr Opus m(1) by (simp add: def)
    then show ?thesis using m(2,4) m3 None by (intro exI[of _ m] exI[of _ "xp_slots p"] exI[of _ "[]"]) simp
  next
    case (Some o1)
    obtain i sw where o1: "o1 = (i, sw)" by (cases o1)
    show ?thesis
    proof (cases sw)
      case True
      then have "xp_on_track_data x p now e t media = Inr (p\<lparr>xp_mixer := m, xp_slots := (xp_slots p)[i := Some now], xp_queue := xp_queue p @
          [Pubsub (xp_channel_id p) (PubData (x_mix_ser x (mixer_pkt_of info t level media i (Some (sl_peer info, sl_name info)))))]\<rparr>)"
        using tr Opus m(1,4) Some o1 len i(4) by (simp add: def arr_set_def Let_def)
      moreover have "am.synced m ((xp_slots p)[i := Some now])" using m(4) Some o1 True by simp
      ultimately show ?thesis using m(2) m3 by blast
    next
      case False
      then obtain fired where fired: "xp_slots p ! i = Some fired" "i < length (xp_slots p)" "am.synced m (xp_slots p)"
        using m(4) Some o1 len i(4) by auto
      have upd: "am.synced m ((xp_slots p)[i := Some now])" by (rule synced_refresh) (use fired in simp_all)
      let ?due = "fired + FIRE_SOURCE_INTERVAL \<le> now"
      have "xp_on_track_data x p now e t media = Inr (p\<lparr>xp_mixer := m,
          xp_slots := if ?due then (xp_slots p)[i := Some now] else xp_slots p, xp_queue := xp_queue p @
          [Pubsub (xp_channel_id p) (PubData (x_mix_ser x (mixer_pkt_of info t level media i
            (if ?due then Some (sl_peer info, sl_name info) else None))))]\<rparr>)"
        using tr Opus m(1) Some o1 fired(1,2) False by (simp add: def arr_get_def Let_def)
      moreover have "am.synced m (if ?due then (xp_slots p)[i := Some now] else xp_slots p)" using upd fired(3) by simp
      ultimately show ?thesis using m(2) m3 by blast
    qed
  qed
qed

lemma xp_data_ok:
  assumes inv: "xp_inv p" and tr: "im_get (xp_tracks p) (e, t) = Some info"
  shows "xp_ok p (xp_on_track_data x p now e t media)"
proof (cases "pkt_meta media")
  case (Opus level)
  from xp_data_eval[OF assms Opus, of x now] obtain m slots new where r:
      "xp_on_track_data x p now e t media = Inr (p\<lparr>xp_mixer := m, xp_slots := slots, xp_queue := xp_queue p @ new\<rparr>)"
      "am_inv m" "length (am_outputs m) = 3" "am.synced m slots" "\<And>S. toggles pub_cmd S new = Some S"
    by fastforce
  then show ?thesis using inv
    by (intro mixer_step_okI[OF r(1), of _ _ _ new]) (simp_all add: xp_inv_def xp_active_def)
qed (use assms in \<open>auto simp: mixer_step_ok_def xp_on_track_data_def\<close>)

subsection \<open>Subscriber\<close>

definition xs_inv :: "('e, 'w, 'fb) mixer_subscriber \<Rightarrow> bool" where
  "xs_inv s \<longleftrightarrow> im_wf (xs_endpoints s) \<and> am_inv (xs_mixer s) \<and> xs_outputs s \<noteq> [] \<and>
     am.synced (xs_mixer s) (xs_outputs s) \<and>
     (\<forall>e es. im_get (xs_endpoints s) e = Some es \<longrightarrow> length (es_tracks es) = length (xs_outputs s))"

definition xs_active :: "('e, 'w, 'fb) mixer_subscriber \<Rightarrow> nat set" where
  "xs_active s = (if xs_endpoints s = [] then {} else {xs_channel_id s})"

lemma xs_inv_new: "0 < n \<Longrightarrow> xs_inv (xs_new n c)"
  using am_new_synced[of n] by (simp add: xs_inv_def xs_new_def am_new_inv)

lemma xs_queue_irrelevant [simp]:
  "xs_inv (s\<lparr>xs_queue := q\<rparr>) = xs_inv s" "xs_active (s\<lparr>xs_queue := q\<rparr>) = xs_active s"
  by (simp_all add: xs_inv_def xs_active_def)

abbreviation "xs_ok \<equiv> mixer_step_ok sub_cmd xs_inv xs_queue xs_active"

lemma announce_silent: "out \<in> set (announce_slots e i outs) \<Longrightarrow> sub_cmd out = None"
  by (induction outs arbitrary: i) (auto split: option.splits)

lemma xs_tick_ok:
  fixes s :: "('e, 'w, 'fb) mixer_subscriber"
  assumes "xs_inv s"
  shows "xs_ok s (xs_on_tick s now)"
proof -
  have i: "am_inv (xs_mixer s)" "am.synced (xs_mixer s) (xs_outputs s)" using assms by (simp_all add: xs_inv_def)
  obtain m out where t: "am_on_tick (xs_mixer s) now = Inr (m, out)" "am_inv m"
      "length (am_outputs m) = length (am_outputs (xs_mixer s))"
      "case out of None \<Rightarrow> am.synced m (xs_outputs s)
       | Some l \<Rightarrow> \<exists>slots'. clear_slots (xs_outputs s) l = Inr slots' \<and> am.synced m slots'"
    by (rule tick_both[OF i])
  show ?thesis
  proof (cases out)
    case None
    then show ?thesis using assms t by (simp add: mixer_step_ok_def xs_on_tick_def xs_inv_def xs_active_def)
  next
    case (Some l)
    then obtain slots' where sl: "clear_slots (xs_outputs s) l = Inr slots'" "am.synced m slots'" using t(4) by auto
    then have "length slots' = length (xs_outputs s)" using i(2) t(3) by (simp add: am.synced_def)
    moreover from this have "slots' \<noteq> []" using assms by (auto simp: xs_inv_def)
    moreover define new :: "('e, 'w, 'fb) room_output list" where "new = concat (map (\<lambda>slot. map (\<lambda>endpoint.
        ToEndpoint [endpoint] (AudioMixerEv (SlotUnset (as_u8 slot)))) (im_keys (xs_endpoints s))) l)"
    moreover have "toggles sub_cmd S new = Some S" for S
      unfolding new_def by (rule toggles_silent) auto
    moreover have "xs_on_tick s now = Inr (s\<lparr>xs_mixer := m, xs_outputs := slots', xs_queue := xs_queue s @ new\<rparr>)"
      using t(1) Some sl(1) by (simp add: xs_on_tick_def new_def)
    ultimately show ?thesis using assms t(2) sl(2)
      by (intro mixer_step_okI[of _ "s\<lparr>xs_mixer := m, xs_outputs := slots', xs_queue := xs_queue s @ new\<rparr>" _ _ _ new])
         (simp_all add: xs_inv_def xs_active_def)
  qed
qed

lemma xs_join_ok:
  assumes "xs_inv s" "im_get (xs_endpoints s) e = None" "length tracks = length (xs_outputs s)"
  shows "xs_ok s (xs_on_endpoint_join x s e peer tracks)"
proof -
  have "toggles sub_cmd S (announce_slots e 0 (xs_outputs s)) = Some S" for S
    by (rule toggles_silent) (rule announce_silent)
  then show ?thesis using assms
    by (auto simp: mixer_step_ok_def xs_on_endpoint_join_def im_contains_def xs_inv_def xs_active_def toggles_append)
qed

lemma xs_leave_ok:
  assumes "xs_inv s" "im_get (xs_endpoints s) e \<noteq> None"
  shows "xs_ok s (xs_on_endpoint_leave s e)"
  using assms by (auto simp: mixer_step_ok_def xs_on_endpoint_leave_def im_contains_def xs_inv_def xs_active_def Let_def)

lemma forward_mixed_ok:
  fixes es :: "('e, endpoint_slot) imap"
  assumes "im_wf es" "\<forall>e slot1. im_get es e = Some slot1 \<longrightarrow> i < length (es_tracks slot1)"
  shows "\<exists>fwd :: ('e, 'w, 'fb) room_output list. forward_mixed audio i sw es = Inr fwd \<and> (\<forall>out\<in>set fwd. sub_cmd out = None)"
proof -
  have "\<forall>p\<in>set es. i < length (es_tracks (snd p))"
    using assms by (metis im_wf_def map_of_eq_Some_iff prod.collapse)
  then show ?thesis
  proof (induction es)
    case (Cons p es)
    obtain fwd :: "('e, 'w, 'fb) room_output list"
      where "forward_mixed audio i sw es = Inr fwd" "\<forall>out\<in>set fwd. sub_cmd out = None"
      using Cons.IH Cons.prems by (metis list.set_intros(2))
    then show ?case using Cons.prems by (cases p) (auto simp: arr_get_def)
  qed simp
qed

text \<open>What a packet of the mixer channel does: it is not selected, or it is forwarded in its slot.\<close>

lemma xs_data_eval:
  fixes s :: "('e, 'w, 'fb) mixer_subscriber"
  assumes inv: "xs_inv s" and a: "x_mix_deser x w = Some audio" and ne: "xs_endpoints s \<noteq> []"
  shows "\<exists>m outs2 new. am_inv m \<and> am.synced m outs2 \<and> length outs2 = length (xs_outputs s) \<and>
    xs_on_channel_data x s now from w = Inr (s\<lparr>xs_mixer := m, xs_outputs := outs2, xs_queue := xs_queue s @ new\<rparr>) \<and>
    (new = [] \<or> (\<exists>j sw fwd l. j < length (xs_outputs s) \<and> forward_mixed audio j sw (xs_endpoints s) = Inr fwd \<and>
       new = map (\<lambda>(e, i, peer, track). ToEndpoint [e] (AudioMixerEv (SlotSet i peer track))) l @ fwd))"
proof -
  let ?k = "(from, mx_slot audio)"
  have i: "am_inv (xs_mixer s)" "0 < length (am_outputs (xs_mixer s))" "am.synced (xs_mixer s) (xs_outputs s)"
    using inv by (auto simp: xs_inv_def am.synced_def)
  obtain m out where m: "am_on_pkt (xs_mixer s) now ?k (mx_audio_level audio) = Inr (m, out)" "am_inv m"
      "length (am_outputs m) = length (am_outputs (xs_mixer s))"
      "case out of None \<Rightarrow> am.synced m (xs_outputs s)
       | Some (i, sw) \<Rightarrow> i < length (am_outputs (xs_mixer s)) \<and> am_holder m i = Some ?k \<and>
         (if sw then \<forall>y. am.synced m ((xs_outputs s)[i := Some y]) else am.synced m (xs_outputs s) \<and> xs_outputs s ! i \<noteq> None)"
    using am.synced_pkt[OF i, of now ?k "mx_audio_level audio"] by blast
  have len: "length (xs_outputs s) = length (am_outputs (xs_mixer s))" using i(3) by (simp add: am.synced_def)
  show ?thesis
  proof (cases out)
    case None
    then have "xs_on_channel_data x s now from w = Inr (s\<lparr>xs_mixer := m, xs_outputs := xs_outputs s, xs_queue := xs_queue s @ []\<rparr>)"
      using a ne m(1) by (simp add: xs_on_channel_data_def)
    then show ?thesis using m(2,4) None by (intro exI[of _ m] exI[of _ "xs_outputs s"] exI[of _ "[]"]) simp
  next
    case (Some o1)
    obtain j sw where o1: "o1 = (j, sw)" by (cases o1)
    define outs1 where "outs1 = (if sw then (xs_outputs s)[j := Some None] else xs_outputs s)"
    have j: "j < length (xs_outputs s)" using m(4) Some o1 len by simp
    have s1: "am.synced m outs1" "outs1 ! j \<noteq> None" "length outs1 = length (xs_outputs s)"
      using m(4) Some o1 j by (auto simp: outs1_def split: if_splits)
    have s2: "am.synced m (outs1[j := Some y])" for y by (rule synced_refresh[OF s1(1,2)])
    obtain fwd :: "('e, 'w, 'fb) room_output list" where f: "forward_mixed audio j sw (xs_endpoints s) = Inr fwd"
      using forward_mixed_ok[of "xs_endpoints s" j audio sw] inv j unfolding xs_inv_def by metis
    obtain src where src: "outs1 ! j = Some src" using s1(2) by blast
    show ?thesis
    proof (cases "mx_source audio = None \<or> src \<noteq> None")
      case True
      have "xs_on_channel_data x s now from w = Inr (s\<lparr>xs_mixer := m, xs_outputs := outs1, xs_queue := xs_queue s @ fwd\<rparr>)"
      proof (cases "mx_source audio")
        case None
        then show ?thesis using a ne m(1) Some o1 f j by (cases sw) (simp_all add: xs_on_channel_data_def Let_def outs1_def arr_set_def)
      next
        case Some': (Some pt)
        then obtain at1 where "src = Some at1" using True by auto
        moreover obtain peer track where "pt = (peer, track)" by (cases pt)
        ultimately show ?thesis using Some' a ne m(1) Some o1 j f src
          by (cases sw) (simp_all add: xs_on_channel_data_def arr_get_def Let_def outs1_def arr_set_def)
      qed
      then show ?thesis using m(2) s1 j f
        by (intro exI[of _ m] exI[of _ outs1] exI[of _ fwd] conjI disjI2 exI[of _ j] exI[of _ sw] exI[of _ "[]"]) simp_all
    next
      case False
      then obtain peer track where mx: "mx_source audio = Some (peer, track)" "src = None"
        by (cases src) auto
      have "xs_on_channel_data x s now from w = Inr (s\<lparr>xs_mixer := m, xs_outputs := outs1[j := Some (Some (peer, track))],
          xs_queue := xs_queue s @ map (\<lambda>endpoint. ToEndpoint [endpoint] (AudioMixerEv (SlotSet (as_u8 j) peer track)))
            (im_keys (xs_endpoints s)) @ fwd\<rparr>)"
        using a ne m(1) Some o1 j f src mx
        by (cases sw) (simp_all add: xs_on_channel_data_def arr_get_def Let_def outs1_def arr_set_def)
      then show ?thesis using m(2) s1(3) s2 j f
        by (intro exI[of _ m] exI[of _ "outs1[j := Some (Some (peer, track))]"] exI[of _ "map (\<lambda>endpoint. ToEndpoint [endpoint]
              (AudioMixerEv (SlotSet (as_u8 j) peer track))) (im_keys (xs_endpoints s)) @ fwd"] conjI disjI2 exI[of _ j]
              exI[of _ sw] exI[of _ fwd] exI[of _ "map (\<lambda>e. (e, as_u8 j, peer, track)) (im_keys (xs_endpoints s))"])
           (simp_all add: comp_def)
    qed
  qed
qed

lemma xs_data_ok:
  fixes s :: "('e, 'w, 'fb) mixer_subscriber"
  assumes inv: "xs_inv s"
  shows "xs_ok s (xs_on_channel_data x s now from w)"
proof (cases "xs_endpoints s = [] \<or> x_mix_deser x w = None")
  case False
  then obtain audio where a: "x_mix_deser x w = Some audio" and ne: "xs_endpoints s \<noteq> []" by blast
  from xs_data_eval[OF inv a ne, of now "from"] obtain m outs2 and new :: "('e, 'w, 'fb) room_output list" where
    r: "am_inv m" "am.synced m outs2" "length outs2 = length (xs_outputs s)"
      "xs_on_channel_data x s now from w = Inr (s\<lparr>xs_mixer := m, xs_outputs := outs2, xs_queue := xs_queue s @ new\<rparr>)"
      "new = [] \<or> (\<exists>j sw fwd l. j < length (xs_outputs s) \<and> forward_mixed audio j sw (xs_endpoints s) = Inr fwd \<and>
       new = map (\<lambda>(e, i, peer, track). ToEndpoint [e] (AudioMixerEv (SlotSet i peer track))) l @ fwd)" by blast
  have "\<forall>out\<in>set fwd. sub_cmd out = None" if "j < length (xs_outputs s)" "forward_mixed audio j sw (xs_endpoints s) = Inr fwd"
    for j sw and fwd :: "('e, 'w, 'fb) room_output list"
    using forward_mixed_ok[of "xs_endpoints s" j audio sw] inv that unfolding xs_inv_def by (metis sum.inject(2))
  then have "sub_cmd out = None" if "out \<in> set new" for out using r(5) that by fastforce
  then have "toggles sub_cmd S new = Some S" for S by (rule toggles_silent)
  then show ?thesis using inv r(1-3) ne by (intro mixer_step_okI[OF r(4), of _ _ _ new]) (auto simp: xs_inv_def xs_active_def)
qed (use assms in \<open>auto simp: mixer_step_ok_def xs_on_channel_data_def\<close>)

subsection \<open>Manual mixer\<close>

definition xm_inv :: "('e, 'w, 'fb) manual_mixer \<Rightarrow> bool" where
  "xm_inv m \<longleftrightarrow> im_wf (xm_sources m) \<and> am_inv (xm_mixer m) \<and> xm_outputs m \<noteq> [] \<and>
     length (am_outputs (xm_mixer m)) = length (xm_outputs m)"

definition xm_active :: "('e, 'w, 'fb) manual_mixer \<Rightarrow> nat set" where
  "xm_active m = dom (im_get (xm_sources m))"

lemma xm_inv_new: "outputs \<noteq> [] \<Longrightarrow> xm_inv (xm_new room e outputs)"
  by (simp add: xm_inv_def xm_new_def am_new_inv) (simp add: am_new_def)

lemma xm_queue_irrelevant [simp]:
  "xm_inv (m\<lparr>xm_queue := q\<rparr>) = xm_inv m" "xm_active (m\<lparr>xm_queue := q\<rparr>) = xm_active m"
  by (simp_all add: xm_inv_def xm_active_def)

abbreviation "xm_ok \<equiv> mixer_step_ok sub_cmd xm_inv xm_queue xm_active"

lemma mixer_step_ok_trans:
  assumes "mixer_step_ok cmd I queue active s (Inr s1)" "mixer_step_ok cmd I queue active s1 r"
  shows "mixer_step_ok cmd I queue active s r"
  using assms by (fastforce simp: mixer_step_ok_def toggles_append)

lemma mixer_step_ok_refl: "I s \<Longrightarrow> mixer_step_ok cmd I queue active s (Inr s)"
  by (simp add: mixer_step_ok_def)

lemma mixer_step_ok_inv: "mixer_step_ok cmd I queue active s (Inr s1) \<Longrightarrow> I s1"
  by (simp add: mixer_step_ok_def)

lemma mixer_step_ok_foldl:
  assumes "\<And>s a. I s \<Longrightarrow> mixer_step_ok cmd I queue active s (Inr (f s a))" "I s"
  shows "mixer_step_ok cmd I queue active s (Inr (foldl f s as))"
  using assms(2)
proof (induction "as" arbitrary: s)
  case (Cons a as)
  have "mixer_step_ok cmd I queue active s (Inr (f s a))" by (rule assms(1)[OF Cons.prems])
  moreover from mixer_step_ok_inv[OF this] have "mixer_step_ok cmd I queue active (f s a) (Inr (foldl f (f s a) as))" by (rule Cons.IH)
  ultimately show ?case using mixer_step_ok_trans by fastforce
qed (simp add: mixer_step_ok_refl)

lemma xm_attach_ok: "xm_inv m \<Longrightarrow> xm_ok m (Inr (xm_attach x m src))"
  by (auto simp: mixer_step_ok_def xm_attach_def xm_inv_def xm_active_def Let_def dom_def)

lemma xm_detach_ok: "xm_inv m \<Longrightarrow> xm_ok m (Inr (xm_detach x m src))"
  by (auto simp: mixer_step_ok_def xm_detach_def xm_inv_def xm_active_def Let_def)

lemma toggles_close_all: "distinct cs \<Longrightarrow> toggles sub_cmd (set cs) (map (\<lambda>c. Pubsub c UnsubAuto) cs) = Some {}"
  by (induction cs) auto

lemma xm_leave_ok:
  assumes "xm_inv m"
  shows "xm_ok m (xm_on_event x m now MiLeaveRoom)"
proof (rule mixer_step_okI[of _ "m\<lparr>xm_sources := [], xm_queue := xm_queue m @ map (\<lambda>c. Pubsub c UnsubAuto) (im_keys (xm_sources m))\<rparr>"])
  have "xm_active m = set (im_keys (xm_sources m))" by (simp add: xm_active_def dom_map_of_conv_image_fst)
  moreover have "distinct (im_keys (xm_sources m))" using assms by (simp add: xm_inv_def im_wf_def)
  ultimately show "toggles sub_cmd (xm_active m) (map (\<lambda>c. Pubsub c UnsubAuto) (im_keys (xm_sources m))) =
      Some (xm_active (m\<lparr>xm_sources := [], xm_queue := xm_queue m @ map (\<lambda>c. Pubsub c UnsubAuto) (im_keys (xm_sources m))\<rparr>))"
    by (simp only: toggles_close_all) (simp add: xm_active_def)
qed (use assms in \<open>simp_all add: xm_on_event_def xm_inv_def\<close>)

lemma xm_tick_ok:
  assumes "xm_inv m"
  shows "xm_ok m (xm_on_tick m now)"
proof -
  obtain mx out where t: "am_on_tick (xm_mixer m) now = Inr (mx, out)" "am_inv mx"
      "length (am_outputs mx) = length (am_outputs (xm_mixer m))"
    using am.tick_ok[of "xm_mixer m" now] assms by (auto simp: xm_inv_def)
  have "toggles sub_cmd S (map (\<lambda>slot. ToEndpoint [xm_endpoint m] (AudioMixerEv (SlotUnset (as_u8 slot)))) l) = Some S" for S l
    by (rule toggles_silent) auto
  then show ?thesis using assms t
    by (cases out) (simp_all add: mixer_step_ok_def xm_on_tick_def xm_inv_def xm_active_def)
qed

text \<open>A packet may only come from a source that is still attached, or holds a slot.\<close>

lemma xm_pkt_ok:
  assumes inv: "xm_inv m" and src: "im_get (xm_sources m) channel = Some source"
  shows "xm_ok m (xm_on_source_pkt m now channel pkt)"
proof (cases "pkt_meta pkt")
  case (Opus level)
  have i: "am_inv (xm_mixer m)" "0 < length (am_outputs (xm_mixer m))" using inv by (simp_all add: xm_inv_def)
  obtain mx out where p: "am_on_pkt (xm_mixer m) now channel level = Inr (mx, out)" "am_inv mx"
      "length (am_outputs mx) = length (am_outputs (xm_mixer m))"
      "pkt_answer (am_holder (xm_mixer m)) (am_holder mx) channel out"
    using am.pkt_ok[OF i] by blast
  show ?thesis
  proof (cases out)
    case None
    then show ?thesis using inv Opus p(1-3) by (simp add: mixer_step_ok_def xm_on_source_pkt_def xm_inv_def xm_active_def)
  next
    case (Some o1)
    obtain j sw where o1: "o1 = (j, sw)" by (cases o1)
    have "am_holder mx j = Some channel" using p(4) Some o1 by (simp add: pkt_answer_def)
    then have "j < length (xm_outputs m)" using am.holder_width[of mx j] p(3) inv by (simp add: xm_inv_def)
    then show ?thesis using inv Opus p(1-3) Some o1 src
      by (cases sw) (simp_all add: mixer_step_ok_def xm_on_source_pkt_def xm_inv_def xm_active_def arr_get_def)
  qed
qed (use inv in \<open>simp_all add: xm_on_source_pkt_def mixer_step_ok_refl\<close>)

section \<open>Calls and runs\<close>

datatype 'e xp_op = XpTick nat | XpPublish 'e remote_track_id peer_id track_name
  | XpData nat 'e remote_track_id media_packet | XpUnpublish 'e remote_track_id

definition xp_step ::
  "('w, 'fb) externals \<Rightarrow> ('e, 'w, 'fb) mixer_publisher \<Rightarrow> 'e xp_op \<Rightarrow> ('e, 'w, 'fb) mixer_publisher res" where
  "xp_step x p op1 =
     (case op1 of XpTick now \<Rightarrow> xp_on_tick p now | XpPublish e t peer name \<Rightarrow> xp_on_track_publish x p e t peer name
      | XpData now e t media \<Rightarrow> xp_on_track_data x p now e t media | XpUnpublish e t \<Rightarrow> xp_on_track_unpublish p e t)"

definition xp_pre :: "('e, 'w, 'fb) mixer_publisher \<Rightarrow> 'e xp_op \<Rightarrow> bool" where
  "xp_pre p op1 =
     (case op1 of XpTick now \<Rightarrow> True | XpPublish e t peer name \<Rightarrow> im_get (xp_tracks p) (e, t) = None
      | XpData now e t media \<Rightarrow> im_get (xp_tracks p) (e, t) \<noteq> None | XpUnpublish e t \<Rightarrow> im_get (xp_tracks p) (e, t) \<noteq> None)"

lemma xp_step_ok: "xp_inv p \<Longrightarrow> xp_pre p op1 \<Longrightarrow> xp_ok p (xp_step x p op1)"
  by (cases op1) (auto simp: xp_step_def xp_pre_def intro: xp_tick_ok xp_publish_ok xp_data_ok xp_unpublish_ok)

interpretation xp: channel_users "xp_step x" xp_pop_output xp_queue xp_pre xp_inv xp_active pub_cmd
  for x :: "('w, 'fb) externals"
  by unfold_locales
    (use xp_step_ok in \<open>auto simp: mixer_step_ok_def queue_ok_def xp_pop_output_def split: list.split\<close>)

datatype ('e, 'w) xs_op = XsTick nat | XsJoin 'e peer_id "local_track_id list" | XsData nat nat 'w | XsLeave 'e

definition xs_step ::
  "('w, 'fb) externals \<Rightarrow> ('e, 'w, 'fb) mixer_subscriber \<Rightarrow> ('e, 'w) xs_op \<Rightarrow> ('e, 'w, 'fb) mixer_subscriber res" where
  "xs_step x s op1 =
     (case op1 of XsTick now \<Rightarrow> xs_on_tick s now | XsJoin e peer tracks \<Rightarrow> xs_on_endpoint_join x s e peer tracks
      | XsData now from w \<Rightarrow> xs_on_channel_data x s now from w | XsLeave e \<Rightarrow> xs_on_endpoint_leave s e)"

definition xs_pre :: "('e, 'w, 'fb) mixer_subscriber \<Rightarrow> ('e, 'w) xs_op \<Rightarrow> bool" where
  "xs_pre s op1 =
     (case op1 of XsTick now \<Rightarrow> True
      | XsJoin e peer tracks \<Rightarrow> im_get (xs_endpoints s) e = None \<and> length tracks = length (xs_outputs s)
      | XsData now from w \<Rightarrow> True | XsLeave e \<Rightarrow> im_get (xs_endpoints s) e \<noteq> None)"

lemma xs_step_ok: "xs_inv s \<Longrightarrow> xs_pre s op1 \<Longrightarrow> xs_ok s (xs_step x s op1)"
  by (cases op1) (auto simp: xs_step_def xs_pre_def intro: xs_tick_ok xs_join_ok xs_data_ok xs_leave_ok)

interpretation xs: channel_users "xs_step x" xs_pop_output xs_queue xs_pre xs_inv xs_active sub_cmd
  for x :: "('w, 'fb) externals"
  by unfold_locales
    (use xs_step_ok in \<open>auto simp: mixer_step_ok_def queue_ok_def xs_pop_output_def split: list.split\<close>)

datatype 'w xm_op = XmTick nat | XmEvent nat "'w manual_input"

definition xm_step ::
  "('w, 'fb) externals \<Rightarrow> ('e, 'w, 'fb) manual_mixer \<Rightarrow> 'w xm_op \<Rightarrow> ('e, 'w, 'fb) manual_mixer res" where
  "xm_step x m op1 = (case op1 of XmTick now \<Rightarrow> xm_on_tick m now | XmEvent now input \<Rightarrow> xm_on_event x m now input)"

definition xm_pre :: "('e, 'w, 'fb) manual_mixer \<Rightarrow> 'w xm_op \<Rightarrow> bool" where
  "xm_pre m op1 = (case op1 of XmEvent now (MiPubsub channel from w) \<Rightarrow> im_get (xm_sources m) channel \<noteq> None | _ \<Rightarrow> True)"

lemma xm_event_ok:
  assumes "xm_inv m" "xm_pre m (XmEvent now input)"
  shows "xm_ok m (xm_on_event x m now input)"
proof (cases input)
  case (MiAttach l)
  then show ?thesis using mixer_step_ok_foldl[of xm_inv sub_cmd xm_queue xm_active "xm_attach x" m l] xm_attach_ok assms(1)
    by (auto simp: xm_on_event_def)
next
  case (MiDetach l)
  then show ?thesis using mixer_step_ok_foldl[of xm_inv sub_cmd xm_queue xm_active "xm_detach x" m l] xm_detach_ok assms(1)
    by (auto simp: xm_on_event_def)
next
  case (MiPubsub c node w)
  then show ?thesis using assms xm_pkt_ok by (auto simp: xm_on_event_def xm_pre_def mixer_step_ok_refl split: option.split)
qed (use assms xm_leave_ok in simp)

lemma xm_step_ok: "xm_inv m \<Longrightarrow> xm_pre m op1 \<Longrightarrow> xm_ok m (xm_step x m op1)"
  by (cases op1) (auto simp: xm_step_def intro: xm_tick_ok xm_event_ok)

interpretation xm: channel_users "xm_step x" xm_pop_output xm_queue xm_pre xm_inv xm_active sub_cmd
  for x :: "('w, 'fb) externals"
  by unfold_locales
    (use xm_step_ok in \<open>auto simp: mixer_step_ok_def queue_ok_def xm_pop_output_def split: list.split\<close>)

section \<open>Properties\<close>

text \<open>The media handed to local tracks by a sequence of outputs.\<close>

fun delivery :: "('e, 'w, 'fb) room_output \<Rightarrow> ('e list \<times> local_track_id \<times> nat \<times> media_packet) option" where
  "delivery (ToEndpoint es (LocalTrackEv t (LtMedia c pkt))) = Some (es, t, c, pkt)"
| "delivery out = None"

abbreviation deliveries :: "('e, 'w, 'fb) room_output list \<Rightarrow> ('e list \<times> local_track_id \<times> nat \<times> media_packet) list" where
  "deliveries outs \<equiv> List.map_filter delivery outs"

lemma deliveries_append: "deliveries (as @ bs) = deliveries as @ deliveries bs"
  by (simp add: map_filter_def)

lemma deliveries_slots [simp]:
  "deliveries (map (\<lambda>(e, i, peer, track). ToEndpoint [e] (AudioMixerEv (SlotSet i peer track))) l) = []"
  by (induction l) (auto simp: map_filter_simps)

lemma deliveries_forward:
  "forward_mixed audio j sw es = Inr fwd \<Longrightarrow> deliveries fwd =
     map (\<lambda>(e, slot1). ([e], es_tracks slot1 ! j, mixed_channel audio, mixed_packet audio))
       (filter (\<lambda>(e, slot1). es_peer slot1 \<noteq> mx_peer audio) es)"
proof (induction es arbitrary: fwd)
  case (Cons p es)
  obtain e slot1 where p: "p = (e, slot1)" by (cases p)
  show ?case
  proof (cases "es_peer slot1 = mx_peer audio")
    case False
    then obtain rest where r: "forward_mixed audio j sw es = Inr rest" "j < length (es_tracks slot1)"
        "fwd = (if sw then [ToEndpoint [e] (LocalTrackEv (es_tracks slot1 ! j) LtSourceChanged)] else []) @
          ToEndpoint [e] (LocalTrackEv (es_tracks slot1 ! j) (LtMedia (mixed_channel audio) (mixed_packet audio))) # rest"
      using Cons.prems p by (auto simp: panic_simps arr_get_def split: if_splits)
    then show ?thesis using Cons.IH[OF r(1)] p False by (cases sw) (simp_all add: map_filter_simps)
  qed (use Cons p in simp)
qed (simp add: map_filter_simps)


definition demo_xp :: "(nat, demo_wire, nat \<times> nat) mixer_publisher" where
  "demo_xp = (xp_new 40)\<lparr>xp_tracks := [((1, 7), \<lparr>sl_peer = ''alice'', sl_name = ''mic'', sl_peer_hash = 9\<rparr>)]\<rparr>"

definition demo_xs :: "(nat, demo_wire, nat \<times> nat) mixer_subscriber" where
  "demo_xs = (xs_new 1 40)\<lparr>xs_endpoints := [(2, \<lparr>es_peer = 5, es_tracks = [0]\<rparr>), (3, \<lparr>es_peer = 9, es_tracks = [4]\<rparr>)]\<rparr>"

definition demo_opus :: media_packet where
  "demo_opus = build_audio 100 2000 (Some (-20)) [1, 2, 3]"

lemma demo_mixers_inv: "xp_inv demo_xp" "xs_inv demo_xs"
  using xp_inv_new[of 40] xs_inv_new[of 1 40]
  by (auto simp: xp_inv_def xs_inv_def demo_xp_def demo_xs_def xp_new_def xs_new_def im_wf_def split: if_splits)


text \<open>C30: whatever audio tracks and endpoints come and go, in any order of joins, leaves, packets and ticks, no
  call on the publisher or on a subscriber of the mixer channel panics as long as tracks and endpoints are
  added and removed in turn; the commands each sends on the mixer channel alternate, and leave the channel
  open exactly while the publisher has a track, and the subscriber an endpoint.\<close>

theorem room_mixers_balanced:
  assumes "calls_legal xp_pre (xp_step x) xp_pop_output (xp_new c) cs"
    and "0 < n" and "calls_legal xs_pre (xs_step x) xs_pop_output (xs_new n c) ds"
  shows "(\<exists>p sent. calls_run (xp_step x) xp_pop_output (xp_new c) cs = Inr (p, sent) \<and>
      toggles pub_cmd {} (sent @ xp_queue p) = Some (if xp_tracks p = [] then {} else {xp_channel_id p})) \<and>
    (\<exists>s sent. calls_run (xs_step x) xs_pop_output (xs_new n c) ds = Inr (s, sent) \<and>
      toggles sub_cmd {} (sent @ xs_queue s) = Some (if xs_endpoints s = [] then {} else {xs_channel_id s}))"
proof -
  have "xp_queue (xp_new c) = []" "xp_active (xp_new c) = {}" by (simp_all add: xp_new_def xp_active_def)
  note 1 = xp.run_from_empty[OF xp_inv_new assms(1) this]
  have "xs_queue (xs_new n c) = []" "xs_active (xs_new n c) = {}" by (simp_all add: xs_new_def xs_active_def)
  note 2 = xs.run_from_empty[OF xs_inv_new[OF assms(2)] assms(3) this]
  show ?thesis using 1 2 unfolding xp_active_def xs_active_def by blast
qed

definition demo_xp_calls :: "nat xp_op call list" where
  "demo_xp_calls = [Call (XpPublish 1 7 ''alice'' ''mic''), Pop, Call (XpData 10 1 7 demo_opus), Call (XpTick 20), Call (XpUnpublish 1 7), Pop]"

definition demo_xs_calls :: "(nat, demo_wire) xs_op call list" where
  "demo_xs_calls = [Call (XsJoin 2 ''bob'' [0]), Pop, Call (XsTick 20), Call (XsLeave 2), Pop]"

theorem room_mixers_balanced_witness:
  "calls_legal xp_pre (xp_step demo_ext) xp_pop_output (xp_new 40) demo_xp_calls \<and>
   calls_legal xs_pre (xs_step demo_ext) xs_pop_output (xs_new 1 40) demo_xs_calls \<and>
   (\<exists>p sent. calls_run (xp_step demo_ext) xp_pop_output (xp_new 40) demo_xp_calls = Inr (p, sent) \<and>
      toggles pub_cmd {} (sent @ xp_queue p) = Some (if xp_tracks p = [] then {} else {xp_channel_id p}))"
proof -
  have 1: "calls_legal xp_pre (xp_step demo_ext) xp_pop_output (xp_new 40) demo_xp_calls"
    by (simp add: demo_xp_calls_def xp_pre_def xp_step_def xp_new_def xp_on_track_publish_def im_contains_def xp_pop_output_def
        xp_on_tick_def am_on_tick_def am_new_def xp_on_track_data_def demo_opus_def build_audio_def am_on_pkt_def
        find_empty_slot_def arr_set_def Let_def numeral_3_eq_3 AUDIO_SLOT_TIMEOUT_def xp_on_track_unpublish_def)
  have 2: "calls_legal xs_pre (xs_step demo_ext) xs_pop_output (xs_new 1 40) demo_xs_calls"
    by (simp add: demo_xs_calls_def xs_pre_def xs_step_def xs_new_def xs_on_endpoint_join_def im_contains_def xs_pop_output_def
        xs_on_tick_def am_on_tick_def am_new_def xs_on_endpoint_leave_def Let_def)
  from room_mixers_balanced[OF 1 _ 2] show ?thesis using 1 2 by simp
qed

end
