(* ===== verification/Cluster_Room.thy ===== *)
theory Cluster_Room
  imports Room_Media_Track Room_Message_Channel Room_Metadata Room_Audio_Mixer
begin

text \<open>
  The composition of a room (\<open>room/media_track.rs\<close>, \<open>room/message_channel.rs\<close>, \<open>room/audio_mixer.rs\<close>, \<open>room.rs\<close>)
  and of all rooms of a node (\<open>cluster.rs\<close>). Each composite owns its parts and forwards calls to them.
  The library \<open>sans_io_runtime\<close> decides which part is polled next and which index a new task of a group
  gets; both enter as arguments: \<open>pop_output\<close> takes the parts its switcher names one after the other until
  the loop returns, and \<open>add_task\<close> takes the index the group hands out. The event a part reports when it
  becomes empty is a turn of its own where the code acts on it.
\<close>

section \<open>Media tracks of a room\<close>

datatype ('w, 'fb) channel_event = RouteChanged nat | SourceData nat 'w | FeedbackData 'fb

record ('e, 'w, 'fb) media_track =
  mt_publisher :: "('e, 'w, 'fb) track_publisher"
  mt_subscriber :: "('e, 'w, 'fb) track_subscriber"

definition mt_new :: "nat \<Rightarrow> ('e, 'w, 'fb) media_track" where
  "mt_new room = \<lparr>mt_publisher = tp_new room, mt_subscriber = ts_sub_new room\<rparr>"

definition mt_on_pubsub_event ::
  "('w, 'fb) externals \<Rightarrow> ('e, 'w, 'fb) media_track \<Rightarrow> nat \<Rightarrow> ('w, 'fb) channel_event \<Rightarrow> ('e, 'w, 'fb) media_track" where
  "mt_on_pubsub_event x t channel event =
     (case event of
        RouteChanged next \<Rightarrow> t\<lparr>mt_subscriber := ts_on_track_relay_changed (mt_subscriber t) channel\<rparr>
      | SourceData from data \<Rightarrow> t\<lparr>mt_subscriber := ts_on_track_data x (mt_subscriber t) channel data\<rparr>
      | FeedbackData fb \<Rightarrow> t\<lparr>mt_publisher := tp_on_track_feedback x (mt_publisher t) channel fb\<rparr>)"

definition mt_on_track_publish ::
  "('w, 'fb) externals \<Rightarrow> ('e, 'w, 'fb) media_track \<Rightarrow> 'e \<Rightarrow> remote_track_id \<Rightarrow> peer_id \<Rightarrow> track_name \<Rightarrow> ('e, 'w, 'fb) media_track" where
  "mt_on_track_publish x t endpoint track peer name =
     t\<lparr>mt_publisher := tp_on_track_publish x (mt_publisher t) endpoint track peer name\<rparr>"

definition mt_on_track_data ::
  "('w, 'fb) externals \<Rightarrow> ('e, 'w, 'fb) media_track \<Rightarrow> 'e \<Rightarrow> remote_track_id \<Rightarrow> media_packet \<Rightarrow> ('e, 'w, 'fb) media_track" where
  "mt_on_track_data x t endpoint track media = t\<lparr>mt_publisher := tp_on_track_data x (mt_publisher t) endpoint track media\<rparr>"

definition mt_on_track_unpublish ::
  "('e, 'w, 'fb) media_track \<Rightarrow> 'e \<Rightarrow> remote_track_id \<Rightarrow> ('e, 'w, 'fb) media_track res" where
  "mt_on_track_unpublish t endpoint track =
     res_bind (tp_on_track_unpublish (mt_publisher t) endpoint track) (\<lambda>p. Inr (t\<lparr>mt_publisher := p\<rparr>))"

definition mt_on_track_subscribe ::
  "('w, 'fb) externals \<Rightarrow> ('e, 'w, 'fb) media_track \<Rightarrow> 'e \<Rightarrow> local_track_id \<Rightarrow> peer_id \<Rightarrow> track_name \<Rightarrow> ('e, 'w, 'fb) media_track" where
  "mt_on_track_subscribe x t endpoint track target_peer target_track =
     t\<lparr>mt_subscriber := ts_on_track_subscribe x (mt_subscriber t) endpoint track target_peer target_track\<rparr>"

definition mt_on_track_request_key ::
  "('w, 'fb) externals \<Rightarrow> ('e, 'w, 'fb) media_track \<Rightarrow> 'e \<Rightarrow> local_track_id \<Rightarrow> ('e, 'w, 'fb) media_track" where
  "mt_on_track_request_key x t endpoint track = t\<lparr>mt_subscriber := ts_on_track_request_key x (mt_subscriber t) endpoint track\<rparr>"

definition mt_on_track_desired_bitrate ::
  "('w, 'fb) externals \<Rightarrow> ('e, 'w, 'fb) media_track \<Rightarrow> nat \<Rightarrow> 'e \<Rightarrow> local_track_id \<Rightarrow> nat \<Rightarrow> ('e, 'w, 'fb) media_track" where
  "mt_on_track_desired_bitrate x t now endpoint track bitrate =
     t\<lparr>mt_subscriber := ts_on_track_desired_bitrate x (mt_subscriber t) now endpoint track bitrate\<rparr>"

definition mt_on_track_unsubscribe ::
  "('e, 'w, 'fb) media_track \<Rightarrow> 'e \<Rightarrow> local_track_id \<Rightarrow> ('e, 'w, 'fb) media_track" where
  "mt_on_track_unsubscribe t endpoint track = t\<lparr>mt_subscriber := ts_on_track_unsubscribe (mt_subscriber t) endpoint track\<rparr>"

definition mt_is_empty :: "('e, 'w, 'fb) media_track \<Rightarrow> bool" where
  "mt_is_empty t \<longleftrightarrow> tp_is_empty (mt_publisher t) \<and> ts_is_empty (mt_subscriber t)"

datatype half = Publisher | Subscriber

fun mt_pop_output ::
  "('e, 'w, 'fb) media_track \<Rightarrow> half list \<Rightarrow> ('e, 'w, 'fb) media_track \<times> ('e, 'w, 'fb) room_output option" where
  "mt_pop_output t [] = (t, None)"
| "mt_pop_output t (Publisher # turns) =
     (case tp_pop_output (mt_publisher t) of
        (p, Some out) \<Rightarrow> (t\<lparr>mt_publisher := p\<rparr>, Some out)
      | (p, None) \<Rightarrow> mt_pop_output (t\<lparr>mt_publisher := p\<rparr>) turns)"
| "mt_pop_output t (Subscriber # turns) =
     (case ts_pop_output (mt_subscriber t) of
        (s, Some out) \<Rightarrow> (t\<lparr>mt_subscriber := s\<rparr>, Some out)
      | (s, None) \<Rightarrow> mt_pop_output (t\<lparr>mt_subscriber := s\<rparr>) turns)"

section \<open>Message channels of a room\<close>

record ('e, 'w, 'fb) room_message_channel =
  rc_publisher :: "('e, 'w, 'fb) msg_publisher"
  rc_subscriber :: "('e, 'w, 'fb) msg_subscriber"

definition rc_new :: "nat \<Rightarrow> ('e, 'w, 'fb) room_message_channel" where
  "rc_new room = \<lparr>rc_publisher = mp_new room, rc_subscriber = ms_new room\<rparr>"

definition rc_on_pubsub_event ::
  "('w, 'fb) externals \<Rightarrow> ('e, 'w, 'fb) room_message_channel \<Rightarrow> nat \<Rightarrow> ('w, 'fb) channel_event \<Rightarrow> ('e, 'w, 'fb) room_message_channel" where
  "rc_on_pubsub_event x c channel event =
     (case event of SourceData from data \<Rightarrow> c\<lparr>rc_subscriber := ms_on_channel_data x (rc_subscriber c) channel data\<rparr> | _ \<Rightarrow> c)"

definition rc_on_channel_publish_start ::
  "('w, 'fb) externals \<Rightarrow> ('e, 'w, 'fb) room_message_channel \<Rightarrow> 'e \<Rightarrow> channel_label \<Rightarrow> ('e, 'w, 'fb) room_message_channel" where
  "rc_on_channel_publish_start x c endpoint label = c\<lparr>rc_publisher := mp_on_channel_pub_start x (rc_publisher c) endpoint label\<rparr>"

definition rc_on_channel_publish_stop ::
  "('w, 'fb) externals \<Rightarrow> ('e, 'w, 'fb) room_message_channel \<Rightarrow> 'e \<Rightarrow> channel_label \<Rightarrow> ('e, 'w, 'fb) room_message_channel" where
  "rc_on_channel_publish_stop x c endpoint label = c\<lparr>rc_publisher := mp_on_channel_pub_stop x (rc_publisher c) endpoint label\<rparr>"

definition rc_on_channel_data ::
  "('w, 'fb) externals \<Rightarrow> ('e, 'w, 'fb) room_message_channel \<Rightarrow> 'e \<Rightarrow> channel_label \<Rightarrow> message_channel_packet \<Rightarrow> ('e, 'w, 'fb) room_message_channel" where
  "rc_on_channel_data x c endpoint label data = c\<lparr>rc_publisher := mp_on_channel_data x (rc_publisher c) endpoint label data\<rparr>"

definition rc_on_channel_subscribe ::
  "('w, 'fb) externals \<Rightarrow> ('e, 'w, 'fb) room_message_channel \<Rightarrow> 'e \<Rightarrow> channel_label \<Rightarrow> ('e, 'w, 'fb) room_message_channel" where
  "rc_on_channel_subscribe x c endpoint label = c\<lparr>rc_subscriber := ms_on_channel_subscribe x (rc_subscriber c) endpoint label\<rparr>"

definition rc_on_channel_unsubscribe ::
  "('w, 'fb) externals \<Rightarrow> ('e, 'w, 'fb) room_message_channel \<Rightarrow> 'e \<Rightarrow> channel_label \<Rightarrow> ('e, 'w, 'fb) room_message_channel" where
  "rc_on_channel_unsubscribe x c endpoint label = c\<lparr>rc_subscriber := ms_on_channel_unsubscribe x (rc_subscriber c) endpoint label\<rparr>"

definition rc_on_leave :: "('e, 'w, 'fb) room_message_channel \<Rightarrow> 'e \<Rightarrow> ('e, 'w, 'fb) room_message_channel" where
  "rc_on_leave c endpoint = c\<lparr>rc_subscriber := ms_on_leave (rc_subscriber c) endpoint, rc_publisher := mp_on_leave (rc_publisher c) endpoint\<rparr>"

definition rc_is_empty :: "('e, 'w, 'fb) room_message_channel \<Rightarrow> bool" where
  "rc_is_empty c \<longleftrightarrow> mp_is_empty (rc_publisher c) \<and> ms_is_empty (rc_subscriber c)"

fun rc_pop_output ::
  "('e, 'w, 'fb) room_message_channel \<Rightarrow> half list \<Rightarrow> ('e, 'w, 'fb) room_message_channel \<times> ('e, 'w, 'fb) room_output option" where
  "rc_pop_output c [] = (c, None)"
| "rc_pop_output c (Publisher # turns) =
     (case mp_pop_output (rc_publisher c) of
        (p, Some out) \<Rightarrow> (c\<lparr>rc_publisher := p\<rparr>, Some out)
      | (p, None) \<Rightarrow> rc_pop_output (c\<lparr>rc_publisher := p\<rparr>) turns)"
| "rc_pop_output c (Subscriber # turns) =
     (case ms_pop_output (rc_subscriber c) of
        (s, Some out) \<Rightarrow> (c\<lparr>rc_subscriber := s\<rparr>, Some out)
      | (s, None) \<Rightarrow> rc_pop_output (c\<lparr>rc_subscriber := s\<rparr>) turns)"

section \<open>Audio mixers of a room\<close>

definition TICK_INTERVAL :: nat where "TICK_INTERVAL = 1000"

record ('e, 'w, 'fb) room_mixer =
  rx_room :: nat
  rx_mix_channel_id :: nat
  rx_auto_mode :: "('e, nat) imap"
  rx_manual_mode :: "('e, nat) imap"
  rx_manual_channels :: "(nat, nat list) imap"
  rx_publisher :: "('e, 'w, 'fb) mixer_publisher"
  rx_subscriber1 :: "('e, 'w, 'fb) mixer_subscriber"
  rx_subscriber2 :: "('e, 'w, 'fb) mixer_subscriber"
  rx_subscriber3 :: "('e, 'w, 'fb) mixer_subscriber"
  rx_manuals :: "(nat, ('e, 'w, 'fb) manual_mixer) imap"
  rx_last_tick :: nat

definition rx_new :: "nat \<Rightarrow> nat \<Rightarrow> nat \<Rightarrow> ('e, 'w, 'fb) room_mixer" where
  "rx_new now room mix_channel_id =
     \<lparr>rx_room = room, rx_mix_channel_id = mix_channel_id, rx_auto_mode = [], rx_manual_mode = [], rx_manual_channels = [],
      rx_publisher = xp_new mix_channel_id, rx_subscriber1 = xs_new 1 mix_channel_id,
      rx_subscriber2 = xs_new 2 mix_channel_id, rx_subscriber3 = xs_new 3 mix_channel_id, rx_manuals = [], rx_last_tick = now\<rparr>"

text \<open>The tick of a task group is the tick of each of its tasks.\<close>

fun manuals_tick :: "nat \<Rightarrow> (nat, ('e, 'w, 'fb) manual_mixer) imap \<Rightarrow> (nat, ('e, 'w, 'fb) manual_mixer) imap res" where
  "manuals_tick now [] = Inr []"
| "manuals_tick now ((i, m) # rest) =
     res_bind (xm_on_tick m now) (\<lambda>m1. res_bind (manuals_tick now rest) (\<lambda>rest1. Inr ((i, m1) # rest1)))"

definition rx_on_tick :: "('e, 'w, 'fb) room_mixer \<Rightarrow> nat \<Rightarrow> ('e, 'w, 'fb) room_mixer res" where
  "rx_on_tick r now =
     (if now \<ge> rx_last_tick r + TICK_INTERVAL
      then res_bind (xp_on_tick (rx_publisher r) now) (\<lambda>p.
           res_bind (xs_on_tick (rx_subscriber1 r) now) (\<lambda>s1.
           res_bind (xs_on_tick (rx_subscriber2 r) now) (\<lambda>s2.
           res_bind (xs_on_tick (rx_subscriber3 r) now) (\<lambda>s3.
           res_bind (manuals_tick now (rx_manuals r)) (\<lambda>ms.
           Inr (r\<lparr>rx_last_tick := now, rx_publisher := p, rx_subscriber1 := s1, rx_subscriber2 := s2,
                  rx_subscriber3 := s3, rx_manuals := ms\<rparr>))))))
      else Inr r)"

text \<open>\<open>new_index\<close> is the index \<open>add_task\<close> returns.\<close>

definition rx_on_join ::
  "('w, 'fb) externals \<Rightarrow> ('e, 'w, 'fb) room_mixer \<Rightarrow> nat \<Rightarrow> 'e \<Rightarrow> peer_id \<Rightarrow> audio_mixer_config option \<Rightarrow> ('e, 'w, 'fb) room_mixer res" where
  "rx_on_join x r new_index endpoint peer cfg =
     (case cfg of
        None \<Rightarrow> Inr r
      | Some cfg \<Rightarrow>
          (case mc_mode cfg of
             MixerAuto \<Rightarrow>
               (let r1 = r\<lparr>rx_auto_mode := im_insert (rx_auto_mode r) endpoint (length (mc_outputs cfg))\<rparr> in
                if length (mc_outputs cfg) = 1
                then res_bind (xs_on_endpoint_join x (rx_subscriber1 r1) endpoint peer (mc_outputs cfg)) (\<lambda>s. Inr (r1\<lparr>rx_subscriber1 := s\<rparr>))
                else if length (mc_outputs cfg) = 2
                then res_bind (xs_on_endpoint_join x (rx_subscriber2 r1) endpoint peer (mc_outputs cfg)) (\<lambda>s. Inr (r1\<lparr>rx_subscriber2 := s\<rparr>))
                else if length (mc_outputs cfg) = 3
                then res_bind (xs_on_endpoint_join x (rx_subscriber3 r1) endpoint peer (mc_outputs cfg)) (\<lambda>s. Inr (r1\<lparr>rx_subscriber3 := s\<rparr>))
                else Inr r1)
           | MixerManual \<Rightarrow>
               (let r1 = r\<lparr>rx_manuals := im_insert (rx_manuals r) new_index (xm_new (rx_room r) endpoint (mc_outputs cfg)),
                           rx_manual_mode := im_insert (rx_manual_mode r) endpoint new_index\<rparr> in
                if im_contains (rx_manual_mode r) endpoint then Inl Unreachable else Inr r1)))"

datatype audio_mixer_control = Attach "track_source list" | Detach "track_source list"

text \<open>An event for a task of the group; nothing happens when the group has no task of that index.\<close>

definition manuals_event ::
  "('w, 'fb) externals \<Rightarrow> ('e, 'w, 'fb) room_mixer \<Rightarrow> nat \<Rightarrow> nat \<Rightarrow> 'w manual_input \<Rightarrow> ('e, 'w, 'fb) room_mixer res" where
  "manuals_event x r now index input =
     (case im_get (rx_manuals r) index of
        None \<Rightarrow> Inr r
      | Some m \<Rightarrow> res_bind (xm_on_event x m now input) (\<lambda>m1. Inr (r\<lparr>rx_manuals := im_insert (rx_manuals r) index m1\<rparr>)))"

definition rx_on_control ::
  "('w, 'fb) externals \<Rightarrow> ('e, 'w, 'fb) room_mixer \<Rightarrow> nat \<Rightarrow> 'e \<Rightarrow> audio_mixer_control \<Rightarrow> ('e, 'w, 'fb) room_mixer res" where
  "rx_on_control x r now endpoint control =
     res_bind (rexpect (im_get (rx_manual_mode r) endpoint)) (\<lambda>index.
     manuals_event x r now index (case control of Attach sources \<Rightarrow> MiAttach sources | Detach sources \<Rightarrow> MiDetach sources))"

definition rx_on_leave ::
  "('w, 'fb) externals \<Rightarrow> ('e, 'w, 'fb) room_mixer \<Rightarrow> nat \<Rightarrow> 'e \<Rightarrow> ('e, 'w, 'fb) room_mixer res" where
  "rx_on_leave x r now endpoint =
     (case im_get (rx_auto_mode r) endpoint of
        Some outputs \<Rightarrow>
          (let r1 = r\<lparr>rx_auto_mode := im_swap_remove (rx_auto_mode r) endpoint\<rparr> in
           if outputs = 1 then res_bind (xs_on_endpoint_leave (rx_subscriber1 r1) endpoint) (\<lambda>s. Inr (r1\<lparr>rx_subscriber1 := s\<rparr>))
           else if outputs = 2 then res_bind (xs_on_endpoint_leave (rx_subscriber2 r1) endpoint) (\<lambda>s. Inr (r1\<lparr>rx_subscriber2 := s\<rparr>))
           else if outputs = 3 then res_bind (xs_on_endpoint_leave (rx_subscriber3 r1) endpoint) (\<lambda>s. Inr (r1\<lparr>rx_subscriber3 := s\<rparr>))
           else Inr r1)
      | None \<Rightarrow>
          (case im_get (rx_manual_mode r) endpoint of
             None \<Rightarrow> Inr r
           | Some index \<Rightarrow>
               manuals_event x (r\<lparr>rx_manual_mode := im_swap_remove (rx_manual_mode r) endpoint\<rparr>) now index MiLeaveRoom))"

definition rx_on_track_publish ::
  "('w, 'fb) externals \<Rightarrow> ('e, 'w, 'fb) room_mixer \<Rightarrow> 'e \<Rightarrow> remote_track_id \<Rightarrow> peer_id \<Rightarrow> track_name \<Rightarrow> ('e, 'w, 'fb) room_mixer res" where
  "rx_on_track_publish x r endpoint track peer name =
     res_bind (xp_on_track_publish x (rx_publisher r) endpoint track peer name) (\<lambda>p. Inr (r\<lparr>rx_publisher := p\<rparr>))"

definition rx_on_track_data ::
  "('w, 'fb) externals \<Rightarrow> ('e, 'w, 'fb) room_mixer \<Rightarrow> nat \<Rightarrow> 'e \<Rightarrow> remote_track_id \<Rightarrow> media_packet \<Rightarrow> ('e, 'w, 'fb) room_mixer res" where
  "rx_on_track_data x r now endpoint track media =
     res_bind (xp_on_track_data x (rx_publisher r) now endpoint track media) (\<lambda>p. Inr (r\<lparr>rx_publisher := p\<rparr>))"

definition rx_on_track_unpublish ::
  "('e, 'w, 'fb) room_mixer \<Rightarrow> 'e \<Rightarrow> remote_track_id \<Rightarrow> ('e, 'w, 'fb) room_mixer res" where
  "rx_on_track_unpublish r endpoint track =
     res_bind (xp_on_track_unpublish (rx_publisher r) endpoint track) (\<lambda>p. Inr (r\<lparr>rx_publisher := p\<rparr>))"

text \<open>The loop over the manual mixers attached to a channel.\<close>

fun manuals_data ::
  "('w, 'fb) externals \<Rightarrow> nat \<Rightarrow> nat \<Rightarrow> nat \<Rightarrow> 'w \<Rightarrow> nat list \<Rightarrow> ('e, 'w, 'fb) room_mixer \<Rightarrow> ('e, 'w, 'fb) room_mixer res" where
  "manuals_data x now channel from data [] r = Inr r"
| "manuals_data x now channel from data (i # tasks) r =
     res_bind (manuals_event x r now i (MiPubsub channel from data)) (manuals_data x now channel from data tasks)"

definition rx_on_pubsub_event ::
  "('w, 'fb) externals \<Rightarrow> ('e, 'w, 'fb) room_mixer \<Rightarrow> nat \<Rightarrow> nat \<Rightarrow> ('w, 'fb) channel_event \<Rightarrow> ('e, 'w, 'fb) room_mixer res" where
  "rx_on_pubsub_event x r now channel event =
     (case event of
        RouteChanged next \<Rightarrow> Inr r
      | SourceData from data \<Rightarrow>
          if channel = rx_mix_channel_id r
          then res_bind (xs_on_channel_data x (rx_subscriber1 r) now from data) (\<lambda>s1.
               res_bind (xs_on_channel_data x (rx_subscriber2 r) now from data) (\<lambda>s2.
               res_bind (xs_on_channel_data x (rx_subscriber3 r) now from data) (\<lambda>s3.
               Inr (r\<lparr>rx_subscriber1 := s1, rx_subscriber2 := s2, rx_subscriber3 := s3\<rparr>))))
          else (case im_get (rx_manual_channels r) channel of
                  None \<Rightarrow> Inr r
                | Some tasks \<Rightarrow> manuals_data x now channel from data tasks r)
      | FeedbackData fb \<Rightarrow> Inr r)"

definition rx_is_empty :: "('e, 'w, 'fb) room_mixer \<Rightarrow> bool" where
  "rx_is_empty r \<longleftrightarrow> rx_manual_channels r = [] \<and> rx_manual_mode r = [] \<and> xp_is_empty (rx_publisher r) \<and>
     xs_is_empty (rx_subscriber1 r) \<and> xs_is_empty (rx_subscriber2 r) \<and> xs_is_empty (rx_subscriber3 r) \<and> rx_manuals r = []"

text \<open>A turn of the loop: a part is polled, the task group is polled at one of its tasks, or reports that
  the task has become empty.\<close>

datatype mixer_turn = TPublisher | TSubscriber1 | TSubscriber2 | TSubscriber3 | TManual nat | TManualEmpty nat

datatype ('e, 'w, 'fb) mixer_output = MixOut "('e, 'w, 'fb) room_output" | MixEmpty

text \<open>What the composite does with an output of the manual mixer \<open>index\<close>: of all mixers attached to a
  channel only the first subscribes and only the last unsubscribes.\<close>

definition manual_output ::
  "('e, 'w, 'fb) room_mixer \<Rightarrow> nat \<Rightarrow> ('e, 'w, 'fb) room_output \<Rightarrow>
   (('e, 'w, 'fb) room_mixer \<times> ('e, 'w, 'fb) room_output option) res" where
  "manual_output r index out =
     (case out of
        Pubsub channel_id SubAuto \<Rightarrow>
          (case im_get (rx_manual_channels r) channel_id of
             Some slot \<Rightarrow> Inr (r\<lparr>rx_manual_channels := im_insert (rx_manual_channels r) channel_id (slot @ [index])\<rparr>, None)
           | None \<Rightarrow> Inr (r\<lparr>rx_manual_channels := im_insert (rx_manual_channels r) channel_id [index]\<rparr>, Some out))
      | Pubsub channel_id UnsubAuto \<Rightarrow>
          res_bind (rexpect (im_get (rx_manual_channels r) channel_id)) (\<lambda>slot.
          res_bind (rexpect (index_of (\<lambda>task_i. task_i = index) slot)) (\<lambda>slot_index.
          let slot1 = swap_remove_at slot_index slot in
          if slot1 = []
          then Inr (r\<lparr>rx_manual_channels := im_swap_remove (rx_manual_channels r) channel_id\<rparr>, Some out)
          else Inr (r\<lparr>rx_manual_channels := im_insert (rx_manual_channels r) channel_id slot1\<rparr>, None)))
      | _ \<Rightarrow> Inr (r, Some out))"

fun rx_pop_output ::
  "('e, 'w, 'fb) room_mixer \<Rightarrow> mixer_turn list \<Rightarrow> (('e, 'w, 'fb) room_mixer \<times> ('e, 'w, 'fb) mixer_output option) res" where
  "rx_pop_output r [] = Inr (r, None)"
| "rx_pop_output r (TPublisher # turns) =
     (case xp_pop_output (rx_publisher r) of
        (p, Some out) \<Rightarrow> Inr (r\<lparr>rx_publisher := p\<rparr>, Some (MixOut out))
      | (p, None) \<Rightarrow> rx_pop_output (r\<lparr>rx_publisher := p\<rparr>) turns)"
| "rx_pop_output r (TSubscriber1 # turns) =
     (case xs_pop_output (rx_subscriber1 r) of
        (s, Some out) \<Rightarrow> Inr (r\<lparr>rx_subscriber1 := s\<rparr>, Some (MixOut out))
      | (s, None) \<Rightarrow> rx_pop_output (r\<lparr>rx_subscriber1 := s\<rparr>) turns)"
| "rx_pop_output r (TSubscriber2 # turns) =
     (case xs_pop_output (rx_subscriber2 r) of
        (s, Some out) \<Rightarrow> Inr (r\<lparr>rx_subscriber2 := s\<rparr>, Some (MixOut out))
      | (s, None) \<Rightarrow> rx_pop_output (r\<lparr>rx_subscriber2 := s\<rparr>) turns)"
| "rx_pop_output r (TSubscriber3 # turns) =
     (case xs_pop_output (rx_subscriber3 r) of
        (s, Some out) \<Rightarrow> Inr (r\<lparr>rx_subscriber3 := s\<rparr>, Some (MixOut out))
      | (s, None) \<Rightarrow> rx_pop_output (r\<lparr>rx_subscriber3 := s\<rparr>) turns)"
| "rx_pop_output r (TManual i # turns) =
     (case im_get (rx_manuals r) i of
        None \<Rightarrow> rx_pop_output r turns
      | Some m \<Rightarrow>
          (case xm_pop_output m of
             (m1, None) \<Rightarrow> rx_pop_output r turns
           | (m1, Some out) \<Rightarrow>
               res_bind (manual_output (r\<lparr>rx_manuals := im_insert (rx_manuals r) i m1\<rparr>) i out) (\<lambda>(r1, out1).
               case out1 of
                 Some out2 \<Rightarrow> Inr (r1, Some (MixOut out2))
               | None \<Rightarrow> rx_pop_output r1 turns)))"
| "rx_pop_output r (TManualEmpty i # turns) =
     (let r1 = r\<lparr>rx_manuals := im_swap_remove (rx_manuals r) i\<rparr> in
      if rx_is_empty r1 then Inr (r1, Some MixEmpty) else rx_pop_output r1 turns)"

section \<open>A room\<close>

datatype room_feature = MetaData | MediaTrack | AudioMixer | MessageChannel

datatype remote_track_control = RtStarted track_name track_meta | RtMedia media_packet | RtEnded track_name track_meta

datatype local_track_control = LtSubscribe peer_id track_name | LtRequestKeyFrame | LtDesiredBitrate nat | LtUnsubscribe

datatype message_channel_control = McStartPublish | McStopPublish | McSubscribe | McUnsubscribe | McPublishData peer_id "nat list"

datatype endpoint_control =
    CtlJoin peer_id peer_meta room_info_publish room_info_subscribe "audio_mixer_config option"
  | CtlLeave | CtlSubscribePeer peer_id | CtlUnsubscribePeer peer_id | CtlAudioMixer audio_mixer_control
  | CtlRemoteTrack remote_track_id remote_track_control | CtlLocalTrack local_track_id local_track_control
  | CtlMessageChannel channel_label message_channel_control

text \<open>Events of the overlay: changes of a key-value map, the answer to a read, an event of a channel.\<close>

datatype ('w, 'fb) features_event = DhtMapEvent nat "'w map_event" | DhtMapGetRes | PubSubEvent nat "('w, 'fb) channel_event"

record ('e, 'w, 'fb) cluster_room =
  cr_room :: nat
  cr_metadata :: "('e, 'w, 'fb) room_metadata"
  cr_media_track :: "('e, 'w, 'fb) media_track"
  cr_audio_mixer :: "('e, 'w, 'fb) room_mixer"
  cr_message_channel :: "('e, 'w, 'fb) room_message_channel"

definition cr_new :: "('w, 'fb) externals \<Rightarrow> nat \<Rightarrow> nat \<Rightarrow> ('e, 'w, 'fb) cluster_room" where
  "cr_new x now room =
     \<lparr>cr_room = room, cr_metadata = md_new room, cr_media_track = mt_new room,
      cr_audio_mixer = rx_new now room (gen_mixer_auto_channel_id x room), cr_message_channel = rc_new room\<rparr>"

definition cr_on_tick :: "('e, 'w, 'fb) cluster_room \<Rightarrow> nat \<Rightarrow> ('e, 'w, 'fb) cluster_room res" where
  "cr_on_tick r now = res_bind (rx_on_tick (cr_audio_mixer r) now) (\<lambda>m. Inr (r\<lparr>cr_audio_mixer := m\<rparr>))"

definition cr_on_sdn_event ::
  "('w, 'fb) externals \<Rightarrow> ('e, 'w, 'fb) cluster_room \<Rightarrow> nat \<Rightarrow> room_feature \<Rightarrow> ('w, 'fb) features_event \<Rightarrow> ('e, 'w, 'fb) cluster_room res" where
  "cr_on_sdn_event x r now feature event =
     (case (feature, event) of
        (MetaData, DhtMapEvent map1 ev) \<Rightarrow>
          Inr (r\<lparr>cr_metadata := md_on_kv_event x (cr_metadata r) map1 ev\<rparr>)
      | (MediaTrack, PubSubEvent channel ev) \<Rightarrow> Inr (r\<lparr>cr_media_track := mt_on_pubsub_event x (cr_media_track r) channel ev\<rparr>)
      | (AudioMixer, PubSubEvent channel ev) \<Rightarrow>
          res_bind (rx_on_pubsub_event x (cr_audio_mixer r) now channel ev) (\<lambda>m. Inr (r\<lparr>cr_audio_mixer := m\<rparr>))
      | (MessageChannel, PubSubEvent channel ev) \<Rightarrow>
          Inr (r\<lparr>cr_message_channel := rc_on_pubsub_event x (cr_message_channel r) channel ev\<rparr>)
      | _ \<Rightarrow> Inr r)"

definition on_control_remote_track ::
  "('w, 'fb) externals \<Rightarrow> ('e, 'w, 'fb) cluster_room \<Rightarrow> nat \<Rightarrow> 'e \<Rightarrow> remote_track_id \<Rightarrow> remote_track_control \<Rightarrow> ('e, 'w, 'fb) cluster_room res" where
  "on_control_remote_track x r now endpoint track control =
     (case control of
        RtStarted name meta \<Rightarrow>
          (case get_peer_from_endpoint (cr_metadata r) endpoint of
             None \<Rightarrow> Inr r
           | Some peer \<Rightarrow>
               res_bind
                 (if kind_is_audio (tm_kind meta) then rx_on_track_publish x (cr_audio_mixer r) endpoint track peer name
                  else Inr (cr_audio_mixer r)) (\<lambda>m.
               Inr (r\<lparr>cr_audio_mixer := m,
                      cr_media_track := mt_on_track_publish x (cr_media_track r) endpoint track peer name,
                      cr_metadata := md_on_track_publish x (cr_metadata r) endpoint track name meta\<rparr>)))
      | RtMedia media \<Rightarrow>
          res_bind
            (if meta_is_audio (pkt_meta media) then rx_on_track_data x (cr_audio_mixer r) now endpoint track media
             else Inr (cr_audio_mixer r)) (\<lambda>m.
          Inr (r\<lparr>cr_audio_mixer := m, cr_media_track := mt_on_track_data x (cr_media_track r) endpoint track media\<rparr>))
      | RtEnded name meta \<Rightarrow>
          res_bind
            (if kind_is_audio (tm_kind meta) then rx_on_track_unpublish (cr_audio_mixer r) endpoint track
             else Inr (cr_audio_mixer r)) (\<lambda>m.
          res_bind (mt_on_track_unpublish (cr_media_track r) endpoint track) (\<lambda>t.
          Inr (r\<lparr>cr_audio_mixer := m, cr_media_track := t,
                 cr_metadata := md_on_track_unpublish x (cr_metadata r) endpoint track\<rparr>))))"

definition on_control_local_track ::
  "('w, 'fb) externals \<Rightarrow> ('e, 'w, 'fb) cluster_room \<Rightarrow> nat \<Rightarrow> 'e \<Rightarrow> local_track_id \<Rightarrow> local_track_control \<Rightarrow> ('e, 'w, 'fb) cluster_room" where
  "on_control_local_track x r now endpoint track control =
     r\<lparr>cr_media_track :=
       (case control of
          LtSubscribe peer name \<Rightarrow> mt_on_track_subscribe x (cr_media_track r) endpoint track peer name
        | LtRequestKeyFrame \<Rightarrow> mt_on_track_request_key x (cr_media_track r) endpoint track
        | LtDesiredBitrate bitrate \<Rightarrow> mt_on_track_desired_bitrate x (cr_media_track r) now endpoint track bitrate
        | LtUnsubscribe \<Rightarrow> mt_on_track_unsubscribe (cr_media_track r) endpoint track)\<rparr>"

definition on_control_message_channel ::
  "('w, 'fb) externals \<Rightarrow> ('e, 'w, 'fb) cluster_room \<Rightarrow> 'e \<Rightarrow> channel_label \<Rightarrow> message_channel_control \<Rightarrow> ('e, 'w, 'fb) cluster_room" where
  "on_control_message_channel x r endpoint label control =
     r\<lparr>cr_message_channel :=
       (case control of
          McSubscribe \<Rightarrow> rc_on_channel_subscribe x (cr_message_channel r) endpoint label
        | McUnsubscribe \<Rightarrow> rc_on_channel_unsubscribe x (cr_message_channel r) endpoint label
        | McStartPublish \<Rightarrow> rc_on_channel_publish_start x (cr_message_channel r) endpoint label
        | McStopPublish \<Rightarrow> rc_on_channel_publish_stop x (cr_message_channel r) endpoint label
        | McPublishData peer data \<Rightarrow>
            rc_on_channel_data x (cr_message_channel r) endpoint label \<lparr>mp_from = peer, mp_data = data\<rparr>)\<rparr>"

definition cr_on_endpoint_control ::
  "('w, 'fb) externals \<Rightarrow> ('e, 'w, 'fb) cluster_room \<Rightarrow> nat \<Rightarrow> nat \<Rightarrow> 'e \<Rightarrow> endpoint_control \<Rightarrow> ('e, 'w, 'fb) cluster_room res" where
  "cr_on_endpoint_control x r new_index now endpoint control =
     (case control of
        CtlJoin peer meta publish subscribe mixer \<Rightarrow>
          res_bind (rx_on_join x (cr_audio_mixer r) new_index endpoint peer mixer) (\<lambda>m.
          Inr (r\<lparr>cr_audio_mixer := m, cr_metadata := md_on_join x (cr_metadata r) endpoint peer meta publish subscribe\<rparr>))
      | CtlLeave \<Rightarrow>
          res_bind (rx_on_leave x (cr_audio_mixer r) now endpoint) (\<lambda>m.
          res_bind (md_on_leave x (cr_metadata r) endpoint) (\<lambda>md.
          Inr (r\<lparr>cr_audio_mixer := m, cr_metadata := md, cr_message_channel := rc_on_leave (cr_message_channel r) endpoint\<rparr>)))
      | CtlSubscribePeer target \<Rightarrow> 
          res_bind (md_on_subscribe_peer x (cr_metadata r) endpoint target) (\<lambda>m. Inr (r\<lparr>cr_metadata := m\<rparr>))
      | CtlUnsubscribePeer target \<Rightarrow> 
          res_bind (md_on_unsubscribe_peer x (cr_metadata r) endpoint target) (\<lambda>m. Inr (r\<lparr>cr_metadata := m\<rparr>))
      | CtlAudioMixer control \<Rightarrow>
          res_bind (rx_on_control x (cr_audio_mixer r) now endpoint control) (\<lambda>m. Inr (r\<lparr>cr_audio_mixer := m\<rparr>))
      | CtlRemoteTrack track control \<Rightarrow> on_control_remote_track x r now endpoint track control
      | CtlLocalTrack track control \<Rightarrow> Inr (on_control_local_track x r now endpoint track control)
      | CtlMessageChannel label control \<Rightarrow> Inr (on_control_message_channel x r endpoint label control))"

datatype ('e, 'w, 'fb) room_input = InSdn room_feature "('w, 'fb) features_event" | InEndpoint 'e endpoint_control

definition cr_on_event ::
  "('w, 'fb) externals \<Rightarrow> ('e, 'w, 'fb) cluster_room \<Rightarrow> nat \<Rightarrow> nat \<Rightarrow> ('e, 'w, 'fb) room_input \<Rightarrow> ('e, 'w, 'fb) cluster_room res" where
  "cr_on_event x r new_index now input =
     (case input of
        InEndpoint endpoint control \<Rightarrow> cr_on_endpoint_control x r new_index now endpoint control
      | InSdn feature event \<Rightarrow> cr_on_sdn_event x r now feature event)"

definition cr_is_empty :: "('e, 'w, 'fb) cluster_room \<Rightarrow> bool" where
  "cr_is_empty r \<longleftrightarrow> md_is_empty (cr_metadata r) \<and> mt_is_empty (cr_media_track r) \<and> rx_is_empty (cr_audio_mixer r) \<and>
     rc_is_empty (cr_message_channel r)"

text \<open>An output of the room carries the feature it comes from, which the overlay returns with every event.\<close>

datatype ('e, 'w, 'fb) cluster_room_output = RoomSdn nat room_feature "('e, 'w, 'fb) room_output" | RoomEndpoint "'e list" endpoint_event

fun room_out :: "nat \<Rightarrow> room_feature \<Rightarrow> ('e, 'w, 'fb) room_output \<Rightarrow> ('e, 'w, 'fb) cluster_room_output" where
  "room_out room feature (ToEndpoint es ev) = RoomEndpoint es ev"
| "room_out room feature out = RoomSdn room feature out"

datatype room_turn = RMetadata | RMediaTrack "half list" | RAudioMixer "mixer_turn list" | RMessageChannel "half list"

fun cr_pop_output ::
  "('e, 'w, 'fb) cluster_room \<Rightarrow> room_turn list \<Rightarrow> (('e, 'w, 'fb) cluster_room \<times> ('e, 'w, 'fb) cluster_room_output option) res" where
  "cr_pop_output r [] = Inr (r, None)"
| "cr_pop_output r (RMetadata # turns) =
     (case md_pop_output (cr_metadata r) of
        (m, Some out) \<Rightarrow> Inr (r\<lparr>cr_metadata := m\<rparr>, Some (room_out (cr_room r) MetaData out))
      | (m, None) \<Rightarrow> cr_pop_output (r\<lparr>cr_metadata := m\<rparr>) turns)"
| "cr_pop_output r (RMediaTrack ts # turns) =
     (case mt_pop_output (cr_media_track r) ts of
        (m, Some out) \<Rightarrow> Inr (r\<lparr>cr_media_track := m\<rparr>, Some (room_out (cr_room r) MediaTrack out))
      | (m, None) \<Rightarrow> cr_pop_output (r\<lparr>cr_media_track := m\<rparr>) turns)"
| "cr_pop_output r (RAudioMixer ts # turns) =
     res_bind (rx_pop_output (cr_audio_mixer r) ts) (\<lambda>(m, out).
     case out of
       Some (MixOut out1) \<Rightarrow> Inr (r\<lparr>cr_audio_mixer := m\<rparr>, Some (room_out (cr_room r) AudioMixer out1))
     | _ \<Rightarrow> cr_pop_output (r\<lparr>cr_audio_mixer := m\<rparr>) turns)"
| "cr_pop_output r (RMessageChannel ts # turns) =
     (case rc_pop_output (cr_message_channel r) ts of
        (m, Some out) \<Rightarrow> Inr (r\<lparr>cr_message_channel := m\<rparr>, Some (room_out (cr_room r) MessageChannel out))
      | (m, None) \<Rightarrow> cr_pop_output (r\<lparr>cr_message_channel := m\<rparr>) turns)"

section \<open>The rooms of a node\<close>

record ('e, 'w, 'fb) media_cluster =
  mc_rooms_map :: "(nat, nat) imap"
  mc_rooms :: "(nat, ('e, 'w, 'fb) cluster_room) imap"
  mc_shutdown :: bool

definition mc_default :: "('e, 'w, 'fb) media_cluster" where
  "mc_default = \<lparr>mc_rooms_map = [], mc_rooms = [], mc_shutdown = False\<rparr>"

fun rooms_tick :: "nat \<Rightarrow> (nat, ('e, 'w, 'fb) cluster_room) imap \<Rightarrow> (nat, ('e, 'w, 'fb) cluster_room) imap res" where
  "rooms_tick now [] = Inr []"
| "rooms_tick now ((i, r) # rest) =
     res_bind (cr_on_tick r now) (\<lambda>r1. res_bind (rooms_tick now rest) (\<lambda>rest1. Inr ((i, r1) # rest1)))"

definition mc_on_tick :: "('e, 'w, 'fb) media_cluster \<Rightarrow> nat \<Rightarrow> ('e, 'w, 'fb) media_cluster res" where
  "mc_on_tick c now = res_bind (rooms_tick now (mc_rooms c)) (\<lambda>rooms. Inr (c\<lparr>mc_rooms := rooms\<rparr>))"

definition rooms_event ::
  "('w, 'fb) externals \<Rightarrow> ('e, 'w, 'fb) media_cluster \<Rightarrow> nat \<Rightarrow> nat \<Rightarrow> nat \<Rightarrow> ('e, 'w, 'fb) room_input \<Rightarrow> ('e, 'w, 'fb) media_cluster res" where
  "rooms_event x c new_index now index input =
     (case im_get (mc_rooms c) index of
        None \<Rightarrow> Inr c
      | Some r \<Rightarrow> res_bind (cr_on_event x r new_index now input) (\<lambda>r1. Inr (c\<lparr>mc_rooms := im_insert (mc_rooms c) index r1\<rparr>)))"

definition mc_on_sdn_event ::
  "('w, 'fb) externals \<Rightarrow> ('e, 'w, 'fb) media_cluster \<Rightarrow> nat \<Rightarrow> nat \<Rightarrow> room_feature \<Rightarrow> ('w, 'fb) features_event \<Rightarrow> ('e, 'w, 'fb) media_cluster res" where
  "mc_on_sdn_event x c now room feature event =
     (case im_get (mc_rooms_map c) room of
        None \<Rightarrow> Inr c
      | Some index \<Rightarrow> rooms_event x c 0 now index (InSdn feature event))"

text \<open>\<open>room_index\<close> is the index the group of rooms gives a new room, \<open>new_index\<close> the one the group of manual
  mixers of the room gives a new mixer.\<close>

definition mc_on_endpoint_control ::
  "('w, 'fb) externals \<Rightarrow> ('e, 'w, 'fb) media_cluster \<Rightarrow> nat \<Rightarrow> nat \<Rightarrow> nat \<Rightarrow> 'e \<Rightarrow> nat \<Rightarrow> endpoint_control \<Rightarrow> ('e, 'w, 'fb) media_cluster res" where
  "mc_on_endpoint_control x c room_index new_index now endpoint room_hash control =
     (case im_get (mc_rooms_map c) room_hash of
        Some index \<Rightarrow> rooms_event x c new_index now index (InEndpoint endpoint control)
      | None \<Rightarrow>
          rooms_event x (c\<lparr>mc_rooms := im_insert (mc_rooms c) room_index (cr_new x now room_hash),
                           mc_rooms_map := im_insert (mc_rooms_map c) room_hash room_index\<rparr>)
            new_index now room_index (InEndpoint endpoint control))"

text \<open>A room does nothing on shutdown, so neither does the group.\<close>

definition mc_shutdown_all :: "('e, 'w, 'fb) media_cluster \<Rightarrow> ('e, 'w, 'fb) media_cluster" where
  "mc_shutdown_all c = (if mc_shutdown c then c else c\<lparr>mc_shutdown := True\<rparr>)"

definition mc_is_empty :: "('e, 'w, 'fb) media_cluster \<Rightarrow> bool" where
  "mc_is_empty c \<longleftrightarrow> mc_shutdown c \<and> mc_rooms c = []"

text \<open>What the group of rooms answers when polled: the output of the room at an index, that the room has
  become empty, or that the group has.\<close>

datatype rooms_turn = RoomTurn nat "room_turn list" | RoomEmpty nat | GroupEmpty

datatype ('e, 'w, 'fb) cluster_output = ClusterOut "('e, 'w, 'fb) cluster_room_output" | ClusterContinue

definition mc_pop_output ::
  "('e, 'w, 'fb) media_cluster \<Rightarrow> rooms_turn \<Rightarrow> (('e, 'w, 'fb) media_cluster \<times> ('e, 'w, 'fb) cluster_output option) res" where
  "mc_pop_output c turn =
     (case turn of
        RoomTurn index turns \<Rightarrow>
          (case im_get (mc_rooms c) index of
             None \<Rightarrow> Inr (c, None)
           | Some r \<Rightarrow> res_bind (cr_pop_output r turns) (\<lambda>(r1, out).
               Inr (c\<lparr>mc_rooms := im_insert (mc_rooms c) index r1\<rparr>, map_option ClusterOut out)))
      | RoomEmpty index \<Rightarrow>
          (case im_get (mc_rooms c) index of
             None \<Rightarrow> Inr (c, None)
           | Some r \<Rightarrow>
               res_bind (rexpect (im_get (mc_rooms_map c) (cr_room r))) (\<lambda>_.
               Inr (c\<lparr>mc_rooms_map := im_swap_remove (mc_rooms_map c) (cr_room r),
                      mc_rooms := im_swap_remove (mc_rooms c) index\<rparr>, Some ClusterContinue)))
      | GroupEmpty \<Rightarrow> Inr (c, Some ClusterContinue))"

end
