(* ===== verification/Room_Mixer_Contract.thy ===== *)
theory Room_Mixer_Contract
  imports Cluster_Room
begin

text \<open>
  The invariant of the audio mixers of a room: the parts are consistent, every automatic endpoint sits in
  the subscriber of its number of outputs, and the table of manual channels agrees with what the manual
  mixers have attached, up to the commands still in their queues.
\<close>

section \<open>What the calls leave alone\<close>

lemma clear_slots_length: "clear_slots slots l = Inr slots1 \<Longrightarrow> length slots1 = length slots"
  by (induction l arbitrary: slots) (auto simp: panic_simps arr_set_def split: if_splits)

lemma xs_tick_frame:
  "xs_on_tick s now = Inr s1 \<Longrightarrow> xs_endpoints s1 = xs_endpoints s \<and> length (xs_outputs s1) = length (xs_outputs s)"
  by (auto simp: xs_on_tick_def panic_simps Let_def dest!: clear_slots_length split: option.splits)

lemma xs_data_frame:
  assumes "xs_inv s" "xs_on_channel_data x s now from w = Inr s1"
  shows "xs_endpoints s1 = xs_endpoints s \<and> length (xs_outputs s1) = length (xs_outputs s)"
proof (cases "xs_endpoints s = [] \<or> x_mix_deser x w = None")
  case True
  then have "xs_on_channel_data x s now from w = Inr s" by (elim disjE) (simp_all add: xs_on_channel_data_def)
  then show ?thesis using assms(2) by simp
next
  case False
  then obtain audio where "x_mix_deser x w = Some audio" "xs_endpoints s \<noteq> []" by blast
  from xs_data_eval[OF assms(1) this, of now "from"] assms(2) show ?thesis by auto
qed

lemma xs_join_frame:
  "xs_on_endpoint_join x s e peer tracks = Inr s1 \<Longrightarrow>
   im_get (xs_endpoints s1) = (im_get (xs_endpoints s))(e \<mapsto> \<lparr>es_peer = peer_hash_code x peer, es_tracks = tracks\<rparr>) \<and>
   xs_outputs s1 = xs_outputs s"
  by (auto simp: xs_on_endpoint_join_def panic_simps)

lemma xs_leave_frame:
  "xs_inv s \<Longrightarrow> xs_on_endpoint_leave s e = Inr s1 \<Longrightarrow>
   im_get (xs_endpoints s1) = (im_get (xs_endpoints s))(e := None) \<and> xs_outputs s1 = xs_outputs s"
  by (auto simp: xs_on_endpoint_leave_def panic_simps Let_def xs_inv_def)

lemma xp_tick_frame: "xp_on_tick p now = Inr p1 \<Longrightarrow> xp_tracks p1 = xp_tracks p"
  by (auto simp: xp_on_tick_def panic_simps Let_def split: option.splits)

lemma xp_data_frame:
  assumes "xp_inv p" "im_get (xp_tracks p) (e, t) = Some info" "xp_on_track_data x p now e t media = Inr p1"
  shows "xp_tracks p1 = xp_tracks p"
proof (cases "pkt_meta media")
  case (Opus level)
  from xp_data_eval[OF assms(1,2) this, of x now] show ?thesis using assms(3) by auto
qed (use assms(2,3) in \<open>simp_all add: xp_on_track_data_def\<close>)

lemma xm_tick_frame: "xm_on_tick m now = Inr m1 \<Longrightarrow> xm_sources m1 = xm_sources m"
  by (auto simp: xm_on_tick_def panic_simps Let_def split: option.splits)

lemma xm_data_frame: "xm_on_event x m now (MiPubsub c from w) = Inr m1 \<Longrightarrow> xm_sources m1 = xm_sources m"
  by (auto simp: xm_on_event_def xm_on_source_pkt_def panic_simps Let_def split: option.splits media_meta.splits if_splits)

section \<open>The invariant\<close>

text \<open>The channels the composite holds for the manual mixer \<open>i\<close>.\<close>

definition held :: "(nat, nat list) imap \<Rightarrow> nat \<Rightarrow> nat set" where
  "held ch i = {c. \<exists>l. im_get ch c = Some l \<and> i \<in> set l}"

definition channels_wf :: "(nat, nat list) imap \<Rightarrow> bool" where
  "channels_wf ch \<longleftrightarrow> im_wf ch \<and> (\<forall>c l. im_get ch c = Some l \<longrightarrow> l \<noteq> [] \<and> distinct l)"

definition manual_ok :: "(nat, nat list) imap \<Rightarrow> nat \<Rightarrow> ('e, 'w, 'fb) manual_mixer option \<Rightarrow> bool" where
  "manual_ok ch i om \<longleftrightarrow>
     (case om of
        None \<Rightarrow> held ch i = {}
      | Some m \<Rightarrow> xm_inv m \<and> toggles sub_cmd (held ch i) (xm_queue m) = Some (xm_active m))"

definition sub_ok :: "nat \<Rightarrow> ('e, nat) imap \<Rightarrow> ('e, 'w, 'fb) mixer_subscriber \<Rightarrow> bool" where
  "sub_ok k auto s \<longleftrightarrow> xs_inv s \<and> length (xs_outputs s) = k \<and>
     (\<forall>e. im_get (xs_endpoints s) e \<noteq> None \<longleftrightarrow> im_get auto e = Some k)"

definition manuals_inv ::
  "(nat, nat list) imap \<Rightarrow> ('e, nat) imap \<Rightarrow> (nat, ('e, 'w, 'fb) manual_mixer) imap \<Rightarrow> bool" where
  "manuals_inv ch mode ms \<longleftrightarrow> im_wf ms \<and> im_wf mode \<and> channels_wf ch \<and> (\<forall>i. manual_ok ch i (im_get ms i)) \<and>
     (\<forall>i m. im_get ms i = Some m \<and> xm_sources m \<noteq> [] \<longrightarrow> i \<in> ran (im_get mode))"

definition rx_inv :: "('e, 'w, 'fb) room_mixer \<Rightarrow> bool" where
  "rx_inv r \<longleftrightarrow> xp_inv (rx_publisher r) \<and> im_wf (rx_auto_mode r) \<and> sub_ok 1 (rx_auto_mode r) (rx_subscriber1 r) \<and>
     sub_ok 2 (rx_auto_mode r) (rx_subscriber2 r) \<and> sub_ok 3 (rx_auto_mode r) (rx_subscriber3 r) \<and>
     manuals_inv (rx_manual_channels r) (rx_manual_mode r) (rx_manuals r)"

lemma rx_inv_new: "rx_inv (rx_new now room c)"
  by (simp add: rx_inv_def rx_new_def xp_inv_new sub_ok_def xs_inv_new manuals_inv_def channels_wf_def manual_ok_def held_def)
     (simp add: xs_new_def)

section \<open>Manual mixers\<close>

lemma manual_ok_step:
  assumes "manual_ok ch i (Some m)" "xm_ok m (Inr m1)"
  shows "manual_ok ch i (Some m1)"
  using assms by (auto simp: manual_ok_def mixer_step_ok_def toggles_append)

lemma manuals_update:
  assumes "manuals_inv ch mode ms" "im_get ms i = Some m" "xm_ok m (Inr m1)"
    "xm_sources m1 \<noteq> [] \<Longrightarrow> i \<in> ran (im_get mode)"
  shows "manuals_inv ch mode (im_insert ms i m1)"
proof -
  have "manual_ok ch i (Some m)" using assms(1,2) unfolding manuals_inv_def by metis
  then have "manual_ok ch i (Some m1)" by (rule manual_ok_step[OF _ assms(3)])
  then show ?thesis using assms(1,4) by (auto simp: manuals_inv_def)
qed

lemma manuals_task:
  assumes "manuals_inv ch mode ms" "im_get ms i = Some m"
  shows "manual_ok ch i (Some m)" "xm_inv m"
proof -
  have "manual_ok ch i (im_get ms i)" using assms(1) unfolding manuals_inv_def by blast
  then show "manual_ok ch i (Some m)" using assms(2) by simp
  then show "xm_inv m" by (simp add: manual_ok_def)
qed

lemma manuals_mode:
  assumes "manuals_inv ch mode ms" "im_get mode e = None"
  shows "manuals_inv ch (im_insert mode e i) ms"
  using assms by (auto simp: manuals_inv_def ran_map_upd)

lemma manuals_tick_ok:
  assumes "manuals_inv ch mode ms"
  shows "\<exists>ms1. manuals_tick now ms = Inr ms1 \<and> manuals_inv ch mode ms1 \<and> im_keys ms1 = im_keys ms"
proof -
  have "\<exists>ms1. manuals_tick now ms = Inr ms1 \<and> im_keys ms1 = im_keys ms \<and>
      (\<forall>i. case im_get ms i of None \<Rightarrow> im_get ms1 i = None
         | Some m \<Rightarrow> \<exists>m1. im_get ms1 i = Some m1 \<and> xm_ok m (Inr m1) \<and> xm_sources m1 = xm_sources m)"
    if "\<forall>p\<in>set ms. xm_inv (snd p)" for ms :: "(nat, ('e, 'w, 'fb) manual_mixer) imap"
    using that
  proof (induction ms)
    case (Cons p ms)
    obtain i m where p: "p = (i, m)" by (cases p)
    have "xm_ok m (xm_on_tick m now)" using Cons.prems p by (intro xm_tick_ok) simp
    then obtain m1 where m1: "xm_on_tick m now = Inr m1" "xm_ok m (Inr m1)" by (auto simp: mixer_step_ok_def)
    obtain ms1 where "manuals_tick now ms = Inr ms1" "im_keys ms1 = im_keys ms"
      "\<forall>i. case im_get ms i of None \<Rightarrow> im_get ms1 i = None
         | Some m \<Rightarrow> \<exists>m1. im_get ms1 i = Some m1 \<and> xm_ok m (Inr m1) \<and> xm_sources m1 = xm_sources m"
      using Cons by fastforce
    then show ?case using m1 xm_tick_frame[OF m1(1)] p by (simp split: option.splits) (metis option.distinct(1))
  qed simp
  moreover have "xm_inv (snd p)" if "p \<in> set ms" for p
  proof (rule manuals_task(2)[OF assms])
    show "im_get ms (fst p) = Some (snd p)" using that assms by (simp add: manuals_inv_def im_wf_def)
  qed
  ultimately obtain ms1 where r: "manuals_tick now ms = Inr ms1" "im_keys ms1 = im_keys ms"
    "\<And>i. case im_get ms i of None \<Rightarrow> im_get ms1 i = None
         | Some m \<Rightarrow> \<exists>m1. im_get ms1 i = Some m1 \<and> xm_ok m (Inr m1) \<and> xm_sources m1 = xm_sources m" by blast
  have "manual_ok ch i (im_get ms1 i)" for i
  proof (cases "im_get ms i")
    case None
    moreover have "manual_ok ch i (im_get ms i)" using assms unfolding manuals_inv_def by blast
    ultimately show ?thesis using r(3)[of i] by simp
  next
    case (Some m)
    then obtain m1 where "im_get ms1 i = Some m1" "xm_ok m (Inr m1)" using r(3)[of i] by auto
    then show ?thesis using manual_ok_step[OF manuals_task(1)[OF assms Some]] by simp
  qed
  moreover have "i \<in> ran (im_get mode)" if "im_get ms1 i = Some m" "xm_sources m \<noteq> []" for i m
    using r(3)[of i] that assms by (cases "im_get ms i") (auto simp: manuals_inv_def)
  ultimately show ?thesis using r(1,2) assms by (auto simp: manuals_inv_def im_wf_def)
qed

lemma manuals_event_ok:
  assumes inv: "rx_inv r" and pre: "\<And>m. im_get (rx_manuals r) i = Some m \<Longrightarrow> xm_pre m (XmEvent now input)"
    and src: "\<And>m m1. im_get (rx_manuals r) i = Some m \<Longrightarrow> xm_on_event x m now input = Inr m1 \<Longrightarrow>
      xm_sources m1 \<noteq> [] \<Longrightarrow> i \<in> ran (im_get (rx_manual_mode r))"
  shows "\<exists>ms. manuals_event x r now i input = Inr (r\<lparr>rx_manuals := ms\<rparr>) \<and>
    manuals_inv (rx_manual_channels r) (rx_manual_mode r) ms \<and>
    (\<forall>j. j \<noteq> i \<longrightarrow> im_get ms j = im_get (rx_manuals r) j) \<and> (im_get ms i = None \<longleftrightarrow> im_get (rx_manuals r) i = None)"
proof (cases "im_get (rx_manuals r) i")
  case None
  then show ?thesis using inv by (intro exI[of _ "rx_manuals r"]) (simp add: manuals_event_def rx_inv_def)
next
  case (Some m)
  have mi: "manuals_inv (rx_manual_channels r) (rx_manual_mode r) (rx_manuals r)" using inv by (simp add: rx_inv_def)
  then have "xm_inv m" using Some by (rule manuals_task(2))
  then obtain m1 where m1: "xm_on_event x m now input = Inr m1" "xm_ok m (Inr m1)"
    using xm_event_ok[OF _ pre[OF Some], of x] by (auto simp: mixer_step_ok_def)
  then have "manuals_inv (rx_manual_channels r) (rx_manual_mode r) (im_insert (rx_manuals r) i m1)"
    using manuals_update[OF mi Some m1(2)] src[OF Some m1(1)] by blast
  then show ?thesis using Some m1(1) by (auto simp: manuals_event_def)
qed

text \<open>While no mixer has a command queued, the channels held for a mixer are those it has attached.\<close>

definition manuals_drained :: "('e, 'w, 'fb) room_mixer \<Rightarrow> bool" where
  "manuals_drained r \<longleftrightarrow> (\<forall>m\<in>set (im_values (rx_manuals r)). \<forall>out\<in>set (xm_queue m). sub_cmd out = None)"

lemma held_active:
  assumes "manual_ok ch i (Some m)" "\<forall>out\<in>set (xm_queue m). sub_cmd out = None"
  shows "held ch i = xm_active m"
  using assms toggles_silent[of "xm_queue m" sub_cmd "held ch i"] by (simp add: manual_ok_def)

lemma manuals_data_ok:
  assumes "rx_inv r" "distinct tasks" "\<And>i. i \<in> set tasks \<Longrightarrow> \<exists>m. im_get (rx_manuals r) i = Some m \<and> c \<in> xm_active m"
  shows "\<exists>ms. manuals_data x now c from w tasks r = Inr (r\<lparr>rx_manuals := ms\<rparr>) \<and>
    manuals_inv (rx_manual_channels r) (rx_manual_mode r) ms \<and> dom (im_get ms) = dom (im_get (rx_manuals r))"
  using assms
proof (induction tasks arbitrary: r)
  case Nil
  then show ?case by (intro exI[of _ "rx_manuals r"]) (simp add: rx_inv_def)
next
  case (Cons i tasks)
  have pre: "xm_pre m (XmEvent now (MiPubsub c from w))" if "im_get (rx_manuals r) i = Some m" for m
    using Cons.prems(3)[of i] that by (auto simp: xm_pre_def xm_active_def)
  have src: "i \<in> ran (im_get (rx_manual_mode r))"
    if "im_get (rx_manuals r) i = Some m" "xm_on_event x m now (MiPubsub c from w) = Inr m1" "xm_sources m1 \<noteq> []" for m m1
    using that xm_data_frame[OF that(2)] Cons.prems(1) by (simp add: rx_inv_def manuals_inv_def)
  obtain ms where ms: "manuals_event x r now i (MiPubsub c from w) = Inr (r\<lparr>rx_manuals := ms\<rparr>)"
      "manuals_inv (rx_manual_channels r) (rx_manual_mode r) ms"
      "\<forall>j. j \<noteq> i \<longrightarrow> im_get ms j = im_get (rx_manuals r) j" "im_get ms i = None \<longleftrightarrow> im_get (rx_manuals r) i = None"
  proof -
    have "\<exists>ms. manuals_event x r now i (MiPubsub c from w) = Inr (r\<lparr>rx_manuals := ms\<rparr>) \<and>
        manuals_inv (rx_manual_channels r) (rx_manual_mode r) ms \<and>
        (\<forall>j. j \<noteq> i \<longrightarrow> im_get ms j = im_get (rx_manuals r) j) \<and> (im_get ms i = None \<longleftrightarrow> im_get (rx_manuals r) i = None)"
      by (rule manuals_event_ok[OF Cons.prems(1)]) (use pre src in blast)+
    then show ?thesis by (elim exE conjE) (rule that)
  qed
  let ?r = "r\<lparr>rx_manuals := ms\<rparr>"
  have "rx_inv ?r" using Cons.prems(1) ms(2) by (simp add: rx_inv_def)
  moreover have "\<exists>m. im_get (rx_manuals ?r) j = Some m \<and> c \<in> xm_active m" if "j \<in> set tasks" for j
  proof -
    have "j \<noteq> i" using that Cons.prems(2) by auto
    then show ?thesis using that Cons.prems(3)[of j] ms(3) by simp
  qed
  moreover have "distinct tasks" using Cons.prems(2) by simp
  ultimately obtain ms1 where r1: "manuals_data x now c from w tasks ?r = Inr (?r\<lparr>rx_manuals := ms1\<rparr>)"
      "manuals_inv (rx_manual_channels r) (rx_manual_mode r) ms1" "dom (im_get ms1) = dom (im_get ms)"
    using Cons.IH[of ?r] by auto
  have "dom (im_get ms) = dom (im_get (rx_manuals r))" 
  proof (rule set_eqI)
    show "j \<in> dom (im_get ms) \<longleftrightarrow> j \<in> dom (im_get (rx_manuals r))" for j
      using ms(3,4) by (cases "j = i") (simp_all add: domIff)
  qed
  then show ?case using ms(1) r1 by auto
qed

lemma held_tasks:
  assumes inv: "rx_inv r" and d: "manuals_drained r" and l: "im_get (rx_manual_channels r) c = Some l" and i: "i \<in> set l"
  shows "\<exists>m. im_get (rx_manuals r) i = Some m \<and> c \<in> xm_active m"
proof -
  have ok: "manual_ok (rx_manual_channels r) i (im_get (rx_manuals r) i)" using inv by (simp add: rx_inv_def manuals_inv_def)
  have h: "c \<in> held (rx_manual_channels r) i" using l i by (auto simp: held_def)
  show ?thesis
  proof (cases "im_get (rx_manuals r) i")
    case None
    then show ?thesis using ok h by (simp add: manual_ok_def)
  next
    case (Some m)
    then have "m \<in> set (im_values (rx_manuals r))" by (metis map_of_SomeD image_eqI list.set_map snd_conv)
    then have "\<forall>out\<in>set (xm_queue m). sub_cmd out = None" using d unfolding manuals_drained_def by blast
    then show ?thesis using Some ok h held_active[of "rx_manual_channels r" i m] by simp
  qed
qed

text \<open>An output of a manual mixer passes through the table of channels: of all mixers on a channel the
  first opens it and the last closes it.\<close>

lemma held_self:
  assumes "im_wf ch"
  shows "held (if l1 = [] then im_swap_remove ch c else im_insert ch c l1) i = (if i \<in> set l1 then insert c (held ch i) else held ch i - {c})"
proof -
  have "im_get (if l1 = [] then im_swap_remove ch c else im_insert ch c l1) = (im_get ch)(c := if l1 = [] then None else Some l1)"
    using assms by simp
  then show ?thesis unfolding held_def by (auto split: if_splits)
qed

lemma held_other:
  assumes "im_wf ch" "j \<noteq> i" "im_get ch c = Some l" "set l1 = set l - {i}"
  shows "held (if l1 = [] then im_swap_remove ch c else im_insert ch c l1) j = held ch j"
proof -
  have "j \<in> set l1 \<longleftrightarrow> c \<in> held ch j" using assms(2-4) by (simp add: held_def)
  then show ?thesis unfolding held_self[OF assms(1)] by (simp add: insert_absorb)
qed

lemma channels_wf_upd:
  assumes "channels_wf ch" "im_wf ch1" "im_get ch1 = (im_get ch)(c := u)" "\<And>l. u = Some l \<Longrightarrow> l \<noteq> [] \<and> distinct l"
  shows "channels_wf ch1"
  unfolding channels_wf_def
proof (intro conjI allI impI)
  fix c' l assume l: "im_get ch1 c' = Some l"
  show "l \<noteq> []" "distinct l"
  proof -
    have "l \<noteq> [] \<and> distinct l"
    proof (cases "c' = c")
      case False
      then have "im_get ch c' = Some l" using l assms(3) by simp
      then show ?thesis using assms(1) unfolding channels_wf_def by blast
    qed (use l assms(3,4) in simp)
    then show "l \<noteq> []" "distinct l" by blast+
  qed
qed (rule assms(2))

lemma channels_wf_wf: "channels_wf ch \<Longrightarrow> im_wf ch"
  unfolding channels_wf_def by blast

lemma channels_wf_put: "channels_wf ch \<Longrightarrow> l1 \<noteq> [] \<Longrightarrow> distinct l1 \<Longrightarrow> channels_wf (im_insert ch c l1)"
  by (rule channels_wf_upd[where u = "Some l1"]) (simp_all add: channels_wf_wf)

lemma channels_wf_remove: "channels_wf ch \<Longrightarrow> channels_wf (im_swap_remove ch c)"
  by (rule channels_wf_upd[where u = None and c = c]) (simp_all add: channels_wf_wf)

lemma manual_output_ok:
  assumes inv: "manuals_inv ch mode ms" and m: "im_get ms i = Some m" and q: "xm_queue m = out # rest"
    and r: "rx_manual_channels r = ch" "rx_manuals r = im_insert ms i (m\<lparr>xm_queue := rest\<rparr>)"
  shows "\<exists>ch1 out1. manual_output r i out = Inr (r\<lparr>rx_manual_channels := ch1\<rparr>, out1) \<and>
    manuals_inv ch1 mode (im_insert ms i (m\<lparr>xm_queue := rest\<rparr>)) \<and>
    toggles sub_cmd (dom (im_get ch)) (case out1 of None \<Rightarrow> [] | Some o1 \<Rightarrow> [o1]) = Some (dom (im_get ch1))"
proof -
  have cwf: "channels_wf ch" using inv by (simp add: manuals_inv_def)
  have ok: "manual_ok ch i (Some m)" and mi: "xm_inv m" using manuals_task[OF inv m] by blast+
  have wf: "im_wf ch" "\<And>c l. im_get ch c = Some l \<Longrightarrow> l \<noteq> [] \<and> distinct l" 
    using inv unfolding manuals_inv_def channels_wf_def by blast+
  have tog: "toggles sub_cmd (held ch i) (out # rest) = Some (xm_active m)" using ok q by (simp add: manual_ok_def)
  have keep: "manuals_inv ch1 mode (im_insert ms i (m\<lparr>xm_queue := rest\<rparr>))"
    if "channels_wf ch1" "\<And>j. j \<noteq> i \<Longrightarrow> held ch1 j = held ch j" "toggles sub_cmd (held ch1 i) rest = Some (xm_active m)" for ch1
  proof -
    have "manual_ok ch1 j (im_get (im_insert ms i (m\<lparr>xm_queue := rest\<rparr>)) j)" for j
    proof (cases "j = i")
      case False
      have "manual_ok ch j (im_get ms j)" using inv unfolding manuals_inv_def by blast
      then show ?thesis using False that(2)[OF False] by (simp add: manual_ok_def split: option.splits)
    qed (use that(3) mi in \<open>simp add: manual_ok_def\<close>)
    moreover have "\<forall>j m'. im_get (im_insert ms i (m\<lparr>xm_queue := rest\<rparr>)) j = Some m' \<and> xm_sources m' \<noteq> [] \<longrightarrow> j \<in> ran (im_get mode)"
      using inv m by (auto simp: manuals_inv_def)
    ultimately show ?thesis using inv that(1) by (auto simp: manuals_inv_def)
  qed
  consider (sub) c where "out = Pubsub c SubAuto" | (unsub) c where "out = Pubsub c UnsubAuto" | (other) "sub_cmd out = None"
    by (cases out rule: sub_cmd.cases) auto
  then show ?thesis
  proof cases
    case sub
    define l1 where "l1 = (case im_get ch c of None \<Rightarrow> [i] | Some l \<Rightarrow> l @ [i])"
    have ni: "c \<notin> held ch i" and t: "toggles sub_cmd (insert c (held ch i)) rest = Some (xm_active m)"
      using tog sub by (auto split: if_splits)
    have "l1 \<noteq> [] \<and> distinct l1"
    proof (cases "im_get ch c")
      case (Some l)
      then show ?thesis using ni wf(2)[OF Some] by (simp add: l1_def held_def)
    qed (simp add: l1_def)
    then have "channels_wf (im_insert ch c l1)" using channels_wf_put[OF cwf] by blast
    moreover have "held (im_insert ch c l1) j = held ch j" if "j \<noteq> i" for j
      using that by (auto simp: held_def l1_def split: option.split)
    moreover have "held (im_insert ch c l1) i = insert c (held ch i)" by (auto simp: held_def l1_def split: option.split)
    ultimately have "manuals_inv (im_insert ch c l1) mode (im_insert ms i (m\<lparr>xm_queue := rest\<rparr>))" using t by (intro keep) auto
    moreover have "manual_output r i out = Inr (r\<lparr>rx_manual_channels := im_insert ch c l1\<rparr>, if im_get ch c = None then Some out else None)"
      using sub r(1) by (cases "im_get ch c") (simp_all add: manual_output_def l1_def)
    moreover have "toggles sub_cmd (dom (im_get ch)) (if im_get ch c = None then [out] else []) = Some (dom (im_get (im_insert ch c l1)))"
      using sub by (auto simp: insert_absorb domIff)
    ultimately show ?thesis by (cases "im_get ch c = None") (auto intro!: exI[of _ "im_insert ch c l1"])
  next
    case unsub
    then have ci: "c \<in> held ch i" and t: "toggles sub_cmd (held ch i - {c}) rest = Some (xm_active m)"
      using tog by (auto split: if_splits)
    then obtain l where l: "im_get ch c = Some l" "i \<in> set l" by (auto simp: held_def)
    then obtain k where k: "index_of (\<lambda>t. t = i) l = Some k" 
      by (cases "index_of (\<lambda>t. t = i) l") (auto simp: index_of_None)
    then have kl: "k < length l" "l ! k = i" using index_of_Some[OF k] by auto
    define l1 where "l1 = swap_remove_at k l"
    have l1: "set l1 = set l - {i}" "distinct l1" using swap_remove_at_set[OF kl(1)] wf(2)[OF l(1)] kl(2) by (simp_all add: l1_def)
    define ch1 where "ch1 = (if l1 = [] then im_swap_remove ch c else im_insert ch c l1)"
    have "channels_wf ch1" unfolding ch1_def using channels_wf_put[OF cwf _ l1(2)] channels_wf_remove[OF cwf] by simp
    moreover have "held ch1 j = held ch j" if "j \<noteq> i" for j
      unfolding ch1_def by (rule held_other[OF wf(1) that l(1) l1(1)])
    moreover have "held ch1 i = held ch i - {c}" unfolding ch1_def using held_self[OF wf(1)] l1 by simp
    ultimately have "manuals_inv ch1 mode (im_insert ms i (m\<lparr>xm_queue := rest\<rparr>))" using t by (intro keep) auto
    moreover have "manual_output r i out = Inr (r\<lparr>rx_manual_channels := ch1\<rparr>, if l1 = [] then Some out else None)"
      using unsub r(1) l(1) k by (simp add: manual_output_def l1_def[symmetric] ch1_def Let_def)
    moreover have "toggles sub_cmd (dom (im_get ch)) (if l1 = [] then [out] else []) = Some (dom (im_get ch1))"
      using unsub l(1) wf(1) by (auto simp: ch1_def insert_absorb domIff)
    ultimately show ?thesis by (cases "l1 = []") auto
  next
    case other
    have "manual_output r i out = Inr (r\<lparr>rx_manual_channels := ch\<rparr>, Some out)"
      using other r(1) by (cases out rule: sub_cmd.cases) (simp_all add: manual_output_def)
    moreover have "toggles sub_cmd (held ch i) rest = Some (xm_active m)" using tog other by simp
    then have "manuals_inv ch mode (im_insert ms i (m\<lparr>xm_queue := rest\<rparr>))"
      using inv by (intro keep) (auto simp: manuals_inv_def)
    ultimately show ?thesis using other by auto
  qed
qed

section \<open>Every call keeps the invariant\<close>

lemma sub_ok_step:
  assumes "sub_ok k auto s" "xs_pre s op1"
  obtains s1 new where "xs_step x s op1 = Inr s1" "xs_inv s1" "xs_queue s1 = xs_queue s @ new"
    "toggles sub_cmd (xs_active s) new = Some (xs_active s1)"
  using xs_step_ok[OF _ assms(2), of x] assms(1) by (auto simp: sub_ok_def mixer_step_ok_def)

lemma sub_tick_ok: "sub_ok k auto s \<Longrightarrow> \<exists>s1. xs_on_tick s now = Inr s1 \<and> sub_ok k auto s1"
  using xs_tick_ok[of s now] xs_tick_frame[of s now] by (auto simp: sub_ok_def mixer_step_ok_def)

lemma sub_data_ok: "sub_ok k auto s \<Longrightarrow> \<exists>s1. xs_on_channel_data x s now from w = Inr s1 \<and> sub_ok k auto s1"
  using xs_data_ok[of s x now "from" w] xs_data_frame[of s x now "from" w] by (auto simp: sub_ok_def mixer_step_ok_def)

lemma sub_join_ok:
  assumes "sub_ok k auto s" "im_get auto e = None" "length tracks = k"
  shows "\<exists>s1. xs_on_endpoint_join x s e peer tracks = Inr s1 \<and> sub_ok k (im_insert auto e k) s1"
proof -
  have e: "im_get (xs_endpoints s) e = None" using assms(1,2) unfolding sub_ok_def by (metis option.distinct(1))
  then obtain s1 where s1: "xs_on_endpoint_join x s e peer tracks = Inr s1" "xs_inv s1"
    using xs_join_ok[of s e tracks x peer] assms(1,3) by (auto simp: sub_ok_def mixer_step_ok_def)
  then show ?thesis using xs_join_frame[OF s1(1)] assms by (auto simp: sub_ok_def)
qed

lemma sub_join_other: "sub_ok k auto s \<Longrightarrow> im_get auto e = None \<Longrightarrow> n \<noteq> k \<Longrightarrow> sub_ok k (im_insert auto e n) s"
  by (auto simp: sub_ok_def)

lemma sub_leave_ok:
  assumes "sub_ok k auto s" "im_wf auto" "im_get auto e = Some k"
  shows "\<exists>s1. xs_on_endpoint_leave s e = Inr s1 \<and> sub_ok k (im_swap_remove auto e) s1"
proof -
  have e: "im_get (xs_endpoints s) e \<noteq> None" using assms(1,3) by (auto simp: sub_ok_def)
  then obtain s1 where s1: "xs_on_endpoint_leave s e = Inr s1" "xs_inv s1"
    using xs_leave_ok[of s e] assms(1) by (auto simp: sub_ok_def mixer_step_ok_def)
  then show ?thesis using xs_leave_frame[OF _ s1(1)] assms by (auto simp: sub_ok_def)
qed

lemma sub_leave_other: "sub_ok k auto s \<Longrightarrow> im_wf auto \<Longrightarrow> im_get auto e \<noteq> Some k \<Longrightarrow> sub_ok k (im_swap_remove auto e) s"
  by (auto simp: sub_ok_def)

lemma rx_tick_ok:
  assumes "rx_inv r"
  shows "\<exists>r1. rx_on_tick r now = Inr r1 \<and> rx_inv r1 \<and> rx_auto_mode r1 = rx_auto_mode r \<and> rx_manual_mode r1 = rx_manual_mode r \<and>
    xp_tracks (rx_publisher r1) = xp_tracks (rx_publisher r)"
proof (cases "now \<ge> rx_last_tick r + TICK_INTERVAL")
  case True
  have xp: "xp_inv (rx_publisher r)" and subs: "sub_ok 1 (rx_auto_mode r) (rx_subscriber1 r)"
    "sub_ok 2 (rx_auto_mode r) (rx_subscriber2 r)" "sub_ok 3 (rx_auto_mode r) (rx_subscriber3 r)"
    and man: "manuals_inv (rx_manual_channels r) (rx_manual_mode r) (rx_manuals r)" using assms by (simp_all add: rx_inv_def)
  obtain p where p: "xp_on_tick (rx_publisher r) now = Inr p" "xp_inv p"
    using xp_tick_ok[OF xp, of now] by (auto simp: mixer_step_ok_def)
  obtain s1 s2 s3 where s: "xs_on_tick (rx_subscriber1 r) now = Inr s1" "sub_ok 1 (rx_auto_mode r) s1"
      "xs_on_tick (rx_subscriber2 r) now = Inr s2" "sub_ok 2 (rx_auto_mode r) s2"
      "xs_on_tick (rx_subscriber3 r) now = Inr s3" "sub_ok 3 (rx_auto_mode r) s3"
    using sub_tick_ok[OF subs(1), of now] sub_tick_ok[OF subs(2), of now] sub_tick_ok[OF subs(3), of now] by blast
  obtain ms where ms: "manuals_tick now (rx_manuals r) = Inr ms" "manuals_inv (rx_manual_channels r) (rx_manual_mode r) ms"
    using manuals_tick_ok[OF man, of now] by blast
  have "rx_on_tick r now = Inr (r\<lparr>rx_last_tick := now, rx_publisher := p, rx_subscriber1 := s1, rx_subscriber2 := s2,
      rx_subscriber3 := s3, rx_manuals := ms\<rparr>)"
    using True p(1) s(1,3,5) ms(1) by (simp add: rx_on_tick_def)
  then show ?thesis using assms p(2) s(2,4,6) ms(2) xp_tick_frame[OF p(1)] by (auto simp: rx_inv_def)
next
  case False
  then have "rx_on_tick r now = Inr r" unfolding rx_on_tick_def by (rule if_not_P)
  then show ?thesis using assms by auto
qed

definition join_pre :: "('e, 'w, 'fb) room_mixer \<Rightarrow> nat \<Rightarrow> 'e \<Rightarrow> audio_mixer_config option \<Rightarrow> bool" where
  "join_pre r new_index e cfg \<longleftrightarrow> im_get (rx_auto_mode r) e = None \<and> im_get (rx_manual_mode r) e = None \<and>
     im_get (rx_manuals r) new_index = None \<and>
     (case cfg of None \<Rightarrow> True | Some c \<Rightarrow> mc_mode c = MixerManual \<longrightarrow> mc_outputs c \<noteq> [])"

lemma manuals_add:
  assumes inv: "manuals_inv ch mode ms" and new: "im_get ms i = None" "im_get mode e = None" and m: "xm_inv m" "xm_queue m = []" "xm_sources m = []"
  shows "manuals_inv ch (im_insert mode e i) (im_insert ms i m)"
proof -
  have "manual_ok ch i (im_get ms i)" using inv unfolding manuals_inv_def by blast
  then have "manual_ok ch i (Some m)" using new m by (simp add: manual_ok_def xm_active_def)
  then show ?thesis using inv new m(3) by (auto simp: manuals_inv_def ran_map_upd)
qed

lemma rx_join_ok:
  assumes inv: "rx_inv r" and pre: "join_pre r new_index e cfg"
  shows "\<exists>r1. rx_on_join x r new_index e peer cfg = Inr r1 \<and> rx_inv r1 \<and>
    dom (im_get (rx_auto_mode r1)) \<union> dom (im_get (rx_manual_mode r1)) \<subseteq>
      insert e (dom (im_get (rx_auto_mode r)) \<union> dom (im_get (rx_manual_mode r))) \<and>
    xp_tracks (rx_publisher r1) = xp_tracks (rx_publisher r)"
proof (cases cfg)
  case None
  then show ?thesis using inv by (auto simp: rx_on_join_def)
next
  case (Some c)
  have xp: "xp_inv (rx_publisher r)" and subs: "sub_ok 1 (rx_auto_mode r) (rx_subscriber1 r)"
    "sub_ok 2 (rx_auto_mode r) (rx_subscriber2 r)" "sub_ok 3 (rx_auto_mode r) (rx_subscriber3 r)"
    and man: "manuals_inv (rx_manual_channels r) (rx_manual_mode r) (rx_manuals r)" using inv by (simp_all add: rx_inv_def)
  have e: "im_get (rx_auto_mode r) e = None" "im_get (rx_manual_mode r) e = None" "im_get (rx_manuals r) new_index = None"
    using pre by (simp_all add: join_pre_def)
  let ?n = "length (mc_outputs c)" and ?auto = "im_insert (rx_auto_mode r) e (length (mc_outputs c))"
  note other = sub_join_other[OF subs(1) e(1), of ?n] sub_join_other[OF subs(2) e(1), of ?n] sub_join_other[OF subs(3) e(1), of ?n]
  show ?thesis
  proof (cases "mc_mode c")
    case MixerManual
    have "xm_inv (xm_new (rx_room r) e (mc_outputs c))" using pre Some MixerManual by (intro xm_inv_new) (simp add: join_pre_def)
    then have "manuals_inv (rx_manual_channels r) (im_insert (rx_manual_mode r) e new_index)
        (im_insert (rx_manuals r) new_index (xm_new (rx_room r) e (mc_outputs c)))"
      by (rule manuals_add[OF man e(3,2)]) (simp_all add: xm_new_def)
    then show ?thesis using Some MixerManual inv e by (auto simp: rx_on_join_def rx_inv_def im_contains_def Let_def)
  next
    case MixerAuto
    consider "?n = 1" | "?n = 2" | "?n = 3" | "?n \<noteq> 1 \<and> ?n \<noteq> 2 \<and> ?n \<noteq> 3" by blast
    then show ?thesis
    proof cases
      case 1
      then obtain s where "xs_on_endpoint_join x (rx_subscriber1 r) e peer (mc_outputs c) = Inr s" "sub_ok 1 ?auto s"
        using sub_join_ok[OF subs(1) e(1), of "mc_outputs c" x peer] by auto
      then show ?thesis using Some MixerAuto 1 inv other by (auto simp: rx_on_join_def rx_inv_def Let_def)
    next
      case 2
      then obtain s where "xs_on_endpoint_join x (rx_subscriber2 r) e peer (mc_outputs c) = Inr s" "sub_ok 2 ?auto s"
        using sub_join_ok[OF subs(2) e(1), of "mc_outputs c" x peer] by auto
      then show ?thesis using Some MixerAuto 2 inv other by (auto simp: rx_on_join_def rx_inv_def Let_def)
    next
      case 3
      then obtain s where "xs_on_endpoint_join x (rx_subscriber3 r) e peer (mc_outputs c) = Inr s" "sub_ok 3 ?auto s"
        using sub_join_ok[OF subs(3) e(1), of "mc_outputs c" x peer] by auto
      then show ?thesis using Some MixerAuto 3 inv other by (auto simp: rx_on_join_def rx_inv_def Let_def)
    next
      case 4
      then show ?thesis using Some MixerAuto inv other by (auto simp: rx_on_join_def rx_inv_def Let_def)
    qed
  qed
qed

lemma rx_leave_ok:
  assumes inv: "rx_inv r" and disj: "im_get (rx_auto_mode r) e = None \<or> im_get (rx_manual_mode r) e = None"
  shows "\<exists>r1. rx_on_leave x r now e = Inr r1 \<and> rx_inv r1 \<and>
    dom (im_get (rx_auto_mode r1)) \<union> dom (im_get (rx_manual_mode r1)) =
      dom (im_get (rx_auto_mode r)) \<union> dom (im_get (rx_manual_mode r)) - {e} \<and>
    xp_tracks (rx_publisher r1) = xp_tracks (rx_publisher r)"
proof (cases "im_get (rx_auto_mode r) e")
  case (Some n)
  have subs: "sub_ok 1 (rx_auto_mode r) (rx_subscriber1 r)" "sub_ok 2 (rx_auto_mode r) (rx_subscriber2 r)"
    "sub_ok 3 (rx_auto_mode r) (rx_subscriber3 r)" and wf: "im_wf (rx_auto_mode r)" using inv by (simp_all add: rx_inv_def)
  note other = sub_leave_other[OF subs(1) wf, of e] sub_leave_other[OF subs(2) wf, of e] sub_leave_other[OF subs(3) wf, of e]
  have man: "im_get (rx_manual_mode r) e = None" using disj Some by simp
  let ?auto = "im_swap_remove (rx_auto_mode r) e"
  have "\<exists>s1 s2 s3. rx_on_leave x r now e = Inr (r\<lparr>rx_auto_mode := ?auto, rx_subscriber1 := s1, rx_subscriber2 := s2, rx_subscriber3 := s3\<rparr>) \<and>
      sub_ok 1 ?auto s1 \<and> sub_ok 2 ?auto s2 \<and> sub_ok 3 ?auto s3"
  proof -
    consider "n = 1" | "n = 2" | "n = 3" | "n \<noteq> 1 \<and> n \<noteq> 2 \<and> n \<noteq> 3" by blast
    then show ?thesis
    proof cases
      case 1
      then obtain s where "xs_on_endpoint_leave (rx_subscriber1 r) e = Inr s" "sub_ok 1 ?auto s"
        using sub_leave_ok[OF subs(1) wf] Some by auto
      then show ?thesis using Some 1 other
        by (intro exI[of _ s] exI[of _ "rx_subscriber2 r"] exI[of _ "rx_subscriber3 r"]) (simp add: rx_on_leave_def)
    next
      case 2
      then obtain s where "xs_on_endpoint_leave (rx_subscriber2 r) e = Inr s" "sub_ok 2 ?auto s"
        using sub_leave_ok[OF subs(2) wf] Some by auto
      then show ?thesis using Some 2 other
        by (intro exI[of _ "rx_subscriber1 r"] exI[of _ s] exI[of _ "rx_subscriber3 r"]) (simp add: rx_on_leave_def)
    next
      case 3
      then obtain s where "xs_on_endpoint_leave (rx_subscriber3 r) e = Inr s" "sub_ok 3 ?auto s"
        using sub_leave_ok[OF subs(3) wf] Some by auto
      then show ?thesis using Some 3 other
        by (intro exI[of _ "rx_subscriber1 r"] exI[of _ "rx_subscriber2 r"] exI[of _ s]) (simp add: rx_on_leave_def)
    next
      case 4
      then show ?thesis using Some other
        by (intro exI[of _ "rx_subscriber1 r"] exI[of _ "rx_subscriber2 r"] exI[of _ "rx_subscriber3 r"]) (simp add: rx_on_leave_def)
    qed
  qed
  then obtain s1 s2 s3 where s: "rx_on_leave x r now e = Inr (r\<lparr>rx_auto_mode := ?auto, rx_subscriber1 := s1, rx_subscriber2 := s2, rx_subscriber3 := s3\<rparr>)"
      "sub_ok 1 ?auto s1" "sub_ok 2 ?auto s2" "sub_ok 3 ?auto s3" by blast
  have "dom (im_get ?auto) \<union> dom (im_get (rx_manual_mode r)) = dom (im_get (rx_auto_mode r)) \<union> dom (im_get (rx_manual_mode r)) - {e}"
    using wf man by auto
  moreover have "rx_inv (r\<lparr>rx_auto_mode := ?auto, rx_subscriber1 := s1, rx_subscriber2 := s2, rx_subscriber3 := s3\<rparr>)"
    using inv s(2-4) wf by (simp add: rx_inv_def)
  ultimately show ?thesis using s(1) by simp
next
  case None
  show ?thesis
  proof (cases "im_get (rx_manual_mode r) e")
    case None': None
    then show ?thesis using None inv by (auto simp: rx_on_leave_def)
  next
    case (Some i)
    have man: "manuals_inv (rx_manual_channels r) (rx_manual_mode r) (rx_manuals r)" using inv by (simp add: rx_inv_def)
    have wf: "im_wf (rx_manual_mode r)" using man by (simp add: manuals_inv_def)
    let ?mode = "im_swap_remove (rx_manual_mode r) e"
    have sub: "j \<in> ran (im_get ?mode)" if j: "j \<in> ran (im_get (rx_manual_mode r))" "j \<noteq> i" for j
    proof -
      obtain a where a: "im_get (rx_manual_mode r) a = Some j" using j(1) by (auto simp: ran_def)
      then have "a \<noteq> e" using Some j(2) by auto
      then have "im_get ?mode a = Some j" using a wf by simp
      then show ?thesis by (rule ranI)
    qed
    have upd: "manuals_inv (rx_manual_channels r) ?mode (im_insert (rx_manuals r) i m1)"
      if "im_get (rx_manuals r) i = Some m" "xm_ok m (Inr m1)" "xm_sources m1 = []" for m m1
      using manuals_update[OF man that(1,2)] that(3) wf sub by (auto simp: manuals_inv_def split: if_splits)
    have "\<exists>ms. rx_on_leave x r now e = Inr (r\<lparr>rx_manual_mode := ?mode, rx_manuals := ms\<rparr>) \<and> manuals_inv (rx_manual_channels r) ?mode ms"
    proof (cases "im_get (rx_manuals r) i")
      case None'': None
      have "manuals_inv (rx_manual_channels r) ?mode (rx_manuals r)"
        using man wf sub None'' by (auto simp: manuals_inv_def) (metis option.distinct(1))
      then show ?thesis using None'' None Some by (auto simp: rx_on_leave_def manuals_event_def intro!: exI[of _ "rx_manuals r"])
    next
      case (Some m)
      have "xm_ok m (xm_on_event x m now MiLeaveRoom)" by (rule xm_leave_ok[OF manuals_task(2)[OF man Some]])
      then obtain m1 where m1: "xm_on_event x m now MiLeaveRoom = Inr m1" "xm_ok m (Inr m1)" by (auto simp: mixer_step_ok_def)
      then have "xm_sources m1 = []" by (auto simp: xm_on_event_def)
      then show ?thesis using upd[OF Some m1(2)] m1(1) Some None \<open>im_get (rx_manual_mode r) e = Some i\<close>
        by (auto simp: rx_on_leave_def manuals_event_def)
    qed
    then obtain ms where ms: "rx_on_leave x r now e = Inr (r\<lparr>rx_manual_mode := ?mode, rx_manuals := ms\<rparr>)"
        "manuals_inv (rx_manual_channels r) ?mode ms" by blast
    then have "rx_inv (r\<lparr>rx_manual_mode := ?mode, rx_manuals := ms\<rparr>)" using inv by (simp add: rx_inv_def)
    moreover have "dom (im_get (rx_auto_mode r)) \<union> dom (im_get ?mode) = dom (im_get (rx_auto_mode r)) \<union> dom (im_get (rx_manual_mode r)) - {e}"
      using wf None by auto
    ultimately show ?thesis using ms(1) by simp
  qed
qed

lemma rx_control_ok:
  assumes inv: "rx_inv r" and e: "im_get (rx_manual_mode r) e = Some i"
  shows "\<exists>r1. rx_on_control x r now e control = Inr r1 \<and> rx_inv r1 \<and> rx_auto_mode r1 = rx_auto_mode r \<and>
    rx_manual_mode r1 = rx_manual_mode r \<and> rx_publisher r1 = rx_publisher r"
proof -
  let ?input = "case control of Attach l \<Rightarrow> MiAttach l | Detach l \<Rightarrow> MiDetach l"
  have "\<exists>ms. manuals_event x r now i ?input = Inr (r\<lparr>rx_manuals := ms\<rparr>) \<and>
      manuals_inv (rx_manual_channels r) (rx_manual_mode r) ms \<and>
      (\<forall>j. j \<noteq> i \<longrightarrow> im_get ms j = im_get (rx_manuals r) j) \<and> (im_get ms i = None \<longleftrightarrow> im_get (rx_manuals r) i = None)"
    using e by (intro manuals_event_ok[OF inv]) (auto simp: xm_pre_def ran_def split: audio_mixer_control.split)
  then show ?thesis using inv e by (auto simp: rx_on_control_def rx_inv_def)
qed

lemma rx_pubsub_ok:
  assumes inv: "rx_inv r" and d: "manuals_drained r"
  shows "\<exists>r1. rx_on_pubsub_event x r now c ev = Inr r1 \<and> rx_inv r1 \<and> rx_auto_mode r1 = rx_auto_mode r \<and>
    rx_manual_mode r1 = rx_manual_mode r \<and> rx_publisher r1 = rx_publisher r"
proof (cases ev)
  case (SourceData node w)
  show ?thesis
  proof (cases "c = rx_mix_channel_id r")
    case True
    have subs: "sub_ok 1 (rx_auto_mode r) (rx_subscriber1 r)" "sub_ok 2 (rx_auto_mode r) (rx_subscriber2 r)"
      "sub_ok 3 (rx_auto_mode r) (rx_subscriber3 r)" using inv by (simp_all add: rx_inv_def)
    obtain s1 s2 s3 where s: "xs_on_channel_data x (rx_subscriber1 r) now node w = Inr s1" "sub_ok 1 (rx_auto_mode r) s1"
        "xs_on_channel_data x (rx_subscriber2 r) now node w = Inr s2" "sub_ok 2 (rx_auto_mode r) s2"
        "xs_on_channel_data x (rx_subscriber3 r) now node w = Inr s3" "sub_ok 3 (rx_auto_mode r) s3"
      using sub_data_ok[OF subs(1), of x now node w] sub_data_ok[OF subs(2), of x now node w] sub_data_ok[OF subs(3), of x now node w] by blast
    then have "rx_on_pubsub_event x r now c ev = Inr (r\<lparr>rx_subscriber1 := s1, rx_subscriber2 := s2, rx_subscriber3 := s3\<rparr>)"
      using True SourceData by (simp add: rx_on_pubsub_event_def)
    then show ?thesis using inv s(2,4,6) by (simp add: rx_inv_def)
  next
    case False
    show ?thesis
    proof (cases "im_get (rx_manual_channels r) c")
      case None
      then show ?thesis using False SourceData inv by (simp add: rx_on_pubsub_event_def)
    next
      case (Some l)
      have "distinct l" using Some inv unfolding rx_inv_def manuals_inv_def channels_wf_def by blast
      then obtain ms where "manuals_data x now c node w l r = Inr (r\<lparr>rx_manuals := ms\<rparr>)"
          "manuals_inv (rx_manual_channels r) (rx_manual_mode r) ms"
        using manuals_data_ok[OF inv, of l c x now node w] held_tasks[OF inv d Some] by blast
      then show ?thesis using False SourceData Some inv by (simp add: rx_on_pubsub_event_def rx_inv_def)
    qed
  qed
qed (use inv in \<open>simp_all add: rx_on_pubsub_event_def\<close>)

lemma rx_publish_ok:
  assumes "rx_inv r" "im_get (xp_tracks (rx_publisher r)) (e, t) = None"
  shows "\<exists>r1. rx_on_track_publish x r e t peer name = Inr r1 \<and> rx_inv r1 \<and> rx_auto_mode r1 = rx_auto_mode r \<and>
    rx_manual_mode r1 = rx_manual_mode r \<and> dom (im_get (xp_tracks (rx_publisher r1))) = insert (e, t) (dom (im_get (xp_tracks (rx_publisher r))))"
proof -
  obtain p where p: "xp_on_track_publish x (rx_publisher r) e t peer name = Inr p" "xp_inv p"
    using xp_publish_ok[of "rx_publisher r" e t x peer name] assms by (auto simp: rx_inv_def mixer_step_ok_def)
  moreover from p(1) have "dom (im_get (xp_tracks p)) = insert (e, t) (dom (im_get (xp_tracks (rx_publisher r))))"
    by (auto simp: xp_on_track_publish_def panic_simps)
  ultimately show ?thesis using assms(1) by (auto simp: rx_on_track_publish_def rx_inv_def)
qed

lemma rx_data_ok:
  assumes "rx_inv r" "im_get (xp_tracks (rx_publisher r)) (e, t) = Some info"
  shows "\<exists>r1. rx_on_track_data x r now e t media = Inr r1 \<and> rx_inv r1 \<and> rx_auto_mode r1 = rx_auto_mode r \<and>
    rx_manual_mode r1 = rx_manual_mode r \<and> xp_tracks (rx_publisher r1) = xp_tracks (rx_publisher r)"
proof -
  have xp: "xp_inv (rx_publisher r)" using assms(1) by (simp add: rx_inv_def)
  obtain p where p: "xp_on_track_data x (rx_publisher r) now e t media = Inr p" "xp_inv p"
    using xp_data_ok[OF xp assms(2), of x now media] by (auto simp: mixer_step_ok_def)
  then show ?thesis using xp_data_frame[OF xp assms(2) p(1)] assms(1) by (auto simp: rx_on_track_data_def rx_inv_def)
qed

lemma rx_unpublish_ok:
  assumes "rx_inv r" "im_get (xp_tracks (rx_publisher r)) (e, t) \<noteq> None"
  shows "\<exists>r1. rx_on_track_unpublish r e t = Inr r1 \<and> rx_inv r1 \<and> rx_auto_mode r1 = rx_auto_mode r \<and>
    rx_manual_mode r1 = rx_manual_mode r \<and> dom (im_get (xp_tracks (rx_publisher r1))) = dom (im_get (xp_tracks (rx_publisher r))) - {(e, t)}"
proof -
  have xp: "xp_inv (rx_publisher r)" using assms(1) by (simp add: rx_inv_def)
  obtain p where p: "xp_on_track_unpublish (rx_publisher r) e t = Inr p" "xp_inv p"
    using xp_unpublish_ok[OF xp, of e t] assms(2) by (auto simp: mixer_step_ok_def)
  have "xp_tracks p = im_swap_remove (xp_tracks (rx_publisher r)) (e, t)"
    using p(1) by (auto simp: xp_on_track_unpublish_def panic_simps Let_def)
  with xp have "dom (im_get (xp_tracks p)) = dom (im_get (xp_tracks (rx_publisher r))) - {(e, t)}"
    by (simp add: xp_inv_def)
  with p show ?thesis using assms(1) by (auto simp: rx_on_track_unpublish_def rx_inv_def)
qed

section \<open>Polling\<close>

lemma rx_pop_cons:
  "rx_pop_output r (turn # turns) = res_bind (rx_pop_output r [turn]) (\<lambda>(r1, out).
     case out of None \<Rightarrow> rx_pop_output r1 turns | Some o1 \<Rightarrow> Inr (r1, Some o1))"
proof (cases turn)
  case (TManual i)
  show ?thesis
  proof (cases "im_get (rx_manuals r) i")
    case (Some m)
    obtain m1 out where p: "xm_pop_output m = (m1, out)" by (cases "xm_pop_output m")
    show ?thesis
    proof (cases out)
      case (Some o1)
      then show ?thesis using TManual \<open>im_get (rx_manuals r) i = Some m\<close> p
        by (cases "manual_output (r\<lparr>rx_manuals := im_insert (rx_manuals r) i m1\<rparr>) i o1") (auto split: option.split)
    qed (use TManual Some p in simp)
  qed (use TManual in simp)
qed (auto simp: Let_def split: prod.split option.split)

text \<open>A task is reported empty only when it is.\<close>

fun rx_turns_legal :: "('e, 'w, 'fb) room_mixer \<Rightarrow> mixer_turn list \<Rightarrow> bool" where
  "rx_turns_legal r [] = True"
| "rx_turns_legal r (turn # turns) =
     ((case turn of TManualEmpty i \<Rightarrow> (case im_get (rx_manuals r) i of None \<Rightarrow> True | Some m \<Rightarrow> xm_is_empty m) | _ \<Rightarrow> True) \<and>
      (case rx_pop_output r [turn] of Inr (r1, None) \<Rightarrow> rx_turns_legal r1 turns | _ \<Rightarrow> True))"

text \<open>What is left to be polled, and what polling leaves alone.\<close>

definition rx_weight :: "('e, 'w, 'fb) room_mixer \<Rightarrow> nat" where
  "rx_weight r = length (xp_queue (rx_publisher r)) + length (xs_queue (rx_subscriber1 r)) + length (xs_queue (rx_subscriber2 r)) +
     length (xs_queue (rx_subscriber3 r)) + (\<Sum>i\<in>dom (im_get (rx_manuals r)). Suc (length (xm_queue (the (im_get (rx_manuals r) i)))))"

definition rx_same :: "('e, 'w, 'fb) room_mixer \<Rightarrow> ('e, 'w, 'fb) room_mixer \<Rightarrow> bool" where
  "rx_same r1 r \<longleftrightarrow> rx_auto_mode r1 = rx_auto_mode r \<and> rx_manual_mode r1 = rx_manual_mode r \<and>
     xp_tracks (rx_publisher r1) = xp_tracks (rx_publisher r)"

lemma xs_pop_frame [simp]: "sub_ok k auto (fst (xs_pop_output s)) = sub_ok k auto s"
  by (auto simp: xs_pop_output_def sub_ok_def split: list.split)

lemma xp_pop_frame [simp]: "xp_inv (fst (xp_pop_output p)) = xp_inv p" "xp_tracks (fst (xp_pop_output p)) = xp_tracks p"
  by (auto simp: xp_pop_output_def split: list.split)

lemma manuals_remove:
  assumes inv: "manuals_inv ch mode ms" and m: "im_get ms i = Some m" "xm_is_empty m"
  shows "manuals_inv ch mode (im_swap_remove ms i)"
proof -
  have wf: "im_wf ms" using inv by (simp add: manuals_inv_def)
  have "manual_ok ch i None" using manuals_task(1)[OF inv m(1)] m(2) by (simp add: manual_ok_def xm_is_empty_def xm_active_def)
  then have "manual_ok ch j (im_get (im_swap_remove ms i) j)" for j
    using inv wf by (auto simp: manuals_inv_def)
  then show ?thesis using inv wf by (auto simp: manuals_inv_def split: if_splits)
qed

lemma sum_dom_upd:
  assumes "im_wf ms" "im_get ms i = Some m"
  shows "(\<Sum>j\<in>dom (im_get (im_insert ms i m1)). f (the (im_get (im_insert ms i m1) j))) + f m =
      (\<Sum>j\<in>dom (im_get ms). f (the (im_get ms j))) + f (m1 :: 'm)"
    and "(\<Sum>j\<in>dom (im_get (im_swap_remove ms i)). f (the (im_get (im_swap_remove ms i) j))) + f m =
      (\<Sum>j\<in>dom (im_get ms). f (the (im_get ms j)) :: nat)"
proof -
  have fin: "finite (dom (im_get ms))" by (rule finite_dom_map_of)
  have i: "i \<in> dom (im_get ms)" using assms(2) by auto
  have rest: "(\<Sum>j\<in>dom (im_get ms). f (the (im_get ms j))) = f m + (\<Sum>j\<in>dom (im_get ms) - {i}. f (the (im_get ms j)))"
    using sum.remove[OF fin i, of "\<lambda>j. f (the (im_get ms j))"] assms(2) by simp
  have "(\<Sum>j\<in>dom (im_get (im_insert ms i m1)). f (the (im_get (im_insert ms i m1) j))) =
      f m1 + (\<Sum>j\<in>dom (im_get ms) - {i}. f (the (im_get ms j)))"
    using fin i by (simp add: insert_absorb sum.remove[OF fin i] cong: sum.cong_simp)
  then show "(\<Sum>j\<in>dom (im_get (im_insert ms i m1)). f (the (im_get (im_insert ms i m1) j))) + f m =
      (\<Sum>j\<in>dom (im_get ms). f (the (im_get ms j))) + f m1" using rest by simp
  have "(\<Sum>j\<in>dom (im_get (im_swap_remove ms i)). f (the (im_get (im_swap_remove ms i) j))) =
      (\<Sum>j\<in>dom (im_get ms) - {i}. f (the (im_get ms j)))"
    using assms(1) by (intro sum.cong) auto
  then show "(\<Sum>j\<in>dom (im_get (im_swap_remove ms i)). f (the (im_get (im_swap_remove ms i) j))) + f m =
      (\<Sum>j\<in>dom (im_get ms). f (the (im_get ms j)))" using rest by simp
qed

text \<open>One turn: the invariant is kept, nothing but queues changes, and the weight goes down exactly when
  there was something to poll.\<close>

definition turn_idle :: "('e, 'w, 'fb) room_mixer \<Rightarrow> mixer_turn \<Rightarrow> bool" where
  "turn_idle r turn \<longleftrightarrow>
     (case turn of
        TPublisher \<Rightarrow> xp_queue (rx_publisher r) = [] | TSubscriber1 \<Rightarrow> xs_queue (rx_subscriber1 r) = []
      | TSubscriber2 \<Rightarrow> xs_queue (rx_subscriber2 r) = [] | TSubscriber3 \<Rightarrow> xs_queue (rx_subscriber3 r) = []
      | TManual i \<Rightarrow> (case im_get (rx_manuals r) i of None \<Rightarrow> True | Some m \<Rightarrow> xm_queue m = [])
      | TManualEmpty i \<Rightarrow> im_get (rx_manuals r) i = None)"

lemma rx_turn_ok:
  assumes inv: "rx_inv r" and legal: "rx_turns_legal r [turn]"
  shows "\<exists>r1 out. rx_pop_output r [turn] = Inr (r1, out) \<and> rx_inv r1 \<and> rx_same r1 r \<and>
    (if turn_idle r turn then rx_weight r1 = rx_weight r else rx_weight r1 < rx_weight r)"
proof -
  have man: "manuals_inv (rx_manual_channels r) (rx_manual_mode r) (rx_manuals r)" using inv by (simp add: rx_inv_def)
  have wf: "im_wf (rx_manuals r)" using man by (simp add: manuals_inv_def)
  show ?thesis
  proof (cases turn)
    case TPublisher
    then show ?thesis using inv
      by (cases "xp_queue (rx_publisher r)")
         (auto simp: xp_pop_output_def rx_inv_def rx_same_def turn_idle_def rx_weight_def)
  next
    case TSubscriber1
    then show ?thesis using inv
      by (cases "xs_queue (rx_subscriber1 r)")
         (auto simp: xs_pop_output_def rx_inv_def rx_same_def turn_idle_def rx_weight_def sub_ok_def)
  next
    case TSubscriber2
    then show ?thesis using inv
      by (cases "xs_queue (rx_subscriber2 r)")
         (auto simp: xs_pop_output_def rx_inv_def rx_same_def turn_idle_def rx_weight_def sub_ok_def)
  next
    case TSubscriber3
    then show ?thesis using inv
      by (cases "xs_queue (rx_subscriber3 r)")
         (auto simp: xs_pop_output_def rx_inv_def rx_same_def turn_idle_def rx_weight_def sub_ok_def)
  next
    case (TManual i)
    show ?thesis
    proof (cases "turn_idle r turn")
      case True
      then have "rx_pop_output r [turn] = Inr (r, None)"
        using TManual by (auto simp: turn_idle_def xm_pop_output_def split: option.splits)
      then show ?thesis using True inv by (simp add: rx_same_def)
    next
      case False
      then obtain m out rest where m: "im_get (rx_manuals r) i = Some m" "xm_queue m = out # rest"
        using TManual by (auto simp: turn_idle_def neq_Nil_conv split: option.splits)
      let ?r = "r\<lparr>rx_manuals := im_insert (rx_manuals r) i (m\<lparr>xm_queue := rest\<rparr>)\<rparr>"
      obtain ch1 out1 where o: "manual_output ?r i out = Inr (?r\<lparr>rx_manual_channels := ch1\<rparr>, out1)"
          "manuals_inv ch1 (rx_manual_mode r) (im_insert (rx_manuals r) i (m\<lparr>xm_queue := rest\<rparr>))"
        using manual_output_ok[OF man m, of ?r] by auto
      have "rx_pop_output r [turn] = Inr (?r\<lparr>rx_manual_channels := ch1\<rparr>, map_option MixOut out1)"
        using TManual m o(1) by (cases out1) (simp_all add: xm_pop_output_def)
      moreover have "rx_inv (?r\<lparr>rx_manual_channels := ch1\<rparr>)" using inv o(2) by (simp add: rx_inv_def)
      moreover have "rx_weight (?r\<lparr>rx_manual_channels := ch1\<rparr>) < rx_weight r"
        using sum_dom_upd(1)[OF wf m(1), of "\<lambda>m. Suc (length (xm_queue m))" "m\<lparr>xm_queue := rest\<rparr>"] m(2)
        by (simp add: rx_weight_def)
      ultimately show ?thesis using False by (auto simp: rx_same_def)
    qed
  next
    case (TManualEmpty i)
    show ?thesis
    proof (cases "im_get (rx_manuals r) i")
      case None
      then have "im_swap_remove (rx_manuals r) i = rx_manuals r" by (rule im_swap_remove_absent)
      then show ?thesis using TManualEmpty None inv by (simp add: Let_def rx_same_def turn_idle_def)
    next
      case (Some m)
      let ?r = "r\<lparr>rx_manuals := im_swap_remove (rx_manuals r) i\<rparr>"
      have "manuals_inv (rx_manual_channels r) (rx_manual_mode r) (im_swap_remove (rx_manuals r) i)"
        using legal TManualEmpty Some by (intro manuals_remove[OF man Some]) (simp split: sum.splits prod.splits option.splits)
      then have "rx_inv ?r" using inv by (simp add: rx_inv_def)
      moreover have "rx_weight ?r < rx_weight r"
        using sum_dom_upd(2)[OF wf Some, of "\<lambda>m. Suc (length (xm_queue m))"] by (simp add: rx_weight_def)
      moreover have "\<exists>out. rx_pop_output r [turn] = Inr (?r, out)" using TManualEmpty by (simp add: Let_def)
      ultimately show ?thesis using TManualEmpty Some by (auto simp: rx_same_def turn_idle_def)
    qed
  qed
qed

end
