(* ===== verification/Room_Contract.thy ===== *)
theory Room_Contract
  imports Room_Mixer_Contract
begin

text \<open>
  A room as a whole. The invariant of a room joins those of its parts and says how
  they hang together: mixers and message channels are used by endpoints that have joined, the audio tracks
  of the mixer are published tracks. Shown: every call that
  respects its contract succeeds and keeps the invariant, and an abandoned room drains.
\<close>

section \<open>Which keys the calls of the parts touch\<close>

lemma md_leave_targets_peers: "md_leave_targets x e ts m = Inr m1 \<Longrightarrow> md_peers m1 = md_peers m"
  by (induction ts arbitrary: m) (auto simp: panic_simps Let_def split: if_splits)

lemma md_leave_keys:
  assumes "im_wf (md_peers m)" "md_on_leave x m e = Inr m1"
  shows "dom (im_get (md_peers m1)) = dom (im_get (md_peers m)) - {e}"
proof (cases "im_get (md_peers m) e")
  case (Some pc)
  then have "md_peers m1 = im_swap_remove (md_peers m) e"
    using assms(2) md_leave_targets_peers by (fastforce simp: md_on_leave_def Let_def)
  then show ?thesis using assms(1) by simp
qed (use assms(2) in \<open>auto simp: md_on_leave_def\<close>)

lemma md_join_keys: "dom (im_get (md_peers (md_on_join x m e peer meta pb sb))) = insert e (dom (im_get (md_peers m)))"
  by (simp add: md_on_join_def Let_def)

lemma md_subscribe_keys: "md_on_subscribe_peer x m e t = Inr m1 \<Longrightarrow> dom (im_get (md_peers m1)) = dom (im_get (md_peers m))"
  by (auto simp: md_on_subscribe_peer_def panic_simps Let_def split: if_splits)

lemma md_unsubscribe_keys: "md_on_unsubscribe_peer x m e t = Inr m1 \<Longrightarrow> dom (im_get (md_peers m1)) = dom (im_get (md_peers m))"
  by (auto simp: md_on_unsubscribe_peer_def panic_simps Let_def split: if_splits)

lemma md_track_keys:
  "dom (im_get (md_peers (md_on_track_publish x m e t name meta))) = dom (im_get (md_peers m))"
  "dom (im_get (md_peers (md_on_track_unpublish x m e t))) = dom (im_get (md_peers m))"
  by (auto simp: md_on_track_publish_def md_on_track_unpublish_def Let_def split: option.splits)

lemma md_kv_keys: "md_peers (md_on_kv_event x m k ev) = md_peers m"
  by (simp add: md_on_kv_event_def md_on_peers_kv_event_def md_on_tracks_kv_event_def md_on_peers_tracks_kv_event_def Let_def
      split: map_event.split option.split)

lemma mp_leave_channels_keys: "mp_publishers (foldl (mp_leave_channel e) p cs) = mp_publishers p"
  by (induction cs arbitrary: p) (simp_all add: mp_leave_channel_def Let_def split: option.split)

lemma ms_leave_channels_keys: "ms_subscriptions (foldl (ms_leave_channel e) s cs) = ms_subscriptions s"
  by (induction cs arbitrary: s) (simp_all add: ms_leave_channel_def Let_def split: option.split)

lemma mp_leave_keys: "mp_inv p \<Longrightarrow> dom (im_get (mp_publishers (mp_on_leave p e))) = dom (im_get (mp_publishers p)) - {e}"
  by (auto simp: mp_on_leave_def mp_leave_channels_keys mp_inv_def mp_inv_for_def split: option.split)

lemma ms_leave_keys: "ms_inv s \<Longrightarrow> dom (im_get (ms_subscriptions (ms_on_leave s e))) = dom (im_get (ms_subscriptions s)) - {e}"
  by (auto simp: ms_on_leave_def ms_leave_channels_keys ms_inv_def ms_inv_for_def split: option.split)

lemma mp_start_keys: "dom (im_get (mp_publishers (mp_on_channel_pub_start x p e l))) = insert e (dom (im_get (mp_publishers p)))"
  by (simp add: mp_on_channel_pub_start_def Let_def split: option.split)

lemma ms_start_keys: "dom (im_get (ms_subscriptions (ms_on_channel_subscribe x s e l))) = insert e (dom (im_get (ms_subscriptions s)))"
  by (simp add: ms_on_channel_subscribe_def Let_def split: option.split)

lemma mp_stop_keys:
  "mp_inv p \<Longrightarrow> dom (im_get (mp_publishers (mp_on_channel_pub_stop x p e l))) \<subseteq> dom (im_get (mp_publishers p))"
  by (auto simp: mp_on_channel_pub_stop_def Let_def mp_inv_def mp_inv_for_def split: option.splits if_splits)

lemma ms_stop_keys:
  "ms_inv s \<Longrightarrow> dom (im_get (ms_subscriptions (ms_on_channel_unsubscribe x s e l))) \<subseteq> dom (im_get (ms_subscriptions s))"
  by (auto simp: ms_on_channel_unsubscribe_def Let_def ms_inv_def ms_inv_for_def split: option.splits if_splits)

lemma tp_unpublish_keys:
  "tp_inv p \<Longrightarrow> tp_on_track_unpublish p e t = Inr p1 \<Longrightarrow> dom (im_get (tp_tracks p1)) = dom (im_get (tp_tracks p)) - {(e, t)}"
  by (auto simp: tp_on_track_unpublish_def panic_simps Let_def tp_inv_def split: option.splits if_splits)

text \<open>An endpoint uses at most one of the two modes.\<close>

definition modes_disjoint :: "('e, 'w, 'fb) room_mixer \<Rightarrow> bool" where
  "modes_disjoint r \<longleftrightarrow> (\<forall>e. im_get (rx_auto_mode r) e = None \<or> im_get (rx_manual_mode r) e = None)"

lemma rx_join_modes:
  assumes "rx_on_join x r i e peer cfg = Inr r1" "im_get (rx_auto_mode r) e = None" "im_get (rx_manual_mode r) e = None"
    "modes_disjoint r"
  shows "modes_disjoint r1"
proof -
  have "rx_auto_mode r1 = rx_auto_mode r \<and> (rx_manual_mode r1 = rx_manual_mode r \<or> rx_manual_mode r1 = im_insert (rx_manual_mode r) e i) \<or>
      rx_manual_mode r1 = rx_manual_mode r \<and> (\<exists>n. rx_auto_mode r1 = im_insert (rx_auto_mode r) e n)"
    using assms(1) by (auto simp: rx_on_join_def panic_simps Let_def split: option.splits audio_mixer_mode.splits if_splits)
  then show ?thesis using assms(2-4) unfolding modes_disjoint_def by (elim disjE conjE exE) simp_all
qed

lemma rx_leave_modes:
  assumes "rx_inv r" "rx_on_leave x r now e = Inr r1" "modes_disjoint r"
  shows "modes_disjoint r1"
proof -
  have wf: "im_wf (rx_auto_mode r)" "im_wf (rx_manual_mode r)" using assms(1) by (simp_all add: rx_inv_def manuals_inv_def)
  have "(rx_auto_mode r1 = rx_auto_mode r \<or> rx_auto_mode r1 = im_swap_remove (rx_auto_mode r) e) \<and>
      (rx_manual_mode r1 = rx_manual_mode r \<or> rx_manual_mode r1 = im_swap_remove (rx_manual_mode r) e)"
    using assms(2) by (auto simp: rx_on_leave_def manuals_event_def panic_simps Let_def split: option.splits if_splits)
  then show ?thesis using assms(3) wf unfolding modes_disjoint_def by (elim disjE conjE) simp_all
qed

section \<open>The invariant of a room\<close>

abbreviation cr_peers :: "('e, 'w, 'fb) cluster_room \<Rightarrow> 'e set" where
  "cr_peers r \<equiv> dom (im_get (md_peers (cr_metadata r)))"

abbreviation cr_published :: "('e, 'w, 'fb) cluster_room \<Rightarrow> ('e \<times> remote_track_id) set" where
  "cr_published r \<equiv> dom (im_get (tp_tracks (mt_publisher (cr_media_track r))))"

abbreviation cr_mixed :: "('e, 'w, 'fb) cluster_room \<Rightarrow> ('e \<times> remote_track_id) set" where
  "cr_mixed r \<equiv> dom (im_get (xp_tracks (rx_publisher (cr_audio_mixer r))))"

abbreviation cr_viewed :: "('e, 'w, 'fb) cluster_room \<Rightarrow> ('e \<times> local_track_id) set" where
  "cr_viewed r \<equiv> dom (im_get (ts_subscribers (mt_subscriber (cr_media_track r))))"

definition cr_users :: "('e, 'w, 'fb) cluster_room \<Rightarrow> 'e set" where
  "cr_users r = dom (im_get (rx_auto_mode (cr_audio_mixer r))) \<union> dom (im_get (rx_manual_mode (cr_audio_mixer r))) \<union>
     dom (im_get (mp_publishers (rc_publisher (cr_message_channel r)))) \<union>
     dom (im_get (ms_subscriptions (rc_subscriber (cr_message_channel r))))"

definition cr_parts_inv :: "('w, 'fb) externals \<Rightarrow> peer_id set \<Rightarrow> ('e, 'w, 'fb) cluster_room \<Rightarrow> bool" where
  "cr_parts_inv x T r \<longleftrightarrow> md_inv x (cr_room r) T (cr_metadata r) \<and> tp_inv (mt_publisher (cr_media_track r)) \<and>
     ts_inv (mt_subscriber (cr_media_track r)) \<and> rx_inv (cr_audio_mixer r) \<and>
     mp_inv (rc_publisher (cr_message_channel r)) \<and> ms_inv (rc_subscriber (cr_message_channel r))"

definition cr_inv :: "('w, 'fb) externals \<Rightarrow> peer_id set \<Rightarrow> ('e, 'w, 'fb) cluster_room \<Rightarrow> bool" where
  "cr_inv x T r \<longleftrightarrow> ids_ok x (cr_room r) T \<and> cr_parts_inv x T r \<and> modes_disjoint (cr_audio_mixer r) \<and>
     cr_users r \<subseteq> cr_peers r \<and> cr_mixed r \<subseteq> cr_published r"

lemma cr_inv_new:
  assumes "ids_ok x room T"
  shows "cr_inv x T (cr_new x now room)"
  using assms md_inv_new[of room x T] tp_inv_new[of room] ts_inv_new[of room] mp_inv_new[of room] ms_inv_new[of room]
    rx_inv_new[of now room "gen_mixer_auto_channel_id x room"]
  by (simp add: cr_inv_def cr_parts_inv_def cr_new_def mt_new_def rc_new_def ids_ok_def)
     (simp add: modes_disjoint_def cr_users_def rx_new_def xp_new_def mp_new_def ms_new_def)

section \<open>Calls\<close>

text \<open>What a call must respect: an endpoint joins once, under a mixer configuration with outputs and a fresh
  task index; it starts a track that is not started, mixes and ends only tracks that are; it uses the
  message channels and the manual mixer only while joined. Packets of the overlay reach the manual mixers
  only when these have no subscription command waiting.\<close>

definition ctl_pre :: "peer_id set \<Rightarrow> ('e, 'w, 'fb) cluster_room \<Rightarrow> nat \<Rightarrow> 'e \<Rightarrow> endpoint_control \<Rightarrow> bool" where
  "ctl_pre T r new_index e control \<longleftrightarrow>
     (case control of
        CtlJoin peer meta publish subscribe mixer \<Rightarrow> e \<notin> cr_peers r \<and> join_pre (cr_audio_mixer r) new_index e mixer
      | CtlLeave \<Rightarrow> True
      | CtlSubscribePeer t \<Rightarrow> e \<in> cr_peers r \<and> t \<in> T
      | CtlUnsubscribePeer t \<Rightarrow>
          (case im_get (md_peers (cr_metadata r)) e of None \<Rightarrow> False | Some pc \<Rightarrow> t \<in> set (pe_sub_peers pc))
      | CtlAudioMixer c \<Rightarrow> im_get (rx_manual_mode (cr_audio_mixer r)) e \<noteq> None
      | CtlRemoteTrack t (RtStarted name meta) \<Rightarrow> (e, t) \<notin> cr_published r
      | CtlRemoteTrack t (RtMedia media) \<Rightarrow> meta_is_audio (pkt_meta media) \<longrightarrow> (e, t) \<in> cr_mixed r
      | CtlRemoteTrack t (RtEnded name meta) \<Rightarrow> kind_is_audio (tm_kind meta) \<longleftrightarrow> (e, t) \<in> cr_mixed r
      | CtlLocalTrack t (LtSubscribe peer name) \<Rightarrow> (e, t) \<notin> cr_viewed r
      | CtlLocalTrack t c \<Rightarrow> True
      | CtlMessageChannel label c \<Rightarrow> e \<in> cr_peers r)"

definition input_pre :: "peer_id set \<Rightarrow> ('e, 'w, 'fb) cluster_room \<Rightarrow> nat \<Rightarrow> ('e, 'w, 'fb) room_input \<Rightarrow> bool" where
  "input_pre T r new_index input \<longleftrightarrow>
     (case input of
        InEndpoint e control \<Rightarrow> ctl_pre T r new_index e control
      | InSdn feature event \<Rightarrow> feature = AudioMixer \<longrightarrow> manuals_drained (cr_audio_mixer r))"

definition cr_ok :: "('w, 'fb) externals \<Rightarrow> peer_id set \<Rightarrow> ('e, 'w, 'fb) cluster_room \<Rightarrow> ('e, 'w, 'fb) cluster_room res \<Rightarrow> bool" where
  "cr_ok x T r res \<longleftrightarrow> (\<exists>r1. res = Inr r1 \<and> cr_inv x T r1 \<and> cr_room r1 = cr_room r)"

lemma cr_okI: "res = Inr r1 \<Longrightarrow> cr_inv x T r1 \<Longrightarrow> cr_room r1 = cr_room r \<Longrightarrow> cr_ok x T r res"
  by (simp add: cr_ok_def)

lemmas cr_inv_defs = cr_inv_def cr_parts_inv_def cr_users_def

lemma cr_tick_ok: "cr_inv x T r \<Longrightarrow> cr_ok x T r (cr_on_tick r now)"
  using rx_tick_ok[of "cr_audio_mixer r" now]
  by (auto simp: cr_ok_def cr_on_tick_def cr_inv_defs modes_disjoint_def)

lemma cr_join_ok:
  assumes inv: "cr_inv x T r" and pre: "ctl_pre T r i e (CtlJoin peer meta pb sb cfg)"
  shows "cr_ok x T r (cr_on_endpoint_control x r i now e (CtlJoin peer meta pb sb cfg))"
proof -
  let ?m = "md_on_join x (cr_metadata r) e peer meta pb sb"
  have rx: "rx_inv (cr_audio_mixer r)" and md: "md_inv x (cr_room r) T (cr_metadata r)" "ids_ok x (cr_room r) T"
    using inv by (simp_all add: cr_inv_defs)
  have jp: "join_pre (cr_audio_mixer r) i e cfg" and new: "im_get (md_peers (cr_metadata r)) e = None"
    using pre by (auto simp: ctl_pre_def)
  obtain a where a: "rx_on_join x (cr_audio_mixer r) i e peer cfg = Inr a" "rx_inv a"
      "dom (im_get (rx_auto_mode a)) \<union> dom (im_get (rx_manual_mode a)) \<subseteq>
        insert e (dom (im_get (rx_auto_mode (cr_audio_mixer r))) \<union> dom (im_get (rx_manual_mode (cr_audio_mixer r))))"
      "xp_tracks (rx_publisher a) = xp_tracks (rx_publisher (cr_audio_mixer r))"
    using rx_join_ok[OF rx jp, of x peer] by blast
  have "modes_disjoint a" using rx_join_modes[OF a(1)] jp inv by (simp add: join_pre_def cr_inv_def)
  moreover have "md_inv x (cr_room r) T ?m" using md_join_ok[OF md new, of peer meta pb sb] by blast
  moreover have "cr_users (r\<lparr>cr_audio_mixer := a, cr_metadata := ?m\<rparr>) \<subseteq> insert e (cr_users r)"
    using a(3) unfolding cr_users_def by simp blast
  then have "cr_users (r\<lparr>cr_audio_mixer := a, cr_metadata := ?m\<rparr>) \<subseteq> insert e (cr_peers r)"
    using inv unfolding cr_inv_def by blast
  ultimately have "cr_inv x T (r\<lparr>cr_audio_mixer := a, cr_metadata := ?m\<rparr>)"
    using inv a(2,4) md_join_keys[of x "cr_metadata r" e peer meta pb sb] by (simp add: cr_inv_def cr_parts_inv_def)
  then show ?thesis using a(1) by (simp add: cr_ok_def cr_on_endpoint_control_def)
qed

lemma cr_leave_ok:
  assumes inv: "cr_inv x T r"
  shows "cr_ok x T r (cr_on_endpoint_control x r i now e CtlLeave)"
proof -
  have rx: "rx_inv (cr_audio_mixer r)" and md: "md_inv x (cr_room r) T (cr_metadata r)" "ids_ok x (cr_room r) T"
    and dj: "modes_disjoint (cr_audio_mixer r)" and mc: "mp_inv (rc_publisher (cr_message_channel r))" "ms_inv (rc_subscriber (cr_message_channel r))"
    using inv by (simp_all add: cr_inv_defs)
  obtain a where a: "rx_on_leave x (cr_audio_mixer r) now e = Inr a" "rx_inv a"
      "dom (im_get (rx_auto_mode a)) \<union> dom (im_get (rx_manual_mode a)) =
        dom (im_get (rx_auto_mode (cr_audio_mixer r))) \<union> dom (im_get (rx_manual_mode (cr_audio_mixer r))) - {e}"
      "xp_tracks (rx_publisher a) = xp_tracks (rx_publisher (cr_audio_mixer r))"
    using rx_leave_ok[OF rx dj[unfolded modes_disjoint_def, rule_format, of e], of x now] by blast
  obtain m where m: "md_on_leave x (cr_metadata r) e = Inr m" "md_inv x (cr_room r) T m"
    using md_leave_ok[OF md, of e] by blast
  let ?r = "r\<lparr>cr_audio_mixer := a, cr_metadata := m, cr_message_channel := rc_on_leave (cr_message_channel r) e\<rparr>"
  have "im_wf (md_peers (cr_metadata r))" using md(1) by (simp add: md_inv_def md_base_def)
  note keys = md_leave_keys[OF this m(1)] mp_leave_keys[OF mc(1), of e] ms_leave_keys[OF mc(2), of e]
  have "mp_inv (mp_on_leave (rc_publisher (cr_message_channel r)) e)" "ms_inv (ms_on_leave (rc_subscriber (cr_message_channel r)) e)"
    using mp_leave_ok[OF mc(1), of e] ms_leave_ok[OF mc(2), of e] by blast+
  moreover have "cr_users ?r = cr_users r - {e}"
    using a(3) keys(2,3) unfolding cr_users_def rc_on_leave_def by simp blast
  then have "cr_users ?r \<subseteq> cr_peers r - {e}" using inv unfolding cr_inv_def by blast
  ultimately have "cr_inv x T ?r"
    using inv a(2,4) m(2) keys(1) rx_leave_modes[OF rx a(1) dj] by (simp add: cr_inv_def cr_parts_inv_def rc_on_leave_def)
  then show ?thesis using a(1) m(1) by (simp add: cr_ok_def cr_on_endpoint_control_def)
qed

lemma cr_peer_ok:
  assumes inv: "cr_inv x T r" and pre: "ctl_pre T r i e control" and c: "control = CtlSubscribePeer t \<or> control = CtlUnsubscribePeer t"
  shows "cr_ok x T r (cr_on_endpoint_control x r i now e control)"
proof -
  have md: "md_inv x (cr_room r) T (cr_metadata r)" "ids_ok x (cr_room r) T" using inv by (simp_all add: cr_inv_defs)
  have "\<exists>m1. (md_on_subscribe_peer x (cr_metadata r) e t = Inr m1 \<and> control = CtlSubscribePeer t \<or>
      md_on_unsubscribe_peer x (cr_metadata r) e t = Inr m1 \<and> control = CtlUnsubscribePeer t) \<and>
      md_inv x (cr_room r) T m1 \<and> dom (im_get (md_peers m1)) = cr_peers r"
    using c
  proof
    assume *: "control = CtlSubscribePeer t"
    then obtain pc where pc: "im_get (md_peers (cr_metadata r)) e = Some pc" "t \<in> T" using pre by (auto simp: ctl_pre_def)
    show ?thesis using md_subscribe_ok[OF md pc] md_subscribe_keys * by fastforce
  next
    assume *: "control = CtlUnsubscribePeer t"
    then obtain pc where pc: "im_get (md_peers (cr_metadata r)) e = Some pc" "t \<in> set (pe_sub_peers pc)"
      using pre by (auto simp: ctl_pre_def split: option.splits)
    show ?thesis using md_unsubscribe_ok[OF md pc] md_unsubscribe_keys * by fastforce
  qed
  then obtain m1 where "cr_on_endpoint_control x r i now e control = Inr (r\<lparr>cr_metadata := m1\<rparr>)"
      "md_inv x (cr_room r) T m1" "dom (im_get (md_peers m1)) = cr_peers r"
    by (auto simp: cr_on_endpoint_control_def)
  then show ?thesis using inv by (intro cr_okI[where ?r1.0 = "r\<lparr>cr_metadata := m1\<rparr>"]) (simp_all add: cr_inv_defs)
qed

lemma cr_mixer_ok:
  assumes inv: "cr_inv x T r" and pre: "ctl_pre T r i e (CtlAudioMixer c)"
  shows "cr_ok x T r (cr_on_endpoint_control x r i now e (CtlAudioMixer c))"
proof -
  obtain j where j: "im_get (rx_manual_mode (cr_audio_mixer r)) e = Some j" using pre by (auto simp: ctl_pre_def)
  have "rx_inv (cr_audio_mixer r)" using inv by (simp add: cr_inv_defs)
  from rx_control_ok[OF this j, of x now c] obtain a where "rx_on_control x (cr_audio_mixer r) now e c = Inr a" "rx_inv a"
      "rx_auto_mode a = rx_auto_mode (cr_audio_mixer r)" "rx_manual_mode a = rx_manual_mode (cr_audio_mixer r)"
      "rx_publisher a = rx_publisher (cr_audio_mixer r)"
    by blast
  then show ?thesis using inv
    by (intro cr_okI[where ?r1.0 = "r\<lparr>cr_audio_mixer := a\<rparr>"]) (simp_all add: cr_on_endpoint_control_def cr_inv_defs modes_disjoint_def)
qed

lemma cr_message_ok:
  assumes inv: "cr_inv x T r" and pre: "ctl_pre T r i e (CtlMessageChannel l c)"
  shows "cr_ok x T r (cr_on_endpoint_control x r i now e (CtlMessageChannel l c))"
proof -
  let ?p = "rc_publisher (cr_message_channel r)" and ?s = "rc_subscriber (cr_message_channel r)"
  have mc: "mp_inv ?p" "ms_inv ?s" and e: "e \<in> cr_peers r" using inv pre by (auto simp: cr_inv_defs ctl_pre_def)
  have u: "cr_users r \<subseteq> cr_peers r" using inv by (simp add: cr_inv_def)
  have "mp_inv (mp_on_channel_pub_start x ?p e l)" "mp_inv (mp_on_channel_pub_stop x ?p e l)"
      "ms_inv (ms_on_channel_subscribe x ?s e l)" "ms_inv (ms_on_channel_unsubscribe x ?s e l)"
    using mp_start_ok[OF mc(1), of x e l] mp_stop_ok[OF mc(1), of x e l] ms_start_ok[OF mc(2), of x e l] ms_stop_ok[OF mc(2), of x e l]
    by blast+
  moreover have "mp_inv (mp_on_channel_data x ?p e l pkt)" "mp_publishers (mp_on_channel_data x ?p e l pkt) = mp_publishers ?p" for pkt
    using mc(1) by (simp_all add: mp_on_channel_data_def Let_def split: option.split)
  ultimately have "cr_inv x T (on_control_message_channel x r e l c)"
    using inv u e mp_stop_keys[OF mc(1), of x e l] ms_stop_keys[OF mc(2), of x e l]
    by (cases c) (auto simp: cr_inv_defs on_control_message_channel_def rc_on_channel_subscribe_def rc_on_channel_unsubscribe_def
        rc_on_channel_publish_start_def rc_on_channel_publish_stop_def rc_on_channel_data_def mp_start_keys ms_start_keys subset_iff)
  then show ?thesis by (simp add: cr_ok_def cr_on_endpoint_control_def on_control_message_channel_def)
qed

lemma cr_local_ok:
  assumes inv: "cr_inv x T r" and pre: "ctl_pre T r i e (CtlLocalTrack t c)"
  shows "cr_ok x T r (cr_on_endpoint_control x r i now e (CtlLocalTrack t c))"
proof -
  let ?s = "mt_subscriber (cr_media_track r)"
  have s: "ts_inv ?s" using inv by (simp add: cr_inv_defs)
  have "ts_inv (ts_on_track_request_key x ?s e t)"
    using s by (simp add: ts_on_track_request_key_def split: option.split)
  moreover have "ts_inv (ts_on_track_desired_bitrate x ?s now e t b)" "ts_inv (ts_on_track_unsubscribe ?s e t)" for b
    using ts_bitrate_ok[OF s, of x now e t b] ts_unsubscribe_ok[OF s, of e t] by blast+
  moreover have "ts_inv (ts_on_track_subscribe x ?s e t peer name)" if "c = LtSubscribe peer name" for peer name
    using ts_subscribe_ok[OF s, of e t x peer name] pre that by (auto simp: ctl_pre_def)
  ultimately have "cr_inv x T (on_control_local_track x r now e t c)"
    using inv by (cases c) (simp_all add: cr_inv_defs on_control_local_track_def mt_on_track_subscribe_def mt_on_track_request_key_def
        mt_on_track_desired_bitrate_def mt_on_track_unsubscribe_def)
  then show ?thesis by (simp add: cr_ok_def cr_on_endpoint_control_def on_control_local_track_def)
qed

lemma cr_started_ok:
  assumes inv: "cr_inv x T r" and pre: "ctl_pre T r i e (CtlRemoteTrack t (RtStarted name meta))"
  shows "cr_ok x T r (on_control_remote_track x r now e t (RtStarted name meta))"
proof (cases "get_peer_from_endpoint (cr_metadata r) e")
  case None
  then show ?thesis using inv by (intro cr_okI[where ?r1.0 = r]) (simp_all add: on_control_remote_track_def)
next
  case (Some peer)
  let ?p = "tp_on_track_publish x (mt_publisher (cr_media_track r)) e t peer name"
  let ?m = "md_on_track_publish x (cr_metadata r) e t name meta"
  have rx: "rx_inv (cr_audio_mixer r)" and md: "md_inv x (cr_room r) T (cr_metadata r)"
    and tp: "tp_inv (mt_publisher (cr_media_track r))" and sub: "cr_mixed r \<subseteq> cr_published r" using inv by (simp_all add: cr_inv_defs)
  have new: "im_get (tp_tracks (mt_publisher (cr_media_track r))) (e, t) = None" using pre by (auto simp: ctl_pre_def)
  then have "im_get (xp_tracks (rx_publisher (cr_audio_mixer r))) (e, t) = None" using sub by (auto simp: domIff)
  from rx_publish_ok[OF rx this, of x peer name] obtain a where
    a: "(if kind_is_audio (tm_kind meta) then rx_on_track_publish x (cr_audio_mixer r) e t peer name else Inr (cr_audio_mixer r)) = Inr a"
      "rx_inv a" "rx_auto_mode a = rx_auto_mode (cr_audio_mixer r)" "rx_manual_mode a = rx_manual_mode (cr_audio_mixer r)"
      "dom (im_get (xp_tracks (rx_publisher a))) \<subseteq> insert (e, t) (cr_mixed r)"
    using rx by (cases "kind_is_audio (tm_kind meta)") auto
  have "tp_inv ?p" using tp_publish_ok[OF tp new, of x peer name] by blast
  moreover have "dom (im_get (tp_tracks ?p)) = insert (e, t) (cr_published r)" by (simp add: tp_on_track_publish_def Let_def)
  moreover have "md_inv x (cr_room r) T ?m" using md_track_ops_ok[OF md] by blast
  ultimately have "cr_inv x T (r\<lparr>cr_audio_mixer := a, cr_media_track := mt_on_track_publish x (cr_media_track r) e t peer name, cr_metadata := ?m\<rparr>)"
    using inv a(2-5) sub by (simp add: cr_inv_defs modes_disjoint_def mt_on_track_publish_def md_track_keys) blast
  then show ?thesis using a(1) Some by (simp add: cr_ok_def on_control_remote_track_def)
qed

lemma cr_media_ok:
  assumes inv: "cr_inv x T r" and pre: "ctl_pre T r i e (CtlRemoteTrack t (RtMedia media))"
  shows "cr_ok x T r (on_control_remote_track x r now e t (RtMedia media))"
proof -
  let ?p = "tp_on_track_data x (mt_publisher (cr_media_track r)) e t media"
  have rx: "rx_inv (cr_audio_mixer r)" and tp: "tp_inv (mt_publisher (cr_media_track r))" using inv by (simp_all add: cr_inv_defs)
  obtain a where
    a: "(if meta_is_audio (pkt_meta media) then rx_on_track_data x (cr_audio_mixer r) now e t media else Inr (cr_audio_mixer r)) = Inr a"
      "rx_inv a" "rx_auto_mode a = rx_auto_mode (cr_audio_mixer r)" "rx_manual_mode a = rx_manual_mode (cr_audio_mixer r)"
      "xp_tracks (rx_publisher a) = xp_tracks (rx_publisher (cr_audio_mixer r))"
  proof (cases "meta_is_audio (pkt_meta media)")
    case True
    then obtain info where "im_get (xp_tracks (rx_publisher (cr_audio_mixer r))) (e, t) = Some info" using pre by (auto simp: ctl_pre_def)
    then show ?thesis using rx_data_ok[OF rx, of e t info x now media] True that by auto
  qed (use rx that in auto)
  have "tp_inv ?p" "tp_tracks ?p = tp_tracks (mt_publisher (cr_media_track r))"
    using tp by (simp_all add: tp_on_track_data_def split: option.split)
  then have "cr_inv x T (r\<lparr>cr_audio_mixer := a, cr_media_track := mt_on_track_data x (cr_media_track r) e t media\<rparr>)"
    using inv a(2-5) by (simp add: cr_inv_defs modes_disjoint_def mt_on_track_data_def)
  then show ?thesis using a(1) by (simp add: cr_ok_def on_control_remote_track_def)
qed

lemma cr_ended_ok:
  assumes inv: "cr_inv x T r" and pre: "ctl_pre T r i e (CtlRemoteTrack t (RtEnded name meta))"
  shows "cr_ok x T r (on_control_remote_track x r now e t (RtEnded name meta))"
proof -
  let ?m = "md_on_track_unpublish x (cr_metadata r) e t"
  have rx: "rx_inv (cr_audio_mixer r)" and md: "md_inv x (cr_room r) T (cr_metadata r)"
    and tp: "tp_inv (mt_publisher (cr_media_track r))" and sub: "cr_mixed r \<subseteq> cr_published r" using inv by (simp_all add: cr_inv_defs)
  have p: "kind_is_audio (tm_kind meta) \<longleftrightarrow> (e, t) \<in> cr_mixed r" using pre by (simp add: ctl_pre_def)
  obtain a where
    a: "(if kind_is_audio (tm_kind meta) then rx_on_track_unpublish (cr_audio_mixer r) e t else Inr (cr_audio_mixer r)) = Inr a"
      "rx_inv a" "rx_auto_mode a = rx_auto_mode (cr_audio_mixer r)" "rx_manual_mode a = rx_manual_mode (cr_audio_mixer r)"
      "dom (im_get (xp_tracks (rx_publisher a))) = cr_mixed r - {(e, t)}"
  proof (cases "kind_is_audio (tm_kind meta)")
    case True
    then have "im_get (xp_tracks (rx_publisher (cr_audio_mixer r))) (e, t) \<noteq> None" using p by (simp add: domIff)
    from rx_unpublish_ok[OF rx this] show ?thesis using True that by auto
  qed (use rx p that in auto)
  obtain q where q: "tp_on_track_unpublish (mt_publisher (cr_media_track r)) e t = Inr q" "tp_inv q"
    using tp_unpublish_ok[OF tp, of e t] by blast
  have "md_inv x (cr_room r) T ?m" using md_track_ops_ok[OF md] by blast
  then have "cr_inv x T (r\<lparr>cr_audio_mixer := a, cr_media_track := (cr_media_track r)\<lparr>mt_publisher := q\<rparr>, cr_metadata := ?m\<rparr>)"
    using inv a(2-5) q(2) sub tp_unpublish_keys[OF tp q(1)] by (simp add: cr_inv_defs modes_disjoint_def md_track_keys) blast
  then show ?thesis using a(1) q(1) by (simp add: cr_ok_def on_control_remote_track_def mt_on_track_unpublish_def)
qed

lemma cr_sdn_ok:
  assumes inv: "cr_inv x T r" and pre: "feature = AudioMixer \<longrightarrow> manuals_drained (cr_audio_mixer r)"
  shows "cr_ok x T r (cr_on_sdn_event x r now feature event)"
proof -
  let ?p = "mt_publisher (cr_media_track r)" and ?s = "mt_subscriber (cr_media_track r)" and ?c = "rc_subscriber (cr_message_channel r)"
  have md: "md_inv x (cr_room r) T (cr_metadata r)" and tp: "tp_inv ?p" and ts: "ts_inv ?s" and rx: "rx_inv (cr_audio_mixer r)"
    and ms: "ms_inv ?c" using inv by (simp_all add: cr_inv_defs)
  have "md_inv x (cr_room r) T (md_on_kv_event x (cr_metadata r) k ev)" for k ev using md_kv_ok[OF md, of k ev] by blast
  moreover have "tp_inv (tp_on_track_feedback x ?p c fb)" "tp_tracks (tp_on_track_feedback x ?p c fb) = tp_tracks ?p" for c fb
    using tp by (simp_all add: tp_on_track_feedback_def split: option.split)
  moreover have "ts_inv (ts_on_track_data x ?s c w)" "ts_inv (ts_on_track_relay_changed ?s c)" for c w
    using ts by (simp_all add: ts_on_track_data_def ts_on_track_relay_changed_def split: option.split)
  moreover have "ms_inv (ms_on_channel_data x ?c c w)" "ms_subscriptions (ms_on_channel_data x ?c c w) = ms_subscriptions ?c" for c w
    using ms by (simp_all add: ms_on_channel_data_def split: option.split)
  ultimately have parts: ?thesis if "feature \<noteq> AudioMixer"
    using inv that
    by (cases feature; cases event)
       (auto simp: cr_ok_def cr_on_sdn_event_def cr_inv_defs mt_on_pubsub_event_def rc_on_pubsub_event_def md_kv_keys
          split: channel_event.split)
  show ?thesis
  proof (cases "feature = AudioMixer")
    case True
    have "\<exists>a. rx_on_pubsub_event x (cr_audio_mixer r) now c ev = Inr a \<and> cr_inv x T (r\<lparr>cr_audio_mixer := a\<rparr>)" for c ev
      using rx_pubsub_ok[OF rx, of x now c ev] pre True inv by (auto simp: cr_inv_defs modes_disjoint_def)
    then obtain a where "rx_on_pubsub_event x (cr_audio_mixer r) now c ev = Inr (a c ev)" "cr_inv x T (r\<lparr>cr_audio_mixer := a c ev\<rparr>)" for c ev
      by metis
    then show ?thesis using True inv by (cases event) (simp_all add: cr_ok_def cr_on_sdn_event_def)
  qed (rule parts)
qed

lemma cr_event_ok:
  assumes inv: "cr_inv x T r" and pre: "input_pre T r i input"
  shows "cr_ok x T r (cr_on_event x r i now input)"
proof (cases input)
  case (InSdn feature event)
  then show ?thesis using cr_sdn_ok[OF inv] pre by (simp add: cr_on_event_def input_pre_def)
next
  case (InEndpoint e control)
  then have p: "ctl_pre T r i e control" using pre by (simp add: input_pre_def)
  have "cr_ok x T r (cr_on_endpoint_control x r i now e control)"
  proof (cases control)
    case (CtlRemoteTrack t c)
    then show ?thesis
      using p cr_started_ok[OF inv] cr_media_ok[OF inv] cr_ended_ok[OF inv] by (cases c) (simp_all add: cr_on_endpoint_control_def)
  qed (use p cr_join_ok[OF inv] cr_leave_ok[OF inv] cr_peer_ok[OF inv] cr_mixer_ok[OF inv] cr_message_ok[OF inv] cr_local_ok[OF inv] in simp_all)
  then show ?thesis using InEndpoint by (simp add: cr_on_event_def)
qed

section \<open>Polling\<close>

text \<open>A turn for a part with nothing to say changes nothing.\<close>

lemma turn_idle_noop:
  assumes "turn_idle r turn"
  shows "rx_pop_output r [turn] = Inr (r, None) \<or> rx_pop_output r [turn] = Inr (r, Some MixEmpty) \<and> rx_is_empty r"
  using assms
  by (cases turn)
     (auto simp: turn_idle_def xp_pop_output_def xs_pop_output_def xm_pop_output_def im_swap_remove_absent Let_def split: option.splits)

lemma rx_empty_idle: "rx_is_empty r \<Longrightarrow> turn_idle r turn"
  by (auto simp: rx_is_empty_def turn_idle_def xp_is_empty_def xs_is_empty_def split: mixer_turn.split)

lemma rx_same_refl: "rx_same r r"
  by (simp add: rx_same_def)

lemma rx_same_trans: "rx_same r2 r1 \<Longrightarrow> rx_same r1 r \<Longrightarrow> rx_same r2 r"
  by (simp add: rx_same_def)

lemma rx_pop_ok:
  assumes "rx_inv r" "rx_turns_legal r turns"
  shows "\<exists>r1 out. rx_pop_output r turns = Inr (r1, out) \<and> rx_inv r1 \<and> rx_same r1 r \<and> rx_weight r1 \<le> rx_weight r \<and>
    ((\<exists>t\<in>set turns. \<not> turn_idle r t) \<longrightarrow> rx_weight r1 < rx_weight r) \<and>
    ((\<forall>t\<in>set turns. turn_idle r t) \<longrightarrow> r1 = r \<and> (\<forall>out1. out \<noteq> Some (MixOut out1)))"
  using assms
proof (induction turns arbitrary: r)
  case Nil
  then show ?case by (simp add: rx_same_refl)
next
  case (Cons turn turns)
  have one: "rx_turns_legal r [turn]" using Cons.prems(2) by (auto split: sum.split prod.split option.split)
  obtain r1 out where p: "rx_pop_output r [turn] = Inr (r1, out)" "rx_inv r1" "rx_same r1 r"
      "if turn_idle r turn then rx_weight r1 = rx_weight r else rx_weight r1 < rx_weight r"
    using rx_turn_ok[OF Cons.prems(1) one] by blast
  have idle: "r1 = r \<and> (out = None \<or> out = Some MixEmpty \<and> rx_is_empty r)" if "turn_idle r turn"
    using turn_idle_noop[OF that] p(1) by auto
  show ?case
  proof (cases out)
    case None
    have "rx_turns_legal r1 turns" using Cons.prems(2) p(1) None by simp
    from Cons.IH[OF p(2) this] obtain r2 out2 where q: "rx_pop_output r1 turns = Inr (r2, out2)" "rx_inv r2" "rx_same r2 r1"
        "rx_weight r2 \<le> rx_weight r1" "(\<exists>t\<in>set turns. \<not> turn_idle r1 t) \<longrightarrow> rx_weight r2 < rx_weight r1"
        "(\<forall>t\<in>set turns. turn_idle r1 t) \<longrightarrow> r2 = r1 \<and> (\<forall>out1. out2 \<noteq> Some (MixOut out1))" by blast
    have run: "rx_pop_output r (turn # turns) = Inr (r2, out2)" using rx_pop_cons[of r turn turns] p(1) None q(1) by simp
    show ?thesis
    proof (cases "turn_idle r turn")
      case True
      with idle have "r1 = r" by simp
      then show ?thesis using run q True by auto
    next
      case False
      then show ?thesis using run q p(3,4) rx_same_trans by fastforce
    qed
  next
    case (Some o1)
    then have run: "rx_pop_output r (turn # turns) = Inr (r1, Some o1)" using rx_pop_cons[of r turn turns] p(1) by simp
    show ?thesis
    proof (cases "turn_idle r turn")
      case True
      then have "r1 = r" "o1 = MixEmpty" "rx_is_empty r" using idle Some by auto
      then show ?thesis using run Cons.prems(1) rx_empty_idle by (auto simp: rx_same_refl)
    qed (use run p in auto)
  qed
qed

definition half_busy :: "bool \<Rightarrow> bool \<Rightarrow> half list \<Rightarrow> bool" where
  "half_busy p s hs \<longleftrightarrow> p \<and> Publisher \<in> set hs \<or> s \<and> Subscriber \<in> set hs"

lemma mt_pop_ok:
  "\<exists>t1 out. mt_pop_output t hs = (t1, out) \<and> mt_publisher t1 = (mt_publisher t)\<lparr>tp_queue := tp_queue (mt_publisher t1)\<rparr> \<and>
    mt_subscriber t1 = (mt_subscriber t)\<lparr>ts_queue := ts_queue (mt_subscriber t1)\<rparr> \<and>
    (if half_busy (tp_queue (mt_publisher t) \<noteq> []) (ts_queue (mt_subscriber t) \<noteq> []) hs
     then length (tp_queue (mt_publisher t1)) + length (ts_queue (mt_subscriber t1)) <
       length (tp_queue (mt_publisher t)) + length (ts_queue (mt_subscriber t))
     else t1 = t \<and> out = None)"
proof (induction hs)
  case (Cons h hs)
  show ?case
  proof (cases "h = Publisher \<and> tp_queue (mt_publisher t) \<noteq> [] \<or> h = Subscriber \<and> ts_queue (mt_subscriber t) \<noteq> []")
    case True
    then show ?thesis
      by (elim disjE conjE) (auto simp: tp_pop_output_def ts_pop_output_def half_busy_def neq_Nil_conv)
  next
    case False
    then have "mt_pop_output t (h # hs) = mt_pop_output t hs"
      by (cases h) (auto simp: tp_pop_output_def ts_pop_output_def)
    moreover have "half_busy (tp_queue (mt_publisher t) \<noteq> []) (ts_queue (mt_subscriber t) \<noteq> []) (h # hs) =
        half_busy (tp_queue (mt_publisher t) \<noteq> []) (ts_queue (mt_subscriber t) \<noteq> []) hs"
      using False by (auto simp: half_busy_def)
    ultimately show ?thesis using Cons.IH by simp
  qed
qed (simp add: half_busy_def)

lemma rc_pop_ok:
  "\<exists>t1 out. rc_pop_output t hs = (t1, out) \<and> rc_publisher t1 = (rc_publisher t)\<lparr>mp_queue := mp_queue (rc_publisher t1)\<rparr> \<and>
    rc_subscriber t1 = (rc_subscriber t)\<lparr>ms_queue := ms_queue (rc_subscriber t1)\<rparr> \<and>
    (if half_busy (mp_queue (rc_publisher t) \<noteq> []) (ms_queue (rc_subscriber t) \<noteq> []) hs
     then length (mp_queue (rc_publisher t1)) + length (ms_queue (rc_subscriber t1)) <
       length (mp_queue (rc_publisher t)) + length (ms_queue (rc_subscriber t))
     else t1 = t \<and> out = None)"
proof (induction hs)
  case (Cons h hs)
  show ?case
  proof (cases "h = Publisher \<and> mp_queue (rc_publisher t) \<noteq> [] \<or> h = Subscriber \<and> ms_queue (rc_subscriber t) \<noteq> []")
    case True
    then show ?thesis
      by (elim disjE conjE) (auto simp: mp_pop_output_def ms_pop_output_def half_busy_def neq_Nil_conv)
  next
    case False
    then have "rc_pop_output t (h # hs) = rc_pop_output t hs"
      by (cases h) (auto simp: mp_pop_output_def ms_pop_output_def)
    moreover have "half_busy (mp_queue (rc_publisher t) \<noteq> []) (ms_queue (rc_subscriber t) \<noteq> []) (h # hs) =
        half_busy (mp_queue (rc_publisher t) \<noteq> []) (ms_queue (rc_subscriber t) \<noteq> []) hs"
      using False by (auto simp: half_busy_def)
    ultimately show ?thesis using Cons.IH by simp
  qed
qed (simp add: half_busy_def)

text \<open>What a room has still to send, what polling it leaves alone, and when a turn has something to do.\<close>

definition cr_weight :: "('e, 'w, 'fb) cluster_room \<Rightarrow> nat" where
  "cr_weight r = length (md_queue (cr_metadata r)) + length (tp_queue (mt_publisher (cr_media_track r))) +
     length (ts_queue (mt_subscriber (cr_media_track r))) + rx_weight (cr_audio_mixer r) +
     length (mp_queue (rc_publisher (cr_message_channel r))) + length (ms_queue (rc_subscriber (cr_message_channel r)))"

definition cr_same :: "('e, 'w, 'fb) cluster_room \<Rightarrow> ('e, 'w, 'fb) cluster_room \<Rightarrow> bool" where
  "cr_same r1 r \<longleftrightarrow> cr_room r1 = cr_room r \<and> cr_peers r1 = cr_peers r \<and> cr_published r1 = cr_published r \<and>
     cr_viewed r1 = cr_viewed r"

definition turn_busy :: "('e, 'w, 'fb) cluster_room \<Rightarrow> room_turn \<Rightarrow> bool" where
  "turn_busy r turn \<longleftrightarrow>
     (case turn of
        RMetadata \<Rightarrow> md_queue (cr_metadata r) \<noteq> []
      | RMediaTrack hs \<Rightarrow> half_busy (tp_queue (mt_publisher (cr_media_track r)) \<noteq> []) (ts_queue (mt_subscriber (cr_media_track r)) \<noteq> []) hs
      | RAudioMixer ts \<Rightarrow> \<exists>t\<in>set ts. \<not> turn_idle (cr_audio_mixer r) t
      | RMessageChannel hs \<Rightarrow>
          half_busy (mp_queue (rc_publisher (cr_message_channel r)) \<noteq> []) (ms_queue (rc_subscriber (cr_message_channel r)) \<noteq> []) hs)"

fun cr_turns_legal :: "('e, 'w, 'fb) cluster_room \<Rightarrow> room_turn list \<Rightarrow> bool" where
  "cr_turns_legal r [] = True"
| "cr_turns_legal r (turn # turns) =
     ((case turn of RAudioMixer ts \<Rightarrow> rx_turns_legal (cr_audio_mixer r) ts | _ \<Rightarrow> True) \<and>
      (case cr_pop_output r [turn] of Inr (r1, None) \<Rightarrow> cr_turns_legal r1 turns | _ \<Rightarrow> True))"

lemma cr_pop_cons:
  "cr_pop_output r (turn # turns) = res_bind (cr_pop_output r [turn]) (\<lambda>(r1, out).
     case out of None \<Rightarrow> cr_pop_output r1 turns | Some o1 \<Rightarrow> Inr (r1, Some o1))"
proof (cases turn)
  case (RAudioMixer ts)
  then show ?thesis
    by (cases "rx_pop_output (cr_audio_mixer r) ts") (auto split: prod.split option.split mixer_output.split)
qed (auto split: prod.split option.split)

lemma cr_turn_ok:
  assumes inv: "cr_inv x T r" and legal: "cr_turns_legal r [turn]"
  shows "\<exists>r1 out. cr_pop_output r [turn] = Inr (r1, out) \<and> cr_inv x T r1 \<and> cr_same r1 r \<and>
    (if turn_busy r turn then cr_weight r1 < cr_weight r else r1 = r \<and> out = None)"
proof (cases turn)
  case RMetadata
  have "md_inv x (cr_room r) T ((cr_metadata r)\<lparr>md_queue := q\<rparr>)" for q
    using inv by (simp add: cr_inv_defs md_cong[of "(cr_metadata r)\<lparr>md_queue := q\<rparr>" "cr_metadata r"])
  then show ?thesis using inv RMetadata
    by (cases "md_queue (cr_metadata r)") (auto simp: md_pop_output_def turn_busy_def cr_same_def cr_weight_def cr_inv_defs)
next
  case (RMediaTrack hs)
  obtain t1 out where t: "mt_pop_output (cr_media_track r) hs = (t1, out)"
      "mt_publisher t1 = (mt_publisher (cr_media_track r))\<lparr>tp_queue := tp_queue (mt_publisher t1)\<rparr>"
      "mt_subscriber t1 = (mt_subscriber (cr_media_track r))\<lparr>ts_queue := ts_queue (mt_subscriber t1)\<rparr>"
      "if turn_busy r turn
       then length (tp_queue (mt_publisher t1)) + length (ts_queue (mt_subscriber t1)) <
         length (tp_queue (mt_publisher (cr_media_track r))) + length (ts_queue (mt_subscriber (cr_media_track r)))
       else t1 = cr_media_track r \<and> out = None"
    using mt_pop_ok[of "cr_media_track r" hs] RMediaTrack by (auto simp: turn_busy_def)
  let ?r = "r\<lparr>cr_media_track := t1\<rparr>"
  have f: "tp_tracks (mt_publisher t1) = tp_tracks (mt_publisher (cr_media_track r))" "tp_inv (mt_publisher t1) = tp_inv (mt_publisher (cr_media_track r))"
      "ts_subscribers (mt_subscriber t1) = ts_subscribers (mt_subscriber (cr_media_track r))"
      "ts_inv (mt_subscriber t1) = ts_inv (mt_subscriber (cr_media_track r))"
    by (subst t(2), simp, subst t(2), simp, subst t(3), simp, subst t(3), simp)
  have "cr_inv x T ?r" "cr_same ?r r" using inv f by (simp_all add: cr_inv_defs cr_same_def)
  moreover have "\<exists>out1. cr_pop_output r [turn] = Inr (?r, out1) \<and> (out = None \<longrightarrow> out1 = None)"
    using t(1) RMediaTrack by (cases out) simp_all
  ultimately show ?thesis using t(4) by (auto simp: cr_weight_def split: if_splits)
next
  case (RMessageChannel hs)
  obtain t1 out where t: "rc_pop_output (cr_message_channel r) hs = (t1, out)"
      "rc_publisher t1 = (rc_publisher (cr_message_channel r))\<lparr>mp_queue := mp_queue (rc_publisher t1)\<rparr>"
      "rc_subscriber t1 = (rc_subscriber (cr_message_channel r))\<lparr>ms_queue := ms_queue (rc_subscriber t1)\<rparr>"
      "if turn_busy r turn
       then length (mp_queue (rc_publisher t1)) + length (ms_queue (rc_subscriber t1)) <
         length (mp_queue (rc_publisher (cr_message_channel r))) + length (ms_queue (rc_subscriber (cr_message_channel r)))
       else t1 = cr_message_channel r \<and> out = None"
    using rc_pop_ok[of "cr_message_channel r" hs] RMessageChannel by (auto simp: turn_busy_def)
  let ?r = "r\<lparr>cr_message_channel := t1\<rparr>"
  have f: "mp_publishers (rc_publisher t1) = mp_publishers (rc_publisher (cr_message_channel r))" "mp_inv (rc_publisher t1) = mp_inv (rc_publisher (cr_message_channel r))"
      "ms_subscriptions (rc_subscriber t1) = ms_subscriptions (rc_subscriber (cr_message_channel r))"
      "ms_inv (rc_subscriber t1) = ms_inv (rc_subscriber (cr_message_channel r))"
    by (subst t(2), simp, subst t(2), simp, subst t(3), simp, subst t(3), simp)
  have "cr_inv x T ?r" "cr_same ?r r" using inv f by (simp_all add: cr_inv_defs cr_same_def)
  moreover have "\<exists>out1. cr_pop_output r [turn] = Inr (?r, out1) \<and> (out = None \<longrightarrow> out1 = None)"
    using t(1) RMessageChannel by (cases out) simp_all
  ultimately show ?thesis using t(4) by (auto simp: cr_weight_def split: if_splits)
next
  case (RAudioMixer ts)
  have rx: "rx_inv (cr_audio_mixer r)" "rx_turns_legal (cr_audio_mixer r) ts" using inv legal RAudioMixer by (simp_all add: cr_inv_defs)
  obtain a out where a: "rx_pop_output (cr_audio_mixer r) ts = Inr (a, out)" "rx_inv a" "rx_same a (cr_audio_mixer r)"
      "if turn_busy r turn then rx_weight a < rx_weight (cr_audio_mixer r)
       else a = cr_audio_mixer r \<and> (\<forall>out1. out \<noteq> Some (MixOut out1))"
    using rx_pop_ok[OF rx] RAudioMixer by (cases "turn_busy r turn") (force simp: turn_busy_def)+
  let ?r = "r\<lparr>cr_audio_mixer := a\<rparr>"
  have "cr_inv x T ?r" "cr_same ?r r" using inv a(2,3) by (simp_all add: cr_inv_defs cr_same_def rx_same_def modes_disjoint_def)
  moreover have "\<exists>out1. cr_pop_output r [turn] = Inr (?r, out1) \<and> ((\<forall>out1. out \<noteq> Some (MixOut out1)) \<longrightarrow> out1 = None)"
    using a(1) RAudioMixer by (auto split: option.split mixer_output.split)
  ultimately show ?thesis using a(4) by (auto simp: cr_weight_def split: if_splits)
qed

lemma cr_pop_ok:
  assumes "cr_inv x T r" "cr_turns_legal r turns"
  shows "\<exists>r1 out. cr_pop_output r turns = Inr (r1, out) \<and> cr_inv x T r1 \<and> cr_same r1 r \<and> cr_weight r1 \<le> cr_weight r \<and>
    ((\<exists>t\<in>set turns. turn_busy r t) \<longrightarrow> cr_weight r1 < cr_weight r)"
  using assms
proof (induction turns arbitrary: r)
  case Nil
  then show ?case by (simp add: cr_same_def)
next
  case (Cons turn turns)
  have one: "cr_turns_legal r [turn]" using Cons.prems(2) by (auto split: sum.split prod.split option.split)
  obtain r1 out where p: "cr_pop_output r [turn] = Inr (r1, out)" "cr_inv x T r1" "cr_same r1 r"
      "if turn_busy r turn then cr_weight r1 < cr_weight r else r1 = r \<and> out = None"
    using cr_turn_ok[OF Cons.prems(1) one] by blast
  show ?case
  proof (cases out)
    case None
    have "cr_turns_legal r1 turns" using Cons.prems(2) p(1) None by simp
    from Cons.IH[OF p(2) this] obtain r2 out2 where q: "cr_pop_output r1 turns = Inr (r2, out2)" "cr_inv x T r2" "cr_same r2 r1"
        "cr_weight r2 \<le> cr_weight r1" "(\<exists>t\<in>set turns. turn_busy r1 t) \<longrightarrow> cr_weight r2 < cr_weight r1" by blast
    have run: "cr_pop_output r (turn # turns) = Inr (r2, out2)" using cr_pop_cons[of r turn turns] p(1) None q(1) by simp
    have "cr_same r2 r" using q(3) p(3) by (simp add: cr_same_def)
    then show ?thesis using run q p(4) by (cases "turn_busy r turn") fastforce+
  next
    case (Some o1)
    then have "cr_pop_output r (turn # turns) = Inr (r1, Some o1)" using cr_pop_cons[of r turn turns] p(1) by simp
    then show ?thesis using p Some by (auto split: if_splits)
  qed
qed

section \<open>Reachable rooms\<close>

datatype ('e, 'w, 'fb) room_call = RoomTick nat | RoomInput nat nat "('e, 'w, 'fb) room_input" | RoomPoll "room_turn list"

definition cr_call :: "('w, 'fb) externals \<Rightarrow> ('e, 'w, 'fb) cluster_room \<Rightarrow> ('e, 'w, 'fb) room_call \<Rightarrow> ('e, 'w, 'fb) cluster_room res" where
  "cr_call x r c =
     (case c of
        RoomTick now \<Rightarrow> cr_on_tick r now
      | RoomInput i now input \<Rightarrow> cr_on_event x r i now input
      | RoomPoll turns \<Rightarrow> res_bind (cr_pop_output r turns) (\<lambda>(r1, out). Inr r1))"

definition call_pre :: "peer_id set \<Rightarrow> ('e, 'w, 'fb) cluster_room \<Rightarrow> ('e, 'w, 'fb) room_call \<Rightarrow> bool" where
  "call_pre T r c =
     (case c of RoomTick now \<Rightarrow> True | RoomInput i now input \<Rightarrow> input_pre T r i input | RoomPoll turns \<Rightarrow> cr_turns_legal r turns)"

inductive room_reach :: "('w, 'fb) externals \<Rightarrow> peer_id set \<Rightarrow> nat \<Rightarrow> ('e, 'w, 'fb) cluster_room \<Rightarrow> bool"
  for x T room where
  room_start: "room_reach x T room (cr_new x now room)"
| room_step: "room_reach x T room r \<Longrightarrow> call_pre T r c \<Longrightarrow> cr_call x r c = Inr r1 \<Longrightarrow> room_reach x T room r1"

lemma cr_call_ok: "cr_inv x T r \<Longrightarrow> call_pre T r c \<Longrightarrow> cr_ok x T r (cr_call x r c)"
proof (cases c)
  case (RoomPoll turns)
  assume "cr_inv x T r" "call_pre T r c"
  then show ?thesis using cr_pop_ok[of x T r turns] RoomPoll by (auto simp: cr_ok_def cr_call_def call_pre_def cr_same_def)
qed (simp_all add: cr_call_def call_pre_def cr_tick_ok cr_event_ok)

lemma room_reach_inv:
  assumes "room_reach x T room r" "ids_ok x room T"
  shows "cr_inv x T r \<and> cr_room r = room"
  using assms(1)
proof induction
  case (room_start now)
  then show ?case using cr_inv_new[OF assms(2)] by (simp add: cr_new_def)
next
  case (room_step r c r1)
  then show ?case using cr_call_ok[of x T r c] by (auto simp: cr_ok_def)
qed

text \<open>A room nobody uses and with nothing to send is empty.\<close>

lemma dom_Nil_iff: "dom (im_get m) = {} \<longleftrightarrow> m = []"
  by (cases m) auto

lemma rx_drained:
  assumes inv: "rx_inv r" and w: "rx_weight r = 0" and no: "rx_auto_mode r = []" "rx_manual_mode r = []" "xp_tracks (rx_publisher r) = []"
  shows "rx_is_empty r"
proof -
  have man: "channels_wf (rx_manual_channels r)" "\<forall>i. manual_ok (rx_manual_channels r) i (im_get (rx_manuals r) i)"
    using inv by (simp_all add: rx_inv_def manuals_inv_def)
  have "dom (im_get (rx_manuals r)) = {}" using w finite_dom_map_of[of "rx_manuals r"] by (simp add: rx_weight_def)
  then have e: "rx_manuals r = []" by (simp only: dom_Nil_iff)
  then have h: "held (rx_manual_channels r) i = {}" for i using man(2) by (simp add: manual_ok_def)
  have "im_get (rx_manual_channels r) c = None" for c
  proof (rule ccontr)
    assume "im_get (rx_manual_channels r) c \<noteq> None"
    then obtain l where l: "im_get (rx_manual_channels r) c = Some l" by blast
    then have "l \<noteq> []" using man(1) unfolding channels_wf_def by blast
    then show False using l h[of "hd l"] by (force simp: held_def)
  qed
  then have "rx_manual_channels r = []" by (simp add: dom_def flip: dom_Nil_iff)
  moreover have "xs_endpoints s = []" if "sub_ok k (rx_auto_mode r) s" for k and s :: "('a, 'b, 'c) mixer_subscriber"
    using that no(1) by (simp add: sub_ok_def dom_def flip: dom_Nil_iff)
  moreover have "sub_ok 1 (rx_auto_mode r) (rx_subscriber1 r)" "sub_ok 2 (rx_auto_mode r) (rx_subscriber2 r)"
      "sub_ok 3 (rx_auto_mode r) (rx_subscriber3 r)" using inv by (simp_all add: rx_inv_def)
  ultimately show ?thesis using no w e by (simp add: rx_is_empty_def rx_weight_def xp_is_empty_def xs_is_empty_def)
qed

lemma tp_drained:
  assumes "tp_inv p" "tp_tracks p = []"
  shows "tp_tracks_source p = []"
proof -
  have "ran (tp_chan p) = {}" using assms(2) by (simp add: tp_chan_def[abs_def])
  then show ?thesis using table_dom[of "tp_chan p" "im_get (tp_tracks_source p)"] assms(1) by (simp add: tp_inv_def dom_Nil_iff)
qed

lemma ts_drained:
  assumes "ts_inv s" "ts_subscribers s = []"
  shows "ts_channels s = []"
proof -
  have "ran (ts_chan s) = {}" using assms(2) by (simp add: ts_chan_def[abs_def])
  moreover have "dom (ts_members s) = dom (im_get (ts_channels s))" by (auto simp: ts_members_def)
  ultimately show ?thesis using table_dom[of "ts_chan s" "ts_members s"] assms(1) by (simp add: ts_inv_def dom_Nil_iff)
qed

lemma mp_drained:
  assumes "mp_inv p" "mp_publishers p = []"
  shows "mp_channels p = []"
proof -
  have "dom (mp_users p) = {}"
    using rel_channels(1)[of "mp_users p" "im_get (mp_publishers p)" undefined] assms by (simp add: mp_inv_def mp_inv_for_def)
  then show ?thesis using mp_active_users[of p] by (simp add: mp_active_def dom_Nil_iff)
qed

lemma ms_drained:
  assumes "ms_inv s" "ms_subscriptions s = []"
  shows "ms_channels s = []"
proof -
  have "dom (ms_users s) = {}"
    using rel_channels(1)[of "ms_users s" "im_get (ms_subscriptions s)" undefined] assms by (simp add: ms_inv_def ms_inv_for_def)
  then show ?thesis using ms_active_users[of s] by (simp add: ms_active_def dom_Nil_iff)
qed

definition abandoned :: "('e, 'w, 'fb) cluster_room \<Rightarrow> bool" where
  "abandoned r \<longleftrightarrow> cr_peers r = {} \<and> cr_published r = {} \<and> cr_viewed r = {}"

lemma cr_drained:
  assumes inv: "cr_inv x T r" and ab: "abandoned r" and w: "cr_weight r = 0"
  shows "cr_is_empty r"
proof -
  have "cr_users r = {}" "cr_mixed r = {}" using inv ab by (auto simp: cr_inv_def abandoned_def)
  then have u: "rx_auto_mode (cr_audio_mixer r) = []" "rx_manual_mode (cr_audio_mixer r) = []"
      "mp_publishers (rc_publisher (cr_message_channel r)) = []" "ms_subscriptions (rc_subscriber (cr_message_channel r)) = []"
      "xp_tracks (rx_publisher (cr_audio_mixer r)) = []"
    unfolding cr_users_def by (simp_all add: dom_Nil_iff)
  have t: "tp_tracks (mt_publisher (cr_media_track r)) = []" "ts_subscribers (mt_subscriber (cr_media_track r)) = []"
      "md_peers (cr_metadata r) = []" using ab unfolding abandoned_def by (simp_all add: dom_Nil_iff)
  have "rx_is_empty (cr_audio_mixer r)" using inv w u by (intro rx_drained) (simp_all add: cr_inv_defs cr_weight_def)
  moreover have "md_is_empty (cr_metadata r)"
    using inv t(3) w by (intro md_inv_empty[of x "cr_room r" T]) (simp_all add: cr_inv_defs cr_weight_def)
  moreover have "mt_is_empty (cr_media_track r)"
    using inv t w tp_drained[of "mt_publisher (cr_media_track r)"] ts_drained[of "mt_subscriber (cr_media_track r)"]
    by (simp add: mt_is_empty_def tp_is_empty_def ts_is_empty_def cr_inv_defs cr_weight_def)
  moreover have "rc_is_empty (cr_message_channel r)"
    using inv u w mp_drained[of "rc_publisher (cr_message_channel r)"] ms_drained[of "rc_subscriber (cr_message_channel r)"]
    by (simp add: rc_is_empty_def mp_is_empty_def ms_is_empty_def cr_inv_defs cr_weight_def)
  ultimately show ?thesis by (simp add: cr_is_empty_def)
qed

lemma rx_legal_one:
  "rx_turns_legal r [t] \<longleftrightarrow> (\<forall>i m. t = TManualEmpty i \<and> im_get (rx_manuals r) i = Some m \<longrightarrow> xm_is_empty m)"
proof -
  have "(case out of Inr (r1, None) \<Rightarrow> rx_turns_legal r1 [] | _ \<Rightarrow> True)" for out :: "(('a, 'b, 'c) room_mixer \<times> ('a, 'b, 'c) mixer_output option) res"
    by (simp split: sum.split prod.split option.split)
  then show ?thesis by (simp split: mixer_turn.split option.split) blast?
qed

lemma cr_legal_one: "cr_turns_legal r [t] \<longleftrightarrow> (\<forall>ts. t = RAudioMixer ts \<longrightarrow> rx_turns_legal (cr_audio_mixer r) ts)"
proof -
  have "(case out of Inr (r1, None) \<Rightarrow> cr_turns_legal r1 [] | _ \<Rightarrow> True)" for out :: "(('a, 'b, 'c) cluster_room \<times> ('a, 'b, 'c) cluster_room_output option) res"
    by (simp split: sum.split prod.split option.split)
  then show ?thesis by (simp split: room_turn.split)
qed

lemma rx_busy_turn:
  assumes inv: "rx_inv r" and no: "rx_manual_mode r = []" and w: "rx_weight r \<noteq> 0"
  shows "\<exists>t. rx_turns_legal r [t] \<and> \<not> turn_idle r t"
proof (cases "\<exists>t\<in>{TPublisher, TSubscriber1, TSubscriber2, TSubscriber3}. \<not> turn_idle r t")
  case True
  then obtain t where "t \<in> {TPublisher, TSubscriber1, TSubscriber2, TSubscriber3}" "\<not> turn_idle r t" by blast
  then show ?thesis by (intro exI[of _ t]) (auto simp only: rx_legal_one)
next
  case False
  then have "dom (im_get (rx_manuals r)) \<noteq> {}" using w by (auto simp: turn_idle_def rx_weight_def)
  then obtain i m where m: "im_get (rx_manuals r) i = Some m" by blast
  show ?thesis
  proof (cases "xm_queue m")
    case Nil
    have "xm_sources m = []"
      using inv m no unfolding rx_inv_def manuals_inv_def by fastforce
    then show ?thesis using m Nil
      by (intro exI[of _ "TManualEmpty i"]) (simp add: rx_legal_one turn_idle_def xm_is_empty_def del: rx_turns_legal.simps)
  next
    case (Cons out q)
    then show ?thesis using m
      by (intro exI[of _ "TManual i"]) (simp add: rx_legal_one turn_idle_def del: rx_turns_legal.simps)
  qed
qed

lemma cr_busy_turn:
  assumes inv: "cr_inv x T r" and ab: "abandoned r" and w: "cr_weight r \<noteq> 0"
  shows "\<exists>t. cr_turns_legal r [t] \<and> turn_busy r t"
proof (cases "rx_weight (cr_audio_mixer r) = 0")
  case True
  with w have "\<exists>t\<in>{RMetadata, RMediaTrack [Publisher, Subscriber], RMessageChannel [Publisher, Subscriber]}. turn_busy r t"
    by (auto simp: turn_busy_def half_busy_def cr_weight_def)
  moreover have "cr_turns_legal r [t]" if "t \<in> {RMetadata, RMediaTrack [Publisher, Subscriber], RMessageChannel [Publisher, Subscriber]}" for t
    using that by (auto simp only: cr_legal_one)
  ultimately show ?thesis by blast
next
  case False
  have "cr_users r = {}" using inv ab by (auto simp: cr_inv_def abandoned_def)
  then have "rx_manual_mode (cr_audio_mixer r) = []" unfolding cr_users_def by (simp add: dom_Nil_iff)
  then obtain t where "rx_turns_legal (cr_audio_mixer r) [t]" "\<not> turn_idle (cr_audio_mixer r) t"
    using rx_busy_turn False inv unfolding cr_inv_defs by blast
  then show ?thesis by (intro exI[of _ "RAudioMixer [t]"]) (simp add: cr_legal_one turn_busy_def del: cr_turns_legal.simps)
qed

section \<open>Draining\<close>

fun cr_polls :: "('e, 'w, 'fb) cluster_room \<Rightarrow> room_turn list list \<Rightarrow> ('e, 'w, 'fb) cluster_room res" where
  "cr_polls r [] = Inr r"
| "cr_polls r (turns # polls) = res_bind (cr_pop_output r turns) (\<lambda>(r1, out). cr_polls r1 polls)"

text \<open>Polls that name some part with something to say, as long as there is one.\<close>

fun polls_fair :: "('e, 'w, 'fb) cluster_room \<Rightarrow> room_turn list list \<Rightarrow> bool" where
  "polls_fair r [] = True"
| "polls_fair r (turns # polls) =
     (cr_turns_legal r turns \<and> (cr_weight r = 0 \<or> (\<exists>t\<in>set turns. turn_busy r t)) \<and>
      (case cr_pop_output r turns of Inl e \<Rightarrow> True | Inr (r1, out) \<Rightarrow> polls_fair r1 polls))"

lemma fair_polls_drain:
  assumes "cr_inv x T r" "polls_fair r polls" "cr_weight r \<le> length polls"
  shows "\<exists>r1. cr_polls r polls = Inr r1 \<and> cr_inv x T r1 \<and> cr_same r1 r \<and> cr_weight r1 = 0"
  using assms
proof (induction polls arbitrary: r)
  case Nil
  then show ?case by (simp add: cr_same_def)
next
  case (Cons turns polls)
  obtain r1 out where p: "cr_pop_output r turns = Inr (r1, out)" "cr_inv x T r1" "cr_same r1 r" "cr_weight r1 \<le> cr_weight r"
      "(\<exists>t\<in>set turns. turn_busy r t) \<longrightarrow> cr_weight r1 < cr_weight r"
    using cr_pop_ok[OF Cons.prems(1), of turns] Cons.prems(2) by auto
  have "cr_weight r1 \<le> length polls" using p(4,5) Cons.prems(2,3) by auto
  then obtain r2 where "cr_polls r1 polls = Inr r2" "cr_inv x T r2" "cr_same r2 r1" "cr_weight r2 = 0"
    using Cons.IH[OF p(2)] Cons.prems(2) p(1) by auto
  then show ?case using p(1,3) by (auto simp: cr_same_def)
qed

lemma fair_polls_exist:
  assumes "cr_inv x T r" "abandoned r"
  shows "\<exists>polls. polls_fair r polls \<and> length polls = n"
  using assms
proof (induction n arbitrary: r)
  case (Suc n)
  obtain turns where t: "cr_turns_legal r turns" "cr_weight r = 0 \<or> (\<exists>t\<in>set turns. turn_busy r t)"
  proof (cases "cr_weight r = 0")
    case True
    then show ?thesis using that[of "[]"] by simp
  next
    case False
    from cr_busy_turn[OF Suc.prems False] obtain t where "cr_turns_legal r [t]" "turn_busy r t" by blast
    then show ?thesis using that[of "[t]"] by simp
  qed
  obtain r1 out where p: "cr_pop_output r turns = Inr (r1, out)" "cr_inv x T r1" "cr_same r1 r"
    using cr_pop_ok[OF Suc.prems(1) t(1)] by blast
  then have "abandoned r1" using Suc.prems(2) by (simp add: abandoned_def cr_same_def)
  from Suc.IH[OF p(2) this] obtain polls where "polls_fair r1 polls" "length polls = n" by blast
  then show ?case using t p(1) by (intro exI[of _ "turns # polls"]) simp
qed (use exI[of _ "[]"] in simp)

definition demo_join :: endpoint_control where
  "demo_join = CtlJoin ''a'' demo_meta \<lparr>rp_peer = True, rp_tracks = True\<rparr> \<lparr>rs_peers = True, rs_tracks = False\<rparr> None"

lemma demo_ids: "ids_ok demo_ext 9 {}"
  by (simp add: ids_ok_def tracks_map_def peers_map_def)

section \<open>Properties\<close>

text \<open>C12: a room whose endpoints have left and whose tracks have ended is always cleaned up: after at most as
  many polls as it has commands queued and manual mixers left, each naming a part that has something to
  say, it is empty, so that the node drops it; and such polls always exist.\<close>

theorem abandoned_room_drains:
  assumes "ids_ok x room T" "room_reach x T room r" "abandoned r"
  shows "(\<forall>polls. polls_fair r polls \<and> cr_weight r \<le> length polls \<longrightarrow> (\<exists>r1. cr_polls r polls = Inr r1 \<and> cr_is_empty r1)) \<and>
    (\<exists>polls. polls_fair r polls \<and> length polls = cr_weight r)"
proof -
  have inv: "cr_inv x T r" using room_reach_inv[OF assms(2,1)] by blast
  have "\<exists>r1. cr_polls r polls = Inr r1 \<and> cr_is_empty r1" if fair: "polls_fair r polls" "cr_weight r \<le> length polls" for polls
  proof -
    obtain r1 where r1: "cr_polls r polls = Inr r1" "cr_inv x T r1" "cr_same r1 r" "cr_weight r1 = 0"
      using fair_polls_drain[OF inv fair] by blast
    have "abandoned r1" using assms(3) r1(3) by (simp add: abandoned_def cr_same_def)
    then show ?thesis using r1 cr_drained by blast
  qed
  then show ?thesis using fair_polls_exist[OF inv assms(3)] by blast
qed

definition demo_joined :: "(nat, demo_wire, nat \<times> nat) cluster_room" where
  "demo_joined = (cr_new demo_ext 0 9)\<lparr>cr_metadata := (md_new 9)\<lparr>md_peers := [(1, \<lparr>pe_peer = ''a'',
       pe_publish = \<lparr>rp_peer = True, rp_tracks = True\<rparr>, pe_sub_peers = [], pe_pub_tracks = []\<rparr>)], md_peers_map_subscribers := [1],
     md_queue := [Kv 9 (KvSet (peers_key demo_ext ''a'') (WPeer \<lparr>pi_peer = ''a'', pi_meta = demo_meta\<rparr>)), Kv 9 KvSub]\<rparr>\<rparr>"

definition demo_left :: "(nat, demo_wire, nat \<times> nat) cluster_room" where
  "demo_left = demo_joined\<lparr>cr_metadata := (md_new 9)\<lparr>md_queue := [Kv 9 (KvSet (peers_key demo_ext ''a'')
     (WPeer \<lparr>pi_peer = ''a'', pi_meta = demo_meta\<rparr>)), Kv 9 KvSub, Kv 9 (KvDel (peers_key demo_ext ''a'')), Kv 9 KvUnsub]\<rparr>\<rparr>"

lemma demo_left_reach: "room_reach demo_ext {} 9 demo_left"
proof -
  have "call_pre {} (cr_new demo_ext 0 9) (RoomInput 0 5 (InEndpoint (1 :: nat) demo_join))"
    by (simp add: call_pre_def input_pre_def ctl_pre_def demo_join_def join_pre_def cr_new_def md_new_def rx_new_def)
  moreover have "cr_call demo_ext (cr_new demo_ext 0 9) (RoomInput 0 5 (InEndpoint (1 :: nat) demo_join)) = Inr demo_joined"
    by (simp add: cr_call_def cr_on_event_def cr_on_endpoint_control_def demo_join_def rx_on_join_def demo_joined_def cr_new_def
        md_on_join_def md_new_def md_emit_def is_insert_def peers_map_def demo_ext_def Let_def)
  ultimately have 1: "room_reach demo_ext {} 9 demo_joined" by (rule room_step[OF room_start])
  have "cr_call demo_ext demo_joined (RoomInput 0 5 (InEndpoint (1 :: nat) CtlLeave)) = Inr demo_left"
    by (simp add: cr_call_def cr_on_event_def cr_on_endpoint_control_def demo_joined_def demo_left_def cr_new_def rx_on_leave_def
        rx_new_def md_on_leave_def md_new_def md_emit_def is_swap_remove_def swap_remove_at_def im_swap_remove_def peers_map_def
        rc_on_leave_def rc_new_def mp_on_leave_def ms_on_leave_def mp_new_def ms_new_def Let_def)
  then show ?thesis by (rule room_step[OF 1, rotated]) (simp add: call_pre_def input_pre_def ctl_pre_def)
qed

theorem abandoned_room_drains_witness:
  "(\<exists>r1. cr_polls demo_left (replicate 4 [RMetadata]) = Inr r1 \<and> cr_is_empty r1) \<and>
   (\<exists>polls. polls_fair demo_left polls \<and> length polls = cr_weight demo_left)"
proof -
  have ab: "abandoned demo_left"
    by (simp add: abandoned_def demo_left_def demo_joined_def cr_new_def md_new_def mt_new_def tp_new_def ts_sub_new_def)
  have w: "cr_weight demo_left = 4"
    by (simp add: cr_weight_def demo_left_def demo_joined_def cr_new_def mt_new_def tp_new_def ts_sub_new_def rx_weight_def rx_new_def
        xp_new_def xs_new_def rc_new_def mp_new_def ms_new_def)
  have "polls_fair demo_left (replicate 4 [RMetadata])"
    by (simp add: eval_nat_numeral demo_left_def turn_busy_def md_pop_output_def)
  with w have "polls_fair demo_left (replicate 4 [RMetadata]) \<and> cr_weight demo_left \<le> length (replicate 4 [RMetadata])" by simp
  then show ?thesis using abandoned_room_drains[OF demo_ids demo_left_reach ab] by blast
qed

end
