(* ===== verification/Node_Contract.thy ===== *)
theory Node_Contract
  imports Room_Contract
begin

text \<open>
  All rooms of a node (\<open>cluster.rs\<close>): the table from room hashes to the indices of the task group and the
  group itself name the same rooms, and each room is one a lone room could have become. Shown: no legal
  sequence of calls makes the node panic, and a call does to a room what that room alone would do.
\<close>

section \<open>The rooms of a node\<close>

text \<open>The group of rooms gives a new room an index not in use and reports a room empty only when it is.\<close>

datatype ('e, 'w, 'fb) cluster_call = McTick nat | McSdn nat nat room_feature "('w, 'fb) features_event"
  | McControl nat nat nat 'e nat endpoint_control | McPoll rooms_turn | McShutdown

definition mc_call :: "('w, 'fb) externals \<Rightarrow> ('e, 'w, 'fb) media_cluster \<Rightarrow> ('e, 'w, 'fb) cluster_call \<Rightarrow> ('e, 'w, 'fb) media_cluster res" where
  "mc_call x c call =
     (case call of
        McTick now \<Rightarrow> mc_on_tick c now
      | McSdn now room feature event \<Rightarrow> mc_on_sdn_event x c now room feature event
      | McControl room_index new_index now e room control \<Rightarrow> mc_on_endpoint_control x c room_index new_index now e room control
      | McPoll turn \<Rightarrow> res_bind (mc_pop_output c turn) (\<lambda>(c1, out). Inr c1)
      | McShutdown \<Rightarrow> Inr (mc_shutdown_all c))"

definition room_of :: "('e, 'w, 'fb) media_cluster \<Rightarrow> nat \<Rightarrow> ('e, 'w, 'fb) cluster_room option" where
  "room_of c h = Option.bind (im_get (mc_rooms_map c) h) (im_get (mc_rooms c))"

definition mc_pre :: "('w, 'fb) externals \<Rightarrow> peer_id set \<Rightarrow> ('e, 'w, 'fb) media_cluster \<Rightarrow> ('e, 'w, 'fb) cluster_call \<Rightarrow> bool" where
  "mc_pre x T c call =
     (case call of
        McTick now \<Rightarrow> True
      | McSdn now h feature event \<Rightarrow> (case room_of c h of None \<Rightarrow> True | Some r \<Rightarrow> call_pre T r (RoomInput 0 now (InSdn feature event)))
      | McControl room_index new_index now e h control \<Rightarrow>
          (case room_of c h of
             None \<Rightarrow> ids_ok x h T \<and> im_get (mc_rooms c) room_index = None \<and>
               call_pre T (cr_new x now h) (RoomInput new_index now (InEndpoint e control))
           | Some r \<Rightarrow> call_pre T r (RoomInput new_index now (InEndpoint e control)))
      | McPoll (RoomTurn i turns) \<Rightarrow> (case im_get (mc_rooms c) i of None \<Rightarrow> True | Some r \<Rightarrow> call_pre T r (RoomPoll turns))
      | McPoll (RoomEmpty i) \<Rightarrow> (case im_get (mc_rooms c) i of None \<Rightarrow> True | Some r \<Rightarrow> cr_is_empty r)
      | McPoll GroupEmpty \<Rightarrow> mc_rooms c = []
      | McShutdown \<Rightarrow> True)"

text \<open>The two tables of the node name the same rooms, and every room is one a lone room could have become.\<close>

definition mc_inv :: "('w, 'fb) externals \<Rightarrow> peer_id set \<Rightarrow> ('e, 'w, 'fb) media_cluster \<Rightarrow> bool" where
  "mc_inv x T c \<longleftrightarrow> im_wf (mc_rooms_map c) \<and> im_wf (mc_rooms c) \<and>
     (\<forall>h i. im_get (mc_rooms_map c) h = Some i \<longrightarrow> (\<exists>r. im_get (mc_rooms c) i = Some r \<and> cr_room r = h)) \<and>
     (\<forall>i r. im_get (mc_rooms c) i = Some r \<longrightarrow>
        im_get (mc_rooms_map c) (cr_room r) = Some i \<and> ids_ok x (cr_room r) T \<and> room_reach x T (cr_room r) r)"

lemma mc_inv_default: "mc_inv x T mc_default"
  by (simp add: mc_inv_def mc_default_def)

lemma mc_inv_room:
  assumes "mc_inv x T c" "im_get (mc_rooms c) i = Some r"
  shows "cr_inv x T r" "im_get (mc_rooms_map c) (cr_room r) = Some i" "room_reach x T (cr_room r) r" "ids_ok x (cr_room r) T"
    "room_of c (cr_room r) = Some r"
proof -
  show 1: "im_get (mc_rooms_map c) (cr_room r) = Some i" "room_reach x T (cr_room r) r" "ids_ok x (cr_room r) T"
    using assms unfolding mc_inv_def by blast+
  show "cr_inv x T r" using room_reach_inv[OF 1(2,3)] by blast
  show "room_of c (cr_room r) = Some r" using 1(1) assms(2) by (simp add: room_of_def)
qed

lemma mc_inv_map:
  assumes "mc_inv x T c" "im_get (mc_rooms_map c) h = Some i"
  obtains r where "im_get (mc_rooms c) i = Some r" "cr_room r = h" "room_of c h = Some r"
  using assms unfolding mc_inv_def room_of_def by (metis bind.bind_lunit)

text \<open>A call for the room at an index is a call of that room and of no other.\<close>

lemma mc_room_step:
  assumes inv: "mc_inv x T c" and r: "im_get (mc_rooms c) i = Some r" and pre: "call_pre T r call" and run: "cr_call x r call = Inr r1"
  shows "mc_inv x T (c\<lparr>mc_rooms := im_insert (mc_rooms c) i r1\<rparr>)"
    "room_of (c\<lparr>mc_rooms := im_insert (mc_rooms c) i r1\<rparr>) = (room_of c)(cr_room r \<mapsto> r1)"
proof -
  note R = mc_inv_room[OF inv r]
  have r1: "cr_room r1 = cr_room r" using cr_call_ok[OF R(1) pre] run by (auto simp: cr_ok_def)
  have idx: "j = i \<longleftrightarrow> h = cr_room r" if "im_get (mc_rooms_map c) h = Some j" for h j
    using mc_inv_map[OF inv that] R(2) r that by (metis option.inject)
  have "room_reach x T (cr_room r) r1" by (rule room_step[OF R(3) pre run])
  then show "mc_inv x T (c\<lparr>mc_rooms := im_insert (mc_rooms c) i r1\<rparr>)"
    using inv R(2,4) r r1 idx unfolding mc_inv_def by (auto split: if_splits)
  show "room_of (c\<lparr>mc_rooms := im_insert (mc_rooms c) i r1\<rparr>) = (room_of c)(cr_room r \<mapsto> r1)"
  proof
    fix h
    show "room_of (c\<lparr>mc_rooms := im_insert (mc_rooms c) i r1\<rparr>) h = ((room_of c)(cr_room r \<mapsto> r1)) h"
      using R(2) idx[of h] by (cases "im_get (mc_rooms_map c) h") (auto simp: room_of_def)
  qed
qed

lemma rooms_tick_ok:
  assumes "\<forall>p\<in>set rooms. cr_inv x T (snd p)"
  shows "\<exists>rooms1. rooms_tick now rooms = Inr rooms1 \<and> im_keys rooms1 = im_keys rooms \<and>
    (\<forall>i. case im_get rooms i of None \<Rightarrow> im_get rooms1 i = None
       | Some r \<Rightarrow> \<exists>r1. im_get rooms1 i = Some r1 \<and> cr_on_tick r now = Inr r1)"
  using assms
proof (induction rooms)
  case (Cons p rooms)
  obtain i r where p: "p = (i, r)" by (cases p)
  then obtain r1 where r1: "cr_on_tick r now = Inr r1" using cr_tick_ok[of x T r now] Cons.prems by (auto simp: cr_ok_def)
  from Cons obtain rooms1 where t: "rooms_tick now rooms = Inr rooms1" "im_keys rooms1 = im_keys rooms"
      "\<forall>i. case im_get rooms i of None \<Rightarrow> im_get rooms1 i = None
         | Some r \<Rightarrow> \<exists>r1. im_get rooms1 i = Some r1 \<and> cr_on_tick r now = Inr r1" by auto
  have "case im_get (p # rooms) j of None \<Rightarrow> im_get ((i, r1) # rooms1) j = None
      | Some r \<Rightarrow> \<exists>r1a. im_get ((i, r1) # rooms1) j = Some r1a \<and> cr_on_tick r now = Inr r1a" for j
    using t(3)[rule_format, of j] p r1 by (cases "j = i") (auto split: option.splits)
  then show ?case using p r1 t(1,2) by (intro exI[of _ "(i, r1) # rooms1"]) simp
qed simp

lemma mc_tick_ok:
  assumes inv: "mc_inv x T c"
  shows "\<exists>c1. mc_on_tick c now = Inr c1 \<and> mc_inv x T c1 \<and>
    (\<forall>h. case room_of c h of None \<Rightarrow> room_of c1 h = None | Some r \<Rightarrow> \<exists>r1. room_of c1 h = Some r1 \<and> cr_on_tick r now = Inr r1)"
proof -
  have wf: "im_wf (mc_rooms c)" "im_wf (mc_rooms_map c)" using inv by (simp_all add: mc_inv_def)
  have "cr_inv x T (snd p)" if "p \<in> set (mc_rooms c)" for p
    using mc_inv_room(1)[OF inv, of "fst p" "snd p"] that wf(1) by (simp add: im_wf_def)
  then obtain rooms where t: "rooms_tick now (mc_rooms c) = Inr rooms" "im_keys rooms = im_keys (mc_rooms c)"
      "\<And>i. case im_get (mc_rooms c) i of None \<Rightarrow> im_get rooms i = None
       | Some r \<Rightarrow> \<exists>r1. im_get rooms i = Some r1 \<and> cr_on_tick r now = Inr r1"
    using rooms_tick_ok[of "mc_rooms c" x T now] by blast
  have new: "\<exists>r1. im_get rooms i = Some r1 \<and> cr_on_tick r now = Inr r1 \<and> cr_room r1 = cr_room r \<and> room_reach x T (cr_room r) r1"
    if r: "im_get (mc_rooms c) i = Some r" for i r
  proof -
    note R = mc_inv_room[OF inv r]
    obtain r1 where r1: "im_get rooms i = Some r1" "cr_on_tick r now = Inr r1" using t(3)[of i] r by auto
    have "cr_room r1 = cr_room r" using cr_tick_ok[OF R(1), of now] r1(2) by (auto simp: cr_ok_def)
    moreover have "room_reach x T (cr_room r) r1"
      using room_step[OF R(3), of "RoomTick now" r1] r1(2) by (simp add: call_pre_def cr_call_def)
    ultimately show ?thesis using r1 by blast
  qed
  have old: "\<exists>r. im_get (mc_rooms c) i = Some r \<and> cr_on_tick r now = Inr r1" if "im_get rooms i = Some r1" for i r1
    using t(3)[of i] that by (cases "im_get (mc_rooms c) i") auto
  let ?c = "c\<lparr>mc_rooms := rooms\<rparr>"
  have "mc_inv x T ?c"
    unfolding mc_inv_def
  proof (intro conjI allI impI)
    show "im_wf (mc_rooms ?c)" "im_wf (mc_rooms_map ?c)" using wf t(2) by (simp_all add: im_wf_def)
    show "\<exists>r. im_get (mc_rooms ?c) i = Some r \<and> cr_room r = h" if m: "im_get (mc_rooms_map ?c) h = Some i" for h i
    proof -
      obtain r where "im_get (mc_rooms c) i = Some r" "cr_room r = h" using mc_inv_map[OF inv, of h i] m by auto
      then show ?thesis using new by fastforce
    qed
    show "im_get (mc_rooms_map ?c) (cr_room r1) = Some i" "ids_ok x (cr_room r1) T" "room_reach x T (cr_room r1) r1"
      if r1: "im_get (mc_rooms ?c) i = Some r1" for i r1
    proof -
      obtain r where r: "im_get (mc_rooms c) i = Some r" using old r1 by auto
      then have "cr_room r1 = cr_room r" "room_reach x T (cr_room r) r1" using new[OF r] r1 by auto
      then show "im_get (mc_rooms_map ?c) (cr_room r1) = Some i" "ids_ok x (cr_room r1) T" "room_reach x T (cr_room r1) r1"
        using mc_inv_room(2,4)[OF inv r] by simp_all
    qed
  qed
  moreover have "case room_of c h of None \<Rightarrow> room_of ?c h = None | Some r \<Rightarrow> \<exists>r1. room_of ?c h = Some r1 \<and> cr_on_tick r now = Inr r1" for h
  proof (cases "im_get (mc_rooms_map c) h")
    case (Some i)
    then show ?thesis using t(3)[of i] by (simp add: room_of_def split: option.splits)
  qed (simp add: room_of_def)
  ultimately show ?thesis using t(1) by (auto simp: mc_on_tick_def)
qed

text \<open>The event for one room of the group.\<close>

lemma rooms_event_ok:
  assumes inv: "mc_inv x T c" and r: "im_get (mc_rooms c) i = Some r" and pre: "call_pre T r (RoomInput new_index now input)"
  shows "\<exists>c1 r1. rooms_event x c new_index now i input = Inr c1 \<and> mc_inv x T c1 \<and> cr_on_event x r new_index now input = Inr r1 \<and>
    room_of c1 = (room_of c)(cr_room r \<mapsto> r1)"
proof -
  obtain r1 where "cr_call x r (RoomInput new_index now input) = Inr r1"
    using cr_call_ok[OF mc_inv_room(1)[OF inv r] pre] by (auto simp: cr_ok_def)
  then show ?thesis using mc_room_step[OF inv r pre] r by (auto simp: rooms_event_def cr_call_def)
qed

text \<open>A room for a hash that has none yet.\<close>

lemma mc_new_room:
  assumes inv: "mc_inv x T c" and no: "room_of c h = None" "im_get (mc_rooms c) i = None" and ids: "ids_ok x h T"
    and c1: "c1 = c\<lparr>mc_rooms := im_insert (mc_rooms c) i (cr_new x now h), mc_rooms_map := im_insert (mc_rooms_map c) h i\<rparr>"
  shows "mc_inv x T c1" "room_of c1 = (room_of c)(h \<mapsto> cr_new x now h)"
proof -
  have h: "im_get (mc_rooms_map c) h = None" using no(1) by (metis inv mc_inv_map option.exhaust option.distinct(1))
  have i: "im_get (mc_rooms_map c) h' \<noteq> Some i" for h' using mc_inv_map[OF inv, of h' i] no(2) by auto
  have r: "cr_room r \<noteq> h" if "im_get (mc_rooms c) j = Some r" for j r using mc_inv_room(2)[OF inv that] h by auto
  have "room_reach x T h (cr_new x now h)" "cr_room (cr_new x now h) = h" by (rule room_start) (simp add: cr_new_def)
  then show "mc_inv x T c1"
    using inv h i r no(2) ids unfolding mc_inv_def c1 by (auto split: if_splits)
  show "room_of c1 = (room_of c)(h \<mapsto> cr_new x now h)"
  proof
    fix h'
    show "room_of c1 h' = ((room_of c)(h \<mapsto> cr_new x now h)) h'"
      using i[of h'] h by (cases "im_get (mc_rooms_map c) h'") (auto simp: room_of_def c1)
  qed
qed

text \<open>The room of an index that has become empty.\<close>

lemma mc_drop_room:
  assumes inv: "mc_inv x T c" and r: "im_get (mc_rooms c) i = Some r"
    and c1: "c1 = c\<lparr>mc_rooms_map := im_swap_remove (mc_rooms_map c) (cr_room r), mc_rooms := im_swap_remove (mc_rooms c) i\<rparr>"
  shows "mc_inv x T c1" "room_of c1 = (room_of c)(cr_room r := None)"
proof -
  have wf: "im_wf (mc_rooms c)" "im_wf (mc_rooms_map c)" using inv by (simp_all add: mc_inv_def)
  have m: "im_get (mc_rooms_map c1) = (im_get (mc_rooms_map c))(cr_room r := None)" "im_get (mc_rooms c1) = (im_get (mc_rooms c))(i := None)"
    using wf by (simp_all add: c1)
  note R = mc_inv_room[OF inv r]
  have other: "cr_room r' = cr_room r \<longleftrightarrow> j = i" if "im_get (mc_rooms c) j = Some r'" for j r'
    using mc_inv_room(2)[OF inv that] R(2) r that by (metis option.inject)
  show "mc_inv x T c1"
    unfolding mc_inv_def m
  proof (intro conjI allI impI)
    show "im_wf (mc_rooms_map c1)" "im_wf (mc_rooms c1)" using wf by (simp_all add: c1)
    show "\<exists>r'. ((im_get (mc_rooms c))(i := None)) j = Some r' \<and> cr_room r' = h"
      if "((im_get (mc_rooms_map c))(cr_room r := None)) h = Some j" for h j
    proof -
      have h: "h \<noteq> cr_room r" "im_get (mc_rooms_map c) h = Some j" using that by (auto split: if_splits)
      obtain r' where "im_get (mc_rooms c) j = Some r'" "cr_room r' = h" using mc_inv_map[OF inv h(2)] by blast
      then show ?thesis using h(1) r by auto
    qed
    fix j r'
    assume "((im_get (mc_rooms c))(i := None)) j = Some r'"
    then have j: "j \<noteq> i" "im_get (mc_rooms c) j = Some r'" by (auto split: if_splits)
    then show "((im_get (mc_rooms_map c))(cr_room r := None)) (cr_room r') = Some j" "ids_ok x (cr_room r') T"
      "room_reach x T (cr_room r') r'" using other[OF j(2)] mc_inv_room(2-4)[OF inv j(2)] by simp_all
  qed
  show "room_of c1 = (room_of c)(cr_room r := None)"
  proof
    fix h
    show "room_of c1 h = ((room_of c)(cr_room r := None)) h"
    proof (cases "h = cr_room r")
      case False
      then have "im_get (mc_rooms_map c) h \<noteq> Some i" using mc_inv_map[OF inv, of h i] r by auto
      then show ?thesis using False by (cases "im_get (mc_rooms_map c) h") (auto simp: room_of_def m)
    qed (simp add: room_of_def m)
  qed
qed

text \<open>What a call does to the room of hash \<open>h\<close>, said without the group and its indices: a tick reaches every
  room, an event or control the room it names, which a control creates when there is none; polling changes
  the polled room, and the room reported empty disappears.\<close>

definition room_after ::
  "('w, 'fb) externals \<Rightarrow> ('e, 'w, 'fb) media_cluster \<Rightarrow> ('e, 'w, 'fb) cluster_call \<Rightarrow> nat \<Rightarrow> ('e, 'w, 'fb) cluster_room option res" where
  "room_after x c call h =
     (let via = (\<lambda>rc or. case or of None \<Rightarrow> Inr None | Some r \<Rightarrow> res_bind (cr_call x r rc) (\<lambda>r1. Inr (Some r1))) in
      case call of
        McTick now \<Rightarrow> via (RoomTick now) (room_of c h)
      | McSdn now h1 feature event \<Rightarrow> if h1 = h then via (RoomInput 0 now (InSdn feature event)) (room_of c h) else Inr (room_of c h)
      | McControl room_index new_index now e h1 control \<Rightarrow>
          if h1 = h
          then via (RoomInput new_index now (InEndpoint e control))
                 (case room_of c h of None \<Rightarrow> Some (cr_new x now h) | Some r \<Rightarrow> Some r)
          else Inr (room_of c h)
      | McPoll (RoomTurn i turns) \<Rightarrow> if im_get (mc_rooms_map c) h = Some i then via (RoomPoll turns) (room_of c h) else Inr (room_of c h)
      | McPoll (RoomEmpty i) \<Rightarrow> if im_get (mc_rooms_map c) h = Some i then Inr None else Inr (room_of c h)
      | McPoll GroupEmpty \<Rightarrow> Inr (room_of c h)
      | McShutdown \<Rightarrow> Inr (room_of c h))"

definition mc_ok ::
  "('w, 'fb) externals \<Rightarrow> peer_id set \<Rightarrow> ('e, 'w, 'fb) media_cluster \<Rightarrow> ('e, 'w, 'fb) cluster_call \<Rightarrow> bool" where
  "mc_ok x T c call \<longleftrightarrow> (\<exists>c1. mc_call x c call = Inr c1 \<and> mc_inv x T c1 \<and> (\<forall>h. room_after x c call h = Inr (room_of c1 h)))"

lemma mc_okI: "mc_call x c call = Inr c1 \<Longrightarrow> mc_inv x T c1 \<Longrightarrow> (\<And>h. room_after x c call h = Inr (room_of c1 h)) \<Longrightarrow> mc_ok x T c call"
  unfolding mc_ok_def by blast

lemma mc_index:
  assumes inv: "mc_inv x T c" and r: "im_get (mc_rooms c) i = Some r"
  shows "im_get (mc_rooms_map c) h = Some i \<longleftrightarrow> h = cr_room r"
  using mc_inv_room(2)[OF inv r] mc_inv_map[OF inv, of h i] r by auto

lemma mc_sdn_ok:
  assumes inv: "mc_inv x T c" and pre: "mc_pre x T c (McSdn now h feature event)"
  shows "mc_ok x T c (McSdn now h feature event)"
proof (cases "im_get (mc_rooms_map c) h")
  case None
  then have "room_of c h = None" by (simp add: room_of_def)
  then show ?thesis using inv None by (intro mc_okI[where ?c1.0 = c]) (auto simp: mc_call_def mc_on_sdn_event_def room_after_def)
next
  case (Some i)
  then obtain r where r: "im_get (mc_rooms c) i = Some r" "cr_room r = h" "room_of c h = Some r" using mc_inv_map[OF inv] by blast
  have "call_pre T r (RoomInput 0 now (InSdn feature event))" using pre r(3) by (simp add: mc_pre_def)
  from rooms_event_ok[OF inv r(1) this] obtain c1 r1 where "rooms_event x c 0 now i (InSdn feature event) = Inr c1" "mc_inv x T c1"
      "cr_on_event x r 0 now (InSdn feature event) = Inr r1" "room_of c1 = (room_of c)(h \<mapsto> r1)" using r(2) by blast
  then show ?thesis using Some r(3)
    by (intro mc_okI[where ?c1.0 = c1]) (auto simp: mc_call_def mc_on_sdn_event_def room_after_def cr_call_def)
qed

lemma mc_control_ok:
  assumes inv: "mc_inv x T c" and pre: "mc_pre x T c (McControl room_index new_index now e h control)"
  shows "mc_ok x T c (McControl room_index new_index now e h control)"
proof (cases "im_get (mc_rooms_map c) h")
  case None
  then have no: "room_of c h = None" by (simp add: room_of_def)
  define c0 where "c0 = c\<lparr>mc_rooms := im_insert (mc_rooms c) room_index (cr_new x now h), mc_rooms_map := im_insert (mc_rooms_map c) h room_index\<rparr>"
  have p: "ids_ok x h T" "im_get (mc_rooms c) room_index = None" "call_pre T (cr_new x now h) (RoomInput new_index now (InEndpoint e control))"
    using pre no by (simp_all add: mc_pre_def)
  note new = mc_new_room[OF inv no p(2,1) c0_def]
  have r: "im_get (mc_rooms c0) room_index = Some (cr_new x now h)" "cr_room (cr_new x now h) = h" by (simp_all add: c0_def cr_new_def)
  from rooms_event_ok[OF new(1) r(1) p(3)] obtain c1 r1 where "rooms_event x c0 new_index now room_index (InEndpoint e control) = Inr c1"
      "mc_inv x T c1" "cr_on_event x (cr_new x now h) new_index now (InEndpoint e control) = Inr r1" "room_of c1 = (room_of c0)(h \<mapsto> r1)"
    using r(2) by metis
  then show ?thesis using None no new(2)
    by (intro mc_okI[where ?c1.0 = c1]) (auto simp: mc_call_def mc_on_endpoint_control_def room_after_def cr_call_def c0_def[symmetric])
next
  case (Some i)
  then obtain r where r: "im_get (mc_rooms c) i = Some r" "cr_room r = h" "room_of c h = Some r" using mc_inv_map[OF inv] by blast
  have "call_pre T r (RoomInput new_index now (InEndpoint e control))" using pre r(3) by (simp add: mc_pre_def)
  from rooms_event_ok[OF inv r(1) this] obtain c1 r1 where "rooms_event x c new_index now i (InEndpoint e control) = Inr c1" "mc_inv x T c1"
      "cr_on_event x r new_index now (InEndpoint e control) = Inr r1" "room_of c1 = (room_of c)(h \<mapsto> r1)" using r(2) by blast
  then show ?thesis using Some r(3)
    by (intro mc_okI[where ?c1.0 = c1]) (auto simp: mc_call_def mc_on_endpoint_control_def room_after_def cr_call_def)
qed

lemma mc_poll_ok:
  assumes inv: "mc_inv x T c" and pre: "mc_pre x T c (McPoll turn)"
  shows "mc_ok x T c (McPoll turn)"
proof (cases turn)
  case GroupEmpty
  then show ?thesis using inv by (intro mc_okI[where ?c1.0 = c]) (simp_all add: mc_call_def mc_pop_output_def room_after_def)
next
  case (RoomEmpty i)
  show ?thesis
  proof (cases "im_get (mc_rooms c) i")
    case None
    then have "im_get (mc_rooms_map c) h \<noteq> Some i" for h using mc_inv_map[OF inv, of h i] by auto
    then show ?thesis using inv None RoomEmpty
      by (intro mc_okI[where ?c1.0 = c]) (simp_all add: mc_call_def mc_pop_output_def room_after_def)
  next
    case (Some r)
    note d = mc_drop_room[OF inv Some refl]
    have "room_after x c (McPoll turn) h = Inr (((room_of c)(cr_room r := None)) h)" for h
      using RoomEmpty mc_index[OF inv Some, of h] by (simp add: room_after_def)
    then show ?thesis using RoomEmpty Some d mc_inv_room(2)[OF inv Some]
      by (intro mc_okI[OF _ d(1)]) (simp_all add: mc_call_def mc_pop_output_def)
  qed
next
  case (RoomTurn i turns)
  show ?thesis
  proof (cases "im_get (mc_rooms c) i")
    case None
    then have "im_get (mc_rooms_map c) h \<noteq> Some i" for h using mc_inv_map[OF inv, of h i] by auto
    then show ?thesis using inv None RoomTurn
      by (intro mc_okI[where ?c1.0 = c]) (simp_all add: mc_call_def mc_pop_output_def room_after_def)
  next
    case (Some r)
    have p: "call_pre T r (RoomPoll turns)" using pre RoomTurn Some by (simp add: mc_pre_def)
    note R = mc_inv_room[OF inv Some]
    obtain r1 out where r1: "cr_pop_output r turns = Inr (r1, out)" using cr_pop_ok[OF R(1), of turns] p by (auto simp: call_pre_def)
    then have "cr_call x r (RoomPoll turns) = Inr r1" by (simp add: cr_call_def)
    note s = mc_room_step[OF inv Some p this]
    show ?thesis using RoomTurn Some r1 s R(5) mc_index[OF inv Some]
      by (intro mc_okI[OF _ s(1)]) (simp_all add: mc_call_def mc_pop_output_def room_after_def cr_call_def)
  qed
qed

lemma mc_step_ok:
  assumes inv: "mc_inv x T c" and pre: "mc_pre x T c call"
  shows "mc_ok x T c call"
proof (cases call)
  case (McTick now)
  obtain c1 where t: "mc_on_tick c now = Inr c1" "mc_inv x T c1" "\<And>h. case room_of c h of None \<Rightarrow> room_of c1 h = None
      | Some r \<Rightarrow> \<exists>r1. room_of c1 h = Some r1 \<and> cr_on_tick r now = Inr r1" using mc_tick_ok[OF inv, of now] by blast
  have "room_after x c call h = Inr (room_of c1 h)" for h
    using t(3)[of h] McTick by (auto simp: room_after_def cr_call_def split: option.splits)
  then show ?thesis using t(1,2) McTick by (intro mc_okI) (simp_all add: mc_call_def)
next
  case McShutdown
  have "room_of (mc_shutdown_all c) = room_of c" "mc_inv x T (mc_shutdown_all c)"
    using inv by (simp_all add: mc_shutdown_all_def room_of_def[abs_def] mc_inv_def)
  then show ?thesis using McShutdown by (intro mc_okI[where ?c1.0 = "mc_shutdown_all c"]) (simp_all add: mc_call_def room_after_def)
qed (use pre mc_sdn_ok[OF inv] mc_control_ok[OF inv] mc_poll_ok[OF inv] in simp_all)

inductive node_reach :: "('w, 'fb) externals \<Rightarrow> peer_id set \<Rightarrow> ('e, 'w, 'fb) media_cluster \<Rightarrow> bool" for x T where
  node_start: "node_reach x T mc_default"
| node_step: "node_reach x T c \<Longrightarrow> mc_pre x T c call \<Longrightarrow> mc_call x c call = Inr c1 \<Longrightarrow> node_reach x T c1"

lemma node_reach_inv: "node_reach x T c \<Longrightarrow> mc_inv x T c"
proof (induction rule: node_reach.induct)
  case (node_step c call c1)
  then show ?case using mc_step_ok[of x T c call] by (auto simp: mc_ok_def)
qed (rule mc_inv_default)

lemma demo_join_pre: "mc_pre demo_ext {} mc_default (McControl 0 0 5 (1 :: nat) 9 demo_join)"
  using demo_ids
  by (simp add: mc_pre_def room_of_def mc_default_def call_pre_def input_pre_def ctl_pre_def demo_join_def join_pre_def
      cr_new_def md_new_def rx_new_def)

section \<open>Properties\<close>

text \<open>C1: whatever endpoints, overlay and timer do to a node, in any order and interleaved with polling, as long
  as each call respects its contract, no assertion, \<open>expect\<close> or \<open>unreachable\<close> of its rooms, of their audio
  mixers, tracks, message channels and metadata, or of the table of rooms fails.\<close>

theorem node_never_panics:
  assumes "node_reach x T c" "mc_pre x T c call"
  shows "\<exists>c1. mc_call x c call = Inr c1"
  using mc_step_ok[OF node_reach_inv[OF assms(1)] assms(2)] by (auto simp: mc_ok_def)

theorem node_never_panics_witness: "\<exists>c1. mc_call demo_ext mc_default (McControl 0 0 5 (1 :: nat) 9 demo_join) = Inr c1"
  by (rule node_never_panics[OF node_start demo_join_pre])

text \<open>C7: a node is nothing but its rooms: seen through the table of rooms, every call does to each room what
  that room alone would do with the event addressed to it, creates a room exactly for a control that finds
  none, drops the one reported empty, and leaves every other room as it was. So rooms do not disturb each
  other, and each is in a state a lone room reaches.\<close>

theorem node_refines_rooms:
  assumes "node_reach x T c" "mc_pre x T c call" "mc_call x c call = Inr c1"
  shows "room_after x c call h = Inr (room_of c1 h) \<and> (case room_of c1 h of None \<Rightarrow> True | Some r \<Rightarrow> cr_room r = h \<and> room_reach x T h r)"
proof -
  have c1: "mc_inv x T c1" "room_after x c call h = Inr (room_of c1 h)"
    using mc_step_ok[OF node_reach_inv[OF assms(1)] assms(2)] assms(3) by (auto simp: mc_ok_def)
  have "cr_room r = h \<and> room_reach x T h r" if room: "room_of c1 h = Some r" for r
  proof -
    obtain i where i: "im_get (mc_rooms_map c1) h = Some i" using room by (cases "im_get (mc_rooms_map c1) h") (simp_all add: room_of_def)
    obtain r' where "im_get (mc_rooms c1) i = Some r'" "cr_room r' = h" "room_of c1 h = Some r'" using mc_inv_map[OF c1(1) i] by blast
    then show ?thesis using mc_inv_room(3)[OF c1(1)] room by fastforce
  qed
  then show ?thesis using c1(2) by (auto split: option.split)
qed

theorem node_refines_rooms_witness:
  "\<exists>c1. mc_call demo_ext mc_default (McControl 0 0 5 (1 :: nat) 9 demo_join) = Inr c1 \<and>
    room_after demo_ext mc_default (McControl 0 0 5 (1 :: nat) 9 demo_join) 9 = Inr (room_of c1 9) \<and>
    (case room_of c1 9 of None \<Rightarrow> True | Some r \<Rightarrow> cr_room r = 9 \<and> room_reach demo_ext {} 9 r)"
proof -
  obtain c1 where c1: "mc_call demo_ext mc_default (McControl 0 0 5 (1 :: nat) 9 demo_join) = Inr c1"
    using mc_step_ok[OF mc_inv_default demo_join_pre] by (auto simp: mc_ok_def)
  from node_refines_rooms[OF node_start demo_join_pre c1, of 9] c1 show ?thesis by blast
qed

end
