(* ===== verification/Endpoint_Types.thy ===== *)
theory Endpoint_Types
  imports Cluster_Room Packet_Selector Bitrate_Allocator
begin

text \<open>
  The vocabulary of an endpoint: requests, answers and events exchanged with the transport
  (\<open>packages/media_core/src/endpoint.rs\<close>, \<open>transport.rs\<close>, \<open>errors.rs\<close>), the events reported to the
  connector and the recorder (\<open>protobuf/cluster_connector.rs\<close>, \<open>record.rs\<close>, the variants the endpoint
  builds), and the two-way map of track identifiers to task indices (\<open>media_utils/indexmap_2d.rs\<close>).
  An \<open>Instant\<close> is the number of milliseconds the timers give for it; an address is its printed form.
\<close>

section \<open>Errors, requests and answers\<close>

datatype endpoint_errors = EndpointNotInRoom | LocalTrackNotPinSource | LocalTrackInvalidPriority
  | RemoteTrackInvalidPriority | RemoteTrackStopped | AudioMixerWrongMode | Destroying

type_synonym rpc_result = "endpoint_errors + unit"
type_synonym req_id = nat
type_synonym room_id = string
type_synonym app_id = string
type_synonym priority = "32 word"

record endpoint_remote_track_config =
  rtc_priority :: priority
  rtc_control :: bitrate_control_mode

datatype endpoint_remote_track_req = RtReqConfig endpoint_remote_track_config

datatype endpoint_remote_track_res = RtResConfig rpc_result

record endpoint_local_track_config =
  ltc_priority :: priority
  ltc_max_spatial :: nat
  ltc_max_temporal :: nat
  ltc_min_spatial :: "nat option"
  ltc_min_temporal :: "nat option"

datatype endpoint_local_track_req = LtReqAttach track_source endpoint_local_track_config | LtReqDetach
  | LtReqConfig endpoint_local_track_config

datatype endpoint_local_track_res = LtResAttach rpc_result | LtResDetach rpc_result | LtResConfig rpc_result

datatype endpoint_audio_mixer_req = MixReqAttach "track_source list" | MixReqDetach "track_source list"

datatype endpoint_audio_mixer_res = MixResAttach rpc_result | MixResDetach rpc_result

datatype endpoint_message_channel_req = McReqSubscribe | McReqUnsubscribe | McReqStartPublish | McReqStopPublish
  | McReqPublishData "nat list"

datatype endpoint_message_channel_res = McResSubscribe rpc_result | McResUnsubscribe rpc_result
  | McResStartPublish rpc_result | McResStopPublish rpc_result | McResPublishData rpc_result

datatype endpoint_req =
    ReqJoinRoom room_id peer_id peer_meta room_info_publish room_info_subscribe "audio_mixer_config option"
  | ReqLeaveRoom | ReqSubscribePeer peer_id | ReqUnsubscribePeer peer_id | ReqAudioMixer endpoint_audio_mixer_req
  | ReqRemoteTrack remote_track_id endpoint_remote_track_req | ReqLocalTrack local_track_id endpoint_local_track_req
  | ReqMessageChannel channel_label endpoint_message_channel_req

datatype endpoint_res = ResJoinRoom rpc_result | ResLeaveRoom rpc_result | ResSubscribePeer rpc_result
  | ResUnsubscribePeer rpc_result | ResAudioMixer endpoint_audio_mixer_res
  | ResRemoteTrack remote_track_id endpoint_remote_track_res | ResLocalTrack local_track_id endpoint_local_track_res
  | ResMessageChannel channel_label endpoint_message_channel_res

section \<open>Events\<close>

datatype receiver_status = RecvWaiting | RecvActive | RecvInactive

datatype endpoint_local_track_event = LteMedia media_packet | LteStatus receiver_status | LteVoiceActivity int

datatype endpoint_remote_track_event = RteRequestKeyFrame | RteLimitBitrateBps nat nat

datatype endpoint_audio_mixer_event = MixSlotSet nat peer_id track_name | MixSlotUnset nat

datatype transport_endpoint_event = EvPeerJoined peer_id peer_meta | EvPeerLeaved peer_id peer_meta
  | EvPeerTrackStarted peer_id track_name track_meta | EvPeerTrackStopped peer_id track_name track_meta
  | EvAudioMixer endpoint_audio_mixer_event | EvRemoteMediaTrack remote_track_id endpoint_remote_track_event
  | EvLocalMediaTrack local_track_id endpoint_local_track_event | EvBweConfig nat nat | EvGoAway nat "string option"
  | EvChannelMessage channel_label peer_id "nat list"

datatype peer_event = PeConnecting string | PeConnectError nat nat | PeConnected nat string | PeReconnected nat string
  | PeReconnecting string | PeDisconnected nat nat | PeJoin room_id peer_id | PeLeave room_id peer_id
  | PeLocalTrack nat media_kind | PeLocalTrackAttach nat peer_id track_name | PeLocalTrackDetach nat peer_id track_name
  | PeRemoteTrackStarted track_name media_kind | PeRemoteTrackEnded track_name media_kind

datatype session_record_event = RecJoinRoom app_id room_id peer_id | RecLeaveRoom
  | RecTrackStarted remote_track_id track_name track_meta | RecTrackStopped remote_track_id
  | RecTrackMedia remote_track_id media_packet | RecDisconnected

section \<open>Transport\<close>

datatype transport_error = Timeout

datatype transport_state = TsNew | TsConnecting string | TsConnectError transport_error | TsConnected string
  | TsReconnecting string | TsDisconnected "transport_error option"

datatype transport_local_track_event = TleStarted media_kind | TleRequestKeyFrame | TleEnded

definition local_need_create :: "transport_local_track_event \<Rightarrow> media_kind option" where
  "local_need_create ev = (case ev of TleStarted kind \<Rightarrow> Some kind | _ \<Rightarrow> None)"

datatype transport_remote_track_event = TreStarted track_name priority track_meta | TrePaused | TreResumed
  | TreMedia media_packet | TreEnded

definition remote_need_create :: "transport_remote_track_event \<Rightarrow> (track_name \<times> priority \<times> track_meta) option" where
  "remote_need_create ev = (case ev of TreStarted name prio meta \<Rightarrow> Some (name, prio, meta) | _ \<Rightarrow> None)"

datatype transport_event = TeState transport_state | TeRemoteTrack remote_track_id transport_remote_track_event
  | TeLocalTrack local_track_id transport_local_track_event | TeStats | TeEgressBitrateEstimate "64 word"

section \<open>The two-way map\<close>

record ('a, 'b) imap2 =
  i2_data :: "('a, 'b) imap"
  i2_reverse :: "('b, 'a) imap"

definition i2_default :: "('a, 'b) imap2" where
  "i2_default = \<lparr>i2_data = [], i2_reverse = []\<rparr>"

definition i2_insert :: "('a, 'b) imap2 \<Rightarrow> 'a \<Rightarrow> 'b \<Rightarrow> ('a, 'b) imap2" where
  "i2_insert m key val = m\<lparr>i2_data := im_insert (i2_data m) key val, i2_reverse := im_insert (i2_reverse m) val key\<rparr>"

definition i2_keys1 :: "('a, 'b) imap2 \<Rightarrow> 'a list" where
  "i2_keys1 m = im_keys (i2_data m)"

definition i2_pairs :: "('a, 'b) imap2 \<Rightarrow> ('a \<times> 'b) list" where
  "i2_pairs m = i2_data m"

definition i2_keys2 :: "('a, 'b) imap2 \<Rightarrow> 'b list" where
  "i2_keys2 m = im_keys (i2_reverse m)"

definition i2_get1 :: "('a, 'b) imap2 \<Rightarrow> 'a \<Rightarrow> 'b option" where
  "i2_get1 m key = im_get (i2_data m) key"

definition i2_get2 :: "('a, 'b) imap2 \<Rightarrow> 'b \<Rightarrow> 'a option" where
  "i2_get2 m key = im_get (i2_reverse m) key"

definition i2_remove1 :: "('a, 'b) imap2 \<Rightarrow> 'a \<Rightarrow> ('a, 'b) imap2 \<times> 'b option" where
  "i2_remove1 m key =
     (case im_get (i2_data m) key of
        None \<Rightarrow> (m, None)
      | Some val \<Rightarrow> (m\<lparr>i2_data := im_swap_remove (i2_data m) key, i2_reverse := im_swap_remove (i2_reverse m) val\<rparr>, Some val))"

definition i2_remove2 :: "('a, 'b) imap2 \<Rightarrow> 'b \<Rightarrow> ('a, 'b) imap2 \<times> 'a option" where
  "i2_remove2 m key =
     (case im_get (i2_reverse m) key of
        None \<Rightarrow> (m, None)
      | Some val \<Rightarrow> (m\<lparr>i2_reverse := im_swap_remove (i2_reverse m) key, i2_data := im_swap_remove (i2_data m) val\<rparr>, Some val))"

definition i2_len :: "('a, 'b) imap2 \<Rightarrow> nat" where
  "i2_len m = length (i2_data m)"

definition i2_is_empty :: "('a, 'b) imap2 \<Rightarrow> bool" where
  "i2_is_empty m \<longleftrightarrow> i2_data m = []"

text \<open>The two directions are inverse to each other. This is kept by \<open>insert\<close> only when neither the key nor
  the value is bound yet.\<close>

definition i2_inv :: "('a, 'b) imap2 \<Rightarrow> bool" where
  "i2_inv m \<longleftrightarrow> im_wf (i2_data m) \<and> im_wf (i2_reverse m) \<and> (\<forall>a b. i2_get1 m a = Some b \<longleftrightarrow> i2_get2 m b = Some a)"

lemma i2_inv_default: "i2_inv i2_default"
  by (simp add: i2_inv_def i2_default_def i2_get1_def i2_get2_def)

lemma i2_inverse: "i2_inv m \<Longrightarrow> i2_get1 m a = Some b \<longleftrightarrow> i2_get2 m b = Some a"
  by (simp add: i2_inv_def)

lemma i2_insert_get:
  "i2_get1 (i2_insert m k v) = (i2_get1 m)(k \<mapsto> v)" "i2_get2 (i2_insert m k v) = (i2_get2 m)(v \<mapsto> k)"
  by (simp_all add: i2_get1_def[abs_def] i2_get2_def[abs_def] i2_insert_def)

lemma i2_insert_inv:
  assumes "i2_inv m" "i2_get1 m k = None" "i2_get2 m v = None"
  shows "i2_inv (i2_insert m k v)"
proof -
  have "i2_get1 m a \<noteq> Some v" for a using assms(1,3) by (simp add: i2_inverse)
  moreover have "i2_get2 m b \<noteq> Some k" for b using i2_inverse[OF assms(1), of k b] assms(2) by simp
  moreover have "im_wf (i2_data (i2_insert m k v))" "im_wf (i2_reverse (i2_insert m k v))"
    using assms(1) by (simp_all add: i2_inv_def i2_insert_def)
  ultimately show ?thesis using assms(1) by (auto simp: i2_inv_def i2_insert_get)
qed

lemma i2_remove1_get:
  assumes "i2_inv m" "i2_get1 m k = Some v"
  shows "snd (i2_remove1 m k) = Some v" "i2_get1 (fst (i2_remove1 m k)) = (i2_get1 m)(k := None)"
    "i2_get2 (fst (i2_remove1 m k)) = (i2_get2 m)(v := None)" "i2_inv (fst (i2_remove1 m k))"
proof -
  have wf: "im_wf (i2_data m)" "im_wf (i2_reverse m)" using assms(1) by (simp_all add: i2_inv_def)
  have k: "im_get (i2_data m) k = Some v" using assms(2) by (simp add: i2_get1_def)
  then show 1: "snd (i2_remove1 m k) = Some v" "i2_get1 (fst (i2_remove1 m k)) = (i2_get1 m)(k := None)"
      "i2_get2 (fst (i2_remove1 m k)) = (i2_get2 m)(v := None)"
    using wf by (simp_all add: i2_remove1_def i2_get1_def[abs_def] i2_get2_def[abs_def])
  have "im_wf (i2_data (fst (i2_remove1 m k)))" "im_wf (i2_reverse (fst (i2_remove1 m k)))"
    using wf k by (simp_all add: i2_remove1_def)
  moreover have "i2_get2 m b = Some k \<longleftrightarrow> b = v" "i2_get1 m a = Some v \<longleftrightarrow> a = k" for a b
    using i2_inverse[OF assms(1)] assms(2) by (metis option.inject)+
  ultimately show "i2_inv (fst (i2_remove1 m k))" using assms(1) by (auto simp: i2_inv_def 1)
qed

end
