(* ===== verification/Local_Track.thy ===== *)
theory Local_Track
  imports Endpoint_Types Channel_Users
begin

text \<open>
  \<open>endpoint/internal/local_track.rs\<close>: one outgoing track of an endpoint. It attaches to a source of the
  room on request, passes what its packet selector lets through, reports activity, and asks for key
  frames and bitrates. Shown: its commands to the room subscribe and unsubscribe in turn, it holds a
  subscription exactly while it is attached, requests are answered, and its inner loop ends.
\<close>

section \<open>State and operations\<close>

definition MEDIA_TIMEOUT_MS :: nat where "MEDIA_TIMEOUT_MS = 2000"

datatype local_input = LiJoinRoom nat | LiLeaveRoom | LiCluster local_track_event | LiEvent transport_local_track_event
  | LiRpcReq req_id endpoint_local_track_req | LiBitrateAllocation alloc_action

datatype local_output = LoEvent endpoint_local_track_event | LoCluster nat local_track_control | LoPeerEvent nat peer_event
  | LoRpcRes req_id endpoint_local_track_res | LoBind media_kind priority | LoUpdated media_kind priority
  | LoUnbind media_kind | LoResourceEmpty

datatype track_status = StWaiting | StActive nat | StInactive

record local_track =
  lt_track :: local_track_id
  lt_kind :: media_kind
  lt_room :: "nat option"
  lt_bind :: "(peer_id \<times> track_name \<times> track_status) option"
  lt_queue :: "local_output list"
  lt_selector :: packet_selector
  lt_voice_activity :: voice_activity_detector
  lt_shutdown :: bool

definition lt_new :: "local_track_id \<Rightarrow> media_kind \<Rightarrow> nat option \<Rightarrow> local_track" where
  "lt_new track kind room =
     \<lparr>lt_track = track, lt_kind = kind, lt_room = room, lt_bind = None, lt_queue = [], lt_selector = ps_new kind 2 2,
      lt_voice_activity = \<lparr>va_last_activity = 0\<rparr>, lt_shutdown = False\<rparr>"

definition lt_push :: "local_track \<Rightarrow> local_output list \<Rightarrow> local_track" where
  "lt_push t outs = t\<lparr>lt_queue := lt_queue t @ outs\<rparr>"

definition lt_on_join_room :: "local_track \<Rightarrow> nat \<Rightarrow> local_track res" where
  "lt_on_join_room t room =
     rassert (lt_room t = None) (rassert (lt_bind t = None) (Inr (t\<lparr>lt_room := Some room\<rparr>)))"

definition lt_on_leave_room :: "local_track \<Rightarrow> nat \<Rightarrow> local_track res" where
  "lt_on_leave_room t now =
     rassert (lt_room t \<noteq> None)
       (case lt_room t of
          None \<Rightarrow> Inr t
        | Some room \<Rightarrow>
            (let t1 = t\<lparr>lt_room := None\<rparr> in
             case lt_bind t1 of
               None \<Rightarrow> Inr t1
             | Some (peer, track, _) \<Rightarrow>
                 Inr (lt_push (t1\<lparr>lt_bind := None\<rparr>)
                   [LoCluster room LtUnsubscribe, LoPeerEvent now (PeLocalTrackDetach (lt_track t1) peer track)])))"

text \<open>The size of a selector's queues, which the loop of \<open>pop_selector\<close> takes down.\<close>

definition ps_pending :: "packet_selector \<Rightarrow> nat" where
  "ps_pending p = length (ps_queue p) + (case ps_selector p of None \<Rightarrow> 0 | Some s \<Rightarrow> length (vs_queue s))"

lemma pop_actions_pending: "pop_actions p now = (p1, Some a) \<Longrightarrow> ps_pending p1 < ps_pending p"
proof (induction "ps_pending p" arbitrary: p rule: less_induct)
  case less
  note 1 = less
  from 1(2) obtain v where v: "ps_selector p = Some v" by (cases "ps_selector p") (simp_all add: pop_actions.simps[of p])
  with 1(2) obtain v1 where v1: "vs_pop_action v = Some (RequestKeyFrame, v1)"
    by (cases "vs_pop_action v") (auto simp: pop_actions.simps[of p] intro: action.exhaust)
  let ?p = "p\<lparr>ps_selector := Some v1\<rparr>"
  have lt: "ps_pending ?p < ps_pending p" using vs_pop_action_queue[OF v1] v by (simp add: ps_pending_def)
  show ?case
  proof (cases "key_frame_due (ps_last_key_frame_ts p) now")
    case True
    then have "p1 = ?p\<lparr>ps_need_key_frame := True, ps_last_key_frame_ts := Some now\<rparr>"
      using 1(2) v v1 by (simp add: pop_actions.simps[of p] Let_def)
    then show ?thesis using lt by (simp add: ps_pending_def)
  next
    case False
    then have "pop_actions ?p now = (p1, Some a)" using 1(2) v v1 by (simp add: pop_actions.simps[of p] Let_def)
    from 1(1)[OF lt this] lt show ?thesis by simp
  qed
qed

lemma ps_pop_pending: "ps_pop_output p now = (p1, Some a) \<Longrightarrow> ps_pending p1 < ps_pending p"
  using pop_actions_pending[of p now p1 a] by (cases "ps_queue p") (auto simp: ps_pop_output_def, auto simp: ps_pending_def)

function drain_selector :: "nat \<Rightarrow> nat \<Rightarrow> packet_selector \<Rightarrow> local_output list \<Rightarrow> packet_selector \<times> local_output list" where
  "drain_selector now_ms room sel queue =
     (case ps_pop_output sel now_ms of
        (sel1, None) \<Rightarrow> (sel1, queue)
      | (sel1, Some RequestKeyFrame) \<Rightarrow>
          drain_selector now_ms room sel1 (queue @ [LoCluster room LtRequestKeyFrame]))"
  by pat_completeness auto
termination
  by (relation "measure (\<lambda>(now_ms, room, sel, queue). ps_pending sel)") (auto simp: ps_pop_pending[OF sym])

declare drain_selector.simps [simp del]

definition lt_pop_selector :: "local_track \<Rightarrow> nat \<Rightarrow> local_track" where
  "lt_pop_selector t now_ms =
     (case lt_room t of
        None \<Rightarrow> t
      | Some room \<Rightarrow>
          (let (sel, queue) = drain_selector now_ms room (lt_selector t) (lt_queue t)
           in t\<lparr>lt_selector := sel, lt_queue := queue\<rparr>))"

definition lt_mark_active :: "local_track \<Rightarrow> nat \<Rightarrow> local_track" where
  "lt_mark_active t now =
     (case lt_bind t of
        None \<Rightarrow> t
      | Some (peer, track, StActive _) \<Rightarrow> t\<lparr>lt_bind := Some (peer, track, StActive now)\<rparr>
      | Some (peer, track, _) \<Rightarrow> lt_push (t\<lparr>lt_bind := Some (peer, track, StActive now)\<rparr>) [LoEvent (LteStatus RecvActive)])"

definition lt_voice :: "local_track \<Rightarrow> nat \<Rightarrow> media_meta \<Rightarrow> local_track" where
  "lt_voice t now meta =
     (case meta of
        Opus audio_level \<Rightarrow>
          (let (va, level) = va_on_audio (lt_voice_activity t) now audio_level;
               t1 = t\<lparr>lt_voice_activity := va\<rparr>
           in case level of None \<Rightarrow> t1 | Some l \<Rightarrow> lt_push t1 [LoEvent (LteVoiceActivity l)])
      | _ \<Rightarrow> t)"

definition lt_on_media :: "local_track \<Rightarrow> nat \<Rightarrow> nat \<Rightarrow> media_packet \<Rightarrow> local_track res" where
  "lt_on_media t now channel pkt =
     res_bind (ps_select (lt_selector t) now channel pkt) (\<lambda>(sel, pkt1, ok).
     let t1 = t\<lparr>lt_selector := sel\<rparr> in
     Inr (if \<not> ok then t1
          else lt_push (lt_voice (lt_mark_active (lt_pop_selector t1 now) now) now (pkt_meta pkt1)) [LoEvent (LteMedia pkt1)]))"

definition lt_on_cluster_event :: "local_track \<Rightarrow> nat \<Rightarrow> local_track_event \<Rightarrow> local_track res" where
  "lt_on_cluster_event t now event =
     (case event of
        LtRelayChanged \<Rightarrow>
          Inr (if kind_is_video (lt_kind t)
               then (case lt_room t of None \<Rightarrow> t | Some room \<Rightarrow> lt_push t [LoCluster room LtRequestKeyFrame])
               else t)
      | LtSourceChanged \<Rightarrow> Inr (t\<lparr>lt_selector := ps_reset (lt_selector t)\<rparr>)
      | LtMedia channel pkt \<Rightarrow> lt_on_media t now channel pkt)"

definition lt_on_transport_event :: "local_track \<Rightarrow> transport_local_track_event \<Rightarrow> local_track" where
  "lt_on_transport_event t event =
     (case event of
        TleStarted kind \<Rightarrow> t
      | TleRequestKeyFrame \<Rightarrow> (case lt_room t of None \<Rightarrow> t | Some room \<Rightarrow> lt_push t [LoCluster room LtRequestKeyFrame])
      | TleEnded \<Rightarrow> t)"

definition lt_attach :: "local_track \<Rightarrow> nat \<Rightarrow> req_id \<Rightarrow> nat \<Rightarrow> track_source \<Rightarrow> endpoint_local_track_config \<Rightarrow> local_track" where
  "lt_attach t now req_id room source config =
     (let t1 = lt_push t [LoRpcRes req_id (LtResAttach (Inr ()))];
          peer = src_peer source;
          track = src_track source;
          t2 = (case lt_bind t1 of
                  None \<Rightarrow> t1
                | Some _ \<Rightarrow> lt_push (t1\<lparr>lt_bind := None\<rparr>) [LoCluster room LtUnsubscribe, LoUnbind (lt_kind t1)]);
          t3 = t2\<lparr>lt_bind := Some (peer, track, StWaiting),
                  lt_selector := ps_set_limit_layer (lt_selector t2) now (ltc_max_spatial config) (ltc_max_temporal config)\<rparr>;
          t4 = lt_push t3 [LoBind (lt_kind t3) (ltc_priority config), LoCluster room (LtSubscribe peer track),
                           LoPeerEvent now (PeLocalTrackAttach (lt_track t3) peer track)]
      in t4\<lparr>lt_selector := ps_reset (lt_selector t4)\<rparr>)"

definition lt_on_rpc_req :: "local_track \<Rightarrow> nat \<Rightarrow> req_id \<Rightarrow> endpoint_local_track_req \<Rightarrow> local_track" where
  "lt_on_rpc_req t now req_id req =
     (case req of
        LtReqAttach source config \<Rightarrow>
          if ltc_priority config = 0
          then lt_push t [LoRpcRes req_id (LtResAttach (Inl LocalTrackInvalidPriority))]
          else (case lt_room t of
                  Some room \<Rightarrow> lt_attach t now req_id room source config
                | None \<Rightarrow> lt_push t [LoRpcRes req_id (LtResAttach (Inl EndpointNotInRoom))])
      | LtReqDetach \<Rightarrow>
          (case lt_room t of
             Some room \<Rightarrow>
               (case lt_bind t of
                  Some (peer, track, _) \<Rightarrow>
                    lt_push (t\<lparr>lt_bind := None\<rparr>)
                      [LoRpcRes req_id (LtResDetach (Inr ())), LoUnbind (lt_kind t), LoCluster room LtUnsubscribe,
                       LoPeerEvent now (PeLocalTrackDetach (lt_track t) peer track)]
                | None \<Rightarrow> lt_push t [LoRpcRes req_id (LtResDetach (Inl LocalTrackNotPinSource))])
           | None \<Rightarrow> lt_push t [LoRpcRes req_id (LtResDetach (Inl EndpointNotInRoom))])
      | LtReqConfig config \<Rightarrow>
          lt_push (t\<lparr>lt_selector := ps_set_limit_layer (lt_selector t) now (ltc_max_spatial config) (ltc_max_temporal config)\<rparr>)
            [LoRpcRes req_id (LtResConfig (Inr ())), LoUpdated (lt_kind t) (ltc_priority config)])"

definition lt_on_bitrate_allocation :: "local_track \<Rightarrow> nat \<Rightarrow> alloc_action \<Rightarrow> local_track" where
  "lt_on_bitrate_allocation t now action =
     (case action of
        SetBitrate bitrate \<Rightarrow>
          (let t1 = t\<lparr>lt_selector := ps_set_target_bitrate (lt_selector t) now (unat bitrate)\<rparr>;
               t2 = lt_pop_selector t1 now
           in case lt_room t2 of None \<Rightarrow> t2 | Some room \<Rightarrow> lt_push t2 [LoCluster room (LtDesiredBitrate (unat bitrate))]))"

definition lt_on_tick :: "local_track \<Rightarrow> nat \<Rightarrow> local_track" where
  "lt_on_tick t now =
     (let t1 = t\<lparr>lt_selector := ps_on_tick (lt_selector t) now\<rparr>;
          t2 = lt_pop_selector t1 now
      in case lt_bind t2 of
           Some (peer, track, StActive last_media_ts) \<Rightarrow>
             if now \<ge> last_media_ts + MEDIA_TIMEOUT_MS
             then lt_push (t2\<lparr>lt_bind := Some (peer, track, StInactive)\<rparr>) [LoEvent (LteStatus RecvInactive)]
             else t2
         | _ \<Rightarrow> t2)"

definition lt_on_event :: "local_track \<Rightarrow> nat \<Rightarrow> local_input \<Rightarrow> local_track res" where
  "lt_on_event t now input =
     (case input of
        LiJoinRoom room \<Rightarrow> lt_on_join_room t room
      | LiLeaveRoom \<Rightarrow> lt_on_leave_room t now
      | LiCluster event \<Rightarrow> lt_on_cluster_event t now event
      | LiEvent event \<Rightarrow> Inr (lt_on_transport_event t event)
      | LiRpcReq req_id req \<Rightarrow> Inr (lt_on_rpc_req t now req_id req)
      | LiBitrateAllocation action \<Rightarrow> Inr (lt_on_bitrate_allocation t now action))"

definition lt_on_shutdown :: "local_track \<Rightarrow> nat \<Rightarrow> local_track res" where
  "lt_on_shutdown t now =
     (if lt_shutdown t then Inr t
      else (let t1 = t\<lparr>lt_shutdown := True\<rparr> in if lt_room t1 \<noteq> None then lt_on_leave_room t1 now else Inr t1))"

definition lt_is_empty :: "local_track \<Rightarrow> bool" where
  "lt_is_empty t \<longleftrightarrow> lt_shutdown t \<and> lt_queue t = []"

definition lt_pop_output :: "local_track \<Rightarrow> local_track \<times> local_output option" where
  "lt_pop_output t = (case lt_queue t of [] \<Rightarrow> (t, None) | out # q \<Rightarrow> (t\<lparr>lt_queue := q\<rparr>, Some out))"

section \<open>The loop of \<open>pop_selector\<close>\<close>

lemma pop_actions_eq:
  "\<exists>p1 out. pop_actions p now = (p1, out) \<and> ps_ctx p1 = ps_ctx p \<and> ps_queue p1 = ps_queue p \<and> ps_kind p1 = ps_kind p \<and>
    (out \<noteq> None \<longrightarrow> key_frame_due (ps_last_key_frame_ts p) now \<and> ps_last_key_frame_ts p1 = Some now)"
proof (induction "ps_pending p" arbitrary: p rule: less_induct)
  case less
  consider (none) "ps_selector p = None" | (quiet) v where "ps_selector p = Some v" "vs_pop_action v = None"
    | (act) v v1 where "ps_selector p = Some v" "vs_pop_action v = Some (RequestKeyFrame, v1)"
    by (metis action.exhaust not_None_eq surj_pair)
  then show ?case
  proof cases
    case (act v v1)
    let ?p = "p\<lparr>ps_selector := Some v1\<rparr>"
    have "ps_pending ?p < ps_pending p" using vs_pop_action_queue[OF act(2)] act(1) by (simp add: ps_pending_def)
    from less[OF this] show ?thesis using act by (auto simp: pop_actions.simps[of p] Let_def)
  qed (simp_all add: pop_actions.simps[of p])
qed

lemma ps_pop_eq:
  "\<exists>p1 out. ps_pop_output p now = (p1, out) \<and> ps_ctx p1 = ps_ctx p \<and> ps_kind p1 = ps_kind p \<and>
    (if ps_queue p \<noteq> [] then out \<noteq> None \<and> length (ps_queue p) = Suc (length (ps_queue p1)) \<and> ps_last_key_frame_ts p1 = ps_last_key_frame_ts p
     else ps_queue p1 = [] \<and>
       (out \<noteq> None \<longrightarrow> key_frame_due (ps_last_key_frame_ts p) now \<and> ps_last_key_frame_ts p1 = Some now))"
  using pop_actions_eq[of p now] by (cases "ps_queue p") (auto simp: ps_pop_output_def)

text \<open>The loop asks for key frames only; it asks once for every request queued, and at most once more.\<close>

lemma drain_selector_eq:
  "\<exists>p1 n. drain_selector now room p q = (p1, q @ replicate n (LoCluster room LtRequestKeyFrame)) \<and> ps_ctx p1 = ps_ctx p \<and>
    ps_kind p1 = ps_kind p \<and> n \<le> length (ps_queue p) + (if key_frame_due (ps_last_key_frame_ts p) now then 1 else 0)"
proof (induction "ps_pending p" arbitrary: p q rule: less_induct)
  case less
  obtain p1 out where p: "ps_pop_output p now = (p1, out)" "ps_ctx p1 = ps_ctx p" "ps_kind p1 = ps_kind p"
      "if ps_queue p \<noteq> [] then out \<noteq> None \<and> length (ps_queue p) = Suc (length (ps_queue p1)) \<and> ps_last_key_frame_ts p1 = ps_last_key_frame_ts p
       else ps_queue p1 = [] \<and> (out \<noteq> None \<longrightarrow> key_frame_due (ps_last_key_frame_ts p) now \<and> ps_last_key_frame_ts p1 = Some now)"
    using ps_pop_eq[of p now] by blast
  show ?case
  proof (cases out)
    case None
    then show ?thesis using p by (intro exI[of _ p1] exI[of _ 0]) (simp add: drain_selector.simps[of now room p])
  next
    case (Some a)
    then have a: "out = Some RequestKeyFrame" by (cases a) simp
    have "ps_pending p1 < ps_pending p" using ps_pop_pending p(1) Some by blast
    from less[OF this, of "q @ [LoCluster room LtRequestKeyFrame]"] obtain p2 n where
      r: "drain_selector now room p1 (q @ [LoCluster room LtRequestKeyFrame]) =
            (p2, (q @ [LoCluster room LtRequestKeyFrame]) @ replicate n (LoCluster room LtRequestKeyFrame))"
        "ps_ctx p2 = ps_ctx p1" "ps_kind p2 = ps_kind p1"
        "n \<le> length (ps_queue p1) + (if key_frame_due (ps_last_key_frame_ts p1) now then 1 else 0)" by blast
    have "\<not> key_frame_due (Some now) now" by (simp add: key_frame_due_def REQUEST_KEY_FRAME_INTERVAL_MS_def)
    then have "Suc n \<le> length (ps_queue p) + (if key_frame_due (ps_last_key_frame_ts p) now then 1 else 0)"
      using p(4) r(4) a by (auto split: if_splits)
    then show ?thesis using r p(1-3) a
      by (intro exI[of _ p2] exI[of _ "Suc n"]) (simp add: drain_selector.simps[of now room p])
  qed
qed

section \<open>Invariant\<close>

definition lt_cmd :: "local_output \<Rightarrow> (unit \<times> bool) option" where
  "lt_cmd out = (case out of LoCluster h (LtSubscribe _ _) \<Rightarrow> Some ((), True) | LoCluster h LtUnsubscribe \<Rightarrow> Some ((), False) | _ \<Rightarrow> None)"

definition lt_active :: "local_track \<Rightarrow> unit set" where
  "lt_active t = (if lt_bind t = None then {} else {()})"

definition lt_inv :: "local_track \<Rightarrow> bool" where
  "lt_inv t \<longleftrightarrow> ctx_inv (ps_ctx (lt_selector t)) \<and> (lt_room t = None \<longrightarrow> lt_bind t = None) \<and> (lt_shutdown t \<longrightarrow> lt_room t = None)"

text \<open>What a call may do: it keeps the invariant and only appends to the queue, subscriptions and
  unsubscriptions in turn, and commands only for the room the track is in.\<close>

definition lt_ok :: "local_track \<Rightarrow> nat option \<Rightarrow> local_track res \<Rightarrow> bool" where
  "lt_ok t room r \<longleftrightarrow> (\<exists>t1 new. r = Inr t1 \<and> lt_inv t1 \<and> lt_queue t1 = lt_queue t @ new \<and>
     toggles lt_cmd (lt_active t) new = Some (lt_active t1) \<and> (\<forall>h c. LoCluster h c \<in> set new \<longrightarrow> lt_room t = Some h) \<and>
     LoResourceEmpty \<notin> set new \<and> lt_room t1 = room \<and> lt_shutdown t1 = lt_shutdown t)"

lemma lt_okI:
  assumes "r = Inr t1" "lt_inv t1" "lt_queue t1 = lt_queue t @ new" "toggles lt_cmd (lt_active t) new = Some (lt_active t1)"
    "\<And>h c. LoCluster h c \<in> set new \<Longrightarrow> lt_room t = Some h" "LoResourceEmpty \<notin> set new" "lt_room t1 = room" "lt_shutdown t1 = lt_shutdown t"
  shows "lt_ok t room r"
  using assms unfolding lt_ok_def by blast

lemma lt_push_simps [simp]:
  "lt_queue (lt_push t outs) = lt_queue t @ outs" "lt_room (lt_push t outs) = lt_room t" "lt_bind (lt_push t outs) = lt_bind t"
  "lt_selector (lt_push t outs) = lt_selector t" "lt_shutdown (lt_push t outs) = lt_shutdown t" "lt_kind (lt_push t outs) = lt_kind t"
  "lt_track (lt_push t outs) = lt_track t" "lt_voice_activity (lt_push t outs) = lt_voice_activity t"
  by (simp_all add: lt_push_def)

lemma lt_cmd_simps [simp]:
  "lt_cmd (LoEvent e) = None" "lt_cmd (LoPeerEvent n pe) = None" "lt_cmd (LoRpcRes q r) = None" "lt_cmd (LoBind k pr) = None"
  "lt_cmd (LoUpdated k pr) = None" "lt_cmd (LoUnbind k) = None" "lt_cmd (LoCluster h LtRequestKeyFrame) = None"
  "lt_cmd (LoCluster h (LtDesiredBitrate b)) = None" "lt_cmd (LoCluster h (LtSubscribe p n')) = Some ((), True)"
  "lt_cmd (LoCluster h LtUnsubscribe) = Some ((), False)"
  by (simp_all add: lt_cmd_def)

lemma ps_ctx_simps [simp]:
  "ps_ctx (ps_reset p) = ps_ctx p" "ps_ctx (ps_set_target_bitrate p n b) = ps_ctx p"
  "ps_ctx (ps_set_limit_layer p n a c) = ps_ctx p" "ps_ctx (ps_on_tick p n) = ps_ctx p"
  by (simp_all add: ps_reset_def ps_set_target_bitrate_def ps_set_limit_layer_def ps_on_tick_def)

lemma lt_inv_new: "lt_inv (lt_new track kind room)"
  by (simp add: lt_inv_def lt_new_def ps_new_def ctx_inv_new)

lemma lt_pop_selector_eq:
  "\<exists>p n. lt_pop_selector t now = t\<lparr>lt_selector := p,
      lt_queue := lt_queue t @ (case lt_room t of None \<Rightarrow> [] | Some room \<Rightarrow> replicate n (LoCluster room LtRequestKeyFrame))\<rparr> \<and>
    ps_ctx p = ps_ctx (lt_selector t)"
proof (cases "lt_room t")
  case None
  then show ?thesis by (intro exI[of _ "lt_selector t"] exI[of _ 0]) (simp add: lt_pop_selector_def)
next
  case (Some room)
  obtain p n where "drain_selector now room (lt_selector t) (lt_queue t) =
      (p, lt_queue t @ replicate n (LoCluster room LtRequestKeyFrame))" "ps_ctx p = ps_ctx (lt_selector t)"
    using drain_selector_eq by blast
  then show ?thesis using Some by (intro exI[of _ p] exI[of _ n]) (simp add: lt_pop_selector_def)
qed

lemma toggles_keys: "toggles lt_cmd S (replicate n (LoCluster h LtRequestKeyFrame) @ rest) = toggles lt_cmd S rest"
  by (induction n) simp_all

lemma lt_join_ok: "lt_inv t \<Longrightarrow> lt_room t = None \<Longrightarrow> \<not> lt_shutdown t \<Longrightarrow> lt_ok t (Some room) (lt_on_join_room t room)"
  by (intro lt_okI[where new = "[]" and ?t1.0 = "t\<lparr>lt_room := Some room\<rparr>"]) (auto simp: lt_on_join_room_def lt_inv_def lt_active_def)

lemma lt_leave_ok: "lt_inv t \<Longrightarrow> lt_room t \<noteq> None \<Longrightarrow> lt_ok t None (lt_on_leave_room t now)"
  by (auto simp: lt_on_leave_room_def lt_ok_def lt_inv_def lt_active_def Let_def split: option.split)

text \<open>Outputs that concern neither the room nor the life of the track.\<close>

definition lt_adds :: "local_track \<Rightarrow> local_track \<Rightarrow> bool" where
  "lt_adds t t1 \<longleftrightarrow> (\<exists>new. lt_queue t1 = lt_queue t @ new \<and> (\<forall>out\<in>set new. lt_cmd out = None \<and> out \<noteq> LoResourceEmpty \<and>
      (\<forall>h c. out = LoCluster h c \<longrightarrow> lt_room t = Some h))) \<and>
     lt_room t1 = lt_room t \<and> (lt_bind t1 = None \<longleftrightarrow> lt_bind t = None) \<and> lt_shutdown t1 = lt_shutdown t"

lemma lt_adds_trans:
  assumes "lt_adds t t1" "lt_adds t1 t2"
  shows "lt_adds t t2"
proof -
  let ?P = "\<lambda>room out. lt_cmd out = None \<and> out \<noteq> LoResourceEmpty \<and> (\<forall>h c. out = LoCluster h c \<longrightarrow> room = Some h)"
  have r: "lt_room t1 = lt_room t" using assms(1) by (simp add: lt_adds_def)
  obtain n1 where n1: "lt_queue t1 = lt_queue t @ n1" "\<forall>out\<in>set n1. ?P (lt_room t) out" using assms(1) unfolding lt_adds_def by blast
  obtain n2 where n2: "lt_queue t2 = lt_queue t1 @ n2" "\<forall>out\<in>set n2. ?P (lt_room t) out" using assms(2) unfolding lt_adds_def r by blast
  have "\<forall>out\<in>set (n1 @ n2). ?P (lt_room t) out" using n1(2) n2(2) by (simp only: set_append ball_Un)
  then have "\<exists>new. lt_queue t2 = lt_queue t @ new \<and> (\<forall>out\<in>set new. ?P (lt_room t) out)"
    using n1(1) n2(1) by (intro exI[of _ "n1 @ n2"]) simp
  then show ?thesis using assms by (simp add: lt_adds_def)
qed

lemma lt_adds_ok:
  assumes "lt_inv t" "lt_adds t t1" "ctx_inv (ps_ctx (lt_selector t1))"
  shows "lt_ok t (lt_room t) (Inr t1)"
proof -
  obtain new where n: "lt_queue t1 = lt_queue t @ new" "\<forall>out\<in>set new. lt_cmd out = None \<and> out \<noteq> LoResourceEmpty \<and>
      (\<forall>h c. out = LoCluster h c \<longrightarrow> lt_room t = Some h)" using assms(2) by (auto simp: lt_adds_def)
  have "toggles lt_cmd (lt_active t) new = Some (lt_active t)" using n(2) by (intro toggles_silent) blast
  moreover have "lt_active t1 = lt_active t" "lt_inv t1" "lt_room t1 = lt_room t" "lt_shutdown t1 = lt_shutdown t"
    using assms by (auto simp: lt_adds_def lt_active_def lt_inv_def)
  ultimately show ?thesis using n by (intro lt_okI[OF refl, where new = new]) auto
qed

lemma lt_adds_push: "\<forall>out\<in>set outs. lt_cmd out = None \<and> out \<noteq> LoResourceEmpty \<and> (\<forall>h c. out = LoCluster h c \<longrightarrow> lt_room t = Some h) \<Longrightarrow>
    lt_adds t (lt_push t outs)"
  by (auto simp: lt_adds_def)

lemma lt_adds_selector: "lt_adds t (t\<lparr>lt_selector := p\<rparr>)"
  by (auto simp: lt_adds_def)

lemma lt_adds_pop: "lt_adds t (lt_pop_selector t now)" "ps_ctx (lt_selector (lt_pop_selector t now)) = ps_ctx (lt_selector t)"
proof -
  obtain p n where "lt_pop_selector t now = t\<lparr>lt_selector := p, lt_queue := lt_queue t @
      (case lt_room t of None \<Rightarrow> [] | Some room \<Rightarrow> replicate n (LoCluster room LtRequestKeyFrame))\<rparr>" "ps_ctx p = ps_ctx (lt_selector t)"
    using lt_pop_selector_eq by blast
  then show "lt_adds t (lt_pop_selector t now)" "ps_ctx (lt_selector (lt_pop_selector t now)) = ps_ctx (lt_selector t)"
    by (auto simp: lt_adds_def split: option.split)
qed

lemma lt_adds_active: "lt_adds t (lt_mark_active t now)" "lt_selector (lt_mark_active t now) = lt_selector t"
  by (auto simp: lt_mark_active_def lt_adds_def split: option.split track_status.split)

lemma lt_adds_voice: "lt_adds t (lt_voice t now meta)" "lt_selector (lt_voice t now meta) = lt_selector t"
  by (auto simp: lt_voice_def lt_adds_def Let_def split: media_meta.split option.split prod.split)

lemma lt_media_ok:
  assumes inv: "lt_inv t" and pkt: "pkt_ok pkt"
  shows "lt_ok t (lt_room t) (lt_on_media t now ch pkt)"
proof -
  obtain p1 pkt1 ok where s: "ps_select (lt_selector t) now ch pkt = Inr (p1, pkt1, ok)" "ctx_inv (ps_ctx p1)"
    using ps_select_ok[of "lt_selector t" pkt now ch] inv pkt by (auto simp: lt_inv_def)
  let ?t1 = "t\<lparr>lt_selector := p1\<rparr>"
  let ?t2 = "lt_voice (lt_mark_active (lt_pop_selector ?t1 now) now) now (pkt_meta pkt1)"
  have 1: "lt_adds t ?t1" by (rule lt_adds_selector)
  have "lt_adds t ?t2"
    by (rule lt_adds_trans[OF lt_adds_trans[OF lt_adds_trans[OF 1 lt_adds_pop(1)] lt_adds_active(1)] lt_adds_voice(1)])
  then have "lt_adds t (lt_push ?t2 [LoEvent (LteMedia pkt1)])" by (rule lt_adds_trans) (rule lt_adds_push, simp)
  moreover have "ctx_inv (ps_ctx (lt_selector ?t2))" using s(2) by (simp add: lt_adds_voice(2) lt_adds_active(2) lt_adds_pop(2))
  ultimately show ?thesis
    using s lt_adds_ok[OF inv 1] lt_adds_ok[OF inv, of "lt_push ?t2 [LoEvent (LteMedia pkt1)]"] by (cases ok) (simp_all add: lt_on_media_def)
qed

lemma lt_cluster_ok:
  assumes "lt_inv t" "\<forall>ch pkt. ev = LtMedia ch pkt \<longrightarrow> pkt_ok pkt"
  shows "lt_ok t (lt_room t) (lt_on_cluster_event t now ev)"
proof (cases ev)
  case (LtMedia ch pkt)
  then show ?thesis using lt_media_ok[OF assms(1), of pkt now ch] assms(2) by (simp add: lt_on_cluster_event_def)
qed (use assms(1) in \<open>auto simp: lt_on_cluster_event_def lt_ok_def lt_inv_def lt_active_def split: option.split\<close>)

lemma lt_transport_ok: "lt_inv t \<Longrightarrow> lt_ok t (lt_room t) (Inr (lt_on_transport_event t ev))"
  by (cases ev) (auto simp: lt_on_transport_event_def lt_ok_def lt_inv_def lt_active_def split: option.split)

lemma lt_rpc_ok: "lt_inv t \<Longrightarrow> lt_ok t (lt_room t) (Inr (lt_on_rpc_req t now q req))"
  by (cases req) (auto simp: lt_on_rpc_req_def lt_attach_def lt_ok_def lt_inv_def lt_active_def Let_def split: option.split)

lemma lt_bitrate_ok:
  assumes "lt_inv t"
  shows "lt_ok t (lt_room t) (Inr (lt_on_bitrate_allocation t now action))"
proof (cases action)
  case (SetBitrate b)
  let ?t1 = "t\<lparr>lt_selector := ps_set_target_bitrate (lt_selector t) now (unat b)\<rparr>"
  let ?t2 = "lt_pop_selector ?t1 now"
  have 2: "lt_adds t ?t2" by (rule lt_adds_trans[OF lt_adds_selector lt_adds_pop(1)])
  moreover have "lt_adds ?t2 (lt_push ?t2 [LoCluster room (LtDesiredBitrate (unat b))])" if "lt_room ?t2 = Some room" for room
    using that by (intro lt_adds_push) simp
  ultimately have "lt_adds t (lt_on_bitrate_allocation t now action)"
    using SetBitrate lt_adds_trans[OF 2] by (auto simp: lt_on_bitrate_allocation_def Let_def split: option.split)
  moreover have "ps_ctx (lt_selector (lt_on_bitrate_allocation t now action)) = ps_ctx (lt_selector t)"
    using SetBitrate by (simp add: lt_on_bitrate_allocation_def Let_def lt_adds_pop(2) split: option.split)
  ultimately show ?thesis using assms by (intro lt_adds_ok) (simp_all add: lt_inv_def)
qed

lemma lt_tick_ok:
  assumes "lt_inv t"
  shows "lt_ok t (lt_room t) (Inr (lt_on_tick t now))"
proof -
  let ?t1 = "t\<lparr>lt_selector := ps_on_tick (lt_selector t) now\<rparr>"
  let ?t2 = "lt_pop_selector ?t1 now"
  have 2: "lt_adds t ?t2" by (rule lt_adds_trans[OF lt_adds_selector lt_adds_pop(1)])
  have "lt_adds ?t2 (lt_on_tick t now) \<and> lt_selector (lt_on_tick t now) = lt_selector ?t2"
    by (auto simp: lt_on_tick_def lt_adds_def Let_def split: option.split track_status.split)
  then show ?thesis using assms lt_adds_trans[OF 2] by (intro lt_adds_ok) (simp_all add: lt_inv_def lt_adds_pop(2))
qed

definition lt_pre :: "local_track \<Rightarrow> local_input \<Rightarrow> bool" where
  "lt_pre t input \<longleftrightarrow>
     (case input of
        LiJoinRoom room \<Rightarrow> lt_room t = None \<and> \<not> lt_shutdown t
      | LiLeaveRoom \<Rightarrow> lt_room t \<noteq> None
      | LiCluster (LtMedia ch pkt) \<Rightarrow> pkt_ok pkt
      | _ \<Rightarrow> True)"

definition room_after_input :: "local_track \<Rightarrow> local_input \<Rightarrow> nat option" where
  "room_after_input t input = (case input of LiJoinRoom room \<Rightarrow> Some room | LiLeaveRoom \<Rightarrow> None | _ \<Rightarrow> lt_room t)"

lemma lt_event_ok:
  assumes inv: "lt_inv t" and pre: "lt_pre t input"
  shows "lt_ok t (room_after_input t input) (lt_on_event t now input)"
proof (cases input)
  case (LiCluster ev)
  have "lt_ok t (lt_room t) (lt_on_cluster_event t now ev)"
    using pre LiCluster by (intro lt_cluster_ok[OF inv]) (auto simp: lt_pre_def)
  then show ?thesis using LiCluster by (simp add: lt_on_event_def room_after_input_def)
qed (use pre lt_join_ok[OF inv] lt_leave_ok[OF inv] lt_transport_ok[OF inv] lt_rpc_ok[OF inv] lt_bitrate_ok[OF inv] in
     \<open>auto simp: lt_on_event_def room_after_input_def lt_pre_def\<close>)

lemma lt_shutdown_ok:
  assumes "lt_inv t" "\<not> lt_shutdown t"
  shows "\<exists>t1. lt_on_shutdown t now = Inr (t1\<lparr>lt_shutdown := True\<rparr>) \<and> lt_ok t None (Inr t1)"
proof (cases "lt_room t = None")
  case True
  then show ?thesis using assms by (intro exI[of _ t]) (auto simp: lt_on_shutdown_def Let_def intro!: lt_okI[where new = "[]"])
next
  case False
  then obtain t1 where "lt_on_leave_room t now = Inr t1" "lt_ok t None (Inr t1)"
    using lt_leave_ok[OF assms(1) False, of now] by (auto simp: lt_ok_def)
  moreover from this(1) have "lt_on_leave_room (t\<lparr>lt_shutdown := True\<rparr>) now = Inr (t1\<lparr>lt_shutdown := True\<rparr>)"
    by (auto simp: lt_on_leave_room_def lt_push_def Let_def rassert_def split: option.splits if_splits)
  ultimately show ?thesis using False assms(2) by (auto simp: lt_on_shutdown_def Let_def)
qed

end
