(* ===== verification/Remote_Track.thy ===== *)
theory Remote_Track
  imports Endpoint_Types
begin

text \<open>
  \<open>endpoint/internal/remote_track.rs\<close>: one incoming track of an endpoint. It announces itself to the room,
  forwards the media with the layer information of the last packet that had one, records if asked to,
  and passes key frame requests and bitrate limits back to the sender.
\<close>

section \<open>State and operations\<close>

datatype remote_input = RiJoinRoom nat | RiLeaveRoom | RiCluster remote_track_event | RiEvent transport_remote_track_event
  | RiRpcReq req_id endpoint_remote_track_req | RiBitrateAllocation alloc_action

datatype remote_output = RoEvent endpoint_remote_track_event | RoCluster nat remote_track_control | RoPeerEvent nat peer_event
  | RoRecordEvent nat session_record_event | RoRpcRes req_id endpoint_remote_track_res | RoStarted media_kind priority
  | RoUpdate media_kind priority | RoStopped media_kind

record remote_track =
  rt_id :: remote_track_id
  rt_meta :: track_meta
  rt_room :: "nat option"
  rt_name :: track_name
  rt_queue :: "remote_output list"
  rt_allocate_bitrate :: "nat option"
  rt_last_layers :: "media_layers_bitrate option"
  rt_cluster_bitrate_limit :: "(nat \<times> nat) option"
  rt_record :: bool
  rt_shutdown :: bool

definition rt_new :: "nat option \<Rightarrow> remote_track_id \<Rightarrow> track_name \<Rightarrow> track_meta \<Rightarrow> bool \<Rightarrow> remote_track" where
  "rt_new room id1 name meta record1 =
     \<lparr>rt_id = id1, rt_meta = meta, rt_room = room, rt_name = name, rt_queue = [], rt_allocate_bitrate = None,
      rt_last_layers = None, rt_cluster_bitrate_limit = None, rt_record = record1, rt_shutdown = False\<rparr>"

definition rt_push :: "remote_track \<Rightarrow> remote_output list \<Rightarrow> remote_track" where
  "rt_push t outs = t\<lparr>rt_queue := rt_queue t @ outs\<rparr>"

definition rt_rec :: "remote_track \<Rightarrow> nat \<Rightarrow> session_record_event \<Rightarrow> remote_output list" where
  "rt_rec t now event = (if rt_record t then [RoRecordEvent now event] else [])"

definition rt_on_join_room :: "remote_track \<Rightarrow> nat \<Rightarrow> nat \<Rightarrow> remote_track res" where
  "rt_on_join_room t now room =
     rassert (rt_room t = None)
       (Inr (rt_push (t\<lparr>rt_room := Some room\<rparr>)
          ([RoCluster room (RtStarted (rt_name t) (rt_meta t))] @ rt_rec t now (RecTrackStarted (rt_id t) (rt_name t) (rt_meta t)) @
           [RoPeerEvent now (PeRemoteTrackStarted (rt_name t) (tm_kind (rt_meta t)))])))"

definition rt_on_leave_room :: "remote_track \<Rightarrow> nat \<Rightarrow> remote_track res" where
  "rt_on_leave_room t now =
     res_bind (rexpect (rt_room t)) (\<lambda>room.
     Inr (rt_push (t\<lparr>rt_room := None\<rparr>)
       ([RoCluster room (RtEnded (rt_name t) (rt_meta t))] @ rt_rec t now (RecTrackStopped (rt_id t)) @
        [RoPeerEvent now (PeRemoteTrackEnded (rt_name t) (tm_kind (rt_meta t)))])))"

definition calc_limit_bitrate :: "remote_track \<Rightarrow> (nat \<times> nat) option" where
  "calc_limit_bitrate t =
     (let cluster_limit = (if tm_control (rt_meta t) = DynamicConsumers then rt_cluster_bitrate_limit t else None) in
      case (rt_allocate_bitrate t, cluster_limit) of
        (Some b1, Some (min1, max1)) \<Rightarrow> Some (min min1 b1, min max1 b1)
      | (Some b1, None) \<Rightarrow> Some (b1, b1)
      | (None, Some (min1, max1)) \<Rightarrow> Some (min1, max1)
      | (None, None) \<Rightarrow> None)"

definition rt_limit_event :: "remote_track \<Rightarrow> remote_output list" where
  "rt_limit_event t = (case calc_limit_bitrate t of None \<Rightarrow> [] | Some (min1, max1) \<Rightarrow> [RoEvent (RteLimitBitrateBps min1 max1)])"

definition rt_on_cluster_event :: "remote_track \<Rightarrow> remote_track_event \<Rightarrow> remote_track" where
  "rt_on_cluster_event t event =
     (case event of
        RtRequestKeyFrame \<Rightarrow> rt_push t [RoEvent RteRequestKeyFrame]
      | RtLimitBitrate min1 max1 \<Rightarrow>
          (let t1 = t\<lparr>rt_cluster_bitrate_limit := Some (min1, max1)\<rparr> in
           if tm_control (rt_meta t1) = DynamicConsumers then rt_push t1 (rt_limit_event t1) else t1))"

definition rt_on_media :: "remote_track \<Rightarrow> nat \<Rightarrow> media_packet \<Rightarrow> remote_track" where
  "rt_on_media t now media =
     (let t1 = (if pkt_layers media \<noteq> None then t\<lparr>rt_last_layers := pkt_layers media\<rparr> else t);
          media1 = (if is_video_key (pkt_meta media) \<and> pkt_layers media = None \<and> rt_last_layers t1 \<noteq> None
                    then media\<lparr>pkt_layers := rt_last_layers t1\<rparr> else media);
          t2 = rt_push t1 (rt_rec t1 now (RecTrackMedia (rt_id t1) media1))
      in case rt_room t2 of None \<Rightarrow> t2 | Some room \<Rightarrow> rt_push t2 [RoCluster room (RtMedia media1)])"

definition rt_on_transport_event :: "remote_track \<Rightarrow> nat \<Rightarrow> transport_remote_track_event \<Rightarrow> remote_track" where
  "rt_on_transport_event t now event =
     (case event of
        TreStarted name prio meta \<Rightarrow>
          (case rt_room t of
             None \<Rightarrow> t
           | Some room \<Rightarrow>
               rt_push t ([RoCluster room (RtStarted name (rt_meta t)), RoStarted (tm_kind (rt_meta t)) prio] @
                 rt_rec t now (RecTrackStarted (rt_id t) name (rt_meta t)) @
                 [RoPeerEvent now (PeRemoteTrackStarted name (tm_kind meta))]))
      | TrePaused \<Rightarrow> t
      | TreResumed \<Rightarrow> t
      | TreMedia media \<Rightarrow> rt_on_media t now media
      | TreEnded \<Rightarrow>
          (case rt_room t of
             None \<Rightarrow> t
           | Some room \<Rightarrow>
               (rt_push t ([RoCluster room (RtEnded (rt_name t) (rt_meta t))] @ rt_rec t now (RecTrackStopped (rt_id t)) @
                  [RoPeerEvent now (PeRemoteTrackEnded (rt_name t) (tm_kind (rt_meta t)))]))\<lparr>rt_shutdown := True\<rparr>))"

definition rt_on_rpc_req :: "remote_track \<Rightarrow> req_id \<Rightarrow> endpoint_remote_track_req \<Rightarrow> remote_track" where
  "rt_on_rpc_req t req_id req =
     (case req of
        RtReqConfig config \<Rightarrow>
          if rtc_priority config = 0
          then rt_push t [RoRpcRes req_id (RtResConfig (Inl RemoteTrackInvalidPriority))]
          else rt_push (t\<lparr>rt_meta := (rt_meta t)\<lparr>tm_control := rtc_control config\<rparr>\<rparr>)
                 [RoRpcRes req_id (RtResConfig (Inr ())), RoUpdate (tm_kind (rt_meta t)) (rtc_priority config)])"

definition rt_on_bitrate_allocation :: "remote_track \<Rightarrow> alloc_action \<Rightarrow> remote_track" where
  "rt_on_bitrate_allocation t action =
     (case action of
        SetBitrate bitrate \<Rightarrow>
          (let t1 = t\<lparr>rt_allocate_bitrate := Some (unat bitrate)\<rparr> in rt_push t1 (rt_limit_event t1)))"

definition rt_on_event :: "remote_track \<Rightarrow> nat \<Rightarrow> remote_input \<Rightarrow> remote_track res" where
  "rt_on_event t now input =
     (case input of
        RiJoinRoom room \<Rightarrow> rt_on_join_room t now room
      | RiLeaveRoom \<Rightarrow> rt_on_leave_room t now
      | RiCluster event \<Rightarrow> Inr (rt_on_cluster_event t event)
      | RiEvent event \<Rightarrow> Inr (rt_on_transport_event t now event)
      | RiRpcReq req_id req \<Rightarrow> Inr (rt_on_rpc_req t req_id req)
      | RiBitrateAllocation action \<Rightarrow> Inr (rt_on_bitrate_allocation t action))"

definition rt_on_shutdown :: "remote_track \<Rightarrow> nat \<Rightarrow> remote_track res" where
  "rt_on_shutdown t now =
     (if rt_shutdown t then Inr t
      else (let t1 = t\<lparr>rt_shutdown := True\<rparr> in if rt_room t1 \<noteq> None then rt_on_leave_room t1 now else Inr t1))"

definition rt_is_empty :: "remote_track \<Rightarrow> bool" where
  "rt_is_empty t \<longleftrightarrow> rt_shutdown t \<and> rt_queue t = []"

definition rt_pop_output :: "remote_track \<Rightarrow> remote_track \<times> remote_output option" where
  "rt_pop_output t = (case rt_queue t of [] \<Rightarrow> (t, None) | out # q \<Rightarrow> (t\<lparr>rt_queue := q\<rparr>, Some out))"

end
