(* ===== verification/Endpoint_Internal.thy ===== *)
theory Endpoint_Internal
  imports Local_Track Remote_Track
begin

text \<open>
  \<open>endpoint/internal.rs\<close>: the hub of an endpoint. It joins and leaves rooms, creates and removes the tracks,
  passes requests, events and bitrate decisions between transport, tracks, bitrate allocator and room.
  The tracks live in two task groups of \<open>sans_io_runtime\<close>: a group is a table from indices to tracks, an
  event for an index that has no task is dropped, the index a new task gets and the order in which tasks
  are polled are arguments. A loop that polls while the switcher has a task takes the turns it makes.
\<close>

section \<open>State\<close>

datatype internal_output = IoEvent transport_endpoint_event | IoPeerEvent nat peer_event
  | IoRecordEvent nat session_record_event | IoRpcRes req_id endpoint_res | IoCluster nat endpoint_control | IoResourceEmpty

record endpoint_cfg =
  cfg_app :: app_id
  cfg_max_egress_bitrate :: "64 word"
  cfg_max_ingress_bitrate :: "64 word"
  cfg_record :: bool

type_synonym wait_join =
  "(req_id \<times> room_id \<times> peer_id \<times> peer_meta \<times> room_info_publish \<times> room_info_subscribe \<times> audio_mixer_config option) option"

record endpoint_internal =
  ep_cfg :: endpoint_cfg
  ep_state :: "(nat \<times> transport_state) option"
  ep_wait_join :: wait_join
  ep_joined :: "(nat \<times> room_id \<times> peer_id \<times> audio_mixer_mode option) option"
  ep_local_tracks_id :: "(local_track_id, nat) imap2"
  ep_remote_tracks_id :: "(remote_track_id, nat) imap2"
  ep_local_tracks :: "(nat, local_track) imap"
  ep_remote_tracks :: "(nat, remote_track) imap"
  ep_bitrate_allocator :: bitrate_allocator
  ep_queue :: "internal_output list"
  ep_shutdown :: bool

text \<open>The allocator gets the ingress limit twice.\<close>

definition ep_new :: "endpoint_cfg \<Rightarrow> endpoint_internal" where
  "ep_new cfg =
     \<lparr>ep_cfg = cfg, ep_state = None, ep_wait_join = None, ep_joined = None, ep_local_tracks_id = i2_default,
      ep_remote_tracks_id = i2_default, ep_local_tracks = [], ep_remote_tracks = [],
      ep_bitrate_allocator = ba_new (cfg_max_ingress_bitrate cfg) (cfg_max_ingress_bitrate cfg), ep_queue = [],
      ep_shutdown = False\<rparr>"

definition ep_push :: "endpoint_internal \<Rightarrow> internal_output list \<Rightarrow> endpoint_internal" where
  "ep_push ep outs = ep\<lparr>ep_queue := ep_queue ep @ outs\<rparr>"

definition room_hash :: "('w, 'fb) externals \<Rightarrow> app_id \<Rightarrow> room_id \<Rightarrow> nat" where
  "room_hash x app room = x_hash x [HashStr app, HashStr room]"

section \<open>The task groups\<close>

definition local_event :: "endpoint_internal \<Rightarrow> nat \<Rightarrow> nat \<Rightarrow> local_input \<Rightarrow> endpoint_internal res" where
  "local_event ep now index input =
     (case im_get (ep_local_tracks ep) index of
        None \<Rightarrow> Inr ep
      | Some t \<Rightarrow> res_bind (lt_on_event t now input) (\<lambda>t1. Inr (ep\<lparr>ep_local_tracks := im_insert (ep_local_tracks ep) index t1\<rparr>)))"

definition remote_event :: "endpoint_internal \<Rightarrow> nat \<Rightarrow> nat \<Rightarrow> remote_input \<Rightarrow> endpoint_internal res" where
  "remote_event ep now index input =
     (case im_get (ep_remote_tracks ep) index of
        None \<Rightarrow> Inr ep
      | Some t \<Rightarrow> res_bind (rt_on_event t now input) (\<lambda>t1. Inr (ep\<lparr>ep_remote_tracks := im_insert (ep_remote_tracks ep) index t1\<rparr>)))"

text \<open>The loops over all tracks of a table of identifiers.\<close>

fun local_all :: "nat \<Rightarrow> local_input \<Rightarrow> (local_track_id \<times> nat) list \<Rightarrow> endpoint_internal \<Rightarrow> endpoint_internal res" where
  "local_all now input [] ep = Inr ep"
| "local_all now input ((_, index) # ps) ep = res_bind (local_event ep now index input) (local_all now input ps)"

fun remote_all :: "nat \<Rightarrow> remote_input \<Rightarrow> (remote_track_id \<times> nat) list \<Rightarrow> endpoint_internal \<Rightarrow> endpoint_internal res" where
  "remote_all now input [] ep = Inr ep"
| "remote_all now input ((_, index) # ps) ep = res_bind (remote_event ep now index input) (remote_all now input ps)"

definition ep_on_tick :: "endpoint_internal \<Rightarrow> nat \<Rightarrow> endpoint_internal" where
  "ep_on_tick ep now =
     ep\<lparr>ep_bitrate_allocator := ba_on_tick (ep_bitrate_allocator ep),
        ep_local_tracks := map (\<lambda>(i, t). (i, lt_on_tick t now)) (ep_local_tracks ep)\<rparr>"

section \<open>Outputs of the parts\<close>

datatype ep_turn = EtAllocator | EtLocal nat | EtLocalEmpty nat | EtRemote nat | EtRemoteEmpty nat | EtGroupEmpty

text \<open>A task that is removed is dropped, which asserts that its queue is empty.\<close>

definition drop_remote :: "endpoint_internal \<Rightarrow> nat \<Rightarrow> endpoint_internal res" where
  "drop_remote ep index =
     (case im_get (ep_remote_tracks ep) index of
        None \<Rightarrow> Inr ep
      | Some t \<Rightarrow> rassert (rt_queue t = []) (Inr (ep\<lparr>ep_remote_tracks := im_swap_remove (ep_remote_tracks ep) index\<rparr>)))"

definition drop_local :: "endpoint_internal \<Rightarrow> nat \<Rightarrow> endpoint_internal res" where
  "drop_local ep index =
     (case im_get (ep_local_tracks ep) index of
        None \<Rightarrow> Inr ep
      | Some t \<Rightarrow> rassert (lt_queue t = []) (Inr (ep\<lparr>ep_local_tracks := im_swap_remove (ep_local_tracks ep) index\<rparr>)))"

definition on_remote_output :: "endpoint_internal \<Rightarrow> nat \<Rightarrow> remote_output \<Rightarrow> endpoint_internal res" where
  "on_remote_output ep index out =
     res_bind (rexpect (i2_get2 (ep_remote_tracks_id ep) index)) (\<lambda>id1.
      case out of
        RoEvent event \<Rightarrow> Inr (ep_push ep [IoEvent (EvRemoteMediaTrack id1 event)])
      | RoCluster room control \<Rightarrow> Inr (ep_push ep [IoCluster room (CtlRemoteTrack id1 control)])
      | RoRpcRes req_id res \<Rightarrow> Inr (ep_push ep [IoRpcRes req_id (ResRemoteTrack id1 res)])
      | RoStarted kind prio \<Rightarrow>
          Inr (if kind_is_video kind
               then ep\<lparr>ep_bitrate_allocator := ba_set_ingress_video_track (ep_bitrate_allocator ep) id1 prio\<rparr> else ep)
      | RoUpdate kind prio \<Rightarrow>
          Inr (if kind_is_video kind
               then ep\<lparr>ep_bitrate_allocator := ba_set_ingress_video_track (ep_bitrate_allocator ep) id1 prio\<rparr> else ep)
      | RoStopped kind \<Rightarrow>
          drop_remote (if kind_is_video kind
            then ep\<lparr>ep_bitrate_allocator := ba_del_ingress_video_track (ep_bitrate_allocator ep) id1\<rparr> else ep) index
      | RoPeerEvent ts event \<Rightarrow> Inr (ep_push ep [IoPeerEvent ts event])
      | RoRecordEvent ts event \<Rightarrow> Inr (ep_push ep [IoRecordEvent ts event]))"

definition on_local_output :: "endpoint_internal \<Rightarrow> nat \<Rightarrow> local_output \<Rightarrow> endpoint_internal res" where
  "on_local_output ep index out =
     res_bind (rexpect (i2_get2 (ep_local_tracks_id ep) index)) (\<lambda>id1.
      case out of
        LoEvent event \<Rightarrow> Inr (ep_push ep [IoEvent (EvLocalMediaTrack id1 event)])
      | LoCluster room control \<Rightarrow> Inr (ep_push ep [IoCluster room (CtlLocalTrack id1 control)])
      | LoRpcRes req_id res \<Rightarrow> Inr (ep_push ep [IoRpcRes req_id (ResLocalTrack id1 res)])
      | LoBind kind prio \<Rightarrow>
          Inr (if kind_is_video kind
               then ep\<lparr>ep_bitrate_allocator := ba_set_egress_video_track (ep_bitrate_allocator ep) id1 prio\<rparr> else ep)
      | LoUpdated kind prio \<Rightarrow>
          Inr (if kind_is_video kind
               then ep\<lparr>ep_bitrate_allocator := ba_set_egress_video_track (ep_bitrate_allocator ep) id1 prio\<rparr> else ep)
      | LoUnbind kind \<Rightarrow>
          Inr (if kind_is_video kind
               then ep\<lparr>ep_bitrate_allocator := ba_del_egress_video_track (ep_bitrate_allocator ep) id1\<rparr> else ep)
      | LoPeerEvent ts event \<Rightarrow> Inr (ep_push ep [IoPeerEvent ts event])
      | LoResourceEmpty \<Rightarrow>
          res_bind (drop_local ep index) (\<lambda>ep1. Inr (ep1\<lparr>ep_local_tracks_id := fst (i2_remove1 (ep_local_tracks_id ep1) id1)\<rparr>)))"

definition pop_bitrate_allocator :: "endpoint_internal \<Rightarrow> nat \<Rightarrow> endpoint_internal res" where
  "pop_bitrate_allocator ep now =
     (case ba_pop_output (ep_bitrate_allocator ep) of
        (ba, None) \<Rightarrow> Inr (ep\<lparr>ep_bitrate_allocator := ba\<rparr>)
      | (ba, Some out) \<Rightarrow>
          (let ep1 = ep\<lparr>ep_bitrate_allocator := ba\<rparr> in
           case out of
             RemoteTrackOut track action \<Rightarrow>
               (case i2_get1 (ep_remote_tracks_id ep1) track of
                  None \<Rightarrow> Inr ep1
                | Some index \<Rightarrow> remote_event ep1 now index (RiBitrateAllocation action))
           | LocalTrackOut track action \<Rightarrow>
               (case i2_get1 (ep_local_tracks_id ep1) track of
                  None \<Rightarrow> Inr ep1
                | Some index \<Rightarrow> local_event ep1 now index (LiBitrateAllocation action))
           | BweConfigOut current desired \<Rightarrow> Inr (ep_push ep1 [IoEvent (EvBweConfig (unat current) (unat desired))])))"

text \<open>One turn: the allocator, a track, a track's report that it is empty, or the report of a group.\<close>

definition ep_poll :: "endpoint_internal \<Rightarrow> nat \<Rightarrow> ep_turn \<Rightarrow> endpoint_internal res" where
  "ep_poll ep now turn =
     (case turn of
        EtAllocator \<Rightarrow> pop_bitrate_allocator ep now
      | EtLocal i \<Rightarrow>
          (case im_get (ep_local_tracks ep) i of
             None \<Rightarrow> Inr ep
           | Some t \<Rightarrow>
               (case lt_pop_output t of
                  (t1, None) \<Rightarrow> Inr ep
                | (t1, Some out) \<Rightarrow> on_local_output (ep\<lparr>ep_local_tracks := im_insert (ep_local_tracks ep) i t1\<rparr>) i out))
      | EtLocalEmpty i \<Rightarrow>
          (case im_get (ep_local_tracks ep) i of None \<Rightarrow> Inr ep | Some t \<Rightarrow> on_local_output ep i LoResourceEmpty)
      | EtRemote i \<Rightarrow>
          (case im_get (ep_remote_tracks ep) i of
             None \<Rightarrow> Inr ep
           | Some t \<Rightarrow>
               (case rt_pop_output t of
                  (t1, None) \<Rightarrow> Inr ep
                | (t1, Some out) \<Rightarrow> on_remote_output (ep\<lparr>ep_remote_tracks := im_insert (ep_remote_tracks ep) i t1\<rparr>) i out))
      | EtRemoteEmpty i \<Rightarrow>
          (case im_get (ep_remote_tracks ep) i of None \<Rightarrow> Inr ep | Some t \<Rightarrow> on_remote_output ep i (RoStopped (tm_kind (rt_meta t))))
      | EtGroupEmpty \<Rightarrow> Inr ep)"

fun ep_drain :: "nat \<Rightarrow> ep_turn list \<Rightarrow> endpoint_internal \<Rightarrow> endpoint_internal res" where
  "ep_drain now [] ep = Inr ep"
| "ep_drain now (turn # turns) ep = res_bind (ep_poll ep now turn) (ep_drain now turns)"

fun ep_pop_loop :: "endpoint_internal \<Rightarrow> nat \<Rightarrow> ep_turn list \<Rightarrow> (endpoint_internal \<times> internal_output option) res" where
  "ep_pop_loop ep now [] = Inr (ep, None)"
| "ep_pop_loop ep now (turn # turns) =
     res_bind (ep_poll ep now turn) (\<lambda>ep1.
     case ep_queue ep1 of out # q \<Rightarrow> Inr (ep1\<lparr>ep_queue := q\<rparr>, Some out) | [] \<Rightarrow> ep_pop_loop ep1 now turns)"

definition ep_pop_output :: "endpoint_internal \<Rightarrow> nat \<Rightarrow> ep_turn list \<Rightarrow> (endpoint_internal \<times> internal_output option) res" where
  "ep_pop_output ep now turns =
     (case ep_queue ep of out # q \<Rightarrow> Inr (ep\<lparr>ep_queue := q\<rparr>, Some out) | [] \<Rightarrow> ep_pop_loop ep now turns)"

definition ep_is_empty :: "endpoint_internal \<Rightarrow> bool" where
  "ep_is_empty ep \<longleftrightarrow> ep_shutdown ep \<and> ep_queue ep = [] \<and> ep_local_tracks ep = [] \<and> ep_remote_tracks ep = []"

section \<open>Joining, leaving, shutting down\<close>

definition leave_outputs :: "endpoint_internal \<Rightarrow> nat \<Rightarrow> nat \<Rightarrow> room_id \<Rightarrow> peer_id \<Rightarrow> internal_output list" where
  "leave_outputs ep now hash room peer =
     [IoCluster hash CtlLeave] @ (if cfg_record (ep_cfg ep) then [IoRecordEvent now RecLeaveRoom] else []) @
     [IoPeerEvent now (PeLeave room peer)]"

definition leave_room :: "endpoint_internal \<Rightarrow> nat \<Rightarrow> ep_turn list \<Rightarrow> endpoint_internal res" where
  "leave_room ep now turns =
     (case ep_joined ep of
        None \<Rightarrow> Inr ep
      | Some (hash, room, peer, _) \<Rightarrow>
          (let ep0 = ep\<lparr>ep_joined := None\<rparr> in
           res_bind (local_all now LiLeaveRoom (i2_pairs (ep_local_tracks_id ep0)) ep0) (\<lambda>ep1.
           res_bind (remote_all now RiLeaveRoom (i2_pairs (ep_remote_tracks_id ep1)) ep1) (\<lambda>ep2.
           res_bind (ep_drain now turns ep2) (\<lambda>ep3.
           Inr (ep_push ep3 (leave_outputs ep3 now hash room peer)))))))"

definition join_room ::
  "('w, 'fb) externals \<Rightarrow> endpoint_internal \<Rightarrow> nat \<Rightarrow> ep_turn list \<Rightarrow> req_id \<Rightarrow> room_id \<Rightarrow> peer_id \<Rightarrow> peer_meta \<Rightarrow>
   room_info_publish \<Rightarrow> room_info_subscribe \<Rightarrow> audio_mixer_config option \<Rightarrow> endpoint_internal res" where
  "join_room x ep now turns req_id room peer meta publish subscribe mixer =
     (let hash = room_hash x (cfg_app (ep_cfg ep)) room in
      res_bind (leave_room (ep_push ep [IoRpcRes req_id (ResJoinRoom (Inr ()))]) now turns) (\<lambda>ep1.
      let ep2 = ep1\<lparr>ep_joined := Some (hash, room, peer, map_option mc_mode mixer)\<rparr>;
          ep3 = ep_push ep2
            ([IoCluster hash (CtlJoin peer meta publish subscribe mixer)] @
             (if cfg_record (ep_cfg ep2) then [IoRecordEvent now (RecJoinRoom (cfg_app (ep_cfg ep2)) room peer)] else []) @
             [IoPeerEvent now (PeJoin room peer)])
      in res_bind (local_all now (LiJoinRoom hash) (i2_pairs (ep_local_tracks_id ep3)) ep3) (\<lambda>ep4.
         remote_all now (RiJoinRoom hash) (i2_pairs (ep_remote_tracks_id ep4)) ep4)))"

text \<open>A group passes a shutdown to each of its tasks.\<close>

fun locals_shutdown :: "nat \<Rightarrow> (nat, local_track) imap \<Rightarrow> (nat, local_track) imap res" where
  "locals_shutdown now [] = Inr []"
| "locals_shutdown now ((i, t) # ts) =
     res_bind (lt_on_shutdown t now) (\<lambda>t1. res_bind (locals_shutdown now ts) (\<lambda>ts1. Inr ((i, t1) # ts1)))"

fun remotes_shutdown :: "nat \<Rightarrow> (nat, remote_track) imap \<Rightarrow> (nat, remote_track) imap res" where
  "remotes_shutdown now [] = Inr []"
| "remotes_shutdown now ((i, t) # ts) =
     res_bind (rt_on_shutdown t now) (\<lambda>t1. res_bind (remotes_shutdown now ts) (\<lambda>ts1. Inr ((i, t1) # ts1)))"

definition ep_on_shutdown :: "endpoint_internal \<Rightarrow> nat \<Rightarrow> ep_turn list \<Rightarrow> endpoint_internal res" where
  "ep_on_shutdown ep now turns =
     (if ep_shutdown ep then Inr ep
      else
        (let ep0 = ep\<lparr>ep_shutdown := True\<rparr> in
         res_bind (locals_shutdown now (ep_local_tracks ep0)) (\<lambda>ls.
         res_bind (remotes_shutdown now (ep_remote_tracks ep0)) (\<lambda>rs.
         res_bind (ep_drain now turns (ep0\<lparr>ep_local_tracks := ls, ep_remote_tracks := rs\<rparr>)) (\<lambda>ep1.
         case ep_joined ep1 of
           None \<Rightarrow> Inr ep1
         | Some (hash, room, peer, _) \<Rightarrow> Inr (ep_push (ep1\<lparr>ep_joined := None\<rparr>) (leave_outputs ep1 now hash room peer)))))))"

section \<open>Events of the transport\<close>

text \<open>\<open>pre_ts - now\<close> of two instants is zero when \<open>now\<close> is the later one.\<close>

definition ep_on_transport_state ::
  "('w, 'fb) externals \<Rightarrow> endpoint_internal \<Rightarrow> nat \<Rightarrow> ep_turn list \<Rightarrow> transport_state \<Rightarrow> endpoint_internal res" where
  "ep_on_transport_state x ep now turns state =
     (let pre_state = ep_state ep;
          ep0 = ep\<lparr>ep_state := Some (now, state)\<rparr>
      in case state of
           TsNew \<Rightarrow> Inr ep0
         | TsConnecting ip \<Rightarrow> Inr (ep_push ep0 [IoPeerEvent now (PeConnecting ip)])
         | TsConnectError err \<Rightarrow>
             res_bind (rexpect pre_state) (\<lambda>(pre_ts, _).
             ep_on_shutdown (ep_push ep0 [IoPeerEvent now (PeConnectError (as_u32 (pre_ts - now)) 0)]) now turns)
         | TsConnected ip \<Rightarrow>
             res_bind (rexpect pre_state) (\<lambda>(pre_ts, pre_event).
             let ep1 = ep_push ep0
                   [IoPeerEvent now (case pre_event of
                      TsReconnecting _ \<Rightarrow> PeReconnected (as_u32 (pre_ts - now)) ip
                    | _ \<Rightarrow> PeConnected (as_u32 (pre_ts - now)) ip)]
             in case ep_wait_join ep1 of
                  None \<Rightarrow> Inr ep1
                | Some (req_id, room, peer, meta, publish, subscribe, mixer) \<Rightarrow>
                    join_room x (ep1\<lparr>ep_wait_join := None\<rparr>) now turns req_id room peer meta publish subscribe mixer)
         | TsReconnecting ip \<Rightarrow> Inr (ep_push ep0 [IoPeerEvent now (PeReconnecting ip)])
         | TsDisconnected err \<Rightarrow>
             ep_on_shutdown
               (ep_push ep0 ([IoPeerEvent now (PeDisconnected 0 0)] @
                  (if cfg_record (ep_cfg ep0) then [IoRecordEvent now RecDisconnected] else []))) now turns)"

text \<open>\<open>new_index\<close> is the index \<open>add_task\<close> returns.\<close>

definition on_transport_remote_track ::
  "endpoint_internal \<Rightarrow> nat \<Rightarrow> nat \<Rightarrow> remote_track_id \<Rightarrow> transport_remote_track_event \<Rightarrow> endpoint_internal res" where
  "on_transport_remote_track ep new_index now track event =
     (let ep1 =
        (case remote_need_create event of
           None \<Rightarrow> ep
         | Some (name, prio, meta) \<Rightarrow>
             ep\<lparr>ep_remote_tracks := im_insert (ep_remote_tracks ep) new_index
                  (rt_new (map_option fst (ep_joined ep)) track name meta (cfg_record (ep_cfg ep))),
                ep_remote_tracks_id := i2_insert (ep_remote_tracks_id ep) track new_index\<rparr>)
      in case i2_get1 (ep_remote_tracks_id ep1) track of
           None \<Rightarrow> Inr ep1
         | Some index \<Rightarrow> remote_event ep1 now index (RiEvent event))"

definition on_transport_local_track ::
  "endpoint_internal \<Rightarrow> nat \<Rightarrow> nat \<Rightarrow> local_track_id \<Rightarrow> transport_local_track_event \<Rightarrow> endpoint_internal res" where
  "on_transport_local_track ep new_index now track event =
     (let ep1 =
        (case local_need_create event of
           None \<Rightarrow> ep
         | Some kind \<Rightarrow>
             ep_push (ep\<lparr>ep_local_tracks := im_insert (ep_local_tracks ep) new_index
                  (lt_new track kind (map_option fst (ep_joined ep))),
                ep_local_tracks_id := i2_insert (ep_local_tracks_id ep) track new_index\<rparr>)
               [IoPeerEvent now (PeLocalTrack track kind)])
      in case i2_get1 (ep_local_tracks_id ep1) track of
           None \<Rightarrow> Inr ep1
         | Some index \<Rightarrow> local_event ep1 now index (LiEvent event))"

definition ep_on_transport_event ::
  "('w, 'fb) externals \<Rightarrow> endpoint_internal \<Rightarrow> nat \<Rightarrow> nat \<Rightarrow> ep_turn list \<Rightarrow> transport_event \<Rightarrow> endpoint_internal res" where
  "ep_on_transport_event x ep new_index now turns event =
     (case event of
        TeState state \<Rightarrow> ep_on_transport_state x ep now turns state
      | TeRemoteTrack track ev \<Rightarrow> on_transport_remote_track ep new_index now track ev
      | TeLocalTrack track ev \<Rightarrow> on_transport_local_track ep new_index now track ev
      | TeStats \<Rightarrow> Inr ep
      | TeEgressBitrateEstimate bitrate \<Rightarrow>
          Inr (ep\<lparr>ep_bitrate_allocator := ba_set_egress_estimate (ep_bitrate_allocator ep) (min bitrate (cfg_max_egress_bitrate (ep_cfg ep)))\<rparr>))"

section \<open>Requests\<close>

text \<open>The answer and the control when the endpoint is in a room, the error answer when it is not.\<close>

definition in_room :: "endpoint_internal \<Rightarrow> req_id \<Rightarrow> (rpc_result \<Rightarrow> endpoint_res) \<Rightarrow> (peer_id \<Rightarrow> endpoint_control) \<Rightarrow> endpoint_internal" where
  "in_room ep req_id res control =
     (case ep_joined ep of
        Some (hash, _, peer, _) \<Rightarrow> ep_push ep [IoRpcRes req_id (res (Inr ())), IoCluster hash (control peer)]
      | None \<Rightarrow> ep_push ep [IoRpcRes req_id (res (Inl EndpointNotInRoom))])"

definition on_mixer_req :: "endpoint_internal \<Rightarrow> req_id \<Rightarrow> endpoint_audio_mixer_req \<Rightarrow> endpoint_internal" where
  "on_mixer_req ep req_id req =
     (let (res, control) =
        (case req of MixReqAttach sources \<Rightarrow> (MixResAttach, Attach sources) | MixReqDetach sources \<Rightarrow> (MixResDetach, Detach sources))
      in case ep_joined ep of
           Some (hash, _, _, Some MixerManual) \<Rightarrow>
             ep_push ep [IoRpcRes req_id (ResAudioMixer (res (Inr ()))), IoCluster hash (CtlAudioMixer control)]
         | _ \<Rightarrow> ep_push ep [IoRpcRes req_id (ResAudioMixer (res (Inl AudioMixerWrongMode)))])"

definition on_channel_req :: "endpoint_internal \<Rightarrow> req_id \<Rightarrow> channel_label \<Rightarrow> endpoint_message_channel_req \<Rightarrow> endpoint_internal" where
  "on_channel_req ep req_id label req =
     (case req of
        McReqSubscribe \<Rightarrow> in_room ep req_id (\<lambda>r. ResMessageChannel label (McResSubscribe r)) (\<lambda>_. CtlMessageChannel label McSubscribe)
      | McReqUnsubscribe \<Rightarrow> in_room ep req_id (\<lambda>r. ResMessageChannel label (McResUnsubscribe r)) (\<lambda>_. CtlMessageChannel label McUnsubscribe)
      | McReqStartPublish \<Rightarrow> in_room ep req_id (\<lambda>r. ResMessageChannel label (McResStartPublish r)) (\<lambda>_. CtlMessageChannel label McStartPublish)
      | McReqStopPublish \<Rightarrow> in_room ep req_id (\<lambda>r. ResMessageChannel label (McResStopPublish r)) (\<lambda>_. CtlMessageChannel label McStopPublish)
      | McReqPublishData data \<Rightarrow>
          in_room ep req_id (\<lambda>r. ResMessageChannel label (McResPublishData r)) (\<lambda>peer. CtlMessageChannel label (McPublishData peer data)))"

definition ep_on_transport_rpc ::
  "('w, 'fb) externals \<Rightarrow> endpoint_internal \<Rightarrow> nat \<Rightarrow> ep_turn list \<Rightarrow> req_id \<Rightarrow> endpoint_req \<Rightarrow> endpoint_internal res" where
  "ep_on_transport_rpc x ep now turns req_id req =
     (case req of
        ReqJoinRoom room peer meta publish subscribe mixer \<Rightarrow>
          (if (case ep_state ep of None \<Rightarrow> True | Some (_, TsConnecting _) \<Rightarrow> True | _ \<Rightarrow> False)
           then Inr (ep\<lparr>ep_wait_join := Some (req_id, room, peer, meta, publish, subscribe, mixer)\<rparr>)
           else join_room x ep now turns req_id room peer meta publish subscribe mixer)
      | ReqLeaveRoom \<Rightarrow>
          (case ep_wait_join ep of
             Some _ \<Rightarrow> Inr (ep_push (ep\<lparr>ep_wait_join := None\<rparr>) [IoRpcRes req_id (ResLeaveRoom (Inr ()))])
           | None \<Rightarrow> leave_room (ep_push ep [IoRpcRes req_id (ResLeaveRoom (Inr ()))]) now turns)
      | ReqSubscribePeer peer \<Rightarrow> Inr (in_room ep req_id ResSubscribePeer (\<lambda>_. CtlSubscribePeer peer))
      | ReqUnsubscribePeer peer \<Rightarrow> Inr (in_room ep req_id ResUnsubscribePeer (\<lambda>_. CtlUnsubscribePeer peer))
      | ReqRemoteTrack track req \<Rightarrow>
          (case i2_get1 (ep_remote_tracks_id ep) track of None \<Rightarrow> Inr ep | Some index \<Rightarrow> remote_event ep now index (RiRpcReq req_id req))
      | ReqLocalTrack track req \<Rightarrow>
          (case i2_get1 (ep_local_tracks_id ep) track of None \<Rightarrow> Inr ep | Some index \<Rightarrow> local_event ep now index (LiRpcReq req_id req))
      | ReqAudioMixer req \<Rightarrow> Inr (on_mixer_req ep req_id req)
      | ReqMessageChannel label req \<Rightarrow> Inr (on_channel_req ep req_id label req))"

section \<open>Events of the room\<close>

definition ep_on_cluster_event :: "endpoint_internal \<Rightarrow> nat \<Rightarrow> endpoint_event \<Rightarrow> endpoint_internal res" where
  "ep_on_cluster_event ep now event =
     (case event of
        PeerJoined peer meta \<Rightarrow> Inr (ep_push ep [IoEvent (EvPeerJoined peer meta)])
      | PeerLeaved peer meta \<Rightarrow> Inr (ep_push ep [IoEvent (EvPeerLeaved peer meta)])
      | TrackStarted peer track meta \<Rightarrow> Inr (ep_push ep [IoEvent (EvPeerTrackStarted peer track meta)])
      | TrackStopped peer track meta \<Rightarrow> Inr (ep_push ep [IoEvent (EvPeerTrackStopped peer track meta)])
      | AudioMixerEv (SlotSet slot peer track) \<Rightarrow> Inr (ep_push ep [IoEvent (EvAudioMixer (MixSlotSet slot peer track))])
      | AudioMixerEv (SlotUnset slot) \<Rightarrow> Inr (ep_push ep [IoEvent (EvAudioMixer (MixSlotUnset slot))])
      | RemoteTrackEv track ev \<Rightarrow>
          (case i2_get1 (ep_remote_tracks_id ep) track of None \<Rightarrow> Inr ep | Some index \<Rightarrow> remote_event ep now index (RiCluster ev))
      | LocalTrackEv track ev \<Rightarrow>
          (case i2_get1 (ep_local_tracks_id ep) track of None \<Rightarrow> Inr ep | Some index \<Rightarrow> local_event ep now index (LiCluster ev))
      | MessageChannelData label sender message \<Rightarrow> Inr (ep_push ep [IoEvent (EvChannelMessage label sender message)]))"

end
