(* ===== verification/Endpoint_Protocol.thy ===== *)
theory Endpoint_Protocol
  imports Endpoint_Internal
begin

text \<open>
  What an endpoint tells the cluster. The controls it sends are read by a small automaton: one room at a
  time is joined and left, everything in between is for that room, a local track subscribes and
  unsubscribes in turn and is unsubscribed before the room is left. The invariant relates the state of
  the automaton to the tracks and their queues. Shown: polling, joining, leaving and shutting down keep it.
\<close>

section \<open>The protocol\<close>

type_synonym speech = "(nat \<times> local_track_id set) option"

fun speak_control :: "speech \<Rightarrow> nat \<Rightarrow> endpoint_control \<Rightarrow> speech option" where
  "speak_control None h (CtlJoin peer meta publish subscribe mixer) = Some (Some (h, {}))"
| "speak_control None h c = None"
| "speak_control (Some (room, S)) h c =
     (if h \<noteq> room then None
      else (case c of
              CtlJoin peer meta publish subscribe mixer \<Rightarrow> None
            | CtlLeave \<Rightarrow> if S = {} then Some None else None
            | CtlLocalTrack t (LtSubscribe peer name) \<Rightarrow> if t \<in> S then None else Some (Some (room, insert t S))
            | CtlLocalTrack t LtUnsubscribe \<Rightarrow> if t \<in> S then Some (Some (room, S - {t})) else None
            | _ \<Rightarrow> Some (Some (room, S))))"

fun speak :: "speech \<Rightarrow> internal_output list \<Rightarrow> speech option" where
  "speak st [] = Some st"
| "speak st (IoCluster h c # outs) = Option.bind (speak_control st h c) (\<lambda>st1. speak st1 outs)"
| "speak st (out # outs) = speak st outs"

lemma speak_append: "speak st (outs @ outs1) = Option.bind (speak st outs) (\<lambda>st1. speak st1 outs1)"
proof (induction st outs rule: speak.induct)
  case (2 st h c outs)
  then show ?case by (cases "speak_control st h c") simp_all
qed simp_all

lemma speak_silent: "(\<And>h c. IoCluster h c \<notin> set outs) \<Longrightarrow> speak st outs = Some st"
proof (induction outs)
  case (Cons out outs)
  then show ?case by (cases out) auto
qed simp

abbreviation speech_room :: "speech \<Rightarrow> nat option" where
  "speech_room st \<equiv> map_option fst st"

definition subs :: "speech \<Rightarrow> local_track_id set" where
  "subs st = (case st of None \<Rightarrow> {} | Some (h, S) \<Rightarrow> S)"

section \<open>The invariant\<close>

definition local_task_ok :: "speech \<Rightarrow> local_track_id \<Rightarrow> local_track \<Rightarrow> bool" where
  "local_task_ok st id1 t \<longleftrightarrow> lt_inv t \<and> LoResourceEmpty \<notin> set (lt_queue t) \<and>
     (\<forall>h c. LoCluster h c \<in> set (lt_queue t) \<longrightarrow> speech_room st = Some h) \<and>
     (lt_room t \<noteq> None \<longrightarrow> lt_room t = speech_room st) \<and>
     toggles lt_cmd (if id1 \<in> subs st then {()} else {}) (lt_queue t) = Some (lt_active t)"

definition remote_task_ok :: "speech \<Rightarrow> remote_track \<Rightarrow> bool" where
  "remote_task_ok st t \<longleftrightarrow> (\<forall>k. RoStopped k \<notin> set (rt_queue t)) \<and>
     (\<forall>h c. RoCluster h c \<in> set (rt_queue t) \<longrightarrow> speech_room st = Some h) \<and>
     (rt_room t \<noteq> None \<longrightarrow> rt_room t = speech_room st)"

definition ep_base :: "speech \<Rightarrow> endpoint_internal \<Rightarrow> bool" where
  "ep_base st ep \<longleftrightarrow> i2_inv (ep_local_tracks_id ep) \<and> i2_inv (ep_remote_tracks_id ep) \<and>
     im_wf (ep_local_tracks ep) \<and> im_wf (ep_remote_tracks ep) \<and>
     (\<forall>i t. im_get (ep_local_tracks ep) i = Some t \<longrightarrow> (\<exists>id1. i2_get2 (ep_local_tracks_id ep) i = Some id1 \<and> local_task_ok st id1 t)) \<and>
     (\<forall>i t. im_get (ep_remote_tracks ep) i = Some t \<longrightarrow> i2_get2 (ep_remote_tracks_id ep) i \<noteq> None \<and> remote_task_ok st t) \<and>
     (\<forall>id1\<in>subs st. \<exists>i t. i2_get1 (ep_local_tracks_id ep) id1 = Some i \<and> im_get (ep_local_tracks ep) i = Some t)"

text \<open>Between calls every track is in the room the endpoint is in.\<close>

definition ep_rooms :: "nat option \<Rightarrow> endpoint_internal \<Rightarrow> bool" where
  "ep_rooms r ep \<longleftrightarrow> (\<forall>i t. im_get (ep_local_tracks ep) i = Some t \<longrightarrow> lt_room t = r \<and> \<not> lt_shutdown t) \<and>
     (\<forall>i t. im_get (ep_remote_tracks ep) i = Some t \<longrightarrow> rt_room t = r)"

definition ep_inv :: "speech \<Rightarrow> endpoint_internal \<Rightarrow> bool" where
  "ep_inv st ep \<longleftrightarrow> ep_base st ep \<and> ep_rooms (speech_room st) ep \<and> speech_room st = map_option fst (ep_joined ep)"

lemma ep_base_cong [simp]:
  "ep_base st (ep\<lparr>ep_queue := q\<rparr>) = ep_base st ep" "ep_base st (ep\<lparr>ep_bitrate_allocator := b\<rparr>) = ep_base st ep"
  "ep_base st (ep\<lparr>ep_joined := j\<rparr>) = ep_base st ep" "ep_base st (ep\<lparr>ep_state := s\<rparr>) = ep_base st ep"
  "ep_base st (ep\<lparr>ep_wait_join := w\<rparr>) = ep_base st ep" "ep_base st (ep\<lparr>ep_shutdown := sd\<rparr>) = ep_base st ep"
  "ep_base st (ep_push ep outs) = ep_base st ep"
  by (simp_all add: ep_base_def ep_push_def)

lemma ep_rooms_cong [simp]:
  "ep_rooms r (ep\<lparr>ep_queue := q\<rparr>) = ep_rooms r ep" "ep_rooms r (ep\<lparr>ep_bitrate_allocator := b\<rparr>) = ep_rooms r ep"
  "ep_rooms r (ep\<lparr>ep_joined := j\<rparr>) = ep_rooms r ep" "ep_rooms r (ep\<lparr>ep_state := s\<rparr>) = ep_rooms r ep"
  "ep_rooms r (ep\<lparr>ep_wait_join := w\<rparr>) = ep_rooms r ep" "ep_rooms r (ep\<lparr>ep_shutdown := sd\<rparr>) = ep_rooms r ep"
  "ep_rooms r (ep_push ep outs) = ep_rooms r ep"
  by (simp_all add: ep_rooms_def ep_push_def)

lemma ep_push_simps [simp]:
  "ep_queue (ep_push ep outs) = ep_queue ep @ outs" "ep_joined (ep_push ep outs) = ep_joined ep" "ep_state (ep_push ep outs) = ep_state ep"
  "ep_local_tracks (ep_push ep outs) = ep_local_tracks ep" "ep_remote_tracks (ep_push ep outs) = ep_remote_tracks ep"
  "ep_local_tracks_id (ep_push ep outs) = ep_local_tracks_id ep" "ep_remote_tracks_id (ep_push ep outs) = ep_remote_tracks_id ep"
  "ep_cfg (ep_push ep outs) = ep_cfg ep" "ep_wait_join (ep_push ep outs) = ep_wait_join ep" "ep_shutdown (ep_push ep outs) = ep_shutdown ep"
  "ep_bitrate_allocator (ep_push ep outs) = ep_bitrate_allocator ep"
  by (simp_all add: ep_push_def)

lemma ep_base_local:
  assumes "ep_base st ep" "im_get (ep_local_tracks ep) i = Some t"
  obtains id1 where "i2_get2 (ep_local_tracks_id ep) i = Some id1" "i2_get1 (ep_local_tracks_id ep) id1 = Some i" "local_task_ok st id1 t"
proof -
  obtain id1 where "i2_get2 (ep_local_tracks_id ep) i = Some id1" "local_task_ok st id1 t"
    using assms unfolding ep_base_def by blast
  moreover have "i2_inv (ep_local_tracks_id ep)" using assms(1) by (simp add: ep_base_def)
  ultimately show ?thesis using that by (simp add: i2_inverse)
qed

lemma ep_base_remote:
  assumes "ep_base st ep" "im_get (ep_remote_tracks ep) i = Some t"
  obtains id1 where "i2_get2 (ep_remote_tracks_id ep) i = Some id1" "remote_task_ok st t"
  using assms unfolding ep_base_def by blast

lemma base_local_update:
  assumes base: "ep_base st ep" and t: "im_get (ep_local_tracks ep) i = Some t" "i2_get2 (ep_local_tracks_id ep) i = Some id1"
    and t1: "local_task_ok st id1 t1"
  shows "ep_base st (ep\<lparr>ep_local_tracks := im_insert (ep_local_tracks ep) i t1\<rparr>)"
proof -
  let ?ep = "ep\<lparr>ep_local_tracks := im_insert (ep_local_tracks ep) i t1\<rparr>"
  have "\<exists>id1. i2_get2 (ep_local_tracks_id ep) j = Some id1 \<and> local_task_ok st id1 u" if "im_get (ep_local_tracks ?ep) j = Some u" for j u
    using base t t1 that unfolding ep_base_def by (cases "j = i") auto
  moreover have "\<exists>j u. i2_get1 (ep_local_tracks_id ep) id2 = Some j \<and> im_get (ep_local_tracks ?ep) j = Some u" if id2: "id2 \<in> subs st" for id2
  proof -
    obtain j u where "i2_get1 (ep_local_tracks_id ep) id2 = Some j" "im_get (ep_local_tracks ep) j = Some u"
      using base id2 unfolding ep_base_def by blast
    then show ?thesis by (cases "j = i") simp_all
  qed
  ultimately show ?thesis using base unfolding ep_base_def by simp
qed

lemma base_remote_update:
  assumes base: "ep_base st ep" and t: "im_get (ep_remote_tracks ep) i = Some t" and t1: "remote_task_ok st t1"
  shows "ep_base st (ep\<lparr>ep_remote_tracks := im_insert (ep_remote_tracks ep) i t1\<rparr>)"
  using base t t1 unfolding ep_base_def by auto

text \<open>A call of one task.\<close>

lemma local_task_step:
  assumes ok: "local_task_ok st id1 t" and step: "lt_ok t room (Inr t1)" and room: "room \<noteq> None \<longrightarrow> room = speech_room st"
  shows "local_task_ok st id1 t1"
proof -
  obtain new where n: "lt_inv t1" "lt_queue t1 = lt_queue t @ new" "toggles lt_cmd (lt_active t) new = Some (lt_active t1)"
      "\<forall>h c. LoCluster h c \<in> set new \<longrightarrow> lt_room t = Some h" "LoResourceEmpty \<notin> set new" "lt_room t1 = room"
    using step by (auto simp: lt_ok_def)
  have "speech_room st = Some h" if "LoCluster h c \<in> set new" for h c
    using n(4) ok that unfolding local_task_ok_def by fastforce
  then have "speech_room st = Some h" if "LoCluster h c \<in> set (lt_queue t1)" for h c
    using that ok n(2) unfolding local_task_ok_def by (metis Un_iff set_append)
  moreover have "toggles lt_cmd (if id1 \<in> subs st then {()} else {}) (lt_queue t1) = Some (lt_active t1)" "LoResourceEmpty \<notin> set (lt_queue t1)"
    using ok n unfolding local_task_ok_def by (simp_all add: toggles_append)
  ultimately show ?thesis using n(1,6) room unfolding local_task_ok_def by blast
qed

definition rt_ok :: "remote_track \<Rightarrow> nat option \<Rightarrow> remote_track res \<Rightarrow> bool" where
  "rt_ok t room r \<longleftrightarrow> (\<exists>t1 new. r = Inr t1 \<and> rt_queue t1 = rt_queue t @ new \<and> (\<forall>k. RoStopped k \<notin> set new) \<and>
     (\<forall>h c. RoCluster h c \<in> set new \<longrightarrow> rt_room t = Some h \<or> room = Some h) \<and> rt_room t1 = room)"

definition rt_pre :: "remote_track \<Rightarrow> remote_input \<Rightarrow> bool" where
  "rt_pre t input \<longleftrightarrow> (case input of RiJoinRoom room \<Rightarrow> rt_room t = None | RiLeaveRoom \<Rightarrow> rt_room t \<noteq> None | _ \<Rightarrow> True)"

lemma rt_push_simps [simp]:
  "rt_queue (rt_push t outs) = rt_queue t @ outs" "rt_room (rt_push t outs) = rt_room t" "rt_meta (rt_push t outs) = rt_meta t"
  "rt_record (rt_push t outs) = rt_record t" "rt_id (rt_push t outs) = rt_id t" "rt_name (rt_push t outs) = rt_name t"
  "rt_shutdown (rt_push t outs) = rt_shutdown t" "rt_last_layers (rt_push t outs) = rt_last_layers t"
  by (simp_all add: rt_push_def)

lemma rt_outs [simp]: "RoStopped k \<notin> set (rt_rec t now ev)" "RoCluster h c \<notin> set (rt_rec t now ev)"
  "RoStopped k \<notin> set (rt_limit_event t)" "RoCluster h c \<notin> set (rt_limit_event t)"
  by (auto simp: rt_rec_def rt_limit_event_def split: option.split)

lemma rt_event_ok:
  assumes "rt_pre t input"
  shows "rt_ok t (case input of RiJoinRoom room \<Rightarrow> Some room | RiLeaveRoom \<Rightarrow> None | _ \<Rightarrow> rt_room t) (rt_on_event t now input)"
proof (cases input)
  case (RiEvent ev)
  then show ?thesis
    by (cases ev) (auto simp: rt_ok_def rt_on_event_def rt_on_transport_event_def rt_on_media_def Let_def split: option.split)
next
  case (RiCluster ev)
  then show ?thesis by (cases ev) (auto simp: rt_ok_def rt_on_event_def rt_on_cluster_event_def Let_def)
next
  case (RiRpcReq q req)
  then show ?thesis by (cases req) (auto simp: rt_ok_def rt_on_event_def rt_on_rpc_req_def)
next
  case (RiBitrateAllocation a)
  then show ?thesis by (cases a) (auto simp: rt_ok_def rt_on_event_def rt_on_bitrate_allocation_def Let_def)
qed (use assms in \<open>auto simp: rt_ok_def rt_pre_def rt_on_event_def rt_on_join_room_def rt_on_leave_room_def\<close>)

lemma remote_task_step:
  assumes ok: "remote_task_ok st t" and step: "rt_ok t room (Inr t1)" and room: "room \<noteq> None \<longrightarrow> room = speech_room st"
  shows "remote_task_ok st t1"
  using assms unfolding remote_task_ok_def rt_ok_def by fastforce

section \<open>Polling the tracks\<close>

lemma local_task_cong:
  "speech_room st1 = speech_room st \<Longrightarrow> (id1 \<in> subs st1 \<longleftrightarrow> id1 \<in> subs st) \<Longrightarrow> local_task_ok st1 id1 t = local_task_ok st id1 t"
  unfolding local_task_ok_def by (simp only:)

lemma remote_task_cong: "speech_room st1 = speech_room st \<Longrightarrow> remote_task_ok st1 t = remote_task_ok st t"
  unfolding remote_task_ok_def by (simp only:)

lemma base_speech:
  assumes base: "ep_base st ep" and st1: "speech_room st1 = speech_room st" "\<And>id2. id2 \<noteq> id1 \<Longrightarrow> id2 \<in> subs st1 \<longleftrightarrow> id2 \<in> subs st"
    and t: "im_get (ep_local_tracks ep) i = Some t" "i2_get2 (ep_local_tracks_id ep) i = Some id1" and t1: "local_task_ok st1 id1 t1"
  shows "ep_base st1 (ep\<lparr>ep_local_tracks := im_insert (ep_local_tracks ep) i t1\<rparr>)"
proof -
  let ?ep = "ep\<lparr>ep_local_tracks := im_insert (ep_local_tracks ep) i t1\<rparr>"
  have inv: "i2_inv (ep_local_tracks_id ep)" using base by (simp add: ep_base_def)
  have "\<exists>id2. i2_get2 (ep_local_tracks_id ep) j = Some id2 \<and> local_task_ok st1 id2 u" if u: "im_get (ep_local_tracks ?ep) j = Some u" for j u
  proof (cases "j = i")
    case True
    then show ?thesis using u t(2) t1 by simp
  next
    case False
    then have "im_get (ep_local_tracks ep) j = Some u" using u by simp
    from base this obtain id2 where id2: "i2_get2 (ep_local_tracks_id ep) j = Some id2" "i2_get1 (ep_local_tracks_id ep) id2 = Some j"
        "local_task_ok st id2 u" by (rule ep_base_local)
    then have "id2 \<noteq> id1" using False t(2) i2_inverse[OF inv, of id1 i] by auto
    then show ?thesis using id2 st1 local_task_cong[of st1 st id2 u] by simp
  qed
  moreover have "\<exists>j u. i2_get1 (ep_local_tracks_id ep) id2 = Some j \<and> im_get (ep_local_tracks ?ep) j = Some u" if id2: "id2 \<in> subs st1" for id2
  proof (cases "id2 = id1")
    case True
    then show ?thesis using t(2) i2_inverse[OF inv] by auto
  next
    case False
    then obtain j u where "i2_get1 (ep_local_tracks_id ep) id2 = Some j" "im_get (ep_local_tracks ep) j = Some u"
      using base id2 st1(2) unfolding ep_base_def by blast
    then show ?thesis by (cases "j = i") simp_all
  qed
  moreover have "remote_task_ok st1 u" if "im_get (ep_remote_tracks ep) j = Some u" for j u
    using base that st1(1) remote_task_cong[of st1 st u] unfolding ep_base_def by blast
  ultimately show ?thesis using base unfolding ep_base_def by simp
qed

text \<open>What a local task passes on is said in the protocol.\<close>

lemma local_task_pop:
  assumes ok: "local_task_ok st id1 t" and q: "lt_queue t = LoCluster h c # rest"
  shows "\<exists>st1. speak_control st h (CtlLocalTrack id1 c) = Some st1 \<and> speech_room st1 = speech_room st \<and>
    (\<forall>id2. id2 \<noteq> id1 \<longrightarrow> (id2 \<in> subs st1 \<longleftrightarrow> id2 \<in> subs st)) \<and> local_task_ok st1 id1 (t\<lparr>lt_queue := rest\<rparr>)"
proof -
  have "speech_room st = Some h" using ok q unfolding local_task_ok_def by (metis list.set_intros(1))
  then obtain S where st: "st = Some (h, S)" by auto
  have inv: "lt_inv (t\<lparr>lt_queue := rest\<rparr>)" "lt_active (t\<lparr>lt_queue := rest\<rparr>) = lt_active t"
    using ok by (simp_all add: local_task_ok_def lt_inv_def lt_active_def)
  have tg: "toggles lt_cmd (if id1 \<in> S then {()} else {}) (LoCluster h c # rest) = Some (lt_active t)"
    using ok q st by (simp add: local_task_ok_def subs_def)
  have rest: "LoResourceEmpty \<notin> set rest" "\<And>h1 c1. LoCluster h1 c1 \<in> set rest \<Longrightarrow> h1 = h" "lt_room t \<noteq> None \<Longrightarrow> lt_room t = Some h"
    using ok q st unfolding local_task_ok_def by force+
  show ?thesis
  proof (cases c)
    case (LtSubscribe p n)
    then have "id1 \<notin> S" using tg by (auto split: if_splits)
    then show ?thesis using LtSubscribe st tg inv rest by (intro exI[of _ "Some (h, insert id1 S)"]) (auto simp: local_task_ok_def subs_def)
  next
    case LtUnsubscribe
    then have "id1 \<in> S" using tg by (auto split: if_splits)
    then show ?thesis using LtUnsubscribe st tg inv rest by (intro exI[of _ "Some (h, S - {id1})"]) (auto simp: local_task_ok_def subs_def)
  qed (use st tg inv rest in \<open>auto simp: local_task_ok_def subs_def\<close>)
qed

definition ep_keeps :: "endpoint_internal \<Rightarrow> endpoint_internal \<Rightarrow> bool" where
  "ep_keeps ep ep1 \<longleftrightarrow> ep_cfg ep1 = ep_cfg ep \<and> ep_state ep1 = ep_state ep \<and> ep_wait_join ep1 = ep_wait_join ep \<and>
     ep_joined ep1 = ep_joined ep \<and> ep_shutdown ep1 = ep_shutdown ep \<and>
     (\<forall>i t1. im_get (ep_local_tracks ep1) i = Some t1 \<longrightarrow>
        (\<exists>t. im_get (ep_local_tracks ep) i = Some t \<and> lt_room t1 = lt_room t \<and> lt_shutdown t1 = lt_shutdown t)) \<and>
     (\<forall>i t1. im_get (ep_remote_tracks ep1) i = Some t1 \<longrightarrow>
        (\<exists>t. im_get (ep_remote_tracks ep) i = Some t \<and> rt_room t1 = rt_room t \<and> (rt_shutdown t \<longrightarrow> rt_shutdown t1)))"

lemma ep_keeps_refl [simp]: "ep_keeps ep ep"
  by (simp add: ep_keeps_def)

lemma ep_keeps_trans: "ep_keeps ep ep1 \<Longrightarrow> ep_keeps ep1 ep2 \<Longrightarrow> ep_keeps ep ep2"
  unfolding ep_keeps_def by (intro conjI) (metis, metis, metis, metis, metis, metis, metis)

lemma ep_keeps_rooms: "ep_keeps ep ep1 \<Longrightarrow> ep_rooms r ep \<Longrightarrow> ep_rooms r ep1"
  unfolding ep_keeps_def ep_rooms_def by metis

text \<open>A step of an endpoint: it appends to the queue, in the protocol, and keeps the base of the invariant.\<close>

definition ep_says :: "speech \<Rightarrow> endpoint_internal \<Rightarrow> speech \<Rightarrow> endpoint_internal \<Rightarrow> bool" where
  "ep_says st ep st1 ep1 \<longleftrightarrow> (\<exists>outs. ep_queue ep1 = ep_queue ep @ outs \<and> speak st outs = Some st1) \<and> ep_base st1 ep1"

lemma ep_saysI: "ep_queue ep1 = ep_queue ep @ outs \<Longrightarrow> speak st outs = Some st1 \<Longrightarrow> ep_base st1 ep1 \<Longrightarrow> ep_says st ep st1 ep1"
  unfolding ep_says_def by blast

lemma ep_says_refl: "ep_base st ep \<Longrightarrow> ep_says st ep st ep"
  by (rule ep_saysI[of _ _ "[]"]) simp_all

lemma ep_says_trans:
  assumes "ep_says st ep st1 ep1" "ep_says st1 ep1 st2 ep2"
  shows "ep_says st ep st2 ep2"
proof -
  obtain a where a: "ep_queue ep1 = ep_queue ep @ a" "speak st a = Some st1" using assms(1) by (auto simp: ep_says_def)
  obtain b where b: "ep_queue ep2 = ep_queue ep1 @ b" "speak st1 b = Some st2" "ep_base st2 ep2" using assms(2) by (auto simp: ep_says_def)
  show ?thesis by (rule ep_saysI[of _ _ "a @ b"]) (use a b in \<open>simp_all add: speak_append\<close>)
qed

definition ep_step :: "speech \<Rightarrow> endpoint_internal \<Rightarrow> endpoint_internal res \<Rightarrow> bool" where
  "ep_step st ep r \<longleftrightarrow> (\<exists>ep1 st1. r = Inr ep1 \<and> ep_says st ep st1 ep1 \<and> speech_room st1 = speech_room st \<and> ep_keeps ep ep1)"

lemma ep_stepI: "ep_says st ep st1 ep1 \<Longrightarrow> speech_room st1 = speech_room st \<Longrightarrow> ep_keeps ep ep1 \<Longrightarrow> ep_step st ep (Inr ep1)"
  unfolding ep_step_def by blast

lemma ep_step_silent:
  assumes "ep_base st ep1" "ep_keeps ep ep1" "ep_queue ep1 = ep_queue ep @ outs" "\<And>h c. IoCluster h c \<notin> set outs"
  shows "ep_step st ep (Inr ep1)"
  using assms by (intro ep_stepI[of st ep st] ep_saysI[of _ _ outs]) (simp_all add: speak_silent)

lemma keeps_local:
  assumes "im_get (ep_local_tracks ep) i = Some t" "lt_room t1 = lt_room t" "lt_shutdown t1 = lt_shutdown t"
  shows "ep_keeps ep (ep\<lparr>ep_local_tracks := im_insert (ep_local_tracks ep) i t1\<rparr>)"
  using assms by (simp add: ep_keeps_def)

lemma keeps_remote:
  assumes "im_get (ep_remote_tracks ep) i = Some t" "rt_room t1 = rt_room t" "rt_shutdown t \<longrightarrow> rt_shutdown t1"
  shows "ep_keeps ep (ep\<lparr>ep_remote_tracks := im_insert (ep_remote_tracks ep) i t1\<rparr>)"
  using assms by (simp add: ep_keeps_def)

lemma local_event_step:
  assumes base: "ep_base st ep" and pre: "\<And>t. im_get (ep_local_tracks ep) i = Some t \<Longrightarrow> lt_pre t input"
    and input: "\<And>room. input \<noteq> LiJoinRoom room" "input \<noteq> LiLeaveRoom"
  shows "ep_step st ep (local_event ep now i input)"
proof (cases "im_get (ep_local_tracks ep) i")
  case None
  then show ?thesis using base by (simp add: local_event_def ep_step_silent[of st ep ep "[]"])
next
  case (Some t)
  from base this obtain id1 where id1: "i2_get2 (ep_local_tracks_id ep) i = Some id1" "local_task_ok st id1 t" by (rule ep_base_local)
  have r: "room_after_input t input = lt_room t" using input by (cases input) (auto simp: room_after_input_def)
  have "lt_ok t (lt_room t) (lt_on_event t now input)"
    using lt_event_ok[OF _ pre[OF Some]] id1(2) r by (simp add: local_task_ok_def)
  moreover from this obtain t1 where t1: "lt_on_event t now input = Inr t1" "lt_room t1 = lt_room t" "lt_shutdown t1 = lt_shutdown t"
    by (auto simp: lt_ok_def)
  moreover have "lt_room t \<noteq> None \<longrightarrow> lt_room t = speech_room st" using id1(2) unfolding local_task_ok_def by blast
  ultimately have "local_task_ok st id1 t1" using local_task_step[OF id1(2), of "lt_room t" t1] by simp
  from base_local_update[OF base Some id1(1) this] keeps_local[OF Some t1(2,3)] show ?thesis
    using Some t1(1) by (simp add: local_event_def ep_step_silent[of _ _ _ "[]"])
qed

lemma rt_event_shutdown: "rt_on_event t now input = Inr t1 \<Longrightarrow> rt_shutdown t \<Longrightarrow> rt_shutdown t1"
  by (auto simp: rt_on_event_def rt_on_join_room_def rt_on_leave_room_def rt_on_cluster_event_def rt_on_transport_event_def rt_on_media_def
      rt_on_rpc_req_def rt_on_bitrate_allocation_def rassert_def rexpect_def Let_def
      split: remote_input.splits if_splits option.splits remote_track_event.splits transport_remote_track_event.splits
        endpoint_remote_track_req.splits alloc_action.splits)

lemma remote_event_step:
  assumes base: "ep_base st ep" and input: "\<And>room. input \<noteq> RiJoinRoom room" "input \<noteq> RiLeaveRoom"
  shows "ep_step st ep (remote_event ep now i input)"
proof (cases "im_get (ep_remote_tracks ep) i")
  case None
  then show ?thesis using base by (simp add: remote_event_def ep_step_silent[of st ep ep "[]"])
next
  case (Some t)
  from base this have ok: "remote_task_ok st t" by (rule ep_base_remote)
  have "rt_ok t (rt_room t) (rt_on_event t now input)"
    using rt_event_ok[of t input now] input by (cases input) (auto simp: rt_pre_def)
  moreover from this obtain t1 where t1: "rt_on_event t now input = Inr t1" "rt_room t1 = rt_room t" by (auto simp: rt_ok_def)
  moreover have "rt_room t \<noteq> None \<longrightarrow> rt_room t = speech_room st" using ok unfolding remote_task_ok_def by blast
  ultimately have "remote_task_ok st t1" using remote_task_step[OF ok, of "rt_room t" t1] by simp
  from base_remote_update[OF base Some this] keeps_remote[OF Some t1(2)] show ?thesis
    using Some t1(1) rt_event_shutdown[OF t1(1)] by (simp add: remote_event_def ep_step_silent[of _ _ _ "[]"])
qed

lemma keeps_update [simp]:
  "ep_keeps ep (ep1\<lparr>ep_bitrate_allocator := b\<rparr>) = ep_keeps ep ep1" "ep_keeps (ep\<lparr>ep_bitrate_allocator := b\<rparr>) ep1 = ep_keeps ep ep1"
  "ep_keeps ep (ep_push ep1 outs) = ep_keeps ep ep1" "ep_keeps ep (ep1\<lparr>ep_queue := q\<rparr>) = ep_keeps ep ep1"
  by (simp_all add: ep_keeps_def)

lemma step_allocator [simp]: "ep_step st (ep\<lparr>ep_bitrate_allocator := b\<rparr>) r = ep_step st ep r"
  by (simp add: ep_step_def ep_says_def)

lemma allocator_step:
  assumes base: "ep_base st ep"
  shows "ep_step st ep (pop_bitrate_allocator ep now)"
proof -
  obtain ba out where o: "ba_pop_output (ep_bitrate_allocator ep) = (ba, out)" by fastforce
  let ?ep = "ep\<lparr>ep_bitrate_allocator := ba\<rparr>"
  have b: "ep_base st ?ep" using base by simp
  have same: "ep_step st ep (Inr ?ep)" using base by (intro ep_step_silent[of _ _ _ "[]"]) simp_all
  have l: "ep_step st ep (local_event ?ep now i (LiBitrateAllocation a))" for i a
    using local_event_step[OF b, of i "LiBitrateAllocation a" now] by (simp add: lt_pre_def)
  have r: "ep_step st ep (remote_event ?ep now i (RiBitrateAllocation a))" for i a
    using remote_event_step[OF b, of "RiBitrateAllocation a" now i] by simp
  have p: "ep_step st ep (Inr (ep_push ?ep [IoEvent ev]))" for ev
    using base by (intro ep_step_silent[of _ _ _ "[IoEvent ev]"]) simp_all
  show ?thesis using o same l r p by (cases out) (auto simp: pop_bitrate_allocator_def Let_def split: alloc_output.split option.split)
qed

text \<open>A group reports a task as empty only when it is.\<close>

definition turn_ok :: "endpoint_internal \<Rightarrow> ep_turn \<Rightarrow> bool" where
  "turn_ok ep turn \<longleftrightarrow>
     (case turn of
        EtLocalEmpty i \<Rightarrow> (case im_get (ep_local_tracks ep) i of None \<Rightarrow> True | Some t \<Rightarrow> lt_is_empty t)
      | EtRemoteEmpty i \<Rightarrow> (case im_get (ep_remote_tracks ep) i of None \<Rightarrow> True | Some t \<Rightarrow> rt_is_empty t)
      | _ \<Rightarrow> True)"

lemma local_pop_step:
  assumes base: "ep_base st ep" and t: "im_get (ep_local_tracks ep) i = Some t" and q: "lt_queue t = out # rest"
  shows "ep_step st ep (on_local_output (ep\<lparr>ep_local_tracks := im_insert (ep_local_tracks ep) i (t\<lparr>lt_queue := rest\<rparr>)\<rparr>) i out)"
proof -
  let ?t1 = "t\<lparr>lt_queue := rest\<rparr>"
  let ?ep = "ep\<lparr>ep_local_tracks := im_insert (ep_local_tracks ep) i ?t1\<rparr>"
  from base t obtain id1 where id1: "i2_get2 (ep_local_tracks_id ep) i = Some id1" "local_task_ok st id1 t" by (rule ep_base_local)
  have keep: "ep_keeps ep ?ep" using t by (rule keeps_local) simp_all
  have n: "out \<noteq> LoResourceEmpty" using id1(2) q by (auto simp: local_task_ok_def)
  show ?thesis
  proof (cases "\<exists>h c. out = LoCluster h c")
    case True
    then obtain h c where out: "out = LoCluster h c" by blast
    from local_task_pop[OF id1(2)] q out obtain st1 where st1: "speak_control st h (CtlLocalTrack id1 c) = Some st1"
        "speech_room st1 = speech_room st" "\<forall>id2. id2 \<noteq> id1 \<longrightarrow> (id2 \<in> subs st1 \<longleftrightarrow> id2 \<in> subs st)" "local_task_ok st1 id1 ?t1" by blast
    have "ep_base st1 ?ep" using base_speech[OF base st1(2) _ t id1(1) st1(4)] st1(3) by blast
    then have "ep_step st ep (Inr (ep_push ?ep [IoCluster h (CtlLocalTrack id1 c)]))"
      using st1 keep by (intro ep_stepI[of st ep st1] ep_saysI[of _ _ "[IoCluster h (CtlLocalTrack id1 c)]"]) simp_all
    then show ?thesis using out id1(1) by (simp add: on_local_output_def rexpect_def)
  next
    case False
    then have "lt_cmd out = None" using n by (cases out) auto
    moreover have "\<forall>h c. LoCluster h c \<in> set rest \<longrightarrow> speech_room st = Some h"
      using id1(2) q unfolding local_task_ok_def by (metis list.set_intros(2))
    ultimately have "local_task_ok st id1 ?t1" using id1(2) q by (simp add: local_task_ok_def lt_inv_def lt_active_def)
    from base_local_update[OF base t id1(1) this] have b: "ep_base st ?ep" .
    have e: "ep_step st ep (Inr (ep_push ?ep outs))" if "\<And>h c. IoCluster h c \<notin> set outs" for outs
      using b keep that by (intro ep_step_silent[of _ _ _ outs]) simp_all
    have a: "ep_step st ep (Inr (?ep\<lparr>ep_bitrate_allocator := ba\<rparr>))" "ep_step st ep (Inr ?ep)" for ba
      using b keep by (intro ep_step_silent[of _ _ _ "[]"]; simp)+
    show ?thesis using e a False n id1(1) by (cases out) (simp_all add: on_local_output_def rexpect_def)
  qed
qed

lemma remote_pop_step:
  assumes base: "ep_base st ep" and t: "im_get (ep_remote_tracks ep) i = Some t" and q: "rt_queue t = out # rest"
  shows "ep_step st ep (on_remote_output (ep\<lparr>ep_remote_tracks := im_insert (ep_remote_tracks ep) i (t\<lparr>rt_queue := rest\<rparr>)\<rparr>) i out)"
proof -
  let ?ep = "ep\<lparr>ep_remote_tracks := im_insert (ep_remote_tracks ep) i (t\<lparr>rt_queue := rest\<rparr>)\<rparr>"
  from base t obtain id1 where id1: "i2_get2 (ep_remote_tracks_id ep) i = Some id1" "remote_task_ok st t" by (rule ep_base_remote)
  have keep: "ep_keeps ep ?ep" using t by (rule keeps_remote) simp_all
  have n: "out \<noteq> RoStopped k" for k using id1(2) q by (auto simp: remote_task_ok_def)
  have "\<forall>h c. RoCluster h c \<in> set (out # rest) \<longrightarrow> speech_room st = Some h" using id1(2) q unfolding remote_task_ok_def by metis
  then have h: "speech_room st = Some h" if "out = RoCluster h c \<or> RoCluster h c \<in> set rest" for h c using that by (metis list.set_intros)
  then have "remote_task_ok st (t\<lparr>rt_queue := rest\<rparr>)" using id1(2) q unfolding remote_task_ok_def by simp
  from base_remote_update[OF base t this] have b: "ep_base st ?ep" .
  have e: "ep_step st ep (Inr (ep_push ?ep outs))" if "\<And>h c. IoCluster h c \<notin> set outs" for outs
    using b keep that by (intro ep_step_silent[of _ _ _ outs]) simp_all
  have a: "ep_step st ep (Inr (?ep\<lparr>ep_bitrate_allocator := ba\<rparr>))" "ep_step st ep (Inr ?ep)" for ba
    using b keep by (intro ep_step_silent[of _ _ _ "[]"]; simp)+
  have c: "ep_step st ep (Inr (ep_push ?ep [IoCluster h (CtlRemoteTrack id1 c)]))" if out: "out = RoCluster h c" for h c
  proof -
    have "speech_room st = Some h" using h out by blast
    then obtain S where "st = Some (h, S)" by auto
    then show ?thesis using b keep
      by (intro ep_stepI[of st ep st] ep_saysI[of _ _ "[IoCluster h (CtlRemoteTrack id1 c)]"]) simp_all
  qed
  show ?thesis using e a c n id1(1) by (cases out) (auto simp: on_remote_output_def rexpect_def)
qed

lemma local_empty_step:
  assumes base: "ep_base st ep" and t: "im_get (ep_local_tracks ep) i = Some t" and empty: "lt_is_empty t"
  shows "ep_step st ep (on_local_output ep i LoResourceEmpty)"
proof -
  from base t obtain id1 where id1: "i2_get2 (ep_local_tracks_id ep) i = Some id1" "i2_get1 (ep_local_tracks_id ep) id1 = Some i"
      "local_task_ok st id1 t" by (rule ep_base_local)
  have inv: "i2_inv (ep_local_tracks_id ep)" "im_wf (ep_local_tracks ep)" using base by (simp_all add: ep_base_def)
  let ?ids = "fst (i2_remove1 (ep_local_tracks_id ep) id1)"
  let ?ep = "ep\<lparr>ep_local_tracks := im_swap_remove (ep_local_tracks ep) i, ep_local_tracks_id := ?ids\<rparr>"
  note r = i2_remove1_get[OF inv(1) id1(2)]
  have "id1 \<notin> subs st" using id1(3) empty by (auto simp: local_task_ok_def lt_is_empty_def lt_active_def lt_inv_def split: if_splits)
  then have s: "\<exists>j u. i2_get1 ?ids id2 = Some j \<and> im_get (ep_local_tracks ?ep) j = Some u" if id2: "id2 \<in> subs st" for id2
  proof -
    obtain j u where j: "i2_get1 (ep_local_tracks_id ep) id2 = Some j" "im_get (ep_local_tracks ep) j = Some u"
      using base id2 unfolding ep_base_def by blast
    moreover have "id2 \<noteq> id1" using id2 \<open>id1 \<notin> subs st\<close> by blast
    moreover from this have "j \<noteq> i" using j(1) id1(1) i2_inverse[OF inv(1), of id2 i] by auto
    ultimately show ?thesis using r(2) inv(2) by simp
  qed
  have l: "\<exists>id2. i2_get2 ?ids j = Some id2 \<and> local_task_ok st id2 u" if "im_get (ep_local_tracks ?ep) j = Some u" for j u
  proof -
    have "j \<noteq> i" "im_get (ep_local_tracks ep) j = Some u" using that inv(2) by (auto split: if_splits)
    then show ?thesis using base r(3) unfolding ep_base_def by simp
  qed
  have "ep_base st ?ep" using base l s r(4) inv(2) unfolding ep_base_def by simp
  moreover have "ep_keeps ep ?ep" using inv(2) by (simp add: ep_keeps_def)
  ultimately show ?thesis using id1(1) t empty
    by (simp add: on_local_output_def drop_local_def lt_is_empty_def rexpect_def rassert_def ep_step_silent[of _ _ _ "[]"])
qed

lemma remote_empty_step:
  assumes base: "ep_base st ep" and t: "im_get (ep_remote_tracks ep) i = Some t" and empty: "rt_is_empty t"
  shows "ep_step st ep (on_remote_output ep i (RoStopped kind))"
proof -
  from base t obtain id1 where id1: "i2_get2 (ep_remote_tracks_id ep) i = Some id1" by (rule ep_base_remote)
  have inv: "im_wf (ep_remote_tracks ep)" using base by (simp add: ep_base_def)
  let ?rs = "im_swap_remove (ep_remote_tracks ep) i"
  have "ep_base st (ep\<lparr>ep_remote_tracks := ?rs\<rparr>)" "ep_base st (ep\<lparr>ep_bitrate_allocator := ba, ep_remote_tracks := ?rs\<rparr>)" for ba
    using base inv unfolding ep_base_def by simp_all
  moreover have "ep_keeps ep (ep\<lparr>ep_remote_tracks := ?rs\<rparr>)" "ep_keeps ep (ep\<lparr>ep_bitrate_allocator := ba, ep_remote_tracks := ?rs\<rparr>)" for ba
    using inv by (simp_all add: ep_keeps_def)
  ultimately show ?thesis using id1 t empty
    by (simp add: on_remote_output_def drop_remote_def rt_is_empty_def rexpect_def rassert_def ep_step_silent[of _ _ _ "[]"])
qed

lemma poll_step:
  assumes base: "ep_base st ep" and turn: "turn_ok ep turn"
  shows "ep_step st ep (ep_poll ep now turn)"
proof -
  have same: "ep_step st ep (Inr ep)" by (rule ep_step_silent[OF base, of ep "[]"]) simp_all
  show ?thesis
  proof (cases turn)
    case EtAllocator
    then show ?thesis using allocator_step[OF base] by (simp add: ep_poll_def)
  next
    case (EtLocal i)
    then show ?thesis using same local_pop_step[OF base, of i]
      by (auto simp: ep_poll_def lt_pop_output_def split: option.split list.split)
  next
    case (EtLocalEmpty i)
    then show ?thesis using same turn local_empty_step[OF base, of i] by (auto simp: ep_poll_def turn_ok_def split: option.splits)
  next
    case (EtRemote i)
    then show ?thesis using same remote_pop_step[OF base, of i]
      by (auto simp: ep_poll_def rt_pop_output_def split: option.split list.split)
  next
    case (EtRemoteEmpty i)
    then show ?thesis using same turn remote_empty_step[OF base, of i] by (auto simp: ep_poll_def turn_ok_def split: option.splits)
  qed (use same in \<open>simp add: ep_poll_def\<close>)
qed

lemma ep_step_bind:
  assumes "ep_step st ep r" and f: "\<And>ep1 st1. ep_base st1 ep1 \<Longrightarrow> r = Inr ep1 \<Longrightarrow> ep_step st1 ep1 (f ep1)"
  shows "ep_step st ep (res_bind r f)"
proof -
  obtain ep1 st1 where 1: "r = Inr ep1" "ep_says st ep st1 ep1" "speech_room st1 = speech_room st" "ep_keeps ep ep1"
    using assms(1) by (auto simp: ep_step_def)
  have "ep_base st1 ep1" using 1(2) by (simp add: ep_says_def)
  from f[OF this 1(1)] obtain ep2 st2 where 2: "f ep1 = Inr ep2" "ep_says st1 ep1 st2 ep2" "speech_room st2 = speech_room st1" "ep_keeps ep1 ep2"
    by (auto simp: ep_step_def)
  have "ep_step st ep (Inr ep2)"
    using ep_stepI[OF ep_says_trans[OF 1(2) 2(2)] _ ep_keeps_trans[OF 1(4) 2(4)]] 1(3) 2(3) by simp
  then show ?thesis using 1(1) 2(1) by simp
qed

text \<open>The turns a loop makes, and the state in which it ends: every queue is empty and a task that is shut
  down has been removed.\<close>

fun turns_ok :: "nat \<Rightarrow> ep_turn list \<Rightarrow> endpoint_internal \<Rightarrow> bool" where
  "turns_ok now [] ep = True"
| "turns_ok now (turn # turns) ep =
     (turn_ok ep turn \<and> (case ep_poll ep now turn of Inl e \<Rightarrow> True | Inr ep1 \<Rightarrow> turns_ok now turns ep1))"

definition ep_drained :: "endpoint_internal \<Rightarrow> bool" where
  "ep_drained ep \<longleftrightarrow> list_all (\<lambda>(i, t). lt_queue t = [] \<and> \<not> lt_shutdown t) (ep_local_tracks ep) \<and>
     list_all (\<lambda>(i, t). rt_queue t = [] \<and> \<not> rt_shutdown t) (ep_remote_tracks ep)"

definition drain_ok :: "nat \<Rightarrow> ep_turn list \<Rightarrow> endpoint_internal \<Rightarrow> bool" where
  "drain_ok now turns ep \<longleftrightarrow> turns_ok now turns ep \<and> (case ep_drain now turns ep of Inl e \<Rightarrow> True | Inr ep1 \<Rightarrow> ep_drained ep1)"

lemma drain_step:
  "ep_base st ep \<Longrightarrow> turns_ok now turns ep \<Longrightarrow> ep_step st ep (ep_drain now turns ep)"
proof (induction turns arbitrary: st ep)
  case Nil
  then show ?case by (simp add: ep_step_silent[of st ep ep "[]"])
next
  case (Cons turn turns)
  have "ep_step st ep (ep_poll ep now turn)" using Cons.prems by (intro poll_step) simp_all
  then show ?case using Cons.IH Cons.prems(2) by (simp only: ep_drain.simps) (rule ep_step_bind, auto)
qed

lemma drained_get:
  assumes "ep_drained ep"
  shows "im_get (ep_local_tracks ep) i = Some t \<Longrightarrow> lt_queue t = [] \<and> \<not> lt_shutdown t"
    "im_get (ep_remote_tracks ep) i = Some u \<Longrightarrow> rt_queue u = [] \<and> \<not> rt_shutdown u"
  using assms map_of_SomeD unfolding ep_drained_def list_all_iff by fast+

section \<open>Joining and leaving\<close>

lemma i2_pairs_distinct:
  assumes "i2_inv m"
  shows "distinct (map snd (i2_pairs m))" "i \<in> snd ` set (i2_pairs m) \<longleftrightarrow> i2_get2 m i \<noteq> None"
proof -
  have wf: "distinct (map fst (i2_data m))" using assms by (simp add: i2_inv_def im_wf_def)
  then have g: "(a, b) \<in> set (i2_data m) \<longleftrightarrow> i2_get1 m a = Some b" for a b by (simp add: i2_get1_def)
  have "inj_on snd (set (i2_data m))"
  proof (rule inj_onI)
    fix x y assume xy: "x \<in> set (i2_data m)" "y \<in> set (i2_data m)" "snd x = snd y"
    then have "i2_get1 m (fst x) = Some (snd x)" "i2_get1 m (fst y) = Some (snd x)" using g by (metis prod.collapse)+
    then have "fst x = fst y" using i2_inverse[OF assms] by (metis option.inject)
    then show "x = y" using xy(3) by (simp add: prod_eq_iff)
  qed
  then show "distinct (map snd (i2_pairs m))" using wf by (simp add: i2_pairs_def distinct_map)
  show "i \<in> snd ` set (i2_pairs m) \<longleftrightarrow> i2_get2 m i \<noteq> None"
  proof
    assume "i \<in> snd ` set (i2_pairs m)"
    then obtain a where "i2_get1 m a = Some i" using g by (auto simp: i2_pairs_def)
    then show "i2_get2 m i \<noteq> None" using i2_inverse[OF assms] by simp
  next
    assume "i2_get2 m i \<noteq> None"
    then obtain a where "i2_get1 m a = Some i" using i2_inverse[OF assms] by blast
    then show "i \<in> snd ` set (i2_pairs m)" using g i2_pairs_def by (metis image_eqI snd_conv)
  qed
qed

text \<open>The tracks of a list of identifiers enter or leave a room; the others are untouched.\<close>

lemma local_all_ok:
  assumes "ep_base st ep" "distinct (map snd ps)" "r \<noteq> None \<longrightarrow> r = speech_room st" "\<And>t. room_after_input t input = r"
    "\<And>i t. i \<in> snd ` set ps \<Longrightarrow> im_get (ep_local_tracks ep) i = Some t \<Longrightarrow> lt_pre t input"
  shows "\<exists>ts. local_all now input ps ep = Inr (ep\<lparr>ep_local_tracks := ts\<rparr>) \<and> ep_base st (ep\<lparr>ep_local_tracks := ts\<rparr>) \<and>
    (\<forall>i t1. im_get ts i = Some t1 \<longrightarrow> (\<exists>t. im_get (ep_local_tracks ep) i = Some t \<and> lt_shutdown t1 = lt_shutdown t \<and>
       lt_room t1 = (if i \<in> snd ` set ps then r else lt_room t)))"
  using assms
proof (induction ps arbitrary: ep)
  case Nil
  then show ?case by (intro exI[of _ "ep_local_tracks ep"]) simp
next
  case (Cons p ps)
  obtain k i where p: "p = (k, i)" by force
  have i: "i \<notin> snd ` set ps" using Cons.prems(2) p by auto
  have "\<exists>ts. local_event ep now i input = Inr (ep\<lparr>ep_local_tracks := ts\<rparr>) \<and> ep_base st (ep\<lparr>ep_local_tracks := ts\<rparr>) \<and>
    (\<forall>j. j \<noteq> i \<longrightarrow> im_get ts j = im_get (ep_local_tracks ep) j) \<and> (\<forall>t1. im_get ts i = Some t1 \<longrightarrow>
      (\<exists>t. im_get (ep_local_tracks ep) i = Some t \<and> lt_shutdown t1 = lt_shutdown t \<and> lt_room t1 = r))"
  proof (cases "im_get (ep_local_tracks ep) i")
    case None
    then show ?thesis using Cons.prems(1) by (intro exI[of _ "ep_local_tracks ep"]) (simp add: local_event_def)
  next
    case (Some t)
    from Cons.prems(1) this obtain id1 where id1: "i2_get2 (ep_local_tracks_id ep) i = Some id1" "local_task_ok st id1 t" by (rule ep_base_local)
    have "lt_pre t input" using Cons.prems(5) Some p by auto
    from lt_event_ok[OF _ this] have ok: "lt_ok t r (lt_on_event t now input)" using id1(2) Cons.prems(4) by (simp add: local_task_ok_def)
    then obtain t1 where t1: "lt_on_event t now input = Inr t1" "lt_room t1 = r" "lt_shutdown t1 = lt_shutdown t" by (auto simp: lt_ok_def)
    have "local_task_ok st id1 t1" using local_task_step[OF id1(2), of r t1] ok t1(1) Cons.prems(3) by simp
    from base_local_update[OF Cons.prems(1) Some id1(1) this] show ?thesis
      using Some t1 by (intro exI[of _ "im_insert (ep_local_tracks ep) i t1"]) (simp add: local_event_def)
  qed
  then obtain ts where ts: "local_event ep now i input = Inr (ep\<lparr>ep_local_tracks := ts\<rparr>)" "ep_base st (ep\<lparr>ep_local_tracks := ts\<rparr>)"
      "\<And>j. j \<noteq> i \<Longrightarrow> im_get ts j = im_get (ep_local_tracks ep) j"
      "\<And>t1. im_get ts i = Some t1 \<Longrightarrow> \<exists>t. im_get (ep_local_tracks ep) i = Some t \<and> lt_shutdown t1 = lt_shutdown t \<and> lt_room t1 = r" by blast
  have "lt_pre t input" if "j \<in> snd ` set ps" "im_get ts j = Some t" for j t
  proof -
    have "j \<noteq> i" using that(1) i by blast
    then show ?thesis using that ts(3) Cons.prems(5)[of j t] p by simp
  qed
  then obtain us where us: "local_all now input ps (ep\<lparr>ep_local_tracks := ts\<rparr>) = Inr (ep\<lparr>ep_local_tracks := us\<rparr>)" "ep_base st (ep\<lparr>ep_local_tracks := us\<rparr>)"
      "\<And>j t1. im_get us j = Some t1 \<Longrightarrow> \<exists>t. im_get ts j = Some t \<and> lt_shutdown t1 = lt_shutdown t \<and>
        lt_room t1 = (if j \<in> snd ` set ps then r else lt_room t)"
    using Cons.IH[OF ts(2) _ Cons.prems(3,4)] Cons.prems(2) by auto
  have "\<exists>t. im_get (ep_local_tracks ep) j = Some t \<and> lt_shutdown t1 = lt_shutdown t \<and>
      lt_room t1 = (if j \<in> snd ` set (p # ps) then r else lt_room t)" if "im_get us j = Some t1" for j t1
    using us(3)[OF that] ts(3)[of j] ts(4) i p by (cases "j = i") auto
  then show ?case using us(1,2) ts(1) p by (intro exI[of _ us]) simp
qed

lemma remote_all_ok:
  assumes "ep_base st ep" "distinct (map snd ps)" "r \<noteq> None \<longrightarrow> r = speech_room st"
    "input = RiLeaveRoom \<and> r = None \<or> (\<exists>h. input = RiJoinRoom h \<and> r = Some h)"
    "\<And>i t. i \<in> snd ` set ps \<Longrightarrow> im_get (ep_remote_tracks ep) i = Some t \<Longrightarrow> rt_pre t input"
  shows "\<exists>ts. remote_all now input ps ep = Inr (ep\<lparr>ep_remote_tracks := ts\<rparr>) \<and> ep_base st (ep\<lparr>ep_remote_tracks := ts\<rparr>) \<and>
    (\<forall>i t1. im_get ts i = Some t1 \<longrightarrow> (\<exists>t. im_get (ep_remote_tracks ep) i = Some t \<and>
       rt_room t1 = (if i \<in> snd ` set ps then r else rt_room t)))"
  using assms
proof (induction ps arbitrary: ep)
  case Nil
  then show ?case by (intro exI[of _ "ep_remote_tracks ep"]) simp
next
  case (Cons p ps)
  obtain k i where p: "p = (k, i)" by force
  have i: "i \<notin> snd ` set ps" using Cons.prems(2) p by auto
  have "\<exists>ts. remote_event ep now i input = Inr (ep\<lparr>ep_remote_tracks := ts\<rparr>) \<and> ep_base st (ep\<lparr>ep_remote_tracks := ts\<rparr>) \<and>
    (\<forall>j. j \<noteq> i \<longrightarrow> im_get ts j = im_get (ep_remote_tracks ep) j) \<and> (\<forall>t1. im_get ts i = Some t1 \<longrightarrow>
      im_get (ep_remote_tracks ep) i \<noteq> None \<and> rt_room t1 = r)"
  proof (cases "im_get (ep_remote_tracks ep) i")
    case None
    then show ?thesis using Cons.prems(1) by (intro exI[of _ "ep_remote_tracks ep"]) (simp add: remote_event_def)
  next
    case (Some t)
    from Cons.prems(1) this have rok: "remote_task_ok st t" by (rule ep_base_remote)
    have "rt_pre t input" using Cons.prems(5) Some p by auto
    from rt_event_ok[OF this] have ok: "rt_ok t r (rt_on_event t now input)" using Cons.prems(4) by auto
    then obtain t1 where t1: "rt_on_event t now input = Inr t1" "rt_room t1 = r" by (auto simp: rt_ok_def)
    have "remote_task_ok st t1" using remote_task_step[OF rok, of r t1] ok t1(1) Cons.prems(3) by simp
    from base_remote_update[OF Cons.prems(1) Some this] show ?thesis
      using Some t1 by (intro exI[of _ "im_insert (ep_remote_tracks ep) i t1"]) (simp add: remote_event_def)
  qed
  then obtain ts where ts: "remote_event ep now i input = Inr (ep\<lparr>ep_remote_tracks := ts\<rparr>)" "ep_base st (ep\<lparr>ep_remote_tracks := ts\<rparr>)"
      "\<And>j. j \<noteq> i \<Longrightarrow> im_get ts j = im_get (ep_remote_tracks ep) j"
      "\<And>t1. im_get ts i = Some t1 \<Longrightarrow> im_get (ep_remote_tracks ep) i \<noteq> None \<and> rt_room t1 = r" by blast
  have "rt_pre t input" if "j \<in> snd ` set ps" "im_get ts j = Some t" for j t
  proof -
    have "j \<noteq> i" using that(1) i by blast
    then show ?thesis using that ts(3) Cons.prems(5)[of j t] p by simp
  qed
  then obtain us where us: "remote_all now input ps (ep\<lparr>ep_remote_tracks := ts\<rparr>) = Inr (ep\<lparr>ep_remote_tracks := us\<rparr>)" "ep_base st (ep\<lparr>ep_remote_tracks := us\<rparr>)"
      "\<And>j t1. im_get us j = Some t1 \<Longrightarrow> \<exists>t. im_get ts j = Some t \<and> rt_room t1 = (if j \<in> snd ` set ps then r else rt_room t)"
    using Cons.IH[OF ts(2) _ Cons.prems(3,4)] Cons.prems(2) by auto
  have "\<exists>t. im_get (ep_remote_tracks ep) j = Some t \<and> rt_room t1 = (if j \<in> snd ` set (p # ps) then r else rt_room t)"
    if "im_get us j = Some t1" for j t1
    using us(3)[OF that] ts(3)[of j] ts(4) i p by (cases "j = i") auto
  then show ?case using us(1,2) ts(1) p by (intro exI[of _ us]) simp
qed

text \<open>All tracks at once: from one common room to another.\<close>

lemma all_tracks_ok:
  assumes base: "ep_base st ep" and rooms: "ep_rooms r ep" and st: "r1 \<noteq> None \<longrightarrow> r1 = speech_room st"
    and input: "(\<exists>h. li = LiJoinRoom h \<and> ri = RiJoinRoom h \<and> r = None \<and> r1 = Some h) \<or> li = LiLeaveRoom \<and> ri = RiLeaveRoom \<and> r \<noteq> None \<and> r1 = None"
  shows "\<exists>ls rs. local_all now li (i2_pairs (ep_local_tracks_id ep)) ep = Inr (ep\<lparr>ep_local_tracks := ls\<rparr>) \<and>
    remote_all now ri (i2_pairs (ep_remote_tracks_id ep)) (ep\<lparr>ep_local_tracks := ls\<rparr>) =
      Inr (ep\<lparr>ep_local_tracks := ls, ep_remote_tracks := rs\<rparr>) \<and>
    ep_base st (ep\<lparr>ep_local_tracks := ls, ep_remote_tracks := rs\<rparr>) \<and> ep_rooms r1 (ep\<lparr>ep_local_tracks := ls, ep_remote_tracks := rs\<rparr>)"
proof -
  have inv: "i2_inv (ep_local_tracks_id ep)" "i2_inv (ep_remote_tracks_id ep)" using base by (simp_all add: ep_base_def)
  have lr: "room_after_input t li = r1" for t using input by (auto simp: room_after_input_def)
  have lp: "lt_pre t li" if "i \<in> snd ` set (i2_pairs (ep_local_tracks_id ep))" "im_get (ep_local_tracks ep) i = Some t" for i t
    using that(2) input rooms unfolding ep_rooms_def lt_pre_def by fastforce
  obtain ls where ls: "local_all now li (i2_pairs (ep_local_tracks_id ep)) ep = Inr (ep\<lparr>ep_local_tracks := ls\<rparr>)" "ep_base st (ep\<lparr>ep_local_tracks := ls\<rparr>)"
      "\<And>i t1. im_get ls i = Some t1 \<Longrightarrow> \<exists>t. im_get (ep_local_tracks ep) i = Some t \<and> lt_shutdown t1 = lt_shutdown t \<and>
         lt_room t1 = (if i \<in> snd ` set (i2_pairs (ep_local_tracks_id ep)) then r1 else lt_room t)"
    using local_all_ok[OF base i2_pairs_distinct(1)[OF inv(1)] st lr, of now] lp by blast
  have rp: "rt_pre t ri" if "i \<in> snd ` set (i2_pairs (ep_remote_tracks_id ep))"
      "im_get (ep_remote_tracks (ep\<lparr>ep_local_tracks := ls\<rparr>)) i = Some t" for i t
    using that(2) input rooms unfolding ep_rooms_def rt_pre_def by fastforce
  have ri: "ri = RiLeaveRoom \<and> r1 = None \<or> (\<exists>h. ri = RiJoinRoom h \<and> r1 = Some h)" using input by blast
  obtain rs where rs: "remote_all now ri (i2_pairs (ep_remote_tracks_id ep)) (ep\<lparr>ep_local_tracks := ls\<rparr>) =
        Inr (ep\<lparr>ep_local_tracks := ls, ep_remote_tracks := rs\<rparr>)" "ep_base st (ep\<lparr>ep_local_tracks := ls, ep_remote_tracks := rs\<rparr>)"
      "\<And>i t1. im_get rs i = Some t1 \<Longrightarrow> \<exists>t. im_get (ep_remote_tracks ep) i = Some t \<and>
         rt_room t1 = (if i \<in> snd ` set (i2_pairs (ep_remote_tracks_id ep)) then r1 else rt_room t)"
    using remote_all_ok[OF ls(2) i2_pairs_distinct(1)[OF inv(2)] st ri, of now] rp by auto
  have "lt_room t = r1 \<and> \<not> lt_shutdown t" if t: "im_get ls i = Some t" for i t
  proof -
    have "i2_get2 (ep_local_tracks_id ep) i \<noteq> None" using ls(2) t by (auto elim: ep_base_local)
    then show ?thesis using ls(3)[OF t] rooms i2_pairs_distinct(2)[OF inv(1), of i] by (auto simp: ep_rooms_def)
  qed
  moreover have "rt_room t = r1" if t: "im_get rs i = Some t" for i t
  proof -
    have "i2_get2 (ep_remote_tracks_id ep) i \<noteq> None" using rs(2) t by (auto elim: ep_base_remote)
    then show ?thesis using rs(3)[OF t] i2_pairs_distinct(2)[OF inv(2), of i] by auto
  qed
  ultimately have "ep_rooms r1 (ep\<lparr>ep_local_tracks := ls, ep_remote_tracks := rs\<rparr>)" by (simp add: ep_rooms_def)
  then show ?thesis using ls(1) rs(1,2) by blast
qed

lemma keeps_shape:
  "ep_keeps ep ep1 \<Longrightarrow> ep_joined ep1 = ep_joined ep" "ep_keeps ep ep1 \<Longrightarrow> ep_state ep1 = ep_state ep"
  "ep_keeps ep ep1 \<Longrightarrow> ep_wait_join ep1 = ep_wait_join ep" "ep_keeps ep ep1 \<Longrightarrow> ep_shutdown ep1 = ep_shutdown ep"
  by (simp_all add: ep_keeps_def)

text \<open>A drained endpoint whose tracks are in no room holds no subscription and may say that it leaves.\<close>

lemma says_leave:
  assumes base: "ep_base st ep" and rooms: "ep_rooms None ep" and d: "ep_drained ep" and st: "speech_room st = Some h"
  shows "ep_says st ep None (ep_push ep (leave_outputs ep1 now h room peer))"
proof -
  have none: "local_task_ok None id1 t \<and> id1 \<notin> subs st" if t: "im_get (ep_local_tracks ep) i = Some t" "local_task_ok st id1 t" for i t id1
  proof -
    have "lt_queue t = []" "lt_room t = None" using drained_get(1)[OF d t(1)] rooms t(1) by (auto simp: ep_rooms_def)
    then show ?thesis using t(2) by (auto simp: local_task_ok_def lt_inv_def lt_active_def subs_def split: if_splits)
  qed
  have "id1 \<notin> subs st" for id1
  proof
    assume id1: "id1 \<in> subs st"
    then obtain i t where i: "i2_get1 (ep_local_tracks_id ep) id1 = Some i" "im_get (ep_local_tracks ep) i = Some t"
      using base unfolding ep_base_def by blast
    from base i(2) obtain id2 where id2: "i2_get2 (ep_local_tracks_id ep) i = Some id2" "local_task_ok st id2 t" by (rule ep_base_local)
    have "i2_inv (ep_local_tracks_id ep)" using base by (simp add: ep_base_def)
    then have "id2 = id1" using i(1) id2(1) i2_inverse by fastforce
    then show False using none[OF i(2) id2(2)] id1 by simp
  qed
  then have "st = Some (h, {})" using st by (auto simp: subs_def)
  then have "speak st (leave_outputs ep1 now h room peer) = Some None" by (simp add: leave_outputs_def speak_append speak_silent)
  moreover have "remote_task_ok None t" if "im_get (ep_remote_tracks ep) i = Some t" for i t
    using drained_get(2)[OF d that] rooms that by (simp add: remote_task_ok_def ep_rooms_def)
  then have "ep_base None ep" using base none unfolding ep_base_def by (simp add: subs_def) blast
  ultimately show ?thesis by (intro ep_saysI[of _ _ "leave_outputs ep1 now h room peer"]) simp_all
qed

text \<open>The loop of a call that leaves: its turns run on the tracks that have been told to.\<close>

definition leave_start :: "endpoint_internal \<Rightarrow> nat \<Rightarrow> endpoint_internal res" where
  "leave_start ep now =
     (let ep0 = ep\<lparr>ep_joined := None\<rparr> in
      res_bind (local_all now LiLeaveRoom (i2_pairs (ep_local_tracks_id ep0)) ep0) (\<lambda>ep1.
      remote_all now RiLeaveRoom (i2_pairs (ep_remote_tracks_id ep1)) ep1))"

definition leave_pre :: "endpoint_internal \<Rightarrow> nat \<Rightarrow> ep_turn list \<Rightarrow> bool" where
  "leave_pre ep now turns \<longleftrightarrow> ep_joined ep = None \<or> (case leave_start ep now of Inl e \<Rightarrow> True | Inr ep1 \<Rightarrow> drain_ok now turns ep1)"

definition ep_result :: "speech \<Rightarrow> endpoint_internal \<Rightarrow> endpoint_internal res \<Rightarrow> bool" where
  "ep_result st ep r \<longleftrightarrow> (\<exists>ep1 st1. r = Inr ep1 \<and> ep_says st ep st1 ep1 \<and> ep_inv st1 ep1)"

lemma ep_resultI: "ep_says st ep st1 ep1 \<Longrightarrow> ep_rooms (speech_room st1) ep1 \<Longrightarrow> speech_room st1 = map_option fst (ep_joined ep1) \<Longrightarrow>
    ep_result st ep (Inr ep1)"
  unfolding ep_result_def ep_inv_def ep_says_def by blast

lemma ep_step_result:
  assumes "ep_step st ep r" "ep_inv st ep"
  shows "ep_result st ep r"
proof -
  obtain ep1 st1 where 1: "r = Inr ep1" "ep_says st ep st1 ep1" "speech_room st1 = speech_room st" "ep_keeps ep ep1"
    using assms(1) by (auto simp: ep_step_def)
  have "ep_rooms (speech_room st1) ep1" using ep_keeps_rooms[OF 1(4)] assms(2) 1(3) unfolding ep_inv_def by metis
  moreover have "speech_room st1 = map_option fst (ep_joined ep1)" using 1(3) assms(2) keeps_shape(1)[OF 1(4)] by (simp add: ep_inv_def)
  ultimately show ?thesis unfolding 1(1) by (rule ep_resultI[OF 1(2)])
qed

lemma leave_room_ok:
  assumes inv: "ep_inv st ep" and pre: "leave_pre ep now turns"
  shows "\<exists>ep1. leave_room ep now turns = Inr ep1 \<and> ep_says st ep None ep1 \<and> ep_inv None ep1 \<and>
    ep_joined ep1 = None \<and> ep_wait_join ep1 = ep_wait_join ep \<and> ep_state ep1 = ep_state ep \<and> ep_cfg ep1 = ep_cfg ep"
proof (cases "ep_joined ep")
  case None
  then have "st = None" using inv by (simp add: ep_inv_def)
  then show ?thesis using None inv by (simp add: leave_room_def ep_says_refl ep_inv_def)
next
  case (Some j)
  obtain h room peer mode where j: "j = (h, room, peer, mode)" by (cases j) auto
  let ?ep0 = "ep\<lparr>ep_joined := None\<rparr>"
  have 0: "ep_base st ?ep0" "ep_rooms (Some h) ?ep0" "speech_room st = Some h" using inv Some j by (auto simp: ep_inv_def)
  let ?ep2 = "\<lambda>ls rs. ?ep0\<lparr>ep_local_tracks := ls, ep_remote_tracks := rs\<rparr>"
  obtain ls rs where a: "local_all now LiLeaveRoom (i2_pairs (ep_local_tracks_id ?ep0)) ?ep0 = Inr (?ep0\<lparr>ep_local_tracks := ls\<rparr>)"
      "remote_all now RiLeaveRoom (i2_pairs (ep_remote_tracks_id ?ep0)) (?ep0\<lparr>ep_local_tracks := ls\<rparr>) =
        Inr (?ep2 ls rs)" "ep_base st (?ep2 ls rs)" "ep_rooms None (?ep2 ls rs)"
    using all_tracks_ok[OF 0(1,2), of None LiLeaveRoom RiLeaveRoom now] by auto
  have start: "leave_start ep now = Inr (?ep2 ls rs)" using a(1,2) by (simp add: leave_start_def Let_def)
  then have "drain_ok now turns (?ep2 ls rs)" using pre Some by (simp add: leave_pre_def)
  then have "ep_step st (?ep2 ls rs) (ep_drain now turns (?ep2 ls rs))" "\<And>ep3. ep_drain now turns (?ep2 ls rs) = Inr ep3 \<Longrightarrow> ep_drained ep3"
    using drain_step[OF a(3)] by (simp_all add: drain_ok_def)
  then obtain ep3 st3 where 3: "ep_drain now turns (?ep2 ls rs) = Inr ep3" "ep_drained ep3" "ep_says st (?ep2 ls rs) st3 ep3"
      "speech_room st3 = Some h" "ep_keeps (?ep2 ls rs) ep3" using 0(3) unfolding ep_step_def by metis
  have r: "ep_rooms None ep3" using ep_keeps_rooms[OF 3(5) a(4)] .
  have "ep_says st3 ep3 None (ep_push ep3 (leave_outputs ep3 now h room peer))" (is "ep_says _ _ _ ?ep4")
    using 3 r by (intro says_leave) (simp_all add: ep_says_def)
  from ep_says_trans[OF 3(3) this] have s: "ep_says st ep None ?ep4" by (simp add: ep_says_def)
  have "ep_inv None ?ep4" using s r 3(5) by (simp add: ep_inv_def ep_says_def ep_keeps_def)
  moreover have "leave_room ep now turns = Inr ?ep4" using Some j a(1,2) 3(1) by (simp add: leave_room_def Let_def)
  ultimately show ?thesis using s 3(5) by (simp add: ep_keeps_def)
qed

lemma base_join:
  assumes "ep_base None ep"
  shows "ep_base (Some (h, {})) ep"
proof -
  have "local_task_ok (Some (h, {})) id1 t" if "local_task_ok None id1 t" for id1 t
    using that by (auto simp: local_task_ok_def subs_def)
  moreover have "remote_task_ok (Some (h, {})) t" if "remote_task_ok None t" for t
    using that by (auto simp: remote_task_ok_def)
  ultimately show ?thesis using assms unfolding ep_base_def by (simp add: subs_def) blast
qed

lemma join_room_ok:
  assumes inv: "ep_inv st ep" and pre: "leave_pre (ep_push ep [IoRpcRes req_id (ResJoinRoom (Inr ()))]) now turns"
  shows "ep_result st ep (join_room x ep now turns req_id room peer meta publish subscribe mixer)"
proof -
  let ?h = "room_hash x (cfg_app (ep_cfg ep)) room"
  let ?epq = "ep_push ep [IoRpcRes req_id (ResJoinRoom (Inr ()))]"
  have invq: "ep_inv st ?epq" and sq: "ep_says st ep st ?epq"
    using inv by (auto simp: ep_inv_def intro!: ep_saysI[of _ _ "[IoRpcRes req_id (ResJoinRoom (Inr ()))]"])
  from leave_room_ok[OF invq pre] obtain ep1 where 1: "leave_room ?epq now turns = Inr ep1" "ep_says st ?epq None ep1" "ep_inv None ep1" by blast
  define outs where "outs = [IoCluster ?h (CtlJoin peer meta publish subscribe mixer)] @
    (if cfg_record (ep_cfg ep1) then [IoRecordEvent now (RecJoinRoom (cfg_app (ep_cfg ep1)) room peer)] else []) @ [IoPeerEvent now (PeJoin room peer)]"
  let ?ep3 = "ep_push (ep1\<lparr>ep_joined := Some (?h, room, peer, map_option mc_mode mixer)\<rparr>) outs"
  have "speak None outs = Some (Some (?h, {}))" by (simp add: outs_def)
  moreover have b3: "ep_base (Some (?h, {})) ?ep3" using base_join 1(3) by (simp add: ep_inv_def)
  ultimately have s3: "ep_says None ep1 (Some (?h, {})) ?ep3" by (intro ep_saysI[of _ _ outs]) simp_all
  have r3: "ep_rooms None ?ep3" using 1(3) by (simp add: ep_inv_def)
  let ?ep5 = "\<lambda>ls rs. ?ep3\<lparr>ep_local_tracks := ls, ep_remote_tracks := rs\<rparr>"
  obtain ls rs where a: "local_all now (LiJoinRoom ?h) (i2_pairs (ep_local_tracks_id ?ep3)) ?ep3 = Inr (?ep3\<lparr>ep_local_tracks := ls\<rparr>)"
      "remote_all now (RiJoinRoom ?h) (i2_pairs (ep_remote_tracks_id ?ep3)) (?ep3\<lparr>ep_local_tracks := ls\<rparr>) =
        Inr (?ep5 ls rs)" "ep_base (Some (?h, {})) (?ep5 ls rs)" "ep_rooms (Some ?h) (?ep5 ls rs)"
    using all_tracks_ok[OF b3 r3, of "Some ?h" "LiJoinRoom ?h" "RiJoinRoom ?h" now] by auto
  have "ep_says (Some (?h, {})) ?ep3 (Some (?h, {})) (?ep5 ls rs)" using a(3) by (intro ep_saysI[of _ _ "[]"]) simp_all
  from ep_says_trans[OF sq ep_says_trans[OF 1(2) ep_says_trans[OF s3 this]]] have "ep_says st ep (Some (?h, {})) (?ep5 ls rs)" .
  then have "ep_result st ep (Inr (?ep5 ls rs))" by (rule ep_resultI) (use a(4) in simp_all)
  moreover have "join_room x ep now turns req_id room peer meta publish subscribe mixer = Inr (?ep5 ls rs)"
    using 1(1) a(1,2) unfolding outs_def by (cases "cfg_record (ep_cfg ep1)") (simp_all add: join_room_def Let_def)
  ultimately show ?thesis by simp
qed

section \<open>Shutting down\<close>

text \<open>Tracks are replaced by others, one by one.\<close>

lemma base_tracks:
  assumes base: "ep_base st ep" and wf: "im_wf ls" "im_wf rs"
    and ls: "\<And>i. rel_option (\<lambda>t t1. \<forall>id1. local_task_ok st id1 t \<longrightarrow> local_task_ok st id1 t1) (im_get (ep_local_tracks ep) i) (im_get ls i)"
    and rs: "\<And>i. rel_option (\<lambda>t t1. remote_task_ok st t \<longrightarrow> remote_task_ok st t1) (im_get (ep_remote_tracks ep) i) (im_get rs i)"
  shows "ep_base st (ep\<lparr>ep_local_tracks := ls, ep_remote_tracks := rs\<rparr>)"
proof -
  have l: "\<exists>id1. i2_get2 (ep_local_tracks_id ep) i = Some id1 \<and> local_task_ok st id1 t1" if t1: "im_get ls i = Some t1" for i t1
  proof -
    obtain t where t: "im_get (ep_local_tracks ep) i = Some t" "\<forall>id1. local_task_ok st id1 t \<longrightarrow> local_task_ok st id1 t1"
      using ls[of i] t1 by (cases "im_get (ep_local_tracks ep) i") simp_all
    from base t(1) obtain id1 where "i2_get2 (ep_local_tracks_id ep) i = Some id1" "local_task_ok st id1 t" by (rule ep_base_local)
    then show ?thesis using t(2) by blast
  qed
  have r: "i2_get2 (ep_remote_tracks_id ep) i \<noteq> None \<and> remote_task_ok st t1" if t1: "im_get rs i = Some t1" for i t1
  proof -
    obtain t where t: "im_get (ep_remote_tracks ep) i = Some t" "remote_task_ok st t \<longrightarrow> remote_task_ok st t1"
      using rs[of i] t1 by (cases "im_get (ep_remote_tracks ep) i") simp_all
    from base t(1) obtain id1 where "i2_get2 (ep_remote_tracks_id ep) i = Some id1" "remote_task_ok st t" by (rule ep_base_remote)
    then show ?thesis using t(2) by simp
  qed
  have "\<exists>i t. i2_get1 (ep_local_tracks_id ep) id1 = Some i \<and> im_get ls i = Some t" if id1: "id1 \<in> subs st" for id1
  proof -
    obtain i t where i: "i2_get1 (ep_local_tracks_id ep) id1 = Some i" "im_get (ep_local_tracks ep) i = Some t"
      using base id1 unfolding ep_base_def by blast
    then show ?thesis using ls[of i] by (cases "im_get ls i") simp_all
  qed
  then show ?thesis using base wf l r unfolding ep_base_def by simp
qed

lemma locals_shutdown_ok:
  assumes "\<And>i t. (i, t) \<in> set ts \<Longrightarrow> lt_inv t \<and> \<not> lt_shutdown t"
  shows "\<exists>ls. locals_shutdown now ts = Inr ls \<and> map fst ls = map fst ts \<and>
    (\<forall>i. rel_option (\<lambda>t t1. \<exists>t0. lt_ok t None (Inr t0) \<and> t1 = t0\<lparr>lt_shutdown := True\<rparr>) (im_get ts i) (im_get ls i))"
  using assms
proof (induction ts)
  case (Cons p ts)
  obtain i t where p: "p = (i, t)" by force
  obtain t0 where t0: "lt_on_shutdown t now = Inr (t0\<lparr>lt_shutdown := True\<rparr>)" "lt_ok t None (Inr t0)"
    using lt_shutdown_ok[of t now] Cons.prems[of i t] p by auto
  obtain ls where ls: "locals_shutdown now ts = Inr ls" "map fst ls = map fst ts"
    "\<forall>i. rel_option (\<lambda>t t1. \<exists>t0. lt_ok t None (Inr t0) \<and> t1 = t0\<lparr>lt_shutdown := True\<rparr>) (im_get ts i) (im_get ls i)"
    using Cons by auto
  show ?case using p t0 ls by (intro exI[of _ "(i, t0\<lparr>lt_shutdown := True\<rparr>) # ls"]) auto
qed simp

lemma rt_shutdown_ok:
  "\<exists>t1 room. rt_on_shutdown t now = Inr t1 \<and> rt_ok t room (Inr t1) \<and> (room = None \<or> room = rt_room t) \<and> rt_shutdown t1"
  by (cases "rt_shutdown t"; cases "rt_room t")
    (auto simp: rt_on_shutdown_def rt_ok_def rt_on_leave_room_def Let_def rt_rec_def)

lemma remotes_shutdown_ok:
  "\<exists>rs. remotes_shutdown now ts = Inr rs \<and> map fst rs = map fst ts \<and>
    (\<forall>i. rel_option (\<lambda>t t1. rt_shutdown t1 \<and> (\<exists>room. rt_ok t room (Inr t1) \<and> (room = None \<or> room = rt_room t))) (im_get ts i) (im_get rs i))"
proof (induction ts)
  case (Cons p ts)
  obtain i t where p: "p = (i, t)" by force
  obtain t1 room where t1: "rt_on_shutdown t now = Inr t1" "rt_ok t room (Inr t1)" "room = None \<or> room = rt_room t" "rt_shutdown t1"
    using rt_shutdown_ok by blast
  obtain rs where rs: "remotes_shutdown now ts = Inr rs" "map fst rs = map fst ts"
    "\<forall>i. rel_option (\<lambda>t t1. rt_shutdown t1 \<and> (\<exists>room. rt_ok t room (Inr t1) \<and> (room = None \<or> room = rt_room t))) (im_get ts i) (im_get rs i)"
    using Cons by auto
  show ?case using p t1 rs by (intro exI[of _ "(i, t1) # rs"]) auto
qed simp

definition shutdown_start :: "endpoint_internal \<Rightarrow> nat \<Rightarrow> endpoint_internal res" where
  "shutdown_start ep now =
     (let ep0 = ep\<lparr>ep_shutdown := True\<rparr> in
      res_bind (locals_shutdown now (ep_local_tracks ep0)) (\<lambda>ls.
      res_bind (remotes_shutdown now (ep_remote_tracks ep0)) (\<lambda>rs.
      Inr (ep0\<lparr>ep_local_tracks := ls, ep_remote_tracks := rs\<rparr>))))"

definition shutdown_pre :: "endpoint_internal \<Rightarrow> nat \<Rightarrow> ep_turn list \<Rightarrow> bool" where
  "shutdown_pre ep now turns \<longleftrightarrow> ep_shutdown ep \<or> (case shutdown_start ep now of Inl e \<Rightarrow> True | Inr ep1 \<Rightarrow> drain_ok now turns ep1)"

lemma shutdown_eq:
  "\<not> ep_shutdown ep \<Longrightarrow> ep_on_shutdown ep now turns =
     res_bind (shutdown_start ep now) (\<lambda>ep2. res_bind (ep_drain now turns ep2) (\<lambda>ep1.
       case ep_joined ep1 of None \<Rightarrow> Inr ep1
       | Some (hash, room, peer, _) \<Rightarrow> Inr (ep_push (ep1\<lparr>ep_joined := None\<rparr>) (leave_outputs ep1 now hash room peer))))"
  by (cases "locals_shutdown now (ep_local_tracks ep)"; cases "remotes_shutdown now (ep_remote_tracks ep)")
    (simp_all add: ep_on_shutdown_def shutdown_start_def Let_def)

lemma shutdown_start_ok:
  assumes inv: "ep_inv st ep"
  shows "\<exists>ls rs. shutdown_start ep now = Inr (ep\<lparr>ep_shutdown := True, ep_local_tracks := ls, ep_remote_tracks := rs\<rparr>) \<and>
    ep_base st (ep\<lparr>ep_shutdown := True, ep_local_tracks := ls, ep_remote_tracks := rs\<rparr>) \<and>
    (\<forall>i t. im_get ls i = Some t \<longrightarrow> lt_shutdown t) \<and> (\<forall>i t. im_get rs i = Some t \<longrightarrow> rt_shutdown t)"
proof -
  let ?ep0 = "ep\<lparr>ep_shutdown := True\<rparr>"
  have base: "ep_base st ?ep0" and wf: "im_wf (ep_local_tracks ep)" "im_wf (ep_remote_tracks ep)" and rooms: "ep_rooms (speech_room st) ep"
    using inv unfolding ep_inv_def by (simp, simp add: ep_base_def, simp add: ep_base_def, blast)
  have "lt_inv t \<and> \<not> lt_shutdown t" if "(i, t) \<in> set (ep_local_tracks ep)" for i t
  proof -
    have g: "im_get (ep_local_tracks ep) i = Some t" using that wf(1) by (simp add: im_wf_def)
    then have "lt_inv t" using base unfolding ep_base_def local_task_ok_def by fastforce
    then show ?thesis using g rooms by (simp add: ep_rooms_def)
  qed
  then obtain ls where ls: "locals_shutdown now (ep_local_tracks ep) = Inr ls" "map fst ls = map fst (ep_local_tracks ep)"
      "\<And>i. rel_option (\<lambda>t t1. \<exists>t0. lt_ok t None (Inr t0) \<and> t1 = t0\<lparr>lt_shutdown := True\<rparr>) (im_get (ep_local_tracks ep) i) (im_get ls i)"
    using locals_shutdown_ok by blast
  obtain rs where rs: "remotes_shutdown now (ep_remote_tracks ep) = Inr rs" "map fst rs = map fst (ep_remote_tracks ep)"
      "\<And>i. rel_option (\<lambda>t t1. rt_shutdown t1 \<and> (\<exists>room. rt_ok t room (Inr t1) \<and> (room = None \<or> room = rt_room t)))
        (im_get (ep_remote_tracks ep) i) (im_get rs i)"
    using remotes_shutdown_ok by blast
  have l: "local_task_ok st id1 (t0\<lparr>lt_shutdown := True\<rparr>)" if "local_task_ok st id1 t" "lt_ok t None (Inr t0)" for id1 t t0
  proof -
    have "lt_room t0 = None" using that(2) by (auto simp: lt_ok_def)
    then show ?thesis using local_task_step[OF that] by (simp add: local_task_ok_def lt_inv_def lt_active_def)
  qed
  have r: "remote_task_ok st t1" if "remote_task_ok st t" "rt_ok t room (Inr t1)" "room = None \<or> room = rt_room t" for t room t1
    by (rule remote_task_step[OF that(1,2)]) (use that(1,3) in \<open>auto simp: remote_task_ok_def\<close>)
  have "ep_base st (?ep0\<lparr>ep_local_tracks := ls, ep_remote_tracks := rs\<rparr>)"
  proof (rule base_tracks[OF base])
    show "im_wf ls" "im_wf rs" using ls(2) rs(2) wf by (simp_all add: im_wf_def)
    show "rel_option (\<lambda>t t1. \<forall>id1. local_task_ok st id1 t \<longrightarrow> local_task_ok st id1 t1) (im_get (ep_local_tracks ?ep0) i) (im_get ls i)" for i
      using l by (auto intro!: option.rel_mono_strong[OF ls(3)])
    show "rel_option (\<lambda>t t1. remote_task_ok st t \<longrightarrow> remote_task_ok st t1) (im_get (ep_remote_tracks ?ep0) i) (im_get rs i)" for i
      using r by (auto intro!: option.rel_mono_strong[OF rs(3)])
  qed
  moreover have "lt_shutdown t" if "im_get ls i = Some t" for i t using ls(3)[of i] that by (cases "im_get (ep_local_tracks ep) i") auto
  moreover have "rt_shutdown t" if "im_get rs i = Some t" for i t using rs(3)[of i] that by (cases "im_get (ep_remote_tracks ep) i") auto
  moreover have "shutdown_start ep now = Inr (?ep0\<lparr>ep_local_tracks := ls, ep_remote_tracks := rs\<rparr>)"
    using ls(1) rs(1) by (simp add: shutdown_start_def)
  ultimately show ?thesis by blast
qed

lemma shutdown_ok:
  assumes inv: "ep_inv st ep" and pre: "shutdown_pre ep now turns"
  shows "ep_result st ep (ep_on_shutdown ep now turns)"
proof (cases "ep_shutdown ep")
  case True
  then show ?thesis using ep_step_result[OF ep_step_silent[of st ep ep "[]"] inv] inv by (simp add: ep_on_shutdown_def ep_inv_def)
next
  case False
  let ?ep2 = "\<lambda>ls rs. ep\<lparr>ep_shutdown := True, ep_local_tracks := ls, ep_remote_tracks := rs\<rparr>"
  obtain ls rs where a: "shutdown_start ep now = Inr (?ep2 ls rs)" "ep_base st (?ep2 ls rs)"
      "\<forall>i t. im_get ls i = Some t \<longrightarrow> lt_shutdown t" "\<forall>i t. im_get rs i = Some t \<longrightarrow> rt_shutdown t"
    using shutdown_start_ok[OF inv] by blast
  have "drain_ok now turns (?ep2 ls rs)" using pre False a(1) by (simp add: shutdown_pre_def)
  then have "ep_step st (?ep2 ls rs) (ep_drain now turns (?ep2 ls rs))" "\<And>ep3. ep_drain now turns (?ep2 ls rs) = Inr ep3 \<Longrightarrow> ep_drained ep3"
    using drain_step[OF a(2)] by (simp_all add: drain_ok_def)
  then obtain ep3 st3 where 3: "ep_drain now turns (?ep2 ls rs) = Inr ep3" "ep_drained ep3" "ep_says st (?ep2 ls rs) st3 ep3"
      "speech_room st3 = speech_room st" "ep_keeps (?ep2 ls rs) ep3" unfolding ep_step_def by metis
  have "im_get (ep_local_tracks ep3) i = None" "im_get (ep_remote_tracks ep3) i = None" for i
    using drained_get[OF 3(2), of i] 3(5) a(3,4) unfolding ep_keeps_def by (simp, metis option.exhaust)+
  then have r: "ep_rooms r ep3" for r by (simp add: ep_rooms_def)
  have s: "ep_says st ep st3 ep3" using 3(3) by (simp add: ep_says_def)
  have j: "ep_joined ep3 = ep_joined ep" "speech_room st3 = map_option fst (ep_joined ep)" using 3(4,5) inv by (simp_all add: ep_keeps_def ep_inv_def)
  have run: "ep_on_shutdown ep now turns = (case ep_joined ep3 of None \<Rightarrow> Inr ep3
      | Some (hash, room, peer, _) \<Rightarrow> Inr (ep_push (ep3\<lparr>ep_joined := None\<rparr>) (leave_outputs ep3 now hash room peer)))"
    using a(1) 3(1) False by (simp add: shutdown_eq)
  show ?thesis
  proof (cases "ep_joined ep")
    case None
    then show ?thesis using ep_resultI[OF s r] j run by simp
  next
    case (Some k)
    obtain h room peer mode where k: "k = (h, room, peer, mode)" by (cases k) auto
    let ?ep4 = "ep_push (ep3\<lparr>ep_joined := None\<rparr>) (leave_outputs ep3 now h room peer)"
    have "ep_says st3 (ep3\<lparr>ep_joined := None\<rparr>) None ?ep4"
      using s r 3(2) j(2) Some k by (intro says_leave) (auto simp: ep_says_def ep_drained_def)
    then have "ep_says st3 ep3 None ?ep4" by (simp add: ep_says_def)
    from ep_says_trans[OF s this] have "ep_result st ep (Inr ?ep4)" by (rule ep_resultI) (use r in simp_all)
    then show ?thesis using run j(1) Some k by simp
  qed
qed

end
