(* ===== verification/Endpoint_Contract.thy ===== *)
theory Endpoint_Contract
  imports Endpoint_Protocol
begin

text \<open>
  The calls of an endpoint and its runs. Shown, on the invariant of \<open>Endpoint_Protocol\<close>: no legal sequence of
  calls makes an endpoint panic or leave the protocol, and its loops over the tracks end.
\<close>

section \<open>Calls\<close>

datatype endpoint_call = EcTick | EcShutdown "ep_turn list" | EcTransport nat "ep_turn list" transport_event
  | EcRpc "ep_turn list" req_id endpoint_req | EcCluster endpoint_event | EcPop "ep_turn list"

definition ep_call :: "('w, 'fb) externals \<Rightarrow> endpoint_internal \<Rightarrow> nat \<Rightarrow> endpoint_call \<Rightarrow> (endpoint_internal \<times> internal_output option) res" where
  "ep_call x ep now call =
     (case call of
        EcTick \<Rightarrow> Inr (ep_on_tick ep now, None)
      | EcShutdown turns \<Rightarrow> res_bind (ep_on_shutdown ep now turns) (\<lambda>ep1. Inr (ep1, None))
      | EcTransport new_index turns event \<Rightarrow> res_bind (ep_on_transport_event x ep new_index now turns event) (\<lambda>ep1. Inr (ep1, None))
      | EcRpc turns req_id req \<Rightarrow> res_bind (ep_on_transport_rpc x ep now turns req_id req) (\<lambda>ep1. Inr (ep1, None))
      | EcCluster event \<Rightarrow> res_bind (ep_on_cluster_event ep now event) (\<lambda>ep1. Inr (ep1, None))
      | EcPop turns \<Rightarrow> ep_pop_output ep now turns)"

text \<open>What the caller and the task groups owe: the first state of a transport is neither connected nor
  failed, a track starts once, with an index that is not in use, the numbers of the room's media are in
  range, and a loop over the tracks makes the turns it should and runs to its end.\<close>

definition state_pre :: "endpoint_internal \<Rightarrow> nat \<Rightarrow> ep_turn list \<Rightarrow> transport_state \<Rightarrow> bool" where
  "state_pre ep now turns state \<longleftrightarrow>
     (let ep0 = ep\<lparr>ep_state := Some (now, state)\<rparr> in
      case (state, ep_state ep) of
        (TsConnectError _, Some (pre_ts, _)) \<Rightarrow>
          shutdown_pre (ep_push ep0 [IoPeerEvent now (PeConnectError (as_u32 (pre_ts - now)) 0)]) now turns
      | (TsConnectError _, None) \<Rightarrow> False
      | (TsConnected ip, Some (pre_ts, pre_event)) \<Rightarrow>
          (let ep1 = ep_push ep0
             [IoPeerEvent now (case pre_event of
                TsReconnecting _ \<Rightarrow> PeReconnected (as_u32 (pre_ts - now)) ip
              | _ \<Rightarrow> PeConnected (as_u32 (pre_ts - now)) ip)]
           in case ep_wait_join ep of
                None \<Rightarrow> True
              | Some (req_id, _) \<Rightarrow> leave_pre (ep_push (ep1\<lparr>ep_wait_join := None\<rparr>) [IoRpcRes req_id (ResJoinRoom (Inr ()))]) now turns)
      | (TsConnected ip, None) \<Rightarrow> False
      | (TsDisconnected _, _) \<Rightarrow>
          shutdown_pre (ep_push ep0 ([IoPeerEvent now (PeDisconnected 0 0)] @
            (if cfg_record (ep_cfg ep0) then [IoRecordEvent now RecDisconnected] else []))) now turns
      | _ \<Rightarrow> True)"

definition fresh_remote :: "endpoint_internal \<Rightarrow> nat \<Rightarrow> remote_track_id \<Rightarrow> bool" where
  "fresh_remote ep i track \<longleftrightarrow> i2_get1 (ep_remote_tracks_id ep) track = None \<and> i2_get2 (ep_remote_tracks_id ep) i = None"

definition fresh_local :: "endpoint_internal \<Rightarrow> nat \<Rightarrow> local_track_id \<Rightarrow> bool" where
  "fresh_local ep i track \<longleftrightarrow> i2_get1 (ep_local_tracks_id ep) track = None \<and> i2_get2 (ep_local_tracks_id ep) i = None"

definition ep_pre :: "endpoint_internal \<Rightarrow> nat \<Rightarrow> endpoint_call \<Rightarrow> bool" where
  "ep_pre ep now call \<longleftrightarrow>
     (case call of
        EcShutdown turns \<Rightarrow> shutdown_pre ep now turns
      | EcTransport i turns (TeState state) \<Rightarrow> state_pre ep now turns state
      | EcTransport i turns (TeRemoteTrack track (TreStarted name prio meta)) \<Rightarrow> fresh_remote ep i track
      | EcTransport i turns (TeLocalTrack track (TleStarted kind)) \<Rightarrow> fresh_local ep i track
      | EcRpc turns req_id (ReqJoinRoom room peer meta publish subscribe mixer) \<Rightarrow>
          (case ep_state ep of None \<Rightarrow> True | Some (_, TsConnecting _) \<Rightarrow> True
           | _ \<Rightarrow> leave_pre (ep_push ep [IoRpcRes req_id (ResJoinRoom (Inr ()))]) now turns)
      | EcRpc turns req_id ReqLeaveRoom \<Rightarrow>
          ep_wait_join ep \<noteq> None \<or> leave_pre (ep_push ep [IoRpcRes req_id (ResLeaveRoom (Inr ()))]) now turns
      | EcCluster (LocalTrackEv track (LtMedia ch pkt)) \<Rightarrow> pkt_ok pkt
      | EcPop turns \<Rightarrow> turns_ok now turns ep
      | _ \<Rightarrow> True)"

lemma result_silent:
  assumes "ep_inv st ep" "ep_inv st ep1" "ep_queue ep1 = ep_queue ep @ outs" "\<And>h c. IoCluster h c \<notin> set outs"
  shows "ep_result st ep (Inr ep1)"
proof -
  have "ep_base st ep1" using assms(2) by (simp add: ep_inv_def)
  with assms(3) speak_silent[OF assms(4)] have "ep_says st ep st ep1" by (rule ep_saysI)
  then show ?thesis using assms(2) unfolding ep_result_def by blast
qed

lemma ep_inv_cong [simp]:
  "ep_inv st (ep\<lparr>ep_queue := q\<rparr>) = ep_inv st ep" "ep_inv st (ep\<lparr>ep_bitrate_allocator := b\<rparr>) = ep_inv st ep"
  "ep_inv st (ep\<lparr>ep_state := s\<rparr>) = ep_inv st ep" "ep_inv st (ep\<lparr>ep_wait_join := w\<rparr>) = ep_inv st ep"
  "ep_inv st (ep_push ep outs) = ep_inv st ep"
  by (simp_all add: ep_inv_def)

text \<open>A call on an endpoint to which something was appended before.\<close>

lemma result_after:
  assumes r: "ep_result st ep1 r" and q: "ep_queue ep1 = ep_queue ep @ outs" "\<And>h c. IoCluster h c \<notin> set outs"
  shows "ep_result st ep r"
proof -
  obtain ep2 st2 where 2: "r = Inr ep2" "ep_says st ep1 st2 ep2" "ep_inv st2 ep2" using r by (auto simp: ep_result_def)
  then obtain more where m: "ep_queue ep2 = ep_queue ep1 @ more" "speak st more = Some st2" "ep_base st2 ep2" by (auto simp: ep_says_def)
  have "ep_says st ep st2 ep2" by (rule ep_saysI[of _ _ "outs @ more"]) (use m q in \<open>simp_all add: speak_append speak_silent\<close>)
  then show ?thesis using 2 unfolding ep_result_def by blast
qed

lemma state_ok:
  assumes inv: "ep_inv st ep" and pre: "state_pre ep now turns state"
  shows "ep_result st ep (ep_on_transport_state x ep now turns state)"
proof -
  let ?ep0 = "ep\<lparr>ep_state := Some (now, state)\<rparr>"
  have push: "ep_result st ep (Inr (ep_push ?ep0 outs))" if "\<And>h c. IoCluster h c \<notin> set outs" for outs
    by (rule result_silent[OF inv, where outs = outs]) (use inv that in simp_all)
  have shut: "ep_result st ep (ep_on_shutdown (ep_push ?ep0 outs) now turns)"
    if "shutdown_pre (ep_push ?ep0 outs) now turns" "\<And>h c. IoCluster h c \<notin> set outs" for outs
    by (rule result_after[OF shutdown_ok[of st, OF _ that(1)], where outs = outs]) (use inv that(2) in simp_all)
  show ?thesis
  proof (cases state)
    case TsNew
    then show ?thesis using push[of "[]"] by (simp add: ep_on_transport_state_def ep_push_def)
  next
    case (TsConnectError e)
    then obtain pre_ts ev where "ep_state ep = Some (pre_ts, ev)" using pre by (auto simp: state_pre_def Let_def split: option.splits)
    then show ?thesis using TsConnectError pre shut[of "[IoPeerEvent now (PeConnectError (as_u32 (pre_ts - now)) 0)]"]
      by (simp add: ep_on_transport_state_def state_pre_def Let_def)
  next
    case (TsConnected ip)
    then obtain pre_ts ev where e: "ep_state ep = Some (pre_ts, ev)" using pre by (auto simp: state_pre_def Let_def split: option.splits)
    define pe where "pe = (case ev of TsReconnecting _ \<Rightarrow> PeReconnected (as_u32 (pre_ts - now)) ip | _ \<Rightarrow> PeConnected (as_u32 (pre_ts - now)) ip)"
    let ?ep1 = "ep_push ?ep0 [IoPeerEvent now pe]"
    show ?thesis
    proof (cases "ep_wait_join ep")
      case None
      then show ?thesis using push[of "[IoPeerEvent now pe]"] TsConnected e by (simp add: ep_on_transport_state_def pe_def)
    next
      case (Some w)
      obtain req_id room peer meta publish subscribe mixer where w: "w = (req_id, room, peer, meta, publish, subscribe, mixer)" by (cases w) auto
      have "leave_pre (ep_push (?ep1\<lparr>ep_wait_join := None\<rparr>) [IoRpcRes req_id (ResJoinRoom (Inr ()))]) now turns"
        using pre TsConnected e Some w by (simp add: state_pre_def Let_def pe_def)
      then have "ep_result st ep (join_room x (?ep1\<lparr>ep_wait_join := None\<rparr>) now turns req_id room peer meta publish subscribe mixer)"
        by (rule result_after[OF join_room_ok[of st, rotated], where outs = "[IoPeerEvent now pe]"]) (use inv in simp_all)
      then show ?thesis
        using TsConnected e Some w by (simp add: ep_on_transport_state_def pe_def)
    qed
  next
    case (TsDisconnected e)
    then show ?thesis
      using pre shut[of "[IoPeerEvent now (PeDisconnected 0 0)] @ (if cfg_record (ep_cfg ?ep0) then [IoRecordEvent now RecDisconnected] else [])"]
      by (simp add: ep_on_transport_state_def state_pre_def Let_def)
  qed (use push in \<open>simp_all add: ep_on_transport_state_def\<close>)
qed

lemma base_fresh_local:
  assumes inv: "ep_inv st ep" and fresh: "fresh_local ep i track"
  shows "ep_inv st (ep\<lparr>ep_local_tracks := im_insert (ep_local_tracks ep) i (lt_new track kind (map_option fst (ep_joined ep))),
      ep_local_tracks_id := i2_insert (ep_local_tracks_id ep) track i\<rparr>)" (is "ep_inv st ?ep")
proof -
  let ?t = "lt_new track kind (map_option fst (ep_joined ep))"
  have b: "ep_base st ep" "i2_inv (ep_local_tracks_id ep)" and j: "speech_room st = map_option fst (ep_joined ep)"
    using inv unfolding ep_inv_def by (blast, simp add: ep_base_def, blast)
  have no: "im_get (ep_local_tracks ep) i = None" using b(1) fresh unfolding ep_base_def fresh_local_def by (metis not_None_eq)
  have "track \<notin> subs st" using b(1) fresh unfolding ep_base_def fresh_local_def by fastforce
  then have t: "local_task_ok st track ?t"
    using lt_inv_new[of track kind "map_option fst (ep_joined ep)"] j by (simp add: local_task_ok_def lt_new_def lt_active_def)
  have "\<exists>id1. i2_get2 (ep_local_tracks_id ?ep) k = Some id1 \<and> local_task_ok st id1 u" if "im_get (ep_local_tracks ?ep) k = Some u" for k u
    using b(1) t that fresh unfolding ep_base_def fresh_local_def by (cases "k = i") (auto simp: i2_insert_get)
  moreover have "\<exists>k u. i2_get1 (ep_local_tracks_id ?ep) id1 = Some k \<and> im_get (ep_local_tracks ?ep) k = Some u" if id1: "id1 \<in> subs st" for id1
  proof -
    obtain k u where "i2_get1 (ep_local_tracks_id ep) id1 = Some k" "im_get (ep_local_tracks ep) k = Some u"
      using b(1) id1 unfolding ep_base_def by blast
    moreover have "id1 \<noteq> track" using id1 \<open>track \<notin> subs st\<close> by blast
    moreover have "k \<noteq> i" using no calculation(2) by auto
    ultimately show ?thesis by (simp add: i2_insert_get)
  qed
  moreover have "i2_inv (ep_local_tracks_id ?ep)" using i2_insert_inv[OF b(2)] fresh by (simp add: fresh_local_def)
  ultimately have "ep_base st ?ep" using b(1) unfolding ep_base_def by simp
  moreover have "ep_rooms (speech_room st) ?ep" using inv j unfolding ep_inv_def ep_rooms_def by (simp add: lt_new_def)
  ultimately show ?thesis using j by (simp add: ep_inv_def)
qed

lemma base_fresh_remote:
  assumes inv: "ep_inv st ep" and fresh: "fresh_remote ep i track"
  shows "ep_inv st (ep\<lparr>ep_remote_tracks := im_insert (ep_remote_tracks ep) i (rt_new (map_option fst (ep_joined ep)) track name meta rec),
      ep_remote_tracks_id := i2_insert (ep_remote_tracks_id ep) track i\<rparr>)" (is "ep_inv st ?ep")
proof -
  have b: "ep_base st ep" "i2_inv (ep_remote_tracks_id ep)" and j: "speech_room st = map_option fst (ep_joined ep)"
    using inv unfolding ep_inv_def by (blast, simp add: ep_base_def, blast)
  have t: "remote_task_ok st (rt_new (map_option fst (ep_joined ep)) track name meta rec)"
    using j by (simp add: remote_task_ok_def rt_new_def)
  have "i2_get2 (ep_remote_tracks_id ?ep) k \<noteq> None \<and> remote_task_ok st u" if "im_get (ep_remote_tracks ?ep) k = Some u" for k u
    using b(1) t that unfolding ep_base_def by (cases "k = i") (auto simp: i2_insert_get)
  moreover have "i2_inv (ep_remote_tracks_id ?ep)" using i2_insert_inv[OF b(2)] fresh by (simp add: fresh_remote_def)
  ultimately have "ep_base st ?ep" using b(1) unfolding ep_base_def by simp
  moreover have "ep_rooms (speech_room st) ?ep" using inv j unfolding ep_inv_def ep_rooms_def by (simp add: rt_new_def)
  ultimately show ?thesis using j by (simp add: ep_inv_def)
qed

lemma remote_track_ok:
  assumes inv: "ep_inv st ep" and pre: "ep_pre ep now (EcTransport i turns (TeRemoteTrack track ev))"
  shows "ep_result st ep (on_transport_remote_track ep i now track ev)"
proof -
  define ep1 where "ep1 = (case remote_need_create ev of None \<Rightarrow> ep
    | Some (name, prio, meta) \<Rightarrow> ep\<lparr>ep_remote_tracks := im_insert (ep_remote_tracks ep) i
        (rt_new (map_option fst (ep_joined ep)) track name meta (cfg_record (ep_cfg ep))),
        ep_remote_tracks_id := i2_insert (ep_remote_tracks_id ep) track i\<rparr>)"
  have 1: "ep_inv st ep1" "ep_queue ep1 = ep_queue ep @ []"
    using inv pre base_fresh_remote[OF inv] by (cases ev; simp add: ep1_def remote_need_create_def ep_pre_def)+
  then have b: "ep_base st ep1" by (simp add: ep_inv_def)
  have r: "ep_result st ep1 (remote_event ep1 now index (RiEvent ev))" for index
    by (rule ep_step_result[OF remote_event_step[OF b] 1(1)]) simp_all
  have s: "ep_result st ep (Inr ep1)" by (rule result_silent[OF inv 1]) simp
  show ?thesis using s result_after[OF r 1(2)]
    by (auto simp: on_transport_remote_track_def Let_def ep1_def[symmetric] split: option.split)
qed

lemma local_track_ok:
  assumes inv: "ep_inv st ep" and pre: "ep_pre ep now (EcTransport i turns (TeLocalTrack track ev))"
  shows "ep_result st ep (on_transport_local_track ep i now track ev)"
proof -
  define outs where "outs = (case local_need_create ev of None \<Rightarrow> [] | Some kind \<Rightarrow> [IoPeerEvent now (PeLocalTrack track kind)])"
  define ep1 where "ep1 = (case local_need_create ev of None \<Rightarrow> ep
    | Some kind \<Rightarrow> ep_push (ep\<lparr>ep_local_tracks := im_insert (ep_local_tracks ep) i (lt_new track kind (map_option fst (ep_joined ep))),
        ep_local_tracks_id := i2_insert (ep_local_tracks_id ep) track i\<rparr>) [IoPeerEvent now (PeLocalTrack track kind)])"
  have 1: "ep_inv st ep1" "ep_queue ep1 = ep_queue ep @ outs"
    using inv pre base_fresh_local[OF inv] by (cases ev; simp add: ep1_def outs_def local_need_create_def ep_pre_def)+
  have o: "IoCluster h c \<notin> set outs" for h c by (simp add: outs_def split: option.split)
  have b: "ep_base st ep1" using 1(1) by (simp add: ep_inv_def)
  have r: "ep_result st ep1 (local_event ep1 now index (LiEvent ev))" for index
    by (rule ep_step_result[OF local_event_step[OF b] 1(1)]) (simp_all add: lt_pre_def)
  have s: "ep_result st ep (Inr ep1)" by (rule result_silent[OF inv 1 o])
  show ?thesis using s result_after[OF r 1(2) o]
    by (auto simp: on_transport_local_track_def Let_def ep1_def[symmetric] split: option.split)
qed

lemma in_room_ok:
  assumes inv: "ep_inv st ep" and c: "\<And>peer S h. speak_control (Some (h, S)) h (control peer) = Some (Some (h, S))"
  shows "ep_result st ep (Inr (in_room ep req_id res control))"
proof (cases "ep_joined ep")
  case None
  then show ?thesis using inv by (auto simp: in_room_def intro!: result_silent[of st ep _ "[IoRpcRes req_id (res (Inl EndpointNotInRoom))]"])
next
  case (Some j)
  obtain h room peer mode where j: "j = (h, room, peer, mode)" by (cases j) auto
  then obtain S where st: "st = Some (h, S)" using inv Some by (auto simp: ep_inv_def)
  let ?outs = "[IoRpcRes req_id (res (Inr ())), IoCluster h (control peer)]"
  have "ep_says st ep st (ep_push ep ?outs)"
    by (rule ep_saysI[of _ _ ?outs]) (use inv st c in \<open>simp_all add: ep_inv_def\<close>)
  then have "ep_result st ep (Inr (ep_push ep ?outs))" using inv unfolding ep_result_def by auto
  then show ?thesis using Some j by (simp add: in_room_def)
qed

lemma mixer_req_ok:
  assumes inv: "ep_inv st ep"
  shows "ep_result st ep (Inr (on_mixer_req ep req_id req))"
proof -
  have a: "ep_result st ep (Inr (ep_push ep [IoRpcRes req_id (ResAudioMixer r), IoCluster h (CtlAudioMixer c)]))"
    if j: "ep_joined ep = Some (h, room, peer, mode)" for h room peer mode r c
  proof -
    obtain S where st: "st = Some (h, S)" using inv j by (auto simp: ep_inv_def)
    have "ep_says st ep st (ep_push ep [IoRpcRes req_id (ResAudioMixer r), IoCluster h (CtlAudioMixer c)])"
      by (rule ep_saysI[of _ _ "[IoRpcRes req_id (ResAudioMixer r), IoCluster h (CtlAudioMixer c)]"]) (use inv st in \<open>simp_all add: ep_inv_def\<close>)
    then show ?thesis using inv unfolding ep_result_def by auto
  qed
  have e: "ep_result st ep (Inr (ep_push ep [IoRpcRes req_id r]))" for r
    by (rule result_silent[OF inv, where outs = "[IoRpcRes req_id r]"]) (use inv in simp_all)
  show ?thesis using a e
    by (auto simp: on_mixer_req_def Let_def split: endpoint_audio_mixer_req.split option.split audio_mixer_mode.split)
qed

lemma rpc_ok:
  assumes inv: "ep_inv st ep" and pre: "ep_pre ep now (EcRpc turns req_id req)"
  shows "ep_result st ep (ep_on_transport_rpc x ep now turns req_id req)"
proof -
  have b: "ep_base st ep" using inv by (simp add: ep_inv_def)
  have s: "ep_result st ep (Inr ep)" by (rule result_silent[OF inv inv, where outs = "[]"]) simp_all
  have w: "ep_result st ep (Inr (ep\<lparr>ep_wait_join := v\<rparr>))" for v by (rule result_silent[OF inv, where outs = "[]"]) (use inv in simp_all)
  show ?thesis
  proof (cases req)
    case (ReqJoinRoom room peer meta publish subscribe mixer)
    then show ?thesis using w pre join_room_ok[OF inv, of req_id now turns x]
      by (auto simp: ep_on_transport_rpc_def ep_pre_def split: option.splits transport_state.splits)
  next
    case ReqLeaveRoom
    let ?out = "[IoRpcRes req_id (ResLeaveRoom (Inr ()))]"
    have p: "ep_result st ep (Inr (ep_push (ep\<lparr>ep_wait_join := v\<rparr>) ?out))" for v
      by (rule result_silent[OF inv, where outs = ?out]) (use inv in simp_all)
    have "ep_result st ep (leave_room (ep_push ep ?out) now turns)" if l: "leave_pre (ep_push ep ?out) now turns"
    proof -
      obtain ep1 where "leave_room (ep_push ep ?out) now turns = Inr ep1" "ep_says st (ep_push ep ?out) None ep1" "ep_inv None ep1"
        using leave_room_ok[OF _ l, of st] inv by auto
      then have "ep_result st (ep_push ep ?out) (leave_room (ep_push ep ?out) now turns)" unfolding ep_result_def by blast
      then show ?thesis by (rule result_after[where outs = ?out]) simp_all
    qed
    then show ?thesis using ReqLeaveRoom pre p by (auto simp: ep_on_transport_rpc_def ep_pre_def split: option.split)
  next
    case (ReqRemoteTrack track r)
    have "ep_result st ep (remote_event ep now index (RiRpcReq req_id r))" for index
      by (rule ep_step_result[OF remote_event_step[OF b] inv]) simp_all
    then show ?thesis using ReqRemoteTrack s by (simp add: ep_on_transport_rpc_def split: option.split)
  next
    case (ReqLocalTrack track r)
    have "ep_result st ep (local_event ep now index (LiRpcReq req_id r))" for index
      by (rule ep_step_result[OF local_event_step[OF b] inv]) (simp_all add: lt_pre_def)
    then show ?thesis using ReqLocalTrack s by (simp add: ep_on_transport_rpc_def split: option.split)
  next
    case (ReqMessageChannel label r)
    then show ?thesis by (cases r) (simp_all add: ep_on_transport_rpc_def on_channel_req_def in_room_ok[OF inv])
  qed (simp_all add: ep_on_transport_rpc_def in_room_ok[OF inv] mixer_req_ok[OF inv])
qed

lemma cluster_event_ok:
  assumes inv: "ep_inv st ep" and pre: "ep_pre ep now (EcCluster ev)"
  shows "ep_result st ep (ep_on_cluster_event ep now ev)"
proof -
  have b: "ep_base st ep" using inv by (simp add: ep_inv_def)
  have s: "ep_result st ep (Inr ep)" by (rule result_silent[OF inv inv, where outs = "[]"]) simp_all
  have e: "ep_result st ep (Inr (ep_push ep [IoEvent v]))" for v
    by (rule result_silent[OF inv, where outs = "[IoEvent v]"]) (use inv in simp_all)
  show ?thesis
  proof (cases ev)
    case (RemoteTrackEv track r)
    have "ep_result st ep (remote_event ep now index (RiCluster r))" for index
      by (rule ep_step_result[OF remote_event_step[OF b] inv]) simp_all
    then show ?thesis using RemoteTrackEv s by (simp add: ep_on_cluster_event_def split: option.split)
  next
    case (LocalTrackEv track r)
    have "lt_pre t (LiCluster r)" for t using pre LocalTrackEv by (cases r) (simp_all add: ep_pre_def lt_pre_def)
    then have "ep_result st ep (local_event ep now index (LiCluster r))" for index
      by (intro ep_step_result[OF local_event_step[OF b] inv]) simp_all
    then show ?thesis using LocalTrackEv s by (simp add: ep_on_cluster_event_def split: option.split)
  qed (use e in \<open>auto simp: ep_on_cluster_event_def split: audio_mixer_event.split\<close>)
qed

lemma tick_ok:
  assumes inv: "ep_inv st ep"
  shows "ep_result st ep (Inr (ep_on_tick ep now))"
proof -
  let ?b = "ba_on_tick (ep_bitrate_allocator ep)" and ?ls = "map (\<lambda>(i, t). (i, lt_on_tick t now)) (ep_local_tracks ep)"
  let ?ep = "ep\<lparr>ep_bitrate_allocator := ?b\<rparr>"
  have base: "ep_base st ?ep" "im_wf (ep_local_tracks ep)" "im_wf (ep_remote_tracks ep)"
    using inv unfolding ep_inv_def by (simp, simp_all add: ep_base_def)
  have get: "im_get ?ls i = map_option (\<lambda>t. lt_on_tick t now) (im_get (ep_local_tracks ep) i)" for i by (simp add: map_of_map)
  have t: "local_task_ok st id1 (lt_on_tick t now)" if "local_task_ok st id1 t" for id1 t
    by (rule local_task_step[OF that lt_tick_ok]) (use that in \<open>auto simp: local_task_ok_def\<close>)
  have "ep_base st (?ep\<lparr>ep_local_tracks := ?ls, ep_remote_tracks := ep_remote_tracks ep\<rparr>)"
  proof (rule base_tracks[OF base(1)])
    show "im_wf ?ls" using base(2) by (simp add: im_wf_def case_prod_beta o_def)
    show "im_wf (ep_remote_tracks ep)" by (rule base(3))
    show "rel_option (\<lambda>t t1. \<forall>id1. local_task_ok st id1 t \<longrightarrow> local_task_ok st id1 t1) (im_get (ep_local_tracks ?ep) i) (im_get ?ls i)" for i
      unfolding get using t by (cases "im_get (ep_local_tracks ep) i") simp_all
    show "rel_option (\<lambda>t t1. remote_task_ok st t \<longrightarrow> remote_task_ok st t1) (im_get (ep_remote_tracks ?ep) i) (im_get (ep_remote_tracks ep) i)" for i
      by (cases "im_get (ep_remote_tracks ep) i") simp_all
  qed
  then have "ep_base st (ep_on_tick ep now)" by (simp add: ep_on_tick_def)
  moreover have r: "lt_room (lt_on_tick t now) = lt_room t \<and> lt_shutdown (lt_on_tick t now) = lt_shutdown t" if "lt_inv t" for t
    using lt_tick_ok[OF that, of now] by (auto simp: lt_ok_def)
  have "ep_keeps ep (ep_on_tick ep now)" using get r base(1) unfolding ep_keeps_def ep_on_tick_def
    by (auto simp: local_task_ok_def elim!: ep_base_local)
  ultimately have "ep_step st ep (Inr (ep_on_tick ep now))" by (rule ep_step_silent[where outs = "[]"]) (simp_all add: ep_on_tick_def)
  then show ?thesis using inv by (rule ep_step_result)
qed

text \<open>Every legal call succeeds; what it adds is said in the protocol.\<close>

definition outputs :: "internal_output option \<Rightarrow> internal_output list" where
  "outputs out = (case out of None \<Rightarrow> [] | Some o1 \<Rightarrow> [o1])"

definition ep_call_ok :: "speech \<Rightarrow> endpoint_internal \<Rightarrow> (endpoint_internal \<times> internal_output option) res \<Rightarrow> bool" where
  "ep_call_ok st ep r \<longleftrightarrow> (\<exists>ep1 out new st1. r = Inr (ep1, out) \<and> outputs out @ ep_queue ep1 = ep_queue ep @ new \<and>
     speak st new = Some st1 \<and> ep_inv st1 ep1)"

lemma result_call:
  assumes "ep_result st ep r"
  shows "ep_call_ok st ep (res_bind r (\<lambda>ep1. Inr (ep1, None)))"
  using assms by (auto simp: ep_result_def ep_call_ok_def ep_says_def outputs_def)

lemma pop_loop_ok:
  "ep_inv st ep \<Longrightarrow> ep_queue ep = [] \<Longrightarrow> turns_ok now turns ep \<Longrightarrow> ep_call_ok st ep (ep_pop_loop ep now turns)"
proof (induction turns arbitrary: st ep)
  case Nil
  then show ?case by (auto simp: ep_call_ok_def outputs_def intro!: exI[of _ st])
next
  case (Cons turn turns)
  have "ep_step st ep (ep_poll ep now turn)" using Cons.prems by (intro poll_step) (simp_all add: ep_inv_def)
  from ep_step_result[OF this Cons.prems(1)] obtain ep1 st1 where
    1: "ep_poll ep now turn = Inr ep1" "ep_says st ep st1 ep1" "ep_inv st1 ep1" by (auto simp: ep_result_def)
  then have q: "speak st (ep_queue ep1) = Some st1" using Cons.prems(2) by (auto simp: ep_says_def)
  show ?case
  proof (cases "ep_queue ep1")
    case Nil
    then have "ep_call_ok st1 ep1 (ep_pop_loop ep1 now turns)" using Cons.IH[OF 1(3)] Cons.prems(3) 1(1) by simp
    then show ?thesis using 1(1) Nil q Cons.prems(2) by (simp add: ep_call_ok_def)
  next
    case (Cons out rest)
    then show ?thesis using 1 q \<open>ep_queue ep = []\<close> by (auto simp: ep_call_ok_def outputs_def)
  qed
qed

lemma ep_call_okay:
  assumes inv: "ep_inv st ep" and pre: "ep_pre ep now call"
  shows "ep_call_ok st ep (ep_call x ep now call)"
proof (cases call)
  case EcTick
  then show ?thesis using result_call[OF tick_ok[OF inv, of now]] by (simp add: ep_call_def)
next
  case (EcShutdown turns)
  then show ?thesis using result_call[OF shutdown_ok[OF inv, of now turns]] pre by (simp add: ep_call_def ep_pre_def)
next
  case (EcTransport i turns ev)
  have "ep_result st ep (ep_on_transport_event x ep i now turns ev)"
  proof (cases ev)
    case (TeState s)
    then show ?thesis using state_ok[OF inv] pre EcTransport by (simp add: ep_on_transport_event_def ep_pre_def)
  next
    case (TeRemoteTrack track e)
    then show ?thesis using remote_track_ok[OF inv, of now i turns] pre EcTransport by (simp add: ep_on_transport_event_def)
  next
    case (TeLocalTrack track e)
    then show ?thesis using local_track_ok[OF inv, of now i turns] pre EcTransport by (simp add: ep_on_transport_event_def)
  qed (auto simp: ep_on_transport_event_def inv intro!: result_silent[where outs = "[]"])
  then show ?thesis using EcTransport result_call by (simp add: ep_call_def)
next
  case (EcRpc turns req_id req)
  then show ?thesis using result_call[OF rpc_ok[OF inv]] pre by (simp add: ep_call_def)
next
  case (EcCluster ev)
  then show ?thesis using result_call[OF cluster_event_ok[OF inv]] pre by (simp add: ep_call_def)
next
  case (EcPop turns)
  have "ep_call_ok st ep (ep_pop_output ep now turns)"
  proof (cases "ep_queue ep")
    case Nil
    then show ?thesis using pop_loop_ok[OF inv] pre EcPop by (simp add: ep_pop_output_def ep_pre_def)
  next
    case (Cons out rest)
    then show ?thesis using inv by (auto simp: ep_pop_output_def ep_call_ok_def outputs_def intro!: exI[of _ st])
  qed
  then show ?thesis using EcPop by (simp add: ep_call_def)
qed

section \<open>Runs of an endpoint\<close>

inductive ep_reach :: "('w, 'fb) externals \<Rightarrow> endpoint_cfg \<Rightarrow> internal_output list \<Rightarrow> endpoint_internal \<Rightarrow> bool"
  for x :: "('w, 'fb) externals" and cfg :: endpoint_cfg where
  ep_start: "ep_reach x cfg [] (ep_new cfg)"
| ep_next: "ep_reach x cfg said ep \<Longrightarrow> ep_pre ep now call \<Longrightarrow> ep_call x ep now call = Inr (ep1, out) \<Longrightarrow>
    ep_reach x cfg (said @ outputs out) ep1"

lemma ep_inv_new: "ep_inv None (ep_new cfg)"
  by (simp add: ep_inv_def ep_base_def ep_rooms_def ep_new_def i2_inv_default subs_def)

lemma ep_reach_inv: "ep_reach x cfg said ep \<Longrightarrow> \<exists>st. speak None (said @ ep_queue ep) = Some st \<and> ep_inv st ep"
proof (induction rule: ep_reach.induct)
  case ep_start
  then show ?case using ep_inv_new by (auto simp: ep_new_def)
next
  case (ep_next said ep now call ep1 out)
  then obtain st where st: "speak None (said @ ep_queue ep) = Some st" "ep_inv st ep" by blast
  from ep_call_okay[OF st(2) ep_next.hyps(2), of x] ep_next.hyps(3) obtain new st1 where
    n: "outputs out @ ep_queue ep1 = ep_queue ep @ new" "speak st new = Some st1" "ep_inv st1 ep1" by (auto simp: ep_call_ok_def)
  have "speak None ((said @ outputs out) @ ep_queue ep1) = speak None ((said @ ep_queue ep) @ new)" using n(1) by simp
  also have "\<dots> = Some st1" unfolding speak_append using st(1) n(2) by (simp add: speak_append)
  finally show ?case using n(3) by blast
qed

section \<open>The loops over the tracks end\<close>

definition im_weight :: "('v \<Rightarrow> nat) \<Rightarrow> ('k, 'v) imap \<Rightarrow> nat" where
  "im_weight f m = sum_list (map (\<lambda>e. f (snd e)) m)"

lemma im_weight_insert: "im_get m k = Some v \<Longrightarrow> im_weight f (im_insert m k w) + f v = im_weight f m + f w"
  by (induction m k w rule: im_insert.induct) (auto simp: im_weight_def)

lemma im_weight_remove:
  fixes m :: "('k, 'v) imap"
  assumes "im_get m k = Some v"
  shows "im_weight f (im_swap_remove m k) + f v = im_weight f m"
proof -
  have "\<exists>i. index_of (\<lambda>e. fst e = k) m = Some i \<and> i < length m \<and> m ! i = (k, v)"
    using assms by (induction m) (auto split: if_splits)
  then obtain i where i: "index_of (\<lambda>e. fst e = k) m = Some i" "i < length m" "m ! i = (k, v)" by blast
  have "(k, v) \<in># mset m" using i(2,3) nth_mem by fastforce
  moreover have "mset (im_swap_remove m k) = mset m - {#(k, v)#}" using i swap_remove_at_mset[OF i(2)] by (simp add: im_swap_remove_def)
  ultimately have "mset m = add_mset (k, v) (mset (im_swap_remove m k))" by simp
  moreover have "im_weight f n = sum_mset (image_mset (\<lambda>e. f (snd e)) (mset n))" for n :: "('k, 'v) imap"
    by (simp add: im_weight_def sum_mset_sum_list flip: mset_map)
  ultimately show ?thesis by simp
qed

text \<open>A turn is busy when it finds something to do. The allocator comes first in the measure: what it has
  queued may put something into a track's queue, a track never puts anything into the allocator's.\<close>

definition ba_pending :: "bitrate_allocator \<Rightarrow> nat" where
  "ba_pending b = length (eg_queue (ba_egress b)) + length (in_queue (ba_ingress b))"

definition track_weight :: "endpoint_internal \<Rightarrow> nat" where
  "track_weight ep = im_weight (\<lambda>t. Suc (length (lt_queue t))) (ep_local_tracks ep) +
     im_weight (\<lambda>t. Suc (length (rt_queue t))) (ep_remote_tracks ep)"

definition ep_busy :: "endpoint_internal \<Rightarrow> ep_turn \<Rightarrow> bool" where
  "ep_busy ep turn \<longleftrightarrow>
     (case turn of
        EtAllocator \<Rightarrow> 0 < ba_pending (ep_bitrate_allocator ep)
      | EtLocal i \<Rightarrow> (case im_get (ep_local_tracks ep) i of None \<Rightarrow> False | Some t \<Rightarrow> lt_queue t \<noteq> [])
      | EtLocalEmpty i \<Rightarrow> (case im_get (ep_local_tracks ep) i of None \<Rightarrow> False | Some t \<Rightarrow> lt_is_empty t)
      | EtRemote i \<Rightarrow> (case im_get (ep_remote_tracks ep) i of None \<Rightarrow> False | Some t \<Rightarrow> rt_queue t \<noteq> [])
      | EtRemoteEmpty i \<Rightarrow> (case im_get (ep_remote_tracks ep) i of None \<Rightarrow> False | Some t \<Rightarrow> rt_is_empty t)
      | EtGroupEmpty \<Rightarrow> False)"

lemma ba_pending_simps [simp]:
  "ba_pending (ba_set_egress_video_track b t p) = ba_pending b" "ba_pending (ba_del_egress_video_track b t) = ba_pending b"
  "ba_pending (ba_set_ingress_video_track b t p) = ba_pending b" "ba_pending (ba_del_ingress_video_track b t) = ba_pending b"
  by (simp_all add: ba_pending_def ba_set_egress_video_track_def ba_del_egress_video_track_def ba_set_ingress_video_track_def
      ba_del_ingress_video_track_def eg_set_video_track_def eg_del_video_track_def in_set_video_track_def in_del_video_track_def)

lemma ba_pop_pending: "0 < ba_pending b \<Longrightarrow> \<exists>b1 out. ba_pop_output b = (b1, Some out) \<and> ba_pending b1 < ba_pending b"
  by (cases "eg_queue (ba_egress b)"; cases "in_queue (ba_ingress b)")
    (auto simp: ba_pop_output_def ba_pending_def eg_pop_output_def in_pop_output_def split: egress_output.split)

lemma event_allocator:
  "local_event ep now i li = Inr ep1 \<Longrightarrow> ep_bitrate_allocator ep1 = ep_bitrate_allocator ep"
  "remote_event ep now i ri = Inr ep1 \<Longrightarrow> ep_bitrate_allocator ep1 = ep_bitrate_allocator ep"
  by (auto simp: local_event_def remote_event_def res_bind_Inr split: option.splits)

lemma on_local_output_frame:
  "on_local_output ep i out = Inr ep1 \<Longrightarrow> ba_pending (ep_bitrate_allocator ep1) = ba_pending (ep_bitrate_allocator ep) \<and>
    ep_remote_tracks ep1 = ep_remote_tracks ep \<and> ep_local_tracks ep1 \<in> {ep_local_tracks ep, im_swap_remove (ep_local_tracks ep) i}"
  by (cases out; cases "i2_get2 (ep_local_tracks_id ep) i") (auto simp: on_local_output_def drop_local_def rexpect_def rassert_def split: if_splits option.splits)

lemma on_remote_output_frame:
  "on_remote_output ep i out = Inr ep1 \<Longrightarrow> ba_pending (ep_bitrate_allocator ep1) = ba_pending (ep_bitrate_allocator ep) \<and>
    ep_local_tracks ep1 = ep_local_tracks ep \<and> ep_remote_tracks ep1 \<in> {ep_remote_tracks ep, im_swap_remove (ep_remote_tracks ep) i}"
  by (cases out; cases "i2_get2 (ep_remote_tracks_id ep) i") (auto simp: on_remote_output_def drop_remote_def rexpect_def rassert_def split: if_splits option.splits)

lemma poll_busy:
  assumes busy: "ep_busy ep turn" and run: "ep_poll ep now turn = Inr ep1"
  shows "(ep1, ep) \<in> measures [\<lambda>ep. ba_pending (ep_bitrate_allocator ep), track_weight]"
proof (cases turn)
  case EtAllocator
  obtain b1 out where b: "ba_pop_output (ep_bitrate_allocator ep) = (b1, Some out)" "ba_pending b1 < ba_pending (ep_bitrate_allocator ep)"
    using ba_pop_pending[of "ep_bitrate_allocator ep"] busy EtAllocator by (auto simp: ep_busy_def)
  have "ep_bitrate_allocator ep1 = b1"
    using run EtAllocator b(1) event_allocator[of "ep\<lparr>ep_bitrate_allocator := b1\<rparr>" now _ _ ep1]
    by (auto simp: ep_poll_def pop_bitrate_allocator_def Let_def split: alloc_output.splits option.splits)
  then show ?thesis using b(2) by simp
next
  case (EtLocal i)
  obtain t out rest where t: "im_get (ep_local_tracks ep) i = Some t" "lt_queue t = out # rest"
    using busy EtLocal by (auto simp: ep_busy_def neq_Nil_conv split: option.splits)
  let ?f = "\<lambda>t. Suc (length (lt_queue t))"
  let ?ls = "im_insert (ep_local_tracks ep) i (t\<lparr>lt_queue := rest\<rparr>)"
  have w: "im_weight ?f ?ls < im_weight ?f (ep_local_tracks ep)" using im_weight_insert[OF t(1), of ?f "t\<lparr>lt_queue := rest\<rparr>"] t(2) by simp
  have "im_weight ?f (im_swap_remove ?ls i) < im_weight ?f (ep_local_tracks ep)"
    using im_weight_remove[of ?ls i "t\<lparr>lt_queue := rest\<rparr>" ?f] w by simp
  then show ?thesis using run EtLocal t w on_local_output_frame[of "ep\<lparr>ep_local_tracks := ?ls\<rparr>" i out ep1]
    by (auto simp: ep_poll_def lt_pop_output_def track_weight_def)
next
  case (EtLocalEmpty i)
  obtain t where t: "im_get (ep_local_tracks ep) i = Some t" using busy EtLocalEmpty by (auto simp: ep_busy_def split: option.splits)
  then show ?thesis using run EtLocalEmpty im_weight_remove[OF t, of "\<lambda>t. Suc (length (lt_queue t))"]
    by (auto simp: ep_poll_def on_local_output_def drop_local_def track_weight_def res_bind_Inr rassert_Inr)
next
  case (EtRemote i)
  obtain t out rest where t: "im_get (ep_remote_tracks ep) i = Some t" "rt_queue t = out # rest"
    using busy EtRemote by (auto simp: ep_busy_def neq_Nil_conv split: option.splits)
  let ?f = "\<lambda>t. Suc (length (rt_queue t))"
  let ?rs = "im_insert (ep_remote_tracks ep) i (t\<lparr>rt_queue := rest\<rparr>)"
  have w: "im_weight ?f ?rs < im_weight ?f (ep_remote_tracks ep)" using im_weight_insert[OF t(1), of ?f "t\<lparr>rt_queue := rest\<rparr>"] t(2) by simp
  have "im_weight ?f (im_swap_remove ?rs i) < im_weight ?f (ep_remote_tracks ep)"
    using im_weight_remove[of ?rs i "t\<lparr>rt_queue := rest\<rparr>" ?f] w by simp
  then show ?thesis using run EtRemote t w on_remote_output_frame[of "ep\<lparr>ep_remote_tracks := ?rs\<rparr>" i out ep1]
    by (auto simp: ep_poll_def rt_pop_output_def track_weight_def)
next
  case (EtRemoteEmpty i)
  obtain t where t: "im_get (ep_remote_tracks ep) i = Some t" using busy EtRemoteEmpty by (auto simp: ep_busy_def split: option.splits)
  have "on_remote_output ep i (RoStopped (tm_kind (rt_meta t))) = Inr ep1" using run EtRemoteEmpty t by (simp add: ep_poll_def)
  moreover from this have "ep_remote_tracks ep1 = im_swap_remove (ep_remote_tracks ep) i"
    using t by (cases "i2_get2 (ep_remote_tracks_id ep) i") (auto simp: on_remote_output_def drop_remote_def rexpect_def rassert_def split: if_splits option.splits)
  ultimately show ?thesis using im_weight_remove[OF t, of "\<lambda>t. Suc (length (rt_queue t))"] on_remote_output_frame[of ep i _ ep1]
    by (simp add: track_weight_def)
qed (use busy in \<open>simp add: ep_busy_def\<close>)

lemma busy_turn_ok: "ep_busy ep turn \<Longrightarrow> turn_ok ep turn"
  by (auto simp: ep_busy_def turn_ok_def split: ep_turn.splits option.splits)

lemma idle_drained:
  assumes "im_wf (ep_local_tracks ep)" "im_wf (ep_remote_tracks ep)" and idle: "\<And>turn. \<not> ep_busy ep turn"
  shows "ep_drained ep"
proof -
  have "lt_queue t = [] \<and> \<not> lt_shutdown t" if "(i, t) \<in> set (ep_local_tracks ep)" for i t
    using that assms(1) idle[of "EtLocal i"] idle[of "EtLocalEmpty i"] by (simp add: ep_busy_def im_wf_def lt_is_empty_def)
  moreover have "rt_queue t = [] \<and> \<not> rt_shutdown t" if "(i, t) \<in> set (ep_remote_tracks ep)" for i t
    using that assms(2) idle[of "EtRemote i"] idle[of "EtRemoteEmpty i"] by (simp add: ep_busy_def im_wf_def rt_is_empty_def)
  ultimately show ?thesis by (auto simp: ep_drained_def list_all_iff)
qed

lemma drain_exists: "ep_base st ep \<Longrightarrow> \<exists>turns. drain_ok now turns ep"
proof (induction ep arbitrary: st rule: wf_induct_rule[OF wf_measures[of "[\<lambda>ep. ba_pending (ep_bitrate_allocator ep), track_weight]"]])
  case (1 ep)
  show ?case
  proof (cases "\<exists>turn. ep_busy ep turn")
    case True
    then obtain turn where busy: "ep_busy ep turn" by blast
    obtain ep1 st1 where p: "ep_poll ep now turn = Inr ep1" "ep_base st1 ep1"
      using poll_step[OF 1(2) busy_turn_ok[OF busy], of now] by (auto simp: ep_step_def ep_says_def)
    from 1(1)[OF poll_busy[OF busy p(1)] p(2)] obtain turns where "drain_ok now turns ep1" by blast
    then have "drain_ok now (turn # turns) ep" using p(1) busy_turn_ok[OF busy] by (simp add: drain_ok_def)
    then show ?thesis by blast
  next
    case False
    then have "ep_drained ep" using 1(2) by (intro idle_drained) (simp_all add: ep_base_def)
    then show ?thesis by (intro exI[of _ "[]"]) (simp add: drain_ok_def)
  qed
qed

section \<open>A session\<close>

text \<open>A run given by its calls.\<close>

fun ep_run :: "('w, 'fb) externals \<Rightarrow> nat \<Rightarrow> endpoint_call list \<Rightarrow> internal_output list \<times> endpoint_internal \<Rightarrow>
    (internal_output list \<times> endpoint_internal) option" where
  "ep_run x now [] s = Some s"
| "ep_run x now (call # calls) (said, ep) =
     (if ep_pre ep now call
      then (case ep_call x ep now call of Inl e \<Rightarrow> None | Inr (ep1, out) \<Rightarrow> ep_run x (Suc now) calls (said @ outputs out, ep1))
      else None)"

lemma ep_run_reach: "ep_run x now calls (said, ep) = Some (said1, ep1) \<Longrightarrow> ep_reach x cfg said ep \<Longrightarrow> ep_reach x cfg said1 ep1"
proof (induction calls arbitrary: now said ep)
  case (Cons call calls)
  then show ?case by (auto split: if_splits sum.splits intro: ep_next)
qed simp

definition demo_cfg :: endpoint_cfg where
  "demo_cfg = \<lparr>cfg_app = ''app'', cfg_max_egress_bitrate = 2000000, cfg_max_ingress_bitrate = 2000000, cfg_record = False\<rparr>"

definition demo_lcfg :: endpoint_local_track_config where
  "demo_lcfg = \<lparr>ltc_priority = 1, ltc_max_spatial = 2, ltc_max_temporal = 2, ltc_min_spatial = None, ltc_min_temporal = None\<rparr>"

definition demo_session :: "endpoint_call list" where
  "demo_session =
     [EcTransport 0 [] (TeState (TsConnecting ''10.0.0.1'')),
      EcRpc [] 0 (ReqJoinRoom ''room'' ''alice'' demo_meta \<lparr>rp_peer = True, rp_tracks = True\<rparr>
        \<lparr>rs_peers = True, rs_tracks = True\<rparr> None),
      EcTransport 0 [] (TeState (TsConnected ''10.0.0.1'')),
      EcTransport 7 [] (TeLocalTrack 1 (TleStarted Video)),
      EcRpc [] 1 (ReqLocalTrack 1 (LtReqAttach \<lparr>src_peer = ''bob'', src_track = ''cam''\<rparr> demo_lcfg)),
      EcPop [], EcPop [], EcPop [], EcPop [], EcPop [], EcPop [], EcPop [EtLocal 7], EcPop [EtLocal 7, EtLocal 7]]"


definition demo_said :: "internal_output list" where
  "demo_said =
     [IoPeerEvent 0 (PeConnecting ''10.0.0.1''), IoPeerEvent 2 (PeConnected 0 ''10.0.0.1''), IoRpcRes 0 (ResJoinRoom (Inr ())),
      IoCluster (room_hash demo_ext ''app'' ''room'')
        (CtlJoin ''alice'' demo_meta \<lparr>rp_peer = True, rp_tracks = True\<rparr> \<lparr>rs_peers = True, rs_tracks = True\<rparr> None),
      IoPeerEvent 2 (PeJoin ''room'' ''alice''), IoPeerEvent 3 (PeLocalTrack 1 Video), IoRpcRes 1 (ResLocalTrack 1 (LtResAttach (Inr ()))),
      IoCluster (room_hash demo_ext ''app'' ''room'') (CtlLocalTrack 1 (LtSubscribe ''bob'' ''cam''))]"

definition demo_leave :: endpoint_call where
  "demo_leave = EcRpc [EtLocal 7, EtLocal 7, EtLocal 7] 2 ReqLeaveRoom"

lemmas demo_defs = ep_pre_def ep_call_def demo_cfg_def demo_lcfg_def ep_new_def ba_new_def eg_new_def in_new_def i2_default_def ep_push_def
  ep_on_transport_event_def ep_on_transport_state_def state_pre_def ep_on_transport_rpc_def leave_pre_def leave_start_def join_room_def leave_room_def
  i2_pairs_def i2_insert_def i2_get1_def i2_get2_def fresh_local_def on_transport_local_track_def local_need_create_def local_event_def
  lt_on_event_def lt_on_transport_event_def lt_new_def lt_on_rpc_req_def lt_attach_def lt_push_def ep_pop_output_def ep_poll_def
  lt_pop_output_def on_local_output_def rexpect_def outputs_def turn_ok_def as_u32_def lt_on_leave_room_def rassert_def drain_ok_def ep_drained_def

lemma demo_session_run:
  "\<exists>ep. ep_run demo_ext 0 demo_session ([], ep_new demo_cfg) = Some (demo_said, ep) \<and> ep_pre ep 20 demo_leave"
  by (simp add: demo_session_def demo_said_def demo_leave_def demo_defs Let_def)

lemma demo_session_reach: "\<exists>ep. ep_reach demo_ext demo_cfg demo_said ep \<and> ep_pre ep 20 demo_leave"
  using demo_session_run ep_run_reach[OF _ ep_start] by blast

section \<open>Properties\<close>

text \<open>C13: While an endpoint leaves a room or shuts down it polls its tracks and its bitrate allocator until none of them has
  anything left. This loop ends: no sequence of busy turns goes on for ever, and from every state that an endpoint can be in some
  sequence of turns ends with all queues of the tracks empty and every track that was shut down removed.\<close>

theorem drain_ends:
  assumes "ep_reach x cfg said ep"
  shows "wf {(ep1, ep). \<exists>turn. ep_busy ep turn \<and> ep_poll ep now turn = Inr ep1} \<and> (\<exists>turns. drain_ok now turns ep)"
proof
  have "{(ep1, ep). \<exists>turn. ep_busy ep turn \<and> ep_poll ep now turn = Inr ep1} \<subseteq>
      measures [\<lambda>ep. ba_pending (ep_bitrate_allocator ep), track_weight]" using poll_busy by blast
  then show "wf {(ep1, ep). \<exists>turn. ep_busy ep turn \<and> ep_poll ep now turn = Inr ep1}" by (rule wf_subset[OF wf_measures])
  obtain st where "ep_base st ep" using ep_reach_inv[OF assms] by (auto simp: ep_inv_def)
  then show "\<exists>turns. drain_ok now turns ep" by (rule drain_exists)
qed

theorem drain_ends_witness:
  "\<exists>ep. ep_reach demo_ext demo_cfg demo_said ep \<and>
    wf {(ep1, ep). \<exists>turn. ep_busy ep turn \<and> ep_poll ep 20 turn = Inr ep1} \<and> (\<exists>turns. drain_ok 20 turns ep)"
  using demo_session_reach drain_ends[of demo_ext demo_cfg demo_said _ 20] by blast



text \<open>C3: What an endpoint tells the cluster follows the protocol: it joins a room before it says anything to it and leaves it before it joins
  the next, everything in between is for that room, each local track subscribes and unsubscribes in turn, and no track is still
  subscribed when the room is left. After everything queued has been said the cluster has the endpoint in the room it believes to be in.\<close>

theorem endpoint_speaks_protocol:
  assumes "ep_reach x cfg said ep"
  shows "speak None said \<noteq> None \<and>
    (\<exists>st. speak None (said @ ep_queue ep) = Some st \<and> map_option fst st = map_option fst (ep_joined ep))"
proof -
  obtain st where st: "speak None (said @ ep_queue ep) = Some st" "ep_inv st ep" using ep_reach_inv[OF assms] by blast
  then have "speak None said \<noteq> None" by (cases "speak None said") (simp_all add: speak_append)
  then show ?thesis using st by (auto simp: ep_inv_def)
qed

theorem endpoint_speaks_protocol_witness:
  "\<exists>ep. ep_reach demo_ext demo_cfg demo_said ep \<and> speak None demo_said \<noteq> None \<and>
    (\<exists>st. speak None (demo_said @ ep_queue ep) = Some st \<and> map_option fst st = map_option fst (ep_joined ep))"
  using demo_session_reach endpoint_speaks_protocol[of demo_ext demo_cfg demo_said] by blast

end
