(* ===== verification/Endpoint_Session.thy ===== *)
theory Endpoint_Session
  imports Endpoint_Contract
begin

text \<open>
  \<open>endpoint.rs\<close>: an endpoint is a transport and the hub of \<open>Endpoint_Internal\<close>. Inputs go to one of the two, what one
  puts out goes to the other or to the worker. The transport is any implementation of the trait \<open>Transport\<close>: its
  operations are a record, an argument of every definition. Shown: a session whose transport respects the contract
  of the hub never panics, and what the worker is told for the cluster is what the hub says, in the protocol.
\<close>

section \<open>Transport and state\<close>

datatype ('ni, 'xi) transport_input = TiNet 'ni | TiEndpoint transport_endpoint_event | TiRpcRes req_id endpoint_res | TiExt 'xi

datatype ('no, 'xo) transport_output = ToNet 'no | ToEvent transport_event | ToRpcReq req_id endpoint_req | ToExt 'xo | ToResourceEmpty

record ('t, 'ni, 'no, 'xi, 'xo) transport_ops =
  to_on_tick :: "'t \<Rightarrow> nat \<Rightarrow> 't"
  to_on_input :: "'t \<Rightarrow> nat \<Rightarrow> ('ni, 'xi) transport_input \<Rightarrow> 't"
  to_on_shutdown :: "'t \<Rightarrow> nat \<Rightarrow> 't"
  to_is_empty :: "'t \<Rightarrow> bool"
  to_pop_output :: "'t \<Rightarrow> nat \<Rightarrow> 't \<times> ('no, 'xo) transport_output option"

datatype ('ni, 'xi) endpoint_input = EiNet 'ni | EiCluster endpoint_event | EiExt 'xi

datatype ('no, 'xo) endpoint_output = EoNet 'no | EoCluster nat endpoint_control | EoPeerEvent app_id nat nat peer_event
  | EoRecordEvent nat nat session_record_event | EoExt 'xo | EoResourceEmpty | EoContinue

record 't endpoint =
  en_app :: app_id
  en_session_id :: nat
  en_transport :: 't
  en_internal :: endpoint_internal
  en_shutdown :: bool

definition en_new :: "nat \<Rightarrow> endpoint_cfg \<Rightarrow> 't \<Rightarrow> 't endpoint" where
  "en_new session_id cfg transport =
     \<lparr>en_app = cfg_app cfg, en_session_id = session_id, en_transport = transport, en_internal = ep_new cfg, en_shutdown = False\<rparr>"

section \<open>Operations\<close>

definition en_on_tick :: "('t, 'ni, 'no, 'xi, 'xo) transport_ops \<Rightarrow> 't endpoint \<Rightarrow> nat \<Rightarrow> 't endpoint" where
  "en_on_tick ops en now =
     en\<lparr>en_internal := ep_on_tick (en_internal en) now, en_transport := to_on_tick ops (en_transport en) now\<rparr>"

definition en_on_event ::
  "('t, 'ni, 'no, 'xi, 'xo) transport_ops \<Rightarrow> 't endpoint \<Rightarrow> nat \<Rightarrow> ('ni, 'xi) endpoint_input \<Rightarrow> 't endpoint res" where
  "en_on_event ops en now input =
     (case input of
        EiNet net \<Rightarrow> Inr (en\<lparr>en_transport := to_on_input ops (en_transport en) now (TiNet net)\<rparr>)
      | EiExt ext \<Rightarrow> Inr (en\<lparr>en_transport := to_on_input ops (en_transport en) now (TiExt ext)\<rparr>)
      | EiCluster event \<Rightarrow>
          res_bind (ep_on_cluster_event (en_internal en) now event) (\<lambda>ep. Inr (en\<lparr>en_internal := ep\<rparr>)))"

definition en_on_shutdown ::
  "('t, 'ni, 'no, 'xi, 'xo) transport_ops \<Rightarrow> 't endpoint \<Rightarrow> nat \<Rightarrow> ep_turn list \<Rightarrow> 't endpoint res" where
  "en_on_shutdown ops en now turns =
     (if en_shutdown en then Inr en
      else res_bind (ep_on_shutdown (en_internal en) now turns) (\<lambda>ep.
           Inr (en\<lparr>en_shutdown := True, en_internal := ep, en_transport := to_on_shutdown ops (en_transport en) now\<rparr>)))"

definition en_is_empty :: "('t, 'ni, 'no, 'xi, 'xo) transport_ops \<Rightarrow> 't endpoint \<Rightarrow> bool" where
  "en_is_empty ops en \<longleftrightarrow> ep_is_empty (en_internal en) \<and> to_is_empty ops (en_transport en)"

definition process_transport_output ::
  "('w, 'fb) externals \<Rightarrow> 't endpoint \<Rightarrow> nat \<Rightarrow> nat \<Rightarrow> ep_turn list \<Rightarrow> ('no, 'xo) transport_output \<Rightarrow>
   ('t endpoint \<times> ('no, 'xo) endpoint_output option) res" where
  "process_transport_output x en now new_index turns out =
     (case out of
        ToEvent event \<Rightarrow>
          res_bind (ep_on_transport_event x (en_internal en) new_index now turns event) (\<lambda>ep. Inr (en\<lparr>en_internal := ep\<rparr>, None))
      | ToExt ext \<Rightarrow> Inr (en, Some (EoExt ext))
      | ToNet net \<Rightarrow> Inr (en, Some (EoNet net))
      | ToRpcReq req_id req \<Rightarrow>
          res_bind (ep_on_transport_rpc x (en_internal en) now turns req_id req) (\<lambda>ep. Inr (en\<lparr>en_internal := ep\<rparr>, None))
      | ToResourceEmpty \<Rightarrow> Inr (en, Some EoContinue))"

definition process_internal_output ::
  "('t, 'ni, 'no, 'xi, 'xo) transport_ops \<Rightarrow> 't endpoint \<Rightarrow> nat \<Rightarrow> internal_output \<Rightarrow> 't endpoint \<times> ('no, 'xo) endpoint_output option" where
  "process_internal_output ops en now out =
     (case out of
        IoEvent event \<Rightarrow> (en\<lparr>en_transport := to_on_input ops (en_transport en) now (TiEndpoint event)\<rparr>, None)
      | IoRpcRes req_id res \<Rightarrow> (en\<lparr>en_transport := to_on_input ops (en_transport en) now (TiRpcRes req_id res)\<rparr>, None)
      | IoCluster room control \<Rightarrow> (en, Some (EoCluster room control))
      | IoResourceEmpty \<Rightarrow> (en, Some EoContinue)
      | IoPeerEvent ts event \<Rightarrow> (en, Some (EoPeerEvent (en_app en) (en_session_id en) ts event))
      | IoRecordEvent ts event \<Rightarrow> (en, Some (EoRecordEvent (en_session_id en) ts event)))"

text \<open>A turn of the loop polls the hub or the transport, with the turns that the hub makes in it and the index a
  track that is created there gets; a part that is empty says so once.\<close>

datatype en_turn = EnInternal "ep_turn list" | EnInternalEmpty | EnTransport nat "ep_turn list"

definition en_poll ::
  "('w, 'fb) externals \<Rightarrow> ('t, 'ni, 'no, 'xi, 'xo) transport_ops \<Rightarrow> 't endpoint \<Rightarrow> nat \<Rightarrow> en_turn \<Rightarrow>
   ('t endpoint \<times> ('no, 'xo) endpoint_output option) res" where
  "en_poll x ops en now turn =
     (case turn of
        EnInternal turns \<Rightarrow>
          res_bind (ep_pop_output (en_internal en) now turns) (\<lambda>(ep, out). Inr
            (case out of None \<Rightarrow> (en\<lparr>en_internal := ep\<rparr>, None) | Some o1 \<Rightarrow> process_internal_output ops (en\<lparr>en_internal := ep\<rparr>) now o1))
      | EnInternalEmpty \<Rightarrow> Inr (process_internal_output ops en now IoResourceEmpty)
      | EnTransport new_index turns \<Rightarrow>
          (case to_pop_output ops (en_transport en) now of
             (t, None) \<Rightarrow> Inr (en\<lparr>en_transport := t\<rparr>, None)
           | (t, Some out) \<Rightarrow> process_transport_output x (en\<lparr>en_transport := t\<rparr>) now new_index turns out))"

fun en_pop_output ::
  "('w, 'fb) externals \<Rightarrow> ('t, 'ni, 'no, 'xi, 'xo) transport_ops \<Rightarrow> 't endpoint \<Rightarrow> nat \<Rightarrow> en_turn list \<Rightarrow>
   ('t endpoint \<times> ('no, 'xo) endpoint_output option) res" where
  "en_pop_output x ops en now [] = Inr (en, None)"
| "en_pop_output x ops en now (turn # turns) =
     res_bind (en_poll x ops en now turn) (\<lambda>(en1, out).
     case out of Some o1 \<Rightarrow> Inr (en1, Some o1) | None \<Rightarrow> en_pop_output x ops en1 now turns)"

section \<open>Runs of a session\<close>

text \<open>What the transport owes the hub, for one turn.\<close>

definition en_turn_ok :: "('t, 'ni, 'no, 'xi, 'xo) transport_ops \<Rightarrow> 't endpoint \<Rightarrow> nat \<Rightarrow> en_turn \<Rightarrow> bool" where
  "en_turn_ok ops en now turn \<longleftrightarrow>
     (case turn of
        EnInternal turns \<Rightarrow> ep_pre (en_internal en) now (EcPop turns)
      | EnInternalEmpty \<Rightarrow> True
      | EnTransport i turns \<Rightarrow>
          (case snd (to_pop_output ops (en_transport en) now) of
             Some (ToEvent event) \<Rightarrow> ep_pre (en_internal en) now (EcTransport i turns event)
           | Some (ToRpcReq req_id req) \<Rightarrow> ep_pre (en_internal en) now (EcRpc turns req_id req)
           | _ \<Rightarrow> True))"

text \<open>The controls among the outputs of the hub and of the session.\<close>

definition controls :: "internal_output list \<Rightarrow> (nat \<times> endpoint_control) list" where
  "controls outs = concat (map (\<lambda>out. case out of IoCluster h c \<Rightarrow> [(h, c)] | _ \<Rightarrow> []) outs)"

definition session_controls :: "('no, 'xo) endpoint_output option \<Rightarrow> (nat \<times> endpoint_control) list" where
  "session_controls out = (case out of Some (EoCluster h c) \<Rightarrow> [(h, c)] | _ \<Rightarrow> [])"

lemma controls_append [simp]: "controls (a @ b) = controls a @ controls b" "controls [] = []"
  by (simp_all add: controls_def)

text \<open>One turn of a session is one call of the hub or none: it does not fail, and tells the worker the control the hub put out.\<close>

lemma en_poll_ok:
  assumes reach: "ep_reach x cfg said (en_internal en)" and ok: "en_turn_ok ops en now turn"
  shows "\<exists>en1 out new. en_poll x ops en now turn = Inr (en1, out) \<and> ep_reach x cfg (said @ new) (en_internal en1) \<and>
    controls new = session_controls out"
proof -
  have step: "\<exists>ep1 out. ep_call x (en_internal en) now call = Inr (ep1, out) \<and> ep_reach x cfg (said @ outputs out) ep1"
    if pre: "ep_pre (en_internal en) now call" for call
  proof -
    obtain st where "ep_inv st (en_internal en)" using ep_reach_inv[OF reach] by blast
    then obtain ep1 out where "ep_call x (en_internal en) now call = Inr (ep1, out)"
      using ep_call_okay[OF _ pre, of st x] by (auto simp: ep_call_ok_def)
    then show ?thesis using ep_next[OF reach pre] by blast
  qed
  have self: "ep_reach x cfg (said @ []) (en_internal en)" using reach by simp
  show ?thesis
  proof (cases turn)
    case (EnInternal turns)
    then obtain ep1 out where c: "ep_pop_output (en_internal en) now turns = Inr (ep1, out)" "ep_reach x cfg (said @ outputs out) ep1"
      using step[of "EcPop turns"] ok by (auto simp: en_turn_ok_def ep_call_def)
    show ?thesis
    proof (cases out)
      case None
      then show ?thesis using c EnInternal
        by (intro exI[of _ "en\<lparr>en_internal := ep1\<rparr>"] exI[of _ None] exI[of _ "[]"]) (simp add: en_poll_def outputs_def session_controls_def)
    next
      case (Some o1)
      then show ?thesis using c EnInternal
        by (cases o1) (auto simp: en_poll_def process_internal_output_def outputs_def session_controls_def controls_def intro!: exI[of _ "[o1]"])
    qed
  next
    case EnInternalEmpty
    then show ?thesis using self
      by (intro exI[of _ en] exI[of _ "Some EoContinue"] exI[of _ "[]"]) (simp add: en_poll_def process_internal_output_def session_controls_def)
  next
    case (EnTransport i turns)
    obtain t out where p: "to_pop_output ops (en_transport en) now = (t, out)" by fastforce
    have ev: "\<exists>ep1. ep_on_transport_event x (en_internal en) i now turns e = Inr ep1 \<and> ep_reach x cfg said ep1"
      if "ep_pre (en_internal en) now (EcTransport i turns e)" for e
      using step[OF that] by (auto simp: ep_call_def res_bind_Inr outputs_def)
    have rq: "\<exists>ep1. ep_on_transport_rpc x (en_internal en) now turns q r = Inr ep1 \<and> ep_reach x cfg said ep1"
      if "ep_pre (en_internal en) now (EcRpc turns q r)" for q r
      using step[OF that] by (auto simp: ep_call_def res_bind_Inr outputs_def)
    have "\<exists>en1 out1. en_poll x ops en now turn = Inr (en1, out1) \<and> ep_reach x cfg said (en_internal en1) \<and> session_controls out1 = []"
    proof (cases out)
      case None
      then show ?thesis using EnTransport p reach by (simp add: en_poll_def session_controls_def)
    next
      case (Some o1)
      then show ?thesis using EnTransport p reach ok ev rq
        by (cases o1) (fastforce simp: en_poll_def process_transport_output_def session_controls_def en_turn_ok_def)+
    qed
    then show ?thesis by (metis append_Nil2 controls_append(2))
  qed
qed

fun en_turns_ok :: "('w, 'fb) externals \<Rightarrow> ('t, 'ni, 'no, 'xi, 'xo) transport_ops \<Rightarrow> 't endpoint \<Rightarrow> nat \<Rightarrow> en_turn list \<Rightarrow> bool" where
  "en_turns_ok x ops en now [] = True"
| "en_turns_ok x ops en now (turn # turns) =
     (en_turn_ok ops en now turn \<and>
      (case en_poll x ops en now turn of Inr (en1, None) \<Rightarrow> en_turns_ok x ops en1 now turns | _ \<Rightarrow> True))"

text \<open>Polling a session: it does not panic and leaves the hub in a state a run of the hub reaches. What it says to the cluster is,
  together with what was said before, what the hub has said.\<close>

lemma en_pop_ok:
  "ep_reach x cfg said (en_internal en) \<Longrightarrow> en_turns_ok x ops en now turns \<Longrightarrow>
   \<exists>en1 out new. en_pop_output x ops en now turns = Inr (en1, out) \<and> ep_reach x cfg (said @ new) (en_internal en1) \<and>
     controls new = session_controls out"
proof (induction turns arbitrary: said en)
  case Nil
  then show ?case by (intro exI[of _ en] exI[of _ None] exI[of _ "[]"]) (simp add: session_controls_def)
next
  case (Cons turn turns)
  obtain en1 out new where p: "en_poll x ops en now turn = Inr (en1, out)" "ep_reach x cfg (said @ new) (en_internal en1)"
      "controls new = session_controls out"
    using en_poll_ok[OF Cons.prems(1), of ops now turn] Cons.prems(2) by auto
  show ?case
  proof (cases out)
    case None
    then obtain en2 out2 new2 where q: "en_pop_output x ops en1 now turns = Inr (en2, out2)"
        "ep_reach x cfg ((said @ new) @ new2) (en_internal en2)" "controls new2 = session_controls out2"
      using Cons.IH[OF p(2)] Cons.prems(2) p(1) by auto
    then show ?thesis using p None by (intro exI[of _ en2] exI[of _ out2] exI[of _ "new @ new2"]) (simp add: session_controls_def)
  next
    case (Some o1)
    then show ?thesis using p by (intro exI[of _ en1] exI[of _ out] exI[of _ new]) simp
  qed
qed

end
