(* ===== verification/Rtp_Payload.thy ===== *)
theory Rtp_Payload
  imports Video_Selectors
begin

text \<open>
  The payload headers of \<open>packages/transport_webrtc/src/media\<close>: reading the codec's header of an RTP packet into the
  metadata the selectors work on (\<open>vp8.rs\<close>, \<open>vp9.rs\<close>, \<open>h264.rs\<close>, over the bit reader of \<open>bit_read.rs\<close>), and writing the
  numbers they chose back into a packet that is sent on. Bytes are \<open>8 word\<close>. Shown: what is written is what is read
  again, everything read is in the range the selectors need, and when reading panics.
\<close>

unbundle bit_operations_syntax

section \<open>The bit reader\<close>

type_synonym reader = "8 word list \<times> nat"

fun bits_remaining :: "reader \<Rightarrow> nat" where
  "bits_remaining (p, pos) = length p * 8 - pos"

fun byte_at :: "8 word list \<Rightarrow> nat \<Rightarrow> 8 word res" where
  "byte_at p i = (if i < length p then Inr (p ! i) else Inl OutOfRange)"

fun get_u8 :: "reader \<Rightarrow> (8 word \<times> reader) res" where
  "get_u8 (p, pos) =
     (if bits_remaining (p, pos) = 0 then Inl Unreachable
      else
        (let offs = pos div 8; shift = pos mod 8 in
         res_bind (byte_at p offs) (\<lambda>n.
         if shift > 0
         then res_bind (byte_at p (offs + 1)) (\<lambda>m. Inr (push_bit shift n OR drop_bit (8 - shift) m, (p, pos + 8)))
         else Inr (n, (p, pos + 8)))))"

definition get_u16 :: "reader \<Rightarrow> (16 word \<times> reader) res" where
  "get_u16 r = res_bind (get_u8 r) (\<lambda>(a, r1). res_bind (get_u8 r1) (\<lambda>(b, r2). Inr (push_bit 8 (ucast a) OR ucast b, r2)))"

section \<open>VP8\<close>

record vp8_header =
  v8_x :: "8 word"
  v8_n :: "8 word"
  v8_s :: "8 word"
  v8_pid :: "8 word"
  v8_i :: "8 word"
  v8_l :: "8 word"
  v8_t :: "8 word"
  v8_k :: "8 word"
  v8_picture_id :: "16 word"
  v8_tl0_pic_idx :: "8 word"
  v8_tid :: "8 word"
  v8_y :: "8 word"
  v8_key_idx :: "8 word"

definition vp8_extended :: "vp8_header \<Rightarrow> reader \<Rightarrow> nat \<Rightarrow> (vp8_header \<times> reader \<times> nat) res" where
  "vp8_extended h r payload_index =
     (if v8_x h = 1
      then res_bind (get_u8 r) (\<lambda>(b, r1).
           Inr (h\<lparr>v8_i := drop_bit 7 (b AND 0x80), v8_l := drop_bit 6 (b AND 0x40), v8_t := drop_bit 5 (b AND 0x20),
                  v8_k := drop_bit 4 (b AND 0x10)\<rparr>, r1, payload_index + 1))
      else Inr (h, r, payload_index))"

definition vp8_picture :: "vp8_header \<Rightarrow> reader \<Rightarrow> nat \<Rightarrow> (vp8_header \<times> reader \<times> nat) res" where
  "vp8_picture h r payload_index =
     (if v8_i h = 1
      then res_bind (get_u8 r) (\<lambda>(b, r1).
           if b AND 0x80 > 0
           then res_bind (get_u8 r1) (\<lambda>(c, r2).
                Inr (h\<lparr>v8_picture_id := push_bit 8 (ucast (b AND 0x7f)) OR ucast c\<rparr>, r2, payload_index + 2))
           else Inr (h\<lparr>v8_picture_id := ucast b\<rparr>, r1, payload_index + 1))
      else Inr (h, r, payload_index))"

definition vp8_tl0 :: "vp8_header \<Rightarrow> reader \<Rightarrow> nat \<Rightarrow> (vp8_header \<times> reader \<times> nat) res" where
  "vp8_tl0 h r payload_index =
     (if v8_l h = 1
      then res_bind (get_u8 r) (\<lambda>(b, r1). Inr (h\<lparr>v8_tl0_pic_idx := b\<rparr>, r1, payload_index + 1))
      else Inr (h, r, payload_index))"

definition vp8_layers :: "vp8_header \<Rightarrow> reader \<Rightarrow> nat \<Rightarrow> (vp8_header \<times> reader \<times> nat) res" where
  "vp8_layers h r payload_index =
     (if v8_t h = 1 \<or> v8_k h = 1
      then res_bind (get_u8 r) (\<lambda>(b, r1).
           let h1 = (if v8_t h = 1 then h\<lparr>v8_tid := drop_bit 6 b, v8_y := drop_bit 5 b AND 1\<rparr> else h);
               h2 = (if v8_k h1 = 1 then h1\<lparr>v8_key_idx := b AND 0x1F\<rparr> else h1)
           in Inr (h2, r1, payload_index + 1))
      else Inr (h, r, payload_index))"

definition vp8_meta :: "vp8_header \<Rightarrow> 8 word \<Rightarrow> nat option \<Rightarrow> media_orientation option \<Rightarrow> media_meta" where
  "vp8_meta h out0 rid rotation =
     (let is_key = (v8_s h \<noteq> 0 \<and> v8_pid h = 0 \<and> out0 AND 0x01 = 0) in
      if v8_t h = 1
      then Vp8 is_key
             (Some \<lparr>vp8_picture_id = (if v8_i h \<noteq> 0 then Some (unat (v8_picture_id h)) else None),
                    vp8_tl0_pic_idx = (if v8_l h \<noteq> 0 then Some (unat (v8_tl0_pic_idx h)) else None),
                    vp8_spatial = (case rid of None \<Rightarrow> 0 | Some r \<Rightarrow> r), vp8_temporal = unat (v8_tid h), vp8_layer_sync = (v8_y h \<noteq> 0)\<rparr>)
             rotation
      else Vp8 is_key None rotation)"

definition vp8_parse_rtp :: "8 word list \<Rightarrow> nat option \<Rightarrow> media_orientation option \<Rightarrow> media_meta option res" where
  "vp8_parse_rtp packet rid rotation =
     (let payload_len = length packet in
      if payload_len < 4 then Inr None
      else
        res_bind (get_u8 (packet, 0)) (\<lambda>(b, r0).
        let h0 = \<lparr>v8_x = drop_bit 7 (b AND 0x80), v8_n = drop_bit 5 (b AND 0x20), v8_s = drop_bit 4 (b AND 0x10), v8_pid = b AND 0x07,
                  v8_i = 0, v8_l = 0, v8_t = 0, v8_k = 0, v8_picture_id = 0, v8_tl0_pic_idx = 0, v8_tid = 0, v8_y = 0, v8_key_idx = 0\<rparr>
        in res_bind (vp8_extended h0 r0 1) (\<lambda>(h1, r1, i1).
           res_bind (vp8_picture h1 r1 i1) (\<lambda>(h2, r2, i2).
           if i2 \<ge> payload_len then Inr None
           else res_bind (vp8_tl0 h2 r2 i2) (\<lambda>(h3, r3, i3).
           if i3 \<ge> payload_len then Inr None
           else res_bind (vp8_layers h3 r3 i3) (\<lambda>(h4, r4, i4).
           if i4 \<ge> payload_len then Inr None
           else res_bind (byte_at packet i4) (\<lambda>out0. Inr (Some (vp8_meta h4 out0 rid rotation)))))))))"

definition set_byte :: "8 word list \<Rightarrow> nat \<Rightarrow> 8 word \<Rightarrow> 8 word list res" where
  "set_byte p i b = (if i < length p then Inr (p[i := b]) else Inl OutOfRange)"

text \<open>Both codecs write a picture identifier in the same way: over one byte or two, as the packet has it.\<close>

definition rewrite_picture :: "8 word list \<Rightarrow> nat \<Rightarrow> nat option \<Rightarrow> (8 word list \<times> nat) res" where
  "rewrite_picture p i picture_id =
     (let v = (case picture_id of None \<Rightarrow> 0 | Some v \<Rightarrow> v) in
      res_bind (byte_at p i) (\<lambda>b.
      if b AND 0x80 > 0
      then res_bind (set_byte p i (0x80 OR word_of_nat (v div 256))) (\<lambda>p1.
           res_bind (set_byte p1 (i + 1) (word_of_nat v)) (\<lambda>p2. Inr (p2, i + 2)))
      else res_bind (set_byte p i (0x7F AND word_of_nat v)) (\<lambda>p1. Inr (p1, i + 1))))"

definition vp8_rewrite_rtp :: "8 word list \<Rightarrow> vp8_sim \<Rightarrow> 8 word list res" where
  "vp8_rewrite_rtp payload sim =
     res_bind (byte_at payload 0) (\<lambda>b.
     res_bind (if drop_bit 7 (b AND 0x80) = 1
               then res_bind (byte_at payload 1) (\<lambda>c. Inr (drop_bit 7 (c AND 0x80), drop_bit 6 (c AND 0x40), 2))
               else Inr (0, 0, 1)) (\<lambda>(i, l, n).
     res_bind (if i = 1 then rewrite_picture payload n (vp8_picture_id sim) else Inr (payload, n)) (\<lambda>(p1, n1).
     if l = 1 then set_byte p1 n1 (word_of_nat (case vp8_tl0_pic_idx sim of None \<Rightarrow> 0 | Some v \<Rightarrow> v)) else Inr p1)))"

section \<open>H264\<close>

definition h264_parse_rtp :: "8 word list \<Rightarrow> h264_profile \<Rightarrow> nat option \<Rightarrow> media_orientation option \<Rightarrow> media_meta option res" where
  "h264_parse_rtp payload profile rid rotation =
     (if length payload < 4 then Inr None
      else
        (let word = push_bit 24 (ucast (payload ! 0)) OR push_bit 16 (ucast (payload ! 1)) OR push_bit 8 (ucast (payload ! 2)) OR
               (ucast (payload ! 3) :: 32 word);
             nalu_type = drop_bit 24 word AND 0x1F;
             key = (nalu_type = 24 \<and> word AND 0x1F = 7 \<or> nalu_type = 7)
         in Inr (Some (H264 key profile (map_option (\<lambda>r. \<lparr>h264_spatial = r\<rparr>) rid) rotation))))"

definition h264_rewrite_rtp :: "8 word list \<Rightarrow> h264_sim \<Rightarrow> 8 word list" where
  "h264_rewrite_rtp payload sim = payload"

section \<open>VP9\<close>

definition MAX_SPATIAL_LAYERS :: "8 word" where "MAX_SPATIAL_LAYERS = 5"
definition MAX_VP9REF_PICS :: nat where "MAX_VP9REF_PICS = 3"

datatype packet_error = ErrShortPacket | ErrTooManySpatialLayers | ErrTooManyPDiff

type_synonym 'a pres = "(packet_error + 'a) res"

definition pbind :: "'a pres \<Rightarrow> ('a \<Rightarrow> 'b pres) \<Rightarrow> 'b pres" where
  "pbind r f = res_bind r (\<lambda>x. case x of Inl e \<Rightarrow> Inr (Inl e) | Inr y \<Rightarrow> f y)"

record vp9_header =
  v9_i :: bool
  v9_p :: bool
  v9_l :: bool
  v9_f :: bool
  v9_b :: bool
  v9_e :: bool
  v9_v :: bool
  v9_z :: bool
  v9_picture_id :: "16 word"
  v9_tid :: "8 word"
  v9_u :: bool
  v9_sid :: "8 word"
  v9_d :: bool
  v9_pdiff :: "8 word list"
  v9_tl0picidx :: "8 word"
  v9_ns :: "8 word"
  v9_y :: bool
  v9_g :: bool
  v9_ng :: "8 word"
  v9_width :: "16 word list"
  v9_height :: "16 word list"
  v9_pgtid :: "8 word list"
  v9_pgu :: "bool list"
  v9_pgpdiff :: "8 word list list"

definition vp9_default :: vp9_header where
  "vp9_default = \<lparr>v9_i = False, v9_p = False, v9_l = False, v9_f = False, v9_b = False, v9_e = False, v9_v = False, v9_z = False,
     v9_picture_id = 0, v9_tid = 0, v9_u = False, v9_sid = 0, v9_d = False, v9_pdiff = [], v9_tl0picidx = 0, v9_ns = 0, v9_y = False,
     v9_g = False, v9_ng = 0, v9_width = [], v9_height = [], v9_pgtid = [], v9_pgu = [], v9_pgpdiff = []\<rparr>"

text \<open>A byte, if any bits are left.\<close>

definition checked_u8 :: "reader \<Rightarrow> (8 word \<times> reader) pres" where
  "checked_u8 r = (if bits_remaining r = 0 then Inr (Inl ErrShortPacket) else res_bind (get_u8 r) (\<lambda>x. Inr (Inr x)))"

definition parse_picture_id :: "vp9_header \<Rightarrow> reader \<Rightarrow> nat \<Rightarrow> (vp9_header \<times> reader \<times> nat) pres" where
  "parse_picture_id h r payload_index =
     pbind (checked_u8 r) (\<lambda>(b, r1).
     if b AND 0x80 \<noteq> 0
     then pbind (checked_u8 r1) (\<lambda>(c, r2).
          Inr (Inr (h\<lparr>v9_picture_id := push_bit 8 (ucast (b AND 0x7f)) OR ucast c\<rparr>, r2, payload_index + 2)))
     else Inr (Inr (h\<lparr>v9_picture_id := ucast (b AND 0x7F)\<rparr>, r1, payload_index + 1)))"

definition parse_layer_info_common :: "vp9_header \<Rightarrow> reader \<Rightarrow> nat \<Rightarrow> (vp9_header \<times> reader \<times> nat) pres" where
  "parse_layer_info_common h r payload_index =
     pbind (checked_u8 r) (\<lambda>(b, r1).
     let h1 = h\<lparr>v9_tid := drop_bit 5 b, v9_u := (b AND 0x10 \<noteq> 0), v9_sid := drop_bit 1 b AND 0x7, v9_d := (b AND 0x01 \<noteq> 0)\<rparr>
     in if v9_sid h1 \<ge> MAX_SPATIAL_LAYERS then Inr (Inl ErrTooManySpatialLayers) else Inr (Inr (h1, r1, payload_index + 1)))"

definition parse_layer_info_non_flexible_mode :: "vp9_header \<Rightarrow> reader \<Rightarrow> nat \<Rightarrow> (vp9_header \<times> reader \<times> nat) pres" where
  "parse_layer_info_non_flexible_mode h r payload_index =
     pbind (checked_u8 r) (\<lambda>(b, r1). Inr (Inr (h\<lparr>v9_tl0picidx := b\<rparr>, r1, payload_index + 1)))"

definition parse_layer_info :: "vp9_header \<Rightarrow> reader \<Rightarrow> nat \<Rightarrow> (vp9_header \<times> reader \<times> nat) pres" where
  "parse_layer_info h r payload_index =
     pbind (parse_layer_info_common h r payload_index) (\<lambda>(h1, r1, i1).
     if v9_f h1 then Inr (Inr (h1, r1, i1)) else parse_layer_info_non_flexible_mode h1 r1 i1)"

text \<open>The loop over the reference indices leaves at the third one at the latest.\<close>

function parse_ref_indices :: "vp9_header \<Rightarrow> reader \<Rightarrow> nat \<Rightarrow> (vp9_header \<times> reader \<times> nat) pres" where
  "parse_ref_indices h r payload_index =
     pbind (checked_u8 r) (\<lambda>(b, r1).
     let h1 = h\<lparr>v9_pdiff := v9_pdiff h @ [drop_bit 1 b]\<rparr> in
     if length (v9_pdiff h1) \<ge> MAX_VP9REF_PICS then Inr (Inl ErrTooManyPDiff)
     else if b AND 0x1 \<noteq> 0 then parse_ref_indices h1 r1 (payload_index + 1) else Inr (Inr (h1, r1, payload_index + 1)))"
  by pat_completeness auto
termination by (relation "measure (\<lambda>(h, r, i). MAX_VP9REF_PICS - length (v9_pdiff h))") auto

declare parse_ref_indices.simps [simp del]

fun read_sizes :: "nat \<Rightarrow> reader \<Rightarrow> ((16 word \<times> 16 word) list \<times> reader) res" where
  "read_sizes 0 r = Inr ([], r)"
| "read_sizes (Suc n) r =
     res_bind (get_u16 r) (\<lambda>(w, r1). res_bind (get_u16 r1) (\<lambda>(h, r2). res_bind (read_sizes n r2) (\<lambda>(ss, r3). Inr ((w, h) # ss, r3))))"

fun read_bytes :: "nat \<Rightarrow> reader \<Rightarrow> (8 word list \<times> reader) res" where
  "read_bytes 0 r = Inr ([], r)"
| "read_bytes (Suc n) r = res_bind (get_u8 r) (\<lambda>(b, r1). res_bind (read_bytes n r1) (\<lambda>(bs, r2). Inr (b # bs, r2)))"

text \<open>The pictures of a group. The lengths compared with are in bytes, what remains is counted in bits.\<close>

fun parse_pictures :: "nat \<Rightarrow> vp9_header \<Rightarrow> reader \<Rightarrow> nat \<Rightarrow> (vp9_header \<times> reader \<times> nat) pres" where
  "parse_pictures 0 h r payload_index = Inr (Inr (h, r, payload_index))"
| "parse_pictures (Suc n) h r payload_index =
     pbind (checked_u8 r) (\<lambda>(b, r1).
     let h1 = h\<lparr>v9_pgtid := v9_pgtid h @ [drop_bit 5 b], v9_pgu := v9_pgu h @ [b AND 0x10 \<noteq> 0]\<rparr>;
         k = unat (drop_bit 2 b AND 0x3)
     in if bits_remaining r1 < k then Inr (Inl ErrShortPacket)
        else res_bind (read_bytes k r1) (\<lambda>(ds, r2).
             parse_pictures n (h1\<lparr>v9_pgpdiff := v9_pgpdiff h1 @ [ds]\<rparr>) r2 (payload_index + 1 + k)))"

definition parse_ssdata :: "vp9_header \<Rightarrow> reader \<Rightarrow> nat \<Rightarrow> (vp9_header \<times> reader \<times> nat) pres" where
  "parse_ssdata h r payload_index =
     pbind (checked_u8 r) (\<lambda>(b, r1).
     let h1 = h\<lparr>v9_ns := drop_bit 5 b, v9_y := (b AND 0x10 \<noteq> 0), v9_g := (drop_bit 1 b AND 0x7 \<noteq> 0), v9_ng := 0\<rparr>;
         ns = unat (v9_ns h1 + 1)
     in pbind (if v9_y h1
               then (if bits_remaining r1 < 4 * ns then Inr (Inl ErrShortPacket)
                     else res_bind (read_sizes ns r1) (\<lambda>(ss, r2).
                          Inr (Inr (h1\<lparr>v9_width := map fst ss, v9_height := map snd ss\<rparr>, r2, payload_index + 1 + 4 * ns))))
               else Inr (Inr (h1, r1, payload_index + 1))) (\<lambda>(h2, r2, i2).
        pbind (if v9_g h2 then pbind (checked_u8 r2) (\<lambda>(c, r3). Inr (Inr (h2\<lparr>v9_ng := c\<rparr>, r3, i2 + 1)))
               else Inr (Inr (h2, r2, i2))) (\<lambda>(h3, r3, i3).
        parse_pictures (unat (v9_ng h3)) h3 r3 i3)))"

text \<open>An optional part of the header.\<close>

definition optional :: "bool \<Rightarrow> (vp9_header \<Rightarrow> reader \<Rightarrow> nat \<Rightarrow> (vp9_header \<times> reader \<times> nat) pres) \<Rightarrow>
    vp9_header \<times> reader \<times> nat \<Rightarrow> (vp9_header \<times> reader \<times> nat) pres" where
  "optional c part s = (if c then (case s of (h, r, i) \<Rightarrow> part h r i) else Inr (Inr s))"

definition vp9_meta :: "vp9_header \<Rightarrow> bool \<times> vp9_svc option" where
  "vp9_meta h =
     (\<not> v9_p h \<and> v9_b h \<and> (v9_sid h = 0 \<or> \<not> v9_d h),
      if v9_l h
      then Some \<lparr>vp9_spatial = unat (v9_sid h), vp9_temporal = unat (v9_tid h), vp9_begin_frame = v9_b h, vp9_end_frame = v9_e h,
                 vp9_spatial_layers = (if v9_v h then Some (unat (v9_ns h + 1)) else None),
                 vp9_picture_id = (if v9_i h then Some (unat (v9_picture_id h)) else None),
                 vp9_switching_point = v9_u h, vp9_predicted_frame = v9_p h\<rparr>
      else None)"

definition vp9_parse_from :: "8 word list \<Rightarrow> (bool \<times> vp9_svc option) pres" where
  "vp9_parse_from packet =
     (if packet = [] then Inr (Inl ErrShortPacket)
      else res_bind (get_u8 (packet, 0)) (\<lambda>(b, r0).
        let h0 = vp9_default\<lparr>v9_i := (b AND 0x80 \<noteq> 0), v9_p := (b AND 0x40 \<noteq> 0), v9_l := (b AND 0x20 \<noteq> 0), v9_f := (b AND 0x10 \<noteq> 0),
              v9_b := (b AND 0x08 \<noteq> 0), v9_e := (b AND 0x04 \<noteq> 0), v9_v := (b AND 0x02 \<noteq> 0), v9_z := (b AND 0x01 \<noteq> 0)\<rparr>
        in pbind (optional (v9_i h0) parse_picture_id (h0, r0, 1)) (\<lambda>s1.
           pbind (optional (v9_l h0) parse_layer_info s1) (\<lambda>s2.
           pbind (optional (v9_f h0 \<and> v9_p h0) parse_ref_indices s2) (\<lambda>s3.
           pbind (optional (v9_v h0) parse_ssdata s3) (\<lambda>(h4, r4, i4). Inr (Inr (vp9_meta h4))))))))"

definition vp9_parse_rtp :: "8 word list \<Rightarrow> vp9_profile \<Rightarrow> media_orientation option \<Rightarrow> media_meta option res" where
  "vp9_parse_rtp payload profile rotation =
     res_bind (vp9_parse_from payload) (\<lambda>x. Inr (case x of Inl e \<Rightarrow> None | Inr (key, svc) \<Rightarrow> Some (Vp9 key profile svc rotation)))"

definition vp9_rewrite_rtp :: "8 word list \<Rightarrow> vp9_svc \<Rightarrow> 8 word list res" where
  "vp9_rewrite_rtp payload svc =
     res_bind (byte_at payload 0) (\<lambda>b.
     if b AND 0x80 \<noteq> 0 then res_bind (rewrite_picture payload 1 (vp9_picture_id svc)) (\<lambda>(p1, n). Inr p1) else Inr payload)"

section \<open>Reading and writing bytes\<close>

lemma get_u8_aligned:
  "pos mod 8 = 0 \<Longrightarrow> get_u8 (p, pos) = (if pos div 8 < length p then Inr (p ! (pos div 8), (p, pos + 8)) else Inl Unreachable)"
  by (auto simp: Let_def)

declare get_u8.simps [simp del]

lemma word_flags:
  "(0x80 OR w) AND 0x80 > (0 :: 8 word)" "(0x80 OR w) AND 0x7f = w AND (0x7f :: 8 word)" "(0x7F AND w) AND 0x80 = (0 :: 8 word)"
proof -
  have "(0x80 OR w) AND 0x80 = (0x80 :: 8 word)" by (rule bit_eqI) (auto simp: bit_simps)
  then show "(0x80 OR w) AND 0x80 > (0 :: 8 word)" by simp
  have "(0x80 :: 8 word) AND 0x7f = 0" by simp
  then show "(0x80 OR w) AND 0x7f = w AND (0x7f :: 8 word)" by (simp add: and.commute bit.conj_disj_distrib)
  have "(0x7f :: 8 word) AND 0x80 = 0" by simp
  then show "(0x7F AND w) AND 0x80 = (0 :: 8 word)" by (metis and.assoc and.commute and_zero_eq)
qed

lemma unat_low7: "unat (b AND 0x7f :: 8 word) = unat b mod 128"
proof -
  have "b AND 0x7f = take_bit 7 b" by (simp add: take_bit_eq_mask mask_eq_exp_minus_1)
  then show ?thesis using unsigned_take_bit_eq[of 7 b, where 'a = nat] by (simp only: take_bit_eq_mod) simp
qed

lemma unat_high1: "b AND 0x80 = 0 \<Longrightarrow> unat (b :: 8 word) < 128"
proof -
  assume b: "b AND 0x80 = 0"
  have "take_bit LENGTH(8) b = b" by (rule take_bit_word_eq_self) simp
  then have "b AND mask 8 = b" by (simp add: take_bit_eq_mask)
  then have "b = b AND (0x80 OR 0x7f)" by (simp add: mask_eq_exp_minus_1)
  also have "\<dots> = b AND 0x7f" unfolding bit.conj_disj_distrib by (simp add: b)
  finally have "unat b = unat (b AND 0x7f)" by (rule arg_cong)
  then show ?thesis by (simp add: unat_low7)
qed

lemma unat_pair: "unat (push_bit 8 (ucast (a :: 8 word)) OR ucast (c :: 8 word) :: 16 word) = 256 * unat a + unat c"
proof -
  have d: "\<not> bit (push_bit 8 (ucast a) :: 16 word) n \<or> \<not> bit (ucast c :: 16 word) n" for n
    by (auto simp: bit_simps dest: bit_imp_le_length)
  have "push_bit 8 (ucast a) OR ucast c = push_bit 8 (ucast a) + (ucast c :: 16 word)"
    using d by (simp add: disjunctive_add)
  moreover have ac: "unat a < 256" "unat c < 256" using unsigned_less[of a, where 'a = nat] unsigned_less[of c, where 'a = nat] by simp_all
  then have u: "unat (ucast a :: 16 word) = unat a" "unat (ucast c :: 16 word) = unat c"
    by (simp_all add: unsigned_ucast_eq take_bit_nat_eq_self)
  moreover from ac u have "unat (push_bit 8 (ucast a) :: 16 word) = 256 * unat a"
    by (simp add: push_bit_eq_mult unat_word_ariths(2))
  moreover have "256 * unat a + unat c < 65536" using ac by linarith
  ultimately show ?thesis by (simp add: unat_word_ariths(1))
qed

lemma and_single: "(b :: 8 word) AND 2 ^ k = (if bit b k then 2 ^ k else 0)"
  by (rule bit_eqI) (auto simp: bit_and_iff bit_exp_iff)

lemma and_flags:
  "(b :: 8 word) AND 0x80 = (if bit b 7 then 0x80 else 0)" "(b :: 8 word) AND 0x40 = (if bit b 6 then 0x40 else 0)"
  "(b :: 8 word) AND 0x20 = (if bit b 5 then 0x20 else 0)" "(b :: 8 word) AND 0x10 = (if bit b 4 then 0x10 else 0)"
  using and_single[of b 7] and_single[of b 6] and_single[of b 5] and_single[of b 4] by simp_all

lemma low_flag: "drop_bit k (b :: 8 word) AND 1 = of_bool (bit b k)"
  by (simp add: and_one_eq mod_2_eq_odd bit_iff_odd_drop_bit)

lemma flag_bits:
  "drop_bit 7 (b AND 0x80) = (of_bool (bit b 7) :: 8 word)" "drop_bit 6 (b AND 0x40) = (of_bool (bit b 6) :: 8 word)"
  "drop_bit 5 (b AND 0x20) = (of_bool (bit b 5) :: 8 word)" "drop_bit 4 (b AND 0x10) = (of_bool (bit b 4) :: 8 word)"
  by (simp_all add: and_flags low_flag)

lemma high_bit: "b AND 0x80 > 0 \<longleftrightarrow> bit (b :: 8 word) 7" "b AND 0x80 \<noteq> 0 \<longleftrightarrow> bit (b :: 8 word) 7"
  by (simp_all add: and_flags)

section \<open>VP8: the header by position\<close>

text \<open>The fields of a header as positions in the packet.\<close>

definition v8_has :: "8 word list \<Rightarrow> nat \<Rightarrow> bool" where
  "v8_has p k \<longleftrightarrow> bit (p ! 0) 7 \<and> bit (p ! 1) k"

definition pic_pos :: "8 word list \<Rightarrow> nat" where
  "pic_pos p = (if bit (p ! 0) 7 then 2 else 1)"

definition pic_size :: "8 word list \<Rightarrow> nat \<Rightarrow> nat" where
  "pic_size p i = (if bit (p ! i) 7 then 2 else 1)"

definition pic_value :: "8 word list \<Rightarrow> nat \<Rightarrow> nat" where
  "pic_value p i = (if bit (p ! i) 7 then 256 * (unat (p ! i) mod 128) + unat (p ! (i + 1)) else unat (p ! i))"

definition tl0_pos :: "8 word list \<Rightarrow> nat" where
  "tl0_pos p = pic_pos p + (if v8_has p 7 then pic_size p (pic_pos p) else 0)"

definition layers_pos :: "8 word list \<Rightarrow> nat" where
  "layers_pos p = tl0_pos p + (if v8_has p 6 then 1 else 0)"

definition body_pos :: "8 word list \<Rightarrow> nat" where
  "body_pos p = layers_pos p + (if v8_has p 5 \<or> v8_has p 4 then 1 else 0)"

definition v8_sim :: "8 word list \<Rightarrow> nat option \<Rightarrow> vp8_sim" where
  "v8_sim p rid = \<lparr>vp8_picture_id = (if v8_has p 7 then Some (pic_value p (pic_pos p)) else None),
     vp8_tl0_pic_idx = (if v8_has p 6 then Some (unat (p ! tl0_pos p)) else None),
     vp8_spatial = (case rid of None \<Rightarrow> 0 | Some r \<Rightarrow> r), vp8_temporal = unat (drop_bit 6 (p ! layers_pos p)),
     vp8_layer_sync = (drop_bit 5 (p ! layers_pos p) AND 1 \<noteq> 0)\<rparr>"

definition v8_key :: "8 word list \<Rightarrow> bool" where
  "v8_key p \<longleftrightarrow> bit (p ! 0) 4 \<and> p ! 0 AND 0x07 = 0 \<and> p ! body_pos p AND 0x01 = 0"

lemmas v8_pos = v8_has_def pic_pos_def pic_size_def tl0_pos_def layers_pos_def body_pos_def

text \<open>Each part of the reader, at a position.\<close>

lemma get_u8_at: "get_u8 (p, 8 * n) = (if n < length p then Inr (p ! n, (p, 8 * Suc n)) else Inl Unreachable)"
  by (simp add: get_u8_aligned)

definition pic_word :: "8 word list \<Rightarrow> nat \<Rightarrow> 16 word" where
  "pic_word p n = (if bit (p ! n) 7 then push_bit 8 (ucast (p ! n AND 0x7f)) OR ucast (p ! Suc n) else ucast (p ! n))"

lemma unat_ucast_16: "unat (ucast (b :: 8 word) :: 16 word) = unat b"
proof -
  have "unat b < 256" using unsigned_less[of b, where 'a = nat] by simp
  then show ?thesis by (simp add: unsigned_ucast_eq take_bit_nat_eq_self)
qed

lemma pic_word_value: "unat (pic_word p n) = pic_value p n"
  by (simp add: pic_word_def pic_value_def unat_pair unat_low7 unat_ucast_16)

lemma vp8_extended_at:
  "v8_x h = of_bool (bit (p ! 0) 7) \<Longrightarrow> 1 < length p \<Longrightarrow> vp8_extended h (p, 8) 1 =
     Inr (if bit (p ! 0) 7 then h\<lparr>v8_i := of_bool (bit (p ! 1) 7), v8_l := of_bool (bit (p ! 1) 6), v8_t := of_bool (bit (p ! 1) 5),
            v8_k := of_bool (bit (p ! 1) 4)\<rparr> else h, (p, 8 * pic_pos p), pic_pos p)"
  using get_u8_at[of p 1] by (simp add: vp8_extended_def pic_pos_def flag_bits low_flag)

lemma vp8_picture_at:
  "v8_i h = of_bool c \<Longrightarrow> Suc n < length p \<Longrightarrow> vp8_picture h (p, 8 * n) n =
     Inr (if c then h\<lparr>v8_picture_id := pic_word p n\<rparr> else h, (p, 8 * (n + (if c then pic_size p n else 0))), n + (if c then pic_size p n else 0))"
  using get_u8_at[of p "Suc n"] by (simp add: vp8_picture_def get_u8_at pic_size_def pic_word_def high_bit)

lemma vp8_tl0_at:
  "v8_l h = of_bool c \<Longrightarrow> n < length p \<Longrightarrow> vp8_tl0 h (p, 8 * n) n =
     Inr (if c then h\<lparr>v8_tl0_pic_idx := p ! n\<rparr> else h, (p, 8 * (n + (if c then 1 else 0))), n + (if c then 1 else 0))"
  by (simp add: vp8_tl0_def get_u8_at)

lemma vp8_layers_at:
  "v8_t h = of_bool t \<Longrightarrow> v8_k h = of_bool k \<Longrightarrow> n < length p \<Longrightarrow> \<exists>h1. vp8_layers h (p, 8 * n) n =
     Inr (h1, (p, 8 * (n + (if t \<or> k then 1 else 0))), n + (if t \<or> k then 1 else 0)) \<and>
     v8_s h1 = v8_s h \<and> v8_pid h1 = v8_pid h \<and> v8_t h1 = v8_t h \<and> v8_i h1 = v8_i h \<and> v8_l h1 = v8_l h \<and>
     v8_picture_id h1 = v8_picture_id h \<and> v8_tl0_pic_idx h1 = v8_tl0_pic_idx h \<and>
     (t \<longrightarrow> v8_tid h1 = drop_bit 6 (p ! n) \<and> v8_y h1 = drop_bit 5 (p ! n) AND 1)"
  by (cases t; cases k) (simp_all add: vp8_layers_def get_u8_at Let_def)

lemma vp8_parse_eq:
  "vp8_parse_rtp p rid rot = Inr (if length p < 4 \<or> length p \<le> body_pos p then None
     else Some (Vp8 (v8_key p) (if v8_has p 5 then Some (v8_sim p rid) else None) rot))"
proof (cases "length p < 4")
  case True
  then show ?thesis by (simp add: vp8_parse_rtp_def)
next
  case False
  let ?b = "p ! 0"
  define h0 where "h0 = \<lparr>v8_x = drop_bit 7 (?b AND 0x80), v8_n = drop_bit 5 (?b AND 0x20), v8_s = drop_bit 4 (?b AND 0x10), v8_pid = ?b AND 0x07,
    v8_i = 0, v8_l = 0, v8_t = 0, v8_k = 0, v8_picture_id = 0, v8_tl0_pic_idx = 0, v8_tid = 0, v8_y = 0, v8_key_idx = 0\<rparr>"
  define h1 where "h1 = (if bit ?b 7 then h0\<lparr>v8_i := of_bool (bit (p ! 1) 7), v8_l := of_bool (bit (p ! 1) 6), v8_t := of_bool (bit (p ! 1) 5),
    v8_k := of_bool (bit (p ! 1) 4)\<rparr> else h0)"
  have h1: "v8_i h1 = of_bool (v8_has p 7)" "v8_l h1 = of_bool (v8_has p 6)" "v8_t h1 = of_bool (v8_has p 5)" "v8_k h1 = of_bool (v8_has p 4)"
      "v8_s h1 = of_bool (bit ?b 4)" "v8_pid h1 = ?b AND 0x07"
    by (simp_all add: h1_def h0_def v8_has_def flag_bits low_flag)
  have 0: "get_u8 (p, 0) = Inr (?b, (p, 8))" using False get_u8_at[of p 0] by (cases p) simp_all
  have 1: "vp8_extended h0 (p, 8) 1 = Inr (h1, (p, 8 * pic_pos p), pic_pos p)"
    using False vp8_extended_at[of h0 p] by (simp add: h1_def h0_def flag_bits low_flag)
  define h2 where "h2 = (if v8_has p 7 then h1\<lparr>v8_picture_id := pic_word p (pic_pos p)\<rparr> else h1)"
  have 2: "vp8_picture h1 (p, 8 * pic_pos p) (pic_pos p) = Inr (h2, (p, 8 * tl0_pos p), tl0_pos p)"
    using False vp8_picture_at[OF h1(1), of "pic_pos p" p] by (simp add: h2_def tl0_pos_def pic_pos_def)
  define h3 where "h3 = (if v8_has p 6 then h2\<lparr>v8_tl0_pic_idx := p ! tl0_pos p\<rparr> else h2)"
  have h3: "v8_i h3 = of_bool (v8_has p 7)" "v8_l h3 = of_bool (v8_has p 6)" "v8_t h3 = of_bool (v8_has p 5)" "v8_k h3 = of_bool (v8_has p 4)"
      "v8_s h3 = of_bool (bit ?b 4)" "v8_pid h3 = ?b AND 0x07" "v8_has p 7 \<Longrightarrow> unat (v8_picture_id h3) = pic_value p (pic_pos p)"
      "v8_has p 6 \<Longrightarrow> v8_tl0_pic_idx h3 = p ! tl0_pos p"
    using h1 by (simp_all add: h3_def h2_def pic_word_value)
  have 3: "vp8_tl0 h2 (p, 8 * tl0_pos p) (tl0_pos p) = Inr (h3, (p, 8 * layers_pos p), layers_pos p)" if "tl0_pos p < length p"
    using vp8_tl0_at[of h2 "v8_has p 6" "tl0_pos p" p] that h1(2) by (simp add: h3_def h2_def layers_pos_def)
  have le: "tl0_pos p \<le> layers_pos p" "layers_pos p \<le> body_pos p" by (simp_all add: layers_pos_def body_pos_def)
  show ?thesis
  proof (cases "layers_pos p < length p")
    case True
    obtain h4 where h4: "vp8_layers h3 (p, 8 * layers_pos p) (layers_pos p) = Inr (h4, (p, 8 * body_pos p), body_pos p)"
        "v8_s h4 = v8_s h3" "v8_pid h4 = v8_pid h3" "v8_t h4 = v8_t h3" "v8_i h4 = v8_i h3" "v8_l h4 = v8_l h3"
        "v8_picture_id h4 = v8_picture_id h3" "v8_tl0_pic_idx h4 = v8_tl0_pic_idx h3"
        "v8_has p 5 \<Longrightarrow> v8_tid h4 = drop_bit 6 (p ! layers_pos p) \<and> v8_y h4 = drop_bit 5 (p ! layers_pos p) AND 1"
      using vp8_layers_at[OF h3(3,4) True] by (auto simp: body_pos_def)
    have "vp8_meta h4 (p ! body_pos p) rid rot = Vp8 (v8_key p) (if v8_has p 5 then Some (v8_sim p rid) else None) rot"
      using h4(2-9) h3 by (auto simp: vp8_meta_def v8_key_def v8_sim_def Let_def)
    then show ?thesis using False True le 0 1 2 3 h4(1) by (simp add: vp8_parse_rtp_def h0_def Let_def)
  next
    case False
    then show ?thesis using \<open>\<not> length p < 4\<close> le 0 1 2 3 by (auto simp: vp8_parse_rtp_def h0_def Let_def)
  qed
qed

section \<open>Writing\<close>

definition pid_limit :: "8 word list \<Rightarrow> nat \<Rightarrow> nat" where
  "pid_limit p i = (if bit (p ! i) 7 then 2 ^ 15 else 2 ^ 7)"

lemma unat_byte: "unat (word_of_nat n :: 8 word) = n mod 256"
  by (simp add: unsigned_of_nat take_bit_eq_mod)

lemma set_bit7: "bit (0x80 OR w :: 8 word) 7" "\<not> bit (0x7F AND w :: 8 word) 7"
  using word_flags(1)[of w] word_flags(3)[of w] high_bit(1)[of "0x80 OR w"] high_bit(2)[of "0x7F AND w"] by auto

lemma rewrite_picture_at:
  assumes "i + pic_size p i \<le> length p"
  shows "\<exists>p1. rewrite_picture p i pid = Inr (p1, i + pic_size p i) \<and> length p1 = length p \<and>
    (\<forall>j. j < i \<or> i + pic_size p i \<le> j \<longrightarrow> p1 ! j = p ! j) \<and> (bit (p1 ! i) 7 \<longleftrightarrow> bit (p ! i) 7) \<and>
    pic_value p1 i = (case pid of None \<Rightarrow> 0 | Some v \<Rightarrow> v) mod pid_limit p i"
proof (cases "bit (p ! i) 7")
  case True
  define v where "v = (case pid of None \<Rightarrow> 0 | Some v \<Rightarrow> v)"
  let ?a = "0x80 OR word_of_nat (v div 256) :: 8 word"
  let ?p1 = "p[i := ?a, Suc i := word_of_nat v]"
  have l: "Suc i < length p" using assms True by (simp add: pic_size_def)
  have "unat ?a mod 128 = unat (word_of_nat (v div 256) :: 8 word) mod 128"
    using unat_low7[of ?a] unat_low7[of "word_of_nat (v div 256)"] word_flags(2)[of "word_of_nat (v div 256)"] by simp
  also have "\<dots> = v div 256 mod 128" by (simp add: unat_byte mod_mod_cancel)
  finally have "256 * (unat ?a mod 128) + v mod 256 = v mod (256 * 128)" by (simp only: mod_mult2_eq)
  then have "pic_value ?p1 i = v mod pid_limit p i" using True l by (simp add: pic_value_def pid_limit_def set_bit7 unat_byte)
  moreover have "rewrite_picture p i pid = Inr (?p1, i + pic_size p i)"
    using True l by (simp add: rewrite_picture_def set_byte_def pic_size_def high_bit v_def Let_def)
  ultimately show ?thesis using True l by (intro exI[of _ ?p1]) (auto simp: pic_size_def set_bit7 v_def nth_list_update)
next
  case False
  define v where "v = (case pid of None \<Rightarrow> 0 | Some v \<Rightarrow> v)"
  let ?a = "0x7F AND word_of_nat v :: 8 word"
  have l: "i < length p" using assms False by (simp add: pic_size_def)
  have "unat ?a = v mod 128" using unat_low7[of "word_of_nat v"] by (simp add: and.commute unat_byte mod_mod_cancel)
  then have "pic_value (p[i := ?a]) i = v mod pid_limit p i" using False l by (simp add: pic_value_def pid_limit_def set_bit7)
  moreover have "rewrite_picture p i pid = Inr (p[i := ?a], i + pic_size p i)"
    using False l by (simp add: rewrite_picture_def set_byte_def pic_size_def high_bit v_def Let_def)
  ultimately show ?thesis using False l by (intro exI[of _ "p[i := ?a]"]) (auto simp: pic_size_def set_bit7 v_def nth_list_update)
qed

text \<open>The numbers to write: one for each field the packet has, small enough for it.\<close>

definition field_fits :: "nat option \<Rightarrow> nat option \<Rightarrow> nat \<Rightarrow> bool" where
  "field_fits old new limit \<longleftrightarrow> (case (old, new) of (None, None) \<Rightarrow> True | (Some _, Some v) \<Rightarrow> v < limit | _ \<Rightarrow> False)"

lemma vp8_rewrite_at:
  assumes len: "body_pos p < length p" "4 \<le> length p"
    and pid: "field_fits (vp8_picture_id (v8_sim p rid)) (vp8_picture_id sim1) (pid_limit p (pic_pos p))"
    and tl0: "field_fits (vp8_tl0_pic_idx (v8_sim p rid)) (vp8_tl0_pic_idx sim1) 256"
  shows "\<exists>p1. vp8_rewrite_rtp p sim1 = Inr p1 \<and> length p1 = length p \<and> p1 ! 0 = p ! 0 \<and> p1 ! 1 = p ! 1 \<and>
    (\<forall>j. layers_pos p \<le> j \<longrightarrow> p1 ! j = p ! j) \<and> (v8_has p 7 \<longrightarrow> (bit (p1 ! pic_pos p) 7 \<longleftrightarrow> bit (p ! pic_pos p) 7)) \<and>
    (v8_has p 7 \<longrightarrow> vp8_picture_id sim1 = Some (pic_value p1 (pic_pos p))) \<and>
    (v8_has p 6 \<longrightarrow> vp8_tl0_pic_idx sim1 = Some (unat (p1 ! tl0_pos p)))"
proof -
  have pos: "pic_pos p \<le> tl0_pos p" "tl0_pos p \<le> layers_pos p" "layers_pos p \<le> body_pos p" "1 \<le> pic_pos p" "bit (p ! 0) 7 \<Longrightarrow> pic_pos p = 2"
    by (simp_all add: v8_pos)
  have "\<exists>q. (if v8_has p 7 then rewrite_picture p (pic_pos p) (vp8_picture_id sim1) else Inr (p, pic_pos p)) = Inr (q, tl0_pos p) \<and>
      length q = length p \<and> (\<forall>j. j < pic_pos p \<or> tl0_pos p \<le> j \<longrightarrow> q ! j = p ! j) \<and>
      (v8_has p 7 \<longrightarrow> (bit (q ! pic_pos p) 7 \<longleftrightarrow> bit (p ! pic_pos p) 7) \<and> vp8_picture_id sim1 = Some (pic_value q (pic_pos p)))"
  proof (cases "v8_has p 7")
    case True
    then obtain v where v: "vp8_picture_id sim1 = Some v" "v < pid_limit p (pic_pos p)"
      using pid by (auto simp: field_fits_def v8_sim_def split: option.splits)
    have "pic_pos p + pic_size p (pic_pos p) \<le> length p" using True len pos by (simp add: tl0_pos_def)
    from rewrite_picture_at[OF this, of "Some v"] v True show ?thesis by (auto simp: tl0_pos_def)
  qed (simp add: tl0_pos_def)
  then obtain q where q: "(if v8_has p 7 then rewrite_picture p (pic_pos p) (vp8_picture_id sim1) else Inr (p, pic_pos p)) = Inr (q, tl0_pos p)"
      "length q = length p" "\<And>j. j < pic_pos p \<or> tl0_pos p \<le> j \<Longrightarrow> q ! j = p ! j"
      "v8_has p 7 \<Longrightarrow> (bit (q ! pic_pos p) 7 \<longleftrightarrow> bit (p ! pic_pos p) 7) \<and> vp8_picture_id sim1 = Some (pic_value q (pic_pos p))" by blast
  define p1 where "p1 = (if v8_has p 6 then q[tl0_pos p := word_of_nat (case vp8_tl0_pic_idx sim1 of None \<Rightarrow> 0 | Some v \<Rightarrow> v)] else q)"
  have b: "byte_at p 0 = Inr (p ! 0)" "byte_at p 1 = Inr (p ! 1)" using len(2) by (auto simp: less_le_trans)
  have run: "vp8_rewrite_rtp p sim1 = Inr p1"
    using q(1,2) len pos unfolding vp8_rewrite_rtp_def b
    by (simp add: p1_def set_byte_def flag_bits low_flag v8_has_def pic_pos_def split: if_splits)
  have t: "vp8_tl0_pic_idx sim1 = Some (unat (p1 ! tl0_pos p))" if "v8_has p 6"
    using tl0 that q(2) len pos by (auto simp: field_fits_def v8_sim_def p1_def unat_byte split: option.splits)
  have keep: "p1 ! j = q ! j" if "j \<noteq> tl0_pos p \<or> \<not> v8_has p 6" for j using that by (auto simp: p1_def)
  have pic: "pic_value p1 (pic_pos p) = pic_value q (pic_pos p) \<and> p1 ! pic_pos p = q ! pic_pos p" if h: "v8_has p 7"
  proof -
    have "tl0_pos p = pic_pos p + pic_size p (pic_pos p)" using h by (simp add: tl0_pos_def)
    then have "p1 ! pic_pos p = q ! pic_pos p" "bit (q ! pic_pos p) 7 \<Longrightarrow> p1 ! (pic_pos p + 1) = q ! (pic_pos p + 1)"
      using q(4)[OF h] by (auto simp: pic_size_def intro!: keep)
    then show ?thesis by (simp add: pic_value_def)
  qed
  have low: "p1 ! j = p ! j" if "j < pic_pos p" for j using keep[of j] q(3)[of j] that pos(1) by auto
  have high: "p1 ! j = p ! j" if "layers_pos p \<le> j" for j
    using keep[of j] q(3)[of j] that pos(2) by (cases "v8_has p 6") (auto simp: layers_pos_def)
  have one: "p1 ! 1 = p ! 1"
  proof (cases "bit (p ! 0) 7")
    case True
    then show ?thesis using low[of 1] pos(5) by simp
  next
    case False
    then have "\<not> v8_has p 6" "\<not> v8_has p 7" by (simp_all add: v8_has_def)
    then show ?thesis using keep[of 1] q(3)[of 1] False by (simp add: tl0_pos_def pic_pos_def)
  qed
  have "length p1 = length p" using q(2) by (simp add: p1_def)
  then show ?thesis using run q(4) t pic low[of 0] one high pos(4) by (intro exI[of _ p1]) auto
qed

lemma field_fits_None: "field_fits None new n \<Longrightarrow> new = None"
  by (cases new) (simp_all add: field_fits_def)

lemma v8_positions:
  assumes "p1 ! 0 = p ! 0" "p1 ! 1 = p ! 1" "v8_has p 7 \<Longrightarrow> bit (p1 ! pic_pos p) 7 \<longleftrightarrow> bit (p ! pic_pos p) 7"
  shows "v8_has p1 = v8_has p" "pic_pos p1 = pic_pos p" "tl0_pos p1 = tl0_pos p" "layers_pos p1 = layers_pos p" "body_pos p1 = body_pos p"
proof -
  show 1: "v8_has p1 = v8_has p" "pic_pos p1 = pic_pos p" using assms(1,2) by (simp_all add: v8_has_def pic_pos_def fun_eq_iff)
  show 2: "tl0_pos p1 = tl0_pos p" using assms(3) by (simp add: tl0_pos_def 1 pic_size_def)
  show "layers_pos p1 = layers_pos p" "body_pos p1 = body_pos p" by (simp_all add: layers_pos_def body_pos_def 1 2)
qed

lemma vp8_reparsed:
  assumes len: "body_pos p < length p" "4 \<le> length p"
    and pid: "field_fits (vp8_picture_id (v8_sim p rid)) (vp8_picture_id sim1) (pid_limit p (pic_pos p))"
    and tl0: "field_fits (vp8_tl0_pic_idx (v8_sim p rid)) (vp8_tl0_pic_idx sim1) 256"
  shows "\<exists>p1. vp8_rewrite_rtp p sim1 = Inr p1 \<and> length p1 = length p \<and> drop (body_pos p) p1 = drop (body_pos p) p \<and>
    v8_key p1 = v8_key p \<and> v8_has p1 = v8_has p \<and> body_pos p1 = body_pos p \<and>
    v8_sim p1 rid = (v8_sim p rid)\<lparr>vp8_picture_id := vp8_picture_id sim1, vp8_tl0_pic_idx := vp8_tl0_pic_idx sim1\<rparr>"
proof -
  obtain p1 where p1: "vp8_rewrite_rtp p sim1 = Inr p1" "length p1 = length p" "p1 ! 0 = p ! 0" "p1 ! 1 = p ! 1"
      "\<And>j. layers_pos p \<le> j \<Longrightarrow> p1 ! j = p ! j" "v8_has p 7 \<Longrightarrow> (bit (p1 ! pic_pos p) 7 \<longleftrightarrow> bit (p ! pic_pos p) 7)"
      "v8_has p 7 \<Longrightarrow> vp8_picture_id sim1 = Some (pic_value p1 (pic_pos p))"
      "v8_has p 6 \<Longrightarrow> vp8_tl0_pic_idx sim1 = Some (unat (p1 ! tl0_pos p))"
    using vp8_rewrite_at[OF assms] by blast
  note pos = v8_positions[OF p1(3,4,6)]
  have le: "layers_pos p \<le> body_pos p" by (simp add: body_pos_def)
  have "\<not> v8_has p 7 \<Longrightarrow> vp8_picture_id sim1 = None" "\<not> v8_has p 6 \<Longrightarrow> vp8_tl0_pic_idx sim1 = None"
    using pid tl0 field_fits_None by (auto simp: v8_sim_def)
  then have "v8_sim p1 rid = (v8_sim p rid)\<lparr>vp8_picture_id := vp8_picture_id sim1, vp8_tl0_pic_idx := vp8_tl0_pic_idx sim1\<rparr>"
    using p1(5)[of "layers_pos p"] p1(7,8) by (auto simp: v8_sim_def pos)
  moreover have "drop (body_pos p) p1 = drop (body_pos p) p"
    using p1(2,5) le by (intro nth_equalityI) simp_all
  moreover have "v8_key p1 = v8_key p" using p1(3) p1(5)[OF le] by (simp add: v8_key_def pos)
  ultimately show ?thesis using p1(1,2) pos(1,5) by blast
qed

section \<open>Ranges\<close>

lemma pic_value_less: "pic_value p i < 2 ^ 15"
proof (cases "bit (p ! i) 7")
  case True
  have "unat (p ! (i + 1)) < 256" using unsigned_less[of "p ! (i + 1)", where 'a = nat] by simp
  moreover have "unat (p ! i) mod 128 < 128" by simp
  ultimately have "256 * (unat (p ! i) mod 128) + unat (p ! (i + 1)) < 32768" by linarith
  then show ?thesis using True by (simp add: pic_value_def)
next
  case False
  have "unat (p ! i) < 256" using unsigned_less[of "p ! i", where 'a = nat] by simp
  then show ?thesis using False by (simp add: pic_value_def)
qed

lemma vp8_range: "vp8_parse_rtp p rid rot = Inr (Some m) \<Longrightarrow> meta_ok m"
proof -
  assume "vp8_parse_rtp p rid rot = Inr (Some m)"
  then have m: "m = Vp8 (v8_key p) (if v8_has p 5 then Some (v8_sim p rid) else None) rot"
    by (simp add: vp8_parse_eq split: if_splits)
  have "unat (p ! tl0_pos p) < 256" using unsigned_less[of "p ! tl0_pos p", where 'a = nat] by simp
  then show ?thesis using pic_value_less[of p "pic_pos p"]
    by (auto simp: m v8_sim_def split: if_splits)
qed

lemma h264_range: "h264_parse_rtp p profile rid rot = Inr (Some m) \<Longrightarrow> meta_ok m"
  by (auto simp: h264_parse_rtp_def Let_def split: if_splits)

section \<open>VP9: what a part of the header depends on\<close>

text \<open>A part reads only bytes at or after its position, and neither reads nor writes the picture identifier. So two packets
  that agree from there on are read alike.\<close>

definition same_from :: "nat \<Rightarrow> 8 word list \<Rightarrow> 8 word list \<Rightarrow> bool" where
  "same_from n p p1 \<longleftrightarrow> length p1 = length p \<and> (\<forall>j\<ge>n. p1 ! j = p ! j)"

definition moved :: "8 word list \<Rightarrow> 16 word \<Rightarrow> (vp9_header \<times> reader \<times> nat) pres \<Rightarrow> (vp9_header \<times> reader \<times> nat) pres" where
  "moved p1 x r = (case r of Inr (Inr (h, (q, pos), i)) \<Rightarrow> Inr (Inr (h\<lparr>v9_picture_id := x\<rparr>, (p1, pos), i)) | _ \<Rightarrow> r)"

definition local_part :: "(vp9_header \<Rightarrow> reader \<Rightarrow> nat \<Rightarrow> (vp9_header \<times> reader \<times> nat) pres) \<Rightarrow> bool" where
  "local_part f \<longleftrightarrow> (\<forall>h p p1 pos i x n. same_from n p p1 \<longrightarrow> 8 * n \<le> pos \<longrightarrow> f (h\<lparr>v9_picture_id := x\<rparr>) (p1, pos) i = moved p1 x (f h (p, pos) i)) \<and>
     (\<forall>h p pos i h1 r1 i1. f h (p, pos) i = Inr (Inr (h1, r1, i1)) \<longrightarrow> fst r1 = p \<and> pos \<le> snd r1)"

lemma moved_simps [simp]:
  "moved p1 x (Inl e) = Inl e" "moved p1 x (Inr (Inl e1)) = Inr (Inl e1)"
  "moved p1 x (Inr (Inr (h, (q, pos), i))) = Inr (Inr (h\<lparr>v9_picture_id := x\<rparr>, (p1, pos), i))"
  by (simp_all add: moved_def)

lemma pbind_simps [simp]: "pbind (Inl e) f = Inl e" "pbind (Inr (Inl e1)) f = Inr (Inl e1)" "pbind (Inr (Inr y)) f = f y"
  by (simp_all add: pbind_def)

lemma get_u8_shape:
  "get_u8 (p, pos) =
     (if bits_remaining (p, pos) = 0 then Inl Unreachable
      else if length p \<le> pos div 8 then Inl OutOfRange
      else if pos mod 8 > 0
      then (if length p \<le> pos div 8 + 1 then Inl OutOfRange
            else Inr (push_bit (pos mod 8) (p ! (pos div 8)) OR drop_bit (8 - pos mod 8) (p ! (pos div 8 + 1)), (p, pos + 8)))
      else Inr (p ! (pos div 8), (p, pos + 8)))"
  using div_times_less_eq_dividend[of pos 8] by (auto simp: get_u8.simps Let_def not_le)

lemma get_u8_cases:
  assumes "same_from n p p1" "8 * n \<le> pos"
  obtains e where "get_u8 (p, pos) = Inl e" "get_u8 (p1, pos) = Inl e"
  | b where "get_u8 (p, pos) = Inr (b, (p, pos + 8))" "get_u8 (p1, pos) = Inr (b, (p1, pos + 8))"
proof -
  have "n \<le> pos div 8" using assms(2) by linarith
  then have eq: "p1 ! (pos div 8) = p ! (pos div 8)" "p1 ! (pos div 8 + 1) = p ! (pos div 8 + 1)" "length p1 = length p"
    using assms(1) by (simp_all add: same_from_def)
  have "(\<exists>e. get_u8 (p, pos) = Inl e \<and> get_u8 (p1, pos) = Inl e) \<or> (\<exists>b. get_u8 (p, pos) = Inr (b, (p, pos + 8)) \<and> get_u8 (p1, pos) = Inr (b, (p1, pos + 8)))"
    unfolding get_u8_shape bits_remaining.simps eq
    by (cases "length p * 8 - pos = 0"; cases "length p \<le> pos div 8"; cases "pos mod 8 > 0"; cases "length p \<le> pos div 8 + 1") simp_all
  then show ?thesis using that by blast
qed

lemma checked_cases:
  assumes "same_from n p p1" "8 * n \<le> pos"
  obtains e where "checked_u8 (p, pos) = Inl e" "checked_u8 (p1, pos) = Inl e"
  | e where "checked_u8 (p, pos) = Inr (Inl e)" "checked_u8 (p1, pos) = Inr (Inl e)"
  | b where "checked_u8 (p, pos) = Inr (Inr (b, (p, pos + 8)))" "checked_u8 (p1, pos) = Inr (Inr (b, (p1, pos + 8)))"
proof -
  have l: "bits_remaining (p1, pos) = bits_remaining (p, pos)" using assms(1) by (simp add: same_from_def)
  show ?thesis
  proof (cases "bits_remaining (p, pos) = 0")
    case True
    show ?thesis by (rule that(2)[of ErrShortPacket]) (use True l in \<open>simp_all add: checked_u8_def\<close>)
  next
    case False
    consider (1) e where "get_u8 (p, pos) = Inl e" "get_u8 (p1, pos) = Inl e"
      | (2) b where "get_u8 (p, pos) = Inr (b, (p, pos + 8))" "get_u8 (p1, pos) = Inr (b, (p1, pos + 8))"
      using get_u8_cases[OF assms] by metis
    then show ?thesis
    proof cases
      case (1 e)
      show ?thesis by (rule that(1)[of e]) (use 1 False l in \<open>simp_all add: checked_u8_def\<close>)
    next
      case (2 b)
      show ?thesis by (rule that(3)[of b]) (use 2 False l in \<open>simp_all add: checked_u8_def\<close>)
    qed
  qed
qed

lemma same_from_refl [simp]: "same_from n p p" by (simp add: same_from_def)

lemma checked_moves: "checked_u8 (p, pos) = Inr (Inr (b, r)) \<Longrightarrow> r = (p, pos + 8)"
  by (rule checked_cases[of 0 p p pos]) simp_all

lemma get_moves: "get_u8 (p, pos) = Inr (b, r) \<Longrightarrow> r = (p, pos + 8)"
  by (rule get_u8_cases[of 0 p p pos]) simp_all

lemma picture_commutes [simp]:
  "h\<lparr>v9_picture_id := x, v9_pdiff := d\<rparr> = h\<lparr>v9_pdiff := d, v9_picture_id := x\<rparr>"
  "h\<lparr>v9_picture_id := x, v9_tid := t\<rparr> = h\<lparr>v9_tid := t, v9_picture_id := x\<rparr>"
  "h\<lparr>v9_picture_id := x, v9_u := u\<rparr> = h\<lparr>v9_u := u, v9_picture_id := x\<rparr>"
  "h\<lparr>v9_picture_id := x, v9_sid := s\<rparr> = h\<lparr>v9_sid := s, v9_picture_id := x\<rparr>"
  "h\<lparr>v9_picture_id := x, v9_d := dd\<rparr> = h\<lparr>v9_d := dd, v9_picture_id := x\<rparr>"
  "h\<lparr>v9_picture_id := x, v9_tl0picidx := t\<rparr> = h\<lparr>v9_tl0picidx := t, v9_picture_id := x\<rparr>"
  "h\<lparr>v9_picture_id := x, v9_ns := s\<rparr> = h\<lparr>v9_ns := s, v9_picture_id := x\<rparr>"
  "h\<lparr>v9_picture_id := x, v9_y := u\<rparr> = h\<lparr>v9_y := u, v9_picture_id := x\<rparr>"
  "h\<lparr>v9_picture_id := x, v9_g := u\<rparr> = h\<lparr>v9_g := u, v9_picture_id := x\<rparr>"
  "h\<lparr>v9_picture_id := x, v9_ng := s\<rparr> = h\<lparr>v9_ng := s, v9_picture_id := x\<rparr>"
  "h\<lparr>v9_picture_id := x, v9_width := w\<rparr> = h\<lparr>v9_width := w, v9_picture_id := x\<rparr>"
  "h\<lparr>v9_picture_id := x, v9_height := w\<rparr> = h\<lparr>v9_height := w, v9_picture_id := x\<rparr>"
  "h\<lparr>v9_picture_id := x, v9_pgtid := d\<rparr> = h\<lparr>v9_pgtid := d, v9_picture_id := x\<rparr>"
  "h\<lparr>v9_picture_id := x, v9_pgu := us\<rparr> = h\<lparr>v9_pgu := us, v9_picture_id := x\<rparr>"
  "h\<lparr>v9_picture_id := x, v9_pgpdiff := ds\<rparr> = h\<lparr>v9_pgpdiff := ds, v9_picture_id := x\<rparr>"
  by (cases h; simp)+

lemma layer_info_moves:
  "parse_layer_info h (p, pos) i = Inr (Inr (h1, r1, i1)) \<Longrightarrow> fst r1 = p \<and> pos \<le> snd r1"
  by (rule checked_cases[of 0 p p pos]; rule checked_cases[of 0 p p "pos + 8"])
    (auto simp: parse_layer_info_def parse_layer_info_common_def parse_layer_info_non_flexible_mode_def Let_def split: if_splits)

lemma layer_info_local: "local_part parse_layer_info"
  unfolding local_part_def
proof (intro conjI allI impI)
  fix h :: vp9_header and p p1 pos i x n
  assume a: "same_from n p p1" "8 * n \<le> pos"
  have a8: "8 * n \<le> pos + 8" using a(2) by simp
  show "parse_layer_info (h\<lparr>v9_picture_id := x\<rparr>) (p1, pos) i = moved p1 x (parse_layer_info h (p, pos) i)"
    by (rule checked_cases[OF a]; rule checked_cases[OF a(1) a8])
      (simp_all add: parse_layer_info_def parse_layer_info_common_def parse_layer_info_non_flexible_mode_def Let_def)
qed (auto dest: layer_info_moves)

lemma ref_indices_moves:
  "parse_ref_indices h (p, pos) i = Inr (Inr (h1, r1, i1)) \<Longrightarrow> fst r1 = p \<and> pos \<le> snd r1"
proof (induction "MAX_VP9REF_PICS - length (v9_pdiff h)" arbitrary: h pos i rule: less_induct)
  case less
  have step: "parse_ref_indices h (p, pos) i = Inr (Inr (h1, r1, i1))" by (rule less.prems)
  show ?case
  proof (rule checked_cases[of 0 p p pos])
    fix b assume c: "checked_u8 (p, pos) = Inr (Inr (b, p, pos + 8))"
    let ?h = "h\<lparr>v9_pdiff := v9_pdiff h @ [drop_bit 1 b]\<rparr>"
    show ?case
    proof (cases "length (v9_pdiff ?h) < MAX_VP9REF_PICS \<and> b AND 1 \<noteq> 0")
      case True
      then have "parse_ref_indices ?h (p, pos + 8) (i + 1) = Inr (Inr (h1, r1, i1))"
        using step c by (simp add: parse_ref_indices.simps[of h] Let_def)
      with less.hyps[of ?h] True show ?thesis by fastforce
    qed (use step c in \<open>auto simp: parse_ref_indices.simps[of h] Let_def split: if_splits\<close>)
  qed (use step in \<open>simp_all add: parse_ref_indices.simps[of h]\<close>)
qed

lemma ref_indices_local: "local_part parse_ref_indices"
  unfolding local_part_def
proof (intro conjI allI impI)
  fix h :: vp9_header and p p1 pos i x n
  assume "same_from n p p1" "8 * n \<le> pos"
  then show "parse_ref_indices (h\<lparr>v9_picture_id := x\<rparr>) (p1, pos) i = moved p1 x (parse_ref_indices h (p, pos) i)"
  proof (induction "MAX_VP9REF_PICS - length (v9_pdiff h)" arbitrary: h pos i rule: less_induct)
    case less
    show ?case
    proof (rule checked_cases[OF less.prems])
      fix b assume c: "checked_u8 (p, pos) = Inr (Inr (b, p, pos + 8))" "checked_u8 (p1, pos) = Inr (Inr (b, p1, pos + 8))"
      let ?h = "h\<lparr>v9_pdiff := v9_pdiff h @ [drop_bit 1 b]\<rparr>"
      have "parse_ref_indices (?h\<lparr>v9_picture_id := x\<rparr>) (p1, pos + 8) (i + 1) = moved p1 x (parse_ref_indices ?h (p, pos + 8) (i + 1))"
        if "length (v9_pdiff ?h) < MAX_VP9REF_PICS"
        using less.hyps[of ?h "pos + 8" "i + 1"] less.prems that by fastforce
      then show ?case using c by (simp add: parse_ref_indices.simps[of h] parse_ref_indices.simps[of "h\<lparr>v9_picture_id := x\<rparr>"] Let_def not_le)
    qed (simp_all add: parse_ref_indices.simps[of h] parse_ref_indices.simps[of "h\<lparr>v9_picture_id := x\<rparr>"])
  qed
qed (auto dest: ref_indices_moves)

lemma read_bytes_same:
  "same_from n p p1 \<Longrightarrow> 8 * n \<le> pos \<Longrightarrow>
     (\<exists>e. read_bytes k (p, pos) = Inl e \<and> read_bytes k (p1, pos) = Inl e) \<or>
     (\<exists>bs. read_bytes k (p, pos) = Inr (bs, (p, pos + 8 * k)) \<and> read_bytes k (p1, pos) = Inr (bs, (p1, pos + 8 * k)))"
proof (induction k arbitrary: pos)
  case (Suc k)
  have "8 * n \<le> pos + 8" using Suc.prems(2) by simp
  note rest = Suc.IH[OF Suc.prems(1) this]
  show ?case by (rule get_u8_cases[OF Suc.prems]; use rest in \<open>auto simp: algebra_simps\<close>)
qed simp

lemma get_u16_same:
  assumes "same_from n p p1" "8 * n \<le> pos"
  shows "(\<exists>e. get_u16 (p, pos) = Inl e \<and> get_u16 (p1, pos) = Inl e) \<or>
    (\<exists>w. get_u16 (p, pos) = Inr (w, (p, pos + 16)) \<and> get_u16 (p1, pos) = Inr (w, (p1, pos + 16)))"
proof -
  have a8: "8 * n \<le> pos + 8" using assms(2) by simp
  show ?thesis by (rule get_u8_cases[OF assms]; rule get_u8_cases[OF assms(1) a8]) (simp_all add: get_u16_def)
qed

lemma read_sizes_same:
  "same_from n p p1 \<Longrightarrow> 8 * n \<le> pos \<Longrightarrow>
     (\<exists>e. read_sizes k (p, pos) = Inl e \<and> read_sizes k (p1, pos) = Inl e) \<or>
     (\<exists>ss. read_sizes k (p, pos) = Inr (ss, (p, pos + 32 * k)) \<and> read_sizes k (p1, pos) = Inr (ss, (p1, pos + 32 * k)))"
proof (induction k arbitrary: pos)
  case (Suc k)
  have a: "8 * n \<le> pos + 16" "8 * n \<le> pos + 32" using Suc.prems(2) by simp_all
  note rest = Suc.IH[OF Suc.prems(1) a(2)]
  show ?case using get_u16_same[OF Suc.prems] get_u16_same[OF Suc.prems(1) a(1)] rest by (auto simp: algebra_simps)
qed simp

lemma remaining_same: "same_from n p p1 \<Longrightarrow> bits_remaining (p1, pos) = bits_remaining (p, pos)"
  by (simp add: same_from_def)

declare bits_remaining.simps [simp del]

lemma pictures_local:
  "same_from n p p1 \<Longrightarrow> 8 * n \<le> pos \<Longrightarrow> parse_pictures k (h\<lparr>v9_picture_id := x\<rparr>) (p1, pos) i = moved p1 x (parse_pictures k h (p, pos) i)"
proof (induction k arbitrary: h pos i)
  case (Suc k)
  show ?case
  proof (rule checked_cases[OF Suc.prems])
    fix b assume c: "checked_u8 (p, pos) = Inr (Inr (b, p, pos + 8))" "checked_u8 (p1, pos) = Inr (Inr (b, p1, pos + 8))"
    define m where "m = unat (drop_bit 2 b AND 0x3)"
    define h1 where "h1 = h\<lparr>v9_pgtid := v9_pgtid h @ [drop_bit 5 b], v9_pgu := v9_pgu h @ [b AND 0x10 \<noteq> 0]\<rparr>"
    have a: "8 * n \<le> pos + 8" "8 * n \<le> pos + 8 + 8 * m" using Suc.prems(2) by simp_all
    have h1x: "h\<lparr>v9_pgtid := v9_pgtid h @ [drop_bit 5 b], v9_pgu := v9_pgu h @ [b AND 0x10 \<noteq> 0], v9_picture_id := x\<rparr> = h1\<lparr>v9_picture_id := x\<rparr>"
      by (simp add: h1_def)
    note rest = Suc.IH[OF Suc.prems(1) a(2), of "h1\<lparr>v9_pgpdiff := v9_pgpdiff h1 @ [ds]\<rparr>" "Suc (i + m)" for ds]
    show ?case
    proof (cases "bits_remaining (p, pos + 8) < m")
      case True
      then show ?thesis using c remaining_same[OF Suc.prems(1), of "pos + 8"] by (simp add: m_def)
    next
      case False
      from read_bytes_same[OF Suc.prems(1) a(1), of m] show ?thesis
      proof
        assume "\<exists>e. read_bytes m (p, pos + 8) = Inl e \<and> read_bytes m (p1, pos + 8) = Inl e"
        then show ?thesis using c False remaining_same[OF Suc.prems(1), of "pos + 8"] by (auto simp: Let_def simp flip: m_def)
      next
        assume "\<exists>bs. read_bytes m (p, pos + 8) = Inr (bs, (p, pos + 8 + 8 * m)) \<and> read_bytes m (p1, pos + 8) = Inr (bs, (p1, pos + 8 + 8 * m))"
        then show ?thesis using c False remaining_same[OF Suc.prems(1), of "pos + 8"] rest
          by (auto simp: Let_def h1x simp flip: m_def h1_def)
      qed
    qed
  qed simp_all
qed simp

text \<open>The sizes and the group count of a scalability structure, named so that its proof follows the parts.\<close>

definition ss_sizes :: "vp9_header \<Rightarrow> reader \<Rightarrow> nat \<Rightarrow> (vp9_header \<times> reader \<times> nat) pres" where
  "ss_sizes h r i =
     (if v9_y h
      then (if bits_remaining r < 4 * unat (v9_ns h + 1) then Inr (Inl ErrShortPacket)
            else res_bind (read_sizes (unat (v9_ns h + 1)) r) (\<lambda>(ss, r2).
                 Inr (Inr (h\<lparr>v9_width := map fst ss, v9_height := map snd ss\<rparr>, r2, i + 4 * unat (v9_ns h + 1)))))
      else Inr (Inr (h, r, i)))"

definition ss_group :: "vp9_header \<Rightarrow> reader \<Rightarrow> nat \<Rightarrow> (vp9_header \<times> reader \<times> nat) pres" where
  "ss_group h r i = (if v9_g h then pbind (checked_u8 r) (\<lambda>(c, r3). Inr (Inr (h\<lparr>v9_ng := c\<rparr>, r3, i + 1))) else Inr (Inr (h, r, i)))"

lemma ssdata_parts:
  "parse_ssdata h r i = pbind (checked_u8 r) (\<lambda>(b, r1).
     pbind (ss_sizes (h\<lparr>v9_ns := drop_bit 5 b, v9_y := (b AND 0x10 \<noteq> 0), v9_g := (drop_bit 1 b AND 0x7 \<noteq> 0), v9_ng := 0\<rparr>) r1 (i + 1))
       (\<lambda>(h2, r2, i2). pbind (ss_group h2 r2 i2) (\<lambda>(h3, r3, i3). parse_pictures (unat (v9_ng h3)) h3 r3 i3)))"
  by (simp add: parse_ssdata_def ss_sizes_def ss_group_def Let_def cong: if_cong)

lemma sizes_local: "local_part ss_sizes"
  unfolding local_part_def
proof (intro conjI allI impI)
  fix h :: vp9_header and p p1 pos i x n
  assume a: "same_from n p p1" "8 * n \<le> pos"
  then show "ss_sizes (h\<lparr>v9_picture_id := x\<rparr>) (p1, pos) i = moved p1 x (ss_sizes h (p, pos) i)"
    using read_sizes_same[OF a, of "unat (v9_ns h + 1)"] remaining_same[OF a(1), of pos] by (auto simp: ss_sizes_def)
next
  fix h p pos i h1 r1 i1
  assume "ss_sizes h (p, pos) i = Inr (Inr (h1, r1, i1))"
  then show "fst r1 = p" "pos \<le> snd r1"
    using read_sizes_same[of 0 p p pos "unat (v9_ns h + 1)"] by (auto simp: ss_sizes_def split: if_splits)
qed

lemma group_local: "local_part ss_group"
  unfolding local_part_def
proof (intro conjI allI impI)
  fix h :: vp9_header and p p1 pos i x n
  assume a: "same_from n p p1" "8 * n \<le> pos"
  show "ss_group (h\<lparr>v9_picture_id := x\<rparr>) (p1, pos) i = moved p1 x (ss_group h (p, pos) i)"
    by (rule checked_cases[OF a]) (simp_all add: ss_group_def)
next
  fix h p pos i h1 r1 i1
  assume run: "ss_group h (p, pos) i = Inr (Inr (h1, r1, i1))"
  show "fst r1 = p" "pos \<le> snd r1" by (rule checked_cases[of 0 p p pos]; use run in \<open>auto simp: ss_group_def split: if_splits\<close>)+
qed

text \<open>A local part followed by something that depends on the same bytes only.\<close>

lemma local_bind:
  assumes f: "local_part f" and a: "same_from n p p1" "8 * n \<le> pos"
    and g: "\<And>h1 pos1 i1. 8 * n \<le> pos1 \<Longrightarrow> g (h1\<lparr>v9_picture_id := x\<rparr>, (p1, pos1), i1) = m (g (h1, (p, pos1), i1))"
    and m: "\<And>e. m (Inl e) = Inl e" "\<And>e. m (Inr (Inl e)) = Inr (Inl e)"
  shows "pbind (f (h\<lparr>v9_picture_id := x\<rparr>) (p1, pos) i) g = m (pbind (f h (p, pos) i) g)"
proof -
  have e: "f (h\<lparr>v9_picture_id := x\<rparr>) (p1, pos) i = moved p1 x (f h (p, pos) i)" using f a unfolding local_part_def by blast
  consider (1) d where "f h (p, pos) i = Inl d" | (2) d where "f h (p, pos) i = Inr (Inl d)"
    | (3) h1 r1 i1 where "f h (p, pos) i = Inr (Inr (h1, r1, i1))" by (metis sumE surj_pair)
  then show ?thesis
  proof cases
    case (3 h1 r1 i1)
    then have "fst r1 = p \<and> pos \<le> snd r1" using f unfolding local_part_def by blast
    then obtain pos1 where "r1 = (p, pos1)" "pos \<le> pos1" by (cases r1) simp
    then show ?thesis using 3 g[of pos1 h1 i1] a(2) by (simp add: e)
  qed (simp_all add: e m)
qed

lemma optional_local: "local_part f \<Longrightarrow> local_part (\<lambda>h r i. optional c f (h, r, i))"
  unfolding local_part_def optional_def by (cases c) auto

lemma ssdata_local:
  assumes a: "same_from n p p1" "8 * n \<le> pos"
  shows "parse_ssdata (h\<lparr>v9_picture_id := x\<rparr>) (p1, pos) i = moved p1 x (parse_ssdata h (p, pos) i)"
proof (rule checked_cases[OF a])
  fix b assume c: "checked_u8 (p, pos) = Inr (Inr (b, p, pos + 8))" "checked_u8 (p1, pos) = Inr (Inr (b, p1, pos + 8))"
  let ?h = "h\<lparr>v9_ns := drop_bit 5 b, v9_y := (b AND 0x10 \<noteq> 0), v9_g := (drop_bit 1 b AND 0x7 \<noteq> 0), v9_ng := 0\<rparr>"
  let ?last = "\<lambda>(h3, r3, i3). parse_pictures (unat (v9_ng h3)) h3 r3 i3"
  have a8: "8 * n \<le> pos + 8" using a(2) by simp
  have last: "?last (h3\<lparr>v9_picture_id := x\<rparr>, (p1, pos3), i3) = moved p1 x (?last (h3, (p, pos3), i3))" if "8 * n \<le> pos3" for h3 pos3 i3
    using pictures_local[OF a(1) that] by simp
  have group: "pbind (ss_group (h2\<lparr>v9_picture_id := x\<rparr>) (p1, pos2) i2) ?last = moved p1 x (pbind (ss_group h2 (p, pos2) i2) ?last)"
    if "8 * n \<le> pos2" for h2 pos2 i2
    by (rule local_bind[OF group_local a(1) that]) (use last in simp_all)
  have "pbind (ss_sizes (?h\<lparr>v9_picture_id := x\<rparr>) (p1, pos + 8) (i + 1)) (\<lambda>(h2, r2, i2). pbind (ss_group h2 r2 i2) ?last) =
      moved p1 x (pbind (ss_sizes ?h (p, pos + 8) (i + 1)) (\<lambda>(h2, r2, i2). pbind (ss_group h2 r2 i2) ?last))"
    by (rule local_bind[OF sizes_local a(1) a8]) (use group in simp_all)
  then show ?thesis using c by (simp add: ssdata_parts)
qed (simp_all add: ssdata_parts)

section \<open>VP9: what the later parts keep\<close>

definition keeps_picture :: "vp9_header \<Rightarrow> (vp9_header \<times> reader \<times> nat) pres \<Rightarrow> bool" where
  "keeps_picture h r \<longleftrightarrow> (\<forall>h1 r1 i1. r = Inr (Inr (h1, r1, i1)) \<longrightarrow> v9_i h1 = v9_i h \<and> v9_picture_id h1 = v9_picture_id h)"

lemma keeps_done [simp]: "keeps_picture h (Inl e)" "keeps_picture h (Inr (Inl d))"
  "keeps_picture h (Inr (Inr (h1, r1, i1))) \<longleftrightarrow> v9_i h1 = v9_i h \<and> v9_picture_id h1 = v9_picture_id h"
  by (simp_all add: keeps_picture_def)

lemma keeps_bind:
  assumes "keeps_picture h r" "\<And>h1 r1 i1. v9_i h1 = v9_i h \<Longrightarrow> v9_picture_id h1 = v9_picture_id h \<Longrightarrow> keeps_picture h (f (h1, r1, i1))"
  shows "keeps_picture h (pbind r f)"
proof -
  consider (1) d where "r = Inl d" | (2) d where "r = Inr (Inl d)" | (3) h1 r1 i1 where "r = Inr (Inr (h1, r1, i1))" by (metis sumE surj_pair)
  then show ?thesis using assms by cases simp_all
qed

lemma keeps_bind_u8: "(\<And>b r1. keeps_picture h (f (b, r1))) \<Longrightarrow> keeps_picture h (pbind (checked_u8 r) f)"
  by (cases "checked_u8 r" rule: sum.exhaust; simp add: pbind_def split: sum.split)

lemma keeps_cong: "keeps_picture h1 r \<Longrightarrow> v9_i h1 = v9_i h \<Longrightarrow> v9_picture_id h1 = v9_picture_id h \<Longrightarrow> keeps_picture h r"
  unfolding keeps_picture_def by metis

lemma layer_info_keeps: "keeps_picture h (parse_layer_info h r i)"
proof -
  have common: "keeps_picture h1 (parse_layer_info_common h1 r i)" for h1 r i
    unfolding parse_layer_info_common_def by (rule keeps_bind_u8) (simp add: Let_def)
  have other: "keeps_picture h1 (parse_layer_info_non_flexible_mode h1 r i)" for h1 r i
    unfolding parse_layer_info_non_flexible_mode_def by (rule keeps_bind_u8) simp
  show ?thesis unfolding parse_layer_info_def
    by (rule keeps_bind[OF common]) (simp add: keeps_cong[OF other])
qed

lemma ref_indices_keeps: "keeps_picture h (parse_ref_indices h r i)"
proof (induction h r i rule: parse_ref_indices.induct)
  case (1 h r i)
  have "keeps_picture h (let h1 = h\<lparr>v9_pdiff := v9_pdiff h @ [drop_bit 1 b]\<rparr> in
     if length (v9_pdiff h1) \<ge> MAX_VP9REF_PICS then Inr (Inl ErrTooManyPDiff)
     else if b AND 0x1 \<noteq> 0 then parse_ref_indices h1 r1 (i + 1) else Inr (Inr (h1, r1, i + 1)))" for b r1
    using keeps_cong[OF 1[OF refl], of b h r1] by (simp add: Let_def)
  then show ?case unfolding parse_ref_indices.simps[of h] by (intro keeps_bind_u8) simp
qed

lemma pictures_keeps: "keeps_picture h (parse_pictures k h r i)"
proof (induction k arbitrary: h r i)
  case (Suc k)
  have "keeps_picture h (res_bind (read_bytes m r1) (\<lambda>(ds, r2). parse_pictures k (h1\<lparr>v9_pgpdiff := v9_pgpdiff h1 @ [ds]\<rparr>) r2 j))"
    if "v9_i h1 = v9_i h" "v9_picture_id h1 = v9_picture_id h" for m r1 h1 j
    using keeps_cong[OF Suc.IH, of "h1\<lparr>v9_pgpdiff := v9_pgpdiff h1 @ [ds]\<rparr>" h for ds] that by (cases "read_bytes m r1") auto
  note rest = this[of "h\<lparr>v9_pgtid := v9_pgtid h @ [drop_bit 5 b], v9_pgu := v9_pgu h @ [b AND 0x10 \<noteq> 0]\<rparr>" for b, simplified]
  show ?case by (auto simp: Let_def intro!: keeps_bind_u8 rest)
qed simp

lemma ssdata_keeps: "keeps_picture h (parse_ssdata h r i)"
proof -
  have sizes: "keeps_picture h2 (ss_sizes h2 r i)" for h2 r i
    by (cases "read_sizes (unat (v9_ns h2 + 1)) r") (auto simp: ss_sizes_def)
  have group: "keeps_picture h2 (ss_group h2 r i)" for h2 r i
    by (auto simp: ss_group_def intro!: keeps_bind_u8)
  show ?thesis unfolding ssdata_parts
    by (rule keeps_bind_u8) (auto intro!: keeps_bind keeps_cong[OF sizes] keeps_cong[OF group] keeps_cong[OF pictures_keeps])
qed

section \<open>VP9: the whole header\<close>

definition vp9_flags :: "8 word \<Rightarrow> vp9_header" where
  "vp9_flags b = vp9_default\<lparr>v9_i := (b AND 0x80 \<noteq> 0), v9_p := (b AND 0x40 \<noteq> 0), v9_l := (b AND 0x20 \<noteq> 0), v9_f := (b AND 0x10 \<noteq> 0),
     v9_b := (b AND 0x08 \<noteq> 0), v9_e := (b AND 0x04 \<noteq> 0), v9_v := (b AND 0x02 \<noteq> 0), v9_z := (b AND 0x01 \<noteq> 0)\<rparr>"

definition vp9_tail :: "vp9_header \<Rightarrow> vp9_header \<times> reader \<times> nat \<Rightarrow> (bool \<times> vp9_svc option) pres" where
  "vp9_tail h0 s1 = pbind (optional (v9_l h0) parse_layer_info s1) (\<lambda>s2. pbind (optional (v9_f h0 \<and> v9_p h0) parse_ref_indices s2) (\<lambda>s3.
     pbind (optional (v9_v h0) parse_ssdata s3) (\<lambda>(h4, r4, i4). Inr (Inr (vp9_meta h4)))))"

definition retag :: "16 word \<Rightarrow> (bool \<times> vp9_svc option) pres \<Rightarrow> (bool \<times> vp9_svc option) pres" where
  "retag x r = (case r of Inr (Inr (key, svc)) \<Rightarrow>
       Inr (Inr (key, map_option (\<lambda>s. if vp9_picture_id s = None then s else s\<lparr>vp9_picture_id := Some (unat x)\<rparr>) svc)) | _ \<Rightarrow> r)"

lemma retag_simps [simp]: "retag x (Inl e) = Inl e" "retag x (Inr (Inl d)) = Inr (Inl d)"
  "retag x (Inr (Inr (vp9_meta h))) = Inr (Inr (vp9_meta (h\<lparr>v9_picture_id := x\<rparr>)))"
  by (simp_all add: retag_def vp9_meta_def)

lemma tail_local:
  assumes a: "same_from n p p1" "8 * n \<le> pos"
  shows "vp9_tail h0 (h\<lparr>v9_picture_id := x\<rparr>, (p1, pos), i) = retag x (vp9_tail h0 (h, (p, pos), i))"
proof -
  let ?fin = "\<lambda>(h4, r4, i4). Inr (Inr (vp9_meta h4)) :: (bool \<times> vp9_svc option) pres"
  let ?ss = "\<lambda>s3. pbind (optional (v9_v h0) parse_ssdata s3) ?fin"
  let ?ri = "\<lambda>s2. pbind (optional (v9_f h0 \<and> v9_p h0) parse_ref_indices s2) ?ss"
  have fin: "pbind (moved p1 x r) ?fin = retag x (pbind r ?fin)" for r
  proof -
    consider (1) d where "r = Inl d" | (2) d where "r = Inr (Inl d)" | (3) h1 q pos1 i1 where "r = Inr (Inr (h1, (q, pos1), i1))"
      by (metis sumE surj_pair)
    then show ?thesis by cases simp_all
  qed
  have ss: "?ss (h3\<lparr>v9_picture_id := x\<rparr>, (p1, pos3), i3) = retag x (?ss (h3, (p, pos3), i3))" if "8 * n \<le> pos3" for h3 pos3 i3
    using fin[of "parse_ssdata h3 (p, pos3) i3"] by (simp add: optional_def ssdata_local[OF a(1) that])
  have ri: "?ri (h2\<lparr>v9_picture_id := x\<rparr>, (p1, pos2), i2) = retag x (?ri (h2, (p, pos2), i2))" if "8 * n \<le> pos2" for h2 pos2 i2
    using local_bind[OF optional_local[OF ref_indices_local] a(1) that, where g = ?ss and m = "retag x"] ss by simp
  show ?thesis unfolding vp9_tail_def
    using local_bind[OF optional_local[OF layer_info_local] a, where g = ?ri and m = "retag x"] ri by simp
qed

lemma pbind_assoc: "pbind (pbind r f) g = pbind r (\<lambda>x. pbind (f x) g)"
  by (cases r rule: sum.exhaust; simp add: pbind_def split: sum.split)

lemma pbind_ok: "pbind r f = Inr (Inr y) \<longleftrightarrow> (\<exists>x. r = Inr (Inr x) \<and> f x = Inr (Inr y))"
  by (cases r rule: sum.exhaust; simp add: pbind_def split: sum.split)

lemma optional_keeps:
  "(\<And>h r i. keeps_picture h (f h r i)) \<Longrightarrow> v9_i h1 = v9_i h \<Longrightarrow> v9_picture_id h1 = v9_picture_id h \<Longrightarrow> keeps_picture h (optional c f (h1, r1, i1))"
  by (cases c) (simp_all add: optional_def keeps_cong[of h1])

lemma tail_picture:
  assumes "vp9_tail h0 (h, r, i) = Inr (Inr (key, Some svc))"
  shows "vp9_picture_id svc = (if v9_i h then Some (unat (v9_picture_id h)) else None)"
proof -
  let ?all = "pbind (optional (v9_l h0) parse_layer_info (h, r, i)) (\<lambda>s2. pbind (optional (v9_f h0 \<and> v9_p h0) parse_ref_indices s2)
     (optional (v9_v h0) parse_ssdata))"
  have k: "keeps_picture h ?all"
    by (intro keeps_bind optional_keeps layer_info_keeps ref_indices_keeps ssdata_keeps refl) simp_all
  have "pbind ?all (\<lambda>(h4, r4, i4). Inr (Inr (vp9_meta h4))) = Inr (Inr (key, Some svc))"
    using assms by (simp add: vp9_tail_def pbind_assoc)
  then obtain h4 r4 i4 where h4: "?all = Inr (Inr (h4, r4, i4))" "vp9_meta h4 = (key, Some svc)"
    unfolding pbind_ok[of ?all] by auto
  with k show ?thesis by (auto simp: vp9_meta_def split: if_splits)
qed

lemma checked_at: "checked_u8 (p, 8 * n) = (if n < length p then Inr (Inr (p ! n, (p, 8 * Suc n))) else Inr (Inl ErrShortPacket))"
  by (simp add: checked_u8_def get_u8_at bits_remaining.simps)

lemma low7_same: "\<not> bit (b :: 8 word) 7 \<Longrightarrow> b AND 0x7F = b"
  using unat_high1[of b] by (simp add: and_flags word_unat_eq_iff unat_low7)

lemma picture_id_at:
  "parse_picture_id h (p, 8) 1 = (if 1 + pic_size p 1 \<le> length p
     then Inr (Inr (h\<lparr>v9_picture_id := pic_word p 1\<rparr>, (p, 8 * (1 + pic_size p 1)), 1 + pic_size p 1)) else Inr (Inl ErrShortPacket))"
  using checked_at[of p 1] checked_at[of p 2]
  by (auto simp: parse_picture_id_def pic_size_def pic_word_def high_bit low7_same numeral_2_eq_2)

lemma vp9_from_eq:
  "vp9_parse_from p =
     (if p = [] then Inr (Inl ErrShortPacket)
      else if bit (p ! 0) 7
      then (if 1 + pic_size p 1 \<le> length p
            then vp9_tail (vp9_flags (p ! 0)) ((vp9_flags (p ! 0))\<lparr>v9_picture_id := pic_word p 1\<rparr>, (p, 8 * (1 + pic_size p 1)), 1 + pic_size p 1)
            else Inr (Inl ErrShortPacket))
      else vp9_tail (vp9_flags (p ! 0)) (vp9_flags (p ! 0), (p, 8), 1))"
proof (cases "p = []")
  case False
  have g: "get_u8 (p, 0) = Inr (p ! 0, (p, 8))" using False get_u8_at[of p 0] by simp
  have "vp9_parse_from p = pbind (optional (bit (p ! 0) 7) parse_picture_id (vp9_flags (p ! 0), (p, 8), 1)) (vp9_tail (vp9_flags (p ! 0)))"
    using False by (simp add: vp9_parse_from_def g Let_def vp9_tail_def[abs_def] vp9_flags_def high_bit)
  then show ?thesis using False by (simp add: optional_def picture_id_at[unfolded One_nat_def])
qed (simp add: vp9_parse_from_def)

lemma flags_i [simp]: "v9_i (vp9_flags b) \<longleftrightarrow> bit b 7" "v9_i ((vp9_flags b)\<lparr>v9_picture_id := x\<rparr>) \<longleftrightarrow> bit b 7"
  by (simp_all add: vp9_flags_def high_bit)

lemma vp9_picture_read:
  assumes "vp9_parse_from p = Inr (Inr (key, Some svc))"
  shows "vp9_picture_id svc = (if bit (p ! 0) 7 then Some (pic_value p 1) else None)"
  using assms tail_picture[of "vp9_flags (p ! 0)"] by (auto simp: vp9_from_eq pic_word_value split: if_splits)

lemma vp9_reparsed:
  assumes run: "vp9_parse_from p = Inr (Inr (key, Some svc))"
    and fits: "field_fits (vp9_picture_id svc) (vp9_picture_id svc1) (pid_limit p 1)"
  shows "\<exists>p1. vp9_rewrite_rtp p svc1 = Inr p1 \<and> length p1 = length p \<and> (\<forall>j. j = 0 \<or> 3 \<le> j \<longrightarrow> p1 ! j = p ! j) \<and>
    vp9_parse_from p1 = Inr (Inr (key, Some (svc\<lparr>vp9_picture_id := vp9_picture_id svc1\<rparr>)))"
proof (cases "bit (p ! 0) 7")
  case True
  let ?k = "1 + pic_size p 1" and ?h = "vp9_flags (p ! 0)"
  have p: "p \<noteq> []" "?k \<le> length p"
      "vp9_tail ?h (?h\<lparr>v9_picture_id := pic_word p 1\<rparr>, (p, 8 * ?k), ?k) = Inr (Inr (key, Some svc))"
    using run True by (auto simp: vp9_from_eq split: if_splits)
  obtain v where v: "vp9_picture_id svc1 = Some v" "v < pid_limit p 1" "vp9_picture_id svc \<noteq> None"
    using fits vp9_picture_read[OF run] True by (auto simp: field_fits_def split: option.splits)
  obtain p1 where p1: "rewrite_picture p 1 (Some v) = Inr (p1, ?k)" "length p1 = length p" "\<And>j. j < 1 \<or> ?k \<le> j \<Longrightarrow> p1 ! j = p ! j"
      "bit (p1 ! 1) 7 \<longleftrightarrow> bit (p ! 1) 7" "pic_value p1 1 = v"
    using rewrite_picture_at[OF p(2), of "Some v"] v(2) by auto
  have k: "pic_size p1 1 = pic_size p 1" "p1 \<noteq> []" "p1 ! 0 = p ! 0" using p1(2-4) p(1) by (auto simp: pic_size_def)
  have same: "same_from ?k p p1" using p1(2,3) by (simp add: same_from_def)
  have "vp9_tail ?h (?h\<lparr>v9_picture_id := pic_word p 1, v9_picture_id := pic_word p1 1\<rparr>, (p1, 8 * ?k), ?k) =
      retag (pic_word p1 1) (Inr (Inr (key, Some svc)))"
    unfolding p(3)[symmetric] by (rule tail_local[OF same order_refl])
  then have "vp9_tail ?h (?h\<lparr>v9_picture_id := pic_word p1 1\<rparr>, (p1, 8 * ?k), ?k) = Inr (Inr (key, Some (svc\<lparr>vp9_picture_id := Some v\<rparr>)))"
    using p1(5) v(3) pic_word_value[of p1 1] by (simp add: retag_def)
  then have "vp9_parse_from p1 = Inr (Inr (key, Some (svc\<lparr>vp9_picture_id := Some v\<rparr>)))"
    using p(2) p1(2) k True by (simp add: vp9_from_eq)
  moreover have "vp9_rewrite_rtp p svc1 = Inr p1" using p(1) p1(1) v(1) True by (simp add: vp9_rewrite_rtp_def high_bit)
  moreover have "p1 ! j = p ! j" if "j = 0 \<or> 3 \<le> j" for j using that p1(3)[of j] by (auto simp: pic_size_def split: if_splits)
  ultimately show ?thesis using p1(2) v(1) by auto
next
  case False
  have "p \<noteq> []" using run by (auto simp: vp9_from_eq)
  then have "vp9_rewrite_rtp p svc1 = Inr p" using False by (simp add: vp9_rewrite_rtp_def high_bit)
  moreover have none: "vp9_picture_id svc = None" using vp9_picture_read[OF run] False by simp
  moreover have "vp9_picture_id svc1 = None" using fits field_fits_None none by simp
  ultimately show ?thesis using run by (cases svc) simp
qed

lemma vp9_parse_Some:
  "vp9_parse_rtp p profile rot = Inr (Some m) \<longleftrightarrow> (\<exists>key svc. vp9_parse_from p = Inr (Inr (key, svc)) \<and> m = Vp9 key profile svc rot)"
  by (cases "vp9_parse_from p") (auto simp: vp9_parse_rtp_def split: sum.splits prod.splits)

lemma vp9_range: "vp9_parse_rtp p profile rot = Inr (Some m) \<Longrightarrow> meta_ok m"
proof -
  assume "vp9_parse_rtp p profile rot = Inr (Some m)"
  then obtain key svc where m: "vp9_parse_from p = Inr (Inr (key, svc))" "m = Vp9 key profile svc rot"
    by (auto simp: vp9_parse_Some)
  then show ?thesis using vp9_picture_read[of p key] pic_value_less[of p 1] by (cases svc) (auto split: if_splits)
qed

section \<open>VP9: reading without a scalability structure\<close>

definition reads_on :: "(vp9_header \<times> reader \<times> nat) pres \<Rightarrow> bool" where
  "reads_on r \<longleftrightarrow> (case r of Inl e \<Rightarrow> False | Inr (Inl d) \<Rightarrow> True | Inr (Inr (h, (p, pos), i)) \<Rightarrow> pos mod 8 = 0)"

lemma reads_on_simps [simp]: "\<not> reads_on (Inl e)" "reads_on (Inr (Inl d))" "reads_on (Inr (Inr (h, (p, pos), i))) \<longleftrightarrow> pos mod 8 = 0"
  by (simp_all add: reads_on_def)

lemma reads_on_u8:
  assumes "pos mod 8 = 0" "\<And>b. reads_on (f (b, (p, pos + 8)))"
  shows "reads_on (pbind (checked_u8 (p, pos)) f)"
proof -
  obtain n where "pos = 8 * n" using assms(1) by (metis mod_0_imp_dvd dvdE)
  then show ?thesis using checked_at[of p n] assms(2) by (simp add: add.commute)
qed

lemma reads_on_bind:
  assumes "reads_on r" "\<And>h p pos i. pos mod 8 = 0 \<Longrightarrow> reads_on (f (h, (p, pos), i))"
  shows "reads_on (pbind r f)"
proof -
  consider (1) d where "r = Inl d" | (2) d where "r = Inr (Inl d)" | (3) h p pos i where "r = Inr (Inr (h, (p, pos), i))"
    by (metis sumE surj_pair)
  then show ?thesis using assms by cases simp_all
qed

lemma layer_info_reads: "pos mod 8 = 0 \<Longrightarrow> reads_on (parse_layer_info h (p, pos) i)"
  unfolding parse_layer_info_def parse_layer_info_common_def parse_layer_info_non_flexible_mode_def
  by (rule reads_on_bind; (rule reads_on_u8)?) (auto simp: Let_def intro!: reads_on_u8)

lemma ref_indices_reads: "snd r mod 8 = 0 \<Longrightarrow> reads_on (parse_ref_indices h r i)"
proof (induction h r i rule: parse_ref_indices.induct)
  case (1 h r i)
  obtain p pos where r: "r = (p, pos)" by (cases r)
  have "reads_on (let h1 = h\<lparr>v9_pdiff := v9_pdiff h @ [drop_bit 1 b]\<rparr> in
     if length (v9_pdiff h1) \<ge> MAX_VP9REF_PICS then Inr (Inl ErrTooManyPDiff)
     else if b AND 0x1 \<noteq> 0 then parse_ref_indices h1 (p, pos + 8) (i + 1) else Inr (Inr (h1, (p, pos + 8), i + 1)))" for b
    using 1(1)[OF refl, of b "(p, pos + 8)"] 1(2) by (simp add: Let_def r)
  then show ?case using 1(2) unfolding parse_ref_indices.simps[of h] r by (intro reads_on_u8) simp_all
qed

lemma vp9_reads:
  assumes "p = [] \<or> \<not> bit (p ! 0) 1"
  shows "\<exists>m. vp9_parse_rtp p profile rot = Inr m"
proof -
  have tail: "\<exists>y. vp9_tail h0 (h, (p, pos), i) = Inr y" if "\<not> v9_v h0" "pos mod 8 = 0" for h0 h pos i
  proof -
    let ?all = "pbind (optional (v9_l h0) parse_layer_info (h, (p, pos), i)) (optional (v9_f h0 \<and> v9_p h0) parse_ref_indices)"
    have "reads_on ?all" using that(2)
      by (intro reads_on_bind) (simp_all add: optional_def layer_info_reads ref_indices_reads)
    moreover have "vp9_tail h0 (h, (p, pos), i) = pbind ?all (\<lambda>(h4, r4, i4). Inr (Inr (vp9_meta h4)))"
      using that(1) by (simp add: vp9_tail_def pbind_assoc optional_def[of False])
    ultimately show ?thesis by (cases ?all rule: sum.exhaust; auto simp: reads_on_def pbind_def split: sum.splits)
  qed
  have "\<not> v9_v (vp9_flags (p ! 0))" if "p \<noteq> []"
    using assms that and_single[of "p ! 0" 1] by (simp add: vp9_flags_def)
  then have "\<exists>y. vp9_parse_from p = Inr y" using tail by (simp add: vp9_from_eq)
  then show ?thesis by (auto simp: vp9_parse_rtp_def)
qed

lemma vp9_structure_panics: "vp9_parse_rtp [0x02, 0x10, 0x00] profile rot = Inl Unreachable"
  by (simp add: vp9_parse_rtp_def vp9_parse_from_def get_u8.simps bits_remaining.simps vp9_default_def optional_def parse_ssdata_def checked_u8_def
      Let_def get_u16_def)

end
