(* ===== verification/Rtp_Convert.thy ===== *)
theory Rtp_Convert
  imports Rtp_Payload
begin

text \<open>
  The packet conversion of \<open>packages/transport_webrtc/src/media/mod.rs\<close>: from an RTP packet of the browser to a media
  packet (\<open>RemoteMediaConvert\<close>), back onto the wire (\<open>LocalMediaConvert\<close>), and the layer table read from the video layers
  allocation extension. The packet, the codec parameters and the extension values come from the WebRTC library; the records
  hold the fields the code reads. Shown: every converted packet is one the selectors accept, a packet whose numbers the
  selectors changed reads back as exactly that packet, and which packets the conversion panics on.
\<close>

section \<open>What the library hands over\<close>

datatype video_orientation = VDeg0 | VDeg90 | VDeg180 | VDeg270

datatype str0m_codec = SOpus | SH264 | SVp8 | SVp9 | SOther

record codec_spec =
  spec_codec :: str0m_codec
  spec_profile_level_id :: "nat option"
  spec_packetization_mode :: "nat option"
  spec_profile_id :: "nat option"

text \<open>A layers allocation: per simulcast stream, per spatial layer, the cumulative kbps of each temporal layer.\<close>

type_synonym vla = "nat list list list"

record rtp_packet =
  rtp_ssrc :: nat
  rtp_pt :: nat
  rtp_seq :: nat
  rtp_ts :: nat
  rtp_marker :: bool
  rtp_mid :: "string option"
  rtp_rid :: "string option"
  rtp_audio_level :: "int option"
  rtp_orientation :: "video_orientation option"
  rtp_vla :: "vla option"
  rtp_payload :: "8 word list"

section \<open>Codecs, layers and orientations\<close>

definition str0m_codec_convert :: "codec_spec \<Rightarrow> media_codec option" where
  "str0m_codec_convert spec =
     (case spec_codec spec of
        SOpus \<Rightarrow> Some CodecOpus
      | SH264 \<Rightarrow>
          (let f = (spec_profile_level_id spec, spec_packetization_mode spec) in
           if f = (Some 0x42001f, Some 1) then Some (CodecH264 P42001fNonInterleaved)
           else if f = (Some 0x42001f, Some 0) then Some (CodecH264 P42001fSingleNal)
           else if f = (Some 0x42e01f, Some 1) then Some (CodecH264 P42e01fNonInterleaved)
           else if f = (Some 0x42e01f, Some 0) then Some (CodecH264 P42e01fSingleNal)
           else if f = (Some 0x4d001f, Some 1) then Some (CodecH264 P4d001fNonInterleaved)
           else if f = (Some 0x4d001f, Some 0) then Some (CodecH264 P4d001fSingleNal)
           else if f = (Some 0x64001f, Some 1) then Some (CodecH264 P64001fNonInterleaved)
           else None)
      | SVp8 \<Rightarrow> Some CodecVp8
      | SVp9 \<Rightarrow>
          (if spec_profile_id spec = Some 0 then Some (CodecVp9 P0)
           else if spec_profile_id spec = Some 2 then Some (CodecVp9 P2) else None)
      | SOther \<Rightarrow> None)"

definition rid_to_spatial :: "string \<Rightarrow> nat" where
  "rid_to_spatial rid =
     (case rid of [] \<Rightarrow> 0 | c # _ \<Rightarrow> if c = CHR ''0'' then 0 else if c = CHR ''1'' then 1 else if c = CHR ''2'' then 2 else 0)"

fun from_webrtc_orientation :: "video_orientation \<Rightarrow> media_orientation" where
  "from_webrtc_orientation VDeg0 = Deg0"
| "from_webrtc_orientation VDeg90 = Deg90"
| "from_webrtc_orientation VDeg180 = Deg180"
| "from_webrtc_orientation VDeg270 = Deg270"

fun to_webrtc_orientation :: "media_orientation \<Rightarrow> video_orientation" where
  "to_webrtc_orientation Deg0 = VDeg0"
| "to_webrtc_orientation Deg90 = VDeg90"
| "to_webrtc_orientation Deg180 = VDeg180"
| "to_webrtc_orientation Deg270 = VDeg270"

definition no_layer :: media_layer_bitrate where "no_layer = Arr3 None None None"
definition no_layers :: media_layers_bitrate where "no_layers = Arr3 None None None"

fun simulcast_layer :: "nat \<Rightarrow> nat list \<Rightarrow> media_layer_bitrate \<Rightarrow> media_layer_bitrate res" where
  "simulcast_layer temporal [] layer = Inr layer"
| "simulcast_layer temporal (kbps # rest) layer =
     res_bind (mlb_set_layer layer temporal (as_u16 kbps)) (simulcast_layer (temporal + 1) rest)"

fun simulcast_streams :: "nat \<Rightarrow> vla \<Rightarrow> media_layers_bitrate \<Rightarrow> media_layers_bitrate res" where
  "simulcast_streams index [] layers = Inr layers"
| "simulcast_streams index (sim # rest) layers =
     (case sim of
        [] \<Rightarrow> simulcast_streams (index + 1) rest layers
      | spatial # _ \<Rightarrow>
          res_bind (simulcast_layer 0 spatial no_layer) (\<lambda>layer.
          res_bind (mlsb_set_layer layers index layer) (simulcast_streams (index + 1) rest)))"

definition extract_simulcast :: "vla \<Rightarrow> media_layers_bitrate option res" where
  "extract_simulcast v = (if v = [] then Inr None else res_bind (simulcast_streams 0 v no_layers) (\<lambda>ls. Inr (Some ls)))"

text \<open>The sum of two sixteen bit numbers, which overflows where it does not fit.\<close>

definition add_u16 :: "nat \<Rightarrow> nat \<Rightarrow> nat res" where
  "add_u16 a b = (if a + b < 2 ^ 16 then Inr (a + b) else Inl Overflow)"

fun svc_layer :: "nat \<Rightarrow> nat \<Rightarrow> nat list \<Rightarrow> media_layer_bitrate \<Rightarrow> media_layer_bitrate res" where
  "svc_layer previous temporal [] layer = Inr layer"
| "svc_layer previous temporal (kbps # rest) layer =
     res_bind (add_u16 (as_u16 kbps) previous) (\<lambda>b.
     res_bind (mlb_set_layer layer temporal b) (svc_layer previous (temporal + 1) rest))"

fun svc_layers :: "nat \<Rightarrow> nat \<Rightarrow> nat list list \<Rightarrow> media_layers_bitrate \<Rightarrow> media_layers_bitrate res" where
  "svc_layers previous spatial [] layers = Inr layers"
| "svc_layers previous spatial (temporals # rest) layers =
     res_bind (svc_layer previous 0 temporals no_layer) (\<lambda>layer.
     res_bind (add_u16 previous (as_u16 (if temporals = [] then 0 else last temporals))) (\<lambda>previous1.
     res_bind (mlsb_set_layer layers spatial layer) (svc_layers previous1 (spatial + 1) rest)))"

definition extract_svc :: "vla \<Rightarrow> media_layers_bitrate option res" where
  "extract_svc v = (case v of [] \<Rightarrow> Inr None | stream # _ \<Rightarrow> res_bind (svc_layers 0 0 stream no_layers) (\<lambda>ls. Inr (Some ls)))"

section \<open>From the browser\<close>

record remote_media_convert =
  rmc_map :: "(nat, media_codec) imap"
  rmc_ssrcs_rid :: "(nat, nat) imap"
  rmc_ssrcs_mid :: "(nat, string) imap"

definition remote_set_config :: "(nat \<times> codec_spec) list \<Rightarrow> remote_media_convert \<Rightarrow> remote_media_convert" where
  "remote_set_config params c =
     fold (\<lambda>(pt, spec) c. case str0m_codec_convert spec of None \<Rightarrow> c | Some codec \<Rightarrow> c\<lparr>rmc_map := im_insert (rmc_map c) pt codec\<rparr>) params c"

definition get_mid :: "nat \<Rightarrow> string option \<Rightarrow> remote_media_convert \<Rightarrow> string option \<times> remote_media_convert" where
  "get_mid ssrc mid c =
     (case im_get (rmc_ssrcs_mid c) ssrc of
        Some m \<Rightarrow> (Some m, c)
      | None \<Rightarrow> (case mid of None \<Rightarrow> (None, c) | Some m \<Rightarrow> (Some m, c\<lparr>rmc_ssrcs_mid := im_insert (rmc_ssrcs_mid c) ssrc m\<rparr>)))"

definition rtp_spatial :: "rtp_packet \<Rightarrow> remote_media_convert \<Rightarrow> nat option \<times> remote_media_convert" where
  "rtp_spatial rtp c =
     (case rtp_rid rtp of
        Some rid \<Rightarrow>
          (let layer = rid_to_spatial rid in
           (Some layer,
            if im_contains (rmc_ssrcs_rid c) (rtp_ssrc rtp) then c
            else c\<lparr>rmc_ssrcs_rid := im_insert (rmc_ssrcs_rid c) (rtp_ssrc rtp) layer\<rparr>))
      | None \<Rightarrow> (im_get (rmc_ssrcs_rid c) (rtp_ssrc rtp), c))"

text \<open>The layer table of an extension that may be absent.\<close>

definition layers_of :: "(vla \<Rightarrow> media_layers_bitrate option res) \<Rightarrow> rtp_packet \<Rightarrow> media_layers_bitrate option res" where
  "layers_of extract rtp = (case rtp_vla rtp of None \<Rightarrow> Inr None | Some v \<Rightarrow> extract v)"

definition rtp_meta :: "media_codec \<Rightarrow> nat option \<Rightarrow> rtp_packet \<Rightarrow> (bool \<times> media_layers_bitrate option \<times> media_meta) option res" where
  "rtp_meta codec spatial rtp =
     (let rotation = map_option from_webrtc_orientation (rtp_orientation rtp) in
      case codec of
        CodecOpus \<Rightarrow> Inr (Some (False, None, Opus (rtp_audio_level rtp)))
      | CodecH264 profile \<Rightarrow>
          res_bind (layers_of extract_simulcast rtp) (\<lambda>layers.
          res_bind (h264_parse_rtp (rtp_payload rtp) profile spatial rotation) (\<lambda>m. Inr (map_option (\<lambda>meta. (True, layers, meta)) m)))
      | CodecVp8 \<Rightarrow>
          res_bind (layers_of extract_simulcast rtp) (\<lambda>layers.
          res_bind (vp8_parse_rtp (rtp_payload rtp) spatial rotation) (\<lambda>m. Inr (map_option (\<lambda>meta. (True, layers, meta)) m)))
      | CodecVp9 profile \<Rightarrow>
          res_bind (layers_of extract_svc rtp) (\<lambda>layers.
          res_bind (vp9_parse_rtp (rtp_payload rtp) profile rotation) (\<lambda>m. Inr (map_option (\<lambda>meta. (True, layers, meta)) m))))"

definition remote_convert :: "rtp_packet \<Rightarrow> remote_media_convert \<Rightarrow> (media_packet option \<times> remote_media_convert) res" where
  "remote_convert rtp c =
     (let (spatial, c1) = rtp_spatial rtp c in
      case im_get (rmc_map c1) (rtp_pt rtp) of
        None \<Rightarrow> Inr (None, c1)
      | Some codec \<Rightarrow>
          res_bind (rtp_meta codec spatial rtp) (\<lambda>m.
          Inr (map_option (\<lambda>(nackable, layers, meta).
                 \<lparr>pkt_ts = rtp_ts rtp, pkt_seq = rtp_seq rtp, pkt_marker = rtp_marker rtp, pkt_nackable = nackable, pkt_layers = layers,
                  pkt_meta = meta, pkt_data = map unat (rtp_payload rtp)\<rparr>) m, c1)))"

section \<open>To the browser\<close>

type_synonym local_media_convert = "(media_codec, nat) imap"

definition local_set_config :: "(nat \<times> codec_spec) list \<Rightarrow> local_media_convert \<Rightarrow> local_media_convert" where
  "local_set_config params m =
     fold (\<lambda>(pt, spec) m. case str0m_codec_convert spec of None \<Rightarrow> m | Some codec \<Rightarrow> im_insert m codec pt) params m"

definition convert_codec :: "media_codec \<Rightarrow> local_media_convert \<Rightarrow> nat option" where
  "convert_codec codec m = im_get m codec"

definition pkt_bytes :: "media_packet \<Rightarrow> 8 word list" where
  "pkt_bytes pkt = map word_of_nat (pkt_data pkt)"

definition rewrite_pkt :: "media_packet \<Rightarrow> media_packet res" where
  "rewrite_pkt pkt =
     res_bind (case pkt_meta pkt of
         Opus _ \<Rightarrow> Inr (pkt_bytes pkt)
       | H264 _ _ sim _ \<Rightarrow> Inr (case sim of None \<Rightarrow> pkt_bytes pkt | Some s \<Rightarrow> h264_rewrite_rtp (pkt_bytes pkt) s)
       | Vp8 _ sim _ \<Rightarrow> (case sim of None \<Rightarrow> Inr (pkt_bytes pkt) | Some s \<Rightarrow> vp8_rewrite_rtp (pkt_bytes pkt) s)
       | Vp9 _ _ svc _ \<Rightarrow> (case svc of None \<Rightarrow> Inr (pkt_bytes pkt) | Some s \<Rightarrow> vp9_rewrite_rtp (pkt_bytes pkt) s))
       (\<lambda>data. Inr (pkt\<lparr>pkt_data := map unat data\<rparr>))"

definition to_webrtc_extensions :: "media_packet \<Rightarrow> video_orientation option \<times> int option" where
  "to_webrtc_extensions pkt = (map_option to_webrtc_orientation (meta_rotation (pkt_meta pkt)), meta_audio_level (pkt_meta pkt))"

section \<open>Writing and reading back\<close>

text \<open>The metadata a selector may give a packet: new numbers for the fields the packet has, small enough for them.\<close>

fun renumbered :: "8 word list \<Rightarrow> media_meta \<Rightarrow> media_meta \<Rightarrow> bool" where
  "renumbered p (Vp8 key (Some sim) rot) m \<longleftrightarrow>
     (\<exists>pid tl0. m = Vp8 key (Some (sim\<lparr>vp8_picture_id := pid, vp8_tl0_pic_idx := tl0\<rparr>)) rot \<and>
        field_fits (vp8_picture_id sim) pid (pid_limit p (pic_pos p)) \<and> field_fits (vp8_tl0_pic_idx sim) tl0 256)"
| "renumbered p (Vp9 key profile (Some svc) rot) m \<longleftrightarrow>
     (\<exists>pid. m = Vp9 key profile (Some (svc\<lparr>vp9_picture_id := pid\<rparr>)) rot \<and> field_fits (vp9_picture_id svc) pid (pid_limit p 1))"
| "renumbered p m m1 \<longleftrightarrow> m1 = m"

lemma vp8_back:
  assumes "vp8_parse_rtp p rid rot = Inr (Some (Vp8 key (Some sim) rot))"
    and "field_fits (vp8_picture_id sim) pid (pid_limit p (pic_pos p))" "field_fits (vp8_tl0_pic_idx sim) tl0 256"
  shows "\<exists>p1. vp8_rewrite_rtp p (sim\<lparr>vp8_picture_id := pid, vp8_tl0_pic_idx := tl0\<rparr>) = Inr p1 \<and> length p1 = length p \<and>
    vp8_parse_rtp p1 rid rot = Inr (Some (Vp8 key (Some (sim\<lparr>vp8_picture_id := pid, vp8_tl0_pic_idx := tl0\<rparr>)) rot))"
proof -
  have p: "4 \<le> length p" "body_pos p < length p" "key = v8_key p" "sim = v8_sim p rid" "v8_has p 5"
    using assms(1) by (auto simp: vp8_parse_eq not_less split: if_splits)
  from vp8_reparsed[OF p(2,1), of rid "sim\<lparr>vp8_picture_id := pid, vp8_tl0_pic_idx := tl0\<rparr>"] assms(2,3) p(4)
  obtain p1 where "vp8_rewrite_rtp p (sim\<lparr>vp8_picture_id := pid, vp8_tl0_pic_idx := tl0\<rparr>) = Inr p1" "length p1 = length p"
      "v8_key p1 = v8_key p" "v8_has p1 = v8_has p" "body_pos p1 = body_pos p"
      "v8_sim p1 rid = sim\<lparr>vp8_picture_id := pid, vp8_tl0_pic_idx := tl0\<rparr>" by auto
  then show ?thesis using p by (intro exI[of _ p1]) (simp add: vp8_parse_eq)
qed

lemma vp9_back:
  assumes "vp9_parse_rtp p profile rot = Inr (Some (Vp9 key profile (Some svc) rot))" "field_fits (vp9_picture_id svc) pid (pid_limit p 1)"
  shows "\<exists>p1. vp9_rewrite_rtp p (svc\<lparr>vp9_picture_id := pid\<rparr>) = Inr p1 \<and> length p1 = length p \<and>
    vp9_parse_rtp p1 profile rot = Inr (Some (Vp9 key profile (Some (svc\<lparr>vp9_picture_id := pid\<rparr>)) rot))"
proof -
  have "vp9_parse_from p = Inr (Inr (key, Some svc))"
    using assms(1) by (auto simp: vp9_parse_Some)
  from vp9_reparsed[OF this, of "svc\<lparr>vp9_picture_id := pid\<rparr>"] assms(2) show ?thesis by (auto simp: vp9_parse_rtp_def)
qed

text \<open>Reading the metadata, apart from the layer table.\<close>

definition payload_meta :: "media_codec \<Rightarrow> nat option \<Rightarrow> rtp_packet \<Rightarrow> media_meta option res" where
  "payload_meta codec spatial rtp =
     (let rotation = map_option from_webrtc_orientation (rtp_orientation rtp) in
      case codec of CodecOpus \<Rightarrow> Inr (Some (Opus (rtp_audio_level rtp)))
      | CodecH264 profile \<Rightarrow> h264_parse_rtp (rtp_payload rtp) profile spatial rotation
      | CodecVp8 \<Rightarrow> vp8_parse_rtp (rtp_payload rtp) spatial rotation
      | CodecVp9 profile \<Rightarrow> vp9_parse_rtp (rtp_payload rtp) profile rotation)"

definition layer_table :: "media_codec \<Rightarrow> rtp_packet \<Rightarrow> media_layers_bitrate option res" where
  "layer_table codec rtp =
     (case codec of CodecOpus \<Rightarrow> Inr None | CodecH264 _ \<Rightarrow> layers_of extract_simulcast rtp | CodecVp8 \<Rightarrow> layers_of extract_simulcast rtp
      | CodecVp9 _ \<Rightarrow> layers_of extract_svc rtp)"

lemma rtp_meta_eq:
  "rtp_meta codec spatial rtp =
     res_bind (layer_table codec rtp) (\<lambda>layers. res_bind (payload_meta codec spatial rtp) (\<lambda>m. Inr (map_option (\<lambda>meta. (codec \<noteq> CodecOpus, layers, meta)) m)))"
  by (cases codec) (simp_all add: rtp_meta_def layer_table_def payload_meta_def Let_def)

lemma payload_meta_codec: "payload_meta codec spatial rtp = Inr (Some m) \<Longrightarrow> meta_codec m = codec"
  by (cases codec)
    (auto simp: payload_meta_def h264_parse_rtp_def vp8_parse_eq vp9_parse_Some Let_def split: if_splits)

lemma payload_meta_ok: "payload_meta codec spatial rtp = Inr (Some m) \<Longrightarrow> meta_ok m"
  by (cases codec) (auto simp: payload_meta_def Let_def intro: vp8_range vp9_range h264_range)

lemma payload_spatial: "rtp_spatial (rtp\<lparr>rtp_payload := p1\<rparr>) c = rtp_spatial rtp c" "layer_table codec (rtp\<lparr>rtp_payload := p1\<rparr>) = layer_table codec rtp"
  by (simp_all add: rtp_spatial_def layer_table_def layers_of_def Let_def split: option.split media_codec.split)

text \<open>The bytes a rewritten packet has.\<close>

definition rewrite_bytes :: "media_meta \<Rightarrow> 8 word list \<Rightarrow> 8 word list res" where
  "rewrite_bytes m p = (case m of Vp8 _ (Some s) _ \<Rightarrow> vp8_rewrite_rtp p s | Vp9 _ _ (Some s) _ \<Rightarrow> vp9_rewrite_rtp p s | _ \<Rightarrow> Inr p)"

lemma rewrite_pkt_eq: "rewrite_pkt pkt = res_bind (rewrite_bytes (pkt_meta pkt) (pkt_bytes pkt)) (\<lambda>data. Inr (pkt\<lparr>pkt_data := map unat data\<rparr>))"
  by (cases "pkt_meta pkt") (simp_all add: rewrite_pkt_def rewrite_bytes_def h264_rewrite_rtp_def split: option.split)

lemma payload_back:
  assumes run: "payload_meta codec spatial rtp = Inr (Some meta)" and m: "renumbered (rtp_payload rtp) meta m"
  shows "\<exists>p1. length p1 = length (rtp_payload rtp) \<and> rewrite_bytes m (rtp_payload rtp) = Inr p1 \<and>
    payload_meta codec spatial (rtp\<lparr>rtp_payload := p1\<rparr>) = Inr (Some m)"
proof -
  let ?p = "rtp_payload rtp" and ?rot = "map_option from_webrtc_orientation (rtp_orientation rtp)"
  consider (vp8) key sim where "codec = CodecVp8" "meta = Vp8 key (Some sim) ?rot"
    | (vp9) profile key svc where "codec = CodecVp9 profile" "meta = Vp9 key profile (Some svc) ?rot"
    | (plain) "m = meta" "rewrite_bytes meta ?p = Inr ?p"
  proof (cases meta)
    case (Vp8 key sim rot)
    then have "codec = CodecVp8" "rot = ?rot" using payload_meta_codec[OF run] run
      by (auto simp: payload_meta_def vp8_parse_eq Let_def split: if_splits)
    then show ?thesis using Vp8 m that by (cases sim) (auto simp: rewrite_bytes_def)
  next
    case (Vp9 key profile svc rot)
    then have c: "codec = CodecVp9 profile" using payload_meta_codec[OF run] by auto
    then have "rot = ?rot" using run Vp9 by (auto simp: payload_meta_def vp9_parse_Some Let_def)
    then show ?thesis using Vp9 m that c by (cases svc) (auto simp: rewrite_bytes_def)
  qed (use m that in \<open>auto simp: rewrite_bytes_def\<close>)
  then show ?thesis
  proof cases
    case (vp8 key sim)
    then obtain pid tl0 where new: "m = Vp8 key (Some (sim\<lparr>vp8_picture_id := pid, vp8_tl0_pic_idx := tl0\<rparr>)) ?rot"
        "field_fits (vp8_picture_id sim) pid (pid_limit ?p (pic_pos ?p))" "field_fits (vp8_tl0_pic_idx sim) tl0 256" using m by auto
    have "vp8_parse_rtp ?p spatial ?rot = Inr (Some (Vp8 key (Some sim) ?rot))" using run vp8 by (simp add: payload_meta_def Let_def)
    from vp8_back[OF this new(2,3)] show ?thesis using vp8 new(1) by (auto simp: rewrite_bytes_def payload_meta_def Let_def)
  next
    case (vp9 profile key svc)
    then obtain pid where new: "m = Vp9 key profile (Some (svc\<lparr>vp9_picture_id := pid\<rparr>)) ?rot"
        "field_fits (vp9_picture_id svc) pid (pid_limit ?p 1)" using m by auto
    have "vp9_parse_rtp ?p profile ?rot = Inr (Some (Vp9 key profile (Some svc) ?rot))" using run vp9 by (simp add: payload_meta_def Let_def)
    from vp9_back[OF this new(2)] show ?thesis using vp9 new(1) by (auto simp: rewrite_bytes_def payload_meta_def Let_def)
  next
    case plain
    then show ?thesis using run by (intro exI[of _ ?p]) simp
  qed
qed

lemma bytes_kept [simp]: "map (word_of_nat \<circ> unat) p = (p :: 8 word list)"
  by (induction p) simp_all

lemma remote_convert_Some:
  "remote_convert rtp c = Inr (Some pkt, c1) \<longleftrightarrow>
     (\<exists>codec layers meta. snd (rtp_spatial rtp c) = c1 \<and> im_get (rmc_map c1) (rtp_pt rtp) = Some codec \<and> layer_table codec rtp = Inr layers \<and>
        payload_meta codec (fst (rtp_spatial rtp c)) rtp = Inr (Some meta) \<and>
        pkt = \<lparr>pkt_ts = rtp_ts rtp, pkt_seq = rtp_seq rtp, pkt_marker = rtp_marker rtp, pkt_nackable = (codec \<noteq> CodecOpus),
               pkt_layers = layers, pkt_meta = meta, pkt_data = map unat (rtp_payload rtp)\<rparr>)"
  by (cases "rtp_spatial rtp c") (auto simp: remote_convert_def rtp_meta_eq res_bind_Inr split: option.split)

section \<open>Which packets convert\<close>

lemma set_layer_total: "i < 3 \<Longrightarrow> \<exists>l1. mlb_set_layer l i b = Inr l1" "i < 3 \<Longrightarrow> \<exists>ls1. mlsb_set_layer ls i l = Inr ls1"
  by (cases l; cases ls; auto simp: mlb_set_layer_def mlsb_set_layer_def)+

lemma simulcast_layer_total: "t + length ks \<le> 3 \<Longrightarrow> \<exists>l1. simulcast_layer t ks l = Inr l1"
proof (induction ks arbitrary: t l)
  case (Cons k ks)
  obtain l1 where "mlb_set_layer l t (as_u16 k) = Inr l1" using set_layer_total(1)[of t l] Cons.prems by auto
  then show ?case using Cons.IH[of "t + 1" l1] Cons.prems by simp
qed simp

lemma simulcast_streams_total:
  "i + length v \<le> 3 \<Longrightarrow> (\<And>s ss. s # ss \<in> set v \<Longrightarrow> length s \<le> 3) \<Longrightarrow> \<exists>ls1. simulcast_streams i v ls = Inr ls1"
proof (induction v arbitrary: i ls)
  case (Cons sim v)
  have rest: "\<exists>ls2. simulcast_streams (i + 1) v ls1 = Inr ls2" for ls1 using Cons.IH[of "i + 1"] Cons.prems by auto
  show ?case
  proof (cases sim)
    case (Cons s ss)
    obtain l where l: "simulcast_layer 0 s no_layer = Inr l" using simulcast_layer_total[of 0 s] Cons.prems(2)[of s ss] Cons by auto
    obtain ls1 where "mlsb_set_layer ls i l = Inr ls1" using set_layer_total(2)[of i ls l] Cons.prems(1) by auto
    then show ?thesis using l rest[of ls1] Cons by simp
  qed (use rest in simp)
qed simp

lemma svc_layer_total: "t + length ks \<le> 3 \<Longrightarrow> previous + sum_list ks < 2 ^ 16 \<Longrightarrow> \<exists>l1. svc_layer previous t ks l = Inr l1"
proof (induction ks arbitrary: t l)
  case (Cons k ks)
  obtain l1 where "mlb_set_layer l t (k + previous) = Inr l1" using set_layer_total(1)[of t l] Cons.prems by auto
  then show ?case using Cons.IH[of "t + 1" l1] Cons.prems by (simp add: add_u16_def)
qed simp

lemma svc_layers_total:
  "s + length lss \<le> 3 \<Longrightarrow> (\<And>ks. ks \<in> set lss \<Longrightarrow> length ks \<le> 3) \<Longrightarrow> previous + sum_list (concat lss) < 2 ^ 16 \<Longrightarrow>
     \<exists>ls1. svc_layers previous s lss ls = Inr ls1"
proof (induction lss arbitrary: s previous ls)
  case (Cons ks lss)
  obtain l where l: "svc_layer previous 0 ks no_layer = Inr l" using svc_layer_total[of 0 ks previous no_layer] Cons.prems by auto
  obtain ls1 where ls1: "mlsb_set_layer ls s l = Inr ls1" using set_layer_total(2)[of s ls l] Cons.prems by auto
  define k where "k = (if ks = [] then 0 else last ks)"
  have "k \<le> sum_list ks" by (auto simp: k_def intro: member_le_sum_list)
  then have "previous + k < 2 ^ 16" "previous + k + sum_list (concat lss) < 2 ^ 16" using Cons.prems(3) by simp_all
  then have "add_u16 previous (as_u16 k) = Inr (previous + k)" "\<exists>ls2. svc_layers (previous + k) (s + 1) lss ls1 = Inr ls2"
    using Cons.IH[of "s + 1" "previous + k" ls1] Cons.prems by (auto simp: add_u16_def)
  then show ?case using l ls1 by (simp add: k_def)
qed simp

text \<open>An extension within three streams, three layers and sixteen bits, and a payload with no VP9 scalability structure.\<close>

definition vla_small :: "vla \<Rightarrow> bool" where
  "vla_small v \<longleftrightarrow> length v \<le> 3 \<and> list_all (\<lambda>s. length s \<le> 3 \<and> list_all (\<lambda>ks. length ks \<le> 3) s \<and> sum_list (concat s) < 2 ^ 16) v"

definition rtp_readable :: "rtp_packet \<Rightarrow> bool" where
  "rtp_readable rtp \<longleftrightarrow> (case rtp_vla rtp of None \<Rightarrow> True | Some v \<Rightarrow> vla_small v) \<and>
     (case rtp_payload rtp of [] \<Rightarrow> True | b # _ \<Rightarrow> \<not> bit b 1)"

lemma layer_table_total: "rtp_readable rtp \<Longrightarrow> \<exists>ls. layer_table codec rtp = Inr ls"
proof -
  assume r: "rtp_readable rtp"
  have "\<exists>ls. extract_simulcast v = Inr ls" if "vla_small v" for v
    using simulcast_streams_total[of 0 v no_layers] that by (fastforce simp: extract_simulcast_def vla_small_def list_all_iff)
  moreover have "\<exists>ls. extract_svc v = Inr ls" if "vla_small v" for v
  proof (cases v)
    case (Cons s ss)
    then show ?thesis using svc_layers_total[of 0 s 0 no_layers] that by (auto simp: extract_svc_def vla_small_def list_all_iff)
  qed (simp add: extract_svc_def)
  ultimately show ?thesis using r
    by (cases "rtp_vla rtp"; cases codec) (simp_all add: rtp_readable_def layer_table_def layers_of_def)
qed

lemma payload_meta_total: "rtp_readable rtp \<Longrightarrow> \<exists>m. payload_meta codec spatial rtp = Inr m"
proof (cases codec)
  case (CodecVp9 profile)
  assume "rtp_readable rtp"
  then have "rtp_payload rtp = [] \<or> \<not> bit (rtp_payload rtp ! 0) 1" by (cases "rtp_payload rtp") (simp_all add: rtp_readable_def)
  then show ?thesis using vp9_reads CodecVp9 by (simp add: payload_meta_def Let_def)
qed (simp_all add: payload_meta_def h264_parse_rtp_def vp8_parse_eq Let_def)

lemma readable_converts:
  assumes "rtp_readable rtp"
  shows "\<exists>r. remote_convert rtp c = Inr r"
proof -
  obtain spatial c1 where s: "rtp_spatial rtp c = (spatial, c1)" by (cases "rtp_spatial rtp c")
  have "\<exists>m. rtp_meta codec spatial rtp = Inr m" for codec
  proof -
    obtain ls m where "layer_table codec rtp = Inr ls" "payload_meta codec spatial rtp = Inr m"
      using layer_table_total[OF assms] payload_meta_total[OF assms] by metis
    then show ?thesis by (simp add: rtp_meta_eq)
  qed
  then have "\<exists>r. (case im_get (rmc_map c1) (rtp_pt rtp) of None \<Rightarrow> Inr (None, c1) | Some codec \<Rightarrow> res_bind (rtp_meta codec spatial rtp) (\<lambda>m. Inr (f m, c1))) = Inr r"
    for f :: "(bool \<times> media_layers_bitrate option \<times> media_meta) option \<Rightarrow> media_packet option"
    by (auto split: option.split) (metis res_bind.simps(2))
  then show ?thesis by (simp add: remote_convert_def s)
qed

text \<open>A fourth temporal layer has no place in the table.\<close>

lemma fourth_temporal_layer_panics: "extract_simulcast [[[100, 200, 300, 400]]] = Inl OutOfRange"
  by (simp add: extract_simulcast_def no_layer_def no_layers_def mlb_set_layer_def)

section \<open>Properties\<close>

text \<open>C4: a packet whose numbers were changed is read back as changed. When an RTP packet converts to a media packet and a
  selector gives it other picture numbers that fit its fields, then writing them into the payload succeeds without changing its
  length, and a receiver that converts the result gets exactly the media packet with the new numbers: key flag, layers, marker,
  timestamp and the state of the converter as before. This holds for every codec.\<close>

theorem rewritten_packet_reads_back:
  assumes run: "remote_convert rtp c = Inr (Some pkt, c1)" and m: "renumbered (rtp_payload rtp) (pkt_meta pkt) m"
  shows "\<exists>p1. length p1 = length (rtp_payload rtp) \<and>
    rewrite_pkt (pkt\<lparr>pkt_meta := m\<rparr>) = Inr (pkt\<lparr>pkt_meta := m, pkt_data := map unat p1\<rparr>) \<and>
    remote_convert (rtp\<lparr>rtp_payload := p1\<rparr>) c = Inr (Some (pkt\<lparr>pkt_meta := m, pkt_data := map unat p1\<rparr>), c1)"
proof -
  obtain codec layers meta where c: "snd (rtp_spatial rtp c) = c1" "im_get (rmc_map c1) (rtp_pt rtp) = Some codec" "layer_table codec rtp = Inr layers"
      "payload_meta codec (fst (rtp_spatial rtp c)) rtp = Inr (Some meta)"
      "pkt = \<lparr>pkt_ts = rtp_ts rtp, pkt_seq = rtp_seq rtp, pkt_marker = rtp_marker rtp, pkt_nackable = (codec \<noteq> CodecOpus),
              pkt_layers = layers, pkt_meta = meta, pkt_data = map unat (rtp_payload rtp)\<rparr>"
    using run unfolding remote_convert_Some by blast
  obtain p1 where "length p1 = length (rtp_payload rtp)" "rewrite_bytes m (rtp_payload rtp) = Inr p1"
      "payload_meta codec (fst (rtp_spatial rtp c)) (rtp\<lparr>rtp_payload := p1\<rparr>) = Inr (Some m)"
    using payload_back[OF c(4)] m c(5) by auto
  then show ?thesis using c
    by (intro exI[of _ p1]) (auto simp: rewrite_pkt_eq pkt_bytes_def remote_convert_Some payload_spatial)
qed

text \<open>C31: every converted packet is one the selectors and rewriters accept. Its sequence number, timestamp and picture numbers
  are within the ranges their arithmetic works in, its metadata is of the codec the payload type stands for, and its payload
  is the one received.\<close>

theorem converted_packet_ok:
  assumes "remote_convert rtp c = Inr (Some pkt, c1)" "rtp_seq rtp < 2 ^ 16" "rtp_ts rtp < 2 ^ 32"
  shows "pkt_ok pkt \<and> im_get (rmc_map c) (rtp_pt rtp) = Some (meta_codec (pkt_meta pkt)) \<and> pkt_bytes pkt = rtp_payload rtp"
proof -
  have map: "rmc_map (snd (rtp_spatial rtp c)) = rmc_map c" by (simp add: rtp_spatial_def Let_def split: option.split)
  show ?thesis using assms payload_meta_ok payload_meta_codec
    by (auto simp: remote_convert_Some pkt_ok_def pkt_bytes_def map)
qed


text \<open>C34: reading a VP8 header bit by bit gives what its layout prescribes. For every payload the reader returns, without panic,
  nothing when the payload is shorter than four bytes or ends with its header, and otherwise the key flag, the picture number,
  the index, the temporal layer and the sync flag found at the positions that the presence bits of the first two bytes give.\<close>

theorem vp8_header_by_position:
  "vp8_parse_rtp p rid rot = Inr (if length p < 4 \<or> length p \<le> body_pos p then None
     else Some (Vp8 (v8_key p) (if v8_has p 5 then Some (v8_sim p rid) else None) rot))"
  by (rule vp8_parse_eq)

section \<open>A packet that converts\<close>

definition demo_rtp :: rtp_packet where
  "demo_rtp = \<lparr>rtp_ssrc = 1, rtp_pt = 96, rtp_seq = 65535, rtp_ts = 3000, rtp_marker = True, rtp_mid = None, rtp_rid = Some ''1'', rtp_audio_level = None,
     rtp_orientation = Some VDeg90, rtp_vla = Some [[[100, 200]], [[400]]], rtp_payload = [0x90, 0xE0, 0x80, 0x05, 0x07, 0x40, 0x00, 0xAB]\<rparr>"

definition demo_convert :: remote_media_convert where
  "demo_convert = remote_set_config [(111, \<lparr>spec_codec = SOpus, spec_profile_level_id = None, spec_packetization_mode = None, spec_profile_id = None\<rparr>),
     (96, \<lparr>spec_codec = SVp8, spec_profile_level_id = None, spec_packetization_mode = None, spec_profile_id = None\<rparr>)]
     \<lparr>rmc_map = [], rmc_ssrcs_rid = [], rmc_ssrcs_mid = []\<rparr>"

definition demo_sim :: vp8_sim where
  "demo_sim = \<lparr>vp8_picture_id = Some 5, vp8_tl0_pic_idx = Some 7, vp8_spatial = 1, vp8_temporal = 1, vp8_layer_sync = False\<rparr>"

definition demo_media :: media_packet where
  "demo_media = \<lparr>pkt_ts = 3000, pkt_seq = 65535, pkt_marker = True, pkt_nackable = True,
     pkt_layers = Some (Arr3 (Some (Arr3 (Some 100) (Some 200) None)) (Some (Arr3 (Some 400) None None)) None),
     pkt_meta = Vp8 True (Some demo_sim) (Some Deg90), pkt_data = [144, 224, 128, 5, 7, 64, 0, 171]\<rparr>"

definition demo_convert_1 :: remote_media_convert where
  "demo_convert_1 = demo_convert\<lparr>rmc_ssrcs_rid := [(1, 1)]\<rparr>"

lemmas demo_defs = demo_rtp_def demo_convert_def demo_convert_1_def demo_media_def demo_sim_def

lemma demo_converts: "remote_convert demo_rtp demo_convert = Inr (Some demo_media, demo_convert_1)"
proof -
  have table: "layer_table CodecVp8 demo_rtp = Inr (pkt_layers demo_media)"
    by (simp add: demo_defs layer_table_def layers_of_def extract_simulcast_def no_layer_def no_layers_def mlb_set_layer_def mlsb_set_layer_def)
  have meta: "payload_meta CodecVp8 (Some 1) demo_rtp = Inr (Some (pkt_meta demo_media))"
    by (simp add: demo_defs payload_meta_def vp8_parse_eq v8_key_def v8_sim_def v8_pos pic_value_def)
  have "rtp_spatial demo_rtp demo_convert = (Some 1, demo_convert_1)" "im_get (rmc_map demo_convert_1) (rtp_pt demo_rtp) = Some CodecVp8"
    by (simp_all add: demo_defs rtp_spatial_def rid_to_spatial_def remote_set_config_def str0m_codec_convert_def im_contains_def)
  then show ?thesis using table meta unfolding remote_convert_Some by (simp add: demo_media_def) (simp add: demo_rtp_def)
qed

lemma demo_renumbered:
  "renumbered (rtp_payload demo_rtp) (pkt_meta demo_media) (Vp8 True (Some (demo_sim\<lparr>vp8_picture_id := Some 1000, vp8_tl0_pic_idx := Some 255\<rparr>)) (Some Deg90))"
  by (simp add: demo_media_def demo_sim_def demo_rtp_def field_fits_def pid_limit_def pic_pos_def)

theorem rewritten_packet_reads_back_witness:
  "\<exists>p1. length p1 = 8 \<and> remote_convert (demo_rtp\<lparr>rtp_payload := p1\<rparr>) demo_convert = Inr (Some (demo_media\<lparr>pkt_meta :=
      Vp8 True (Some (demo_sim\<lparr>vp8_picture_id := Some 1000, vp8_tl0_pic_idx := Some 255\<rparr>)) (Some Deg90), pkt_data := map unat p1\<rparr>), demo_convert_1)"
proof -
  have "length (rtp_payload demo_rtp) = 8" by (simp add: demo_rtp_def)
  then show ?thesis using rewritten_packet_reads_back[OF demo_converts demo_renumbered] by metis
qed

theorem converted_packet_ok_witness: "pkt_ok demo_media \<and> meta_codec (pkt_meta demo_media) = CodecVp8"
  using converted_packet_ok[OF demo_converts] by (auto simp: demo_rtp_def demo_media_def)


end
