(* ===== verification/Session_Messages.thy ===== *)
theory Session_Messages
  imports Endpoint_Types
begin

text \<open>
  The messages between a WebRTC session and its client (\<open>packages/protocol/src/protobuf/session.rs\<close>, \<open>shared.rs\<close>, \<open>features.rs\<close>,
  \<open>features.mixer.rs\<close>, \<open>gateway.rs\<close>), before encoding. What the client sends keeps every optional part, since a client may leave it
  out, and enumerations as the numbers they are sent as; what the server sends has its optional parts filled in, as the server always
  does, and only the variants the server builds. Messages
  whose conversion copies every field are the types they are converted to. The error codes of the session and of the
  endpoint (\<open>transport_webrtc/src/lib.rs\<close>, \<open>media_core/src/errors.rs\<close>) are the numbers of the code.
\<close>

section \<open>Shared messages\<close>

record shared_error =
  err_code :: nat
  err_message :: string

record sender_source =
  ss_id :: string
  ss_screen :: bool
  ss_metadata :: "string option"

record sender_config =
  sc_priority :: priority
  sc_bitrate :: int

record shared_sender =
  snd_kind :: int
  snd_name :: string
  snd_state :: "(sender_config option \<times> sender_source option) option"

record receiver_config =
  rc_priority :: priority
  rc_max_spatial :: nat
  rc_max_temporal :: nat
  rc_min_spatial :: "nat option"
  rc_min_temporal :: "nat option"

record shared_receiver =
  rcv_kind :: int
  rcv_name :: string
  rcv_state :: "(receiver_config option \<times> track_source option) option"

record shared_tracks =
  st_receivers :: "shared_receiver list"
  st_senders :: "shared_sender list"

record mixer_config =
  mxc_mode :: int
  mxc_outputs :: "string list"
  mxc_sources :: "track_source list"

type_synonym features_config = "mixer_config option"

record proto_room_join =
  rj_room :: string
  rj_peer :: string
  rj_publish :: "room_info_publish option"
  rj_subscribe :: "room_info_subscribe option"
  rj_features :: "features_config option"
  rj_metadata :: "string option"

record connect_request =
  cr_version :: string
  cr_join :: "proto_room_join option"
  cr_tracks :: "shared_tracks option"
  cr_sdp :: string

definition default_source :: sender_source where
  "default_source = \<lparr>ss_id = '''', ss_screen = False, ss_metadata = None\<rparr>"

definition default_sender_config :: sender_config where
  "default_sender_config = \<lparr>sc_priority = 0, sc_bitrate = 0\<rparr>"

definition default_receiver_config :: receiver_config where
  "default_receiver_config = \<lparr>rc_priority = 0, rc_max_spatial = 0, rc_max_temporal = 0, rc_min_spatial = None, rc_min_temporal = None\<rparr>"

definition default_tracks :: shared_tracks where
  "default_tracks = \<lparr>st_receivers = [], st_senders = []\<rparr>"

definition default_join :: proto_room_join where
  "default_join = \<lparr>rj_room = '''', rj_peer = '''', rj_publish = None, rj_subscribe = None, rj_features = None, rj_metadata = None\<rparr>"

definition default_publish :: room_info_publish where "default_publish = \<lparr>rp_peer = False, rp_tracks = False\<rparr>"

definition default_subscribe :: room_info_subscribe where "default_subscribe = \<lparr>rs_peers = False, rs_tracks = False\<rparr>"

definition default_track_source :: track_source where "default_track_source = \<lparr>src_peer = '''', src_track = ''''\<rparr>"

definition unwrap_or :: "'a \<Rightarrow> 'a option \<Rightarrow> 'a" where
  "unwrap_or d x = (case x of None \<Rightarrow> d | Some v \<Rightarrow> v)"

lemma unwrap_or_simps [simp]: "unwrap_or d None = d" "unwrap_or d (Some v) = v"
  by (simp_all add: unwrap_or_def)

section \<open>Numbers of enumerations and conversions\<close>

text \<open>A number that is no variant is read as the first one.\<close>

definition proto_kind :: "int \<Rightarrow> media_kind" where
  "proto_kind n = (if n = 1 then Video else Audio)"

definition kind_number :: "media_kind \<Rightarrow> int" where
  "kind_number k = (case k of Audio \<Rightarrow> 0 | Video \<Rightarrow> 1)"

definition proto_bitrate :: "int \<Rightarrow> bitrate_control_mode" where
  "proto_bitrate n = (if n = 1 then MaxBitrate else DynamicConsumers)"

definition proto_mode :: "int \<Rightarrow> audio_mixer_mode" where
  "proto_mode n = (if n = 1 then MixerManual else MixerAuto)"

definition receiver_status_number :: "receiver_status \<Rightarrow> int" where
  "receiver_status_number s = (case s of RecvWaiting \<Rightarrow> 0 | RecvActive \<Rightarrow> 1 | RecvInactive \<Rightarrow> 2)"

definition sender_config_into :: "sender_config \<Rightarrow> endpoint_remote_track_config" where
  "sender_config_into c = \<lparr>rtc_priority = sc_priority c, rtc_control = proto_bitrate (sc_bitrate c)\<rparr>"

definition receiver_config_into :: "receiver_config \<Rightarrow> endpoint_local_track_config" where
  "receiver_config_into c =
     \<lparr>ltc_priority = rc_priority c, ltc_max_spatial = rc_max_spatial c mod 256, ltc_max_temporal = rc_max_temporal c mod 256,
      ltc_min_spatial = map_option (\<lambda>m. m mod 256) (rc_min_spatial c), ltc_min_temporal = map_option (\<lambda>m. m mod 256) (rc_min_temporal c)\<rparr>"

section \<open>Requests\<close>

datatype session_request = SesJoin "proto_room_join option" string | SesLeave | SesSdp "shared_tracks option" string | SesDisconnect

datatype room_request = RoomSubscribe string | RoomUnsubscribe string

datatype msg_request = MsgStartPub | MsgStopPub | MsgSub | MsgUnsub | MsgPub "nat list"

datatype sender_request = SndAttach "sender_source option" "sender_config option" | SndDetach | SndConfig sender_config

datatype receiver_request = RcvAttach "track_source option" "receiver_config option" | RcvDetach | RcvConfig receiver_config

datatype mixer_request = MxAttach "track_source list" | MxDetach "track_source list"

datatype proto_request = RqSession "session_request option" | RqRoom "room_request option" | RqSender string "sender_request option"
  | RqReceiver string "receiver_request option" | RqFeatures "mixer_request option option" | RqMessageChannel string "msg_request option"

record client_request =
  cq_req_id :: nat
  cq_request :: "proto_request option"

record client_event =
  ce_seq :: nat
  ce_event :: "client_request option"

section \<open>Answers and events\<close>

datatype session_response = RspJoin | RspLeave | RspSdp string | RspDisconnect

datatype msg_response = RspStartPub | RspStopPub | RspSub | RspUnsub | RspPub

datatype track_response = RspAttach | RspDetach | RspConfig

datatype mixer_response = RspMixAttach | RspMixDetach

datatype proto_response = RspError shared_error | RspSession session_response | RspSender track_response | RspReceiver track_response
  | RspFeatures mixer_response | RspMessageChannel string msg_response

datatype proto_room_event = RePeerJoined peer_id "string option" "string option" | RePeerLeaved peer_id
  | ReTrackStarted peer_id track_name int "string option" | ReTrackStopped peer_id track_name int

datatype proto_receiver_event = RevState int | RevVoiceActivity int

datatype proto_mixer_event = MxeSlotSet nat track_source | MxeSlotUnset nat

datatype proto_server_event = SeRoom proto_room_event | SeSender string int | SeReceiver string proto_receiver_event | SeResponse nat proto_response
  | SeFeatures proto_mixer_event | SeMessageChannel string peer_id "nat list"

record server_event =
  se_seq :: nat
  se_event :: proto_server_event

section \<open>Errors\<close>

datatype webrtc_error = InvalidSdp | InternalServerError | RpcInvalidRequest | RpcTrackNameNotFound | RpcTrackNotAttached | RpcTrackAlreadyAttached
  | RpcEndpointNotFound | RpcTokenInvalid | RpcTokenRoomPeerNotMatch | RpcTokenAppNotMatch | RpcAlreadyDisconnected

fun webrtc_code :: "webrtc_error \<Rightarrow> nat" where
  "webrtc_code InvalidSdp = 0x2000"
| "webrtc_code InternalServerError = 0x2001"
| "webrtc_code RpcInvalidRequest = 0x2002"
| "webrtc_code RpcTrackNameNotFound = 0x2003"
| "webrtc_code RpcTrackNotAttached = 0x2004"
| "webrtc_code RpcTrackAlreadyAttached = 0x2005"
| "webrtc_code RpcEndpointNotFound = 0x2006"
| "webrtc_code RpcTokenInvalid = 0x2007"
| "webrtc_code RpcTokenRoomPeerNotMatch = 0x2008"
| "webrtc_code RpcTokenAppNotMatch = 0x2009"
| "webrtc_code RpcAlreadyDisconnected = 0x2010"

text \<open>The message of an error is the name of its variant.\<close>

fun webrtc_message :: "webrtc_error \<Rightarrow> string" where
  "webrtc_message InvalidSdp = ''InvalidSdp''"
| "webrtc_message InternalServerError = ''InternalServerError''"
| "webrtc_message RpcInvalidRequest = ''RpcInvalidRequest''"
| "webrtc_message RpcTrackNameNotFound = ''RpcTrackNameNotFound''"
| "webrtc_message RpcTrackNotAttached = ''RpcTrackNotAttached''"
| "webrtc_message RpcTrackAlreadyAttached = ''RpcTrackAlreadyAttached''"
| "webrtc_message RpcEndpointNotFound = ''RpcEndpointNotFound''"
| "webrtc_message RpcTokenInvalid = ''RpcTokenInvalid''"
| "webrtc_message RpcTokenRoomPeerNotMatch = ''RpcTokenRoomPeerNotMatch''"
| "webrtc_message RpcTokenAppNotMatch = ''RpcTokenAppNotMatch''"
| "webrtc_message RpcAlreadyDisconnected = ''RpcAlreadyDisconnected''"

fun endpoint_code :: "endpoint_errors \<Rightarrow> nat" where
  "endpoint_code EndpointNotInRoom = 0x0001"
| "endpoint_code LocalTrackNotPinSource = 0x1001"
| "endpoint_code LocalTrackInvalidPriority = 0x1002"
| "endpoint_code RemoteTrackInvalidPriority = 0x2001"
| "endpoint_code RemoteTrackStopped = 0x2002"
| "endpoint_code AudioMixerWrongMode = 0x3001"
| "endpoint_code Destroying = 0x4001"

fun endpoint_message :: "endpoint_errors \<Rightarrow> string" where
  "endpoint_message EndpointNotInRoom = ''EndpointNotInRoom''"
| "endpoint_message LocalTrackNotPinSource = ''LocalTrackNotPinSource''"
| "endpoint_message LocalTrackInvalidPriority = ''LocalTrackInvalidPriority''"
| "endpoint_message RemoteTrackInvalidPriority = ''RemoteTrackInvalidPriority''"
| "endpoint_message RemoteTrackStopped = ''RemoteTrackStopped''"
| "endpoint_message AudioMixerWrongMode = ''AudioMixerWrongMode''"
| "endpoint_message Destroying = ''Destroying''"

definition webrtc_err :: "webrtc_error \<Rightarrow> shared_error" where
  "webrtc_err e = \<lparr>err_code = webrtc_code e, err_message = webrtc_message e\<rparr>"

definition endpoint_err :: "endpoint_errors \<Rightarrow> shared_error" where
  "endpoint_err e = \<lparr>err_code = endpoint_code e, err_message = endpoint_message e\<rparr>"

text \<open>The code of an error identifies it within either family, and its message everywhere.\<close>

lemma webrtc_code_inj: "inj webrtc_code"
  by (rule injI) (case_tac x; case_tac y; simp)

lemma endpoint_code_inj: "inj endpoint_code"
  by (rule injI) (case_tac x; case_tac y; simp)

lemma errors_differ: "webrtc_err e \<noteq> endpoint_err e1"
  by (cases e; cases e1) (simp_all add: webrtc_err_def endpoint_err_def)

text \<open>The two families share codes: a client that looks at the code takes a failure of the server for a wrong priority, and a
  malformed request for a stopped track.\<close>

lemma error_codes_collide:
  "err_code (webrtc_err InternalServerError) = err_code (endpoint_err RemoteTrackInvalidPriority)"
  "err_code (webrtc_err RpcInvalidRequest) = err_code (endpoint_err RemoteTrackStopped)"
  by (simp_all add: webrtc_err_def endpoint_err_def)

end
