(* ===== verification/Webrtc_Common.thy ===== *)
theory Webrtc_Common
  imports Rtp_Convert Session_Messages
begin

text \<open>
  What the WebRTC transports of \<open>packages/transport_webrtc/src\<close> share: the events of the WebRTC library they react to, the
  commands they give, the life of a connection (the state machine that \<open>transport/whip.rs\<close> and \<open>transport/whep.rs\<close> have in
  the same words), the damping of the bandwidth estimate (\<open>transport/bwe_state.rs\<close>) and the port shared by all sessions
  (\<open>shared_port.rs\<close>). Times are milliseconds. Shown: what a session says of its connection is in order, the estimate is only
  trusted after a warm-up, and the port sends a packet to the session its address was bound to.
\<close>

section \<open>Events and commands\<close>

datatype ice_connection_state = IceNew | IceChecking | IceConnected | IceCompleted | IceDisconnected

datatype direction = SendOnly | RecvOnly | SendRecv | DirInactive

record media_added =
  ma_mid :: string
  ma_kind :: media_kind
  ma_direction :: direction
  ma_simulcast :: bool

text \<open>The data of a channel stands decoded, or as \<open>None\<close> when it cannot be decoded.\<close>

datatype str0m_event = SConnected | SIceState ice_connection_state | SMediaAdded media_added | SRtpPacket rtp_packet
  | SKeyframeRequest string | SEgressBitrateEstimate nat | SStreamPaused string nat bool | SChannelOpen nat
  | SChannelData "client_event option" | SChannelClose nat | SOtherEvent

text \<open>The commands of a session: a message for the client stands before its encoding, the internal request is the one to accept an offer.\<close>

datatype internal_command = Str0mKeyframe string | Str0mLimitBitrate string nat | Str0mSendMedia string media_packet
  | Str0mSendData nat server_event | Str0mBwe nat nat | Str0mResetBwe nat | SetRemoteSdp nat string
  | TransportEv transport_event | TransportRpcReq nat endpoint_req

section \<open>The life of a connection\<close>

definition TIMEOUT_SEC :: nat where "TIMEOUT_SEC = 10"

datatype conn_state = StNew | StConnecting nat | StConnectError | StConnected | StReconnecting nat | StDisconnected

fun is_shutdown :: "conn_state \<Rightarrow> bool" where
  "is_shutdown StConnectError = True"
| "is_shutdown StDisconnected = True"
| "is_shutdown _ = False"

definition conn_tick :: "string \<Rightarrow> nat \<Rightarrow> conn_state \<Rightarrow> conn_state \<times> internal_command list" where
  "conn_tick remote now st =
     (case st of
        StNew \<Rightarrow> (StConnecting now, [TransportEv (TeState (TsConnecting remote))])
      | StConnecting at \<Rightarrow>
          if now - at \<ge> TIMEOUT_SEC * 1000 then (StConnectError, [TransportEv (TeState (TsConnectError Timeout))]) else (st, [])
      | StReconnecting at \<Rightarrow>
          if now - at \<ge> TIMEOUT_SEC * 1000 then (StDisconnected, [TransportEv (TeState (TsDisconnected (Some Timeout)))]) else (st, [])
      | _ \<Rightarrow> (st, []))"

definition conn_ice :: "string \<Rightarrow> nat \<Rightarrow> ice_connection_state \<Rightarrow> conn_state \<Rightarrow> conn_state \<times> internal_command list" where
  "conn_ice remote now ice st =
     (if ice = IceConnected \<or> ice = IceCompleted
      then (case st of StReconnecting at \<Rightarrow> (StConnected, [TransportEv (TeState (TsConnected remote))]) | _ \<Rightarrow> (st, []))
      else if ice = IceDisconnected
      then (if st = StConnected then (StReconnecting now, [TransportEv (TeState (TsReconnecting remote))]) else (st, []))
      else (st, []))"

definition conn_shutdown :: "conn_state \<Rightarrow> conn_state \<times> internal_command list" where
  "conn_shutdown st = (if st \<noteq> StDisconnected then (StDisconnected, [TransportEv (TeState (TsDisconnected None))]) else (st, []))"

section \<open>The bandwidth estimate\<close>

definition WARM_UP_BWE_BPS :: nat where "WARM_UP_BWE_BPS = 800000"
definition WARM_UP_DESIRED_BPS :: nat where "WARM_UP_DESIRED_BPS = 1000000"
definition WARM_UP_MS :: nat where "WARM_UP_MS = 5000"
definition TIMEOUT_MS :: nat where "TIMEOUT_MS = 2000"

datatype bwe_state = BweInactive | WarmUp nat nat bool | BweActive nat

definition bwe_on_tick :: "nat \<Rightarrow> bwe_state \<Rightarrow> bwe_state \<times> nat option" where
  "bwe_on_tick now st =
     (case st of
        BweInactive \<Rightarrow> (st, None)
      | WarmUp started_at last_video_pkt reset_bwe \<Rightarrow>
          if reset_bwe then (WarmUp started_at last_video_pkt False, Some WARM_UP_BWE_BPS)
          else if now - last_video_pkt \<ge> TIMEOUT_MS then (BweInactive, Some 0)
          else if now - started_at \<ge> WARM_UP_MS then (BweActive last_video_pkt, None)
          else (st, None)
      | BweActive last_video_pkt \<Rightarrow> if now - last_video_pkt \<ge> TIMEOUT_MS then (BweInactive, Some 0) else (st, None))"

definition bwe_on_send_video :: "nat \<Rightarrow> bwe_state \<Rightarrow> bwe_state" where
  "bwe_on_send_video now st =
     (case st of BweInactive \<Rightarrow> WarmUp now now True | WarmUp started_at _ reset_bwe \<Rightarrow> WarmUp started_at now reset_bwe | BweActive _ \<Rightarrow> BweActive now)"

definition filter_bwe :: "nat \<Rightarrow> bwe_state \<Rightarrow> nat" where
  "filter_bwe bwe st = (case st of BweInactive \<Rightarrow> 0 | WarmUp _ _ _ \<Rightarrow> max bwe WARM_UP_BWE_BPS | BweActive _ \<Rightarrow> bwe)"

definition filter_bwe_config :: "nat \<Rightarrow> nat \<Rightarrow> bwe_state \<Rightarrow> nat \<times> nat" where
  "filter_bwe_config current desired st =
     (case st of BweInactive \<Rightarrow> (0, 0) | WarmUp _ _ _ \<Rightarrow> (max current WARM_UP_BWE_BPS, max desired WARM_UP_DESIRED_BPS) | BweActive _ \<Rightarrow> (current, desired))"

section \<open>The shared port\<close>

text \<open>Parsing the user name of a STUN message is the library's: the name in a message, if it is one and has one.\<close>

record 't shared_udp_port =
  sp_task_remotes :: "(string, 't) imap"
  sp_task_remotes_map :: "('t, string list) imap"
  sp_task_ufrags :: "(string, 't) imap"
  sp_task_ufrags_reverse :: "('t, string) imap"

definition sp_default :: "'t shared_udp_port" where
  "sp_default = \<lparr>sp_task_remotes = [], sp_task_remotes_map = [], sp_task_ufrags = [], sp_task_ufrags_reverse = []\<rparr>"

definition add_ufrag :: "string \<Rightarrow> 't \<Rightarrow> 't shared_udp_port \<Rightarrow> 't shared_udp_port" where
  "add_ufrag ufrag task p =
     p\<lparr>sp_task_ufrags := im_insert (sp_task_ufrags p) ufrag task, sp_task_ufrags_reverse := im_insert (sp_task_ufrags_reverse p) task ufrag\<rparr>"

definition sp_remove_task :: "'t \<Rightarrow> 't shared_udp_port \<Rightarrow> 't shared_udp_port" where
  "sp_remove_task task p =
     (case im_get (sp_task_ufrags_reverse p) task of
        None \<Rightarrow> p
      | Some ufrag \<Rightarrow>
          (let p1 = p\<lparr>sp_task_ufrags_reverse := im_swap_remove (sp_task_ufrags_reverse p) task\<rparr> in
           case im_get (sp_task_ufrags p1) ufrag of
             None \<Rightarrow> p1
           | Some _ \<Rightarrow>
               (let p2 = p1\<lparr>sp_task_ufrags := im_swap_remove (sp_task_ufrags p1) ufrag\<rparr> in
                case im_get (sp_task_remotes_map p2) task of
                  None \<Rightarrow> p2
                | Some remotes \<Rightarrow>
                    p2\<lparr>sp_task_remotes_map := im_swap_remove (sp_task_remotes_map p2) task,
                       sp_task_remotes := fold (\<lambda>r m. im_swap_remove m r) remotes (sp_task_remotes p2)\<rparr>)))"

definition map_remote :: "(nat list \<Rightarrow> string option) \<Rightarrow> string \<Rightarrow> nat list \<Rightarrow> 't shared_udp_port \<Rightarrow> 't option \<times> 't shared_udp_port" where
  "map_remote stun_username remote buf p =
     (case im_get (sp_task_remotes p) remote of
        Some task \<Rightarrow> (Some task, p)
      | None \<Rightarrow>
          (case stun_username buf of
             None \<Rightarrow> (None, p)
           | Some name \<Rightarrow>
               (case im_get (sp_task_ufrags p) name of
                  None \<Rightarrow> (None, p)
                | Some task \<Rightarrow>
                    (Some task,
                     p\<lparr>sp_task_remotes := im_insert (sp_task_remotes p) remote task,
                       sp_task_remotes_map := im_insert (sp_task_remotes_map p) task
                         ((case im_get (sp_task_remotes_map p) task of None \<Rightarrow> [] | Some rs \<Rightarrow> rs) @ [remote])\<rparr>))))"

section \<open>What a session says of its connection\<close>

datatype conn_phase = PhNew | PhConnecting | PhConnected | PhReconnecting | PhEnded

fun conn_talk :: "conn_phase \<Rightarrow> transport_state \<Rightarrow> conn_phase option" where
  "conn_talk PhNew (TsConnecting _) = Some PhConnecting"
| "conn_talk PhConnecting (TsConnected _) = Some PhConnected"
| "conn_talk PhConnected (TsConnected _) = Some PhConnected"
| "conn_talk PhReconnecting (TsConnected _) = Some PhConnected"
| "conn_talk PhConnected (TsReconnecting _) = Some PhReconnecting"
| "conn_talk PhConnecting (TsConnectError _) = Some PhEnded"
| "conn_talk ph (TsDisconnected _) = Some PhEnded"
| "conn_talk _ _ = None"

fun conn_talks :: "conn_phase \<Rightarrow> transport_state list \<Rightarrow> conn_phase option" where
  "conn_talks ph [] = Some ph"
| "conn_talks ph (s # ss) = (case conn_talk ph s of None \<Rightarrow> None | Some ph1 \<Rightarrow> conn_talks ph1 ss)"

definition said_states :: "internal_command list \<Rightarrow> transport_state list" where
  "said_states cs = List.map_filter (\<lambda>c. case c of TransportEv (TeState s) \<Rightarrow> Some s | _ \<Rightarrow> None) cs"

fun phase_of :: "conn_state \<Rightarrow> conn_phase" where
  "phase_of StNew = PhNew"
| "phase_of (StConnecting _) = PhConnecting"
| "phase_of StConnected = PhConnected"
| "phase_of (StReconnecting _) = PhReconnecting"
| "phase_of _ = PhEnded"

lemma said_states_simps [simp]:
  "said_states [] = []" "said_states (cs @ ds) = said_states cs @ said_states ds"
  "said_states (TransportEv (TeState s) # cs) = s # said_states cs"
  "said_states (TransportEv (TeRemoteTrack t e) # cs) = said_states cs" "said_states (TransportEv (TeLocalTrack t f) # cs) = said_states cs"
  "said_states (TransportEv (TeEgressBitrateEstimate b) # cs) = said_states cs" "said_states (TransportRpcReq n q # cs) = said_states cs"
  "said_states (Str0mKeyframe m # cs) = said_states cs" "said_states (Str0mLimitBitrate m b1 # cs) = said_states cs"
  "said_states (Str0mSendMedia m pkt # cs) = said_states cs" "said_states (Str0mBwe x y # cs) = said_states cs"
  "said_states (Str0mResetBwe x # cs) = said_states cs" "said_states (Str0mSendData ch ev # cs) = said_states cs"
  "said_states (SetRemoteSdp i sdp # cs) = said_states cs"
  by (simp_all add: said_states_def List.map_filter_def)

lemma conn_talks_append: "conn_talks ph (ss @ ts) = (case conn_talks ph ss of None \<Rightarrow> None | Some ph1 \<Rightarrow> conn_talks ph1 ts)"
  by (induction ss arbitrary: ph) (auto split: option.split)

lemma conn_ended: "conn_talk ph (TsDisconnected e) = Some PhEnded"
  by (cases ph) simp_all

lemma conn_tick_talks: "conn_tick remote now st = (st1, cs) \<Longrightarrow> conn_talks (phase_of st) (said_states cs) = Some (phase_of st1)"
  by (cases st) (auto simp: conn_tick_def split: if_splits)

lemma conn_ice_talks: "conn_ice remote now ice st = (st1, cs) \<Longrightarrow> conn_talks (phase_of st) (said_states cs) = Some (phase_of st1)"
  by (cases st) (auto simp: conn_ice_def split: if_splits)

lemma conn_shutdown_talks: "conn_shutdown st = (st1, cs) \<Longrightarrow> conn_talks (phase_of st) (said_states cs) = Some (phase_of st1)"
  by (auto simp: conn_shutdown_def conn_ended split: if_splits)

lemmas conn_talks_rules = conn_tick_talks conn_ice_talks conn_shutdown_talks

text \<open>The runs of a session: calls that respect the contract \<open>pre\<close> of the session, with the commands taken from it so far.\<close>

inductive session_reach :: "('c \<Rightarrow> 's \<Rightarrow> (internal_command option \<times> 's) res) \<Rightarrow> ('c \<Rightarrow> 's \<Rightarrow> bool) \<Rightarrow> 's \<Rightarrow> internal_command list \<Rightarrow> 's \<Rightarrow> bool"
  for call pre s0 where
  reach_start: "session_reach call pre s0 [] s0"
| reach_next: "session_reach call pre s0 said s \<Longrightarrow> pre c s \<Longrightarrow> call c s = Inr (out, s1) \<Longrightarrow>
    session_reach call pre s0 (said @ (case out of None \<Rightarrow> [] | Some x \<Rightarrow> [x])) s1"

text \<open>What every session promises the endpoint it belongs to (the trait \<open>TransportWebrtcInternal\<close> of \<open>transport.rs\<close>): legal calls do not panic, and
  everything said, taken or still queued, agrees with the state and announces the connection in order.\<close>

locale webrtc_session =
  fixes call :: "'c \<Rightarrow> 's \<Rightarrow> (internal_command option \<times> 's) res" and pre :: "'c \<Rightarrow> 's \<Rightarrow> bool"
    and queue :: "'s \<Rightarrow> internal_command list" and state :: "'s \<Rightarrow> conn_state" and ok :: "internal_command list \<Rightarrow> 's \<Rightarrow> bool"
  assumes call_total: "pre c s \<Longrightarrow> \<exists>out s1. call c s = Inr (out, s1)"
    and call_ok: "ok (said @ queue s) s \<Longrightarrow> pre c s \<Longrightarrow> call c s = Inr (out, s1) \<Longrightarrow>
      ok (said @ (case out of None \<Rightarrow> [] | Some x \<Rightarrow> [x]) @ queue s1) s1"
    and ok_states: "ok log s \<Longrightarrow> conn_talks PhNew (said_states log) = Some (phase_of (state s))"
begin

lemma run_ok: "session_reach call pre s0 said s \<Longrightarrow> ok (queue s0) s0 \<Longrightarrow> ok (said @ queue s) s"
proof (induction rule: session_reach.induct)
  case (reach_next said s c out s1)
  then show ?case using call_ok[of said s c out s1] by simp
qed simp

lemma run_states: "session_reach call pre s0 said s \<Longrightarrow> ok (queue s0) s0 \<Longrightarrow> conn_talks PhNew (said_states (said @ queue s)) = Some (phase_of (state s))"
  by (rule ok_states[OF run_ok])

lemma run_goes_on: "session_reach call pre s0 said s \<Longrightarrow> pre c s \<Longrightarrow> \<exists>out s1. call c s = Inr (out, s1) \<and>
    session_reach call pre s0 (said @ (case out of None \<Rightarrow> [] | Some x \<Rightarrow> [x])) s1"
  using call_total reach_next by metis

end

section \<open>The estimate\<close>

text \<open>While no video is sent the estimate is zero; it is passed on unchanged only when video has been sent for the warm-up, and
  during the warm-up it is never below the minimum.\<close>

lemma bwe_active_after_warm_up:
  "bwe_on_tick now (WarmUp t0 seen r) = (BweActive seen, out) \<Longrightarrow> \<not> r \<and> now - t0 \<ge> WARM_UP_MS \<and> now - seen < TIMEOUT_MS"
  by (auto simp: bwe_on_tick_def split: if_splits)

lemma bwe_floor: "bwe_on_send_video now st \<noteq> BweActive now \<Longrightarrow> WARM_UP_BWE_BPS \<le> filter_bwe b (bwe_on_send_video now st)"
  by (cases st) (simp_all add: bwe_on_send_video_def filter_bwe_def)

lemma bwe_stops: "st \<noteq> BweInactive \<Longrightarrow> bwe_on_tick now st = (st1, out) \<Longrightarrow> (\<forall>t0 seen. st \<noteq> WarmUp t0 seen True) \<Longrightarrow>
    (case st of WarmUp t0 seen r \<Rightarrow> seen + TIMEOUT_MS \<le> now | BweActive seen \<Rightarrow> seen + TIMEOUT_MS \<le> now | _ \<Rightarrow> False) \<Longrightarrow> st1 = BweInactive \<and> out = Some 0"
  by (cases st) (auto simp: bwe_on_tick_def split: if_splits)

section \<open>The port\<close>

definition sp_inv :: "'t shared_udp_port \<Rightarrow> bool" where
  "sp_inv p \<longleftrightarrow> im_wf (sp_task_remotes p) \<and> im_wf (sp_task_remotes_map p) \<and> im_wf (sp_task_ufrags p) \<and> im_wf (sp_task_ufrags_reverse p) \<and>
     (\<forall>r t. im_get (sp_task_remotes p) r = Some t \<longleftrightarrow> (\<exists>rs. im_get (sp_task_remotes_map p) t = Some rs \<and> r \<in> set rs)) \<and>
     (\<forall>t rs. im_get (sp_task_remotes_map p) t = Some rs \<longrightarrow> im_get (sp_task_ufrags_reverse p) t \<noteq> None) \<and>
     (\<forall>u t. im_get (sp_task_ufrags p) u = Some t \<longleftrightarrow> im_get (sp_task_ufrags_reverse p) t = Some u)"

lemma fold_remove:
  assumes "im_wf m"
  shows "im_wf (fold (\<lambda>r m. im_swap_remove m r) rs m) \<and> im_get (fold (\<lambda>r m. im_swap_remove m r) rs m) k = (if k \<in> set rs then None else im_get m k)"
  using assms by (induction rs arbitrary: m) simp_all

lemma sp_default_inv: "sp_inv sp_default"
  by (simp add: sp_inv_def sp_default_def)

lemma add_ufrag_inv:
  assumes "sp_inv p" "im_get (sp_task_ufrags p) u = None" "im_get (sp_task_ufrags_reverse p) t = None"
  shows "sp_inv (add_ufrag u t p)"
  using assms by (auto simp: sp_inv_def add_ufrag_def) (metis option.distinct(1))+

lemma map_remote_inv: "sp_inv p \<Longrightarrow> sp_inv (snd (map_remote su r buf p))"
proof -
  assume p: "sp_inv p"
  show ?thesis
  proof (cases "im_get (sp_task_remotes p) r = None \<and> (\<exists>name t. su buf = Some name \<and> im_get (sp_task_ufrags p) name = Some t)")
    case True
    then obtain name t where n: "im_get (sp_task_remotes p) r = None" "su buf = Some name" "im_get (sp_task_ufrags p) name = Some t" by blast
    define rs where "rs = (case im_get (sp_task_remotes_map p) t of None \<Rightarrow> [] | Some rs \<Rightarrow> rs)"
    have p1: "snd (map_remote su r buf p) = p\<lparr>sp_task_remotes := im_insert (sp_task_remotes p) r t, sp_task_remotes_map := im_insert (sp_task_remotes_map p) t (rs @ [r])\<rparr>"
      using n by (simp add: map_remote_def rs_def)
    have rs: "im_get (sp_task_remotes p) r1 = Some t \<longleftrightarrow> r1 \<in> set rs" for r1
    proof -
      have "im_get (sp_task_remotes p) r1 = Some t \<longleftrightarrow> (\<exists>rs. im_get (sp_task_remotes_map p) t = Some rs \<and> r1 \<in> set rs)" using p by (simp add: sp_inv_def)
      then show ?thesis by (cases "im_get (sp_task_remotes_map p) t") (simp_all add: rs_def)
    qed
    have "im_get (sp_task_ufrags_reverse p) t = Some name" using p n(3) by (simp add: sp_inv_def)
    moreover have "r \<notin> set rs1" if "im_get (sp_task_remotes_map p) t1 = Some rs1" for t1 rs1
    proof
      assume "r \<in> set rs1"
      then have "im_get (sp_task_remotes p) r = Some t1" using p that by (simp add: sp_inv_def)
      then show False using n(1) by simp
    qed
    ultimately show ?thesis using p n(1) rs unfolding p1 by (auto simp: sp_inv_def)
  next
    case False
    then have "snd (map_remote su r buf p) = p" by (auto simp: map_remote_def split: option.split)
    then show ?thesis using p by simp
  qed
qed

lemma remove_task_remotes:
  assumes p: "sp_inv p" and live: "im_get (sp_task_ufrags_reverse p) t = Some u"
  shows "im_get (sp_task_remotes (sp_remove_task t p)) = (\<lambda>r. if im_get (sp_task_remotes p) r = Some t then None else im_get (sp_task_remotes p) r)"
    "im_get (sp_task_ufrags (sp_remove_task t p)) = (im_get (sp_task_ufrags p))(u := None)"
    "im_get (sp_task_ufrags_reverse (sp_remove_task t p)) = (im_get (sp_task_ufrags_reverse p))(t := None)"
    "im_get (sp_task_remotes_map (sp_remove_task t p)) = (im_get (sp_task_remotes_map p))(t := None)"
    "im_wf (sp_task_remotes (sp_remove_task t p))" "im_wf (sp_task_ufrags (sp_remove_task t p))" "im_wf (sp_task_ufrags_reverse (sp_remove_task t p))"
    "im_wf (sp_task_remotes_map (sp_remove_task t p))"
proof -
  have u: "im_get (sp_task_ufrags p) u = Some t" and wf: "im_wf (sp_task_remotes p)" "im_wf (sp_task_remotes_map p)" "im_wf (sp_task_ufrags p)"
      "im_wf (sp_task_ufrags_reverse p)"
    and bound: "\<And>r t. im_get (sp_task_remotes p) r = Some t \<longleftrightarrow> (\<exists>rs. im_get (sp_task_remotes_map p) t = Some rs \<and> r \<in> set rs)"
    using p live by (simp_all add: sp_inv_def)
  note base = live u wf
  show "im_get (sp_task_ufrags (sp_remove_task t p)) = (im_get (sp_task_ufrags p))(u := None)"
    "im_get (sp_task_ufrags_reverse (sp_remove_task t p)) = (im_get (sp_task_ufrags_reverse p))(t := None)"
    "im_wf (sp_task_ufrags (sp_remove_task t p))" "im_wf (sp_task_ufrags_reverse (sp_remove_task t p))"
    using base by (simp_all add: sp_remove_task_def Let_def split: option.split)
  show "im_get (sp_task_remotes (sp_remove_task t p)) = (\<lambda>r. if im_get (sp_task_remotes p) r = Some t then None else im_get (sp_task_remotes p) r)"
    "im_get (sp_task_remotes_map (sp_remove_task t p)) = (im_get (sp_task_remotes_map p))(t := None)"
    "im_wf (sp_task_remotes (sp_remove_task t p))" "im_wf (sp_task_remotes_map (sp_remove_task t p))"
    using base bound[of _ t] fold_remove[OF wf(1)] by (auto simp: sp_remove_task_def Let_def fun_eq_iff split: option.split)
qed

lemma remove_task_inv: "sp_inv p \<Longrightarrow> sp_inv (sp_remove_task t p)"
proof (cases "im_get (sp_task_ufrags_reverse p) t")
  case None
  assume "sp_inv p"
  then show ?thesis using None by (simp add: sp_remove_task_def)
next
  case (Some u)
  assume p: "sp_inv p"
  have bound: "\<And>r t1. im_get (sp_task_remotes p) r = Some t1 \<longleftrightarrow> (\<exists>rs. im_get (sp_task_remotes_map p) t1 = Some rs \<and> r \<in> set rs)"
    and live: "\<And>t1 rs. im_get (sp_task_remotes_map p) t1 = Some rs \<Longrightarrow> im_get (sp_task_ufrags_reverse p) t1 \<noteq> None"
    and name: "\<And>u t1. im_get (sp_task_ufrags p) u = Some t1 \<longleftrightarrow> im_get (sp_task_ufrags_reverse p) t1 = Some u"
    using p by (auto simp: sp_inv_def)
  have "(if im_get (sp_task_remotes p) r = Some t then None else im_get (sp_task_remotes p) r) = Some t1 \<longleftrightarrow>
      (\<exists>rs. ((im_get (sp_task_remotes_map p))(t := None)) t1 = Some rs \<and> r \<in> set rs)" for r t1
    using bound[of r t1] by (cases "t1 = t") auto
  moreover have "((im_get (sp_task_ufrags p))(u := None)) v = Some t1 \<longleftrightarrow> ((im_get (sp_task_ufrags_reverse p))(t := None)) t1 = Some v" for v t1
    using name[of v t1] name[of u t] Some by (cases "v = u"; cases "t1 = t") auto
  moreover have "((im_get (sp_task_ufrags_reverse p))(t := None)) t1 \<noteq> None" if "((im_get (sp_task_remotes_map p))(t := None)) t1 = Some rs" for t1 rs
    using live[of t1 rs] that by (cases "t1 = t") auto
  ultimately show ?thesis unfolding sp_inv_def remove_task_remotes(1-4)[OF p Some] using remove_task_remotes(5-8)[OF p Some] by blast
qed

text \<open>The runs of a port: sessions are added with a name of their own, packets arrive, sessions are removed.\<close>

inductive sp_reach :: "(nat list \<Rightarrow> string option) \<Rightarrow> 't shared_udp_port \<Rightarrow> bool" for su where
  sp_start: "sp_reach su sp_default"
| sp_add: "sp_reach su p \<Longrightarrow> im_get (sp_task_ufrags p) u = None \<Longrightarrow> im_get (sp_task_ufrags_reverse p) t = None \<Longrightarrow> sp_reach su (add_ufrag u t p)"
| sp_packet: "sp_reach su p \<Longrightarrow> sp_reach su (snd (map_remote su r buf p))"
| sp_remove: "sp_reach su p \<Longrightarrow> sp_reach su (sp_remove_task t p)"

lemma sp_reach_inv: "sp_reach su p \<Longrightarrow> sp_inv p"
  by (induction rule: sp_reach.induct) (simp_all add: sp_default_inv add_ufrag_inv map_remote_inv remove_task_inv)

text \<open>C35: packets find their session, and a session that is gone gets none. On every reachable port, a packet from an address that
  was bound to a session goes to that session whatever it contains; a packet from another address binds it exactly to the
  session whose name it carries; and after a session is removed no address leads to it, while the other addresses stay bound
  as they were.\<close>

theorem port_routes_to_session:
  assumes "sp_reach su p"
  shows "fst (map_remote su r buf p) = (case im_get (sp_task_remotes p) r of Some t \<Rightarrow> Some t | None \<Rightarrow> Option.bind (su buf) (im_get (sp_task_ufrags p))) \<and>
    (fst (map_remote su r buf p) = Some t \<longrightarrow> fst (map_remote su r buf1 (snd (map_remote su r buf p))) = Some t) \<and>
    fst (map_remote su r buf (sp_remove_task t p)) \<noteq> Some t \<and>
    im_get (sp_task_remotes (sp_remove_task t p)) r = (if im_get (sp_task_remotes p) r = Some t then None else im_get (sp_task_remotes p) r)"
proof -
  have inv: "sp_inv p" using sp_reach_inv[OF assms] .
  have 1: "fst (map_remote su r buf p) = (case im_get (sp_task_remotes p) r of Some t \<Rightarrow> Some t | None \<Rightarrow> Option.bind (su buf) (im_get (sp_task_ufrags p)))"
    by (simp add: map_remote_def split: option.split)
  have 2: "fst (map_remote su r buf p) = Some t \<longrightarrow> fst (map_remote su r buf1 (snd (map_remote su r buf p))) = Some t"
    by (auto simp: map_remote_def split: option.splits)
  have dead: "im_get (sp_task_remotes p) r \<noteq> Some t" "im_get (sp_task_ufrags p) v \<noteq> Some t" if "im_get (sp_task_ufrags_reverse p) t = None" for v
    using inv that unfolding sp_inv_def by (metis option.distinct(1))+
  have 4: "im_get (sp_task_remotes (sp_remove_task t p)) r = (if im_get (sp_task_remotes p) r = Some t then None else im_get (sp_task_remotes p) r)"
  proof (cases "im_get (sp_task_ufrags_reverse p) t")
    case None
    then show ?thesis using dead(1) by (simp add: sp_remove_task_def)
  next
    case (Some u)
    then show ?thesis using remove_task_remotes(1)[OF inv Some] by simp
  qed
  have "im_get (sp_task_ufrags (sp_remove_task t p)) v \<noteq> Some t" for v
  proof (cases "im_get (sp_task_ufrags_reverse p) t")
    case None
    then show ?thesis using dead(2) by (simp add: sp_remove_task_def)
  next
    case (Some u)
    then show ?thesis using remove_task_remotes(2)[OF inv Some] inv by (auto simp: sp_inv_def)
  qed
  then have "fst (map_remote su r buf (sp_remove_task t p)) \<noteq> Some t"
    using 4 by (auto simp: map_remote_def split: option.split if_splits)
  then show ?thesis using 1 2 4 by blast
qed

definition demo_stun :: "nat list \<Rightarrow> string option" where
  "demo_stun buf = (if buf = [1] then Some ''abcd'' else None)"

definition demo_port :: "nat shared_udp_port" where
  "demo_port = snd (map_remote demo_stun ''10.0.0.9:4000'' [1] (add_ufrag ''abcd'' 7 sp_default))"

theorem port_routes_to_session_witness:
  "fst (map_remote demo_stun ''10.0.0.9:4000'' [2, 3] demo_port) = Some 7 \<and>
   fst (map_remote demo_stun ''10.0.0.9:4000'' [1] (sp_remove_task 7 demo_port)) \<noteq> Some 7"
proof -
  have reach: "sp_reach demo_stun demo_port" unfolding demo_port_def
    by (intro sp_packet sp_add sp_start) (simp_all add: sp_default_def)
  have "im_get (sp_task_remotes demo_port) ''10.0.0.9:4000'' = Some 7" by code_simp
  then show ?thesis using port_routes_to_session[OF reach, of "''10.0.0.9:4000''" "[2, 3]" 7 "[]"] port_routes_to_session[OF reach, of "''10.0.0.9:4000''" "[1]" 7 "[]"]
    by simp
qed

end
