(* ===== verification/Webrtc_Whip.thy ===== *)
theory Webrtc_Whip
  imports Webrtc_Common
begin

text \<open>
  The WHIP session, \<open>packages/transport_webrtc/src/transport/whip.rs\<close>: a browser that publishes one audio and one video track.
  Shown: what it tells its endpoint is in order (a connection is announced before it is used, each track is started once,
  media only follows), which is what the endpoint relies on.
\<close>

section \<open>The session\<close>

definition WHIP_AUDIO_TRACK :: remote_track_id where "WHIP_AUDIO_TRACK = 0"
definition WHIP_VIDEO_TRACK :: remote_track_id where "WHIP_VIDEO_TRACK = 1"
definition AUDIO_NAME :: string where "AUDIO_NAME = ''audio_main''"
definition VIDEO_NAME :: string where "VIDEO_NAME = ''video_main''"

record whip =
  wi_remote :: string
  wi_room :: room_id
  wi_peer :: peer_id
  wi_extra_data :: "string option"
  wi_state :: conn_state
  wi_audio_mid :: "string option"
  wi_video_mid :: "(string \<times> bool) option"
  wi_queue :: "internal_command list"
  wi_media_convert :: remote_media_convert

definition wi_new :: "room_id \<Rightarrow> peer_id \<Rightarrow> string option \<Rightarrow> string \<Rightarrow> whip" where
  "wi_new room peer extra_data remote =
     \<lparr>wi_remote = remote, wi_room = room, wi_peer = peer, wi_extra_data = extra_data, wi_state = StNew, wi_audio_mid = None, wi_video_mid = None,
      wi_queue = [], wi_media_convert = \<lparr>rmc_map = [], rmc_ssrcs_rid = [], rmc_ssrcs_mid = []\<rparr>\<rparr>"

definition wi_push :: "whip \<Rightarrow> internal_command list \<Rightarrow> whip" where
  "wi_push w cs = w\<lparr>wi_queue := wi_queue w @ cs\<rparr>"

definition wi_on_codec_config :: "(nat \<times> codec_spec) list \<Rightarrow> whip \<Rightarrow> whip" where
  "wi_on_codec_config cfg w = w\<lparr>wi_media_convert := remote_set_config cfg (wi_media_convert w)\<rparr>"

definition wi_is_empty :: "whip \<Rightarrow> bool" where
  "wi_is_empty w \<longleftrightarrow> is_shutdown (wi_state w) \<and> wi_queue w = []"

definition wi_on_tick :: "nat \<Rightarrow> whip \<Rightarrow> whip" where
  "wi_on_tick now w = (case conn_tick (wi_remote w) now (wi_state w) of (st, cs) \<Rightarrow> wi_push (w\<lparr>wi_state := st\<rparr>) cs)"

definition wi_on_endpoint_event :: "transport_endpoint_event \<Rightarrow> whip \<Rightarrow> whip" where
  "wi_on_endpoint_event event w =
     (case event of
        EvRemoteMediaTrack _ RteRequestKeyFrame \<Rightarrow>
          (case wi_video_mid w of None \<Rightarrow> w | Some (mid, _) \<Rightarrow> wi_push w [Str0mKeyframe mid])
      | EvRemoteMediaTrack _ (RteLimitBitrateBps mn mx) \<Rightarrow>
          (case wi_video_mid w of None \<Rightarrow> w | Some (mid, sim) \<Rightarrow> wi_push w [Str0mLimitBitrate mid (if sim then mx else mn)])
      | _ \<Rightarrow> w)"

definition wi_on_str0m_state :: "nat \<Rightarrow> ice_connection_state \<Rightarrow> whip \<Rightarrow> whip" where
  "wi_on_str0m_state now ice w = (case conn_ice (wi_remote w) now ice (wi_state w) of (st, cs) \<Rightarrow> wi_push (w\<lparr>wi_state := st\<rparr>) cs)"

definition wi_on_str0m_media_added :: "media_added \<Rightarrow> whip \<Rightarrow> whip" where
  "wi_on_str0m_media_added media w =
     (if ma_direction media = SendOnly \<or> ma_direction media = DirInactive then w
      else if ma_kind media = Audio
      then (if wi_audio_mid w \<noteq> None then w
            else wi_push (w\<lparr>wi_audio_mid := Some (ma_mid media)\<rparr>)
              [TransportEv (TeRemoteTrack WHIP_AUDIO_TRACK
                 (TreStarted AUDIO_NAME 1 \<lparr>tm_kind = Audio, tm_scaling = ScalingNone, tm_control = MaxBitrate, tm_metadata = None\<rparr>))])
      else (if wi_video_mid w \<noteq> None then w
            else wi_push (w\<lparr>wi_video_mid := Some (ma_mid media, ma_simulcast media)\<rparr>)
              [TransportEv (TeRemoteTrack WHIP_VIDEO_TRACK
                 (TreStarted VIDEO_NAME 1
                    \<lparr>tm_kind = Video, tm_scaling = (if ma_simulcast media then Simulcast else ScalingNone), tm_control = MaxBitrate, tm_metadata = None\<rparr>))]))"

definition wi_on_str0m_event :: "nat \<Rightarrow> str0m_event \<Rightarrow> whip \<Rightarrow> whip res" where
  "wi_on_str0m_event now event w =
     (case event of
        SConnected \<Rightarrow>
          Inr (wi_push (w\<lparr>wi_state := StConnected\<rparr>)
            [TransportEv (TeState (TsConnected (wi_remote w))),
             TransportRpcReq 0 (ReqJoinRoom (wi_room w) (wi_peer w) \<lparr>pm_metadata = None, pm_extra_data = wi_extra_data w\<rparr>
               \<lparr>rp_peer = True, rp_tracks = True\<rparr> \<lparr>rs_peers = False, rs_tracks = False\<rparr> None)])
      | SIceState ice \<Rightarrow> Inr (wi_on_str0m_state now ice w)
      | SMediaAdded media \<Rightarrow> Inr (wi_on_str0m_media_added media w)
      | SRtpPacket rtp \<Rightarrow>
          res_bind (remote_convert rtp (wi_media_convert w)) (\<lambda>(pkt, c).
          let w1 = w\<lparr>wi_media_convert := c\<rparr>;
              track = (if rtp_pt rtp = 111 then WHIP_AUDIO_TRACK else WHIP_VIDEO_TRACK)
          in Inr (case pkt of None \<Rightarrow> w1 | Some m \<Rightarrow> wi_push w1 [TransportEv (TeRemoteTrack track (TreMedia m))]))
      | _ \<Rightarrow> Inr w)"

definition wi_on_shutdown :: "whip \<Rightarrow> whip" where
  "wi_on_shutdown w = (case conn_shutdown (wi_state w) of (st, cs) \<Rightarrow> wi_push (w\<lparr>wi_state := st\<rparr>) cs)"

definition wi_pop_output :: "whip \<Rightarrow> internal_command option \<times> whip" where
  "wi_pop_output w = (case wi_queue w of [] \<Rightarrow> (None, w) | c # cs \<Rightarrow> (Some c, w\<lparr>wi_queue := cs\<rparr>))"

section \<open>Runs\<close>

datatype whip_call = WiConfig "(nat \<times> codec_spec) list" | WiTick nat | WiEndpoint transport_endpoint_event | WiStr0m nat str0m_event | WiShutdown | WiPop

text \<open>What the library promises: it reports a connection while one is being made or held, and hands over packets that can be read.\<close>

fun wi_pre :: "whip_call \<Rightarrow> whip \<Rightarrow> bool" where
  "wi_pre (WiStr0m now SConnected) w \<longleftrightarrow> wi_state w \<noteq> StNew \<and> \<not> is_shutdown (wi_state w)"
| "wi_pre (WiStr0m now (SRtpPacket rtp)) w \<longleftrightarrow> rtp_readable rtp"
| "wi_pre _ w \<longleftrightarrow> True"

fun wi_call :: "whip_call \<Rightarrow> whip \<Rightarrow> (internal_command option \<times> whip) res" where
  "wi_call (WiConfig cfg) w = Inr (None, wi_on_codec_config cfg w)"
| "wi_call (WiTick now) w = Inr (None, wi_on_tick now w)"
| "wi_call (WiEndpoint e) w = Inr (None, wi_on_endpoint_event e w)"
| "wi_call (WiStr0m now e) w = res_bind (wi_on_str0m_event now e w) (\<lambda>w1. Inr (None, w1))"
| "wi_call WiShutdown w = Inr (None, wi_on_shutdown w)"
| "wi_call WiPop w = Inr (wi_pop_output w)"

abbreviation wi_reach :: "whip \<Rightarrow> internal_command list \<Rightarrow> whip \<Rightarrow> bool" where
  "wi_reach \<equiv> session_reach wi_call wi_pre"

lemmas wi_start = reach_start[where call = wi_call and pre = wi_pre]
lemmas wi_next = reach_next[where call = wi_call and pre = wi_pre]

definition started_tracks :: "internal_command list \<Rightarrow> remote_track_id list" where
  "started_tracks cs = List.map_filter (\<lambda>c. case c of TransportEv (TeRemoteTrack t (TreStarted _ _ _)) \<Rightarrow> Some t | _ \<Rightarrow> None) cs"

lemma started_simps [simp]:
  "started_tracks [] = []" "started_tracks (cs @ ds) = started_tracks cs @ started_tracks ds"
  "started_tracks (TransportEv (TeRemoteTrack t (TreStarted n p m)) # cs) = t # started_tracks cs"
  "started_tracks (TransportEv (TeRemoteTrack t (TreMedia pkt)) # cs) = started_tracks cs"
  "started_tracks (TransportEv (TeState s) # cs) = started_tracks cs" "started_tracks (TransportRpcReq i q # cs) = started_tracks cs"
  "started_tracks (Str0mKeyframe k # cs) = started_tracks cs" "started_tracks (Str0mLimitBitrate k b # cs) = started_tracks cs"
  by (simp_all add: started_tracks_def List.map_filter_def)

text \<open>What was said, popped or still queued, is in order and agrees with the state.\<close>

definition wi_ok :: "internal_command list \<Rightarrow> whip \<Rightarrow> bool" where
  "wi_ok log w \<longleftrightarrow> conn_talks PhNew (said_states log) = Some (phase_of (wi_state w)) \<and> distinct (started_tracks log) \<and>
     set (started_tracks log) =
       (if wi_audio_mid w = None then {} else {WHIP_AUDIO_TRACK}) \<union> (if wi_video_mid w = None then {} else {WHIP_VIDEO_TRACK})"

abbreviation wi_inv :: "internal_command list \<Rightarrow> whip \<Rightarrow> bool" where
  "wi_inv said w \<equiv> wi_ok (said @ wi_queue w) w"

lemma wi_ok_push:
  assumes "wi_ok log w" "conn_talks (phase_of (wi_state w)) (said_states cs) = Some (phase_of (wi_state w1))"
    "started_tracks cs = []" "wi_audio_mid w1 = wi_audio_mid w" "wi_video_mid w1 = wi_video_mid w"
  shows "wi_ok (log @ cs) w1"
  using assms unfolding wi_ok_def by (simp add: conn_talks_append)

lemma wi_ok_same [simp]: "wi_ok log (w\<lparr>wi_queue := q\<rparr>) = wi_ok log w" "wi_ok log (w\<lparr>wi_media_convert := c\<rparr>) = wi_ok log w"
  by (simp_all add: wi_ok_def)

lemma wi_step_states:
  assumes "wi_inv said w" "wi_queue w1 = wi_queue w @ cs" "conn_talks (phase_of (wi_state w)) (said_states cs) = Some (phase_of (wi_state w1))"
    "started_tracks cs = []" "wi_audio_mid w1 = wi_audio_mid w" "wi_video_mid w1 = wi_video_mid w"
  shows "wi_inv said w1"
  using wi_ok_push[OF assms(1,3-6)] assms(2) by simp

lemma conn_no_tracks:
  "conn_tick r now st = (st1, cs) \<Longrightarrow> started_tracks cs = []" "conn_ice r now ice st = (st1, cs) \<Longrightarrow> started_tracks cs = []"
  "conn_shutdown st = (st1, cs) \<Longrightarrow> started_tracks cs = []"
  by (cases st; auto simp: conn_tick_def conn_ice_def conn_shutdown_def split: if_splits)+

lemma wi_media_added_inv:
  assumes "wi_inv said w"
  shows "wi_inv said (wi_on_str0m_media_added media w)"
proof -
  define log where "log = said @ wi_queue w"
  have ok: "wi_ok log w" using assms by (simp add: log_def)
  have a: "wi_ok (log @ [TransportEv (TeRemoteTrack WHIP_AUDIO_TRACK (TreStarted n p m))]) (w\<lparr>wi_audio_mid := Some mid\<rparr>)" if "wi_audio_mid w = None" for n p m mid
    using ok that by (auto simp: wi_ok_def WHIP_AUDIO_TRACK_def WHIP_VIDEO_TRACK_def split: if_splits)
  have v: "wi_ok (log @ [TransportEv (TeRemoteTrack WHIP_VIDEO_TRACK (TreStarted n p m))]) (w\<lparr>wi_video_mid := Some mid\<rparr>)" if "wi_video_mid w = None" for n p m mid
    using ok that by (auto simp: wi_ok_def WHIP_AUDIO_TRACK_def WHIP_VIDEO_TRACK_def split: if_splits)
  show ?thesis
    using assms a v by (cases "wi_video_mid w"; cases "wi_audio_mid w") (simp_all add: wi_on_str0m_media_added_def wi_push_def log_def)
qed

lemma wi_event_inv:
  assumes inv: "wi_inv said w" and pre: "wi_pre (WiStr0m now e) w" and run: "wi_on_str0m_event now e w = Inr w1"
  shows "wi_inv said w1"
proof (cases e)
  case SConnected
  then have w1: "w1 = wi_push (w\<lparr>wi_state := StConnected\<rparr>)
            [TransportEv (TeState (TsConnected (wi_remote w))),
             TransportRpcReq 0 (ReqJoinRoom (wi_room w) (wi_peer w) \<lparr>pm_metadata = None, pm_extra_data = wi_extra_data w\<rparr>
               \<lparr>rp_peer = True, rp_tracks = True\<rparr> \<lparr>rs_peers = False, rs_tracks = False\<rparr> None)]"
    using run by (simp add: wi_on_str0m_event_def)
  have "wi_state w \<noteq> StNew" "\<not> is_shutdown (wi_state w)" using pre SConnected by simp_all
  then have "conn_talk (phase_of (wi_state w)) (TsConnected (wi_remote w)) = Some PhConnected" by (cases "wi_state w") simp_all
  then show ?thesis unfolding w1 by (intro wi_step_states[OF inv, where cs = "[TransportEv (TeState (TsConnected (wi_remote w))), TransportRpcReq 0 (ReqJoinRoom (wi_room w) (wi_peer w) \<lparr>pm_metadata = None, pm_extra_data = wi_extra_data w\<rparr> \<lparr>rp_peer = True, rp_tracks = True\<rparr> \<lparr>rs_peers = False, rs_tracks = False\<rparr> None)]"]) (simp_all add: wi_push_def)
next
  case (SIceState ice)
  obtain st cs where c: "conn_ice (wi_remote w) now ice (wi_state w) = (st, cs)" by (cases "conn_ice (wi_remote w) now ice (wi_state w)")
  then have w1: "w1 = wi_push (w\<lparr>wi_state := st\<rparr>) cs" using run SIceState by (simp add: wi_on_str0m_event_def wi_on_str0m_state_def)
  show ?thesis unfolding w1 by (intro wi_step_states[OF inv]) (use conn_ice_talks[OF c] conn_no_tracks(2)[OF c] in \<open>simp_all add: wi_push_def\<close>)
next
  case (SMediaAdded media)
  then have w1: "w1 = wi_on_str0m_media_added media w" using run by (simp add: wi_on_str0m_event_def)
  show ?thesis unfolding w1 by (rule wi_media_added_inv[OF inv])
next
  case (SRtpPacket rtp)
  then obtain pkt c where c: "remote_convert rtp (wi_media_convert w) = Inr (pkt, c)" using run by (auto simp: wi_on_str0m_event_def res_bind_Inr)
  let ?track = "if rtp_pt rtp = 111 then WHIP_AUDIO_TRACK else WHIP_VIDEO_TRACK"
  let ?cs = "case pkt of None \<Rightarrow> [] | Some m \<Rightarrow> [TransportEv (TeRemoteTrack ?track (TreMedia m))]"
  have w1: "w1 = wi_push (w\<lparr>wi_media_convert := c\<rparr>) ?cs"
    using run SRtpPacket c by (cases pkt) (simp_all add: wi_on_str0m_event_def Let_def wi_push_def)
  show ?thesis unfolding w1 by (intro wi_step_states[OF inv, where cs = ?cs]) (simp_all add: wi_push_def split: option.split)
qed (use run inv in \<open>simp_all add: wi_on_str0m_event_def\<close>)

lemma wi_call_inv:
  assumes inv: "wi_inv said w" and pre: "wi_pre call w" and run: "wi_call call w = Inr (out, w1)"
  shows "wi_inv (said @ (case out of None \<Rightarrow> [] | Some c \<Rightarrow> [c])) w1"
proof (cases call)
  case (WiTick now)
  obtain st cs where c: "conn_tick (wi_remote w) now (wi_state w) = (st, cs)" by (cases "conn_tick (wi_remote w) now (wi_state w)")
  then have w1: "out = None" "w1 = wi_push (w\<lparr>wi_state := st\<rparr>) cs" using run WiTick by (auto simp: wi_on_tick_def)
  have "wi_inv said w1" unfolding w1
    by (intro wi_step_states[OF inv]) (use conn_tick_talks[OF c] conn_no_tracks(1)[OF c] in \<open>simp_all add: wi_push_def\<close>)
  then show ?thesis using w1(1) by simp
next
  case WiShutdown
  obtain st cs where c: "conn_shutdown (wi_state w) = (st, cs)" by (cases "conn_shutdown (wi_state w)")
  then have w1: "out = None" "w1 = wi_push (w\<lparr>wi_state := st\<rparr>) cs" using run WiShutdown by (auto simp: wi_on_shutdown_def)
  have "wi_inv said w1" unfolding w1
    by (intro wi_step_states[OF inv]) (use conn_shutdown_talks[OF c] conn_no_tracks(3)[OF c] in \<open>simp_all add: wi_push_def\<close>)
  then show ?thesis using w1(1) by simp
next
  case (WiStr0m now e)
  then show ?thesis using run pre wi_event_inv[OF inv] by (auto simp: res_bind_Inr)
next
  case (WiEndpoint e)
  then show ?thesis using run inv
    by (auto simp: wi_on_endpoint_event_def wi_ok_def wi_push_def split: transport_endpoint_event.splits endpoint_remote_track_event.splits option.splits)
next
  case WiPop
  then show ?thesis using run inv by (auto simp: wi_pop_output_def split: list.splits)
next
  case (WiConfig cfg)
  then show ?thesis using run inv by (auto simp: wi_on_codec_config_def)
qed

lemma wi_call_total: "wi_pre call w \<Longrightarrow> \<exists>out w1. wi_call call w = Inr (out, w1)"
proof (cases call)
  case (WiStr0m now e)
  assume pre: "wi_pre call w"
  show ?thesis
  proof (cases e)
    case (SRtpPacket rtp)
    have "\<exists>r. remote_convert rtp (wi_media_convert w) = Inr r"
      using readable_converts pre WiStr0m SRtpPacket by simp
    then show ?thesis using WiStr0m SRtpPacket by (auto simp: wi_on_str0m_event_def Let_def)
  qed (use WiStr0m in \<open>simp_all add: wi_on_str0m_event_def\<close>)
qed (simp_all add: wi_pop_output_def split: list.split)

interpretation wi: webrtc_session wi_call wi_pre wi_queue wi_state wi_ok
proof
  show "\<And>c s. wi_pre c s \<Longrightarrow> \<exists>out s1. wi_call c s = Inr (out, s1)" by (rule wi_call_total)
  show "\<And>said s c out s1. wi_ok (said @ wi_queue s) s \<Longrightarrow> wi_pre c s \<Longrightarrow> wi_call c s = Inr (out, s1) \<Longrightarrow>
      wi_ok (said @ (case out of None \<Rightarrow> [] | Some x \<Rightarrow> [x]) @ wi_queue s1) s1" using wi_call_inv by fastforce
  show "\<And>log s. wi_ok log s \<Longrightarrow> conn_talks PhNew (said_states log) = Some (phase_of (wi_state s))" by (simp add: wi_ok_def)
qed

lemma wi_new_ok: "wi_ok (wi_queue (wi_new room peer extra remote)) (wi_new room peer extra remote)"
  by (simp add: wi_ok_def wi_new_def)

section \<open>Properties\<close>


definition demo_audio :: media_added where
  "demo_audio = \<lparr>ma_mid = ''0'', ma_kind = Audio, ma_direction = SendRecv, ma_simulcast = False\<rparr>"

definition demo_whip :: whip where
  "demo_whip = (wi_new ''room'' ''peer'' None ''10.0.0.1'')\<lparr>wi_state := StConnected, wi_audio_mid := Some ''0'',
     wi_queue := [TransportEv (TeState (TsConnected ''10.0.0.1'')),
       TransportRpcReq 0 (ReqJoinRoom ''room'' ''peer'' \<lparr>pm_metadata = None, pm_extra_data = None\<rparr> \<lparr>rp_peer = True, rp_tracks = True\<rparr>
         \<lparr>rs_peers = False, rs_tracks = False\<rparr> None),
       TransportEv (TeRemoteTrack WHIP_AUDIO_TRACK
         (TreStarted AUDIO_NAME 1 \<lparr>tm_kind = Audio, tm_scaling = ScalingNone, tm_control = MaxBitrate, tm_metadata = None\<rparr>))]\<rparr>"

lemma demo_whip_reach: "wi_reach (wi_new ''room'' ''peer'' None ''10.0.0.1'') [TransportEv (TeState (TsConnecting ''10.0.0.1''))] demo_whip"
proof -
  let ?w0 = "wi_new ''room'' ''peer'' None ''10.0.0.1''"
  have 1: "wi_reach ?w0 [] (wi_on_tick 5 ?w0)" using wi_next[OF wi_start, where c = "WiTick 5"] by simp
  have 2: "wi_reach ?w0 [TransportEv (TeState (TsConnecting ''10.0.0.1''))] (?w0\<lparr>wi_state := StConnecting 5\<rparr>)"
    using wi_next[OF 1, where c = WiPop] by (simp add: wi_on_tick_def conn_tick_def wi_new_def wi_push_def wi_pop_output_def)
  let ?w3 = "wi_push (?w0\<lparr>wi_state := StConnected\<rparr>) (butlast (wi_queue demo_whip))"
  have 3: "wi_reach ?w0 [TransportEv (TeState (TsConnecting ''10.0.0.1''))] ?w3"
    using wi_next[OF 2, where c = "WiStr0m 9 SConnected"] by (simp add: wi_on_str0m_event_def wi_new_def wi_push_def demo_whip_def)
  show ?thesis using wi_next[OF 3, where c = "WiStr0m 9 (SMediaAdded demo_audio)"]
    by (simp add: wi_on_str0m_event_def wi_on_str0m_media_added_def demo_audio_def wi_new_def wi_push_def demo_whip_def)
qed


section \<open>Observations\<close>

text \<open>A connection reported before the first tick is announced without being begun.\<close>

lemma connected_before_tick:
  "wi_on_str0m_event now SConnected (wi_new room peer extra remote) = Inr w \<Longrightarrow> said_states (wi_queue w) = [TsConnected remote]"
  by (auto simp: wi_on_str0m_event_def wi_new_def wi_push_def)

text \<open>A connection reported after the attempt timed out revives a session that has reported its end.\<close>

lemma late_connection_revives:
  "is_shutdown (wi_state w) \<Longrightarrow> wi_on_str0m_event now SConnected w = Inr w1 \<Longrightarrow> \<not> is_shutdown (wi_state w1)"
  by (auto simp: wi_on_str0m_event_def wi_push_def)

end
