(* ===== verification/Webrtc_Whep.thy ===== *)
theory Webrtc_Whep
  imports Webrtc_Common
begin

text \<open>
  The WHEP session, \<open>packages/transport_webrtc/src/transport/whep.rs\<close>: a browser that watches one peer, over one audio and one
  video track. Shown: its requests to the endpoint are in order (a track is attached only after it was started and only when
  it is free, detached only when attached), and audio and video are never taken from two different peers.
\<close>

section \<open>The session\<close>

definition WHEP_AUDIO_TRACK :: local_track_id where "WHEP_AUDIO_TRACK = 0"
definition WHEP_VIDEO_TRACK :: local_track_id where "WHEP_VIDEO_TRACK = 1"
definition DEFAULT_PRIORITY :: priority where "DEFAULT_PRIORITY = 1"

record subscribe_streams =
  sub_peer :: "peer_id option"
  sub_audio :: "track_name option"
  sub_video :: "track_name option"

record whep =
  we_remote :: string
  we_room :: room_id
  we_peer :: peer_id
  we_extra_data :: "string option"
  we_state :: conn_state
  we_audio_mid :: "string option"
  we_video_mid :: "string option"
  we_subscribed :: subscribe_streams
  we_audio_waits :: "(peer_id \<times> track_name \<times> track_meta) list"
  we_video_waits :: "(peer_id \<times> track_name \<times> track_meta) list"
  we_bwe_state :: bwe_state
  we_queue :: "internal_command list"

definition we_new :: "room_id \<Rightarrow> peer_id \<Rightarrow> string option \<Rightarrow> string \<Rightarrow> whep" where
  "we_new room peer extra_data remote =
     \<lparr>we_remote = remote, we_room = room, we_peer = peer, we_extra_data = extra_data, we_state = StNew, we_audio_mid = None, we_video_mid = None,
      we_subscribed = \<lparr>sub_peer = None, sub_audio = None, sub_video = None\<rparr>, we_audio_waits = [], we_video_waits = [],
      we_bwe_state = BweInactive, we_queue = []\<rparr>"

definition we_push :: "whep \<Rightarrow> internal_command list \<Rightarrow> whep" where
  "we_push w cs = w\<lparr>we_queue := we_queue w @ cs\<rparr>"

definition we_is_empty :: "whep \<Rightarrow> bool" where
  "we_is_empty w \<longleftrightarrow> is_shutdown (we_state w) \<and> we_queue w = []"

definition attach_config :: endpoint_local_track_config where
  "attach_config = \<lparr>ltc_priority = DEFAULT_PRIORITY, ltc_max_spatial = 2, ltc_max_temporal = 2, ltc_min_spatial = None, ltc_min_temporal = None\<rparr>"

definition try_subscribe :: "peer_id \<Rightarrow> track_name \<Rightarrow> track_meta \<Rightarrow> whep \<Rightarrow> whep" where
  "try_subscribe peer track meta w =
     (let s = we_subscribed w in
      if sub_peer s = None \<or> sub_peer s = Some peer
      then (if sub_audio s = None \<and> kind_is_audio (tm_kind meta)
            then we_push (w\<lparr>we_subscribed := s\<lparr>sub_peer := Some peer, sub_audio := Some track\<rparr>\<rparr>)
              [TransportRpcReq 0 (ReqLocalTrack WHEP_AUDIO_TRACK (LtReqAttach \<lparr>src_peer = peer, src_track = track\<rparr> attach_config))]
            else if sub_video s = None \<and> kind_is_video (tm_kind meta)
            then we_push (w\<lparr>we_subscribed := s\<lparr>sub_peer := Some peer, sub_video := Some track\<rparr>\<rparr>)
              [TransportRpcReq 0 (ReqLocalTrack WHEP_VIDEO_TRACK (LtReqAttach \<lparr>src_peer = peer, src_track = track\<rparr> attach_config))]
            else w)
      else w)"

definition try_unsubscribe :: "peer_id \<Rightarrow> track_name \<Rightarrow> whep \<Rightarrow> whep" where
  "try_unsubscribe peer track w =
     (if sub_peer (we_subscribed w) = Some peer
      then
        (let w1 = (if sub_audio (we_subscribed w) = Some track
                   then we_push (w\<lparr>we_subscribed := (we_subscribed w)\<lparr>sub_audio := None\<rparr>\<rparr>) [TransportRpcReq 0 (ReqLocalTrack WHEP_AUDIO_TRACK LtReqDetach)]
                   else w);
             w2 = (if sub_video (we_subscribed w1) = Some track
                   then we_push (w1\<lparr>we_subscribed := (we_subscribed w1)\<lparr>sub_video := None\<rparr>\<rparr>) [TransportRpcReq 0 (ReqLocalTrack WHEP_VIDEO_TRACK LtReqDetach)]
                   else w1)
         in if sub_audio (we_subscribed w2) = None \<and> sub_video (we_subscribed w2) = None
            then w2\<lparr>we_subscribed := (we_subscribed w2)\<lparr>sub_peer := None\<rparr>\<rparr> else w2)
      else w)"

definition we_on_tick :: "nat \<Rightarrow> whep \<Rightarrow> whep" where
  "we_on_tick now w =
     (case bwe_on_tick now (we_bwe_state w) of (b, reset) \<Rightarrow>
      let w1 = we_push (w\<lparr>we_bwe_state := b\<rparr>) (case reset of None \<Rightarrow> [] | Some rate \<Rightarrow> [Str0mResetBwe rate])
      in case conn_tick (we_remote w1) now (we_state w1) of (st, cs) \<Rightarrow> we_push (w1\<lparr>we_state := st\<rparr>) cs)"

definition we_on_endpoint_event :: "nat \<Rightarrow> transport_endpoint_event \<Rightarrow> whep \<Rightarrow> whep" where
  "we_on_endpoint_event now event w =
     (case event of
        EvPeerTrackStarted peer track meta \<Rightarrow>
          if we_audio_mid w = None \<and> kind_is_audio (tm_kind meta) then w\<lparr>we_audio_waits := we_audio_waits w @ [(peer, track, meta)]\<rparr>
          else if we_video_mid w = None \<and> kind_is_video (tm_kind meta) then w\<lparr>we_video_waits := we_video_waits w @ [(peer, track, meta)]\<rparr>
          else try_subscribe peer track meta w
      | EvPeerTrackStopped peer track meta \<Rightarrow> try_unsubscribe peer track w
      | EvLocalMediaTrack _ (LteMedia pkt) \<Rightarrow>
          if meta_is_audio (pkt_meta pkt)
          then (case we_audio_mid w of None \<Rightarrow> w | Some mid \<Rightarrow> we_push w [Str0mSendMedia mid pkt])
          else (case we_video_mid w of
                  None \<Rightarrow> w
                | Some mid \<Rightarrow> we_push (w\<lparr>we_bwe_state := bwe_on_send_video now (we_bwe_state w)\<rparr>) [Str0mSendMedia mid pkt])
      | EvBweConfig current desired \<Rightarrow>
          (case filter_bwe_config current desired (we_bwe_state w) of (c, d) \<Rightarrow> we_push w [Str0mBwe c d])
      | _ \<Rightarrow> w)"

definition we_on_str0m_state :: "nat \<Rightarrow> ice_connection_state \<Rightarrow> whep \<Rightarrow> whep" where
  "we_on_str0m_state now ice w = (case conn_ice (we_remote w) now ice (we_state w) of (st, cs) \<Rightarrow> we_push (w\<lparr>we_state := st\<rparr>) cs)"

definition we_on_str0m_media_added :: "media_added \<Rightarrow> whep \<Rightarrow> whep" where
  "we_on_str0m_media_added media w =
     (if ma_direction media = RecvOnly \<or> ma_direction media = DirInactive then w
      else if ma_kind media = Audio
      then (if we_audio_mid w \<noteq> None then w
            else let w1 = we_push (w\<lparr>we_audio_mid := Some (ma_mid media)\<rparr>) [TransportEv (TeLocalTrack WHEP_AUDIO_TRACK (TleStarted Audio))]
                 in fold (\<lambda>(peer, track, meta). try_subscribe peer track meta) (we_audio_waits w1) (w1\<lparr>we_audio_waits := []\<rparr>))
      else (if we_video_mid w \<noteq> None then w
            else let w1 = we_push (w\<lparr>we_video_mid := Some (ma_mid media)\<rparr>) [TransportEv (TeLocalTrack WHEP_VIDEO_TRACK (TleStarted Video))]
                 in fold (\<lambda>(peer, track, meta). try_subscribe peer track meta) (we_video_waits w1) (w1\<lparr>we_video_waits := []\<rparr>)))"

definition we_on_str0m_event :: "nat \<Rightarrow> str0m_event \<Rightarrow> whep \<Rightarrow> whep" where
  "we_on_str0m_event now event w =
     (case event of
        SConnected \<Rightarrow>
          we_push (w\<lparr>we_state := StConnected\<rparr>)
            [TransportEv (TeState (TsConnected (we_remote w))),
             TransportRpcReq 0 (ReqJoinRoom (we_room w) (we_peer w) \<lparr>pm_metadata = None, pm_extra_data = we_extra_data w\<rparr>
               \<lparr>rp_peer = False, rp_tracks = False\<rparr> \<lparr>rs_peers = False, rs_tracks = True\<rparr> None)]
      | SIceState ice \<Rightarrow> we_on_str0m_state now ice w
      | SMediaAdded media \<Rightarrow> we_on_str0m_media_added media w
      | SKeyframeRequest mid \<Rightarrow>
          if we_video_mid w = Some mid then we_push w [TransportEv (TeLocalTrack WHEP_VIDEO_TRACK TleRequestKeyFrame)] else w
      | SEgressBitrateEstimate bitrate \<Rightarrow> we_push w [TransportEv (TeEgressBitrateEstimate (of_nat (filter_bwe bitrate (we_bwe_state w))))]
      | _ \<Rightarrow> w)"

definition we_on_shutdown :: "whep \<Rightarrow> whep" where
  "we_on_shutdown w = (case conn_shutdown (we_state w) of (st, cs) \<Rightarrow> we_push (w\<lparr>we_state := st\<rparr>) cs)"

definition we_pop_output :: "whep \<Rightarrow> internal_command option \<times> whep" where
  "we_pop_output w = (case we_queue w of [] \<Rightarrow> (None, w) | c # cs \<Rightarrow> (Some c, w\<lparr>we_queue := cs\<rparr>))"

section \<open>The requests of a session\<close>

text \<open>What is started and what is attached, as far as the endpoint was told.\<close>

record slots =
  sl_audio_started :: bool
  sl_video_started :: bool
  sl_audio :: "track_source option"
  sl_video :: "track_source option"

definition slots_start :: slots where
  "slots_start = \<lparr>sl_audio_started = False, sl_video_started = False, sl_audio = None, sl_video = None\<rparr>"

definition same_peer :: "track_source \<Rightarrow> track_source option \<Rightarrow> bool" where
  "same_peer src other \<longleftrightarrow> (case other of None \<Rightarrow> True | Some o1 \<Rightarrow> src_peer o1 = src_peer src)"

fun slot_talk :: "slots \<Rightarrow> internal_command \<Rightarrow> slots option" where
  "slot_talk s (TransportEv (TeLocalTrack t (TleStarted k))) =
     (if t = WHEP_AUDIO_TRACK \<and> k = Audio \<and> \<not> sl_audio_started s then Some (s\<lparr>sl_audio_started := True\<rparr>)
      else if t = WHEP_VIDEO_TRACK \<and> k = Video \<and> \<not> sl_video_started s then Some (s\<lparr>sl_video_started := True\<rparr>) else None)"
| "slot_talk s (TransportEv (TeLocalTrack t TleRequestKeyFrame)) = (if t = WHEP_VIDEO_TRACK \<and> sl_video_started s then Some s else None)"
| "slot_talk s (TransportRpcReq i (ReqLocalTrack t (LtReqAttach src cfg))) =
     (if t = WHEP_AUDIO_TRACK \<and> sl_audio_started s \<and> sl_audio s = None \<and> same_peer src (sl_video s) then Some (s\<lparr>sl_audio := Some src\<rparr>)
      else if t = WHEP_VIDEO_TRACK \<and> sl_video_started s \<and> sl_video s = None \<and> same_peer src (sl_audio s) then Some (s\<lparr>sl_video := Some src\<rparr>) else None)"
| "slot_talk s (TransportRpcReq i (ReqLocalTrack t LtReqDetach)) =
     (if t = WHEP_AUDIO_TRACK \<and> sl_audio s \<noteq> None then Some (s\<lparr>sl_audio := None\<rparr>)
      else if t = WHEP_VIDEO_TRACK \<and> sl_video s \<noteq> None then Some (s\<lparr>sl_video := None\<rparr>) else None)"
| "slot_talk s (TransportRpcReq i (ReqLocalTrack t (LtReqConfig cfg))) = None"
| "slot_talk s _ = Some s"

fun slot_talks :: "slots \<Rightarrow> internal_command list \<Rightarrow> slots option" where
  "slot_talks s [] = Some s"
| "slot_talks s (c # cs) = (case slot_talk s c of None \<Rightarrow> None | Some s1 \<Rightarrow> slot_talks s1 cs)"

lemma slot_talks_append: "slot_talks s (cs @ ds) = (case slot_talks s cs of None \<Rightarrow> None | Some s1 \<Rightarrow> slot_talks s1 ds)"
  by (induction cs arbitrary: s) (auto split: option.split)

definition slots_of :: "whep \<Rightarrow> slots" where
  "slots_of w = (let s = we_subscribed w; src = (\<lambda>t. \<lparr>src_peer = the (sub_peer s), src_track = t\<rparr>) in
     \<lparr>sl_audio_started = (we_audio_mid w \<noteq> None), sl_video_started = (we_video_mid w \<noteq> None),
      sl_audio = map_option src (sub_audio s), sl_video = map_option src (sub_video s)\<rparr>)"

text \<open>Everything said, popped or queued, is in order and agrees with the state; what waits is of the kind it waits for.\<close>

definition we_ok :: "internal_command list \<Rightarrow> whep \<Rightarrow> bool" where
  "we_ok log w \<longleftrightarrow> conn_talks PhNew (said_states log) = Some (phase_of (we_state w)) \<and> slot_talks slots_start log = Some (slots_of w) \<and>
     (sub_peer (we_subscribed w) = None \<longleftrightarrow> sub_audio (we_subscribed w) = None \<and> sub_video (we_subscribed w) = None) \<and>
     list_all (\<lambda>(p, t, m). tm_kind m = Audio) (we_audio_waits w) \<and> list_all (\<lambda>(p, t, m). tm_kind m = Video) (we_video_waits w)"

abbreviation we_inv :: "internal_command list \<Rightarrow> whep \<Rightarrow> bool" where
  "we_inv said w \<equiv> we_ok (said @ we_queue w) w"

lemma we_ok_same [simp]: "we_ok log (w\<lparr>we_queue := q\<rparr>) = we_ok log w" "we_ok log (w\<lparr>we_bwe_state := b\<rparr>) = we_ok log w"
  by (simp_all add: we_ok_def slots_of_def)

lemma we_ok_push:
  assumes "we_ok log w" "conn_talks (phase_of (we_state w)) (said_states cs) = Some (phase_of (we_state w1))" "slot_talks (slots_of w) cs = Some (slots_of w1)"
    "we_subscribed w1 = we_subscribed w" "we_audio_waits w1 = we_audio_waits w" "we_video_waits w1 = we_video_waits w"
  shows "we_ok (log @ cs) w1"
  using assms unfolding we_ok_def by (simp add: conn_talks_append slot_talks_append)

lemma kind_simps [simp]: "kind_is_audio k \<longleftrightarrow> k = Audio" "kind_is_video k \<longleftrightarrow> k = Video"
  by (cases k; simp)+

lemma try_subscribe_ok:
  assumes "we_inv said w" "tm_kind meta = Audio \<Longrightarrow> we_audio_mid w \<noteq> None" "tm_kind meta = Video \<Longrightarrow> we_video_mid w \<noteq> None"
  shows "we_inv said (try_subscribe peer track meta w) \<and> we_audio_mid (try_subscribe peer track meta w) = we_audio_mid w \<and>
    we_video_mid (try_subscribe peer track meta w) = we_video_mid w"
proof -
  define log where "log = said @ we_queue w"
  have ok: "we_ok log w" using assms(1) by (simp add: log_def)
  let ?s = "we_subscribed w" and ?src = "\<lparr>src_peer = peer, src_track = track\<rparr>"
  have a: "we_ok (log @ [TransportRpcReq 0 (ReqLocalTrack WHEP_AUDIO_TRACK (LtReqAttach ?src attach_config))])
      (w\<lparr>we_subscribed := ?s\<lparr>sub_peer := Some peer, sub_audio := Some track\<rparr>\<rparr>)"
    if "sub_peer ?s = None \<or> sub_peer ?s = Some peer" "sub_audio ?s = None" "tm_kind meta = Audio"
    using ok that assms(2) by (auto simp: we_ok_def slot_talks_append slots_of_def Let_def same_peer_def split: option.split)
  have v: "we_ok (log @ [TransportRpcReq 0 (ReqLocalTrack WHEP_VIDEO_TRACK (LtReqAttach ?src attach_config))])
      (w\<lparr>we_subscribed := ?s\<lparr>sub_peer := Some peer, sub_video := Some track\<rparr>\<rparr>)"
    if "sub_peer ?s = None \<or> sub_peer ?s = Some peer" "sub_video ?s = None" "tm_kind meta = Video"
    using ok that assms(3) by (auto simp: we_ok_def slot_talks_append slots_of_def Let_def same_peer_def WHEP_AUDIO_TRACK_def WHEP_VIDEO_TRACK_def split: option.split)
  show ?thesis using assms(1) a v by (simp add: try_subscribe_def we_push_def Let_def log_def)
qed

lemma try_unsubscribe_ok:
  assumes "we_inv said w"
  shows "we_inv said (try_unsubscribe peer track w)"
proof (cases "sub_peer (we_subscribed w) = Some peer")
  case True
  define log where "log = said @ we_queue w"
  have ok: "we_ok log w" using assms by (simp add: log_def)
  define s where "s = we_subscribed w"
  define a where "a = (if sub_audio s = Some track then [TransportRpcReq 0 (ReqLocalTrack WHEP_AUDIO_TRACK LtReqDetach)] else [])"
  define v where "v = (if sub_video s = Some track then [TransportRpcReq 0 (ReqLocalTrack WHEP_VIDEO_TRACK LtReqDetach)] else [])"
  define s1 where "s1 = s\<lparr>sub_audio := (if sub_audio s = Some track then None else sub_audio s), sub_video := (if sub_video s = Some track then None else sub_video s)\<rparr>"
  define s2 where "s2 = (if sub_audio s1 = None \<and> sub_video s1 = None then s1\<lparr>sub_peer := None\<rparr> else s1)"
  have run: "try_unsubscribe peer track w = w\<lparr>we_subscribed := s2, we_queue := we_queue w @ a @ v\<rparr>"
    using True by (simp add: try_unsubscribe_def Let_def we_push_def a_def v_def s1_def s2_def s_def)
  have "slot_talks (slots_of w) (a @ v) = Some (slots_of (w\<lparr>we_subscribed := s2\<rparr>))"
    by (auto simp: a_def v_def slots_of_def Let_def s2_def s1_def s_def slot_talks_append WHEP_AUDIO_TRACK_def WHEP_VIDEO_TRACK_def)
  moreover have "said_states (a @ v) = []" by (simp add: a_def v_def)
  moreover have "sub_peer s2 = None \<longleftrightarrow> sub_audio s2 = None \<and> sub_video s2 = None" using True by (auto simp: s2_def s1_def s_def)
  ultimately have "we_ok (log @ a @ v) (w\<lparr>we_subscribed := s2\<rparr>)"
    using ok by (simp add: we_ok_def slot_talks_append[of _ log] flip: s_def)
  then show ?thesis unfolding run by (simp add: log_def)
qed (use assms in \<open>simp add: try_unsubscribe_def\<close>)

lemma subscribe_waits_ok:
  assumes "we_inv said w" "list_all (\<lambda>(p, t, m). (tm_kind m = Audio \<longrightarrow> we_audio_mid w \<noteq> None) \<and> (tm_kind m = Video \<longrightarrow> we_video_mid w \<noteq> None)) ws"
  shows "we_inv said (fold (\<lambda>(peer, track, meta). try_subscribe peer track meta) ws w)"
  using assms
proof (induction ws arbitrary: w)
  case (Cons e ws)
  obtain p t m where e: "e = (p, t, m)" by (cases e)
  have "we_inv said (try_subscribe p t m w)" "we_audio_mid (try_subscribe p t m w) = we_audio_mid w" "we_video_mid (try_subscribe p t m w) = we_video_mid w"
    using try_subscribe_ok[OF Cons.prems(1), of m p t] Cons.prems(2) e by auto
  then show ?case using Cons.IH[of "try_subscribe p t m w"] Cons.prems(2) e by simp
qed simp

lemma waits_first:
  "we_push w cs\<lparr>we_audio_waits := x\<rparr> = we_push (w\<lparr>we_audio_waits := x\<rparr>) cs"
  "we_push w cs\<lparr>we_video_waits := x\<rparr> = we_push (w\<lparr>we_video_waits := x\<rparr>) cs"
  by (simp_all add: we_push_def)

lemma media_added_ok:
  assumes "we_inv said w"
  shows "we_inv said (we_on_str0m_media_added media w)"
proof -
  define log where "log = said @ we_queue w"
  have ok: "we_ok log w" using assms by (simp add: log_def)
  have a: "we_ok (log @ [TransportEv (TeLocalTrack WHEP_AUDIO_TRACK (TleStarted Audio))]) (w\<lparr>we_audio_mid := Some m, we_audio_waits := []\<rparr>)"
    if "we_audio_mid w = None" for m
    using ok that by (simp add: we_ok_def slot_talks_append slots_of_def Let_def)
  have v: "we_ok (log @ [TransportEv (TeLocalTrack WHEP_VIDEO_TRACK (TleStarted Video))]) (w\<lparr>we_video_mid := Some m, we_video_waits := []\<rparr>)"
    if "we_video_mid w = None" for m
    using ok that by (simp add: we_ok_def slot_talks_append slots_of_def Let_def WHEP_AUDIO_TRACK_def WHEP_VIDEO_TRACK_def)
  have wa: "list_all (\<lambda>(p, t, m). tm_kind m = Audio) (we_audio_waits w)" and wv: "list_all (\<lambda>(p, t, m). tm_kind m = Video) (we_video_waits w)"
    using ok by (simp_all add: we_ok_def)
  have sub_a: "we_inv said (fold (\<lambda>(peer, track, meta). try_subscribe peer track meta) (we_audio_waits w)
      ((we_push (w\<lparr>we_audio_mid := Some m\<rparr>) [TransportEv (TeLocalTrack WHEP_AUDIO_TRACK (TleStarted Audio))])\<lparr>we_audio_waits := []\<rparr>))"
    if "we_audio_mid w = None" for m
    unfolding waits_first by (rule subscribe_waits_ok) (use a[OF that] wa in \<open>auto simp: we_push_def log_def list_all_iff\<close>)
  have sub_v: "we_inv said (fold (\<lambda>(peer, track, meta). try_subscribe peer track meta) (we_video_waits w)
      ((we_push (w\<lparr>we_video_mid := Some m\<rparr>) [TransportEv (TeLocalTrack WHEP_VIDEO_TRACK (TleStarted Video))])\<lparr>we_video_waits := []\<rparr>))"
    if "we_video_mid w = None" for m
    unfolding waits_first by (rule subscribe_waits_ok) (use v[OF that] wv in \<open>auto simp: we_push_def log_def list_all_iff\<close>)
  show ?thesis using assms sub_a[of "ma_mid media"] sub_v[of "ma_mid media"]
    by (cases "ma_direction media = RecvOnly \<or> ma_direction media = DirInactive"; cases "ma_kind media = Audio"; cases "we_audio_mid w"; cases "we_video_mid w")
      (simp_all add: we_on_str0m_media_added_def we_push_def Let_def)
qed

section \<open>Runs\<close>

datatype whep_call = WeTick nat | WeEndpoint nat transport_endpoint_event | WeStr0m nat str0m_event | WeShutdown | WePop

text \<open>What the library promises: it reports a connection while one is being made or held.\<close>

fun we_pre :: "whep_call \<Rightarrow> whep \<Rightarrow> bool" where
  "we_pre (WeStr0m now SConnected) w \<longleftrightarrow> we_state w \<noteq> StNew \<and> \<not> is_shutdown (we_state w)"
| "we_pre _ w \<longleftrightarrow> True"

fun we_call :: "whep_call \<Rightarrow> whep \<Rightarrow> (internal_command option \<times> whep) res" where
  "we_call (WeTick now) w = Inr (None, we_on_tick now w)"
| "we_call (WeEndpoint now e) w = Inr (None, we_on_endpoint_event now e w)"
| "we_call (WeStr0m now e) w = Inr (None, we_on_str0m_event now e w)"
| "we_call WeShutdown w = Inr (None, we_on_shutdown w)"
| "we_call WePop w = Inr (we_pop_output w)"

abbreviation we_reach :: "whep \<Rightarrow> internal_command list \<Rightarrow> whep \<Rightarrow> bool" where
  "we_reach \<equiv> session_reach we_call we_pre"

lemmas we_start = reach_start[where call = we_call and pre = we_pre]
lemmas we_next = reach_next[where call = we_call and pre = we_pre]

lemma conn_slots:
  "conn_tick r now st = (st1, cs) \<Longrightarrow> slot_talks s cs = Some s" "conn_ice r now ice st = (st1, cs) \<Longrightarrow> slot_talks s cs = Some s"
  "conn_shutdown st = (st1, cs) \<Longrightarrow> slot_talks s cs = Some s"
  by (cases st; auto simp: conn_tick_def conn_ice_def conn_shutdown_def split: if_splits)+

lemma we_conn_ok:
  assumes "we_inv said w" "conn_talks (phase_of (we_state w)) (said_states cs) = Some (phase_of st)" "slot_talks (slots_of w) cs = Some (slots_of w)"
  shows "we_inv said (we_push (w\<lparr>we_state := st\<rparr>) cs)"
proof -
  have "slots_of (w\<lparr>we_state := st\<rparr>) = slots_of w" by (simp add: slots_of_def)
  then have "we_ok ((said @ we_queue w) @ cs) (w\<lparr>we_state := st\<rparr>)" using we_ok_push[OF assms(1), of cs "w\<lparr>we_state := st\<rparr>"] assms(2,3) by simp
  then show ?thesis by (simp add: we_push_def)
qed

lemma we_quiet_ok:
  assumes "we_inv said w" "said_states cs = []" "slot_talks (slots_of w) cs = Some (slots_of w)"
  shows "we_inv said (we_push w cs)"
  using we_conn_ok[of said w cs "we_state w"] assms by simp

lemma we_tick_ok:
  assumes "we_inv said w"
  shows "we_inv said (we_on_tick now w)"
proof -
  obtain b reset where b: "bwe_on_tick now (we_bwe_state w) = (b, reset)" by (cases "bwe_on_tick now (we_bwe_state w)")
  let ?cs = "case reset of None \<Rightarrow> [] | Some rate \<Rightarrow> [Str0mResetBwe rate]"
  let ?w1 = "we_push (w\<lparr>we_bwe_state := b\<rparr>) ?cs"
  have inv1: "we_inv said ?w1" by (rule we_quiet_ok) (use assms in \<open>auto split: option.split\<close>)
  obtain st cs where c: "conn_tick (we_remote ?w1) now (we_state ?w1) = (st, cs)" by (cases "conn_tick (we_remote ?w1) now (we_state ?w1)")
  show ?thesis using we_conn_ok[OF inv1 conn_tick_talks[OF c] conn_slots(1)[OF c]] b c by (simp add: we_on_tick_def Let_def)
qed

lemma we_event_ok:
  assumes inv: "we_inv said w" and pre: "we_pre (WeStr0m now e) w"
  shows "we_inv said (we_on_str0m_event now e w)"
proof (cases e)
  case SConnected
  have "we_state w \<noteq> StNew" "\<not> is_shutdown (we_state w)" using pre SConnected by simp_all
  then have "conn_talk (phase_of (we_state w)) (TsConnected (we_remote w)) = Some PhConnected" by (cases "we_state w") simp_all
  then have "we_inv said (we_push (w\<lparr>we_state := StConnected\<rparr>) [TransportEv (TeState (TsConnected (we_remote w))), TransportRpcReq 0 (ReqJoinRoom r p m a b x)])"
    for r p m a b x by (intro we_conn_ok[OF inv]) simp_all
  then show ?thesis using SConnected unfolding we_on_str0m_event_def by simp
next
  case (SIceState ice)
  obtain st cs where c: "conn_ice (we_remote w) now ice (we_state w) = (st, cs)" by (cases "conn_ice (we_remote w) now ice (we_state w)")
  show ?thesis using we_conn_ok[OF inv conn_ice_talks[OF c] conn_slots(2)[OF c]] SIceState c by (simp add: we_on_str0m_event_def we_on_str0m_state_def)
next
  case (SMediaAdded media)
  then show ?thesis using media_added_ok[OF inv] by (simp add: we_on_str0m_event_def)
next
  case (SKeyframeRequest mid)
  have "we_inv said (we_push w [TransportEv (TeLocalTrack WHEP_VIDEO_TRACK TleRequestKeyFrame)])" if "we_video_mid w = Some mid"
    by (rule we_quiet_ok[OF inv]) (use that in \<open>simp_all add: slots_of_def Let_def\<close>)
  then show ?thesis using SKeyframeRequest inv by (simp add: we_on_str0m_event_def)
next
  case (SEgressBitrateEstimate b)
  have "we_inv said (we_push w [TransportEv (TeEgressBitrateEstimate x)])" for x by (rule we_quiet_ok[OF inv]) simp_all
  then show ?thesis using SEgressBitrateEstimate by (simp add: we_on_str0m_event_def)
qed (use inv in \<open>simp_all add: we_on_str0m_event_def\<close>)

lemma we_endpoint_ok:
  assumes inv: "we_inv said w"
  shows "we_inv said (we_on_endpoint_event now e w)"
proof -
  have send: "we_inv said (we_push w1 [Str0mSendMedia mid pkt])" if "we_inv said w1" for w1 mid pkt
    by (rule we_quiet_ok[OF that]) simp_all
  have bwe: "we_inv said (we_push w [Str0mBwe c d])" for c d by (rule we_quiet_ok[OF inv]) simp_all
  have wait: "we_ok log (w\<lparr>we_audio_waits := we_audio_waits w @ [(p, t, m)]\<rparr>)" if "we_ok log w" "tm_kind m = Audio" for log p t m
    using that by (simp add: we_ok_def slots_of_def)
  have wait2: "we_ok log (w\<lparr>we_video_waits := we_video_waits w @ [(p, t, m)]\<rparr>)" if "we_ok log w" "tm_kind m = Video" for log p t m
    using that by (simp add: we_ok_def slots_of_def)
  show ?thesis
  proof (cases e)
    case (EvPeerTrackStarted p t m)
    have "we_inv said (try_subscribe p t m w)" if "\<not> (we_audio_mid w = None \<and> tm_kind m = Audio)" "\<not> (we_video_mid w = None \<and> tm_kind m = Video)"
      by (rule try_subscribe_ok[THEN conjunct1, OF inv]) (use that in auto)
    then show ?thesis using EvPeerTrackStarted inv wait wait2 by (simp add: we_on_endpoint_event_def)
  next
    case (EvPeerTrackStopped p t m)
    then show ?thesis using try_unsubscribe_ok[OF inv] by (simp add: we_on_endpoint_event_def)
  next
    case (EvLocalMediaTrack t x)
    then show ?thesis using inv send[OF inv] send[of "w\<lparr>we_bwe_state := bwe_on_send_video now (we_bwe_state w)\<rparr>"]
      by (cases x) (auto simp: we_on_endpoint_event_def split: option.split)
  next
    case (EvBweConfig c d)
    then show ?thesis using bwe by (simp add: we_on_endpoint_event_def split: prod.split)
  qed (use inv in \<open>simp_all add: we_on_endpoint_event_def\<close>)
qed

lemma we_call_ok:
  assumes inv: "we_inv said w" and pre: "we_pre call w" and run: "we_call call w = Inr (out, w1)"
  shows "we_inv (said @ (case out of None \<Rightarrow> [] | Some c \<Rightarrow> [c])) w1"
proof (cases call)
  case (WeTick now)
  then show ?thesis using run we_tick_ok[OF inv] by auto
next
  case (WeEndpoint now e)
  then show ?thesis using run we_endpoint_ok[OF inv] by auto
next
  case (WeStr0m now e)
  then show ?thesis using run pre we_event_ok[OF inv, of now e] by auto
next
  case WeShutdown
  obtain st cs where c: "conn_shutdown (we_state w) = (st, cs)" by (cases "conn_shutdown (we_state w)")
  then show ?thesis using we_conn_ok[OF inv conn_shutdown_talks[OF c] conn_slots(3)[OF c]] run WeShutdown by (auto simp: we_on_shutdown_def)
next
  case WePop
  then show ?thesis using run inv by (auto simp: we_pop_output_def split: list.splits)
qed

interpretation we: webrtc_session we_call we_pre we_queue we_state we_ok
proof
  show "\<And>c s. we_pre c s \<Longrightarrow> \<exists>out s1. we_call c s = Inr (out, s1)" subgoal for c s by (cases c; cases "we_pop_output s") simp_all done
  show "\<And>said s c out s1. we_ok (said @ we_queue s) s \<Longrightarrow> we_pre c s \<Longrightarrow> we_call c s = Inr (out, s1) \<Longrightarrow>
      we_ok (said @ (case out of None \<Rightarrow> [] | Some x \<Rightarrow> [x]) @ we_queue s1) s1" using we_call_ok by fastforce
  show "\<And>log s. we_ok log s \<Longrightarrow> conn_talks PhNew (said_states log) = Some (phase_of (we_state s))" by (simp add: we_ok_def)
qed

lemma we_new_ok: "we_ok (we_queue (we_new room peer extra remote)) (we_new room peer extra remote)"
  by (simp add: we_ok_def we_new_def slots_of_def slots_start_def)

section \<open>Properties\<close>

text \<open>C37: a WHEP session watches one peer at a time. Under any calls in which the library reports a connection only while one is
  being made or held, its announcements of the connection are in order, and so are its requests: a track is started once,
  attached only after it was started and while it is free, detached only while attached, and when audio and video are both
  attached they come from the same peer.\<close>

theorem whep_watches_one_peer:
  assumes "we_reach (we_new room peer extra remote) said w"
  shows "conn_talks PhNew (said_states (said @ we_queue w)) = Some (phase_of (we_state w)) \<and>
    (\<exists>s. slot_talks slots_start (said @ we_queue w) = Some s \<and> (case sl_audio s of None \<Rightarrow> True | Some src \<Rightarrow> same_peer src (sl_video s)))"
proof -
  have "we_ok (said @ we_queue w) w" using we.run_ok[OF assms we_new_ok] .
  moreover have "case sl_audio (slots_of w) of None \<Rightarrow> True | Some src \<Rightarrow> same_peer src (sl_video (slots_of w))"
    by (auto simp: slots_of_def Let_def same_peer_def split: option.split)
  ultimately show ?thesis unfolding we_ok_def by blast
qed

definition demo_meta :: "media_kind \<Rightarrow> track_meta" where
  "demo_meta k = \<lparr>tm_kind = k, tm_scaling = ScalingNone, tm_control = MaxBitrate, tm_metadata = None\<rparr>"

definition demo_media_audio :: media_added where
  "demo_media_audio = \<lparr>ma_mid = ''0'', ma_kind = Audio, ma_direction = SendOnly, ma_simulcast = False\<rparr>"

definition demo_whep :: whep where
  "demo_whep = (we_new ''room'' ''viewer'' None ''10.0.0.1'')\<lparr>we_audio_mid := Some ''0'',
     we_subscribed := \<lparr>sub_peer = Some ''alice'', sub_audio = Some ''mic'', sub_video = None\<rparr>,
     we_queue := [TransportEv (TeLocalTrack WHEP_AUDIO_TRACK (TleStarted Audio)),
       TransportRpcReq 0 (ReqLocalTrack WHEP_AUDIO_TRACK (LtReqAttach \<lparr>src_peer = ''alice'', src_track = ''mic''\<rparr> attach_config))]\<rparr>"

theorem whep_watches_one_peer_witness:
  "\<exists>s. slot_talks slots_start (we_queue demo_whep) = Some s \<and> (case sl_audio s of None \<Rightarrow> True | Some src \<Rightarrow> same_peer src (sl_video s))"
proof -
  let ?w0 = "we_new ''room'' ''viewer'' None ''10.0.0.1''"
  have 1: "we_reach ?w0 [] (we_on_endpoint_event 1 (EvPeerTrackStarted ''alice'' ''mic'' (demo_meta Audio)) ?w0)"
    using we_next[OF we_start, where c = "WeEndpoint 1 (EvPeerTrackStarted ''alice'' ''mic'' (demo_meta Audio))"] by simp
  have 2: "we_reach ?w0 [] demo_whep"
    using we_next[OF 1, where c = "WeStr0m 2 (SMediaAdded demo_media_audio)"]
    by (simp add: we_on_str0m_event_def we_on_str0m_media_added_def demo_media_audio_def we_on_endpoint_event_def we_new_def we_push_def demo_whep_def
        try_subscribe_def demo_meta_def Let_def)
  show ?thesis using whep_watches_one_peer[OF 2] by simp
qed

section \<open>Observations\<close>

text \<open>A track that stopped while it waited is attached nevertheless.\<close>

lemma stopped_track_is_attached:
  "we_queue (we_on_str0m_media_added demo_media_audio (we_on_endpoint_event 2 (EvPeerTrackStopped ''alice'' ''mic'' (demo_meta Audio))
     (we_on_endpoint_event 1 (EvPeerTrackStarted ''alice'' ''mic'' (demo_meta Audio)) (we_new ''room'' ''viewer'' None ''10.0.0.1''))))
   = we_queue demo_whep"
  by (simp add: we_on_str0m_media_added_def demo_media_audio_def we_on_endpoint_event_def we_new_def we_push_def demo_whep_def
      try_subscribe_def try_unsubscribe_def demo_meta_def Let_def)

end
