(* ===== verification/Webrtc_Sdk.thy ===== *)
theory Webrtc_Sdk
  imports Webrtc_Common
begin

text \<open>
  The session of the client libraries, \<open>packages/transport_webrtc/src/transport/webrtc.rs\<close> with \<open>webrtc/local_track.rs\<close> and
  \<open>webrtc/remote_track.rs\<close>: any number of tracks, and a data channel over which the client sends requests and the server answers and
  events. The check of a token is an argument. Shown: a session numbers its messages without a gap and announces its connection in
  order, answers or passes on every request exactly once, and lets a client into a room only with a token for that room and peer.
\<close>

section \<open>Tracks\<close>

record sdk_local_track =
  sl_id :: local_track_id
  sl_name :: track_name
  sl_kind :: media_kind
  sl_mid :: "string option"

definition sl_new :: "local_track_id \<Rightarrow> shared_receiver \<Rightarrow> sdk_local_track" where
  "sl_new i cfg = \<lparr>sl_id = i, sl_name = rcv_name cfg, sl_kind = proto_kind (rcv_kind cfg), sl_mid = None\<rparr>"

definition sl_set_mid :: "string \<Rightarrow> sdk_local_track \<Rightarrow> sdk_local_track res" where
  "sl_set_mid mid t = rassert (sl_mid t = None) (Inr (t\<lparr>sl_mid := Some mid\<rparr>))"

definition MIN_STREAM_BITRATE_BPS :: nat where "MIN_STREAM_BITRATE_BPS = 100000"

record sdk_remote_track =
  sr_id :: remote_track_id
  sr_name :: track_name
  sr_kind :: media_kind
  sr_source :: "sender_source option"
  sr_config :: sender_config
  sr_scaling :: media_scaling
  sr_mid :: "string option"

definition sr_new :: "remote_track_id \<Rightarrow> shared_sender \<Rightarrow> sdk_remote_track" where
  "sr_new i cfg =
     (let (config, source) = unwrap_or (None, None) (snd_state cfg)
      in \<lparr>sr_id = i, sr_name = snd_name cfg, sr_kind = proto_kind (snd_kind cfg), sr_source = source,
          sr_config = unwrap_or default_sender_config config, sr_scaling = ScalingNone, sr_mid = None\<rparr>)"

definition sr_priority :: "sdk_remote_track \<Rightarrow> priority" where
  "sr_priority t = sc_priority (sr_config t)"

definition sr_has_source :: "sdk_remote_track \<Rightarrow> bool" where
  "sr_has_source t \<longleftrightarrow> sr_source t \<noteq> None"

definition sr_set_source :: "sender_source \<Rightarrow> sdk_remote_track \<Rightarrow> sdk_remote_track" where
  "sr_set_source source t = t\<lparr>sr_source := Some source\<rparr>"

definition sr_del_source :: "sdk_remote_track \<Rightarrow> sdk_remote_track" where
  "sr_del_source t = t\<lparr>sr_source := None\<rparr>"

definition sr_set_str0m :: "string \<Rightarrow> bool \<Rightarrow> sdk_remote_track \<Rightarrow> sdk_remote_track res" where
  "sr_set_str0m mid sim t =
     rassert (sr_mid t = None)
       (let t1 = t\<lparr>sr_mid := Some mid\<rparr> in Inr (if sim then t1\<lparr>sr_scaling := Simulcast\<rparr> else t1))"

definition sr_meta :: "sdk_remote_track \<Rightarrow> track_meta" where
  "sr_meta t =
     \<lparr>tm_kind = sr_kind t, tm_scaling = sr_scaling t, tm_control = proto_bitrate (sc_bitrate (sr_config t)),
      tm_metadata = Option.bind (sr_source t) ss_metadata\<rparr>"

definition sr_calc_limit_bitrate :: "nat \<Rightarrow> nat \<Rightarrow> sdk_remote_track \<Rightarrow> nat" where
  "sr_calc_limit_bitrate mn mx t = (case sr_scaling t of ScalingNone \<Rightarrow> max mn MIN_STREAM_BITRATE_BPS | Simulcast \<Rightarrow> mx)"

definition sr_started :: "sdk_remote_track \<Rightarrow> internal_command" where
  "sr_started t = TransportEv (TeRemoteTrack (sr_id t) (TreStarted (sr_name t) (sr_priority t) (sr_meta t)))"

fun update_first :: "('a \<Rightarrow> bool) \<Rightarrow> ('a \<Rightarrow> 'a) \<Rightarrow> 'a list \<Rightarrow> 'a list" where
  "update_first P f [] = []"
| "update_first P f (x # xs) = (if P x then f x # xs else x # update_first P f xs)"

section \<open>The session\<close>

record webrtc_token =
  wt_room :: "string option"
  wt_peer :: "string option"
  wt_record :: bool
  wt_extra_data :: "string option"

record sdk =
  sk_app :: app_id
  sk_remote :: string
  sk_extra_data :: "string option"
  sk_join :: "(room_id \<times> peer_id \<times> string option \<times> room_info_publish \<times> room_info_subscribe) option"
  sk_state :: conn_state
  sk_queue :: "internal_command list"
  sk_channel :: "nat option"
  sk_event_seq :: nat
  sk_local_tracks :: "sdk_local_track list"
  sk_remote_tracks :: "sdk_remote_track list"
  sk_audio_mixer :: "audio_mixer_config option"
  sk_media_convert :: remote_media_convert
  sk_bwe_state :: bwe_state

definition local_track_by_name :: "string \<Rightarrow> sdk_local_track list \<Rightarrow> sdk_local_track option" where
  "local_track_by_name name ts = find (\<lambda>t. sl_name t = name) ts"

definition mixer_into :: "sdk_local_track list \<Rightarrow> mixer_config \<Rightarrow> audio_mixer_config" where
  "mixer_into ts m =
     \<lparr>mc_mode = proto_mode (mxc_mode m),
      mc_outputs = List.map_filter (\<lambda>r. map_option sl_id (local_track_by_name r ts)) (mxc_outputs m),
      mc_sources = mxc_sources m\<rparr>"

definition sk_new :: "app_id \<Rightarrow> connect_request \<Rightarrow> string option \<Rightarrow> string \<Rightarrow> sdk" where
  "sk_new app req extra_data remote =
     (let tracks = unwrap_or default_tracks (cr_tracks req);
          locals = map (\<lambda>(i, r). sl_new (i mod 2 ^ 16) r) (List.enumerate 0 (st_receivers tracks));
          remotes = map (\<lambda>(i, s). sr_new (i mod 2 ^ 16) s) (List.enumerate 0 (st_senders tracks));
          base = \<lparr>sk_app = app, sk_remote = remote, sk_extra_data = extra_data, sk_join = None, sk_state = StNew, sk_queue = [], sk_channel = None,
            sk_event_seq = 0, sk_local_tracks = locals, sk_remote_tracks = remotes, sk_audio_mixer = None,
            sk_media_convert = \<lparr>rmc_map = [], rmc_ssrcs_rid = [], rmc_ssrcs_mid = []\<rparr>, sk_bwe_state = BweInactive\<rparr>
      in case cr_join req of
           Some j \<Rightarrow>
             base\<lparr>sk_join := Some (rj_room j, rj_peer j, rj_metadata j, unwrap_or default_publish (rj_publish j), unwrap_or default_subscribe (rj_subscribe j)),
                  sk_audio_mixer := map_option (mixer_into locals) (Option.bind (rj_features j) id)\<rparr>
         | None \<Rightarrow> base)"

definition sk_push :: "sdk \<Rightarrow> internal_command list \<Rightarrow> sdk" where
  "sk_push s cs = s\<lparr>sk_queue := sk_queue s @ cs\<rparr>"

text \<open>The number of an event is a \<open>u32\<close>.\<close>

definition send_event :: "proto_server_event \<Rightarrow> sdk \<Rightarrow> sdk res" where
  "send_event event s =
     (case sk_channel s of
        None \<Rightarrow> Inr s
      | Some channel \<Rightarrow>
          if sk_event_seq s + 1 < 2 ^ 32
          then Inr (sk_push (s\<lparr>sk_event_seq := sk_event_seq s + 1\<rparr>) [Str0mSendData channel \<lparr>se_seq = sk_event_seq s, se_event = event\<rparr>])
          else Inl Overflow)"

definition send_rpc_res :: "nat \<Rightarrow> proto_response \<Rightarrow> sdk \<Rightarrow> sdk res" where
  "send_rpc_res req_id res s = send_event (SeResponse req_id res) s"

definition send_rpc_res_err :: "nat \<Rightarrow> shared_error \<Rightarrow> sdk \<Rightarrow> sdk res" where
  "send_rpc_res_err req_id err s = send_event (SeResponse req_id (RspError err)) s"

definition sk_on_codec_config :: "(nat \<times> codec_spec) list \<Rightarrow> sdk \<Rightarrow> sdk" where
  "sk_on_codec_config cfg s = s\<lparr>sk_media_convert := remote_set_config cfg (sk_media_convert s)\<rparr>"

definition sk_is_empty :: "sdk \<Rightarrow> bool" where
  "sk_is_empty s \<longleftrightarrow> is_shutdown (sk_state s) \<and> sk_queue s = []"

definition sk_on_tick :: "nat \<Rightarrow> sdk \<Rightarrow> sdk" where
  "sk_on_tick now s =
     (let (b, reset) = bwe_on_tick now (sk_bwe_state s);
          s1 = sk_push (s\<lparr>sk_bwe_state := b\<rparr>) (case reset of None \<Rightarrow> [] | Some rate \<Rightarrow> [Str0mResetBwe rate]);
          (st, cs) = conn_tick (sk_remote s1) now (sk_state s1)
      in sk_push (s1\<lparr>sk_state := st\<rparr>) cs)"

definition sk_on_rpc_res :: "nat \<Rightarrow> webrtc_error + string \<Rightarrow> sdk \<Rightarrow> sdk res" where
  "sk_on_rpc_res req_id res s =
     (case res of
        Inr answer \<Rightarrow> send_rpc_res req_id (RspSession (RspSdp answer)) s
      | Inl err \<Rightarrow> send_rpc_res_err req_id (webrtc_err err) s)"

section \<open>Events of the endpoint\<close>

definition sk_on_endpoint_event :: "nat \<Rightarrow> transport_endpoint_event \<Rightarrow> sdk \<Rightarrow> sdk res" where
  "sk_on_endpoint_event now event s =
     (case event of
        EvPeerJoined peer meta \<Rightarrow> send_event (SeRoom (RePeerJoined peer (pm_metadata meta) (pm_extra_data meta))) s
      | EvPeerLeaved peer _ \<Rightarrow> send_event (SeRoom (RePeerLeaved peer)) s
      | EvPeerTrackStarted peer track meta \<Rightarrow> send_event (SeRoom (ReTrackStarted peer track (kind_number (tm_kind meta)) (tm_metadata meta))) s
      | EvPeerTrackStopped peer track meta \<Rightarrow> send_event (SeRoom (ReTrackStopped peer track (kind_number (tm_kind meta)))) s
      | EvAudioMixer (MixSlotSet slot peer track) \<Rightarrow> send_event (SeFeatures (MxeSlotSet slot \<lparr>src_peer = peer, src_track = track\<rparr>)) s
      | EvAudioMixer (MixSlotUnset slot) \<Rightarrow> send_event (SeFeatures (MxeSlotUnset slot)) s
      | EvRemoteMediaTrack track_id ev \<Rightarrow>
          (case find (\<lambda>t. sr_id t = track_id) (sk_remote_tracks s) of
             None \<Rightarrow> Inr s
           | Some track \<Rightarrow>
               (case sr_mid track of
                  None \<Rightarrow> Inr s
                | Some mid \<Rightarrow>
                    (case ev of
                       RteRequestKeyFrame \<Rightarrow> Inr (sk_push s [Str0mKeyframe mid])
                     | RteLimitBitrateBps mn mx \<Rightarrow> Inr (sk_push s [Str0mLimitBitrate mid (sr_calc_limit_bitrate mn mx track)]))))
      | EvLocalMediaTrack track_id ev \<Rightarrow>
          (case find (\<lambda>t. sl_id t = track_id) (sk_local_tracks s) of
             None \<Rightarrow> Inr s
           | Some track \<Rightarrow>
               (case ev of
                  LteMedia pkt \<Rightarrow>
                    (case sl_mid track of
                       None \<Rightarrow> Inr s
                     | Some mid \<Rightarrow>
                         let s1 = (if kind_is_video (sl_kind track) then s\<lparr>sk_bwe_state := bwe_on_send_video now (sk_bwe_state s)\<rparr> else s)
                         in Inr (sk_push s1 [Str0mSendMedia mid pkt]))
                | LteStatus status \<Rightarrow> send_event (SeReceiver (sl_name track) (RevState (receiver_status_number status))) s
                | LteVoiceActivity level \<Rightarrow> send_event (SeReceiver (sl_name track) (RevVoiceActivity level)) s))
      | EvBweConfig current desired \<Rightarrow>
          (case filter_bwe_config current desired (sk_bwe_state s) of (c, d) \<Rightarrow> Inr (sk_push s [Str0mBwe c d]))
      | EvChannelMessage label peer message \<Rightarrow> send_event (SeMessageChannel label peer message) s
      | EvGoAway _ _ \<Rightarrow> Inr s)"

text \<open>The answers of the endpoint. Two of them are not implemented in the code, which panics.\<close>

definition answer_with :: "nat \<Rightarrow> proto_response \<Rightarrow> rpc_result \<Rightarrow> sdk \<Rightarrow> sdk res" where
  "answer_with req_id res r s = (case r of Inr _ \<Rightarrow> send_rpc_res req_id res s | Inl err \<Rightarrow> send_rpc_res_err req_id (endpoint_err err) s)"

definition sk_on_transport_rpc_res :: "nat \<Rightarrow> endpoint_res \<Rightarrow> sdk \<Rightarrow> sdk res" where
  "sk_on_transport_rpc_res req_id res s =
     (case res of
        ResJoinRoom r \<Rightarrow> answer_with req_id (RspSession RspJoin) r s
      | ResLeaveRoom r \<Rightarrow> answer_with req_id (RspSession RspLeave) r s
      | ResSubscribePeer _ \<Rightarrow> Inl Unreachable
      | ResUnsubscribePeer _ \<Rightarrow> Inl Unreachable
      | ResRemoteTrack _ (RtResConfig r) \<Rightarrow> answer_with req_id (RspSender RspConfig) r s
      | ResLocalTrack _ (LtResAttach r) \<Rightarrow> answer_with req_id (RspReceiver RspAttach) r s
      | ResLocalTrack _ (LtResDetach r) \<Rightarrow> answer_with req_id (RspReceiver RspDetach) r s
      | ResLocalTrack _ (LtResConfig r) \<Rightarrow> answer_with req_id (RspReceiver RspConfig) r s
      | ResAudioMixer (MixResAttach r) \<Rightarrow> answer_with req_id (RspFeatures RspMixAttach) r s
      | ResAudioMixer (MixResDetach r) \<Rightarrow> answer_with req_id (RspFeatures RspMixDetach) r s
      | ResMessageChannel label (McResSubscribe r) \<Rightarrow> answer_with req_id (RspMessageChannel label RspSub) r s
      | ResMessageChannel label (McResUnsubscribe r) \<Rightarrow> answer_with req_id (RspMessageChannel label RspUnsub) r s
      | ResMessageChannel label (McResStartPublish r) \<Rightarrow> answer_with req_id (RspMessageChannel label RspStartPub) r s
      | ResMessageChannel label (McResStopPublish r) \<Rightarrow> answer_with req_id (RspMessageChannel label RspStopPub) r s
      | ResMessageChannel label (McResPublishData r) \<Rightarrow> answer_with req_id (RspMessageChannel label RspPub) r s)"

section \<open>Requests of the client\<close>

fun add_senders :: "nat \<Rightarrow> shared_sender list \<Rightarrow> sdk_remote_track list \<Rightarrow> sdk_remote_track list" where
  "add_senders i [] ts = ts"
| "add_senders i (c # cs) ts =
     add_senders (i + 1) cs (if find (\<lambda>t. sr_name t = snd_name c) ts = None then ts @ [sr_new (i mod 2 ^ 16) c] else ts)"

fun add_receivers :: "nat \<Rightarrow> shared_receiver list \<Rightarrow> sdk_local_track list \<Rightarrow> sdk_local_track list" where
  "add_receivers i [] ts = ts"
| "add_receivers i (c # cs) ts =
     add_receivers (i + 1) cs (if local_track_by_name (rcv_name c) ts = None then ts @ [sl_new (i mod 2 ^ 16) c] else ts)"

definition on_join_req :: "(string \<Rightarrow> (app_id \<times> webrtc_token) option) \<Rightarrow> nat \<Rightarrow> proto_room_join option \<Rightarrow> string \<Rightarrow> sdk \<Rightarrow> sdk res" where
  "on_join_req decode_token req_id req_info token s =
     (let info = unwrap_or default_join req_info in
      case decode_token token of
        None \<Rightarrow> send_rpc_res_err req_id (webrtc_err RpcTokenInvalid) s
      | Some (app, t) \<Rightarrow>
          if app \<noteq> sk_app s then send_rpc_res_err req_id (webrtc_err RpcTokenAppNotMatch) s
          else if wt_room t = Some (rj_room info) \<and> wt_peer t = Some (rj_peer info)
          then Inr (sk_push s [TransportRpcReq req_id
                 (ReqJoinRoom (rj_room info) (rj_peer info) \<lparr>pm_metadata = rj_metadata info, pm_extra_data = sk_extra_data s\<rparr>
                    (unwrap_or default_publish (rj_publish info)) (unwrap_or default_subscribe (rj_subscribe info))
                    (map_option (mixer_into (sk_local_tracks s)) (Option.bind (rj_features info) id)))])
          else send_rpc_res_err req_id (webrtc_err RpcTokenRoomPeerNotMatch) s)"

definition on_session_req :: "(string \<Rightarrow> (app_id \<times> webrtc_token) option) \<Rightarrow> nat \<Rightarrow> session_request \<Rightarrow> sdk \<Rightarrow> sdk res" where
  "on_session_req decode_token req_id req s =
     (case req of
        SesJoin info token \<Rightarrow> on_join_req decode_token req_id info token s
      | SesLeave \<Rightarrow> Inr (sk_push s [TransportRpcReq req_id ReqLeaveRoom])
      | SesSdp tracks sdp \<Rightarrow>
          (let ts = unwrap_or default_tracks tracks;
               s1 = s\<lparr>sk_remote_tracks := add_senders 0 (st_senders ts) (sk_remote_tracks s)\<rparr>;
               s2 = s1\<lparr>sk_local_tracks := add_receivers 0 (st_receivers ts) (sk_local_tracks s1)\<rparr>
           in Inr (sk_push s2 [SetRemoteSdp req_id sdp]))
      | SesDisconnect \<Rightarrow>
          if sk_state s \<noteq> StDisconnected
          then send_rpc_res req_id (RspSession RspDisconnect)
                 (sk_push (s\<lparr>sk_state := StDisconnected\<rparr>) [TransportEv (TeState (TsDisconnected None))])
          else send_rpc_res_err req_id (webrtc_err RpcAlreadyDisconnected) s)"

definition on_sender_req :: "nat \<Rightarrow> string \<Rightarrow> sender_request \<Rightarrow> sdk \<Rightarrow> sdk res" where
  "on_sender_req req_id name req s =
     (case find (\<lambda>t. sr_name t = name) (sk_remote_tracks s) of
        None \<Rightarrow> send_rpc_res_err req_id (webrtc_err RpcTrackNameNotFound) s
      | Some track \<Rightarrow>
          (case req of
             SndAttach source _ \<Rightarrow>
               if \<not> sr_has_source track
               then let set_source = sr_set_source (unwrap_or default_source source);
                        s1 = s\<lparr>sk_remote_tracks := update_first (\<lambda>t. sr_name t = name) set_source (sk_remote_tracks s)\<rparr>
                    in res_bind (send_rpc_res req_id (RspSender RspAttach) s1) (\<lambda>s2. Inr (sk_push s2 [sr_started (set_source track)]))
               else send_rpc_res_err req_id (webrtc_err RpcTrackAlreadyAttached) s
           | SndDetach \<Rightarrow>
               if sr_has_source track
               then let s1 = s\<lparr>sk_remote_tracks := update_first (\<lambda>t. sr_name t = name) sr_del_source (sk_remote_tracks s)\<rparr>
                    in res_bind (send_rpc_res req_id (RspSender RspDetach) s1) (\<lambda>s2. Inr (sk_push s2 [TransportEv (TeRemoteTrack (sr_id track) TreEnded)]))
               else send_rpc_res_err req_id (webrtc_err RpcTrackNotAttached) s
           | SndConfig config \<Rightarrow> Inr (sk_push s [TransportRpcReq req_id (ReqRemoteTrack (sr_id track) (RtReqConfig (sender_config_into config)))])))"

definition on_recever_req :: "nat \<Rightarrow> string \<Rightarrow> receiver_request \<Rightarrow> sdk \<Rightarrow> sdk res" where
  "on_recever_req req_id name req s =
     (case local_track_by_name name (sk_local_tracks s) of
        None \<Rightarrow> send_rpc_res_err req_id (webrtc_err RpcTrackNameNotFound) s
      | Some track \<Rightarrow>
          Inr (sk_push s [TransportRpcReq req_id (ReqLocalTrack (sl_id track)
            (case req of
               RcvAttach source config \<Rightarrow>
                 LtReqAttach (unwrap_or default_track_source source) (receiver_config_into (unwrap_or default_receiver_config config))
             | RcvDetach \<Rightarrow> LtReqDetach
             | RcvConfig config \<Rightarrow> LtReqConfig (receiver_config_into config)))]))"

definition on_mixer_request :: "nat \<Rightarrow> mixer_request \<Rightarrow> sdk \<Rightarrow> sdk res" where
  "on_mixer_request req_id req s =
     Inr (sk_push s [TransportRpcReq req_id (ReqAudioMixer (case req of MxAttach sources \<Rightarrow> MixReqAttach sources | MxDetach sources \<Rightarrow> MixReqDetach sources))])"

definition on_msg_chan_req :: "nat \<Rightarrow> channel_label \<Rightarrow> msg_request \<Rightarrow> sdk \<Rightarrow> sdk res" where
  "on_msg_chan_req req_id label req s =
     Inr (sk_push s [TransportRpcReq req_id (ReqMessageChannel label
       (case req of MsgSub \<Rightarrow> McReqSubscribe | MsgUnsub \<Rightarrow> McReqUnsubscribe | MsgStartPub \<Rightarrow> McReqStartPublish | MsgStopPub \<Rightarrow> McReqStopPublish
        | MsgPub bytes \<Rightarrow> McReqPublishData bytes))])"

text \<open>Requests about peers of a room are not implemented in the code, which panics.\<close>

definition on_room_req :: "nat \<Rightarrow> room_request \<Rightarrow> sdk \<Rightarrow> sdk res" where
  "on_room_req req_id req s = Inl Unreachable"

definition on_str0m_channel_event :: "(string \<Rightarrow> (app_id \<times> webrtc_token) option) \<Rightarrow> client_event \<Rightarrow> sdk \<Rightarrow> sdk res" where
  "on_str0m_channel_event decode_token event s =
     (case ce_event event of
        None \<Rightarrow> Inr s
      | Some req \<Rightarrow>
          (let i = cq_req_id req; invalid = send_rpc_res_err i (webrtc_err RpcInvalidRequest) s in
           case cq_request req of
             Some (RqSession r) \<Rightarrow> (case r of Some q \<Rightarrow> on_session_req decode_token i q s | None \<Rightarrow> invalid)
           | Some (RqSender name r) \<Rightarrow> (case r of Some q \<Rightarrow> on_sender_req i name q s | None \<Rightarrow> invalid)
           | Some (RqReceiver name r) \<Rightarrow> (case r of Some q \<Rightarrow> on_recever_req i name q s | None \<Rightarrow> invalid)
           | Some (RqRoom r) \<Rightarrow> (case r of Some q \<Rightarrow> on_room_req i q s | None \<Rightarrow> invalid)
           | Some (RqMessageChannel label r) \<Rightarrow> (case r of Some q \<Rightarrow> on_msg_chan_req i label q s | None \<Rightarrow> invalid)
           | Some (RqFeatures r) \<Rightarrow> (case r of Some (Some q) \<Rightarrow> on_mixer_request i q s | _ \<Rightarrow> Inr s)
           | None \<Rightarrow> invalid))"

section \<open>Events of the library\<close>

definition on_remote_track_media :: "string \<Rightarrow> media_packet \<Rightarrow> sdk \<Rightarrow> sdk" where
  "on_remote_track_media mid pkt s =
     (case find (\<lambda>t. sr_mid t = Some mid \<and> sr_has_source t) (sk_remote_tracks s) of
        None \<Rightarrow> s
      | Some track \<Rightarrow> sk_push s [TransportEv (TeRemoteTrack (sr_id track) (TreMedia pkt))])"

definition sk_on_str0m_state :: "nat \<Rightarrow> ice_connection_state \<Rightarrow> sdk \<Rightarrow> sdk" where
  "sk_on_str0m_state now ice s = (case conn_ice (sk_remote s) now ice (sk_state s) of (st, cs) \<Rightarrow> sk_push (s\<lparr>sk_state := st\<rparr>) cs)"

definition sk_on_str0m_media_added :: "media_added \<Rightarrow> sdk \<Rightarrow> sdk res" where
  "sk_on_str0m_media_added media s =
     (case ma_direction media of
        SendOnly \<Rightarrow>
          (case find (\<lambda>t. sl_mid t = None) (sk_local_tracks s) of
             None \<Rightarrow> Inr s
           | Some track \<Rightarrow>
               res_bind (sl_set_mid (ma_mid media) track) (\<lambda>track1.
               Inr (sk_push (s\<lparr>sk_local_tracks := update_first (\<lambda>t. sl_mid t = None) (\<lambda>_. track1) (sk_local_tracks s)\<rparr>)
                 [TransportEv (TeLocalTrack (sl_id track1) (TleStarted (sl_kind track1)))])))
      | DirInactive \<Rightarrow> Inr s
      | _ \<Rightarrow>
          (case find (\<lambda>t. sr_mid t = None) (sk_remote_tracks s) of
             None \<Rightarrow> Inr s
           | Some track \<Rightarrow>
               res_bind (sr_set_str0m (ma_mid media) (ma_simulcast media) track) (\<lambda>track1.
               Inr (sk_push (s\<lparr>sk_remote_tracks := update_first (\<lambda>t. sr_mid t = None) (\<lambda>_. track1) (sk_remote_tracks s)\<rparr>)
                 (if sr_has_source track1 then [sr_started track1] else [])))))"

definition join_on_open :: "sdk \<Rightarrow> sdk" where
  "join_on_open s =
     (case sk_join s of
        None \<Rightarrow> s
      | Some (room, peer, metadata, publish, subscribe) \<Rightarrow>
          sk_push (s\<lparr>sk_audio_mixer := None\<rparr>)
            [TransportRpcReq 0 (ReqJoinRoom room peer \<lparr>pm_metadata = metadata, pm_extra_data = sk_extra_data s\<rparr> publish subscribe (sk_audio_mixer s))])"

definition sk_on_str0m_event :: "(string \<Rightarrow> (app_id \<times> webrtc_token) option) \<Rightarrow> nat \<Rightarrow> str0m_event \<Rightarrow> sdk \<Rightarrow> sdk res" where
  "sk_on_str0m_event decode_token now event s =
     (case event of
        SChannelOpen channel \<Rightarrow>
          Inr (join_on_open (sk_push (s\<lparr>sk_state := StConnected, sk_channel := Some channel\<rparr>) [TransportEv (TeState (TsConnected (sk_remote s)))]))
      | SChannelData m \<Rightarrow> (case m of None \<Rightarrow> Inr s | Some ev \<Rightarrow> on_str0m_channel_event decode_token ev s)
      | SChannelClose _ \<Rightarrow>
          Inr (if sk_state s \<noteq> StDisconnected then sk_push (s\<lparr>sk_state := StDisconnected\<rparr>) [TransportEv (TeState (TsDisconnected None))] else s)
      | SIceState ice \<Rightarrow> Inr (sk_on_str0m_state now ice s)
      | SMediaAdded media \<Rightarrow> sk_on_str0m_media_added media s
      | SKeyframeRequest mid \<Rightarrow>
          Inr (case find (\<lambda>t. sl_mid t = Some mid) (sk_local_tracks s) of
                 None \<Rightarrow> s
               | Some track \<Rightarrow> sk_push s [TransportEv (TeLocalTrack (sl_id track) TleRequestKeyFrame)])
      | SRtpPacket rtp \<Rightarrow>
          (case get_mid (rtp_ssrc rtp) (rtp_mid rtp) (sk_media_convert s) of
             (None, c) \<Rightarrow> Inr (s\<lparr>sk_media_convert := c\<rparr>)
           | (Some mid, c) \<Rightarrow>
               res_bind (remote_convert rtp c) (\<lambda>(pkt, c1).
               let s1 = s\<lparr>sk_media_convert := c1\<rparr> in
               Inr (case pkt of None \<Rightarrow> s1 | Some p \<Rightarrow> on_remote_track_media mid p s1)))
      | SStreamPaused mid ssrc paused \<Rightarrow>
          (let s1 = s\<lparr>sk_media_convert := snd (get_mid ssrc (Some mid) (sk_media_convert s))\<rparr> in
           case find (\<lambda>t. sr_mid t = Some mid \<and> sr_has_source t) (sk_remote_tracks s1) of
             None \<Rightarrow> Inr s1
           | Some track \<Rightarrow> send_event (SeSender (sr_name track) (if paused then 1 else 0)) s1)
      | SEgressBitrateEstimate bitrate \<Rightarrow>
          Inr (sk_push s [TransportEv (TeEgressBitrateEstimate (of_nat (filter_bwe bitrate (sk_bwe_state s))))])
      | _ \<Rightarrow> Inr s)"

definition sk_on_shutdown :: "sdk \<Rightarrow> sdk" where
  "sk_on_shutdown s =
     (if \<not> is_shutdown (sk_state s) then sk_push (s\<lparr>sk_state := StDisconnected\<rparr>) [TransportEv (TeState (TsDisconnected None))] else s)"

definition sk_pop_output :: "sdk \<Rightarrow> internal_command option \<times> sdk" where
  "sk_pop_output s = (case sk_queue s of [] \<Rightarrow> (None, s) | c # cs \<Rightarrow> (Some c, s\<lparr>sk_queue := cs\<rparr>))"

section \<open>Runs\<close>

datatype sdk_call = SkConfig "(nat \<times> codec_spec) list" | SkTick nat | SkEndpoint nat transport_endpoint_event | SkRes nat endpoint_res
  | SkRpcRes nat "webrtc_error + string" | SkStr0m nat str0m_event | SkShutdown | SkPop

fun asks_peers :: "str0m_event \<Rightarrow> bool" where
  "asks_peers (SChannelData (Some ev)) \<longleftrightarrow> (case ce_event ev of Some q \<Rightarrow> (case cq_request q of Some (RqRoom (Some _)) \<Rightarrow> True | _ \<Rightarrow> False) | None \<Rightarrow> False)"
| "asks_peers _ \<longleftrightarrow> False"

fun answers_peers :: "endpoint_res \<Rightarrow> bool" where
  "answers_peers (ResSubscribePeer _) = True"
| "answers_peers (ResUnsubscribePeer _) = True"
| "answers_peers _ = False"

text \<open>The contract of the calls: the library opens a channel only while a connection is made or held and hands over packets that can be
  read, the client does not use the requests that are not implemented, and the session has sent fewer than \<open>2 ^ 32 - 1\<close> messages.\<close>

fun sk_pre_call :: "sdk_call \<Rightarrow> sdk \<Rightarrow> bool" where
  "sk_pre_call (SkStr0m now (SChannelOpen ch)) s \<longleftrightarrow> sk_state s \<noteq> StNew \<and> \<not> is_shutdown (sk_state s)"
| "sk_pre_call (SkStr0m now (SRtpPacket rtp)) s \<longleftrightarrow> rtp_readable rtp"
| "sk_pre_call (SkStr0m now e) s \<longleftrightarrow> \<not> asks_peers e"
| "sk_pre_call (SkRes i res) s \<longleftrightarrow> \<not> answers_peers res"
| "sk_pre_call _ s \<longleftrightarrow> True"

definition numbers_left :: "sdk \<Rightarrow> bool" where
  "numbers_left s \<longleftrightarrow> sk_event_seq s + 1 < 2 ^ 32"

definition sk_pre :: "sdk_call \<Rightarrow> sdk \<Rightarrow> bool" where
  "sk_pre call s \<longleftrightarrow> numbers_left s \<and> sk_pre_call call s"

definition no_output :: "sdk res \<Rightarrow> (internal_command option \<times> sdk) res" where
  "no_output r = res_bind r (\<lambda>s1. Inr (None, s1))"

fun sk_call :: "(string \<Rightarrow> (app_id \<times> webrtc_token) option) \<Rightarrow> sdk_call \<Rightarrow> sdk \<Rightarrow> (internal_command option \<times> sdk) res" where
  "sk_call dec (SkConfig cfg) s = Inr (None, sk_on_codec_config cfg s)"
| "sk_call dec (SkTick now) s = Inr (None, sk_on_tick now s)"
| "sk_call dec (SkEndpoint now e) s = no_output (sk_on_endpoint_event now e s)"
| "sk_call dec (SkRes i res) s = no_output (sk_on_transport_rpc_res i res s)"
| "sk_call dec (SkRpcRes i res) s = no_output (sk_on_rpc_res i res s)"
| "sk_call dec (SkStr0m now e) s = no_output (sk_on_str0m_event dec now e s)"
| "sk_call dec SkShutdown s = Inr (None, sk_on_shutdown s)"
| "sk_call dec SkPop s = Inr (sk_pop_output s)"

text \<open>The messages sent to the client, the rooms and peers asked to be joined, and the requests answered or passed on.\<close>

definition sent :: "internal_command list \<Rightarrow> server_event list" where
  "sent cs = List.map_filter (\<lambda>c. case c of Str0mSendData _ ev \<Rightarrow> Some ev | _ \<Rightarrow> None) cs"

definition joins :: "internal_command list \<Rightarrow> (room_id \<times> peer_id) list" where
  "joins cs = List.map_filter (\<lambda>c. case c of TransportRpcReq _ (ReqJoinRoom room peer _ _ _ _) \<Rightarrow> Some (room, peer) | _ \<Rightarrow> None) cs"

fun deals_with :: "internal_command \<Rightarrow> nat option" where
  "deals_with (Str0mSendData _ ev) = (case se_event ev of SeResponse i _ \<Rightarrow> Some i | _ \<Rightarrow> None)"
| "deals_with (TransportRpcReq i _) = Some i"
| "deals_with (SetRemoteSdp i _) = Some i"
| "deals_with _ = None"

definition dealt_with :: "internal_command list \<Rightarrow> nat list" where
  "dealt_with cs = List.map_filter deals_with cs"

lemma sent_append [simp]: "sent (cs @ ds) = sent cs @ sent ds" by (simp add: sent_def List.map_filter_def)
lemma joins_append [simp]: "joins (cs @ ds) = joins cs @ joins ds" by (simp add: joins_def List.map_filter_def)
lemma dealt_append [simp]: "dealt_with (cs @ ds) = dealt_with cs @ dealt_with ds" by (simp add: dealt_with_def List.map_filter_def)

lemma said_lists [simp]:
  "sent [] = []" "joins [] = []" "dealt_with [] = []"
  "sent (c # cs) = (case c of Str0mSendData _ ev \<Rightarrow> ev # sent cs | _ \<Rightarrow> sent cs)"
  "joins (c # cs) = (case c of TransportRpcReq _ (ReqJoinRoom room peer _ _ _ _) \<Rightarrow> (room, peer) # joins cs | _ \<Rightarrow> joins cs)"
  "dealt_with (c # cs) = (case deals_with c of Some i \<Rightarrow> i # dealt_with cs | None \<Rightarrow> dealt_with cs)"
  by (simp_all add: sent_def joins_def dealt_with_def List.map_filter_def split: internal_command.split endpoint_req.split option.split)

text \<open>A peer may enter a room when the request that made the session says so, or with a token of the session's application for both.\<close>

definition may_join :: "(string \<Rightarrow> (app_id \<times> webrtc_token) option) \<Rightarrow> app_id \<Rightarrow> (room_id \<times> peer_id) option \<Rightarrow> room_id \<times> peer_id \<Rightarrow> bool" where
  "may_join dec app first rp \<longleftrightarrow> first = Some rp \<or> (\<exists>token t. dec token = Some (app, t) \<and> wt_room t = Some (fst rp) \<and> wt_peer t = Some (snd rp))"

definition first_join :: "sdk \<Rightarrow> (room_id \<times> peer_id) option" where
  "first_join s = map_option (\<lambda>(room, peer, _). (room, peer)) (sk_join s)"

text \<open>What one call adds.\<close>

definition says :: "(string \<Rightarrow> (app_id \<times> webrtc_token) option) \<Rightarrow> sdk \<Rightarrow> internal_command list \<Rightarrow> sdk \<Rightarrow> bool" where
  "says dec s cs s1 \<longleftrightarrow> sk_queue s1 = sk_queue s @ cs \<and> sk_app s1 = sk_app s \<and> sk_join s1 = sk_join s \<and>
     sk_event_seq s \<le> sk_event_seq s1 \<and> map se_seq (sent cs) = [sk_event_seq s..<sk_event_seq s1] \<and>
     conn_talks (phase_of (sk_state s)) (said_states cs) = Some (phase_of (sk_state s1)) \<and>
     list_all (may_join dec (sk_app s) (first_join s)) (joins cs)"

definition sk_ok :: "(string \<Rightarrow> (app_id \<times> webrtc_token) option) \<Rightarrow> app_id \<Rightarrow> (room_id \<times> peer_id) option \<Rightarrow> internal_command list \<Rightarrow> sdk \<Rightarrow> bool" where
  "sk_ok dec app first log s \<longleftrightarrow> sk_app s = app \<and> first_join s = first \<and> map se_seq (sent log) = [0..<sk_event_seq s] \<and>
     conn_talks PhNew (said_states log) = Some (phase_of (sk_state s)) \<and> list_all (may_join dec app first) (joins log)"

lemma says_ok: "sk_ok dec app first log s \<Longrightarrow> says dec s cs s1 \<Longrightarrow> sk_ok dec app first (log @ cs) s1"
  by (auto simp: sk_ok_def says_def first_join_def conn_talks_append upt_add_eq_append[symmetric] dest: le_Suc_ex)

lemma says_trans: "says dec s cs s1 \<Longrightarrow> says dec s1 ds s2 \<Longrightarrow> says dec s (cs @ ds) s2"
  by (auto simp: says_def first_join_def conn_talks_append upt_add_eq_append[symmetric] dest!: le_Suc_ex)

lemma says_nothing [simp]: "says dec s [] s"
  by (simp add: says_def)

lemma says_push:
  assumes "says dec s [] s1" "sent cs = []" "said_states cs = []" "list_all (may_join dec (sk_app s) (first_join s)) (joins cs)"
  shows "says dec s cs (sk_push s1 cs)"
  using assms by (simp add: says_def sk_push_def)

lemma sk_push_fields [simp]: "sk_event_seq (sk_push s cs) = sk_event_seq s" "sk_channel (sk_push s cs) = sk_channel s" "sk_queue (sk_push s cs) = sk_queue s @ cs"
  by (simp_all add: sk_push_def)

lemma says_state:
  assumes "conn_talks (phase_of (sk_state s)) (said_states cs) = Some (phase_of st)" "sent cs = []" "joins cs = []"
  shows "says dec s cs (sk_push (s\<lparr>sk_state := st\<rparr>) cs)"
  using assms by (simp add: says_def sk_push_def)

text \<open>Changes of the tables say nothing.\<close>

lemma says_tables [simp]:
  "says dec s cs (s1\<lparr>sk_media_convert := c\<rparr>) = says dec s cs s1" "says dec s cs (s1\<lparr>sk_bwe_state := b\<rparr>) = says dec s cs s1"
  "says dec s cs (s1\<lparr>sk_local_tracks := l\<rparr>) = says dec s cs s1" "says dec s cs (s1\<lparr>sk_remote_tracks := r\<rparr>) = says dec s cs s1"
  "says dec s cs (s1\<lparr>sk_audio_mixer := m\<rparr>) = says dec s cs s1" "says dec s cs (s1\<lparr>sk_channel := h\<rparr>) = says dec s cs s1"
  by (simp_all add: says_def)

text \<open>A call that succeeds and adds to what was said.\<close>

definition fine :: "(string \<Rightarrow> (app_id \<times> webrtc_token) option) \<Rightarrow> sdk \<Rightarrow> sdk res \<Rightarrow> bool" where
  "fine dec s r \<longleftrightarrow> (\<exists>s1 cs. r = Inr s1 \<and> says dec s cs s1)"

lemma fine_same: "says dec s [] s1 \<Longrightarrow> fine dec s (Inr s1)"
  by (auto simp: fine_def)

lemma fine_push: "says dec s [] s1 \<Longrightarrow> sent cs = [] \<Longrightarrow> said_states cs = [] \<Longrightarrow> list_all (may_join dec (sk_app s) (first_join s)) (joins cs) \<Longrightarrow>
    fine dec s (Inr (sk_push s1 cs))"
  using says_push unfolding fine_def by blast

lemma fine_state: "conn_talks (phase_of (sk_state s)) (said_states cs) = Some (phase_of st) \<Longrightarrow> sent cs = [] \<Longrightarrow> joins cs = [] \<Longrightarrow>
    fine dec s (Inr (sk_push (s\<lparr>sk_state := st\<rparr>) cs))"
  using says_state unfolding fine_def by blast

lemma fine_send:
  assumes "numbers_left s" "says dec s cs s1" "sk_event_seq s1 = sk_event_seq s"
  shows "fine dec s (send_event e s1)"
proof (cases "sk_channel s1")
  case None
  then show ?thesis using assms by (auto simp: fine_def send_event_def)
next
  case (Some ch)
  let ?m = "[Str0mSendData ch \<lparr>se_seq = sk_event_seq s1, se_event = e\<rparr>]"
  have "says dec s1 ?m (sk_push (s1\<lparr>sk_event_seq := sk_event_seq s1 + 1\<rparr>) ?m)" by (simp add: says_def sk_push_def)
  then show ?thesis using says_trans[OF assms(2)] assms(1,3) Some by (auto simp: fine_def send_event_def numbers_left_def)
qed

lemma fine_answer: "numbers_left s \<Longrightarrow> says dec s [] s1 \<Longrightarrow> sk_event_seq s1 = sk_event_seq s \<Longrightarrow> fine dec s (send_event e s1)"
  by (rule fine_send)

lemma fine_then_push: "fine dec s r \<Longrightarrow> sent cs = [] \<Longrightarrow> said_states cs = [] \<Longrightarrow> joins cs = [] \<Longrightarrow> fine dec s (res_bind r (\<lambda>s1. Inr (sk_push s1 cs)))"
  unfolding fine_def using says_trans says_push[OF says_nothing] by (metis list.pred_inject(1) res_bind.simps(2))

lemmas fine_rules = fine_same fine_push fine_answer fine_then_push

section \<open>Every call\<close>

lemma answer_fine: "numbers_left s \<Longrightarrow> fine dec s (answer_with i res r s)"
  by (auto simp: answer_with_def send_rpc_res_def send_rpc_res_err_def split: sum.split intro: fine_answer)

lemma endpoint_event_fine: "numbers_left s \<Longrightarrow> fine dec s (sk_on_endpoint_event now e s)"
  by (auto simp: sk_on_endpoint_event_def Let_def split: transport_endpoint_event.split endpoint_audio_mixer_event.split option.split
      endpoint_remote_track_event.split endpoint_local_track_event.split prod.split intro: fine_rules)

lemma transport_rpc_res_fine: "numbers_left s \<Longrightarrow> \<not> answers_peers res \<Longrightarrow> fine dec s (sk_on_transport_rpc_res i res s)"
  by (cases res) (auto simp: sk_on_transport_rpc_res_def answer_fine split: endpoint_remote_track_res.split endpoint_local_track_res.split
      endpoint_audio_mixer_res.split endpoint_message_channel_res.split)

lemma rpc_res_fine: "numbers_left s \<Longrightarrow> fine dec s (sk_on_rpc_res i res s)"
  by (auto simp: sk_on_rpc_res_def send_rpc_res_def send_rpc_res_err_def split: sum.split intro: fine_answer)

lemma join_req_fine: "numbers_left s \<Longrightarrow> fine dec s (on_join_req dec i info token s)"
  by (auto simp: on_join_req_def Let_def send_rpc_res_err_def may_join_def split: option.split intro!: fine_answer fine_push)

lemma session_req_fine: "numbers_left s \<Longrightarrow> fine dec s (on_session_req dec i req s)"
  by (cases req) (auto simp: on_session_req_def Let_def send_rpc_res_def send_rpc_res_err_def join_req_fine conn_ended
      intro: fine_answer fine_push fine_send[OF _ says_state])

lemma sender_req_fine: "numbers_left s \<Longrightarrow> fine dec s (on_sender_req i name req s)"
  by (auto simp: on_sender_req_def Let_def send_rpc_res_def send_rpc_res_err_def sr_started_def split: option.split sender_request.split
      intro!: fine_answer fine_push fine_then_push)

lemma channel_event_fine: "numbers_left s \<Longrightarrow> \<not> asks_peers (SChannelData (Some ev)) \<Longrightarrow> fine dec s (on_str0m_channel_event dec ev s)"
  by (auto simp: on_str0m_channel_event_def Let_def send_rpc_res_err_def on_recever_req_def on_mixer_request_def on_msg_chan_req_def
      session_req_fine sender_req_fine split: option.split proto_request.split intro: fine_answer fine_push fine_same)

lemma find_mid: "find (\<lambda>t. sl_mid t = None) ls = Some t \<Longrightarrow> sl_mid t = None" "find (\<lambda>t. sr_mid t = None) rs = Some t1 \<Longrightarrow> sr_mid t1 = None"
  by (auto simp: find_Some_iff)

lemma media_added_fine: "fine dec s (sk_on_str0m_media_added media s)"
  by (auto simp: sk_on_str0m_media_added_def sl_set_mid_def sr_set_str0m_def rassert_def Let_def sr_started_def dest: find_mid
      split: direction.split option.split intro: fine_same fine_push)

lemma tick_fine: "fine dec s (Inr (sk_on_tick now s))"
proof -
  obtain b reset where b: "bwe_on_tick now (sk_bwe_state s) = (b, reset)" by (cases "bwe_on_tick now (sk_bwe_state s)")
  let ?cs = "case reset of None \<Rightarrow> [] | Some rate \<Rightarrow> [Str0mResetBwe rate]"
  let ?s1 = "sk_push (s\<lparr>sk_bwe_state := b\<rparr>) ?cs"
  have 1: "says dec s ?cs ?s1" by (rule says_push) (simp_all split: option.split)
  obtain st cs where c: "conn_tick (sk_remote ?s1) now (sk_state ?s1) = (st, cs)" by (cases "conn_tick (sk_remote ?s1) now (sk_state ?s1)")
  have "sent cs = []" "joins cs = []" using c by (auto simp: conn_tick_def split: conn_state.splits if_splits)
  then have "says dec ?s1 cs (sk_push (?s1\<lparr>sk_state := st\<rparr>) cs)" using conn_tick_talks[OF c] by (intro says_state)
  then show ?thesis using says_trans[OF 1] b c by (auto simp: fine_def sk_on_tick_def Let_def)
qed

lemma join_open_fine: "fine dec s (Inr (join_on_open s))"
  by (auto simp: join_on_open_def may_join_def first_join_def split: option.split intro: fine_same fine_push)

lemma open_fine:
  assumes "sk_state s \<noteq> StNew" "\<not> is_shutdown (sk_state s)"
  shows "fine dec s (sk_on_str0m_event dec now (SChannelOpen ch) s)"
proof -
  let ?c = "[TransportEv (TeState (TsConnected (sk_remote s)))]"
  let ?s1 = "sk_push (s\<lparr>sk_state := StConnected, sk_channel := Some ch\<rparr>) ?c"
  have "conn_talk (phase_of (sk_state s)) (TsConnected (sk_remote s)) = Some PhConnected" using assms by (cases "sk_state s") simp_all
  then have 1: "says dec s ?c ?s1" by (simp add: says_def sk_push_def)
  show ?thesis using says_trans[OF 1] join_open_fine[of dec ?s1] by (auto simp: fine_def sk_on_str0m_event_def)
qed

lemma media_fine: "fine dec s (Inr (on_remote_track_media mid pkt (s\<lparr>sk_media_convert := c\<rparr>)))"
  by (auto simp: on_remote_track_media_def split: option.split intro: fine_same fine_push)

lemma packet_fine:
  assumes "rtp_readable rtp"
  shows "fine dec s (sk_on_str0m_event dec now (SRtpPacket rtp) s)"
proof -
  obtain m c where m: "get_mid (rtp_ssrc rtp) (rtp_mid rtp) (sk_media_convert s) = (m, c)" by (cases "get_mid (rtp_ssrc rtp) (rtp_mid rtp) (sk_media_convert s)")
  obtain pkt c1 where p: "remote_convert rtp c = Inr (pkt, c1)" using readable_converts[OF assms, of c] by auto
  have same: "fine dec s (Inr (s\<lparr>sk_media_convert := x\<rparr>))" for x by (simp add: fine_same)
  show ?thesis using m p same media_fine by (cases m; cases pkt) (simp_all add: sk_on_str0m_event_def)
qed

lemma str0m_event_fine:
  assumes left: "numbers_left s" and pre: "sk_pre_call (SkStr0m now e) s"
  shows "fine dec s (sk_on_str0m_event dec now e s)"
proof (cases e)
  case (SIceState ice)
  obtain st cs where c: "conn_ice (sk_remote s) now ice (sk_state s) = (st, cs)" by (cases "conn_ice (sk_remote s) now ice (sk_state s)")
  have "sent cs = []" "joins cs = []" using c by (auto simp: conn_ice_def split: conn_state.splits if_splits)
  then show ?thesis using fine_state[OF conn_ice_talks[OF c]] SIceState c by (simp add: sk_on_str0m_event_def sk_on_str0m_state_def)
next
  case (SChannelOpen ch)
  then show ?thesis using open_fine pre by simp
next
  case (SRtpPacket rtp)
  then show ?thesis using packet_fine pre by simp
next
  case (SChannelData m)
  then show ?thesis using channel_event_fine[OF left] pre by (cases m) (auto simp: sk_on_str0m_event_def intro: fine_same)
next
  case (SMediaAdded media)
  then show ?thesis using media_added_fine by (simp add: sk_on_str0m_event_def)
next
  case (SChannelClose ch)
  then show ?thesis by (auto simp: sk_on_str0m_event_def conn_ended intro: fine_same fine_state)
qed (auto simp: sk_on_str0m_event_def Let_def left split: option.split intro: fine_rules)

lemma sk_call_fine:
  assumes "sk_pre call s" "call \<noteq> SkPop"
  shows "\<exists>s1 cs. sk_call dec call s = Inr (None, s1) \<and> says dec s cs s1"
proof -
  have pre: "numbers_left s" "sk_pre_call call s" using assms(1) by (simp_all add: sk_pre_def)
  have out: "\<exists>s1 cs. no_output r = Inr (None, s1) \<and> says dec s cs s1" if "fine dec s r" for r
    using that by (auto simp: fine_def no_output_def)
  show ?thesis
  proof (cases call)
    case (SkTick now)
    then show ?thesis using tick_fine by (simp add: fine_def)
  next
    case SkShutdown
    have "fine dec s (Inr (sk_on_shutdown s))" by (auto simp: sk_on_shutdown_def conn_ended intro: fine_same fine_state)
    then show ?thesis using SkShutdown by (simp add: fine_def)
  next
    case (SkStr0m now e)
    then show ?thesis using out[OF str0m_event_fine[OF pre(1)]] pre(2) by simp
  next
    case (SkRes i res)
    then show ?thesis using out[OF transport_rpc_res_fine[OF pre(1)]] pre(2) by simp
  next
    case (SkConfig cfg)
    then show ?thesis using says_nothing[of dec s] by (auto simp: sk_on_codec_config_def simp del: says_nothing)
  qed (use assms(2) out endpoint_event_fine[OF pre(1)] rpc_res_fine[OF pre(1)] in auto)
qed

lemma sk_ok_queue [simp]: "sk_ok dec app first log (s\<lparr>sk_queue := q\<rparr>) = sk_ok dec app first log s"
  by (simp add: sk_ok_def first_join_def)

interpretation sk: webrtc_session "sk_call dec" sk_pre sk_queue sk_state "sk_ok dec app first" for dec app first
proof
  show "\<exists>out s1. sk_call dec c s = Inr (out, s1)" if "sk_pre c s" for c s
    using sk_call_fine[OF that, of dec] by (cases "c = SkPop"; cases "sk_pop_output s") auto
  show "sk_ok dec app first (said @ (case out of None \<Rightarrow> [] | Some x \<Rightarrow> [x]) @ sk_queue s1) s1"
    if ok: "sk_ok dec app first (said @ sk_queue s) s" and pre: "sk_pre c s" and run: "sk_call dec c s = Inr (out, s1)" for said s c out s1
  proof (cases "c = SkPop")
    case True
    then show ?thesis using ok run by (auto simp: sk_pop_output_def split: list.splits)
  next
    case False
    then obtain cs where "out = None" "says dec s cs s1" using sk_call_fine[OF pre False, of dec] run by auto
    then show ?thesis using says_ok[OF ok] by (simp add: says_def)
  qed
  show "conn_talks PhNew (said_states log) = Some (phase_of (sk_state s))" if "sk_ok dec app first log s" for log s
    using that by (simp add: sk_ok_def)
qed

lemma sk_new_fields: "sk_queue (sk_new app req extra remote) = []" "sk_app (sk_new app req extra remote) = app" "sk_event_seq (sk_new app req extra remote) = 0"
  "sk_state (sk_new app req extra remote) = StNew" "first_join (sk_new app req extra remote) = map_option (\<lambda>j. (rj_room j, rj_peer j)) (cr_join req)"
  by (simp_all add: sk_new_def Let_def first_join_def split: option.split)

lemma sk_new_ok: "sk_ok dec app (map_option (\<lambda>j. (rj_room j, rj_peer j)) (cr_join req)) (sk_queue (sk_new app req extra remote)) (sk_new app req extra remote)"
  by (simp add: sk_ok_def sk_new_fields)

section \<open>Requests are dealt with once\<close>

fun answerable :: "proto_request option \<Rightarrow> bool" where
  "answerable (Some (RqRoom (Some _))) = False"
| "answerable (Some (RqFeatures r)) \<longleftrightarrow> (case r of Some (Some _) \<Rightarrow> True | _ \<Rightarrow> False)"
| "answerable _ = True"

text \<open>A result that deals with request \<open>i\<close> and no other.\<close>

definition deals :: "nat \<Rightarrow> sdk \<Rightarrow> sdk res \<Rightarrow> bool" where
  "deals i s r \<longleftrightarrow> (\<exists>s1 cs. r = Inr s1 \<and> sk_queue s1 = sk_queue s @ cs \<and> dealt_with cs = [i])"

lemma deals_push: "sk_queue s1 = sk_queue s \<Longrightarrow> dealt_with cs = [i] \<Longrightarrow> deals i s (Inr (sk_push s1 cs))"
  by (auto simp: deals_def)

lemma deals_answer:
  assumes "numbers_left s" "sk_channel s = Some ch" "sk_channel s1 = sk_channel s" "sk_event_seq s1 = sk_event_seq s"
    "sk_queue s1 = sk_queue s @ cs" "dealt_with cs = []"
  shows "deals i s (send_event (SeResponse i r) s1)"
  using assms by (auto simp: deals_def send_event_def numbers_left_def)

lemma deals_then_push: "deals i s r \<Longrightarrow> dealt_with cs = [] \<Longrightarrow> deals i s (res_bind r (\<lambda>s1. Inr (sk_push s1 cs)))"
  by (auto simp: deals_def)

lemma deals_reply: "numbers_left s \<Longrightarrow> sk_channel s = Some ch \<Longrightarrow> sk_channel s1 = sk_channel s \<Longrightarrow> sk_event_seq s1 = sk_event_seq s \<Longrightarrow>
    sk_queue s1 = sk_queue s \<Longrightarrow> deals i s (send_event (SeResponse i r) s1)"
  by (rule deals_answer[where cs = "[]"]) simp_all

lemma session_req_deals:
  assumes "numbers_left s" "sk_channel s = Some ch"
  shows "deals i s (on_session_req dec i req s)"
proof (cases req)
  case SesDisconnect
  then show ?thesis using assms deals_reply[OF assms refl refl refl]
    by (auto simp: on_session_req_def send_rpc_res_def send_rpc_res_err_def intro!: deals_answer[OF assms, where cs = "[TransportEv (TeState (TsDisconnected None))]"])
qed (use assms in \<open>auto simp: on_session_req_def on_join_req_def Let_def send_rpc_res_err_def split: option.split intro: deals_push deals_reply\<close>)

lemma sender_req_deals:
  assumes "numbers_left s" "sk_channel s = Some ch"
  shows "deals i s (on_sender_req i name req s)"
  using assms by (auto simp: on_sender_req_def Let_def send_rpc_res_def send_rpc_res_err_def sr_started_def split: option.split sender_request.split
      intro!: deals_push deals_then_push deals_reply)

lemma channel_event_deals:
  assumes "numbers_left s" "sk_channel s = Some ch" "answerable rq"
  shows "deals i s (on_str0m_channel_event dec \<lparr>ce_seq = n, ce_event = Some \<lparr>cq_req_id = i, cq_request = rq\<rparr>\<rparr> s)"
proof -
  have invalid: "deals i s (send_event (SeResponse i r) s)" for r using assms by (intro deals_reply) simp_all
  show ?thesis using assms(3) session_req_deals[OF assms(1,2)] sender_req_deals[OF assms(1,2)] invalid
    by (auto simp: on_str0m_channel_event_def Let_def send_rpc_res_err_def on_recever_req_def on_mixer_request_def on_msg_chan_req_def
        split: option.splits proto_request.splits intro: deals_push)
qed

lemma answer_reply:
  assumes "numbers_left s" "sk_channel s = Some ch"
  shows "\<exists>s1 x. answer_with i res r s = Inr s1 \<and> sk_queue s1 = sk_queue s @ [Str0mSendData ch \<lparr>se_seq = sk_event_seq s, se_event = SeResponse i x\<rparr>]"
  using assms by (cases r) (auto simp: answer_with_def send_rpc_res_def send_rpc_res_err_def send_event_def numbers_left_def)

lemma endpoint_answer_sent:
  assumes "numbers_left s" "sk_channel s = Some ch" "\<not> answers_peers res"
  shows "\<exists>s1 x. sk_on_transport_rpc_res i res s = Inr s1 \<and> sk_queue s1 = sk_queue s @ [Str0mSendData ch \<lparr>se_seq = sk_event_seq s, se_event = SeResponse i x\<rparr>]"
  using assms(3) answer_reply[OF assms(1,2)]
  by (cases res) (auto simp: sk_on_transport_rpc_res_def split: endpoint_remote_track_res.split endpoint_local_track_res.split
      endpoint_audio_mixer_res.split endpoint_message_channel_res.split)

lemma offer_answer_sent:
  assumes "numbers_left s" "sk_channel s = Some ch"
  shows "\<exists>s1 x. sk_on_rpc_res i res s = Inr s1 \<and> sk_queue s1 = sk_queue s @ [Str0mSendData ch \<lparr>se_seq = sk_event_seq s, se_event = SeResponse i x\<rparr>]"
  using assms by (cases res) (auto simp: sk_on_rpc_res_def send_rpc_res_def send_rpc_res_err_def send_event_def numbers_left_def)

section \<open>Properties\<close>

text \<open>C9: a client gets one answer to each request. While the channel is open, a request (other than the ones about peers of a room,
  which are not implemented, and a mixer request without content) is either answered at once or passed on once, to the endpoint
  or to the library, under its own number, and nothing else is done about any request; and every answer of the endpoint or of
  the library is sent to the client as one message with the number of the request it answers.\<close>

theorem sdk_deals_once:
  assumes "numbers_left s" "sk_channel s = Some ch" "answerable rq" "\<not> answers_peers res"
  shows "(\<exists>s1 cs. on_str0m_channel_event dec \<lparr>ce_seq = n, ce_event = Some \<lparr>cq_req_id = i, cq_request = rq\<rparr>\<rparr> s = Inr s1 \<and>
      sk_queue s1 = sk_queue s @ cs \<and> dealt_with cs = [i]) \<and>
    (\<exists>s1 x. sk_on_transport_rpc_res i res s = Inr s1 \<and> sk_queue s1 = sk_queue s @ [Str0mSendData ch \<lparr>se_seq = sk_event_seq s, se_event = SeResponse i x\<rparr>]) \<and>
    (\<exists>s1 x. sk_on_rpc_res i offer s = Inr s1 \<and> sk_queue s1 = sk_queue s @ [Str0mSendData ch \<lparr>se_seq = sk_event_seq s, se_event = SeResponse i x\<rparr>])"
  using channel_event_deals[OF assms(1-3), of i dec n] endpoint_answer_sent[OF assms(1,2,4)] offer_answer_sent[OF assms(1,2)]
  unfolding deals_def by blast

definition demo_sender :: shared_sender where
  "demo_sender = \<lparr>snd_kind = 0, snd_name = ''mic'', snd_state = None\<rparr>"

definition demo_request :: connect_request where
  "demo_request = \<lparr>cr_version = ''1'', cr_join = None, cr_tracks = Some \<lparr>st_receivers = [], st_senders = [demo_sender]\<rparr>, cr_sdp = ''''\<rparr>"

definition demo_sdk :: sdk where
  "demo_sdk = (sk_new ''app'' demo_request None ''10.0.0.1'')\<lparr>sk_channel := Some 1, sk_state := StConnected\<rparr>"

theorem sdk_deals_once_witness:
  "\<exists>s1 cs. on_str0m_channel_event (\<lambda>_. None)
      \<lparr>ce_seq = 0, ce_event = Some \<lparr>cq_req_id = 7, cq_request = Some (RqSender ''mic'' (Some (SndAttach None None)))\<rparr>\<rparr> demo_sdk = Inr s1 \<and>
    sk_queue s1 = sk_queue demo_sdk @ cs \<and> dealt_with cs = [7]"
  using sdk_deals_once[of demo_sdk 1 "Some (RqSender ''mic'' (Some (SndAttach None None)))" "ResLeaveRoom (Inr ())"]
  by (simp add: demo_sdk_def numbers_left_def sk_new_fields)


text \<open>C8: nobody enters a room without permission. Whatever a client sends, in every run each request to join a room is for the room and
  the peer that the request which created the session named, or for a room and a peer named by a token that was found valid for the
  application of the session.\<close>

theorem sdk_enters_with_permission:
  assumes "session_reach (sk_call dec) sk_pre (sk_new app req extra remote) said s" "(room, peer) \<in> set (joins (said @ sk_queue s))"
  shows "(\<exists>j. cr_join req = Some j \<and> rj_room j = room \<and> rj_peer j = peer) \<or>
    (\<exists>token t. dec token = Some (app, t) \<and> wt_room t = Some room \<and> wt_peer t = Some peer)"
proof -
  have "list_all (may_join dec app (map_option (\<lambda>j. (rj_room j, rj_peer j)) (cr_join req))) (joins (said @ sk_queue s))"
    using sk.run_ok[OF assms(1) sk_new_ok] unfolding sk_ok_def by blast
  then have "may_join dec app (map_option (\<lambda>j. (rj_room j, rj_peer j)) (cr_join req)) (room, peer)" using assms(2) unfolding list_all_iff by blast
  then show ?thesis by (auto simp: may_join_def)
qed

definition demo_token :: "string \<Rightarrow> (app_id \<times> webrtc_token) option" where
  "demo_token x = (if x = ''secret'' then Some (''app'', \<lparr>wt_room = Some ''room'', wt_peer = Some ''alice'', wt_record = False, wt_extra_data = None\<rparr>) else None)"

definition demo_join :: client_event where
  "demo_join = \<lparr>ce_seq = 0, ce_event = Some \<lparr>cq_req_id = 3, cq_request =
     Some (RqSession (Some (SesJoin (Some (default_join\<lparr>rj_room := ''room'', rj_peer := ''alice''\<rparr>)) ''secret'')))\<rparr>\<rparr>"

lemma demo_run:
  obtains s where "session_reach (sk_call demo_token) sk_pre (sk_new ''app'' demo_request None ''10.0.0.1'') [] s"
    "joins (sk_queue s) = [(''room'', ''alice'')]" "sk_event_seq s = 0"
proof -
  let ?s0 = "sk_new ''app'' demo_request None ''10.0.0.1''"
  let ?ev = "SkStr0m 0 (SChannelData (Some demo_join))"
  have pre: "sk_pre ?ev ?s0" by (simp add: sk_pre_def numbers_left_def sk_new_fields demo_join_def)
  obtain s1 where run: "sk_call demo_token ?ev ?s0 = Inr (None, s1)" and j: "joins (sk_queue s1) = [(''room'', ''alice'')]" "sk_event_seq s1 = 0"
    by (simp add: sk_on_str0m_event_def on_str0m_channel_event_def demo_join_def on_session_req_def on_join_req_def demo_token_def Let_def sk_new_fields
        default_join_def no_output_def)
  show ?thesis using that[of s1] reach_next[where call = "sk_call demo_token" and pre = sk_pre, OF reach_start pre run] j by simp
qed


theorem sdk_enters_with_permission_witness:
  "\<exists>token t. demo_token token = Some (''app'', t) \<and> wt_room t = Some ''room'' \<and> wt_peer t = Some ''alice''"
proof -
  obtain s where s: "session_reach (sk_call demo_token) sk_pre (sk_new ''app'' demo_request None ''10.0.0.1'') [] s"
    "joins (sk_queue s) = [(''room'', ''alice'')]" "sk_event_seq s = 0" by (rule demo_run)
  show ?thesis using sdk_enters_with_permission[OF s(1), of "''room''" "''alice''"] s(2) by (simp add: demo_request_def)
qed

section \<open>Observations\<close>

text \<open>A client can stop the server's thread with a request about the peers of a room.\<close>

lemma room_request_panics:
  "cq_request q = Some (RqRoom (Some r)) \<Longrightarrow> on_str0m_channel_event dec \<lparr>ce_seq = n, ce_event = Some q\<rparr> s = Inl Unreachable"
  by (simp add: on_str0m_channel_event_def Let_def on_room_req_def)

text \<open>A mixer request without content is never answered.\<close>

lemma empty_mixer_request_unanswered:
  "on_str0m_channel_event dec \<lparr>ce_seq = n, ce_event = Some \<lparr>cq_req_id = i, cq_request = Some (RqFeatures None)\<rparr>\<rparr> s = Inr s"
  by (simp add: on_str0m_channel_event_def Let_def)

text \<open>A sender that is attached before its media line is added is announced as started twice.\<close>

lemma attached_early_starts_twice:
  "\<exists>s1 s2 a b. on_sender_req 7 ''mic'' (SndAttach None None) demo_sdk = Inr s1 \<and>
     sk_on_str0m_media_added \<lparr>ma_mid = ''0'', ma_kind = Audio, ma_direction = RecvOnly, ma_simulcast = False\<rparr> s1 = Inr s2 \<and>
     sk_queue s2 = [a, TransportEv (TeRemoteTrack 0 (TreStarted ''mic'' 0 b)), TransportEv (TeRemoteTrack 0 (TreStarted ''mic'' 0 b))]"
  by (simp add: on_sender_req_def demo_sdk_def sk_new_def demo_request_def demo_sender_def sr_new_def Let_def sr_has_source_def send_rpc_res_def
      send_event_def sk_push_def sr_set_source_def sr_started_def sr_priority_def sr_meta_def sk_on_str0m_media_added_def sr_set_str0m_def
      rassert_def default_sender_config_def default_source_def)

text \<open>Tracks added by a later offer are numbered by their position in that offer: when it lists only the new ones, their identifiers
  are those of tracks that exist.\<close>

lemma added_track_takes_identifier:
  "map sr_id (add_senders 0 [demo_sender\<lparr>snd_name := ''screen''\<rparr>] (sk_remote_tracks demo_sdk)) = [0, 0]"
  by (simp add: demo_sdk_def sk_new_def demo_request_def demo_sender_def sr_new_def Let_def)

end
