(* ===== verification/Rtp_Engine.thy ===== *)
theory Rtp_Engine
  imports Endpoint_Session
begin

text \<open>
  The transport for plain RTP, \<open>packages/transport_rtpengine/src/transport.rs\<close>: a telephone system exchanges audio with a room. It implements the
  trait \<open>Transport\<close> of \<open>Endpoint_Session\<close>. The reader of session descriptions, the reader and builder of RTP packets and the two transcoders are
  libraries, a record of functions that every definition takes. Bytes are numbers below 256, an address is its printed host and its port, the time a
  tick compares with is the one it is given. Shown: the room is joined once, after the answer and the first audio packet, and only
  tracks of other peers are attached.
\<close>

section \<open>Libraries and messages\<close>

record sdp =
  sdp_connection :: "string option"
  sdp_origin :: string
  sdp_ports :: "nat list"

record rtp_view =
  rv_payload_type :: nat
  rv_sequence :: nat
  rv_timestamp :: nat
  rv_mark :: bool
  rv_payload :: "nat list"

record ('c, 'd) rtp_lib =
  rl_sdp :: "string \<Rightarrow> string + sdp"
  rl_read :: "nat list \<Rightarrow> rtp_view option"
  rl_build :: "bool \<Rightarrow> nat \<Rightarrow> nat \<Rightarrow> nat \<Rightarrow> nat list \<Rightarrow> nat list option"
  rl_pcma_to_opus :: "'c \<Rightarrow> nat list \<Rightarrow> 'c \<times> nat list option"
  rl_opus_to_pcma :: "'d \<Rightarrow> nat list \<Rightarrow> 'd \<times> nat list option"

type_synonym socket_addr = "string \<times> nat"

datatype backend_in = ListenResult "(string + socket_addr \<times> nat)" | UdpIn nat socket_addr "nat list"

datatype backend_out = UdpListen socket_addr bool | UdpOut nat socket_addr "nat list"

datatype rtp_ext_in = XiSetAnswer nat string | XiDisconnect nat

record rtp_error =
  re_code :: nat
  re_message :: string

datatype rtp_ext_out = XoSetAnswer nat "rtp_error + unit" | XoDisconnect nat

type_synonym rtp_output = "(backend_out, rtp_ext_out) transport_output"

definition TIMEOUT_DURATION_MS :: nat where "TIMEOUT_DURATION_MS = 180000"
definition REMOTE_AUDIO_TRACK :: remote_track_id where "REMOTE_AUDIO_TRACK = 0"
definition LOCAL_AUDIO_TRACK :: local_track_id where "LOCAL_AUDIO_TRACK = 0"
definition RTP_AUDIO_NAME :: string where "RTP_AUDIO_NAME = ''audio_main''"
definition RTP_DEFAULT_PRIORITY :: priority where "RTP_DEFAULT_PRIORITY = 1"

definition default_audio :: track_meta where
  "default_audio = \<lparr>tm_kind = Audio, tm_scaling = ScalingNone, tm_control = MaxBitrate, tm_metadata = None\<rparr>"

section \<open>The kind of a packet\<close>

datatype multiplex_kind = MxRtp | MxRtcp

text \<open>The first byte is read before the length is looked at.\<close>

definition pkt_type :: "nat list \<Rightarrow> multiplex_kind option res" where
  "pkt_type buf =
     (if buf = [] then Inl OutOfRange
      else Inr (if 128 \<le> buf ! 0 \<and> buf ! 0 < 192 \<and> length buf > 2
                then (let payload_type = buf ! 1 mod 128 in
                      Some (if payload_type < 64 then MxRtp else if 64 \<le> payload_type \<and> payload_type < 96 then MxRtcp else MxRtp))
                else None))"

section \<open>The transport\<close>

record ('c, 'd) rtp_engine =
  re_remote :: "socket_addr option"
  re_room :: room_id
  re_peer :: peer_id
  re_udp_slot :: "nat option"
  re_answered :: bool
  re_connected :: bool
  re_created :: nat
  re_last_recv_rtp :: "nat option"
  re_last_send_rtp :: "nat option"
  re_queue :: "rtp_output list"
  re_pcma_to_opus :: 'c
  re_opus_to_pcma :: 'd
  re_shutdown :: bool

text \<open>Binding a socket gives a port or an error; the codecs start in a given state.\<close>

definition new_offer :: "'c \<Rightarrow> 'd \<Rightarrow> room_id \<Rightarrow> peer_id \<Rightarrow> string \<Rightarrow> nat \<Rightarrow> string + nat \<Rightarrow> string + ('c, 'd) rtp_engine" where
  "new_offer c d room peer listen_ip now bound =
     (case bound of
        Inl e \<Rightarrow> Inl e
      | Inr port \<Rightarrow> Inr
          \<lparr>re_remote = None, re_room = room, re_peer = peer, re_udp_slot = None, re_answered = False, re_connected = False, re_created = now,
           re_last_recv_rtp = None, re_last_send_rtp = None, re_queue = [ToNet (UdpListen (listen_ip, port) False), ToEvent (TeState TsNew)],
           re_pcma_to_opus = c, re_opus_to_pcma = d, re_shutdown = False\<rparr>)"

definition sdp_host :: "sdp \<Rightarrow> string" where
  "sdp_host s = (case sdp_connection s of Some ip \<Rightarrow> ip | None \<Rightarrow> sdp_origin s)"

definition new_answer :: "('c, 'd) rtp_lib \<Rightarrow> 'c \<Rightarrow> 'd \<Rightarrow> room_id \<Rightarrow> peer_id \<Rightarrow> string \<Rightarrow> nat \<Rightarrow> string + nat \<Rightarrow> string \<Rightarrow> string + ('c, 'd) rtp_engine" where
  "new_answer lib c d room peer listen_ip now bound offer =
     (case rl_sdp lib offer of
        Inl e \<Rightarrow> Inl e
      | Inr s \<Rightarrow>
          if sdp_ports s = [] then Inl ''MEDIA_NOT_FOUND''
          else (case bound of
                  Inl e \<Rightarrow> Inl e
                | Inr port \<Rightarrow> Inr
                    \<lparr>re_remote = Some (sdp_host s, last (sdp_ports s)), re_room = room, re_peer = peer, re_udp_slot = None, re_answered = True,
                     re_connected = False, re_created = now, re_last_recv_rtp = None, re_last_send_rtp = None,
                     re_queue = [ToNet (UdpListen (listen_ip, port) False), ToEvent (TeState (TsConnecting (sdp_host s)))],
                     re_pcma_to_opus = c, re_opus_to_pcma = d, re_shutdown = False\<rparr>))"

definition re_push :: "('c, 'd) rtp_engine \<Rightarrow> rtp_output list \<Rightarrow> ('c, 'd) rtp_engine" where
  "re_push t outs = t\<lparr>re_queue := re_queue t @ outs\<rparr>"

definition set_answer :: "('c, 'd) rtp_lib \<Rightarrow> string \<Rightarrow> ('c, 'd) rtp_engine \<Rightarrow> (rtp_error + unit) \<times> ('c, 'd) rtp_engine" where
  "set_answer lib answer t =
     (case rl_sdp lib answer of
        Inl e \<Rightarrow> (Inl \<lparr>re_code = 0x2000, re_message = e\<rparr>, t)
      | Inr s \<Rightarrow>
          if sdp_ports s = [] then (Inl \<lparr>re_code = 0x2003, re_message = ''SdpMediaNotFound''\<rparr>, t)
          else (Inr (), re_push (t\<lparr>re_remote := Some (sdp_host s, last (sdp_ports s)), re_answered := True\<rparr>)
                          [ToEvent (TeState (TsConnecting (sdp_host s)))]))"

definition re_on_tick :: "nat \<Rightarrow> ('c, 'd) rtp_engine \<Rightarrow> ('c, 'd) rtp_engine" where
  "re_on_tick now t =
     (if re_shutdown t then t
      else let last_activity = (case (re_last_recv_rtp t, re_last_send_rtp t) of (Some time1, Some time2) \<Rightarrow> max time1 time2 | _ \<Rightarrow> re_created t)
           in if now - last_activity \<ge> TIMEOUT_DURATION_MS
              then (re_push t [ToEvent (TeState (TsDisconnected (Some Timeout)))])\<lparr>re_shutdown := True\<rparr> else t)"

text \<open>What the first audio packet after the answer brings.\<close>

definition opening_outputs :: "room_id \<Rightarrow> peer_id \<Rightarrow> string \<Rightarrow> rtp_output list" where
  "opening_outputs room peer ip =
     [ToEvent (TeState (TsConnected ip)),
      ToEvent (TeRemoteTrack REMOTE_AUDIO_TRACK (TreStarted RTP_AUDIO_NAME 100 default_audio)),
      ToEvent (TeLocalTrack LOCAL_AUDIO_TRACK (TleStarted Audio)),
      ToRpcReq 0 (ReqJoinRoom room peer \<lparr>pm_metadata = None, pm_extra_data = None\<rparr> \<lparr>rp_peer = True, rp_tracks = True\<rparr>
        \<lparr>rs_peers = False, rs_tracks = True\<rparr> None)]"

definition on_audio :: "('c, 'd) rtp_lib \<Rightarrow> string \<Rightarrow> rtp_view \<Rightarrow> ('c, 'd) rtp_engine \<Rightarrow> ('c, 'd) rtp_engine" where
  "on_audio lib ip rtp t =
     (let t1 = (if re_answered t \<and> \<not> re_connected t then (re_push t (opening_outputs (re_room t) (re_peer t) ip))\<lparr>re_connected := True\<rparr> else t);
          (c, out) = rl_pcma_to_opus lib (re_pcma_to_opus t1) (rv_payload rtp);
          t2 = t1\<lparr>re_pcma_to_opus := c\<rparr>
      in case out of
           None \<Rightarrow> t2
         | Some bytes \<Rightarrow> re_push t2 [ToEvent (TeRemoteTrack REMOTE_AUDIO_TRACK (TreMedia
             \<lparr>pkt_ts = rv_timestamp rtp * 6 mod 2 ^ 32, pkt_seq = rv_sequence rtp, pkt_marker = rv_mark rtp, pkt_nackable = False, pkt_layers = None,
              pkt_meta = Opus (Some 0), pkt_data = bytes\<rparr>))])"

definition re_on_backend :: "('c, 'd) rtp_lib \<Rightarrow> nat \<Rightarrow> backend_in \<Rightarrow> ('c, 'd) rtp_engine \<Rightarrow> ('c, 'd) rtp_engine res" where
  "re_on_backend lib now event t =
     (case event of
        ListenResult (Inr (_, slot)) \<Rightarrow> Inr (t\<lparr>re_udp_slot := Some slot\<rparr>)
      | ListenResult (Inl _) \<Rightarrow> Inr t
      | UdpIn _ from1 buf \<Rightarrow>
          res_bind (pkt_type buf) (\<lambda>k.
          if k = Some MxRtp
          then (case rl_read lib buf of
                  None \<Rightarrow> Inr t
                | Some rtp \<Rightarrow>
                    let t1 = t\<lparr>re_last_recv_rtp := Some now\<rparr>
                    in Inr (if rv_payload_type rtp = 8 then on_audio lib (fst from1) rtp t1 else t1))
          else Inr t))"

definition attach_all :: endpoint_local_track_config where
  "attach_all = \<lparr>ltc_priority = RTP_DEFAULT_PRIORITY, ltc_max_spatial = 2, ltc_max_temporal = 2, ltc_min_spatial = None, ltc_min_temporal = None\<rparr>"

definition re_on_event :: "('c, 'd) rtp_lib \<Rightarrow> nat \<Rightarrow> transport_endpoint_event \<Rightarrow> ('c, 'd) rtp_engine \<Rightarrow> ('c, 'd) rtp_engine" where
  "re_on_event lib now event t =
     (case event of
        EvPeerTrackStarted peer track _ \<Rightarrow>
          if re_peer t \<noteq> peer
          then re_push t [ToRpcReq 1 (ReqLocalTrack LOCAL_AUDIO_TRACK (LtReqAttach \<lparr>src_peer = peer, src_track = track\<rparr> attach_all))] else t
      | EvPeerTrackStopped peer track _ \<Rightarrow>
          if re_peer t \<noteq> peer then re_push t [ToRpcReq 1 (ReqLocalTrack LOCAL_AUDIO_TRACK LtReqDetach)] else t
      | EvLocalMediaTrack _ (LteMedia media) \<Rightarrow>
          (let t1 = t\<lparr>re_last_send_rtp := Some now\<rparr> in
           case (re_udp_slot t1, re_remote t1) of
             (Some slot, Some remote) \<Rightarrow>
               (case rl_opus_to_pcma lib (re_opus_to_pcma t1) (pkt_data media) of
                  (d, None) \<Rightarrow> t1\<lparr>re_opus_to_pcma := d\<rparr>
                | (d, Some bytes) \<Rightarrow>
                    let t2 = t1\<lparr>re_opus_to_pcma := d\<rparr> in
                    (case rl_build lib (pkt_marker media) 8 (pkt_ts media div 6) (pkt_seq media) bytes of
                       None \<Rightarrow> t2
                     | Some dgram \<Rightarrow> re_push t2 [ToNet (UdpOut slot remote dgram)]))
           | _ \<Rightarrow> t1)
      | _ \<Rightarrow> t)"

definition re_on_input :: "('c, 'd) rtp_lib \<Rightarrow> nat \<Rightarrow> (backend_in, rtp_ext_in) transport_input \<Rightarrow> ('c, 'd) rtp_engine \<Rightarrow> ('c, 'd) rtp_engine res" where
  "re_on_input lib now input t =
     (case input of
        TiNet event \<Rightarrow> re_on_backend lib now event t
      | TiEndpoint event \<Rightarrow> Inr (re_on_event lib now event t)
      | TiRpcRes _ _ \<Rightarrow> Inr t
      | TiExt (XiSetAnswer req_id sdp) \<Rightarrow> (case set_answer lib sdp t of (res, t1) \<Rightarrow> Inr (re_push t1 [ToExt (XoSetAnswer req_id res)]))
      | TiExt (XiDisconnect req_id) \<Rightarrow> Inr (re_push t [ToExt (XoDisconnect req_id), ToEvent (TeState (TsDisconnected None))]))"

definition re_on_shutdown :: "('c, 'd) rtp_engine \<Rightarrow> ('c, 'd) rtp_engine" where
  "re_on_shutdown t = t\<lparr>re_shutdown := True\<rparr>"

definition re_is_empty :: "('c, 'd) rtp_engine \<Rightarrow> bool" where
  "re_is_empty t \<longleftrightarrow> re_shutdown t \<and> re_queue t = []"

definition re_pop_output :: "('c, 'd) rtp_engine \<Rightarrow> rtp_output option \<times> ('c, 'd) rtp_engine" where
  "re_pop_output t = (case re_queue t of [] \<Rightarrow> (None, t) | c # cs \<Rightarrow> (Some c, t\<lparr>re_queue := cs\<rparr>))"

section \<open>Runs\<close>

datatype rtp_call = ReTick nat | ReInput nat "(backend_in, rtp_ext_in) transport_input" | ReShutdown | RePop

fun re_call :: "('c, 'd) rtp_lib \<Rightarrow> rtp_call \<Rightarrow> ('c, 'd) rtp_engine \<Rightarrow> (rtp_output option \<times> ('c, 'd) rtp_engine) res" where
  "re_call lib (ReTick now) t = Inr (None, re_on_tick now t)"
| "re_call lib (ReInput now input) t = res_bind (re_on_input lib now input t) (\<lambda>t1. Inr (None, t1))"
| "re_call lib ReShutdown t = Inr (None, re_on_shutdown t)"
| "re_call lib RePop t = Inr (re_pop_output t)"

text \<open>The contract: no empty datagram is handed over.\<close>

fun re_pre :: "rtp_call \<Rightarrow> bool" where
  "re_pre (ReInput now (TiNet (UdpIn slot from1 buf))) \<longleftrightarrow> buf \<noteq> []"
| "re_pre _ \<longleftrightarrow> True"

inductive re_reach :: "('c, 'd) rtp_lib \<Rightarrow> ('c, 'd) rtp_engine \<Rightarrow> rtp_output list \<Rightarrow> ('c, 'd) rtp_engine \<Rightarrow> bool" for lib t0 where
  re_start: "re_reach lib t0 [] t0"
| re_next: "re_reach lib t0 said t \<Longrightarrow> re_pre call \<Longrightarrow> re_call lib call t = Inr (out, t1) \<Longrightarrow>
    re_reach lib t0 (said @ (case out of None \<Rightarrow> [] | Some x \<Rightarrow> [x])) t1"

text \<open>Outputs that neither connect nor start a track nor join; the tracks that are attached.\<close>

fun calm :: "rtp_output \<Rightarrow> bool" where
  "calm (ToEvent (TeState (TsConnected _))) = False"
| "calm (ToEvent (TeRemoteTrack _ (TreStarted _ _ _))) = False"
| "calm (ToEvent (TeLocalTrack _ (TleStarted _))) = False"
| "calm (ToRpcReq _ (ReqJoinRoom _ _ _ _ _ _)) = False"
| "calm _ = True"

fun foreign :: "peer_id \<Rightarrow> rtp_output \<Rightarrow> bool" where
  "foreign me (ToRpcReq _ (ReqLocalTrack _ (LtReqAttach src _))) \<longleftrightarrow> src_peer src \<noteq> me"
| "foreign me _ \<longleftrightarrow> True"

definition announced :: "rtp_output list \<Rightarrow> bool" where
  "announced log \<longleftrightarrow> (\<exists>ip. ToEvent (TeState (TsConnecting ip)) \<in> set log)"

definition re_ok :: "room_id \<Rightarrow> peer_id \<Rightarrow> rtp_output list \<Rightarrow> ('c, 'd) rtp_engine \<Rightarrow> bool" where
  "re_ok room peer log t \<longleftrightarrow> re_room t = room \<and> re_peer t = peer \<and> (re_answered t \<longrightarrow> announced log) \<and> list_all (foreign peer) log \<and>
     (if re_connected t then \<exists>a ip b. log = a @ opening_outputs room peer ip @ b \<and> announced a \<and> list_all calm a \<and> list_all calm b else list_all calm log)"

abbreviation re_inv :: "room_id \<Rightarrow> peer_id \<Rightarrow> rtp_output list \<Rightarrow> ('c, 'd) rtp_engine \<Rightarrow> bool" where
  "re_inv room peer said t \<equiv> re_ok room peer (said @ re_queue t) t"

lemma announced_append [simp]: "announced (a @ b) \<longleftrightarrow> announced a \<or> announced b"
  by (auto simp: announced_def)

lemma re_calm:
  assumes "re_ok room peer log t" "re_room t1 = re_room t" "re_peer t1 = re_peer t" "re_connected t1 = re_connected t"
    "re_answered t1 \<Longrightarrow> re_answered t \<or> announced cs" "list_all calm cs" "list_all (foreign peer) cs"
  shows "re_ok room peer (log @ cs) t1"
proof (cases "re_connected t")
  case True
  then obtain a ip b where l: "log = a @ opening_outputs room peer ip @ b" "announced a" "list_all calm a" "list_all calm b" using assms(1) by (auto simp: re_ok_def)
  then have "log @ cs = a @ opening_outputs room peer ip @ (b @ cs)" "list_all calm (b @ cs)" using assms(6) by simp_all
  then have "\<exists>a ip b. log @ cs = a @ opening_outputs room peer ip @ b \<and> announced a \<and> list_all calm a \<and> list_all calm b" using l(2,3) by blast
  then show ?thesis using assms True unfolding re_ok_def by auto
next
  case False
  then show ?thesis using assms unfolding re_ok_def by auto
qed

lemma re_push_calm:
  assumes "re_inv room peer said t" "re_queue t1 = re_queue t @ cs" "re_room t1 = re_room t" "re_peer t1 = re_peer t" "re_connected t1 = re_connected t"
    "re_answered t1 \<Longrightarrow> re_answered t \<or> announced cs" "list_all calm cs" "list_all (foreign peer) cs"
  shows "re_inv room peer said t1"
  using re_calm[OF assms(1,3-8)] assms(2) by simp

lemma re_same:
  assumes "re_inv room peer said t" "re_queue t1 = re_queue t" "re_room t1 = re_room t" "re_peer t1 = re_peer t" "re_connected t1 = re_connected t"
    "re_answered t1 = re_answered t"
  shows "re_inv room peer said t1"
  by (rule re_push_calm[OF assms(1), where cs = "[]"]) (use assms in simp_all)

lemma re_open:
  assumes "re_inv room peer said t" "re_answered t" "\<not> re_connected t"
  shows "re_inv room peer said ((re_push t (opening_outputs (re_room t) (re_peer t) ip))\<lparr>re_connected := True\<rparr>)"
proof -
  let ?log = "said @ re_queue t"
  have k: "announced ?log" "list_all calm ?log" "re_room t = room" "re_peer t = peer" "list_all (foreign peer) ?log" using assms by (simp_all add: re_ok_def)
  have "list_all (foreign peer) (opening_outputs room peer ip)" by (simp add: opening_outputs_def)
  moreover have "\<exists>a h b. ?log @ opening_outputs room peer ip = a @ opening_outputs room peer h @ b \<and> announced a \<and> list_all calm a \<and> list_all calm b"
    by (rule exI[of _ ?log], rule exI[of _ ip], rule exI[of _ "[]"]) (use k in simp)
  ultimately show ?thesis using k unfolding re_ok_def by (auto simp: re_push_def)
qed

lemma on_audio_ok:
  assumes "re_inv room peer said t"
  shows "re_inv room peer said (on_audio lib ip rtp t)"
proof -
  define t1 where "t1 = (if re_answered t \<and> \<not> re_connected t then (re_push t (opening_outputs (re_room t) (re_peer t) ip))\<lparr>re_connected := True\<rparr> else t)"
  have 1: "re_inv room peer said t1" using re_open[OF assms] assms by (simp add: t1_def)
  obtain c out where c: "rl_pcma_to_opus lib (re_pcma_to_opus t1) (rv_payload rtp) = (c, out)" by (cases "rl_pcma_to_opus lib (re_pcma_to_opus t1) (rv_payload rtp)")
  have 2: "re_inv room peer said (t1\<lparr>re_pcma_to_opus := c\<rparr>)" by (rule re_same[OF 1]) simp_all
  have 3: "re_inv room peer said (re_push (t1\<lparr>re_pcma_to_opus := c\<rparr>) [ToEvent (TeRemoteTrack REMOTE_AUDIO_TRACK (TreMedia p))])" for p
    by (rule re_push_calm[OF 2, where cs = "[ToEvent (TeRemoteTrack REMOTE_AUDIO_TRACK (TreMedia p))]"]) (simp_all add: re_push_def)
  show ?thesis unfolding on_audio_def Let_def t1_def[symmetric] c using 2 3 by (cases out) simp_all
qed

lemma backend_ok:
  assumes "re_inv room peer said t" "re_on_backend lib now event t = Inr t1"
  shows "re_inv room peer said t1"
proof -
  have slot: "re_inv room peer said (t\<lparr>re_udp_slot := x\<rparr>)" for x by (rule re_same[OF assms(1)]) simp_all
  have recv: "re_inv room peer said (t\<lparr>re_last_recv_rtp := x\<rparr>)" for x by (rule re_same[OF assms(1)]) simp_all
  have "case re_on_backend lib now event t of Inl _ \<Rightarrow> True | Inr t2 \<Rightarrow> re_inv room peer said t2"
  proof (cases event)
    case (ListenResult r)
    then show ?thesis using assms(1) slot by (auto simp: re_on_backend_def split: sum.split)
  next
    case (UdpIn i addr buf)
    then show ?thesis using assms(1) recv on_audio_ok[OF recv] by (cases "pkt_type buf") (auto simp: re_on_backend_def Let_def split: option.split)
  qed
  then show ?thesis unfolding assms(2) by simp
qed

lemma event_ok:
  assumes "re_inv room peer said t"
  shows "re_inv room peer said (re_on_event lib now event t)"
proof -
  have peer: "re_peer t = peer" using assms by (simp add: re_ok_def)
  have req: "re_inv room peer said (re_push t [ToRpcReq 1 (ReqLocalTrack LOCAL_AUDIO_TRACK r)])" if "foreign peer (ToRpcReq 1 (ReqLocalTrack LOCAL_AUDIO_TRACK r))" for r
    by (rule re_push_calm[OF assms, where cs = "[ToRpcReq 1 (ReqLocalTrack LOCAL_AUDIO_TRACK r)]"]) (use that in \<open>simp_all add: re_push_def\<close>)
  have sent: "re_inv room peer said (t\<lparr>re_last_send_rtp := x\<rparr>)" "re_inv room peer said (t\<lparr>re_last_send_rtp := x, re_opus_to_pcma := d\<rparr>)" for x d
    by (rule re_same[OF assms]; simp)+
  have out: "re_inv room peer said (re_push (t\<lparr>re_last_send_rtp := x, re_opus_to_pcma := d\<rparr>) [ToNet n])" for x d n
    by (rule re_push_calm[OF sent(2), where cs = "[ToNet n]"]) (simp_all add: re_push_def)
  show ?thesis
  proof (cases event)
    case (EvLocalMediaTrack i ev)
    then show ?thesis using assms sent out
      by (cases ev) (auto simp: re_on_event_def Let_def split: option.split prod.split)
  qed (use assms req peer in \<open>auto simp: re_on_event_def\<close>)
qed

lemma input_ok:
  assumes "re_inv room peer said t" "re_on_input lib now input t = Inr t1"
  shows "re_inv room peer said t1"
proof (cases input)
  case (TiExt x)
  have ext: "re_inv room peer said (re_push t2 [ToExt o1])" if "re_inv room peer said t2" for t2 :: "('a, 'b) rtp_engine" and o1
    by (rule re_push_calm[OF that, where cs = "[ToExt o1]"]) (simp_all add: re_push_def)
  have bye: "re_inv room peer said (re_push t [ToExt o1, ToEvent (TeState (TsDisconnected None))])" for o1
    by (rule re_push_calm[OF assms(1), where cs = "[ToExt o1, ToEvent (TeState (TsDisconnected None))]"]) (simp_all add: re_push_def)
  have ans: "re_inv room peer said (re_push (t\<lparr>re_remote := r, re_answered := True\<rparr>) [ToEvent (TeState (TsConnecting h))])" for r h
    by (rule re_push_calm[OF assms(1), where cs = "[ToEvent (TeState (TsConnecting h))]"]) (simp_all add: re_push_def announced_def)
  have "re_inv room peer said (snd (set_answer lib sdp t))" for sdp
    using assms(1) ans by (auto simp: set_answer_def split: sum.split)
  then have "re_inv room peer said (re_push (snd (set_answer lib sdp t)) [ToExt o1])" for sdp o1 by (rule ext)
  then show ?thesis using TiExt assms(2) bye by (cases x) (auto simp: re_on_input_def case_prod_beta)
next
  case (TiNet e)
  then show ?thesis using assms backend_ok by (auto simp: re_on_input_def)
next
  case (TiEndpoint e)
  then show ?thesis using assms event_ok[OF assms(1)] by (auto simp: re_on_input_def)
qed (use assms in \<open>auto simp: re_on_input_def\<close>)

lemma re_tick_ok:
  assumes "re_inv room peer said t"
  shows "re_inv room peer said (re_on_tick now t)"
proof -
  have "re_inv room peer said ((re_push t [ToEvent (TeState (TsDisconnected e))])\<lparr>re_shutdown := True\<rparr>)" for e
    by (rule re_push_calm[OF assms, where cs = "[ToEvent (TeState (TsDisconnected e))]"]) (simp_all add: re_push_def)
  then show ?thesis using assms by (simp add: re_on_tick_def Let_def)
qed

lemma re_call_ok:
  assumes "re_inv room peer said t" "re_call lib call t = Inr (out, t1)"
  shows "re_inv room peer (said @ (case out of None \<Rightarrow> [] | Some x \<Rightarrow> [x])) t1"
proof (cases call)
  case (ReTick now)
  then show ?thesis using assms re_tick_ok by auto
next
  case (ReInput now input)
  then show ?thesis using assms input_ok by (auto simp: res_bind_Inr)
next
  case ReShutdown
  have "re_inv room peer said (re_on_shutdown t)" by (rule re_same[OF assms(1)]) (simp_all add: re_on_shutdown_def)
  then show ?thesis using assms ReShutdown by auto
next
  case RePop
  have "re_ok room peer log (t\<lparr>re_queue := q\<rparr>) = re_ok room peer log t" for log q by (simp add: re_ok_def)
  then show ?thesis using assms RePop by (auto simp: re_pop_output_def split: list.splits)
qed

lemma re_call_total: "re_pre call \<Longrightarrow> \<exists>out t1. re_call lib call t = Inr (out, t1)"
proof (cases call)
  case (ReInput now input)
  assume pre: "re_pre call"
  have "\<exists>t1. re_on_input lib now input t = Inr t1"
  proof (cases input)
    case (TiNet e)
    then show ?thesis using pre ReInput
      by (cases e) (auto simp: re_on_input_def re_on_backend_def pkt_type_def Let_def split: sum.split option.split)
  qed (auto simp: re_on_input_def split: rtp_ext_in.split prod.split)
  then show ?thesis using ReInput by auto
qed (auto simp: re_pop_output_def split: list.split)

lemma re_reach_ok: "re_reach lib t0 said t \<Longrightarrow> re_ok room peer (re_queue t0) t0 \<Longrightarrow> re_inv room peer said t"
proof (induction rule: re_reach.induct)
  case (re_next said t call out t1)
  then show ?case using re_call_ok[of room peer said t lib call out t1] by simp
qed simp

lemma new_ok:
  "new_offer c d room peer ip now bound = Inr t0 \<Longrightarrow> re_ok room peer (re_queue t0) t0"
  "new_answer lib c d room peer ip now bound offer = Inr t0 \<Longrightarrow> re_ok room peer (re_queue t0) t0"
  by (auto simp: new_offer_def new_answer_def re_ok_def announced_def split: sum.splits if_splits)

section \<open>Properties\<close>


definition demo_lib :: "(unit, unit) rtp_lib" where
  "demo_lib = \<lparr>rl_sdp = (\<lambda>_. Inr \<lparr>sdp_connection = Some ''10.0.0.2'', sdp_origin = ''10.0.0.3'', sdp_ports = [4000]\<rparr>),
     rl_read = (\<lambda>_. Some \<lparr>rv_payload_type = 8, rv_sequence = 1, rv_timestamp = 160, rv_mark = False, rv_payload = [1]\<rparr>),
     rl_build = (\<lambda>_ _ _ _ bytes. Some bytes), rl_pcma_to_opus = (\<lambda>_ _. ((), None)), rl_opus_to_pcma = (\<lambda>_ _. ((), None))\<rparr>"


section \<open>Observations\<close>

text \<open>An empty datagram, which anybody can send, panics.\<close>

lemma empty_datagram_panics: "re_on_backend lib now (UdpIn slot addr []) t = Inl OutOfRange"
  by (simp add: re_on_backend_def pkt_type_def)

text \<open>A request to disconnect does not close the transport: an audio packet that follows connects it and joins the room.\<close>

lemma joins_after_disconnect:
  assumes "re_on_input lib now (TiExt (XiDisconnect i)) t = Inr t1" "re_answered t" "\<not> re_connected t"
  shows "re_connected (on_audio lib ip rtp t1)" "\<not> re_is_empty t1"
  using assms by (auto simp: re_on_input_def re_push_def on_audio_def Let_def re_is_empty_def split: prod.split option.split)

end
