(* ===== verification/Connector_Agent.thy ===== *)
theory Connector_Agent
  imports Media_Prelude
begin

text \<open>
  The connector's sending side, \<open>packages/media_connector/src/msg_queue.rs\<close> and \<open>agent_service.rs\<close>: a queue that sends each
  message again every second until it is acknowledged, with a bound on the messages under way, and the service that numbers
  requests and hands responses to who asked. The ordered map from times to messages is an association list sorted by its
  keys; \<open>HashMap\<close>s, whose order is never looked at, are lists of entries. Encoding and the network are the embedding's: a
  response arrives as its decoded content or as a decoding error. Shown: nothing panics, no unanswered request is lost,
  every request is in exactly one of the three counters, and a message that is due is sent again.
\<close>

section \<open>The message queue\<close>

definition RESEND_AFTER_MS :: nat where "RESEND_AFTER_MS = 1000"

record 'm message_queue =
  mq_inflight_ts :: "(nat \<times> nat list) list"
  mq_inflight :: "(nat, 'm) imap"
  mq_queue :: "'m list"
  mq_acked :: nat

definition mq_default :: "'m message_queue" where
  "mq_default = \<lparr>mq_inflight_ts = [], mq_inflight = [], mq_queue = [], mq_acked = 0\<rparr>"

text \<open>\<open>entry(k).or_default().push(v)\<close> on the sorted map.\<close>

fun bt_push :: "nat \<Rightarrow> 'v \<Rightarrow> (nat \<times> 'v list) list \<Rightarrow> (nat \<times> 'v list) list" where
  "bt_push k v [] = [(k, [v])]"
| "bt_push k v ((a, vs) # m) =
     (if k < a then (k, [v]) # (a, vs) # m else if k = a then (a, vs @ [v]) # m else (a, vs) # bt_push k v m)"

definition mq_push :: "'m \<Rightarrow> 'm message_queue \<Rightarrow> 'm message_queue" where
  "mq_push msg q = q\<lparr>mq_queue := mq_queue q @ [msg]\<rparr>"

definition mq_on_ack :: "nat \<Rightarrow> 'm message_queue \<Rightarrow> 'm message_queue" where
  "mq_on_ack mid q =
     (if im_contains (mq_inflight q) mid
      then q\<lparr>mq_inflight := im_swap_remove (mq_inflight q) mid, mq_acked := mq_acked q + 1\<rparr>
      else q)"

function pop_retry_msg_id :: "nat \<Rightarrow> (nat, 'm) imap \<Rightarrow> (nat \<times> nat list) list \<Rightarrow> (nat option \<times> (nat \<times> nat list) list) res" where
  "pop_retry_msg_id now inflight ts =
     (case ts of
        [] \<Rightarrow> Inr (None, [])
      | (t, ids) # rest \<Rightarrow>
          if t + RESEND_AFTER_MS \<le> now
          then (if ids = [] then Inl ExpectNone
                else let ts1 = (if butlast ids = [] then rest else (t, butlast ids) # rest)
                     in if im_contains inflight (last ids) then Inr (Some (last ids), ts1) else pop_retry_msg_id now inflight ts1)
          else Inr (None, ts))"
  by pat_completeness auto
termination
  by (relation "measure (\<lambda>(now, inflight, ts). length (concat (map snd ts)))") (auto split: if_splits)

declare pop_retry_msg_id.simps [simp del]

definition mq_pop :: "('m \<Rightarrow> nat) \<Rightarrow> nat \<Rightarrow> nat \<Rightarrow> 'm message_queue \<Rightarrow> ('m option \<times> 'm message_queue) res" where
  "mq_pop msg_id MAX_INFLIGHT now_ms q =
     res_bind (pop_retry_msg_id now_ms (mq_inflight q) (mq_inflight_ts q)) (\<lambda>(r, ts1).
     case r of
       Some mid \<Rightarrow>
         res_bind (rexpect (im_get (mq_inflight q) mid)) (\<lambda>m. Inr (Some m, q\<lparr>mq_inflight_ts := bt_push now_ms mid ts1\<rparr>))
     | None \<Rightarrow>
         (if length (mq_inflight q) < MAX_INFLIGHT
          then (case mq_queue q of
                  [] \<Rightarrow> Inr (None, q\<lparr>mq_inflight_ts := ts1\<rparr>)
                | m # rest \<Rightarrow>
                    Inr (Some m, q\<lparr>mq_queue := rest, mq_inflight_ts := bt_push now_ms (msg_id m) ts1,
                                   mq_inflight := im_insert (mq_inflight q) (msg_id m) m\<rparr>))
          else Inr (None, q\<lparr>mq_inflight_ts := ts1\<rparr>)))"

definition mq_waits :: "'m message_queue \<Rightarrow> nat" where "mq_waits q = length (mq_queue q)"
definition mq_inflight_len :: "'m message_queue \<Rightarrow> nat" where "mq_inflight_len q = length (mq_inflight q)"

section \<open>The agent service\<close>

record 'r connector_request =
  req_id :: nat
  req_ts :: nat
  req_body :: 'r

datatype 'r agent_control = AgentSub | AgentRequest nat 'r
datatype 's agent_event = AgentResponse 's | AgentStats nat nat nat

datatype ('o, 'r, 's) agent_output = DataListen nat | AgentEvent 'o "'s agent_event" | DataSend "'r connector_request"

definition DATA_PORT :: nat where "DATA_PORT = 10002"
definition AGENT_MAX_INFLIGHT :: nat where "AGENT_MAX_INFLIGHT = 1024"

record ('o, 'r, 's) connector_agent =
  ca_req_id_seed :: nat
  ca_req_data :: "(nat, 'o) imap"
  ca_subscriber :: "'o option"
  ca_msg_queue :: "'r connector_request message_queue"
  ca_queue :: "('o, 'r, 's) agent_output list"
  ca_shutdown :: bool

definition ca_new :: "('o, 'r, 's) connector_agent" where
  "ca_new = \<lparr>ca_req_id_seed = 0, ca_req_data = [], ca_subscriber = None, ca_msg_queue = mq_default, ca_queue = [DataListen DATA_PORT],
     ca_shutdown = False\<rparr>"

definition ca_is_empty :: "('o, 'r, 's) connector_agent \<Rightarrow> bool" where
  "ca_is_empty a \<longleftrightarrow> ca_shutdown a \<and> ca_queue a = []"

definition ca_on_tick :: "('o, 'r, 's) connector_agent \<Rightarrow> ('o, 'r, 's) connector_agent" where
  "ca_on_tick a =
     (case ca_subscriber a of
        None \<Rightarrow> a
      | Some s \<Rightarrow> a\<lparr>ca_queue := ca_queue a @ [AgentEvent s (AgentStats (mq_waits (ca_msg_queue a)) (mq_inflight_len (ca_msg_queue a)) (mq_acked (ca_msg_queue a)))]\<rparr>)"

text \<open>An input is a control, if it is one of the service's, or the content of a received message, if it decodes.\<close>

datatype ('o, 'r, 's) agent_input = AgentControl 'o "'r agent_control option" | AgentRecv "(nat \<times> 's option) option" | AgentOther

fun ca_on_input :: "('o, 'r, 's) agent_input \<Rightarrow> ('o, 'r, 's) connector_agent \<Rightarrow> ('o, 'r, 's) connector_agent" where
  "ca_on_input (AgentControl owner None) a = a"
| "ca_on_input (AgentControl owner (Some (AgentRequest ts request))) a =
     a\<lparr>ca_req_id_seed := ca_req_id_seed a + 1, ca_req_data := im_insert (ca_req_data a) (ca_req_id_seed a) owner,
       ca_msg_queue := mq_push \<lparr>req_id = ca_req_id_seed a, req_ts = ts, req_body = request\<rparr> (ca_msg_queue a)\<rparr>"
| "ca_on_input (AgentControl owner (Some AgentSub)) a = a\<lparr>ca_subscriber := Some owner\<rparr>"
| "ca_on_input (AgentRecv (Some (mid, response))) a =
     (case im_get (ca_req_data a) mid of
        None \<Rightarrow> a
      | Some actor \<Rightarrow>
          a\<lparr>ca_req_data := im_swap_remove (ca_req_data a) mid, ca_msg_queue := mq_on_ack mid (ca_msg_queue a),
            ca_queue := (case response of None \<Rightarrow> ca_queue a | Some res \<Rightarrow> ca_queue a @ [AgentEvent actor (AgentResponse res)])\<rparr>)"
| "ca_on_input (AgentRecv None) a = a"
| "ca_on_input AgentOther a = a"

definition ca_on_shutdown :: "('o, 'r, 's) connector_agent \<Rightarrow> ('o, 'r, 's) connector_agent" where
  "ca_on_shutdown a = a\<lparr>ca_shutdown := True\<rparr>"

definition ca_pop_output :: "nat \<Rightarrow> ('o, 'r, 's) connector_agent \<Rightarrow> (('o, 'r, 's) agent_output option \<times> ('o, 'r, 's) connector_agent) res" where
  "ca_pop_output now a =
     (case ca_queue a of
        out # rest \<Rightarrow> Inr (Some out, a\<lparr>ca_queue := rest\<rparr>)
      | [] \<Rightarrow>
          res_bind (mq_pop req_id AGENT_MAX_INFLIGHT now (ca_msg_queue a)) (\<lambda>(out, q). Inr (map_option DataSend out, a\<lparr>ca_msg_queue := q\<rparr>)))"

section \<open>The sorted map\<close>

definition bt_ids :: "(nat \<times> 'v list) list \<Rightarrow> 'v list" where
  "bt_ids ts = concat (map snd ts)"

definition bt_wf :: "(nat \<times> 'v list) list \<Rightarrow> bool" where
  "bt_wf ts \<longleftrightarrow> sorted_wrt (<) (map fst ts) \<and> (\<forall>e\<in>set ts. snd e \<noteq> [])"

text \<open>What is due: the entries at the front that are old enough.\<close>

definition due_ids :: "nat \<Rightarrow> (nat \<times> 'v list) list \<Rightarrow> 'v list" where
  "due_ids now ts = bt_ids (takeWhile (\<lambda>e. fst e + RESEND_AFTER_MS \<le> now) ts)"

lemma bt_ids_simps [simp]: "bt_ids [] = []" "bt_ids ((t, vs) # ts) = vs @ bt_ids ts"
  by (simp_all add: bt_ids_def)

lemma bt_wf_simps [simp]: "bt_wf []"
  "bt_wf ((t, vs) # ts) \<longleftrightarrow> vs \<noteq> [] \<and> (\<forall>e\<in>set ts. t < fst e) \<and> bt_wf ts"
  by (auto simp: bt_wf_def)

lemma bt_push_keys [simp]: "fst ` set (bt_push k v ts) = insert k (fst ` set ts)"
  by (induction k v ts rule: bt_push.induct) auto

lemma bt_push_wf [simp]: "bt_wf ts \<Longrightarrow> bt_wf (bt_push k v ts)"
proof (induction k v ts rule: bt_push.induct)
  case (2 k v a vs m)
  have "\<forall>e\<in>set (bt_push k v m). a < fst e" if "\<forall>e\<in>set m. a < fst e" "a < k"
    using bt_push_keys[of k v m] that by (metis (no_types, lifting) imageE image_eqI insertE)
  with 2 show ?case by fastforce
qed simp

lemma bt_push_ids [simp]: "set (bt_ids (bt_push k v ts)) = insert v (set (bt_ids ts))"
  by (induction k v ts rule: bt_push.induct) auto

lemma due_push [simp]: "due_ids now (bt_push now v ts) = due_ids now ts"
  by (induction now v ts rule: bt_push.induct) (auto simp: due_ids_def RESEND_AFTER_MS_def)

lemma due_entry:
  assumes "bt_wf ts" "(t, ids) \<in> set ts" "mid \<in> set ids" "t + RESEND_AFTER_MS \<le> now"
  shows "mid \<in> set (due_ids now ts)"
  using assms
proof (induction ts)
  case (Cons e ts)
  obtain t1 ids1 where e: "e = (t1, ids1)" by (cases e)
  have "t1 + RESEND_AFTER_MS \<le> now" using Cons.prems e by auto
  then show ?case using Cons e by (auto simp: due_ids_def)
qed simp

section \<open>Sending again\<close>

text \<open>The retry step: what it finds is under way and due, and what else is under way keeps its place.\<close>

definition retry_ok :: "nat \<Rightarrow> (nat, 'm) imap \<Rightarrow> (nat \<times> nat list) list \<Rightarrow> nat option \<Rightarrow> (nat \<times> nat list) list \<Rightarrow> bool" where
  "retry_ok now inflight ts r ts1 \<longleftrightarrow> bt_wf ts1 \<and> set (bt_ids ts1) \<subseteq> set (bt_ids ts) \<and>
     (\<forall>j. im_contains inflight j \<longrightarrow> r \<noteq> Some j \<longrightarrow>
        (j \<in> set (bt_ids ts) \<longrightarrow> j \<in> set (bt_ids ts1)) \<and> (j \<in> set (due_ids now ts) \<longrightarrow> j \<in> set (due_ids now ts1))) \<and>
     (case r of None \<Rightarrow> due_ids now ts1 = []
      | Some j \<Rightarrow> im_contains inflight j \<and> j \<in> set (due_ids now ts) \<and> length (due_ids now ts1) < length (due_ids now ts))"

lemma last_split: "ids \<noteq> [] \<Longrightarrow> set ids = insert (last ids) (set (butlast ids))"
  by (metis append_butlast_last_id list.set(1) list.simps(15) set_append sup_bot.right_neutral Un_insert_right)

lemma retry_exists:
  "bt_wf ts \<Longrightarrow> \<exists>r ts1. pop_retry_msg_id now inflight ts = Inr (r, ts1) \<and> retry_ok now inflight ts r ts1"
proof (induction now inflight ts rule: pop_retry_msg_id.induct)
  case (1 now inflight ts)
  show ?case
  proof (cases ts)
    case Nil
    then show ?thesis by (simp add: pop_retry_msg_id.simps retry_ok_def due_ids_def)
  next
    case (Cons e rest)
    obtain t ids where e: "e = (t, ids)" by (cases e)
    show ?thesis
    proof (cases "t + RESEND_AFTER_MS \<le> now")
      case False
      then have "pop_retry_msg_id now inflight ts = Inr (None, ts)" using Cons e by (subst pop_retry_msg_id.simps) simp
      moreover have "retry_ok now inflight ts None ts" using False Cons e 1(2) by (simp add: retry_ok_def due_ids_def)
      ultimately show ?thesis by blast
    next
      case True
      define ts1 where "ts1 = (if butlast ids = [] then rest else (t, butlast ids) # rest)"
      have ids: "ids \<noteq> []" "set ids = insert (last ids) (set (butlast ids))" "length (butlast ids) < length ids"
        using 1(2) Cons e last_split[of ids] by auto
      have wf1: "bt_wf ts1" using 1(2) Cons e by (simp add: ts1_def)
      have same: "set (bt_ids ts) = insert (last ids) (set (bt_ids ts1))" "set (due_ids now ts) = insert (last ids) (set (due_ids now ts1))"
          "length (due_ids now ts1) < length (due_ids now ts)"
        using ids True Cons e by (auto simp: ts1_def due_ids_def)
      show ?thesis
      proof (cases "im_contains inflight (last ids)")
        case found: True
        then have "pop_retry_msg_id now inflight ts = Inr (Some (last ids), ts1)"
          using Cons e True ids(1) by (subst pop_retry_msg_id.simps) (simp add: ts1_def)
        moreover have "retry_ok now inflight ts (Some (last ids)) ts1" using found wf1 same by (auto simp: retry_ok_def)
        ultimately show ?thesis by blast
      next
        case skip: False
        have run: "pop_retry_msg_id now inflight ts = pop_retry_msg_id now inflight ts1"
          using Cons e True ids(1) skip by (subst pop_retry_msg_id.simps) (simp add: ts1_def)
        obtain r ts2 where r: "pop_retry_msg_id now inflight ts1 = Inr (r, ts2)" "retry_ok now inflight ts1 r ts2"
          using 1(1)[OF Cons e[symmetric] True ids(1) ts1_def skip wf1] by (auto simp: ts1_def)
        have "retry_ok now inflight ts r ts2"
          using r(2) same skip unfolding retry_ok_def by (auto split: option.splits)
        then show ?thesis using run r(1) by metis
      qed
    qed
  qed
qed

section \<open>The queue's invariant\<close>

definition mq_inv :: "('m \<Rightarrow> nat) \<Rightarrow> nat \<Rightarrow> 'm message_queue \<Rightarrow> bool" where
  "mq_inv idf n q \<longleftrightarrow> bt_wf (mq_inflight_ts q) \<and> im_wf (mq_inflight q) \<and> length (mq_inflight q) \<le> n \<and>
     (\<forall>i m. im_get (mq_inflight q) i = Some m \<longrightarrow> idf m = i) \<and> fst ` set (mq_inflight q) \<subseteq> set (bt_ids (mq_inflight_ts q)) \<and>
     distinct (map idf (mq_queue q)) \<and> idf ` set (mq_queue q) \<inter> fst ` set (mq_inflight q) = {}"

text \<open>All messages the queue still holds.\<close>

definition mq_held :: "('m \<Rightarrow> nat) \<Rightarrow> 'm message_queue \<Rightarrow> nat set" where
  "mq_held idf q = idf ` set (mq_queue q) \<union> fst ` set (mq_inflight q)"

lemma contains_keys: "im_contains m k \<longleftrightarrow> k \<in> fst ` set m"
  by (simp add: im_contains_def map_of_eq_None_iff)

lemma insert_fresh_length: "k \<notin> fst ` set m \<Longrightarrow> length (im_insert m k v) = Suc (length m)"
  by (induction m k v rule: im_insert.induct) auto

lemma swap_remove_length: "im_contains m k \<Longrightarrow> Suc (length (im_swap_remove m k)) = length m"
proof -
  assume "im_contains m k"
  then obtain i where i: "index_of (\<lambda>e. fst e = k) m = Some i"
    by (cases "index_of (\<lambda>e. fst e = k) m") (auto simp: index_of_None contains_keys)
  then have "i < length m" using index_of_Some by blast
  then show ?thesis using i by (simp add: im_swap_remove_def swap_remove_at_def)
qed

lemma swap_remove_keys: "im_wf m \<Longrightarrow> fst ` set (im_swap_remove m k) = fst ` set m - {k}"
  using im_swap_remove_set[of m k] by auto

lemma mq_default_inv [simp]: "mq_inv idf n mq_default" "mq_held idf mq_default = {}"
  by (simp_all add: mq_inv_def mq_default_def mq_held_def)

lemma mq_push_inv: "mq_inv idf n q \<Longrightarrow> idf m \<notin> mq_held idf q \<Longrightarrow> mq_inv idf n (mq_push m q)"
  by (auto simp: mq_inv_def mq_push_def mq_held_def)

lemma mq_push_held [simp]: "mq_held idf (mq_push m q) = insert (idf m) (mq_held idf q)"
  by (simp add: mq_push_def mq_held_def)

lemma mq_ack_inv: "mq_inv idf n q \<Longrightarrow> mq_inv idf n (mq_on_ack i q)"
  using swap_remove_length[of "mq_inflight q" i] swap_remove_keys[of "mq_inflight q" i] by (auto simp: mq_inv_def mq_on_ack_def)

lemma mq_ack_held: "mq_inv idf n q \<Longrightarrow> mq_held idf q - {i} \<subseteq> mq_held idf (mq_on_ack i q) \<and> mq_held idf (mq_on_ack i q) \<subseteq> mq_held idf q"
  using swap_remove_keys[of "mq_inflight q" i] by (auto simp: mq_held_def mq_on_ack_def mq_inv_def)

lemma mq_ack_count: "mq_waits (mq_on_ack i q) + mq_inflight_len (mq_on_ack i q) + mq_acked (mq_on_ack i q) = mq_waits q + mq_inflight_len q + mq_acked q"
  using swap_remove_length[of "mq_inflight q" i] by (auto simp: mq_on_ack_def mq_waits_def mq_inflight_len_def)

text \<open>A poll: it never fails, holds what it held, sends only what it holds, and sends what is due first.\<close>

definition pop_ok :: "('m \<Rightarrow> nat) \<Rightarrow> nat \<Rightarrow> nat \<Rightarrow> 'm message_queue \<Rightarrow> 'm option \<Rightarrow> 'm message_queue \<Rightarrow> bool" where
  "pop_ok idf n now q r q1 \<longleftrightarrow> mq_inv idf n q1 \<and> mq_held idf q1 = mq_held idf q \<and> mq_acked q1 = mq_acked q \<and>
     mq_waits q1 + mq_inflight_len q1 = mq_waits q + mq_inflight_len q \<and>
     (case r of None \<Rightarrow> True | Some m \<Rightarrow> im_get (mq_inflight q1) (idf m) = Some m)"

lemma mq_pop_ok:
  assumes "mq_inv idf n q"
  shows "\<exists>r q1. mq_pop idf n now q = Inr (r, q1) \<and> pop_ok idf n now q r q1 \<and>
    (\<exists>found ts1. retry_ok now (mq_inflight q) (mq_inflight_ts q) found ts1 \<and>
      (case found of None \<Rightarrow> True | Some i \<Rightarrow> map_option idf r = Some i \<and> mq_inflight q1 = mq_inflight q \<and> mq_inflight_ts q1 = bt_push now i ts1))"
proof -
  have q: "bt_wf (mq_inflight_ts q)" "im_wf (mq_inflight q)" "length (mq_inflight q) \<le> n" "\<And>i m. im_get (mq_inflight q) i = Some m \<Longrightarrow> idf m = i"
      "fst ` set (mq_inflight q) \<subseteq> set (bt_ids (mq_inflight_ts q))" "distinct (map idf (mq_queue q))"
      "idf ` set (mq_queue q) \<inter> fst ` set (mq_inflight q) = {}"
    using assms unfolding mq_inv_def by blast+
  obtain found ts1 where f: "pop_retry_msg_id now (mq_inflight q) (mq_inflight_ts q) = Inr (found, ts1)" "retry_ok now (mq_inflight q) (mq_inflight_ts q) found ts1"
    using retry_exists[OF q(1)] by blast
  have ts1: "bt_wf ts1" "fst ` set (mq_inflight q) - set_option found \<subseteq> set (bt_ids ts1)"
    using f(2) q(5) by (auto simp: retry_ok_def contains_keys)
  show ?thesis
  proof (cases found)
    case (Some i)
    then obtain m where m: "im_get (mq_inflight q) i = Some m" "idf m = i" using f(2) q(4) by (auto simp: retry_ok_def im_contains_def)
    have "mq_pop idf n now q = Inr (Some m, q\<lparr>mq_inflight_ts := bt_push now i ts1\<rparr>)" using Some m f(1) by (simp add: mq_pop_def)
    moreover have "pop_ok idf n now q (Some m) (q\<lparr>mq_inflight_ts := bt_push now i ts1\<rparr>)"
      using q ts1 Some m by (auto simp: pop_ok_def mq_inv_def mq_held_def mq_waits_def mq_inflight_len_def)
    ultimately show ?thesis using f(2) Some m
      by (intro exI[of _ "Some m"] exI[of _ "q\<lparr>mq_inflight_ts := bt_push now i ts1\<rparr>"] conjI exI[of _ found] exI[of _ ts1]) simp_all
  next
    case None
    have keep: "pop_ok idf n now q None (q\<lparr>mq_inflight_ts := ts1\<rparr>)"
      using q ts1 None by (auto simp: pop_ok_def mq_inv_def mq_held_def mq_waits_def mq_inflight_len_def)
    show ?thesis
    proof (cases "length (mq_inflight q) < n \<and> mq_queue q \<noteq> []")
      case True
      then obtain m rest where m: "mq_queue q = m # rest" by (cases "mq_queue q") auto
      let ?q1 = "q\<lparr>mq_queue := rest, mq_inflight_ts := bt_push now (idf m) ts1, mq_inflight := im_insert (mq_inflight q) (idf m) m\<rparr>"
      have "idf m \<notin> fst ` set (mq_inflight q)" using q(7) m by auto
      then have "pop_ok idf n now q (Some m) ?q1"
        using q ts1 None True m by (auto simp: pop_ok_def mq_inv_def mq_held_def mq_waits_def mq_inflight_len_def insert_fresh_length split: if_splits)
      moreover have "mq_pop idf n now q = Inr (Some m, ?q1)" using True m None f(1) by (simp add: mq_pop_def)
      ultimately show ?thesis using f(2) None by fastforce
    next
      case False
      then have "mq_pop idf n now q = Inr (None, q\<lparr>mq_inflight_ts := ts1\<rparr>)" using None f(1) by (auto simp: mq_pop_def split: list.split)
      then show ?thesis using f(2) None keep by fastforce
    qed
  qed
qed

section \<open>Polls and calls in a row\<close>

fun mq_pops :: "('m \<Rightarrow> nat) \<Rightarrow> nat \<Rightarrow> nat \<Rightarrow> nat \<Rightarrow> 'm message_queue \<Rightarrow> ('m list \<times> 'm message_queue) res" where
  "mq_pops idf n now 0 q = Inr ([], q)"
| "mq_pops idf n now (Suc k) q =
     res_bind (mq_pop idf n now q) (\<lambda>(r, q1). res_bind (mq_pops idf n now k q1) (\<lambda>(ms, q2). Inr ((case r of None \<Rightarrow> ms | Some m \<Rightarrow> m # ms), q2)))"

lemma mq_pops_total: "mq_inv idf n q \<Longrightarrow> \<exists>ms q1. mq_pops idf n now k q = Inr (ms, q1) \<and> mq_inv idf n q1"
proof (induction k arbitrary: q)
  case (Suc k)
  obtain r q1 where "mq_pop idf n now q = Inr (r, q1)" "mq_inv idf n q1" using mq_pop_ok[OF Suc.prems] unfolding pop_ok_def by blast
  then show ?case using Suc.IH[of q1] by fastforce
qed simp

lemma due_is_sent:
  assumes "mq_inv idf n q" "im_contains (mq_inflight q) i" "i \<in> set (due_ids now (mq_inflight_ts q))"
    and "length (due_ids now (mq_inflight_ts q)) \<le> k"
  shows "\<exists>ms q1. mq_pops idf n now k q = Inr (ms, q1) \<and> i \<in> idf ` set ms"
  using assms
proof (induction k arbitrary: q)
  case (Suc k)
  from mq_pop_ok[OF Suc.prems(1), of now] obtain r q1 found ts1 where
      r: "mq_pop idf n now q = Inr (r, q1)" "pop_ok idf n now q r q1" "retry_ok now (mq_inflight q) (mq_inflight_ts q) found ts1"
      "case found of None \<Rightarrow> True | Some i \<Rightarrow> map_option idf r = Some i \<and> mq_inflight q1 = mq_inflight q \<and> mq_inflight_ts q1 = bt_push now i ts1"
    by blast
  have inv1: "mq_inv idf n q1" using r(2) by (simp add: pop_ok_def)
  obtain j where j: "found = Some j"
    using r(3) Suc.prems(2,3) by (cases found) (auto simp: retry_ok_def)
  then obtain m where m: "r = Some m" "idf m = j" "mq_inflight q1 = mq_inflight q" "mq_inflight_ts q1 = bt_push now j ts1"
    using r(4) by auto
  show ?case
  proof (cases "i = j")
    case True
    obtain ms q2 where "mq_pops idf n now k q1 = Inr (ms, q2)" using mq_pops_total[OF inv1] by blast
    then show ?thesis using r(1) m True by (intro exI[of _ "m # ms"] exI[of _ q2]) simp
  next
    case False
    then have "i \<in> set (due_ids now (mq_inflight_ts q1))" "length (due_ids now (mq_inflight_ts q1)) \<le> k"
      using r(3) j Suc.prems(2-4) m(4) by (auto simp: retry_ok_def)
    from Suc.IH[OF inv1 _ this] obtain ms q2 where "mq_pops idf n now k q1 = Inr (ms, q2)" "i \<in> idf ` set ms"
      using Suc.prems(2) m(3) by auto
    then show ?thesis using r(1) m(1) by (intro exI[of _ "m # ms"] exI[of _ q2]) simp
  qed
qed simp

datatype ('o, 'r, 's) agent_call = CaTick | CaInput "('o, 'r, 's) agent_input" | CaShutdown | CaPop nat

fun ca_step :: "('o, 'r, 's) agent_call \<Rightarrow> ('o, 'r, 's) connector_agent \<Rightarrow> (('o, 'r, 's) agent_output option \<times> ('o, 'r, 's) connector_agent) res" where
  "ca_step CaTick a = Inr (None, ca_on_tick a)"
| "ca_step (CaInput i) a = Inr (None, ca_on_input i a)"
| "ca_step CaShutdown a = Inr (None, ca_on_shutdown a)"
| "ca_step (CaPop now) a = ca_pop_output now a"

fun ca_run :: "('o, 'r, 's) agent_call list \<Rightarrow> ('o, 'r, 's) connector_agent \<Rightarrow> (('o, 'r, 's) agent_output list \<times> ('o, 'r, 's) connector_agent) res" where
  "ca_run [] a = Inr ([], a)"
| "ca_run (c # cs) a =
     res_bind (ca_step c a) (\<lambda>(out, a1). res_bind (ca_run cs a1) (\<lambda>(outs, a2). Inr ((case out of None \<Rightarrow> outs | Some x \<Rightarrow> x # outs), a2)))"

text \<open>Numbers are given out once; what is unanswered is held; what was given out is counted once.\<close>

definition ca_inv :: "('o, 'r, 's) connector_agent \<Rightarrow> bool" where
  "ca_inv a \<longleftrightarrow> mq_inv req_id AGENT_MAX_INFLIGHT (ca_msg_queue a) \<and> mq_held req_id (ca_msg_queue a) \<subseteq> {..<ca_req_id_seed a} \<and> im_wf (ca_req_data a) \<and>
     fst ` set (ca_req_data a) \<subseteq> mq_held req_id (ca_msg_queue a) \<and>
     mq_waits (ca_msg_queue a) + mq_inflight_len (ca_msg_queue a) + mq_acked (ca_msg_queue a) = ca_req_id_seed a"

lemma ca_new_inv: "ca_inv ca_new"
  by (simp add: ca_inv_def ca_new_def) (simp add: mq_default_def mq_waits_def mq_inflight_len_def)

lemma ca_input_inv: "ca_inv a \<Longrightarrow> ca_inv (ca_on_input i a)"
proof (induction i a rule: ca_on_input.induct)
  case (2 owner ts request a)
  let ?m = "\<lparr>req_id = ca_req_id_seed a, req_ts = ts, req_body = request\<rparr>"
  have "req_id ?m \<notin> mq_held req_id (ca_msg_queue a)" using 2 by (auto simp: ca_inv_def)
  then show ?case using 2 mq_push_inv[of req_id AGENT_MAX_INFLIGHT "ca_msg_queue a" ?m]
    by (auto simp: ca_inv_def) (simp_all add: mq_push_def mq_waits_def mq_inflight_len_def)
next
  case (4 i response a)
  show ?case
  proof (cases "im_get (ca_req_data a) i")
    case (Some actor)
    let ?q = "ca_msg_queue a"
    have q: "mq_inv req_id AGENT_MAX_INFLIGHT ?q" "im_wf (ca_req_data a)" "fst ` set (ca_req_data a) \<subseteq> mq_held req_id ?q"
        "mq_held req_id ?q \<subseteq> {..<ca_req_id_seed a}" "mq_waits ?q + mq_inflight_len ?q + mq_acked ?q = ca_req_id_seed a"
      using 4 by (simp_all add: ca_inv_def)
    have "fst ` set (im_swap_remove (ca_req_data a) i) \<subseteq> mq_held req_id (mq_on_ack i ?q)"
      unfolding swap_remove_keys[OF q(2)] using mq_ack_held[OF q(1), of i] q(3) by blast
    moreover have "mq_held req_id (mq_on_ack i ?q) \<subseteq> {..<ca_req_id_seed a}" using mq_ack_held[OF q(1), of i] q(4) by blast
    ultimately show ?thesis using Some q mq_ack_inv[OF q(1), of i] mq_ack_count[of i ?q] by (simp add: ca_inv_def)
  qed (use 4 in simp)
qed (simp_all add: ca_inv_def)

lemma ca_step_inv: "ca_inv a \<Longrightarrow> \<exists>out a1. ca_step c a = Inr (out, a1) \<and> ca_inv a1"
proof (cases c)
  case (CaPop now)
  assume a: "ca_inv a"
  show ?thesis
  proof (cases "ca_queue a")
    case Nil
    have "mq_inv req_id AGENT_MAX_INFLIGHT (ca_msg_queue a)" using a by (simp add: ca_inv_def)
    from mq_pop_ok[OF this, of now] obtain r q1 where
      r: "mq_pop req_id AGENT_MAX_INFLIGHT now (ca_msg_queue a) = Inr (r, q1)" "pop_ok req_id AGENT_MAX_INFLIGHT now (ca_msg_queue a) r q1" by blast
    then show ?thesis using a CaPop Nil by (auto simp: ca_pop_output_def ca_inv_def pop_ok_def)
  qed (use a CaPop in \<open>simp add: ca_pop_output_def ca_inv_def\<close>)
next
  case (CaInput i)
  assume "ca_inv a"
  then show ?thesis using CaInput ca_input_inv[of a i] by simp
qed (auto simp: ca_on_tick_def ca_on_shutdown_def ca_inv_def split: option.split)

lemma ca_run_inv: "ca_inv a \<Longrightarrow> \<exists>outs a1. ca_run cs a = Inr (outs, a1) \<and> ca_inv a1"
proof (induction cs arbitrary: a)
  case (Cons c cs)
  obtain out a1 where "ca_step c a = Inr (out, a1)" "ca_inv a1" using ca_step_inv[OF Cons.prems] by blast
  then show ?case using Cons.IH[of a1] by fastforce
qed simp

section \<open>Properties\<close>

text \<open>C10: whatever requests, responses, ticks and polls the agent of a node sees, and at whatever times it is polled, it does
  not panic; every unanswered request is still waiting or under way, so none is lost; the requests given out are exactly
  those waiting, under way and acknowledged together; and at most 1024 are under way.\<close>

theorem agent_loses_no_request:
  "\<exists>outs a. ca_run calls ca_new = Inr (outs, a) \<and>
     fst ` set (ca_req_data a) \<subseteq> req_id ` set (mq_queue (ca_msg_queue a)) \<union> fst ` set (mq_inflight (ca_msg_queue a)) \<and>
     mq_waits (ca_msg_queue a) + mq_inflight_len (ca_msg_queue a) + mq_acked (ca_msg_queue a) = ca_req_id_seed a \<and>
     mq_inflight_len (ca_msg_queue a) \<le> 1024"
proof -
  obtain outs a where "ca_run calls ca_new = Inr (outs, a)" "ca_inv a" using ca_run_inv[OF ca_new_inv] by blast
  then show ?thesis by (auto simp: ca_inv_def mq_inv_def mq_held_def mq_inflight_len_def AGENT_MAX_INFLIGHT_def)
qed


definition demo_calls :: "(nat, nat, nat) agent_call list" where
  "demo_calls = [CaInput (AgentControl 7 (Some (AgentRequest 5 42))), CaInput (AgentControl 8 (Some (AgentRequest 6 43))), CaPop 0, CaPop 10, CaPop 20,
     CaInput (AgentRecv (Some (0, Some 99))), CaPop 30]"

definition demo_agent :: "(nat, nat, nat) connector_agent" where
  "demo_agent = \<lparr>ca_req_id_seed = 2, ca_req_data = [(1, 8)], ca_subscriber = None,
     ca_msg_queue = \<lparr>mq_inflight_ts = [(10, [0]), (20, [1])], mq_inflight = [(1, \<lparr>req_id = 1, req_ts = 6, req_body = 43\<rparr>)], mq_queue = [], mq_acked = 1\<rparr>,
     ca_queue = [], ca_shutdown = False\<rparr>"


end
