(* ===== verification/Gateway_Store.thy ===== *)
theory Gateway_Store
  imports Media_Prelude
begin

text \<open>
  The media gateway, \<open>packages/media_gateway/src/store/service.rs\<close>, \<open>store.rs\<close>, \<open>store_service.rs\<close> and \<open>agent_service.rs\<close>: media
  nodes report their load to the gateways of their zone, gateways report to each other across zones, and a gateway answers
  which node should take a new session. Counts are \<open>u32\<close>, loads \<open>u8\<close> and the broadcast number \<open>u16\<close>, with overflow a panic.
  The distance between two locations, a floating point number, is an argument of the choice with values in a linear order.
  Shown: the chosen node is a least loaded one of the nearest place, and what is known is dropped when it is not renewed.
\<close>

section \<open>Checked arithmetic\<close>

definition add_u32 :: "nat \<Rightarrow> nat \<Rightarrow> nat res" where
  "add_u32 a b = (if a + b < 2 ^ 32 then Inr (a + b) else Inl Overflow)"

definition mul_u32 :: "nat \<Rightarrow> nat \<Rightarrow> nat res" where
  "mul_u32 a b = (if a * b < 2 ^ 32 then Inr (a * b) else Inl Overflow)"

definition div_u32 :: "nat \<Rightarrow> nat \<Rightarrow> nat res" where
  "div_u32 a b = (if b = 0 then Inl DivByZero else Inr (a div b))"

section \<open>One kind of service\<close>

datatype service_kind = Webrtc | RtpEngine

record service_stats =
  st_live :: nat
  st_max :: nat
  st_active :: bool

definition PING_TIMEOUT :: nat where "PING_TIMEOUT = 5000"

definition zone_from_node_id :: "nat \<Rightarrow> nat" where
  "zone_from_node_id node = node div 2 ^ 8"

record node_source =
  ns_node :: nat
  ns_usage :: nat
  ns_stats :: service_stats
  ns_last_updated :: nat

record 'l zone_source =
  zs_zone :: nat
  zs_usage :: nat
  zs_location :: 'l
  zs_last_updated :: nat
  zs_gateways :: "node_source list"

record 'l service_store =
  ss_zone :: nat
  ss_kind :: service_kind
  ss_location :: 'l
  ss_local_sources :: "node_source list"
  ss_zone_sources :: "'l zone_source list"

definition ss_new :: "nat \<Rightarrow> service_kind \<Rightarrow> 'l \<Rightarrow> 'l service_store" where
  "ss_new zone kind location = \<lparr>ss_zone = zone, ss_kind = kind, ss_location = location, ss_local_sources = [], ss_zone_sources = []\<rparr>"

definition source_fresh :: "nat \<Rightarrow> node_source \<Rightarrow> bool" where
  "source_fresh now s \<longleftrightarrow> ns_last_updated s + PING_TIMEOUT > now"

definition ss_on_tick :: "nat \<Rightarrow> 'l service_store \<Rightarrow> 'l service_store" where
  "ss_on_tick now s =
     s\<lparr>ss_local_sources := filter (source_fresh now) (ss_local_sources s),
       ss_zone_sources := filter (\<lambda>z. zs_gateways z \<noteq> [])
         (map (\<lambda>z. z\<lparr>zs_gateways := filter (source_fresh now) (zs_gateways z)\<rparr>) (ss_zone_sources s))\<rparr>"

text \<open>The first element found is changed in place, or removed.\<close>

fun update_first :: "('a \<Rightarrow> bool) \<Rightarrow> ('a \<Rightarrow> 'a) \<Rightarrow> 'a list \<Rightarrow> 'a list" where
  "update_first P f [] = []"
| "update_first P f (x # xs) = (if P x then f x # xs else x # update_first P f xs)"

fun remove_first :: "('a \<Rightarrow> bool) \<Rightarrow> 'a list \<Rightarrow> 'a list" where
  "remove_first P [] = []"
| "remove_first P (x # xs) = (if P x then xs else x # remove_first P xs)"

text \<open>A report of a node: its load and time are renewed, or it is entered; the list is kept in the order of load.\<close>

definition ping_source :: "nat \<Rightarrow> nat \<Rightarrow> nat \<Rightarrow> service_stats \<Rightarrow> node_source list \<Rightarrow> node_source list" where
  "ping_source now node usage stats sources =
     sort_key ns_usage
       (if \<exists>s\<in>set sources. ns_node s = node
        then update_first (\<lambda>s. ns_node s = node) (\<lambda>s. s\<lparr>ns_usage := usage, ns_last_updated := now\<rparr>) sources
        else sources @ [\<lparr>ns_node = node, ns_usage = usage, ns_stats = stats, ns_last_updated = now\<rparr>])"

definition ss_on_node_ping :: "nat \<Rightarrow> nat \<Rightarrow> nat \<Rightarrow> service_stats \<Rightarrow> 'l service_store \<Rightarrow> 'l service_store" where
  "ss_on_node_ping now node usage stats s = s\<lparr>ss_local_sources := ping_source now node usage stats (ss_local_sources s)\<rparr>"

definition ss_remove_node :: "nat \<Rightarrow> 'l service_store \<Rightarrow> 'l service_store" where
  "ss_remove_node node s = s\<lparr>ss_local_sources := remove_first (\<lambda>x. ns_node x = node) (ss_local_sources s)\<rparr>"

definition ss_on_gateway_ping :: "nat \<Rightarrow> nat \<Rightarrow> nat \<Rightarrow> nat \<Rightarrow> 'l \<Rightarrow> nat \<Rightarrow> service_stats \<Rightarrow> 'l service_store \<Rightarrow> 'l service_store" where
  "ss_on_gateway_ping now zone gateway gateway_usage location usage stats s =
     s\<lparr>ss_zone_sources :=
         (if \<exists>z\<in>set (ss_zone_sources s). zs_zone z = zone
          then update_first (\<lambda>z. zs_zone z = zone)
                 (\<lambda>z. z\<lparr>zs_usage := usage, zs_last_updated := now, zs_gateways := ping_source now gateway gateway_usage stats (zs_gateways z)\<rparr>)
                 (ss_zone_sources s)
          else ss_zone_sources s @
                 [\<lparr>zs_zone = zone, zs_usage = usage, zs_location = location, zs_last_updated = now,
                   zs_gateways = [\<lparr>ns_node = gateway, ns_usage = gateway_usage, ns_stats = stats, ns_last_updated = now\<rparr>]\<rparr>]),
       ss_local_sources := sort_key ns_usage (ss_local_sources s)\<rparr>"

definition ss_remove_gateway :: "nat \<Rightarrow> nat \<Rightarrow> 'l service_store \<Rightarrow> 'l service_store" where
  "ss_remove_gateway zone gateway s =
     (let zones = update_first (\<lambda>z. zs_zone z = zone) (\<lambda>z. z\<lparr>zs_gateways := remove_first (\<lambda>g. ns_node g = gateway) (zs_gateways z)\<rparr>) (ss_zone_sources s)
      in case find (\<lambda>z. zs_zone z = zone) zones of
           Some z \<Rightarrow> s\<lparr>ss_zone_sources := (if zs_gateways z = [] then remove_first (\<lambda>z. zs_zone z = zone) zones else zones)\<rparr>
         | None \<Rightarrow> s)"

definition first_node :: "node_source list \<Rightarrow> nat option" where
  "first_node xs = (case xs of [] \<Rightarrow> None | x # _ \<Rightarrow> Some (ns_node x))"

fun best_zone :: "('l \<Rightarrow> 'l \<Rightarrow> 'd :: linorder) \<Rightarrow> 'l \<Rightarrow> 'd \<times> nat option \<Rightarrow> 'l zone_source list \<Rightarrow> 'd \<times> nat option" where
  "best_zone distance location best [] = best"
| "best_zone distance location (min_dis, min_node) (z # zs) =
     (let dis = distance location (zs_location z) in
      best_zone distance location
        (if min_node = None \<or> min_dis > dis then (dis, first_node (zs_gateways z)) else (min_dis, min_node)) zs)"

definition ss_best_for :: "('l \<Rightarrow> 'l \<Rightarrow> 'd :: linorder) \<Rightarrow> 'l option \<Rightarrow> 'l service_store \<Rightarrow> nat option" where
  "ss_best_for distance location s =
     (let location = (case location of None \<Rightarrow> ss_location s | Some l \<Rightarrow> l) in
      snd (best_zone distance location (distance (ss_location s) location, first_node (ss_local_sources s)) (ss_zone_sources s)))"

definition ss_dest_for :: "nat \<Rightarrow> 'l service_store \<Rightarrow> nat option" where
  "ss_dest_for dest s =
     (if zone_from_node_id dest = ss_zone s
      then (if \<exists>n\<in>set (ss_local_sources s). ns_node n = dest then Some dest else None)
      else (case find (\<lambda>z. zs_zone z = zone_from_node_id dest) (ss_zone_sources s) of None \<Rightarrow> None | Some z \<Rightarrow> first_node (zs_gateways z)))"

fun sum_stats :: "service_stats \<Rightarrow> node_source list \<Rightarrow> service_stats res" where
  "sum_stats st [] = Inr st"
| "sum_stats st (n # ns) =
     res_bind (add_u32 (st_live st) (st_live (ns_stats n))) (\<lambda>live.
     res_bind (add_u32 (st_max st) (st_max (ns_stats n))) (\<lambda>mx.
     sum_stats \<lparr>st_live = live, st_max = mx, st_active = (st_active st \<or> st_active (ns_stats n))\<rparr> ns))"

definition ss_local_stats :: "'l service_store \<Rightarrow> service_stats option res" where
  "ss_local_stats s =
     (if ss_local_sources s = [] then Inr None
      else res_bind (sum_stats \<lparr>st_live = 0, st_max = 0, st_active = False\<rparr> (ss_local_sources s)) (\<lambda>st. Inr (Some st)))"

section \<open>The store of a gateway\<close>

datatype 'l ping_origin = MediaOrigin | GatewayOrigin nat "'l option"

record 'l ping_event =
  ping_cpu :: nat
  ping_memory :: nat
  ping_disk :: nat
  ping_origin :: "'l ping_origin"
  ping_webrtc :: "service_stats option"
  ping_rtpengine :: "service_stats option"

record node_metrics =
  nm_cpu :: nat
  nm_memory :: nat
  nm_disk :: nat

record 'l gateway_store =
  gs_zone :: nat
  gs_node :: node_metrics
  gs_location :: 'l
  gs_webrtc :: "'l service_store"
  gs_rtpengine :: "'l service_store"
  gs_output :: "'l ping_event option"
  gs_max_cpu :: nat
  gs_max_memory :: nat
  gs_max_disk :: nat

definition gs_new :: "nat \<Rightarrow> 'l \<Rightarrow> nat \<Rightarrow> nat \<Rightarrow> nat \<Rightarrow> 'l gateway_store" where
  "gs_new zone location max_cpu max_memory max_disk =
     \<lparr>gs_zone = zone, gs_node = \<lparr>nm_cpu = 0, nm_memory = 0, nm_disk = 0\<rparr>, gs_location = location, gs_webrtc = ss_new zone Webrtc location,
      gs_rtpengine = ss_new zone RtpEngine location, gs_output = None, gs_max_cpu = max_cpu, gs_max_memory = max_memory, gs_max_disk = max_disk\<rparr>"

definition gs_on_node_metrics :: "node_metrics \<Rightarrow> 'l gateway_store \<Rightarrow> 'l gateway_store" where
  "gs_on_node_metrics metrics g = g\<lparr>gs_node := metrics\<rparr>"

definition gs_on_tick :: "nat \<Rightarrow> 'l gateway_store \<Rightarrow> 'l gateway_store res" where
  "gs_on_tick now g =
     (let w = ss_on_tick now (gs_webrtc g); r = ss_on_tick now (gs_rtpengine g) in
      res_bind (ss_local_stats w) (\<lambda>ws. res_bind (ss_local_stats r) (\<lambda>rs.
      Inr (g\<lparr>gs_webrtc := w, gs_rtpengine := r,
             gs_output := Some \<lparr>ping_cpu = nm_cpu (gs_node g), ping_memory = nm_memory (gs_node g), ping_disk = nm_disk (gs_node g),
               ping_origin = GatewayOrigin (gs_zone g) (Some (gs_location g)), ping_webrtc = ws, ping_rtpengine = rs\<rparr>\<rparr>))))"

definition node_usage :: "'l ping_event \<Rightarrow> nat \<Rightarrow> nat \<Rightarrow> nat \<Rightarrow> nat option" where
  "node_usage ping max_cpu max_memory max_disk =
     (if ping_cpu ping \<ge> max_cpu then None else if ping_memory ping \<ge> max_memory then None else if ping_disk ping \<ge> max_disk then None
      else Some (ping_cpu ping))"

definition service_usage :: "service_stats option \<Rightarrow> 'l ping_event \<Rightarrow> nat \<Rightarrow> nat \<Rightarrow> nat \<Rightarrow> nat option res" where
  "service_usage service ping max_cpu max_memory max_disk =
     (if ping_cpu ping \<ge> max_cpu then Inr None else if ping_memory ping \<ge> max_memory then Inr None else if ping_disk ping \<ge> max_disk then Inr None
      else (case service of
              None \<Rightarrow> Inr None
            | Some st \<Rightarrow>
                if st_active st
                then res_bind (mul_u32 (st_live st) 100) (\<lambda>a. res_bind (div_u32 a (st_max st)) (\<lambda>u. Inr (Some (max (ping_cpu ping) (as_u8 u)))))
                else Inr None))"

definition webrtc_usage :: "'l ping_event \<Rightarrow> nat \<Rightarrow> nat \<Rightarrow> nat \<Rightarrow> nat option res" where
  "webrtc_usage ping = service_usage (ping_webrtc ping) ping"

definition rtpengine_usage :: "'l ping_event \<Rightarrow> nat \<Rightarrow> nat \<Rightarrow> nat \<Rightarrow> nat option res" where
  "rtpengine_usage ping = service_usage (ping_rtpengine ping) ping"

text \<open>What a report of a media node does to one kind of service.\<close>

definition media_ping :: "nat \<Rightarrow> nat \<Rightarrow> nat option \<Rightarrow> nat option \<Rightarrow> service_stats option \<Rightarrow> 'l service_store \<Rightarrow> 'l service_store" where
  "media_ping now src node usage stats s =
     (case (node, usage, stats) of (Some _, Some u, Some st) \<Rightarrow> ss_on_node_ping now src u st s | _ \<Rightarrow> ss_remove_node src s)"

definition gs_on_ping :: "nat \<Rightarrow> nat \<Rightarrow> 'l ping_event \<Rightarrow> 'l gateway_store \<Rightarrow> 'l gateway_store res" where
  "gs_on_ping now src ping g =
     (let node = node_usage ping (gs_max_cpu g) (gs_max_memory g) (gs_max_disk g) in
      res_bind (webrtc_usage ping (gs_max_cpu g) (gs_max_memory g) (gs_max_disk g)) (\<lambda>w.
      res_bind (rtpengine_usage ping (gs_max_cpu g) (gs_max_memory g) (gs_max_disk g)) (\<lambda>r.
      case ping_origin ping of
        MediaOrigin \<Rightarrow>
          Inr (g\<lparr>gs_webrtc := media_ping now src node w (ping_webrtc ping) (gs_webrtc g),
                 gs_rtpengine := media_ping now src node r (ping_rtpengine ping) (gs_rtpengine g)\<rparr>)
      | GatewayOrigin zone location \<Rightarrow>
          if zone = gs_zone g then Inr g
          else Inr (case (node, w, location, ping_webrtc ping) of
                 (Some n, Some u, Some l, Some st) \<Rightarrow> g\<lparr>gs_webrtc := ss_on_gateway_ping now zone src n l u st (gs_webrtc g)\<rparr>
               | _ \<Rightarrow> g\<lparr>gs_webrtc := ss_remove_gateway zone src (gs_webrtc g), gs_rtpengine := ss_remove_gateway zone src (gs_rtpengine g)\<rparr>))))"

definition gs_service :: "service_kind \<Rightarrow> 'l gateway_store \<Rightarrow> 'l service_store" where
  "gs_service kind g = (case kind of Webrtc \<Rightarrow> gs_webrtc g | RtpEngine \<Rightarrow> gs_rtpengine g)"

definition gs_best_for :: "('l \<Rightarrow> 'l \<Rightarrow> 'd :: linorder) \<Rightarrow> service_kind \<Rightarrow> 'l option \<Rightarrow> 'l gateway_store \<Rightarrow> nat option" where
  "gs_best_for distance kind location g = ss_best_for distance location (gs_service kind g)"

definition gs_dest_for :: "service_kind \<Rightarrow> nat \<Rightarrow> 'l gateway_store \<Rightarrow> nat option" where
  "gs_dest_for kind dest g = ss_dest_for dest (gs_service kind g)"

definition gs_local_stats :: "'l gateway_store \<Rightarrow> service_stats option res" where
  "gs_local_stats g = ss_local_stats (gs_webrtc g)"

definition gs_pop_output :: "'l gateway_store \<Rightarrow> 'l ping_event option \<times> 'l gateway_store" where
  "gs_pop_output g = (gs_output g, g\<lparr>gs_output := None\<rparr>)"

section \<open>The services of a node\<close>

definition add_u16_1 :: "nat \<Rightarrow> nat res" where
  "add_u16_1 n = (if n + 1 < 2 ^ 16 then Inr (n + 1) else Inl Overflow)"

text \<open>A report as it is on the wire: loads of 32 bits and an origin that may be missing.\<close>

record 'l wire_ping =
  wp_cpu :: nat
  wp_memory :: nat
  wp_disk :: nat
  wp_origin :: "'l ping_origin option"
  wp_webrtc :: "service_stats option"
  wp_rtpengine :: "service_stats option"

datatype 'l store_control = NodeStats node_metrics | FindNodeReq nat service_kind "'l option" | FindDestReq nat service_kind nat | GetMediaStats

datatype store_event = MediaStats nat nat | FindNodeRes nat "nat option" | FindDestRes nat "nat option"

datatype ('u, 'l) store_output = StoreListen | StoreBroadcast nat "'l wire_ping" | StoreEvent 'u store_event

record ('u, 'l) gateway_store_service =
  gss_queue :: "('u, 'l) store_output list"
  gss_store :: "'l gateway_store"
  gss_seq :: nat
  gss_shutdown :: bool

definition gss_new :: "nat \<Rightarrow> 'l \<Rightarrow> nat \<Rightarrow> nat \<Rightarrow> nat \<Rightarrow> ('u, 'l) gateway_store_service" where
  "gss_new zone location max_cpu max_memory max_disk =
     \<lparr>gss_queue = [StoreListen], gss_store = gs_new zone location max_cpu max_memory max_disk, gss_seq = 0, gss_shutdown = False\<rparr>"

text \<open>A received message: its source, if known, and the report in it, if it decodes to one.\<close>

definition gss_handle_event :: "nat \<Rightarrow> nat option \<Rightarrow> 'l wire_ping option \<Rightarrow> ('u, 'l) gateway_store_service \<Rightarrow> ('u, 'l) gateway_store_service res" where
  "gss_handle_event now source data s =
     (case (source, data) of
        (Some src, Some ping) \<Rightarrow>
          (case wp_origin ping of
             None \<Rightarrow> Inr s
           | Some origin \<Rightarrow>
               res_bind (gs_on_ping now src
                 \<lparr>ping_cpu = as_u8 (wp_cpu ping), ping_memory = as_u8 (wp_memory ping), ping_disk = as_u8 (wp_disk ping),
                  ping_origin = origin, ping_webrtc = wp_webrtc ping, ping_rtpengine = wp_rtpengine ping\<rparr> (gss_store s)) (\<lambda>g.
               Inr (s\<lparr>gss_store := g\<rparr>)))
      | _ \<Rightarrow> Inr s)"

definition gss_on_tick :: "nat \<Rightarrow> ('u, 'l) gateway_store_service \<Rightarrow> ('u, 'l) gateway_store_service res" where
  "gss_on_tick now s =
     res_bind (gs_on_tick now (gss_store s)) (\<lambda>g.
     let (out, g1) = gs_pop_output g in
     case out of
       None \<Rightarrow> Inr (s\<lparr>gss_store := g1\<rparr>)
     | Some ping \<Rightarrow>
         res_bind (add_u16_1 (gss_seq s)) (\<lambda>seq.
         Inr (s\<lparr>gss_store := g1, gss_seq := seq,
                gss_queue := gss_queue s @
                  [StoreBroadcast (gss_seq s)
                     \<lparr>wp_cpu = ping_cpu ping, wp_memory = ping_memory ping, wp_disk = ping_disk ping, wp_origin = Some (ping_origin ping),
                      wp_webrtc = ping_webrtc ping, wp_rtpengine = ping_rtpengine ping\<rparr>]\<rparr>)))"

fun gss_on_control :: "('l \<Rightarrow> 'l \<Rightarrow> 'd :: linorder) \<Rightarrow> 'u \<Rightarrow> 'l store_control \<Rightarrow> ('u, 'l) gateway_store_service \<Rightarrow> ('u, 'l) gateway_store_service res" where
  "gss_on_control distance actor (FindNodeReq req_id kind location) s =
     Inr (s\<lparr>gss_queue := gss_queue s @ [StoreEvent actor (FindNodeRes req_id (gs_best_for distance kind location (gss_store s)))]\<rparr>)"
| "gss_on_control distance actor (FindDestReq req_id kind dest) s =
     Inr (s\<lparr>gss_queue := gss_queue s @ [StoreEvent actor (FindDestRes req_id (gs_dest_for kind dest (gss_store s)))]\<rparr>)"
| "gss_on_control distance actor (NodeStats metrics) s = Inr (s\<lparr>gss_store := gs_on_node_metrics metrics (gss_store s)\<rparr>)"
| "gss_on_control distance actor GetMediaStats s =
     res_bind (gs_local_stats (gss_store s)) (\<lambda>st.
     Inr (case st of None \<Rightarrow> s | Some x \<Rightarrow> s\<lparr>gss_queue := gss_queue s @ [StoreEvent actor (MediaStats (st_live x) (st_max x))]\<rparr>))"

definition gss_on_shutdown :: "('u, 'l) gateway_store_service \<Rightarrow> ('u, 'l) gateway_store_service" where
  "gss_on_shutdown s = s\<lparr>gss_shutdown := True\<rparr>"

definition gss_is_empty :: "('u, 'l) gateway_store_service \<Rightarrow> bool" where
  "gss_is_empty s \<longleftrightarrow> gss_shutdown s \<and> gss_queue s = []"

definition gss_pop_output :: "('u, 'l) gateway_store_service \<Rightarrow> ('u, 'l) store_output option \<times> ('u, 'l) gateway_store_service" where
  "gss_pop_output s = (case gss_queue s of [] \<Rightarrow> (None, s) | out # rest \<Rightarrow> (Some out, s\<lparr>gss_queue := rest\<rparr>))"

text \<open>The agent of a media node, which reports.\<close>

record service_workers_stats =
  sw_max :: nat
  sw_workers :: "(nat, nat) imap"

fun sum_u32 :: "nat \<Rightarrow> nat list \<Rightarrow> nat res" where
  "sum_u32 acc [] = Inr acc"
| "sum_u32 acc (n # ns) = res_bind (add_u32 acc n) (\<lambda>a. sum_u32 a ns)"

definition workers_stats :: "service_workers_stats \<Rightarrow> service_stats res" where
  "workers_stats w = res_bind (sum_u32 0 (im_values (sw_workers w))) (\<lambda>live. Inr \<lparr>st_live = live, st_max = sw_max w, st_active = True\<rparr>)"

datatype gateway_agent_control = AgentNodeStats node_metrics | WorkerUsage service_kind nat nat

record 'l gateway_agent =
  ga_output :: "(nat \<times> 'l wire_ping) option"
  ga_seq :: nat
  ga_node :: node_metrics
  ga_services :: "(service_kind, service_workers_stats) imap"
  ga_shutdown :: bool

definition ga_new :: "(service_kind, nat) imap \<Rightarrow> 'l gateway_agent" where
  "ga_new mx = \<lparr>ga_output = None, ga_seq = 0, ga_node = \<lparr>nm_cpu = 0, nm_memory = 0, nm_disk = 0\<rparr>,
     ga_services = map (\<lambda>(k, v). (k, \<lparr>sw_max = v, sw_workers = []\<rparr>)) mx, ga_shutdown = False\<rparr>"

definition ga_stats :: "service_kind \<Rightarrow> 'l gateway_agent \<Rightarrow> service_stats option res" where
  "ga_stats kind a = (case im_get (ga_services a) kind of None \<Rightarrow> Inr None | Some w \<Rightarrow> res_bind (workers_stats w) (\<lambda>s. Inr (Some s)))"

definition ga_on_tick :: "'l gateway_agent \<Rightarrow> 'l gateway_agent res" where
  "ga_on_tick a =
     res_bind (add_u16_1 (ga_seq a)) (\<lambda>seq.
     res_bind (ga_stats Webrtc a) (\<lambda>w. res_bind (ga_stats RtpEngine a) (\<lambda>r.
     Inr (a\<lparr>ga_seq := seq,
            ga_output := Some (ga_seq a, \<lparr>wp_cpu = nm_cpu (ga_node a), wp_memory = nm_memory (ga_node a), wp_disk = nm_disk (ga_node a),
              wp_origin = Some MediaOrigin, wp_webrtc = w, wp_rtpengine = r\<rparr>)\<rparr>))))"

fun ga_on_control :: "gateway_agent_control \<Rightarrow> 'l gateway_agent \<Rightarrow> 'l gateway_agent" where
  "ga_on_control (AgentNodeStats metrics) a = a\<lparr>ga_node := metrics\<rparr>"
| "ga_on_control (WorkerUsage kind worker live) a =
     (case im_get (ga_services a) kind of
        None \<Rightarrow> a
      | Some w \<Rightarrow> a\<lparr>ga_services := im_insert (ga_services a) kind (w\<lparr>sw_workers := im_insert (sw_workers w) worker live\<rparr>)\<rparr>)"

definition ga_on_shutdown :: "'l gateway_agent \<Rightarrow> 'l gateway_agent" where
  "ga_on_shutdown a = a\<lparr>ga_shutdown := True\<rparr>"

definition ga_is_empty :: "'l gateway_agent \<Rightarrow> bool" where
  "ga_is_empty a \<longleftrightarrow> ga_shutdown a \<and> ga_output a = None"

definition ga_pop_output :: "'l gateway_agent \<Rightarrow> (nat \<times> 'l wire_ping) option \<times> 'l gateway_agent" where
  "ga_pop_output a = (ga_output a, a\<lparr>ga_output := None\<rparr>)"

section \<open>The tables\<close>

text \<open>A table of nodes: each node once, the least loaded first.\<close>

definition sources_ok :: "node_source list \<Rightarrow> bool" where
  "sources_ok xs \<longleftrightarrow> sorted (map ns_usage xs) \<and> distinct (map ns_node xs)"

definition ss_inv :: "'l service_store \<Rightarrow> bool" where
  "ss_inv s \<longleftrightarrow> sources_ok (ss_local_sources s) \<and> distinct (map zs_zone (ss_zone_sources s)) \<and>
     (\<forall>z\<in>set (ss_zone_sources s). sources_ok (zs_gateways z) \<and> zs_gateways z \<noteq> [])"

lemma update_first_map: "(\<And>x. k (f x) = k x) \<Longrightarrow> map k (update_first P f xs) = map k xs"
  by (induction xs) auto

lemma update_first_set: "set (update_first P f xs) \<subseteq> set xs \<union> f ` {x \<in> set xs. P x}"
  by (induction xs) auto

lemma remove_first_subseq: "set (remove_first P xs) \<subseteq> set xs" "distinct (map k xs) \<Longrightarrow> distinct (map k (remove_first P xs))"
  "sorted (map u xs) \<Longrightarrow> sorted (map u (remove_first P xs))"
proof -
  show sub: "set (remove_first P xs) \<subseteq> set xs" for xs :: "'a list" by (induction xs) auto
  show "distinct (map k xs) \<Longrightarrow> distinct (map k (remove_first P xs))"
  proof (induction xs)
    case (Cons x xs)
    then show ?case using sub[of xs] by auto
  qed simp
  show "sorted (map u xs) \<Longrightarrow> sorted (map u (remove_first P xs))"
  proof (induction xs)
    case (Cons x xs)
    then show ?case using sub[of xs] by auto
  qed simp
qed

lemma sources_filter: "sources_ok xs \<Longrightarrow> sources_ok (filter P xs)"
  by (simp add: sources_ok_def sorted_filter distinct_map_filter)

lemma sources_remove: "sources_ok xs \<Longrightarrow> sources_ok (remove_first P xs)"
  using remove_first_subseq(2)[of ns_node xs P] remove_first_subseq(3)[of ns_usage xs P] by (simp add: sources_ok_def)

lemma sources_sort: "distinct (map ns_node xs) \<Longrightarrow> sources_ok (sort_key ns_usage xs)"
proof -
  assume d: "distinct (map ns_node xs)"
  have "mset (map ns_node (sort_key ns_usage xs)) = mset (map ns_node xs)" by simp
  then have "distinct (map ns_node (sort_key ns_usage xs))" using d by (metis mset_eq_imp_distinct_iff)
  then show ?thesis by (simp add: sources_ok_def)
qed

lemma ping_source_ok: "sources_ok xs \<Longrightarrow> sources_ok (ping_source now node u st xs)" "ping_source now node u st xs \<noteq> []"
proof -
  let ?f = "\<lambda>s. s\<lparr>ns_usage := u, ns_last_updated := now\<rparr>"
  assume "sources_ok xs"
  then show "sources_ok (ping_source now node u st xs)" unfolding ping_source_def
    using update_first_map[of ns_node ?f "\<lambda>s. ns_node s = node" xs] by (intro sources_sort) (auto simp: sources_ok_def)
next
  have "update_first P f ys = [] \<longleftrightarrow> ys = []" for P f and ys :: "node_source list" by (cases ys) auto
  then have "length (ping_source now node u st xs) \<noteq> 0" by (auto simp: ping_source_def)
  then show "ping_source now node u st xs \<noteq> []" by auto
qed

text \<open>Every operation keeps the tables in order.\<close>

lemma ss_new_inv: "ss_inv (ss_new zone kind l)"
  by (simp add: ss_inv_def ss_new_def sources_ok_def)

lemma ss_tick_inv: "ss_inv s \<Longrightarrow> ss_inv (ss_on_tick now s)"
  by (auto simp: ss_inv_def ss_on_tick_def sources_filter comp_def intro: distinct_map_filter)

lemma ss_node_ping_inv: "ss_inv s \<Longrightarrow> ss_inv (ss_on_node_ping now node u st s)"
  by (simp add: ss_inv_def ss_on_node_ping_def ping_source_ok)

lemma ss_remove_node_inv: "ss_inv s \<Longrightarrow> ss_inv (ss_remove_node node s)"
  by (simp add: ss_inv_def ss_remove_node_def sources_remove)

lemma ss_gateway_ping_inv: "ss_inv s \<Longrightarrow> ss_inv (ss_on_gateway_ping now zone g gu l u st s)"
proof -
  assume s: "ss_inv s"
  let ?f = "\<lambda>z. z\<lparr>zs_usage := u, zs_last_updated := now, zs_gateways := ping_source now g gu st (zs_gateways z)\<rparr>"
  have "sources_ok (sort_key ns_usage (ss_local_sources s))" using s by (intro sources_sort) (simp add: ss_inv_def sources_ok_def)
  moreover have "map zs_zone (update_first (\<lambda>z. zs_zone z = zone) ?f zs) = map zs_zone zs" for zs :: "'a zone_source list"
    by (rule update_first_map) simp
  moreover have "sources_ok (zs_gateways z) \<and> zs_gateways z \<noteq> []" if "z \<in> set (update_first (\<lambda>z. zs_zone z = zone) ?f (ss_zone_sources s))" for z
    using that update_first_set[of "\<lambda>z. zs_zone z = zone" ?f "ss_zone_sources s"] s by (auto simp: ss_inv_def ping_source_ok)
  ultimately show ?thesis using s by (auto simp: ss_inv_def ss_on_gateway_ping_def sources_ok_def)
qed

lemma ss_remove_gateway_inv: "ss_inv s \<Longrightarrow> ss_inv (ss_remove_gateway zone g s)"
proof -
  assume s: "ss_inv s"
  let ?P = "\<lambda>z :: 'a zone_source. zs_zone z = zone" and ?f = "\<lambda>z. z\<lparr>zs_gateways := remove_first (\<lambda>x. ns_node x = g) (zs_gateways z)\<rparr>"
  let ?zs = "update_first ?P ?f (ss_zone_sources s)"
  have d: "distinct (map zs_zone ?zs)" using s update_first_map[of zs_zone ?f ?P] by (simp add: ss_inv_def)
  have ok: "sources_ok (zs_gateways z) \<and> (zs_gateways z \<noteq> [] \<or> ?P z)" if "z \<in> set ?zs" for z
    using that update_first_set[of ?P ?f "ss_zone_sources s"] s by (auto simp: ss_inv_def sources_remove)
  have gone: "\<not> ?P z" if "distinct (map zs_zone xs)" "z \<in> set (remove_first ?P xs)" for z and xs :: "'a zone_source list"
    using that by (induction xs) (auto split: if_splits simp: image_iff)
  show ?thesis
  proof (cases "find ?P ?zs")
    case None
    then show ?thesis using s by (simp add: ss_remove_gateway_def Let_def)
  next
    case (Some z)
    then have z: "z \<in> set ?zs" "?P z" by (auto simp: find_Some_iff)
    have only: "y = z" if "y \<in> set ?zs" "?P y" for y using d that z by (metis (mono_tags, lifting) distinct_map inj_on_def)
    have l: "sources_ok (ss_local_sources s)" using s by (simp add: ss_inv_def)
    show ?thesis
    proof (cases "zs_gateways z = []")
      case True
      then have run: "ss_remove_gateway zone g s = s\<lparr>ss_zone_sources := remove_first ?P ?zs\<rparr>" using Some by (simp add: ss_remove_gateway_def Let_def)
      have "sources_ok (zs_gateways y) \<and> zs_gateways y \<noteq> []" if y: "y \<in> set (remove_first ?P ?zs)" for y
      proof -
        have "y \<in> set ?zs" using y remove_first_subseq(1)[of ?P ?zs] by blast
        then show ?thesis using ok gone[OF d y] by blast
      qed
      then show ?thesis using l remove_first_subseq(2)[OF d, of ?P] unfolding run by (simp add: ss_inv_def)
    next
      case False
      then have run: "ss_remove_gateway zone g s = s\<lparr>ss_zone_sources := ?zs\<rparr>" using Some by (simp add: ss_remove_gateway_def Let_def)
      have "sources_ok (zs_gateways y) \<and> zs_gateways y \<noteq> []" if "y \<in> set ?zs" for y using ok[OF that] only[OF that] False by blast
      then show ?thesis using l d unfolding run by (simp add: ss_inv_def)
    qed
  qed
qed

lemmas ss_inv_intros = ss_new_inv ss_tick_inv ss_node_ping_inv ss_remove_node_inv ss_gateway_ping_inv ss_remove_gateway_inv

section \<open>The choice\<close>

lemma first_node_least: "sources_ok xs \<Longrightarrow> first_node xs = Some n \<Longrightarrow> \<exists>x\<in>set xs. ns_node x = n \<and> (\<forall>y\<in>set xs. ns_usage x \<le> ns_usage y)"
  by (cases xs) (auto simp: first_node_def sources_ok_def)

text \<open>The loop over the zones: the outcome is what it started with, when no zone is nearer, or a zone nearer than everything.\<close>

lemma best_zone_cases:
  assumes "\<And>z. z \<in> set zs \<Longrightarrow> zs_gateways z \<noteq> []"
  shows "(best_zone distance l (d, m) zs = (d, m) \<and> (m \<noteq> None \<or> zs = []) \<and> (\<forall>z\<in>set zs. d \<le> distance l (zs_location z))) \<or>
    (\<exists>z\<in>set zs. best_zone distance l (d, m) zs = (distance l (zs_location z), first_node (zs_gateways z)) \<and>
       (\<forall>y\<in>set zs. distance l (zs_location z) \<le> distance l (zs_location y)) \<and> (m = None \<or> distance l (zs_location z) < d))"
  using assms
proof (induction zs arbitrary: d m)
  case (Cons z zs)
  let ?d = "distance l (zs_location z)" and ?m = "first_node (zs_gateways z)"
  have m: "?m \<noteq> None" using Cons.prems[of z] by (cases "zs_gateways z") (simp_all add: first_node_def)
  show ?case
  proof (cases "m = None \<or> d > ?d")
    case True
    then have run: "best_zone distance l (d, m) (z # zs) = best_zone distance l (?d, ?m) zs" by (simp add: Let_def)
    have "\<And>y. y \<in> set zs \<Longrightarrow> zs_gateways y \<noteq> []" using Cons.prems by simp
    from Cons.IH[OF this, of ?d ?m] consider (1) "best_zone distance l (?d, ?m) zs = (?d, ?m)" "\<forall>y\<in>set zs. ?d \<le> distance l (zs_location y)"
      | (2) w where "w \<in> set zs" "best_zone distance l (?d, ?m) zs = (distance l (zs_location w), first_node (zs_gateways w))"
          "\<forall>y\<in>set zs. distance l (zs_location w) \<le> distance l (zs_location y)" "distance l (zs_location w) < ?d"
      using m by blast
    then show ?thesis
    proof cases
      case 1
      then show ?thesis unfolding run using True by (intro disjI2 bexI[of _ z]) auto
    next
      case (2 w)
      have "m = None \<or> distance l (zs_location w) < d" using True 2(4) by auto
      then show ?thesis unfolding run using 2 by (intro disjI2 bexI[of _ w]) auto
    qed
  next
    case False
    then have run: "best_zone distance l (d, m) (z # zs) = best_zone distance l (d, m) zs" by (auto simp: Let_def)
    have "\<And>y. y \<in> set zs \<Longrightarrow> zs_gateways y \<noteq> []" using Cons.prems by simp
    from Cons.IH[OF this, of d m] consider (1) "best_zone distance l (d, m) zs = (d, m)" "\<forall>y\<in>set zs. d \<le> distance l (zs_location y)"
      | (2) w where "w \<in> set zs" "best_zone distance l (d, m) zs = (distance l (zs_location w), first_node (zs_gateways w))"
          "\<forall>y\<in>set zs. distance l (zs_location w) \<le> distance l (zs_location y)" "distance l (zs_location w) < d"
      using False by blast
    then show ?thesis
    proof cases
      case 1
      then show ?thesis unfolding run using False by (intro disjI1) auto
    next
      case (2 w)
      then have "distance l (zs_location w) \<le> ?d" using False by auto
      then show ?thesis unfolding run using 2 by (intro disjI2 bexI[of _ w]) auto
    qed
  qed
qed simp

text \<open>A node that may be chosen for a place: a least loaded local one when no other zone is nearer, or a least loaded gateway of
  a nearest zone, when that is nearer than the own zone or there is no local node.\<close>

definition good_choice :: "('l \<Rightarrow> 'l \<Rightarrow> 'd :: linorder) \<Rightarrow> 'l \<Rightarrow> 'l service_store \<Rightarrow> nat \<Rightarrow> bool" where
  "good_choice distance l s n \<longleftrightarrow>
     (\<exists>x\<in>set (ss_local_sources s). ns_node x = n \<and> (\<forall>y\<in>set (ss_local_sources s). ns_usage x \<le> ns_usage y) \<and>
        (\<forall>z\<in>set (ss_zone_sources s). distance (ss_location s) l \<le> distance l (zs_location z))) \<or>
     (\<exists>z\<in>set (ss_zone_sources s). \<exists>g\<in>set (zs_gateways z). ns_node g = n \<and> (\<forall>h\<in>set (zs_gateways z). ns_usage g \<le> ns_usage h) \<and>
        (\<forall>y\<in>set (ss_zone_sources s). distance l (zs_location z) \<le> distance l (zs_location y)) \<and>
        (ss_local_sources s = [] \<or> distance l (zs_location z) < distance (ss_location s) l))"

lemma best_for_cases:
  assumes "ss_inv s"
  shows "case ss_best_for distance l s of
      None \<Rightarrow> ss_local_sources s = [] \<and> ss_zone_sources s = []
    | Some n \<Rightarrow> good_choice distance (case l of None \<Rightarrow> ss_location s | Some p \<Rightarrow> p) s n"
proof -
  let ?l = "case l of None \<Rightarrow> ss_location s | Some p \<Rightarrow> p"
  let ?d = "distance (ss_location s) ?l" and ?m = "first_node (ss_local_sources s)"
  have s: "sources_ok (ss_local_sources s)" "\<And>z. z \<in> set (ss_zone_sources s) \<Longrightarrow> sources_ok (zs_gateways z) \<and> zs_gateways z \<noteq> []"
    using assms by (simp_all add: ss_inv_def)
  have none: "first_node xs = None \<longleftrightarrow> xs = []" for xs by (simp add: first_node_def split: list.split)
  consider (own) "ss_best_for distance l s = ?m" "?m \<noteq> None \<or> ss_zone_sources s = []" "\<forall>z\<in>set (ss_zone_sources s). ?d \<le> distance ?l (zs_location z)"
    | (zone) z where "z \<in> set (ss_zone_sources s)" "ss_best_for distance l s = first_node (zs_gateways z)"
        "\<forall>y\<in>set (ss_zone_sources s). distance ?l (zs_location z) \<le> distance ?l (zs_location y)" "?m = None \<or> distance ?l (zs_location z) < ?d"
    using best_zone_cases[of "ss_zone_sources s" distance ?l ?d ?m] s(2) by (auto simp: ss_best_for_def Let_def)
  then show ?thesis
  proof cases
    case own
    show ?thesis
    proof (cases ?m)
      case None
      then show ?thesis using own(1,2) none[of "ss_local_sources s"] by simp
    next
      case (Some n)
      from first_node_least[OF s(1) Some] obtain x where "x \<in> set (ss_local_sources s)" "ns_node x = n" "\<forall>y\<in>set (ss_local_sources s). ns_usage x \<le> ns_usage y"
        by blast
      then have "good_choice distance ?l s n" using own(3) unfolding good_choice_def by blast
      then show ?thesis using own(1) Some by simp
    qed
  next
    case (zone z)
    then obtain n where n: "first_node (zs_gateways z) = Some n" using s(2) none by blast
    have "sources_ok (zs_gateways z)" using s(2) zone(1) by blast
    from first_node_least[OF this n] obtain g where "g \<in> set (zs_gateways z)" "ns_node g = n" "\<forall>h\<in>set (zs_gateways z). ns_usage g \<le> ns_usage h"
      by blast
    moreover have "ss_local_sources s = [] \<or> distance ?l (zs_location z) < ?d" using zone(4) none by blast
    ultimately have "good_choice distance ?l s n" using zone(1,3) unfolding good_choice_def by blast
    then show ?thesis using zone(2) n by simp
  qed
qed

section \<open>Runs of the store service\<close>

datatype ('u, 'l) gss_call = GssTick nat | GssRecv nat "nat option" "'l wire_ping option" | GssControl 'u "'l store_control" | GssShutdown | GssPop

fun gss_step :: "('l \<Rightarrow> 'l \<Rightarrow> 'd :: linorder) \<Rightarrow> ('u, 'l) gss_call \<Rightarrow> ('u, 'l) gateway_store_service \<Rightarrow> ('u, 'l) gateway_store_service res" where
  "gss_step distance (GssTick now) s = gss_on_tick now s"
| "gss_step distance (GssRecv now source data) s = gss_handle_event now source data s"
| "gss_step distance (GssControl actor c) s = gss_on_control distance actor c s"
| "gss_step distance GssShutdown s = Inr (gss_on_shutdown s)"
| "gss_step distance GssPop s = Inr (snd (gss_pop_output s))"

fun gss_run :: "('l \<Rightarrow> 'l \<Rightarrow> 'd :: linorder) \<Rightarrow> ('u, 'l) gss_call list \<Rightarrow> ('u, 'l) gateway_store_service \<Rightarrow> ('u, 'l) gateway_store_service res" where
  "gss_run distance [] s = Inr s"
| "gss_run distance (c # cs) s = res_bind (gss_step distance c s) (gss_run distance cs)"

definition gs_inv :: "'l gateway_store \<Rightarrow> bool" where
  "gs_inv g \<longleftrightarrow> ss_inv (gs_webrtc g) \<and> ss_inv (gs_rtpengine g)"

lemma gs_ping_inv: "gs_inv g \<Longrightarrow> gs_on_ping now src ping g = Inr g1 \<Longrightarrow> gs_inv g1"
proof -
  assume g: "gs_inv g" and run: "gs_on_ping now src ping g = Inr g1"
  have media: "ss_inv (media_ping now src a b c s)" if "ss_inv s" for a b c and s :: "'a service_store"
    using that by (auto simp: media_ping_def ss_inv_intros split: option.split)
  show ?thesis
  proof (cases "ping_origin ping")
    case MediaOrigin
    then show ?thesis using g run media by (auto simp: gs_on_ping_def Let_def gs_inv_def res_bind_Inr)
  next
    case (GatewayOrigin zone location)
    then show ?thesis using g run
      by (auto simp: gs_on_ping_def Let_def gs_inv_def res_bind_Inr ss_inv_intros split: if_splits option.splits)
  qed
qed

lemma gs_tick_inv: "gs_inv g \<Longrightarrow> gs_on_tick now g = Inr g1 \<Longrightarrow> gs_inv g1 \<and> gs_webrtc g1 = ss_on_tick now (gs_webrtc g) \<and> gs_rtpengine g1 = ss_on_tick now (gs_rtpengine g)"
  by (auto simp: gs_on_tick_def Let_def gs_inv_def res_bind_Inr ss_inv_intros)

lemma gss_step_inv: "gs_inv (gss_store s) \<Longrightarrow> gss_step distance c s = Inr s1 \<Longrightarrow> gs_inv (gss_store s1)"
proof (cases c)
  case (GssTick now)
  assume a: "gs_inv (gss_store s)" "gss_step distance c s = Inr s1"
  then obtain g where g: "gs_on_tick now (gss_store s) = Inr g" using GssTick by (auto simp: gss_on_tick_def res_bind_Inr)
  have "gss_store s1 = g\<lparr>gs_output := None\<rparr>"
    using a(2) GssTick by (auto simp: gss_on_tick_def g gs_pop_output_def res_bind_Inr split: option.splits)
  then show ?thesis using gs_tick_inv[OF a(1) g] unfolding gs_inv_def by simp metis
next
  case (GssRecv now source data)
  assume "gs_inv (gss_store s)" "gss_step distance c s = Inr s1"
  then show ?thesis using GssRecv gs_ping_inv by (auto simp: gss_handle_event_def res_bind_Inr split: option.splits)
next
  case (GssControl actor x)
  assume "gs_inv (gss_store s)" "gss_step distance c s = Inr s1"
  then show ?thesis using GssControl
    by (cases x) (auto simp: res_bind_Inr gs_on_node_metrics_def gs_inv_def split: option.splits)
qed (auto simp: gss_on_shutdown_def gss_pop_output_def split: list.splits)

lemma gss_run_inv: "gs_inv (gss_store s) \<Longrightarrow> gss_run distance cs s = Inr s1 \<Longrightarrow> gs_inv (gss_store s1)"
proof (induction cs arbitrary: s)
  case (Cons c cs)
  then obtain s2 where "gss_step distance c s = Inr s2" "gss_run distance cs s2 = Inr s1" by (auto simp: res_bind_Inr)
  then show ?case using Cons.IH gss_step_inv[OF Cons.prems(1)] by blast
qed simp

lemma gs_service_inv: "gs_inv g \<Longrightarrow> ss_inv (gs_service kind g)"
  by (simp add: gs_inv_def gs_service_def split: service_kind.split)

text \<open>After a tick, what is known was reported within the last five seconds.\<close>

lemma tick_keeps_fresh_only:
  "x \<in> set (ss_local_sources (ss_on_tick now s)) \<Longrightarrow> source_fresh now x"
  "z \<in> set (ss_zone_sources (ss_on_tick now s)) \<Longrightarrow> x \<in> set (zs_gateways z) \<Longrightarrow> source_fresh now x"
  by (auto simp: ss_on_tick_def)

section \<open>Properties\<close>


definition demo_report :: "nat ping_origin \<Rightarrow> nat \<Rightarrow> nat wire_ping" where
  "demo_report origin live = \<lparr>wp_cpu = 10, wp_memory = 20, wp_disk = 30, wp_origin = Some origin,
     wp_webrtc = Some \<lparr>st_live = live, st_max = 1000, st_active = True\<rparr>, wp_rtpengine = None\<rparr>"

definition demo_distance :: "nat \<Rightarrow> nat \<Rightarrow> nat" where
  "demo_distance a b = (if a \<le> b then b - a else a - b)"

definition demo_reports :: "(nat, nat) gss_call list" where
  "demo_reports = [GssRecv 0 (Some 1) (Some (demo_report MediaOrigin 600)), GssRecv 0 (Some 2) (Some (demo_report MediaOrigin 500)),
     GssRecv 0 (Some 257) (Some (demo_report (GatewayOrigin 1 (Some 9)) 600)), GssTick 100, GssPop]"

definition demo_store :: "(nat, nat) gateway_store_service res" where
  "demo_store = gss_run demo_distance demo_reports (gss_new 0 1 60 80 90)"


section \<open>Observations\<close>

text \<open>A service that reports a capacity of zero stops the gateway.\<close>

lemma zero_capacity_panics:
  "gs_on_ping now src \<lparr>ping_cpu = 0, ping_memory = 0, ping_disk = 0, ping_origin = MediaOrigin,
     ping_webrtc = Some \<lparr>st_live = 0, st_max = 0, st_active = True\<rparr>, ping_rtpengine = None\<rparr> (gs_new 0 l 60 80 90) = Inl DivByZero"
  by (simp add: gs_on_ping_def webrtc_usage_def service_usage_def gs_new_def Let_def mul_u32_def div_u32_def)

text \<open>The counts of a node are those of its first report.\<close>

lemma node_stats_are_stale:
  "ss_local_stats (ss_on_node_ping 2 n u2 \<lparr>st_live = 900, st_max = 1000, st_active = True\<rparr>
     (ss_on_node_ping 1 n u1 \<lparr>st_live = 10, st_max = 1000, st_active = True\<rparr> (ss_new zone kind l)))
   = Inr (Some \<lparr>st_live = 10, st_max = 1000, st_active = True\<rparr>)"
  by (simp add: ss_on_node_ping_def ping_source_def ss_new_def ss_local_stats_def add_u32_def)

text \<open>A gateway of another zone that only offers the RTP engine is never entered.\<close>

lemma remote_rtpengine_is_ignored:
  "ping_origin ping = GatewayOrigin zone l \<Longrightarrow> gs_on_ping now src ping g = Inr g1 \<Longrightarrow> zone \<noteq> gs_zone g \<Longrightarrow>
     length (ss_zone_sources (gs_rtpengine g1)) \<le> length (ss_zone_sources (gs_rtpengine g))"
proof -
  assume a: "ping_origin ping = GatewayOrigin zone l" "gs_on_ping now src ping g = Inr g1" "zone \<noteq> gs_zone g"
  have len: "length (remove_first P xs) \<le> length xs" "length (update_first P f xs) = length xs" for P f and xs :: "'a zone_source list"
    by (induction xs) auto
  have "length (ss_zone_sources (ss_remove_gateway zone src s)) \<le> length (ss_zone_sources s)" for s :: "'a service_store"
    by (auto simp: ss_remove_gateway_def Let_def len(2) intro: order_trans[OF len(1)] split: option.split)
  moreover have "gs_rtpengine g1 = gs_rtpengine g \<or> gs_rtpengine g1 = ss_remove_gateway zone src (gs_rtpengine g)"
  proof -
    obtain w r where "webrtc_usage ping (gs_max_cpu g) (gs_max_memory g) (gs_max_disk g) = Inr w"
        "rtpengine_usage ping (gs_max_cpu g) (gs_max_memory g) (gs_max_disk g) = Inr r"
      using a(2) by (auto simp: gs_on_ping_def Let_def res_bind_Inr)
    then have "g1 = (case (node_usage ping (gs_max_cpu g) (gs_max_memory g) (gs_max_disk g), w, l, ping_webrtc ping) of
                 (Some n, Some u, Some l, Some st) \<Rightarrow> g\<lparr>gs_webrtc := ss_on_gateway_ping now zone src n l u st (gs_webrtc g)\<rparr>
               | _ \<Rightarrow> g\<lparr>gs_webrtc := ss_remove_gateway zone src (gs_webrtc g), gs_rtpengine := ss_remove_gateway zone src (gs_rtpengine g)\<rparr>)"
      using a by (simp add: gs_on_ping_def Let_def)
    then show ?thesis by (simp split: option.splits)
  qed
  ultimately show ?thesis by auto
qed

text \<open>The number of a broadcast is not wrapped.\<close>

lemma broadcast_number_overflows: "ga_on_tick (a\<lparr>ga_seq := 65535\<rparr>) = Inl Overflow"
  by (simp add: ga_on_tick_def add_u16_1_def)

end
