(* ===== verification/Console_Storage.thy ===== *)
theory Console_Storage
  imports Gateway_Store
begin

text \<open>
  The network overview of the console, \<open>bin/src/server/console/storage.rs\<close>: every node of the cluster reports what it is, the console keeps the
  reports by zone and kind, drops those that are not renewed for thirty seconds, and lists zones and nodes. Hash tables are ordered maps, whose order no
  statement depends on; the coordinates of a zone are of any type with a value for zero; the events sent to the open consoles are a
  log. Shown: the tables refine one flat table of the latest reports, and the listing of the network is that table.
\<close>

section \<open>Reports\<close>

definition NODE_TIMEOUT :: nat where "NODE_TIMEOUT = 30000"

record connection =
  cn_id :: nat
  cn_node :: nat
  cn_addr :: string
  cn_rtt_ms :: nat

record generic_info =
  gi_addr :: string
  gi_cpu :: nat
  gi_memory :: nat
  gi_disk :: nat

record 'f cluster_gateway_info =
  cg_live :: nat
  cg_max :: nat
  cg_lat :: 'f
  cg_lon :: 'f

record cluster_media_info =
  cm_live :: nat
  cm_max :: nat

datatype 'f cluster_node_info = InfoConsole generic_info | InfoGateway generic_info "'f cluster_gateway_info" | InfoMedia generic_info cluster_media_info
  | InfoConnector generic_info

definition generic_of :: "'f cluster_node_info \<Rightarrow> generic_info" where
  "generic_of info = (case info of InfoConsole g \<Rightarrow> g | InfoGateway g _ \<Rightarrow> g | InfoMedia g _ \<Rightarrow> g | InfoConnector g \<Rightarrow> g)"

section \<open>Tables\<close>

text \<open>The four containers of the code differ in the extra information they hold, which is none for consoles and connectors.\<close>

record 'i node_container =
  nc_last_updated :: nat
  nc_generic :: generic_info
  nc_info :: 'i
  nc_conns :: "connection list"

record 'f zone_container =
  zc_lat :: 'f
  zc_lon :: 'f
  zc_consoles :: "(nat, unit node_container) imap"
  zc_gateways :: "(nat, 'f cluster_gateway_info node_container) imap"
  zc_medias :: "(nat, cluster_media_info node_container) imap"
  zc_connectors :: "(nat, unit node_container) imap"

record network_node_data =
  nn_id :: nat
  nn_zone_id :: nat
  nn_info :: generic_info
  nn_conns :: "connection list"

datatype network_node_event = Snapshot "network_node_data list" | OnChanged network_node_data | OnRemoved "nat list"

record 'f console_storage =
  cs_zones :: "(nat, 'f zone_container) imap"
  cs_sent :: "network_node_event list"

definition cs_new :: "'f console_storage" where
  "cs_new = \<lparr>cs_zones = [], cs_sent = []\<rparr>"

definition zone_default :: "'f \<Rightarrow> 'f zone_container" where
  "zone_default zero = \<lparr>zc_lat = zero, zc_lon = zero, zc_consoles = [], zc_gateways = [], zc_medias = [], zc_connectors = []\<rparr>"

definition retain_fresh :: "nat \<Rightarrow> (nat, 'i node_container) imap \<Rightarrow> (nat, 'i node_container) imap" where
  "retain_fresh now m = filter (\<lambda>(_, g). nc_last_updated g + NODE_TIMEOUT > now) m"

definition zone_retain :: "nat \<Rightarrow> 'f zone_container \<Rightarrow> 'f zone_container" where
  "zone_retain now z =
     z\<lparr>zc_consoles := retain_fresh now (zc_consoles z), zc_gateways := retain_fresh now (zc_gateways z),
       zc_medias := retain_fresh now (zc_medias z), zc_connectors := retain_fresh now (zc_connectors z)\<rparr>"

definition zone_size :: "'f zone_container \<Rightarrow> nat" where
  "zone_size z = length (zc_consoles z) + length (zc_gateways z) + length (zc_medias z) + length (zc_connectors z)"

definition cs_on_tick :: "nat \<Rightarrow> 'f console_storage \<Rightarrow> 'f console_storage" where
  "cs_on_tick now s = s\<lparr>cs_zones := filter (\<lambda>(_, z). zone_size z > 0) (map (\<lambda>(i, z). (i, zone_retain now z)) (cs_zones s))\<rparr>"

definition zone_entry :: "'f \<Rightarrow> nat \<Rightarrow> 'f console_storage \<Rightarrow> 'f zone_container" where
  "zone_entry zero i s = (case im_get (cs_zones s) i of Some z \<Rightarrow> z | None \<Rightarrow> zone_default zero)"

definition zone_put :: "nat \<Rightarrow> nat \<Rightarrow> 'f cluster_node_info \<Rightarrow> connection list \<Rightarrow> 'f zone_container \<Rightarrow> 'f zone_container" where
  "zone_put now node info conns z =
     (case info of
        InfoConsole g \<Rightarrow> z\<lparr>zc_consoles := im_insert (zc_consoles z) node \<lparr>nc_last_updated = now, nc_generic = g, nc_info = (), nc_conns = conns\<rparr>\<rparr>
      | InfoGateway g i \<Rightarrow>
          z\<lparr>zc_lat := cg_lat i, zc_lon := cg_lon i,
            zc_gateways := im_insert (zc_gateways z) node \<lparr>nc_last_updated = now, nc_generic = g, nc_info = i, nc_conns = conns\<rparr>\<rparr>
      | InfoMedia g i \<Rightarrow> z\<lparr>zc_medias := im_insert (zc_medias z) node \<lparr>nc_last_updated = now, nc_generic = g, nc_info = i, nc_conns = conns\<rparr>\<rparr>
      | InfoConnector g \<Rightarrow> z\<lparr>zc_connectors := im_insert (zc_connectors z) node \<lparr>nc_last_updated = now, nc_generic = g, nc_info = (), nc_conns = conns\<rparr>\<rparr>)"

definition cs_on_ping :: "'f \<Rightarrow> nat \<Rightarrow> nat \<Rightarrow> 'f cluster_node_info \<Rightarrow> connection list \<Rightarrow> 'f console_storage \<Rightarrow> 'f console_storage" where
  "cs_on_ping zero now node info conns s =
     (let zone_id = zone_from_node_id node;
          node_data = \<lparr>nn_id = node, nn_zone_id = zone_id, nn_info = generic_of info, nn_conns = conns\<rparr>
      in s\<lparr>cs_zones := im_insert (cs_zones s) zone_id (zone_put now node info conns (zone_entry zero zone_id s)),
           cs_sent := cs_sent s @ [OnChanged node_data]\<rparr>)"

definition zone_drop :: "nat \<Rightarrow> 'f zone_container \<Rightarrow> 'f zone_container" where
  "zone_drop node z =
     z\<lparr>zc_consoles := im_swap_remove (zc_consoles z) node, zc_gateways := im_swap_remove (zc_gateways z) node,
       zc_medias := im_swap_remove (zc_medias z) node, zc_connectors := im_swap_remove (zc_connectors z) node\<rparr>"

definition cs_on_node_removed :: "'f \<Rightarrow> nat \<Rightarrow> 'f console_storage \<Rightarrow> 'f console_storage" where
  "cs_on_node_removed zero node s =
     (let zone_id = zone_from_node_id node
      in s\<lparr>cs_zones := im_insert (cs_zones s) zone_id (zone_drop node (zone_entry zero zone_id s)), cs_sent := cs_sent s @ [OnRemoved [node]]\<rparr>)"

section \<open>Listings\<close>

record console_node =
  vn_addr :: string
  vn_node_id :: nat
  vn_cpu :: nat
  vn_memory :: nat
  vn_disk :: nat
  vn_conns :: "connection list"

record live_node = console_node +
  vn_live :: nat
  vn_max :: nat

record 'f zone_summary =
  zs_lat :: 'f
  zs_lon :: 'f
  zs_id :: nat
  zs_consoles :: nat
  zs_gateways :: nat
  zs_medias :: nat
  zs_connectors :: nat

record 'f zone_details =
  zd_lat :: 'f
  zd_lon :: 'f
  zd_consoles :: "console_node list"
  zd_gateways :: "live_node list"
  zd_medias :: "live_node list"
  zd_connectors :: "console_node list"

definition console_node_of :: "nat \<times> 'i node_container \<Rightarrow> console_node" where
  "console_node_of e = (case e of (i, g) \<Rightarrow>
     \<lparr>vn_addr = gi_addr (nc_generic g), vn_node_id = i, vn_cpu = gi_cpu (nc_generic g), vn_memory = gi_memory (nc_generic g),
      vn_disk = gi_disk (nc_generic g), vn_conns = nc_conns g\<rparr>)"

definition live_node_of :: "('i \<Rightarrow> nat) \<Rightarrow> ('i \<Rightarrow> nat) \<Rightarrow> nat \<times> 'i node_container \<Rightarrow> live_node" where
  "live_node_of live mx e = (case e of (i, g) \<Rightarrow>
     \<lparr>vn_addr = gi_addr (nc_generic g), vn_node_id = i, vn_cpu = gi_cpu (nc_generic g), vn_memory = gi_memory (nc_generic g),
      vn_disk = gi_disk (nc_generic g), vn_conns = nc_conns g, vn_live = live (nc_info g), vn_max = mx (nc_info g)\<rparr>)"

definition cs_consoles :: "'f console_storage \<Rightarrow> console_node list" where
  "cs_consoles s = concat (map (\<lambda>(_, z). map console_node_of (zc_consoles z)) (cs_zones s))"

definition cs_zone_list :: "'f console_storage \<Rightarrow> 'f zone_summary list" where
  "cs_zone_list s =
     map (\<lambda>(i, z). \<lparr>zs_lat = zc_lat z, zs_lon = zc_lon z, zs_id = i, zs_consoles = length (zc_consoles z), zs_gateways = length (zc_gateways z),
            zs_medias = length (zc_medias z), zs_connectors = length (zc_connectors z)\<rparr>) (cs_zones s)"

definition cs_zone :: "nat \<Rightarrow> 'f console_storage \<Rightarrow> 'f zone_details option" where
  "cs_zone zone_id s =
     map_option (\<lambda>z. \<lparr>zd_lat = zc_lat z, zd_lon = zc_lon z, zd_consoles = map console_node_of (zc_consoles z),
        zd_gateways = map (live_node_of cg_live cg_max) (zc_gateways z), zd_medias = map (live_node_of cm_live cm_max) (zc_medias z),
        zd_connectors = map console_node_of (zc_connectors z)\<rparr>) (im_get (cs_zones s) zone_id)"

definition node_data_of :: "nat \<Rightarrow> nat \<times> 'i node_container \<Rightarrow> network_node_data" where
  "node_data_of zone_id e = (case e of (i, g) \<Rightarrow> \<lparr>nn_id = i, nn_zone_id = zone_id, nn_info = nc_generic g, nn_conns = nc_conns g\<rparr>)"

definition network_node :: "'f console_storage \<Rightarrow> network_node_data list" where
  "network_node s =
     concat (map (\<lambda>(i, z). map (node_data_of i) (zc_consoles z) @ map (node_data_of i) (zc_gateways z) @
                           map (node_data_of i) (zc_medias z) @ map (node_data_of i) (zc_connectors z)) (cs_zones s))"

section \<open>The flat table\<close>

datatype node_kind = KConsole | KGateway | KMedia | KConnector

fun kind_of :: "'f cluster_node_info \<Rightarrow> node_kind" where
  "kind_of (InfoConsole _) = KConsole"
| "kind_of (InfoGateway _ _) = KGateway"
| "kind_of (InfoMedia _ _) = KMedia"
| "kind_of (InfoConnector _) = KConnector"

type_synonym 'f report = "nat \<times> 'f cluster_node_info \<times> connection list"

definition report_of :: "(generic_info \<Rightarrow> 'i \<Rightarrow> 'f cluster_node_info) \<Rightarrow> 'i node_container \<Rightarrow> 'f report" where
  "report_of mk c = (nc_last_updated c, mk (nc_generic c) (nc_info c), nc_conns c)"

definition zone_view :: "'f zone_container \<Rightarrow> node_kind \<Rightarrow> nat \<Rightarrow> 'f report option" where
  "zone_view z k node =
     (case k of
        KConsole \<Rightarrow> map_option (report_of (\<lambda>g _. InfoConsole g)) (im_get (zc_consoles z) node)
      | KGateway \<Rightarrow> map_option (report_of InfoGateway) (im_get (zc_gateways z) node)
      | KMedia \<Rightarrow> map_option (report_of InfoMedia) (im_get (zc_medias z) node)
      | KConnector \<Rightarrow> map_option (report_of (\<lambda>g _. InfoConnector g)) (im_get (zc_connectors z) node))"

definition cs_view :: "'f console_storage \<Rightarrow> node_kind \<times> nat \<Rightarrow> 'f report option" where
  "cs_view s kn = (case kn of (k, node) \<Rightarrow> Option.bind (im_get (cs_zones s) (zone_from_node_id node)) (\<lambda>z. zone_view z k node))"

datatype 'f console_op = OpPing nat nat "'f cluster_node_info" "connection list" | OpTick nat | OpRemoved nat

fun cs_step :: "'f \<Rightarrow> 'f console_op \<Rightarrow> 'f console_storage \<Rightarrow> 'f console_storage" where
  "cs_step zero (OpPing now node info conns) s = cs_on_ping zero now node info conns s"
| "cs_step zero (OpTick now) s = cs_on_tick now s"
| "cs_step zero (OpRemoved node) s = cs_on_node_removed zero node s"

fun flat_step :: "'f console_op \<Rightarrow> (node_kind \<times> nat \<Rightarrow> 'f report option) \<Rightarrow> node_kind \<times> nat \<Rightarrow> 'f report option" where
  "flat_step (OpPing now node info conns) v = v((kind_of info, node) \<mapsto> (now, info, conns))"
| "flat_step (OpTick now) v = (\<lambda>kn. case v kn of Some (t, i, c) \<Rightarrow> if t + NODE_TIMEOUT > now then Some (t, i, c) else None | None \<Rightarrow> None)"
| "flat_step (OpRemoved node) v = (\<lambda>(k, n). if n = node then None else v (k, n))"

text \<open>Tables have distinct keys, and a node is in the zone of its number.\<close>

definition zone_ok :: "nat \<Rightarrow> 'f zone_container \<Rightarrow> bool" where
  "zone_ok i z \<longleftrightarrow> im_wf (zc_consoles z) \<and> im_wf (zc_gateways z) \<and> im_wf (zc_medias z) \<and> im_wf (zc_connectors z) \<and>
     (\<forall>k node r. zone_view z k node = Some r \<longrightarrow> zone_from_node_id node = i)"

definition cs_ok :: "'f console_storage \<Rightarrow> bool" where
  "cs_ok s \<longleftrightarrow> im_wf (cs_zones s) \<and> (\<forall>i z. im_get (cs_zones s) i = Some z \<longrightarrow> zone_ok i z)"

lemma im_get_filter: "im_wf m \<Longrightarrow> im_get (filter (\<lambda>(_, v). P v) m) k = Option.bind (im_get m k) (\<lambda>v. if P v then Some v else None)"
proof (induction m)
  case (Cons e m)
  obtain j v where e: "e = (j, v)" by (cases e)
  have "im_get m j = None" using Cons.prems e by (simp add: im_wf_def map_of_eq_None_iff)
  then show ?case using Cons e by (auto simp: im_wf_def)
qed simp

lemma im_wf_filter: "im_wf m \<Longrightarrow> im_wf (filter P m)"
  by (induction m) (auto simp: im_wf_def)

lemma im_get_map: "im_get (map (\<lambda>(i, z). (i, f z)) m) k = map_option f (im_get m k)"
  by (induction m) auto

lemma im_wf_map: "im_wf (map (\<lambda>(i, z). (i, f z)) m) = im_wf m"
  by (simp add: im_wf_def comp_def case_prod_beta)

lemma retain_get: "im_wf m \<Longrightarrow> im_get (retain_fresh now m) k = Option.bind (im_get m k) (\<lambda>g. if nc_last_updated g + NODE_TIMEOUT > now then Some g else None)"
  unfolding retain_fresh_def by (rule im_get_filter)

lemma retain_wf: "im_wf m \<Longrightarrow> im_wf (retain_fresh now m)"
  by (simp add: retain_fresh_def im_wf_filter)

section \<open>One zone\<close>

lemma zone_put_view: "zone_view (zone_put now node info conns z) k n =
    (if k = kind_of info \<and> n = node then Some (now, info, conns) else zone_view z k n)"
  by (cases info; cases k) (simp_all add: zone_view_def zone_put_def report_of_def)

lemma zone_drop_view: "zone_ok i z \<Longrightarrow> zone_view (zone_drop node z) k n = (if n = node then None else zone_view z k n)"
  by (cases k) (simp_all add: zone_view_def zone_drop_def zone_ok_def)

lemma zone_retain_view: "zone_ok i z \<Longrightarrow> zone_view (zone_retain now z) k n =
    Option.bind (zone_view z k n) (\<lambda>r. if fst r + NODE_TIMEOUT > now then Some r else None)"
  by (cases k) (auto simp: zone_view_def zone_retain_def zone_ok_def retain_get report_of_def map_option_bind split: bind_splits)

lemma zone_empty_view: "zone_size z = 0 \<Longrightarrow> zone_view z k n = None"
  by (cases k) (simp_all add: zone_size_def zone_view_def)

lemma zone_default_ok: "zone_ok i (zone_default zero)"
  by (auto simp: zone_ok_def zone_default_def zone_view_def split: node_kind.split)

lemma zone_default_view: "zone_view (zone_default zero) k n = None"
  by (cases k) (simp_all add: zone_default_def zone_view_def)

lemma zone_put_ok: "zone_ok (zone_from_node_id node) z \<Longrightarrow> zone_ok (zone_from_node_id node) (zone_put now node info conns z)"
  by (auto simp: zone_ok_def zone_put_view) (cases info; simp add: zone_put_def)+

lemma zone_drop_ok: "zone_ok i z \<Longrightarrow> zone_ok i (zone_drop node z)"
  using zone_drop_view[of i z node] by (auto simp: zone_ok_def) (simp_all add: zone_drop_def)

lemma zone_retain_ok: "zone_ok i z \<Longrightarrow> zone_ok i (zone_retain now z)"
proof -
  assume z: "zone_ok i z"
  have "zone_from_node_id n = i" if "zone_view (zone_retain now z) k n = Some r" for k n r
    using z that unfolding zone_retain_view[OF z] zone_ok_def bind_eq_Some_conv by blast
  moreover have "im_wf (zc_consoles (zone_retain now z))" "im_wf (zc_gateways (zone_retain now z))" "im_wf (zc_medias (zone_retain now z))"
    "im_wf (zc_connectors (zone_retain now z))" using z by (simp_all add: zone_retain_def zone_ok_def retain_wf)
  ultimately show ?thesis unfolding zone_ok_def by blast
qed

section \<open>All zones\<close>

lemma zone_entry_ok: "cs_ok s \<Longrightarrow> zone_ok i (zone_entry zero i s)"
  by (auto simp: cs_ok_def zone_entry_def zone_default_ok split: option.split)

lemma zone_entry_view: "zone_from_node_id n = i \<Longrightarrow> zone_view (zone_entry zero i s) k n = cs_view s (k, n)"
  by (auto simp: zone_entry_def cs_view_def zone_default_view split: option.split)

lemma zone_change_view: "cs_view (s\<lparr>cs_zones := im_insert (cs_zones s) i z, cs_sent := l\<rparr>) (k, n) =
    (if zone_from_node_id n = i then zone_view z k n else cs_view s (k, n))"
  by (simp add: cs_view_def)

lemma zone_change_ok: "cs_ok s \<Longrightarrow> zone_ok i z \<Longrightarrow> cs_ok (s\<lparr>cs_zones := im_insert (cs_zones s) i z, cs_sent := l\<rparr>)"
  by (auto simp: cs_ok_def)

lemma tick_zones: "cs_ok s \<Longrightarrow> im_get (cs_zones (cs_on_tick now s)) i =
    Option.bind (im_get (cs_zones s) i) (\<lambda>z. if zone_size (zone_retain now z) > 0 then Some (zone_retain now z) else None)"
  by (simp add: cs_on_tick_def cs_ok_def im_get_filter im_wf_map im_get_map bind_map_option comp_def)

lemma cs_step_ok: "cs_ok s \<Longrightarrow> cs_ok (cs_step zero op s)"
proof (cases op)
  case (OpTick now)
  assume ok: "cs_ok s"
  then have "im_wf (cs_zones (cs_on_tick now s))" by (simp add: cs_on_tick_def cs_ok_def im_wf_filter im_wf_map)
  moreover have "zone_ok i z" if get: "im_get (cs_zones (cs_on_tick now s)) i = Some z" for i z
  proof -
    obtain y where y: "im_get (cs_zones s) i = Some y" "z = zone_retain now y"
      using get unfolding tick_zones[OF ok] by (auto simp: bind_eq_Some_conv split: if_splits)
    have "zone_ok i y" using ok y(1) by (simp add: cs_ok_def)
    then show ?thesis unfolding y(2) by (rule zone_retain_ok)
  qed
  ultimately show ?thesis using OpTick by (simp add: cs_ok_def)
qed (simp_all add: cs_on_ping_def cs_on_node_removed_def Let_def zone_change_ok zone_put_ok zone_drop_ok zone_entry_ok)

lemma cs_step_view:
  assumes "cs_ok s"
  shows "cs_view (cs_step zero op s) = flat_step op (cs_view s)"
proof (rule ext)
  fix kn :: "node_kind \<times> nat"
  obtain k n where kn: "kn = (k, n)" by (cases kn)
  show "cs_view (cs_step zero op s) kn = flat_step op (cs_view s) kn"
  proof (cases op)
    case (OpPing now node info conns)
    then show ?thesis using zone_entry_view[of n "zone_from_node_id node" zero s k]
      by (auto simp: kn cs_on_ping_def Let_def zone_change_view zone_put_view)
  next
    case (OpRemoved node)
    then show ?thesis using zone_entry_view[of n "zone_from_node_id node" zero s k] zone_drop_view[OF zone_entry_ok[OF assms, of "zone_from_node_id node" zero], of node k n]
      by (auto simp: kn cs_on_node_removed_def Let_def zone_change_view)
  next
    case (OpTick now)
    show ?thesis
    proof (cases "im_get (cs_zones s) (zone_from_node_id n)")
      case None
      then show ?thesis using OpTick by (simp add: kn cs_view_def tick_zones[OF assms])
    next
      case (Some z)
      have z: "zone_ok (zone_from_node_id n) z" using assms Some by (simp add: cs_ok_def)
      have "zone_view (zone_retain now z) k n = None" if "zone_size (zone_retain now z) = 0" using zone_empty_view[OF that] .
      then show ?thesis using OpTick Some zone_retain_view[OF z, of now k n]
        by (cases "zone_size (zone_retain now z)") (auto simp: kn cs_view_def tick_zones[OF assms] split: option.split)
    qed
  qed
qed

lemma cs_run: "cs_ok s \<Longrightarrow> cs_ok (fold (cs_step zero) ops s) \<and> cs_view (fold (cs_step zero) ops s) = fold flat_step ops (cs_view s)"
  by (induction ops arbitrary: s) (simp_all add: cs_step_ok cs_step_view)

lemma cs_new_ok: "cs_ok cs_new" "cs_view cs_new = (\<lambda>_. None)"
  by (simp_all add: cs_ok_def cs_new_def cs_view_def fun_eq_iff)

section \<open>Listings\<close>

definition shown :: "nat \<Rightarrow> 'f report \<Rightarrow> network_node_data" where
  "shown n r = (case r of (_, info, conns) \<Rightarrow> \<lparr>nn_id = n, nn_zone_id = zone_from_node_id n, nn_info = generic_of info, nn_conns = conns\<rparr>)"

lemma table_shown:
  assumes "im_wf m" "\<And>n g. im_get m n = Some g \<Longrightarrow> zone_from_node_id n = i" "\<And>g x. generic_of (mk g x) = g"
  shows "set (map (node_data_of i) m) = {shown n r | n r. map_option (report_of mk) (im_get m n) = Some r}"
proof -
  have "(n, g) \<in> set m \<longleftrightarrow> im_get m n = Some g" for n g using assms(1) by (simp add: im_wf_def)
  moreover have "node_data_of i (n, g) = shown n (report_of mk g)" if "im_get m n = Some g" for n g
    using assms(2)[OF that] assms(3) by (simp add: node_data_of_def shown_def report_of_def)
  ultimately have "node_data_of i ` set m = {shown n (report_of mk g) | n g. im_get m n = Some g}" by (force simp: image_iff)
  then show ?thesis unfolding map_option_eq_Some set_map by blast
qed

lemma zone_shown:
  assumes "zone_ok i z"
  shows "set (map (node_data_of i) (zc_consoles z) @ map (node_data_of i) (zc_gateways z) @ map (node_data_of i) (zc_medias z) @ map (node_data_of i) (zc_connectors z)) =
    {shown n r | k n r. zone_view z k n = Some r}"
proof -
  have wf: "im_wf (zc_consoles z)" "im_wf (zc_gateways z)" "im_wf (zc_medias z)" "im_wf (zc_connectors z)" using assms by (simp_all add: zone_ok_def)
  have zone: "zone_from_node_id n = i" if "zone_view z k n = Some r" for k n r using assms that unfolding zone_ok_def by blast
  have c: "set (map (node_data_of i) (zc_consoles z)) = {shown n r | n r. zone_view z KConsole n = Some r}"
    using table_shown[OF wf(1), of i "\<lambda>g _. InfoConsole g"] zone[of KConsole] by (simp add: zone_view_def generic_of_def)
  have g: "set (map (node_data_of i) (zc_gateways z)) = {shown n r | n r. zone_view z KGateway n = Some r}"
    using table_shown[OF wf(2), of i InfoGateway] zone[of KGateway] by (simp add: zone_view_def generic_of_def)
  have m: "set (map (node_data_of i) (zc_medias z)) = {shown n r | n r. zone_view z KMedia n = Some r}"
    using table_shown[OF wf(3), of i InfoMedia] zone[of KMedia] by (simp add: zone_view_def generic_of_def)
  have x: "set (map (node_data_of i) (zc_connectors z)) = {shown n r | n r. zone_view z KConnector n = Some r}"
    using table_shown[OF wf(4), of i "\<lambda>g _. InfoConnector g"] zone[of KConnector] by (simp add: zone_view_def generic_of_def)
  have "{shown n r | k n r. zone_view z k n = Some r} = (\<Union>k\<in>{KConsole, KGateway, KMedia, KConnector}. {shown n r | n r. zone_view z k n = Some r})"
    using node_kind.exhaust by blast
  then show ?thesis unfolding set_append c g m x by auto
qed

lemma concat_rows: "d \<in> set (concat (map (\<lambda>(i, z). f i z) xs)) \<longleftrightarrow> (\<exists>i z. (i, z) \<in> set xs \<and> d \<in> set (f i z))"
  by (induction xs) auto

lemma network_shown:
  assumes "cs_ok s"
  shows "set (network_node s) = {shown n r | k n r. cs_view s (k, n) = Some r}"
proof -
  have mem: "(i, z) \<in> set (cs_zones s) \<longleftrightarrow> im_get (cs_zones s) i = Some z" for i z using assms by (simp add: cs_ok_def im_wf_def)
  have zone: "zone_ok i z" if "im_get (cs_zones s) i = Some z" for i z using assms that by (simp add: cs_ok_def)
  have "d \<in> set (network_node s) \<longleftrightarrow> (\<exists>i z k n r. im_get (cs_zones s) i = Some z \<and> zone_view z k n = Some r \<and> d = shown n r)" for d
  proof -
    have "d \<in> set (network_node s) \<longleftrightarrow> (\<exists>i z. im_get (cs_zones s) i = Some z \<and>
        d \<in> set (map (node_data_of i) (zc_consoles z) @ map (node_data_of i) (zc_gateways z) @ map (node_data_of i) (zc_medias z) @ map (node_data_of i) (zc_connectors z)))"
      unfolding network_node_def mem[symmetric] by (rule concat_rows)
    then show ?thesis using zone_shown[OF zone] by blast
  qed
  moreover have "cs_view s (k, n) = Some r \<longleftrightarrow> (\<exists>i z. im_get (cs_zones s) i = Some z \<and> zone_view z k n = Some r)" for k n r
    using zone unfolding zone_ok_def by (fastforce simp: cs_view_def bind_eq_Some_conv)
  ultimately show ?thesis by blast
qed

section \<open>Properties\<close>

text \<open>C39: the console shows the latest reports and nothing else. After any sequence of reports, ticks and removals the tables hold exactly
  the flat table that maps a kind and a node to the latest report, without the reports of removed nodes and those that some tick
  found older than thirty seconds; and the listing of the network has entries for exactly the reports of that table.\<close>

theorem console_shows_latest_reports:
  "cs_view (fold (cs_step zero) ops cs_new) = fold flat_step ops (\<lambda>_. None) \<and>
   set (network_node (fold (cs_step zero) ops cs_new)) = {shown n r | k n r. fold flat_step ops (\<lambda>_. None) (k, n) = Some r}"
  proof -
  have run: "cs_ok (fold (cs_step zero) ops cs_new)" "cs_view (fold (cs_step zero) ops cs_new) = fold flat_step ops (\<lambda>_. None)"
    using cs_run[OF cs_new_ok(1), of zero ops] unfolding cs_new_ok(2) by blast+
  show ?thesis using network_shown[OF run(1)] unfolding run(2) by blast
qed

section \<open>Observations\<close>

text \<open>A node that was never seen leaves an empty zone in the listing when it is removed.\<close>

lemma removal_adds_zone: "map zs_id (cs_zone_list (cs_on_node_removed zero node cs_new)) = [zone_from_node_id node]"
  by (simp add: cs_zone_list_def cs_on_node_removed_def Let_def cs_new_def)

text \<open>A node that times out disappears without an event for the open consoles.\<close>

lemma timeout_is_silent: "cs_sent (cs_on_tick now s) = cs_sent s"
  by (simp add: cs_on_tick_def)

end
