(* ===== verification/Spec2Isabelle.thy ===== *)
theory Spec2Isabelle
  imports Seq_Rewrite Ts_Rewrite Seq_Extend Media_Types Video_Selectors Selector_Contract Packet_Selector
    Bitrate_Allocator Audio_Mixer Channel_Users Room_Types Room_Media_Track Room_Message_Channel Room_Metadata
    Room_Audio_Mixer Cluster_Room Room_Mixer_Contract Room_Contract Node_Contract Endpoint_Contract Endpoint_Session
    Rtp_Payload Rtp_Convert Session_Messages Webrtc_Whip Webrtc_Whep Webrtc_Sdk Rtp_Engine Connector_Agent Gateway_Store Console_Storage
begin

text \<open>
  Verification of atm0s-media-server, a decentralised selective forwarding server for real-time media.

  \<^bold>\<open>The program.\<close> A media node runs \<^emph>\<open>endpoints\<close>, one per connected client. An endpoint
  (\<open>packages/media_core/src/endpoint\<close>) consists of a \<^emph>\<open>transport\<close> (\<open>packages/transport_webrtc\<close>, \<open>transport_rtpengine\<close>), which talks to
  the client, and of a \<^emph>\<open>hub\<close> (\<open>endpoint/internal.rs\<close>), which owns the remote tracks (from the client) and the local tracks (to the
  client) and sends controls to the \<^emph>\<open>cluster\<close> (\<open>packages/media_core/src/cluster\<close>). The cluster keeps the rooms of the node. A room relays
  media, messages and metadata between its endpoints and the other nodes over publish/subscribe channels and
  key-value maps of an overlay network. \<^emph>\<open>Gateways\<close> (\<open>packages/media_gateway\<close>) choose a node for a new client from the load the nodes
  report, and \<^emph>\<open>connectors\<close> (\<open>packages/media_connector\<close>) collect events about the sessions. All this logic is written without I/O: calls
  change a state and append to queues, \<open>pop_output\<close> takes the outputs off. The model keeps this form: a \<open>record\<close> per struct, a
  function from state to state per method, an explicit queue field.

  \<^bold>\<open>Conventions.\<close> Code that may panic returns \<open>'a res\<close>, \<open>Inl\<close> being the panic (an index out of bounds, an \<open>expect\<close>, an arithmetic
  overflow: the model follows the checked build). Machine integers are words where they wrap by intention, otherwise \<open>nat\<close> or \<open>int\<close> with the
  bounds and casts written out. \<open>IndexMap\<close>, \<open>IndexSet\<close> and \<open>SmallMap\<close> are association lists in the order of the code (\<open>imap\<close>), with
  \<open>swap_remove\<close> as in the library. Times are milliseconds. Log output is omitted. Code of other projects is an argument: hash
  functions (\<open>Room_Types\<close>), the distance of two places (\<open>Gateway_Store\<close>), the reader of STUN packets (\<open>Webrtc_Common\<close>), serialisers. The runtime library
  of the program decides in which order the parts of a component are polled and which index a new part gets; both are arguments of
  the model, so theorems hold for every order. Loops that poll until nothing is left take the list of turns that the switcher
  granted; \<open>drain_ends\<close> and \<open>abandoned_room_drains\<close> show that the list is finite and long enough lists exist, so no result depends on
  a bound chosen here. Other loops are recursion over data and total.

  \<^bold>\<open>Theories and sources.\<close>
  \<^item> \<open>Media_Prelude\<close>: panics, casts, ordered maps (locale \<open>index_map\<close>), generic lemmas.
  \<^item> \<open>Seq_Rewrite\<close>, \<open>Ts_Rewrite\<close>, \<open>Seq_Extend\<close>: the number rewriters of \<open>media_utils\<close>. Shown: rewriting yields a gapless
    order-preserving sequence whatever was dropped, timestamps advance as the source does, sixteen bit numbers are
    extended to the unique near value; where the code departs from this (a drop behind a wrap-around) is shown too.
  \<^item> \<open>Media_Types\<close>: \<open>protocol/src/media.rs\<close>, with the choice of the layer for a bitrate.
  \<^item> \<open>Video_Selectors\<close>, \<open>Selector_Contract\<close>, \<open>Packet_Selector\<close>: \<open>endpoint/internal/local_track/packet_selector\<close>. The locale \<open>selector\<close> is the trait,
    interpreted by the H264, VP8 and VP9 selectors; the packet selector composes them with the rewriters.
  \<^item> \<open>Bitrate_Allocator\<close>, \<open>Audio_Mixer\<close>: egress and ingress allocation (locale \<open>allocator\<close>); the slots of \<open>packages/audio_mixer\<close> (locale \<open>slot_mixer\<close>).
  \<^item> \<open>Room_Types\<close>, \<open>Channel_Users\<close>, \<open>Room_Media_Track\<close>, \<open>Room_Message_Channel\<close>, \<open>Room_Metadata\<close>, \<open>Room_Audio_Mixer\<close>: the parts of a room. The
    locale \<open>channel_users\<close> states the contract they share, a channel is open exactly while it has users, and is interpreted for
    each of the eight publishers and subscribers; the properties of their commands rest on it.
  \<^item> \<open>Cluster_Room\<close>, \<open>Room_Mixer_Contract\<close>, \<open>Room_Contract\<close>, \<open>Node_Contract\<close>: \<open>cluster/room.rs\<close> and \<open>cluster.rs\<close>. Shown: a node never panics on controls
    that keep the protocol, an abandoned room drains and is removed, the node refines an abstract table of rooms.
  \<^item> \<open>Endpoint_Types\<close>, \<open>Local_Track\<close>, \<open>Remote_Track\<close>, \<open>Endpoint_Internal\<close>, \<open>Endpoint_Protocol\<close>, \<open>Endpoint_Contract\<close>, \<open>Endpoint_Session\<close>: the endpoint. Shown: it never
    panics, it keeps the protocol with the cluster that \<open>Node_Contract\<close> relies on, leaving and shutting down end.
  \<^item> \<open>Rtp_Payload\<close>, \<open>Rtp_Convert\<close>: \<open>transport_webrtc/src/media\<close>. Shown: no packet makes the VP8 and H264 readers panic, which VP9 packets do,
    the reader agrees with the layout of the header, a rewritten header is read back.
  \<^item> \<open>Session_Messages\<close>, \<open>Webrtc_Common\<close>, \<open>Webrtc_Whip\<close>, \<open>Webrtc_Whep\<close>, \<open>Webrtc_Sdk\<close>: the messages of a session (\<open>protocol/src/protobuf\<close>), the shared port, the damping of
    the bandwidth estimate and the three kinds of sessions of \<open>transport_webrtc/src\<close>. The locale \<open>webrtc_session\<close> is the trait
    \<open>TransportWebrtcInternal\<close> with what the endpoint expects of it, interpreted for each kind. Shown: packets reach their session only, sessions
    announce states and tracks in order, a viewer watches one peer, requests are dealt with once, a room is entered with permission only.
  \<^item> \<open>Rtp_Engine\<close>: the plain RTP transport of \<open>transport_rtpengine/src/transport.rs\<close>, which joins its room once, after answer and first audio.
  \<^item> \<open>Connector_Agent\<close>, \<open>Gateway_Store\<close>, \<open>Console_Storage\<close>: the sending side of the connector loses no request and repeats it until it is acknowledged; a
    gateway names a least loaded node of the nearest zone; the tables of the console (\<open>bin/src/server/console/storage.rs\<close>) refine one table of the latest reports.

  Lemmas under \<^emph>\<open>Observations\<close> show behaviours that a comment or the purpose of the code contradicts.

  \<^bold>\<open>Not modelled.\<close> Serialisation, which generated code does: messages stand before encoding; the SQL storage, web hooks and HTTP side of the
  connector (database and network I/O); the codecs (bindings to C libraries); recording and conversion of recordings (files and object
  storage); the wrapper of the WebRTC library (\<open>transport_webrtc/src/transport.rs\<close>) and the workers that hand inputs to endpoints by index
  (dispatch over libraries); tokens, tenants and signatures (cryptographic libraries); the binaries (HTTP, command line, QUIC).
\<close>

end
